(* ===== verification/Nano_Prelude.thy ===== *)
theory Nano_Prelude
  imports Main "HOL-Library.Word" "HOL-Library.Sublist" "HOL-Library.AList"
begin

text \<open>
  Shared material of the development: the model's names for the machine types of the Rust
  code, the parts of the Rust standard library the components call (string splitting,
  joining, trimming, searching, replacing, decimal formatting, ASCII case folding, the
  question-mark operator on results, hash maps as association lists) and the generic lemmas
  about them. Strings are the UTF-8 bytes of the Rust \<^verbatim>\<open>str\<close> (\<open>length\<close> is \<^verbatim>\<open>str::len\<close>, a
  byte count); every character the code searches for is ASCII, so searching bytewise and
  searching by character agree. \<^verbatim>\<open>usize\<close> is 64 bits wide.
\<close>

named_theorems str_simps \<open>evaluation of the string functions on concrete text\<close>
named_theorems res_splits \<open>case splits for results\<close>

type_synonym u8 = "8 word"
type_synonym u16 = "16 word"
type_synonym u32 = "32 word"
type_synonym u64 = "64 word"
type_synonym usize = "64 word"
type_synonym bytes = "8 word list"

section \<open>Results and the question-mark operator\<close>

text \<open>What a call that can panic gives.\<close>

datatype 'a outcome = Panic | Ret 'a

definition bind_res :: "'e + 'a \<Rightarrow> ('a \<Rightarrow> 'e + 'b) \<Rightarrow> 'e + 'b" where
  "bind_res r f = (case r of Inl e \<Rightarrow> Inl e | Inr x \<Rightarrow> f x)"

definition is_ok :: "'e + 'a \<Rightarrow> bool" where
  "is_ok r = (case r of Inl _ \<Rightarrow> False | Inr _ \<Rightarrow> True)"

section \<open>Strings: splitting, joining, trimming\<close>

fun split_on :: "'a \<Rightarrow> 'a list \<Rightarrow> 'a list list" where
  "split_on c [] = [[]]"
| "split_on c (x # xs) =
     (if x = c then [] # split_on c xs
      else (case split_on c xs of [] \<Rightarrow> [[x]] | y # ys \<Rightarrow> (x # y) # ys))"

fun join_with :: "'a list \<Rightarrow> 'a list list \<Rightarrow> 'a list" where
  "join_with s [] = []"
| "join_with s [x] = x"
| "join_with s (x # y # r) = x @ s @ join_with s (y # r)"

definition trim_start_matches :: "'a \<Rightarrow> 'a list \<Rightarrow> 'a list" where
  "trim_start_matches c s = dropWhile (\<lambda>x. x = c) s"

definition trim_end_matches :: "'a \<Rightarrow> 'a list \<Rightarrow> 'a list" where
  "trim_end_matches c s = rev (dropWhile (\<lambda>x. x = c) (rev s))"

definition starts_with :: "'a list \<Rightarrow> 'a list \<Rightarrow> bool" where
  "starts_with s p = (take (length p) s = p)"

definition ends_with_char :: "'a list \<Rightarrow> 'a \<Rightarrow> bool" where
  "ends_with_char s c = (s \<noteq> [] \<and> last s = c)"

text \<open>\<^verbatim>\<open>str::find\<close> of a string and \<^verbatim>\<open>str::contains\<close>: the index of the first occurrence.\<close>

fun find_sub :: "'a list \<Rightarrow> 'a list \<Rightarrow> nat option" where
  "find_sub p [] = (if p = [] then Some 0 else None)"
| "find_sub p (x # xs) =
     (if starts_with (x # xs) p then Some 0 else map_option Suc (find_sub p xs))"

definition contains_sub :: "'a list \<Rightarrow> 'a list \<Rightarrow> bool" where
  "contains_sub s p = (find_sub p s \<noteq> None)"

text \<open>\<^verbatim>\<open>str::find\<close> and \<^verbatim>\<open>str::rfind\<close> of one character.\<close>

fun find_char :: "'a \<Rightarrow> 'a list \<Rightarrow> nat option" where
  "find_char c [] = None"
| "find_char c (x # xs) = (if x = c then Some 0 else map_option Suc (find_char c xs))"

definition rfind_char :: "'a \<Rightarrow> 'a list \<Rightarrow> nat option" where
  "rfind_char c s = map_option (\<lambda>i. length s - 1 - i) (find_char c (rev s))"

text \<open>\<^verbatim>\<open>str::replace\<close>: non-overlapping occurrences, left to right. With the empty pattern,
  which the code never uses, the model leaves the text as it is.\<close>

function replace_sub :: "'a list \<Rightarrow> 'a list \<Rightarrow> 'a list \<Rightarrow> 'a list" where
  "replace_sub p r [] = []"
| "replace_sub p r (x # xs) =
     (if p \<noteq> [] \<and> starts_with (x # xs) p then r @ replace_sub p r (drop (length p) (x # xs))
      else x # replace_sub p r xs)"
  by pat_completeness auto
termination
  by (relation "measure (\<lambda>(p, r, s). length s)") (auto simp: neq_Nil_conv less_Suc_eq_le)

definition replace_char :: "'a \<Rightarrow> 'a \<Rightarrow> 'a list \<Rightarrow> 'a list" where
  "replace_char a b s = map (\<lambda>x. if x = a then b else x) s"

section \<open>Characters and decimal numbers\<close>

text \<open>
  \<^verbatim>\<open>to_lowercase\<close> on the ASCII range. Names in the configuration and in HTTP headers are
  ASCII (\<^verbatim>\<open>is_valid_hostname\<close> rejects anything else); bytes outside ASCII are left alone.
\<close>

definition lower_char :: "char \<Rightarrow> char" where
  "lower_char c =
     (let n = (of_char c :: nat) in if 65 \<le> n \<and> n \<le> 90 then char_of (n + 32) else c)"

definition to_lowercase :: "string \<Rightarrow> string" where
  "to_lowercase s = map lower_char s"

definition is_ascii_alphanumeric :: "char \<Rightarrow> bool" where
  "is_ascii_alphanumeric c =
     (let n = (of_char c :: nat)
      in (48 \<le> n \<and> n \<le> 57) \<or> (65 \<le> n \<and> n \<le> 90) \<or> (97 \<le> n \<and> n \<le> 122))"

fun show_nat :: "nat \<Rightarrow> string" where
  "show_nat n = (if n < 10 then [char_of (48 + n)]
     else show_nat (n div 10) @ [char_of (48 + n mod 10)])"

declare show_nat.simps [simp del]

text \<open>Paths of the host: \<^verbatim>\<open>Path::is_absolute\<close> and \<^verbatim>\<open>PathBuf::join\<close>.\<close>

definition path_is_absolute :: "string \<Rightarrow> bool" where
  "path_is_absolute p = starts_with p ''/''"

text \<open>\<^verbatim>\<open>PathBuf::join\<close>: an absolute argument replaces the base.\<close>

definition path_join :: "string \<Rightarrow> string \<Rightarrow> string" where
  "path_join base p =
     (if path_is_absolute p then p
      else if base = [] \<or> ends_with_char base (CHR ''/'') then base @ p
      else base @ ''/'' @ p)"

section \<open>Lemmas\<close>

lemma bind_res_simps [simp]:
  "bind_res (Inl e) f = Inl e" "bind_res (Inr x) f = f x"
  by (simp_all add: bind_res_def)

lemma bind_res_Inr: "bind_res r f = Inr y \<longleftrightarrow> (\<exists>x. r = Inr x \<and> f x = Inr y)"
  by (cases r) simp_all

lemma is_ok_simps [simp]: "is_ok (Inr x)" "\<not> is_ok (Inl e)"
  by (simp_all add: is_ok_def)

lemma is_ok_iff: "is_ok r \<longleftrightarrow> (\<exists>x. r = Inr x)"
  by (cases r) simp_all

subsection \<open>Splitting and joining\<close>

lemma split_on_ne [simp]: "split_on c s \<noteq> []"
  by (induction s) (auto split: list.split)

lemma split_on_no_sep: "x \<in> set (split_on c s) \<Longrightarrow> c \<notin> set x"
  by (induction s arbitrary: x) (auto split: if_splits list.splits)

lemma set_split_on: "x \<in> set (split_on c s) \<Longrightarrow> set x \<subseteq> set s"
  by (induction s arbitrary: x) (fastforce split: if_splits list.splits)+

lemma join_split [simp]: "join_with [c] (split_on c s) = s"
proof (induction s)
  case (Cons a s)
  obtain y ys where eq: "split_on c s = y # ys" by (cases "split_on c s") auto
  then show ?case using Cons by (cases ys) auto
qed simp

lemma split_on_atom: "c \<notin> set x \<Longrightarrow> split_on c x = [x]"
  by (induction x) auto

lemma split_on_append:
  "split_on c (x @ c # y) = split_on c x @ split_on c y"
  by (induction x) (auto split: list.split)

lemma split_join:
  "\<lbrakk>xs \<noteq> []; \<forall>x \<in> set xs. c \<notin> set x\<rbrakk> \<Longrightarrow> split_on c (join_with [c] xs) = xs"
proof (induction "[c]" xs rule: join_with.induct)
  case (3 x y r)
  then show ?case by (simp add: split_on_append split_on_atom)
qed (simp_all add: split_on_atom)

lemma set_join_with: "set (join_with [c] xs) \<subseteq> insert c (\<Union> (set ` set xs))"
  by (induction "[c]" xs rule: join_with.induct) auto

lemma join_with_append:
  "\<lbrakk>xs \<noteq> []; ys \<noteq> []\<rbrakk> \<Longrightarrow> join_with s (xs @ ys) = join_with s xs @ s @ join_with s ys"
proof (induction s xs rule: join_with.induct)
  case (2 s x) then show ?case by (cases ys) auto
qed auto

lemma length_join_filter:
  "length (join_with [c] (filter P xs)) \<le> length (join_with [c] xs)"
proof (induction "[c]" xs rule: join_with.induct)
  case (3 x y r)
  then show ?case
    by (cases "filter P (y # r)") (auto split: if_splits)
qed auto

lemma join_with_Nil_iff:
  "join_with [c] xs = [] \<longleftrightarrow> xs = [] \<or> xs = [[]]"
  by (induction "[c]" xs rule: join_with.induct) auto

lemma split_on_Cons_sep: "split_on c (c # s) = [] # split_on c s"
  by simp

lemma split_on_snoc_sep: "split_on c (s @ [c]) = split_on c s @ [[]]"
  using split_on_append [of c s "[]"] by simp

lemma filter_split_dropWhile:
  "filter (\<lambda>s. s \<noteq> []) (split_on c (dropWhile (\<lambda>x. x = c) s)) =
   filter (\<lambda>s. s \<noteq> []) (split_on c s)"
  by (induction s) auto

lemma filter_split_trim_start:
  "filter (\<lambda>s. s \<noteq> []) (split_on c (trim_start_matches c s)) =
   filter (\<lambda>s. s \<noteq> []) (split_on c s)"
  by (simp add: trim_start_matches_def filter_split_dropWhile)

lemma trim_end_matches_snoc:
  "trim_end_matches c (s @ [x]) = (if x = c then trim_end_matches c s else s @ [x])"
  by (simp add: trim_end_matches_def)

lemma trim_end_matches_Nil [simp]: "trim_end_matches c [] = []"
  by (simp add: trim_end_matches_def)

lemma filter_split_trim_end:
  "filter (\<lambda>s. s \<noteq> []) (split_on c (trim_end_matches c s)) =
   filter (\<lambda>s. s \<noteq> []) (split_on c s)"
  by (induction s rule: rev_induct)
    (auto simp: trim_end_matches_snoc split_on_snoc_sep)

lemma hd_split_on_Nil: "hd (split_on c s) = [] \<longleftrightarrow> s = [] \<or> hd s = c"
  by (cases s) (auto split: list.split)

lemma set_split_on_hd_tl:
  "x \<in> set (split_on c s) \<longleftrightarrow> x = hd (split_on c s) \<or> x \<in> set (tl (split_on c s))"
  by (cases "split_on c s") auto

lemma contains_pair_Cons:
  "contains_sub (a # s) [c, c] \<longleftrightarrow> (a = c \<and> s \<noteq> [] \<and> hd s = c) \<or> contains_sub s [c, c]"
  by (cases s) (auto simp: contains_sub_def starts_with_def)

lemma Nil_in_tl_split_on_iff:
  "[] \<in> set (tl (split_on c s)) \<longleftrightarrow> (s \<noteq> [] \<and> last s = c) \<or> contains_sub s [c, c]"
proof (induction s)
  case Nil
  then show ?case by (simp add: contains_sub_def)
next
  case (Cons a s)
  show ?case
  proof (cases "a = c")
    case True
    then show ?thesis
      using Cons hd_split_on_Nil [of c s] set_split_on_hd_tl [of "[]" c s]
      by (auto simp: contains_pair_Cons)
  next
    case False
    then have "tl (split_on c (a # s)) = tl (split_on c s)"
      by (cases "split_on c s") auto
    moreover have "contains_sub (a # s) [c, c] = contains_sub s [c, c]"
      using False by (simp add: contains_pair_Cons)
    moreover have "(last (a # s) = c) = (s \<noteq> [] \<and> last s = c)"
      using False by simp
    ultimately show ?thesis using Cons by (simp del: split_on.simps)
  qed
qed

lemma Nil_in_split_on_iff:
  "[] \<in> set (split_on c s) \<longleftrightarrow>
   s = [] \<or> hd s = c \<or> last s = c \<or> contains_sub s [c, c]"
  using set_split_on_hd_tl [of "[]" c s] hd_split_on_Nil [of c s] Nil_in_tl_split_on_iff [of c s]
  by auto

subsection \<open>Searching\<close>

lemma starts_with_iff_prefix: "starts_with s p \<longleftrightarrow> prefix p s"
  by (auto simp: starts_with_def prefix_def) (metis append_take_drop_id)

lemma find_char_None: "find_char c s = None \<longleftrightarrow> c \<notin> set s"
  by (induction s) auto

lemma find_char_Some:
  "find_char c s = Some i \<Longrightarrow>
   i < length s \<and> s = take i s @ c # drop (Suc i) s \<and> c \<notin> set (take i s)"
  by (induction s arbitrary: i) (auto split: if_splits)

lemma find_char_append: "c \<notin> set x \<Longrightarrow> find_char c (x @ c # y) = Some (length x)"
  by (induction x) auto

lemma first_sep_unique:
  assumes "c \<notin> set x" "c \<notin> set x'"
  shows "x @ c # y = x' @ c # y' \<longleftrightarrow> x = x' \<and> y = y'"
proof
  assume e: "x @ c # y = x' @ c # y'"
  then have "Some (length x) = Some (length x')"
    using assms find_char_append by metis
  with e show "x = x' \<and> y = y'" by simp
qed simp

lemma rfind_char_None: "rfind_char c s = None \<longleftrightarrow> c \<notin> set s"
  by (simp add: rfind_char_def find_char_None)

lemma rfind_char_append: "c \<notin> set y \<Longrightarrow> rfind_char c (x @ c # y) = Some (length x)"
proof -
  assume "c \<notin> set y"
  then have "find_char c (rev y @ c # rev x) = Some (length (rev y))"
    by (intro find_char_append) simp
  then show ?thesis by (simp add: rfind_char_def)
qed

lemma rfind_char_cases:
  assumes "rfind_char c s = Some i"
  obtains x y where "s = x @ c # y" "c \<notin> set y" "i = length x"
proof -
  from assms have "c \<in> set s"
    by (metis rfind_char_None option.distinct(1))
  then obtain x y where xy: "s = x @ c # y" "c \<notin> set y"
    by (meson split_list_last)
  with assms have "i = length x" by (simp add: rfind_char_append)
  with xy that show ?thesis by blast
qed

lemma replace_char_in_set: "a \<noteq> b \<Longrightarrow> a \<notin> set (replace_char a b s)"
  by (auto simp: replace_char_def)

lemma replace_char_plain: "a \<notin> set s \<Longrightarrow> replace_char a b s = s"
  by (auto simp: replace_char_def intro: map_idI)

lemma find_sub_first: "CHR '':'' \<notin> set ns \<Longrightarrow> find_sub ''::'' (ns @ ''::'' @ s) = Some (length ns)"
  by (induction ns) (auto simp: starts_with_def)

lemma replace_colons_plain: "CHR '':'' \<notin> set ns \<Longrightarrow> replace_sub ''::'' r ns = ns"
  by (induction ns) (auto simp: starts_with_def)

lemma length_replace_char [simp]: "length (replace_char a b s) = length s"
  by (simp add: replace_char_def)

subsection \<open>Filtering maps\<close>

lemma set_map_filter: "set (List.map_filter f xs) = {y. \<exists>x \<in> set xs. f x = Some y}"
  by (induction xs) (auto simp: List.map_filter_simps split: option.splits)

lemma map_filter_Some: "(\<And>x. x \<in> set xs \<Longrightarrow> f x = Some (g x)) \<Longrightarrow> List.map_filter f xs = map g xs"
  by (induction xs) (auto simp: List.map_filter_simps)

subsection \<open>Association lists\<close>

lemma alist_update_new: "map_of st k = None \<Longrightarrow> AList.update k v st = st @ [(k, v)]"
  by (induction st) (auto split: if_splits)

lemma set_alist_update: "set (AList.update k v st) \<subseteq> insert (k, v) (set st)"
  by (induction st) auto

lemma set_alist_delete: "set (AList.delete k st) \<subseteq> set st"
  by (auto simp: AList.delete_eq)

lemma map_of_alist_update [simp]: "map_of (AList.update k v st) = (map_of st)(k \<mapsto> v)"
  by (rule ext) (simp add: AList.update_conv)

lemma map_of_alist_delete [simp]: "map_of (AList.delete k st) = (map_of st)(k := None)"
  by (rule AList.delete_conv')

lemma delete_after_update: "AList.delete k (AList.update k v m) = AList.delete k m"
  by (induction m) (auto simp: AList.delete_eq)

subsection \<open>Words as counters\<close>

lemma of_nat_unat_id: "of_nat (unat (w :: 'a :: len word)) = w"
  by simp

lemma u32_bound: "unat (x :: 32 word) < 2 ^ 32"
  using unsigned_less [of x] by simp

lemma u64_bound: "unat (x :: 64 word) < 2 ^ 64"
  using unsigned_less [of x] by simp

lemma usize_of_nat:
  "n < 2 ^ 64 \<Longrightarrow> unat (of_nat n :: 64 word) = n"
  by (simp add: unat_of_nat)

lemma usize_Suc:
  assumes "unat (n :: 64 word) + 1 < 2 ^ 64"
  shows "unat (n + 1) = unat n + 1"
proof -
  have "n + 1 = of_nat (unat n + 1)" by simp
  then show ?thesis using assms by (simp only: usize_of_nat)
qed

lemma usize_inc: "\<lbrakk>unat (n :: 64 word) = N; N < 2 ^ 63\<rbrakk> \<Longrightarrow> unat (n + 1) = N + 1"
  using usize_Suc [of n] by simp

lemma usize_dec:
  assumes n: "unat (n :: 64 word) = N" and m: "m \<le> N"
  shows "unat (n - of_nat m) = N - m"
proof -
  have N: "N < 2 ^ 64" using n u64_bound [of n] by simp
  have "n = of_nat (N - m) + of_nat m"
    using n m by (metis le_add_diff_inverse2 of_nat_add of_nat_unat_id)
  then have "n - of_nat m = of_nat (N - m)" by simp
  moreover have "N - m < 2 ^ 64" using N by simp
  ultimately show ?thesis by (simp only: usize_of_nat)
qed

lemma usize_pred: "n \<noteq> 0 \<Longrightarrow> unat ((n :: 64 word) - 1) = unat n - 1"
  using usize_dec [of n "unat n" 1] by (simp add: unat_gt_0 Suc_le_eq)

end
