(* ===== verification/Http_Types.thy ===== *)
theory Http_Types
  imports Nano_Prelude
begin

text \<open>
  The HTTP data types handed to JavaScript: headers (\<^verbatim>\<open>src/src/http/headers.rs\<close>), search parameters
  (\<^verbatim>\<open>src/src/http/url.rs\<close>), requests, responses and content types (\<^verbatim>\<open>src/src/http/types.rs\<close>). Headers
  and search parameters are both maps from names to value lists; the locale \<open>multimap\<close> is that
  contract, with the equivalence of names as a parameter, and both are interpretations of it.
  URL parsing and percent decoding are library code, so the decoder is an argument.
\<close>

section \<open>Definitions\<close>

subsection \<open>Headers\<close>

type_synonym values_map = "(string \<times> string list) list"

definition lookup_values :: "values_map \<Rightarrow> string \<Rightarrow> string list" where
  "lookup_values m k = (case map_of m k of Some vs \<Rightarrow> vs | None \<Rightarrow> [])"

text \<open>\<^verbatim>\<open>entry(k).or_default().push(v)\<close>\<close>

definition push_value :: "string \<Rightarrow> string \<Rightarrow> values_map \<Rightarrow> values_map" where
  "push_value k v m = AList.update k (lookup_values m k @ [v]) m"

record nano_headers =
  headers :: values_map

definition headers_new :: nano_headers where
  "headers_new = \<lparr>headers = []\<rparr>"

text \<open>A header value of the server is \<open>None\<close> when it is not printable ASCII.\<close>

definition from_axum_headers :: "(string \<times> string option) list \<Rightarrow> nano_headers" where
  "from_axum_headers hs = \<lparr>headers = fold (\<lambda>(name, value).
     push_value (to_lowercase name) (case value of Some v \<Rightarrow> v | None \<Rightarrow> [])) hs []\<rparr>"

definition combined_value :: "string \<Rightarrow> string list \<Rightarrow> string" where
  "combined_value name_lower vs =
     (if name_lower = ''set-cookie'' then (case vs of v # _ \<Rightarrow> v | [] \<Rightarrow> [])
      else join_with '', '' vs)"

definition header_get :: "nano_headers \<Rightarrow> string \<Rightarrow> string option" where
  "header_get h name = (let name_lower = to_lowercase name in
     map_option (combined_value name_lower) (map_of (headers h) name_lower))"

definition get_set_cookie :: "nano_headers \<Rightarrow> string list" where
  "get_set_cookie h = lookup_values (headers h) ''set-cookie''"

definition header_has :: "nano_headers \<Rightarrow> string \<Rightarrow> bool" where
  "header_has h name = (map_of (headers h) (to_lowercase name) \<noteq> None)"

definition header_set :: "string \<Rightarrow> string \<Rightarrow> nano_headers \<Rightarrow> nano_headers" where
  "header_set name value h = h\<lparr>headers := AList.update (to_lowercase name) [value] (headers h)\<rparr>"

definition header_append :: "string \<Rightarrow> string \<Rightarrow> nano_headers \<Rightarrow> nano_headers" where
  "header_append name value h = h\<lparr>headers := push_value (to_lowercase name) value (headers h)\<rparr>"

definition header_delete :: "string \<Rightarrow> nano_headers \<Rightarrow> nano_headers" where
  "header_delete name h = h\<lparr>headers := AList.delete (to_lowercase name) (headers h)\<rparr>"

text \<open>\<^verbatim>\<open>for_each\<close> is the list of its callback's arguments.\<close>

definition header_for_each :: "nano_headers \<Rightarrow> (string \<times> string) list" where
  "header_for_each h = map (\<lambda>(name, vs). (name, combined_value name vs)) (headers h)"

text \<open>The header library decides which names and values are legal.\<close>

definition to_axum_headers ::
  "(string \<Rightarrow> bool) \<Rightarrow> (string \<Rightarrow> bool) \<Rightarrow> nano_headers \<Rightarrow> (string \<times> string) list" where
  "to_axum_headers name_ok value_ok h = concat (map (\<lambda>(name, vs).
     map (Pair name) (filter (\<lambda>v. name_ok name \<and> value_ok v) vs)) (headers h))"

subsection \<open>Search parameters\<close>

record search_params =
  params :: values_map

text \<open>\<^verbatim>\<open>split_once\<close>\<close>

definition split_once :: "char \<Rightarrow> string \<Rightarrow> (string \<times> string) option" where
  "split_once c s = map_option (\<lambda>i. (take i s, drop (i + 1) s)) (find_char c s)"

definition from_query :: "(string \<Rightarrow> string) \<Rightarrow> string option \<Rightarrow> search_params" where
  "from_query decode query = (case query of
       None \<Rightarrow> \<lparr>params = []\<rparr>
     | Some q \<Rightarrow> \<lparr>params = fold (\<lambda>pair m. case split_once (CHR ''='') pair of
           Some (key, value) \<Rightarrow> push_value (decode key) (decode value) m
         | None \<Rightarrow> m) (split_on (CHR ''&'') q) []\<rparr>)"

definition param_get :: "search_params \<Rightarrow> string \<Rightarrow> string option" where
  "param_get p name = (case map_of (params p) name of
       Some (v # _) \<Rightarrow> Some v | _ \<Rightarrow> None)"

definition param_get_all :: "search_params \<Rightarrow> string \<Rightarrow> string list" where
  "param_get_all p name = lookup_values (params p) name"

definition param_has :: "search_params \<Rightarrow> string \<Rightarrow> bool" where
  "param_has p name = (map_of (params p) name \<noteq> None)"

definition param_set :: "string \<Rightarrow> string \<Rightarrow> search_params \<Rightarrow> search_params" where
  "param_set name value p = p\<lparr>params := AList.update name [value] (params p)\<rparr>"

definition param_append :: "string \<Rightarrow> string \<Rightarrow> search_params \<Rightarrow> search_params" where
  "param_append name value p = p\<lparr>params := push_value name value (params p)\<rparr>"

definition param_delete :: "string \<Rightarrow> search_params \<Rightarrow> search_params" where
  "param_delete name p = p\<lparr>params := AList.delete name (params p)\<rparr>"

definition params_to_string :: "search_params \<Rightarrow> string" where
  "params_to_string p = join_with ''&'' (concat (map (\<lambda>(key, vs).
     map (\<lambda>value. key @ ''='' @ value) vs) (params p)))"

subsection \<open>Requests and responses\<close>

text \<open>Of a parsed URL the program uses the path, the query and the text.\<close>

record nano_url =
  href :: string
  pathname :: string
  url_search_params :: search_params

record nano_request =
  req_method :: string
  url :: nano_url
  req_headers :: nano_headers
  req_body :: "bytes option"

record nano_response =
  status :: u16
  status_text :: string
  resp_headers :: nano_headers
  resp_body :: "bytes option"
  worker_id :: "u32 option"
  isolate_id :: "string option"

definition default_status_text :: "u16 \<Rightarrow> string" where
  "default_status_text s =
     (if s = 200 then ''OK'' else if s = 201 then ''Created'' else if s = 204 then ''No Content''
      else if s = 301 then ''Moved Permanently'' else if s = 302 then ''Found''
      else if s = 304 then ''Not Modified'' else if s = 400 then ''Bad Request''
      else if s = 401 then ''Unauthorized'' else if s = 403 then ''Forbidden''
      else if s = 404 then ''Not Found'' else if s = 405 then ''Method Not Allowed''
      else if s = 500 then ''Internal Server Error'' else if s = 502 then ''Bad Gateway''
      else if s = 503 then ''Service Unavailable'' else ''Unknown'')"

definition response_new :: "u16 \<Rightarrow> nano_headers \<Rightarrow> bytes option \<Rightarrow> nano_response" where
  "response_new s h b = \<lparr>status = s, status_text = default_status_text s, resp_headers = h,
     resp_body = b, worker_id = None, isolate_id = None\<rparr>"

definition response_ok :: nano_response where
  "response_ok = response_new 200 headers_new None"

definition with_status :: "u16 \<Rightarrow> nano_response" where
  "with_status s = response_new s headers_new None"

definition not_found :: nano_response where
  "not_found = response_new 404 headers_new None"

definition with_header :: "string \<Rightarrow> string \<Rightarrow> nano_response \<Rightarrow> nano_response" where
  "with_header name value r = r\<lparr>resp_headers := header_set name value (resp_headers r)\<rparr>"

definition with_body_bytes :: "bytes \<Rightarrow> nano_response \<Rightarrow> nano_response" where
  "with_body_bytes b r = r\<lparr>resp_body := Some b\<rparr>"

definition string_bytes :: "string \<Rightarrow> bytes" where
  "string_bytes s = map of_char s"

definition with_body :: "string \<Rightarrow> nano_response \<Rightarrow> nano_response" where
  "with_body s r = r\<lparr>resp_body := Some (string_bytes s)\<rparr>"

definition set_worker_id :: "u32 \<Rightarrow> nano_response \<Rightarrow> nano_response" where
  "set_worker_id w r = r\<lparr>worker_id := Some w\<rparr>"

definition set_isolate_id :: "string \<Rightarrow> nano_response \<Rightarrow> nano_response" where
  "set_isolate_id i r = r\<lparr>isolate_id := Some i\<rparr>"

record axum_response =
  ax_status :: u16
  ax_headers :: "(string \<times> string) list"
  ax_body :: bytes

definition default_axum_response :: axum_response where
  "default_axum_response = \<lparr>ax_status = 200, ax_headers = [], ax_body = []\<rparr>"

text \<open>A status the library does not accept poisons the builder, and the default is returned.\<close>

definition to_axum_response ::
  "(u16 \<Rightarrow> bool) \<Rightarrow> (string \<Rightarrow> bool) \<Rightarrow> (string \<Rightarrow> bool) \<Rightarrow> nano_response \<Rightarrow> axum_response" where
  "to_axum_response status_ok name_ok value_ok r =
     (if status_ok (status r)
      then \<lparr>ax_status = status r, ax_headers = to_axum_headers name_ok value_ok (resp_headers r),
            ax_body = (case resp_body r of Some b \<Rightarrow> b | None \<Rightarrow> [])\<rparr>
      else default_axum_response)"

definition content_types :: "(string \<times> string) list" where
  "content_types =
     [(''html'', ''text/html; charset=utf-8''), (''htm'', ''text/html; charset=utf-8''),
      (''css'', ''text/css; charset=utf-8''),
      (''js'', ''application/javascript; charset=utf-8''),
      (''mjs'', ''application/javascript; charset=utf-8''),
      (''json'', ''application/json; charset=utf-8''),
      (''xml'', ''application/xml; charset=utf-8''),
      (''txt'', ''text/plain; charset=utf-8''), (''md'', ''text/markdown; charset=utf-8''),
      (''svg'', ''image/svg+xml; charset=utf-8''),
      (''png'', ''image/png''), (''jpg'', ''image/jpeg''), (''jpeg'', ''image/jpeg''),
      (''gif'', ''image/gif''), (''webp'', ''image/webp''), (''ico'', ''image/x-icon''),
      (''bmp'', ''image/bmp''), (''tiff'', ''image/tiff''), (''tif'', ''image/tiff''),
      (''avif'', ''image/avif''), (''woff2'', ''font/woff2''), (''woff'', ''font/woff''),
      (''ttf'', ''font/ttf''), (''otf'', ''font/otf''),
      (''eot'', ''application/vnd.ms-fontobject''), (''pdf'', ''application/pdf''),
      (''zip'', ''application/zip''), (''gz'', ''application/gzip''),
      (''gzip'', ''application/gzip''), (''tar'', ''application/x-tar''),
      (''bz2'', ''application/x-bzip2''), (''7z'', ''application/x-7z-compressed''),
      (''rar'', ''application/x-rar-compressed''), (''wasm'', ''application/wasm''),
      (''mp4'', ''video/mp4''), (''webm'', ''video/webm''), (''mp3'', ''audio/mpeg''),
      (''ogg'', ''audio/ogg''), (''oga'', ''audio/ogg''), (''ogv'', ''video/ogg''),
      (''weba'', ''audio/webm''), (''opus'', ''audio/opus'')]"

definition content_type_from_ext :: "string \<Rightarrow> string" where
  "content_type_from_ext ext = (case map_of content_types (to_lowercase ext) of
       Some t \<Rightarrow> t | None \<Rightarrow> ''application/octet-stream'')"

subsection \<open>Sequences of header operations\<close>

datatype header_op = HSet string string | HAppend string string | HDelete string

definition header_step :: "header_op \<Rightarrow> nano_headers \<Rightarrow> nano_headers" where
  "header_step x h = (case x of HSet n v \<Rightarrow> header_set n v h | HAppend n v \<Rightarrow> header_append n v h
     | HDelete n \<Rightarrow> header_delete n h)"

text \<open>The abstract value list of one name after a sequence of operations.\<close>

definition spec_step :: "string \<Rightarrow> header_op \<Rightarrow> string list \<Rightarrow> string list" where
  "spec_step name x vs = (case x of
       HSet n v \<Rightarrow> if to_lowercase n = to_lowercase name then [v] else vs
     | HAppend n v \<Rightarrow> if to_lowercase n = to_lowercase name then vs @ [v] else vs
     | HDelete n \<Rightarrow> if to_lowercase n = to_lowercase name then [] else vs)"

text \<open>No name is stored with an empty value list.\<close>

definition values_ok :: "values_map \<Rightarrow> bool" where
  "values_ok m = (distinct (map fst m) \<and> [] \<notin> snd ` set m)"

definition query_pair :: "(string \<Rightarrow> string) \<Rightarrow> string \<Rightarrow> (string \<times> string) option" where
  "query_pair decode pair =
     map_option (\<lambda>(k, v). (decode k, decode v)) (split_once (CHR ''='') pair)"

subsection \<open>The contract of a multimap\<close>

locale multimap =
  fixes same :: "string \<Rightarrow> string \<Rightarrow> bool"
    and vals :: "'m \<Rightarrow> string \<Rightarrow> string list"
    and put :: "string \<Rightarrow> string \<Rightarrow> 'm \<Rightarrow> 'm"
    and add :: "string \<Rightarrow> string \<Rightarrow> 'm \<Rightarrow> 'm"
    and del :: "string \<Rightarrow> 'm \<Rightarrow> 'm"
  assumes same_refl: "same k k"
    and same_sym: "same k k' \<Longrightarrow> same k' k"
    and same_trans: "\<lbrakk>same k k'; same k' k''\<rbrakk> \<Longrightarrow> same k k''"
    and vals_same: "same k k' \<Longrightarrow> vals m k = vals m k'"
    and vals_put: "vals (put k v m) k' = (if same k k' then [v] else vals m k')"
    and vals_add: "vals (add k v m) k' = (if same k k' then vals m k' @ [v] else vals m k')"
    and vals_del: "vals (del k m) k' = (if same k k' then [] else vals m k')"

context multimap
begin

lemma vals_add_all:
  "vals (fold (\<lambda>(k, v). add k v) kvs m) k' =
     vals m k' @ map snd (filter (\<lambda>kv. same (fst kv) k') kvs)"
  by (induction kvs arbitrary: m) (auto simp: vals_add)

lemma put_then_adds:
  "vals (fold (\<lambda>v. add k v) vs (put k v m)) k' = (if same k k' then v # vs else vals m k')"
proof -
  have "vals (fold (\<lambda>v. add k v) vs n) k' = (if same k k' then vals n k' @ vs else vals n k')" for n
    by (induction vs arbitrary: n) (simp_all add: vals_add)
  then show ?thesis by (simp add: vals_put)
qed

lemma del_forgets: "vals (del k (add k v m)) = vals (del k m)"
  by (rule ext) (simp add: vals_del vals_add)

end

section \<open>Both maps are multimaps\<close>

lemma lookup_values_Nil [simp]: "lookup_values [] k = []"
  by (simp add: lookup_values_def)

lemma lookup_values_update [simp]:
  "lookup_values (AList.update k vs m) k' = (if k = k' then vs else lookup_values m k')"
  by (simp add: lookup_values_def)

lemma lookup_values_push [simp]:
  "lookup_values (push_value k v m) k' =
     (if k = k' then lookup_values m k' @ [v] else lookup_values m k')"
  by (simp add: push_value_def)

lemma lookup_values_delete [simp]:
  "lookup_values (AList.delete k m) k' = (if k = k' then [] else lookup_values m k')"
  by (simp add: lookup_values_def)

interpretation hdr: multimap "\<lambda>a b. to_lowercase a = to_lowercase b"
  "\<lambda>h k. lookup_values (headers h) (to_lowercase k)" header_set header_append header_delete
  by unfold_locales (auto simp: header_set_def header_append_def header_delete_def)

interpretation par: multimap "(=)" param_get_all param_set param_append param_delete
  by unfold_locales (auto simp: param_get_all_def param_set_def param_append_def param_delete_def)

lemma values_ok_update: "\<lbrakk>values_ok m; vs \<noteq> []\<rbrakk> \<Longrightarrow> values_ok (AList.update k vs m)"
proof -
  assume m: "values_ok m" and vs: "vs \<noteq> []"
  have "set (AList.update k vs m) \<subseteq> insert (k, vs) (set m)" by (rule set_alist_update)
  with m vs show ?thesis by (auto simp: values_ok_def AList.distinct_update)
qed

lemma values_ok_push: "values_ok m \<Longrightarrow> values_ok (push_value k v m)"
  by (simp add: push_value_def values_ok_update)

lemma values_ok_delete: "values_ok m \<Longrightarrow> values_ok (AList.delete k m)"
  using AList.distinct_delete [of m k] set_alist_delete [of k m] by (auto simp: values_ok_def)

lemma values_ok_present: "values_ok m \<Longrightarrow> map_of m k = Some vs \<longleftrightarrow> vs \<noteq> [] \<and> lookup_values m k = vs"
  by (cases "map_of m k") (auto simp: values_ok_def lookup_values_def image_iff dest: map_of_SomeD)

lemma values_ok_absent: "values_ok m \<Longrightarrow> map_of m k = None \<longleftrightarrow> lookup_values m k = []"
  using values_ok_present [of m k] by (cases "map_of m k") (auto simp: lookup_values_def)

lemma header_step_ok: "values_ok (headers h) \<Longrightarrow> values_ok (headers (header_step x h))"
  by (cases x) (simp_all add: header_step_def header_set_def header_append_def header_delete_def
      values_ok_update values_ok_push values_ok_delete)

lemma header_step_vals:
  "lookup_values (headers (header_step x h)) (to_lowercase name) =
     spec_step name x (lookup_values (headers h) (to_lowercase name))"
  by (cases x) (simp_all add: header_step_def spec_step_def hdr.vals_put hdr.vals_add hdr.vals_del)

lemma header_run:
  "values_ok (headers h) \<Longrightarrow> values_ok (headers (fold header_step xs h))
     \<and> lookup_values (headers (fold header_step xs h)) (to_lowercase name) =
         fold (spec_step name) xs (lookup_values (headers h) (to_lowercase name))"
  by (induction xs arbitrary: h) (simp_all add: header_step_ok header_step_vals)

lemma headers_new_ok: "values_ok (headers headers_new)"
  by (simp add: values_ok_def headers_new_def)

lemma push_all_values:
  "lookup_values (fold (\<lambda>(n, v). push_value (f n) (g v)) kvs m) k =
     lookup_values m k @ map (\<lambda>nv. g (snd nv)) (filter (\<lambda>nv. f (fst nv) = k) kvs)"
  by (induction kvs arbitrary: m) auto

lemma push_all_ok:
  "values_ok m \<Longrightarrow> values_ok (fold (\<lambda>(n, v). push_value (f n) (g v)) kvs m)"
  by (induction kvs arbitrary: m) (auto simp: values_ok_push)

lemma filter_concat_values:
  "distinct (map fst m) \<Longrightarrow>
     map snd (filter (\<lambda>p. fst p = k) (concat (map (\<lambda>(n, vs). map (Pair n) (filter (P n) vs)) m))) =
     filter (P k) (lookup_values m k)"
proof (induction m)
  case (Cons nv m)
  obtain n vs where nv: "nv = (n, vs)" by (cases nv)
  have "filter (\<lambda>p. fst p = k) (map (Pair n) (filter (P n) vs)) =
      (if n = k then map (Pair n) (filter (P n) vs) else [])"
    by (auto simp: filter_empty_conv filter_id_conv)
  moreover have "k \<notin> fst ` set m \<Longrightarrow> lookup_values m k = []"
    by (simp add: lookup_values_def map_of_eq_None_iff [THEN iffD2])
  ultimately show ?case
    using Cons by (auto simp: nv lookup_values_def o_def)
qed (simp add: lookup_values_def)

lemma from_query_values:
  "param_get_all (from_query dec (Some q)) name =
     map snd (filter (\<lambda>kv. fst kv = name) (List.map_filter (query_pair dec) (split_on (CHR ''&'') q)))"
proof -
  have "lookup_values (fold (\<lambda>pair m. case split_once (CHR ''='') pair of
           Some (key, value) \<Rightarrow> push_value (dec key) (dec value) m | None \<Rightarrow> m) ps m) name =
      lookup_values m name @ map snd (filter (\<lambda>kv. fst kv = name) (List.map_filter (query_pair dec) ps))"
    for ps m
    by (induction ps arbitrary: m)
      (auto simp: List.map_filter_simps query_pair_def split: option.splits prod.splits)
  from this [of "split_on (CHR ''&'') q" "[]"] show ?thesis
    by (simp add: from_query_def param_get_all_def lookup_values_def)
qed

section \<open>Round trip of search parameters\<close>

lemma split_once_plain: "CHR ''='' \<notin> set k \<Longrightarrow> split_once (CHR ''='') (k @ ''='' @ v) = Some (k, v)"
  by (simp add: split_once_def find_char_append)

lemma map_filter_append: "List.map_filter f (xs @ ys) = List.map_filter f xs @ List.map_filter f ys"
  by (simp add: List.map_filter_def)

lemma reparse_pairs:
  assumes "\<forall>(k, vs) \<in> set m. dec k = k \<and> CHR ''='' \<notin> set k \<and> (\<forall>v \<in> set vs. dec v = v)"
  shows "List.map_filter (query_pair dec)
     (concat (map (\<lambda>(k, vs). map (\<lambda>v. k @ ''='' @ v) vs) m)) =
     concat (map (\<lambda>(k, vs). map (Pair k) vs) m)"
  using assms
proof (induction m)
  case Nil
  then show ?case by (simp add: List.map_filter_simps)
next
  case (Cons kvs m)
  obtain k vs where kvs: "kvs = (k, vs)" by (cases kvs)
  have "\<forall>v \<in> set vs. dec v = v" "dec k = k" "CHR ''='' \<notin> set k" using Cons.prems by (auto simp: kvs)
  then have "List.map_filter (query_pair dec) (map (\<lambda>v. k @ ''='' @ v) vs) = map (Pair k) vs"
    by (induction vs)
      (auto simp: List.map_filter_simps query_pair_def split_once_plain [simplified])
  with Cons show ?case by (simp add: kvs map_filter_append)
qed

lemma reparse_values:
  assumes "distinct (map fst m)"
    "\<forall>(k, vs) \<in> set m. dec k = k \<and> CHR ''='' \<notin> set k \<and> CHR ''&'' \<notin> set k
       \<and> (\<forall>v \<in> set vs. dec v = v \<and> CHR ''&'' \<notin> set v)"
  shows "param_get_all (from_query dec (Some (params_to_string \<lparr>params = m\<rparr>))) name = lookup_values m name"
proof -
  let ?ps = "concat (map (\<lambda>(k, vs). map (\<lambda>v. k @ ''='' @ v) vs) m)"
  have "\<forall>x \<in> set ?ps. CHR ''&'' \<notin> set x" using assms(2) by fastforce
  then have "split_on (CHR ''&'') (join_with ''&'' ?ps) = (if ?ps = [] then [[]] else ?ps)"
    using split_join [of ?ps "CHR ''&''"] by (cases "?ps = []") (simp_all only: join_with.simps split_on.simps if_True if_False simp_thms)
  moreover have "List.map_filter (query_pair dec) [[]] = []"
    by (simp add: List.map_filter_simps query_pair_def split_once_def)
  ultimately have "List.map_filter (query_pair dec) (split_on (CHR ''&'') (join_with ''&'' ?ps)) =
      concat (map (\<lambda>(k, vs). map (Pair k) vs) m)"
    using reparse_pairs [of m dec] assms(2) by (auto simp: List.map_filter_simps)
  then show ?thesis
    using filter_concat_values [OF assms(1), of name "\<lambda>_ _. True"]
    by (simp add: from_query_values params_to_string_def)
qed

section \<open>Properties\<close>

text \<open>
  Header names are case-insensitive throughout: after any sequence of set, append and
  delete operations, looking up a name in any spelling returns what the operations on that
  name in any spelling left there, joined with commas, except that \<^verbatim>\<open>Set-Cookie\<close> yields its first
  value; a header is present iff it has a value.
\<close>

theorem headers_case_insensitive:
  "let h = fold header_step xs headers_new; vs = fold (spec_step name) xs [] in
     header_has h name = (vs \<noteq> [])
     \<and> header_get h name = (if vs = [] then None
         else Some (if to_lowercase name = ''set-cookie'' then hd vs else join_with '', '' vs))"
proof -
  let ?h = "fold header_step xs headers_new" and ?k = "to_lowercase name"
  have r: "values_ok (headers ?h)" "lookup_values (headers ?h) ?k = fold (spec_step name) xs []"
    using header_run [OF headers_new_ok, of xs name] by (simp_all add: headers_new_def lookup_values_def)
  show ?thesis
  proof (cases "map_of (headers ?h) ?k")
    case None
    then show ?thesis
      using r values_ok_absent [OF r(1), of ?k] by (simp add: header_has_def header_get_def Let_def)
  next
    case (Some vs)
    then have "vs \<noteq> []" "lookup_values (headers ?h) ?k = vs"
      using values_ok_present [OF r(1), of ?k vs] by auto
    with Some r show ?thesis
      by (simp add: header_has_def header_get_def combined_value_def Let_def split: list.split)
  qed
qed

text \<open>
  Headers survive the conversion from and back to the server's header map: for every name
  the legal values come back in their original order, so repeated headers such as
  \<^verbatim>\<open>Set-Cookie\<close> are neither merged nor reordered.
\<close>

theorem headers_axum_roundtrip:
  assumes "\<forall>(n, v) \<in> set hs. to_lowercase n = n"
  shows "map snd (filter (\<lambda>p. fst p = k) (to_axum_headers name_ok value_ok (from_axum_headers hs))) =
     filter (\<lambda>v. name_ok k \<and> value_ok v)
       (map (\<lambda>p. case snd p of Some v \<Rightarrow> v | None \<Rightarrow> []) (filter (\<lambda>p. fst p = k) hs))"
proof -
  let ?m = "headers (from_axum_headers hs)"
  have "values_ok ?m"
    using push_all_ok [of "[]"] by (simp add: from_axum_headers_def values_ok_def)
  then have "map snd (filter (\<lambda>p. fst p = k) (to_axum_headers name_ok value_ok (from_axum_headers hs))) =
      filter (\<lambda>v. name_ok k \<and> value_ok v) (lookup_values ?m k)"
    using filter_concat_values [of ?m k "\<lambda>n v. name_ok n \<and> value_ok v"]
    by (simp add: to_axum_headers_def values_ok_def)
  moreover have "filter (\<lambda>p. to_lowercase (fst p) = k) hs = filter (\<lambda>p. fst p = k) hs"
    using assms by (intro filter_cong) auto
  ultimately show ?thesis
    by (simp add: from_axum_headers_def push_all_values)
qed

theorem headers_axum_roundtrip_witness:
  "map snd (filter (\<lambda>p. fst p = ''set-cookie'') (to_axum_headers (\<lambda>_. True) (\<lambda>_. True)
     (from_axum_headers [(''set-cookie'', Some ''a=1''), (''host'', Some ''x''), (''set-cookie'', Some ''b=2'')])))
   = [''a=1'', ''b=2'']"
proof -
  let ?hs = "[(''set-cookie'', Some ''a=1''), (''host'', Some ''x''), (''set-cookie'', Some ''b=2'')]"
  have "\<forall>(n, v) \<in> set ?hs. to_lowercase n = n" by code_simp
  from headers_axum_roundtrip [OF this, of "''set-cookie''" "\<lambda>_. True" "\<lambda>_. True"]
  show ?thesis by simp
qed

text \<open>
  Search parameters: parsing a query collects, for every decoded name, the decoded values
  of its \<^verbatim>\<open>name=value\<close> pairs in order. Printing parameters and parsing the text again gives them
  back when names and values have no separator and need no decoding; the printer escapes
  nothing, so a value with an ampersand becomes two parameters.
\<close>

theorem search_params_roundtrip:
  assumes "values_ok (params p)"
    "\<forall>(k, vs) \<in> set (params p). dec k = k \<and> CHR ''='' \<notin> set k \<and> CHR ''&'' \<notin> set k
       \<and> (\<forall>v \<in> set vs. dec v = v \<and> CHR ''&'' \<notin> set v)"
  shows "param_get_all (from_query dec (Some (params_to_string p))) = param_get_all p
     \<and> params_to_string (param_set ''a'' ''1&b=2'' \<lparr>params = []\<rparr>) = ''a=1&b=2''
     \<and> param_get_all (from_query (\<lambda>s. s) (Some ''a=1&b=2'')) ''b'' = [''2'']"
proof (intro conjI)
  show "param_get_all (from_query dec (Some (params_to_string p))) = param_get_all p"
    using reparse_values [of "params p" dec] assms
    by (cases p) (auto simp: values_ok_def param_get_all_def)
  show "params_to_string (param_set ''a'' ''1&b=2'' \<lparr>params = []\<rparr>) = ''a=1&b=2''" by code_simp
  show "param_get_all (from_query (\<lambda>s. s) (Some ''a=1&b=2'')) ''b'' = [''2'']" by code_simp
qed

theorem search_params_roundtrip_witness:
  "param_get_all (from_query (\<lambda>s. s) (Some (params_to_string \<lparr>params = [(''q'', [''x'', ''y=z''])]\<rparr>))) ''q''
   = [''x'', ''y=z'']"
proof -
  let ?p = "\<lparr>params = [(''q'', [''x'', ''y=z''])]\<rparr>"
  have v: "values_ok (params ?p)" by code_simp
  have "\<forall>(k, vs) \<in> set (params ?p). (\<lambda>s. s) k = k \<and> CHR ''='' \<notin> set k \<and> CHR ''&'' \<notin> set k
       \<and> (\<forall>v \<in> set vs. (\<lambda>s. s) v = v \<and> CHR ''&'' \<notin> set v)" by simp
  from search_params_roundtrip [OF v this] show ?thesis
    by (simp add: param_get_all_def lookup_values_def)
qed

end
