(* ===== verification/Vfs_Types.thy ===== *)
theory Vfs_Types
  imports Nano_Prelude
begin

text \<open>
  The core types of the virtual file system (\<^verbatim>\<open>src/src/vfs/types.rs\<close>): normalised paths with
  their constructor and navigation, files with their timestamps, the error enumeration with
  its Node.js codes, and the resource limits. A Rust \<^verbatim>\<open>VfsPath\<close> is a tuple struct with a
  private field, so every value of it in the program comes from \<open>vfs_path_new\<close> or
  \<open>vfs_path_parent\<close>; \<open>vfs_path_wf\<close> is the guarantee its documentation gives and the lemmas
  show that both constructors establish it.
\<close>

section \<open>Definitions\<close>

definition MAX_PATH_LENGTH :: nat where
  "MAX_PATH_LENGTH = 4096"

datatype vfs_error =
    NotFound string
  | PermissionDenied string
  | AlreadyExists string
  | InvalidPath string string
  | QuotaExceeded string u32 u32
  | IoError string
  | NotSupported string

type_synonym 'a vfs_result = "vfs_error + 'a"

definition error_code :: "vfs_error \<Rightarrow> string" where
  "error_code e = (case e of
       NotFound _ \<Rightarrow> ''ENOENT''
     | PermissionDenied _ \<Rightarrow> ''EACCES''
     | AlreadyExists _ \<Rightarrow> ''EEXIST''
     | InvalidPath _ _ \<Rightarrow> ''EINVAL''
     | QuotaExceeded _ _ _ \<Rightarrow> ''EQUOTA''
     | IoError _ \<Rightarrow> ''EIO''
     | NotSupported _ \<Rightarrow> ''ENOTSUP'')"

definition error_path :: "vfs_error \<Rightarrow> string option" where
  "error_path e = (case e of
       NotFound p \<Rightarrow> Some p
     | PermissionDenied p \<Rightarrow> Some p
     | AlreadyExists p \<Rightarrow> Some p
     | InvalidPath p _ \<Rightarrow> Some p
     | _ \<Rightarrow> None)"

datatype vfs_path = VfsPath (as_str: string)

definition normalize_path :: "string \<Rightarrow> string" where
  "normalize_path path =
     join_with ''/'' (filter (\<lambda>s. s \<noteq> [])
       (split_on (CHR ''/'') (trim_end_matches (CHR ''/'') (trim_start_matches (CHR ''/'') path))))"

definition vfs_path_new :: "string \<Rightarrow> vfs_path vfs_result" where
  "vfs_path_new path =
     (if length path > MAX_PATH_LENGTH
      then Inl (InvalidPath path
        (''Path exceeds maximum length of '' @ show_nat MAX_PATH_LENGTH @ '' bytes''))
      else if CHR 0x00 \<in> set path then Inl (InvalidPath path ''Path contains null bytes'')
      else
        let normalized = normalize_path path in
        if list_ex (\<lambda>segment. segment = ''..'') (split_on (CHR ''/'') normalized)
        then Inl (InvalidPath path ''Path contains '..' segment which is not allowed'')
        else if normalized = [] then Inl (InvalidPath path ''Path is empty after normalization'')
        else Inr (VfsPath normalized))"

definition vfs_path_parent :: "vfs_path \<Rightarrow> vfs_path option" where
  "vfs_path_parent p =
     map_option (\<lambda>idx. VfsPath (take idx (as_str p))) (rfind_char (CHR ''/'') (as_str p))"

definition file_name :: "vfs_path \<Rightarrow> string option" where
  "file_name p =
     (case map_option (\<lambda>idx. drop (idx + 1) (as_str p)) (rfind_char (CHR ''/'') (as_str p)) of
        Some s \<Rightarrow> Some s | None \<Rightarrow> Some (as_str p))"

definition vfs_path_join :: "vfs_path \<Rightarrow> string \<Rightarrow> vfs_path vfs_result" where
  "vfs_path_join p other =
     (let combined = (if as_str p = [] then other else as_str p @ ''/'' @ other)
      in vfs_path_new combined)"

record vfs_file =
  content :: bytes
  created_at :: nat
  modified_at :: nat
  fsize :: nat

definition vfs_file_new :: "nat \<Rightarrow> bytes \<Rightarrow> vfs_file" where
  "vfs_file_new now c = \<lparr>content = c, created_at = now, modified_at = now, fsize = length c\<rparr>"

definition update_content :: "nat \<Rightarrow> bytes \<Rightarrow> vfs_file \<Rightarrow> vfs_file" where
  "update_content now c f = f\<lparr>fsize := length c, content := c, modified_at := now\<rparr>"

record resource_limits =
  file_size_bytes_max :: u32
  total_storage_bytes_max :: u32
  files_count_max :: u32

definition default_limits :: resource_limits where
  "default_limits = \<lparr>file_size_bytes_max = 10 * 1024 * 1024,
     total_storage_bytes_max = 100 * 1024 * 1024, files_count_max = 1000\<rparr>"

definition resource_limits_new :: "u32 \<Rightarrow> u32 \<Rightarrow> u32 \<Rightarrow> resource_limits" where
  "resource_limits_new a b c =
     \<lparr>file_size_bytes_max = a, total_storage_bytes_max = b, files_count_max = c\<rparr>"

definition test_limits :: resource_limits where
  "test_limits = \<lparr>file_size_bytes_max = 100, total_storage_bytes_max = 500, files_count_max = 5\<rparr>"

text \<open>The text of an error (the \<^verbatim>\<open>error\<close> attributes of \<^verbatim>\<open>VfsError\<close>).\<close>

definition show_vfs_error :: "vfs_error \<Rightarrow> string" where
  "show_vfs_error e = (case e of
       NotFound p \<Rightarrow> ''ENOENT: no such file or directory: '' @ p
     | PermissionDenied p \<Rightarrow> ''EACCES: permission denied: '' @ p
     | AlreadyExists p \<Rightarrow> ''EEXIST: file already exists: '' @ p
     | InvalidPath p r \<Rightarrow> ''EINVAL: '' @ r @ '': '' @ p
     | QuotaExceeded r l c \<Rightarrow> ''EQUOTA: quota exceeded for '' @ r @ '': limit='' @ show_nat (unat l)
         @ '', current='' @ show_nat (unat c)
     | IoError m \<Rightarrow> ''EIO: I/O error: '' @ m
     | NotSupported f \<Rightarrow> ''ENOTSUP: operation not supported: '' @ f)"

text \<open>The guarantees the documentation of \<^verbatim>\<open>VfsPath\<close> lists, and the segments of a path.\<close>

definition segments :: "string \<Rightarrow> string list" where
  "segments s = filter (\<lambda>s. s \<noteq> []) (split_on (CHR ''/'') s)"

definition vfs_path_wf :: "vfs_path \<Rightarrow> bool" where
  "vfs_path_wf p = (let s = as_str p in
     s \<noteq> [] \<and> length s \<le> MAX_PATH_LENGTH
     \<and> hd s \<noteq> CHR ''/'' \<and> last s \<noteq> CHR ''/'' \<and> \<not> contains_sub s ''//''
     \<and> ''..'' \<notin> set (split_on (CHR ''/'') s) \<and> CHR 0x00 \<notin> set s)"

text \<open>The values of type \<^verbatim>\<open>VfsPath\<close> that the operations of the type can build: its field is private.\<close>

inductive path_value :: "vfs_path \<Rightarrow> bool" where
  of_new: "vfs_path_new s = Inr p \<Longrightarrow> path_value p"
| of_parent: "\<lbrakk>path_value p; vfs_path_parent p = Some q\<rbrakk> \<Longrightarrow> path_value q"
| of_join: "\<lbrakk>path_value p; vfs_path_join p s = Inr q\<rbrakk> \<Longrightarrow> path_value q"

definition vfs_file_wf :: "vfs_file \<Rightarrow> bool" where
  "vfs_file_wf f = (fsize f = length (content f) \<and> created_at f \<le> modified_at f)"

section \<open>Normalisation\<close>

lemma normalize_segments: "normalize_path s = join_with ''/'' (segments s)"
  by (simp add: normalize_path_def segments_def filter_split_trim_end filter_split_trim_start)

lemma segments_ok: "x \<in> set (segments s) \<Longrightarrow> x \<noteq> [] \<and> CHR ''/'' \<notin> set x"
  by (auto simp: segments_def dest: split_on_no_sep)

lemma split_normalize:
  "split_on (CHR ''/'') (normalize_path s) = (if segments s = [] then [[]] else segments s)"
  by (auto simp: normalize_segments intro!: split_join dest: segments_ok)

lemma segments_normalize [simp]: "segments (normalize_path s) = segments s"
proof -
  have "filter (\<lambda>s. s \<noteq> []) (segments s) = segments s"
    by (simp add: segments_def)
  then show ?thesis
    using split_normalize [of s] by (cases "segments s = []") (simp_all add: segments_def)
qed

lemma normalize_idem: "normalize_path (normalize_path s) = normalize_path s"
  by (metis normalize_segments segments_normalize)

lemma normalize_length: "length (normalize_path s) \<le> length s"
  using length_join_filter [of "CHR ''/''" "\<lambda>s. s \<noteq> []" "split_on (CHR ''/'') s"]
  by (simp add: normalize_segments segments_def)

lemma set_normalize: "set (normalize_path s) \<subseteq> insert (CHR ''/'') (set s)"
  using set_join_with [of "CHR ''/''" "segments s"] set_split_on [of _ "CHR ''/''" s]
  by (fastforce simp: normalize_segments segments_def)

lemma normalize_empty: "normalize_path s = [] \<longleftrightarrow> segments s = []"
  using segments_ok [of "[]" s] by (auto simp: normalize_segments join_with_Nil_iff)

lemma normal_iff_no_empty_segment:
  "s \<noteq> [] \<and> normalize_path s = s \<longleftrightarrow> [] \<notin> set (split_on (CHR ''/'') s)"
proof
  assume a: "s \<noteq> [] \<and> normalize_path s = s"
  then have "split_on (CHR ''/'') s = segments s"
    using split_normalize [of s] by (metis normalize_empty)
  then show "[] \<notin> set (split_on (CHR ''/'') s)"
    using segments_ok by auto
next
  assume "[] \<notin> set (split_on (CHR ''/'') s)"
  then have "segments s = split_on (CHR ''/'') s"
    by (auto simp: segments_def filter_id_conv)
  then show "s \<noteq> [] \<and> normalize_path s = s"
    using \<open>[] \<notin> set (split_on (CHR ''/'') s)\<close> by (auto simp: normalize_segments)
qed

lemma vfs_path_wf_iff:
  "vfs_path_wf p \<longleftrightarrow>
     as_str p \<noteq> [] \<and> normalize_path (as_str p) = as_str p \<and> length (as_str p) \<le> MAX_PATH_LENGTH
     \<and> ''..'' \<notin> set (segments (as_str p)) \<and> CHR 0x00 \<notin> set (as_str p)"
  using normal_iff_no_empty_segment [of "as_str p"] Nil_in_split_on_iff [of "CHR ''/''" "as_str p"]
  by (auto simp: vfs_path_wf_def Let_def segments_def)

section \<open>The constructor\<close>

lemma vfs_path_new_Inr:
  "vfs_path_new s = Inr p \<longleftrightarrow>
     length s \<le> MAX_PATH_LENGTH \<and> CHR 0x00 \<notin> set s \<and> ''..'' \<notin> set (segments s)
     \<and> segments s \<noteq> [] \<and> p = VfsPath (normalize_path s)"
  using split_normalize [of s]
  by (auto simp: vfs_path_new_def Let_def list_ex_iff normalize_empty split: if_splits)

lemma vfs_path_new_wf_rule: "vfs_path_new s = Inr p \<Longrightarrow> vfs_path_wf p"
  using normalize_length [of s] set_normalize [of s]
  by (auto simp: vfs_path_new_Inr vfs_path_wf_iff normalize_empty normalize_idem)

lemma vfs_path_new_as_str [simp]: "vfs_path_wf p \<Longrightarrow> vfs_path_new (as_str p) = Inr p"
  by (cases p) (auto simp: vfs_path_new_Inr vfs_path_wf_iff normalize_empty [symmetric])

lemma vfs_path_parent_Some:
  "vfs_path_parent p = Some q \<longleftrightarrow>
     (\<exists>y. as_str p = as_str q @ CHR ''/'' # y \<and> CHR ''/'' \<notin> set y)"
proof
  assume "vfs_path_parent p = Some q"
  then obtain i where i: "rfind_char (CHR ''/'') (as_str p) = Some i"
    and q: "q = VfsPath (take i (as_str p))"
    by (auto simp: vfs_path_parent_def)
  from i obtain x y where "as_str p = x @ CHR ''/'' # y" "CHR ''/'' \<notin> set y" "i = length x"
    by (rule rfind_char_cases)
  with q show "\<exists>y. as_str p = as_str q @ CHR ''/'' # y \<and> CHR ''/'' \<notin> set y" by simp
next
  assume "\<exists>y. as_str p = as_str q @ CHR ''/'' # y \<and> CHR ''/'' \<notin> set y"
  then show "vfs_path_parent p = Some q"
    by (cases q) (auto simp: vfs_path_parent_def rfind_char_append)
qed

lemma file_name_of_parent:
  "\<lbrakk>as_str p = x @ CHR ''/'' # y; CHR ''/'' \<notin> set y\<rbrakk> \<Longrightarrow> file_name p = Some y"
  by (simp add: file_name_def rfind_char_append)

lemma vfs_path_wf_no_empty:
  "vfs_path_wf p \<Longrightarrow> [] \<notin> set (split_on (CHR ''/'') (as_str p))"
  using normal_iff_no_empty_segment [of "as_str p"] by (simp add: vfs_path_wf_iff)

lemma vfs_path_wf_ancestor:
  assumes "vfs_path_wf (VfsPath (x @ CHR ''/'' # y))"
  shows "vfs_path_wf (VfsPath x)"
proof -
  have sp: "split_on (CHR ''/'') (x @ CHR ''/'' # y) = split_on (CHR ''/'') x @ split_on (CHR ''/'') y"
    by (rule split_on_append)
  with assms have "[] \<notin> set (split_on (CHR ''/'') x)"
    using vfs_path_wf_no_empty [OF assms] by simp
  then have "x \<noteq> [] \<and> normalize_path x = x"
    using normal_iff_no_empty_segment [of x] by simp
  with assms sp show ?thesis by (auto simp: vfs_path_wf_iff segments_def)
qed

lemma vfs_path_parent_wf_rule:
  assumes "vfs_path_wf p" "vfs_path_parent p = Some q"
  shows "vfs_path_wf q"
  using assms vfs_path_wf_ancestor [of "as_str q"]
  by (cases p; cases q) (auto simp: vfs_path_parent_Some)

section \<open>Properties\<close>

text \<open>
  C3. \<^verbatim>\<open>VfsPath::new\<close> decides exactly: a string is accepted iff it has at most 4096 bytes, no
  NUL byte, no \<^verbatim>\<open>..\<close> segment and at least one non-empty segment; an accepted path satisfies
  every guarantee the type documents and has the segments of its input, in order; every
  rejection is an \<^verbatim>\<open>EINVAL\<close> error that carries the input path.
\<close>

theorem vfs_path_new_decides:
  "case vfs_path_new s of
     Inr p \<Rightarrow> length s \<le> 4096 \<and> CHR 0x00 \<notin> set s \<and> ''..'' \<notin> set (segments s)
       \<and> vfs_path_wf p \<and> segments (as_str p) = segments s
   | Inl e \<Rightarrow> (4096 < length s \<or> CHR 0x00 \<in> set s \<or> ''..'' \<in> set (segments s)
        \<or> segments s = [])
       \<and> error_code e = ''EINVAL'' \<and> error_path e = Some s"
proof (cases "vfs_path_new s")
  case (Inl e)
  then have "error_code e = ''EINVAL'' \<and> error_path e = Some s"
    by (auto simp: vfs_path_new_def Let_def error_code_def error_path_def split: if_splits)
  moreover have "vfs_path_new s \<noteq> Inr (VfsPath (normalize_path s))" using Inl by simp
  then have "4096 < length s \<or> CHR 0x00 \<in> set s \<or> ''..'' \<in> set (segments s) \<or> segments s = []"
    unfolding vfs_path_new_Inr MAX_PATH_LENGTH_def by auto
  ultimately show ?thesis using Inl by simp
next
  case (Inr p)
  with vfs_path_new_wf_rule [OF Inr] show ?thesis
    using Inr [unfolded vfs_path_new_Inr MAX_PATH_LENGTH_def] by auto
qed

text \<open>
  Printing and re-parsing a path is the identity exactly on the well-formed paths: every
  value the constructor builds is a fixed point of the constructor.
\<close>

theorem vfs_path_reparse:
  "vfs_path_new (as_str p) = Inr p \<longleftrightarrow> vfs_path_wf p"
  using vfs_path_new_as_str [of p] vfs_path_new_wf_rule [of "as_str p" p] by blast

text \<open>
  The parent of a well-formed path is well formed although \<^verbatim>\<open>parent\<close> skips validation, and
  joining it with the file name gives the path back.
\<close>

theorem vfs_path_parent_join:
  assumes "vfs_path_wf p" "vfs_path_parent p = Some q"
  shows "vfs_path_wf q \<and> (\<exists>f. file_name p = Some f \<and> vfs_path_join q f = Inr p)"
proof -
  from assms obtain y where y: "as_str p = as_str q @ CHR ''/'' # y" "CHR ''/'' \<notin> set y"
    by (auto simp: vfs_path_parent_Some)
  have q: "vfs_path_wf q" by (rule vfs_path_parent_wf_rule [OF assms])
  then have "vfs_path_join q y = vfs_path_new (as_str p)"
    using y by (simp add: vfs_path_join_def vfs_path_wf_iff)
  then have "vfs_path_join q y = Inr p" using assms by simp
  with y q show ?thesis by (auto simp: file_name_of_parent)
qed

theorem vfs_path_parent_join_witness:
  "vfs_path_wf (VfsPath ''src/app/index.js'')
   \<and> vfs_path_parent (VfsPath ''src/app/index.js'') = Some (VfsPath ''src/app'')
   \<and> vfs_path_wf (VfsPath ''src/app'')
   \<and> (\<exists>f. file_name (VfsPath ''src/app/index.js'') = Some f
        \<and> vfs_path_join (VfsPath ''src/app'') f = Inr (VfsPath ''src/app/index.js''))"
proof -
  have a: "vfs_path_wf (VfsPath ''src/app/index.js'')" by code_simp
  have b: "vfs_path_parent (VfsPath ''src/app/index.js'') = Some (VfsPath ''src/app'')"
    by code_simp
  from a b vfs_path_parent_join [OF a b] show ?thesis by blast
qed

text \<open>
  C4. The type \<^verbatim>\<open>VfsPath\<close> keeps its promise: every value that its operations can build, in any order, has the
  documented guarantees, although \<^verbatim>\<open>parent\<close> builds its result without validation, and parsing its text
  again gives the same value.
\<close>

theorem vfs_path_type_sound:
  assumes "path_value p"
  shows "vfs_path_wf p \<and> vfs_path_new (as_str p) = Inr p"
proof -
  from assms have "vfs_path_wf p"
  proof (induction rule: path_value.induct)
    case (of_parent p q)
    from of_parent.IH of_parent.hyps(2) show ?case by (rule vfs_path_parent_wf_rule)
  qed (auto simp: vfs_path_join_def Let_def intro: vfs_path_new_wf_rule)
  then show ?thesis by simp
qed

theorem vfs_path_type_sound_witness:
  "vfs_path_new ''/src//app/index.js'' = Inr (VfsPath ''src/app/index.js'')
   \<and> vfs_path_parent (VfsPath ''src/app/index.js'') = Some (VfsPath ''src/app'')
   \<and> vfs_path_wf (VfsPath ''src/app'') \<and> vfs_path_new ''src/app'' = Inr (VfsPath ''src/app'')"
proof -
  have n: "vfs_path_new ''/src//app/index.js'' = Inr (VfsPath ''src/app/index.js'')"
    "vfs_path_parent (VfsPath ''src/app/index.js'') = Some (VfsPath ''src/app'')" by code_simp+
  from vfs_path_type_sound [OF path_value.of_parent [OF path_value.of_new [OF n(1)] n(2)]] n show ?thesis by simp
qed

end
