(* ===== verification/Vfs_Security.thy ===== *)
theory Vfs_Security
  imports Vfs_Types
begin

text \<open>
  The defence layer of \<^verbatim>\<open>src/src/vfs/mod.rs\<close>: \<^verbatim>\<open>PathValidator\<close>, the strict check that runs before
  normalisation, and \<^verbatim>\<open>ResourceLimiter\<close>, the quota tracker with its wrapping atomic counters.
  The arithmetic lemmas on counters that every backend uses are here too.
\<close>

section \<open>Definitions\<close>

record path_validator =
  max_path_length :: nat

definition default_validator :: path_validator where
  "default_validator = \<lparr>max_path_length = MAX_PATH_LENGTH\<rparr>"

definition path_validator_new :: "nat \<Rightarrow> path_validator" where
  "path_validator_new n = \<lparr>max_path_length = n\<rparr>"

definition validate_path :: "path_validator \<Rightarrow> string \<Rightarrow> unit vfs_result" where
  "validate_path v path =
     (if length path > max_path_length v
      then Inl (InvalidPath path (''Path exceeds max length: '' @ show_nat (max_path_length v)))
      else if CHR 0x00 \<in> set path then Inl (InvalidPath path ''Path contains null bytes'')
      else if list_ex (\<lambda>component. component = ''..'') (split_on (CHR ''/'') path)
      then Inl (InvalidPath path ''Path contains '..' which is not allowed'')
      else Inr ())"

text \<open>
  Sizes arrive as lengths of byte vectors; the counters are \<^verbatim>\<open>AtomicUsize\<close> and wrap. A difference
  of two sizes is computed in \<^verbatim>\<open>i64\<close>, whose bits are those of the 64-bit word; its sign is read
  with \<open>sint\<close>.
\<close>

record resource_limiter =
  rl_limits :: resource_limits
  rl_total_bytes :: usize
  rl_file_count :: usize

definition size_delta :: "nat \<Rightarrow> nat \<Rightarrow> 64 word" where
  "size_delta new_size old_size = of_nat new_size - of_nat old_size"

definition apply_delta :: "usize \<Rightarrow> 64 word \<Rightarrow> usize" where
  "apply_delta t delta =
     (if sint delta > 0 then t + delta
      else if sint delta < 0 then t - (- delta)
      else t)"

definition limiter_new :: "resource_limits \<Rightarrow> resource_limiter" where
  "limiter_new l = \<lparr>rl_limits = l, rl_total_bytes = 0, rl_file_count = 0\<rparr>"

definition check_write :: "resource_limiter \<Rightarrow> nat \<Rightarrow> bool \<Rightarrow> unit vfs_result" where
  "check_write r file_size is_new_file =
     (if file_size > unat (file_size_bytes_max (rl_limits r))
      then Inl (QuotaExceeded ''file_size'' (file_size_bytes_max (rl_limits r)) (of_nat file_size))
      else if is_new_file \<and> unat (rl_file_count r) \<ge> unat (files_count_max (rl_limits r))
      then Inl (QuotaExceeded ''file_count'' (files_count_max (rl_limits r)) (ucast (rl_file_count r)))
      else Inr ())"

definition check_total_storage :: "resource_limiter \<Rightarrow> 64 word \<Rightarrow> usize \<Rightarrow> unit vfs_result" where
  "check_total_storage r delta current_total =
     (let new_total = current_total + delta in
      if unat new_total > unat (total_storage_bytes_max (rl_limits r))
      then Inl (QuotaExceeded ''total_storage'' (total_storage_bytes_max (rl_limits r))
        (ucast current_total))
      else Inr ())"

definition record_create :: "nat \<Rightarrow> resource_limiter \<Rightarrow> resource_limiter" where
  "record_create sz r = r\<lparr>rl_file_count := rl_file_count r + 1,
     rl_total_bytes := rl_total_bytes r + of_nat sz\<rparr>"

definition record_delete :: "nat \<Rightarrow> resource_limiter \<Rightarrow> resource_limiter" where
  "record_delete sz r = r\<lparr>rl_file_count := rl_file_count r - 1,
     rl_total_bytes := rl_total_bytes r - of_nat sz\<rparr>"

definition record_update :: "nat \<Rightarrow> nat \<Rightarrow> resource_limiter \<Rightarrow> resource_limiter" where
  "record_update old_size new_size r =
     r\<lparr>rl_total_bytes := apply_delta (rl_total_bytes r) (size_delta new_size old_size)\<rparr>"

definition limiter_usage :: "resource_limiter \<Rightarrow> usize \<times> usize" where
  "limiter_usage r = (rl_file_count r, rl_total_bytes r)"

section \<open>Counter arithmetic\<close>

lemma apply_delta_eq: "apply_delta t d = t + d"
  by (auto simp: apply_delta_def not_less)
    (metis add.right_neutral antisym_conv2 not_less signed_eq_0_iff sint_0)

lemma usize_delta:
  assumes "unat (t :: 64 word) = T" "old \<le> T" "T < 2 ^ 62" "new < 2 ^ 62"
  shows "t + size_delta new old = of_nat (T - old + new)"
    and "unat (t + size_delta new old) = T - old + new"
proof -
  have t: "t = of_nat T" using assms(1) by (metis of_nat_unat_id)
  have "(of_nat T :: 64 word) = of_nat (T - old) + of_nat old"
    using assms(2) by (metis le_add_diff_inverse2 of_nat_add)
  then show eq: "t + size_delta new old = of_nat (T - old + new)"
    by (simp add: t size_delta_def)
  have "T - old + new < 2 ^ 64" using assms by simp
  then show "unat (t + size_delta new old) = T - old + new"
    by (simp only: eq usize_of_nat)
qed

lemma validate_path_Inr:
  "validate_path v s = Inr () \<longleftrightarrow>
     length s \<le> max_path_length v \<and> CHR 0x00 \<notin> set s \<and> ''..'' \<notin> set (segments s)"
  by (auto simp: validate_path_def list_ex_iff segments_def)

end
