(* ===== verification/Vfs_Backend.thy ===== *)
theory Vfs_Backend
  imports Vfs_Types
begin

text \<open>
  The backend interface of the virtual file system (\<^verbatim>\<open>trait VfsBackend\<close> in
  \<^verbatim>\<open>src/src/vfs/mod.rs\<close>). A trait object is a record of its methods over the backend's state:
  methods that only read return a result, methods that write return a result and the next
  state. The clock is an argument of \<open>be_write\<close>; \<open>be_list_dir\<close> returns an option because
  implementations unwrap results, and a panic is the value \<open>None\<close>.

  The locale \<open>vfs_store\<close> states what clients rely on: reading returns the last content written
  under the same key, a failed operation changes no content, every operation keeps the
  invariant. \<open>vfs_flat_store\<close> adds what holds of backends without directories.
\<close>

record 'b vfs_backend =
  be_read :: "'b \<Rightarrow> vfs_path \<Rightarrow> bytes vfs_result"
  be_write :: "nat \<Rightarrow> 'b \<Rightarrow> vfs_path \<Rightarrow> bytes \<Rightarrow> unit vfs_result \<times> 'b"
  be_exists :: "'b \<Rightarrow> vfs_path \<Rightarrow> bool vfs_result"
  be_delete :: "'b \<Rightarrow> vfs_path \<Rightarrow> unit vfs_result \<times> 'b"
  be_metadata :: "'b \<Rightarrow> vfs_path \<Rightarrow> vfs_file vfs_result"
  be_list_dir :: "'b \<Rightarrow> vfs_path \<Rightarrow> vfs_path list vfs_result option"

locale vfs_store =
  fixes ops :: "'b vfs_backend"
    and invar :: "'b \<Rightarrow> bool"
    and view :: "'b \<Rightarrow> 'k \<rightharpoonup> bytes"
    and key :: "vfs_path \<Rightarrow> 'k"
  assumes read_view: "\<lbrakk>invar b; vfs_path_wf p\<rbrakk> \<Longrightarrow>
      be_read ops b p = Inr c \<longleftrightarrow> view b (key p) = Some c"
    and write_ok: "\<lbrakk>invar b; vfs_path_wf p; be_write ops now b p c = (Inr (), b')\<rbrakk> \<Longrightarrow>
      view b' = (view b)(key p \<mapsto> c)"
    and write_err: "\<lbrakk>invar b; vfs_path_wf p; be_write ops now b p c = (Inl e, b')\<rbrakk> \<Longrightarrow>
      view b' = view b"
    and delete_ok: "\<lbrakk>invar b; vfs_path_wf p; be_delete ops b p = (Inr (), b')\<rbrakk> \<Longrightarrow>
      view b (key p) \<noteq> None \<and> view b' = (view b)(key p := None)"
    and delete_err: "\<lbrakk>invar b; vfs_path_wf p; be_delete ops b p = (Inl e, b')\<rbrakk> \<Longrightarrow>
      view b' = view b"
    and write_invar: "\<lbrakk>invar b; vfs_path_wf p\<rbrakk> \<Longrightarrow> invar (snd (be_write ops now b p c))"
    and delete_invar: "\<lbrakk>invar b; vfs_path_wf p\<rbrakk> \<Longrightarrow> invar (snd (be_delete ops b p))"

locale vfs_flat_store = vfs_store +
  assumes read_missing: "\<lbrakk>invar b; vfs_path_wf p; view b (key p) = None\<rbrakk> \<Longrightarrow>
      be_read ops b p = Inl (NotFound (as_str p))"
    and exists_view: "\<lbrakk>invar b; vfs_path_wf p\<rbrakk> \<Longrightarrow>
      be_exists ops b p = Inr (view b (key p) \<noteq> None)"
    and delete_present: "\<lbrakk>invar b; vfs_path_wf p; view b (key p) \<noteq> None\<rbrakk> \<Longrightarrow>
      fst (be_delete ops b p) = Inr ()"

context vfs_store
begin

lemma write_view_other:
  assumes "invar b" "vfs_path_wf p" "key q \<noteq> key p"
  shows "view (snd (be_write ops now b p c)) (key q) = view b (key q)"
proof (cases "be_write ops now b p c")
  case (Pair r b')
  then show ?thesis
    using assms write_ok [of b p now c b'] write_err [of b p now c _ b']
    by (cases r) auto
qed

lemma delete_view_other:
  assumes "invar b" "vfs_path_wf p" "key q \<noteq> key p"
  shows "view (snd (be_delete ops b p)) (key q) = view b (key q)"
proof (cases "be_delete ops b p")
  case (Pair r b')
  then show ?thesis
    using assms delete_ok [of b p b'] delete_err [of b p _ b']
    by (cases r) auto
qed

lemma read_after_write:
  assumes "invar b" "vfs_path_wf p" "be_write ops now b p c = (Inr (), b')"
  shows "be_read ops b' p = Inr c"
proof -
  have "invar b'" using write_invar [OF assms(1,2), of now c] assms(3) by simp
  with write_ok [OF assms] assms(2) show ?thesis by (simp add: read_view)
qed

lemma read_same_view:
  assumes "invar b" "invar b'" "vfs_path_wf p" "view b (key p) = view b' (key p)"
  shows "be_read ops b p = Inr c \<longleftrightarrow> be_read ops b' p = Inr c"
  using assms by (simp add: read_view)

end

end
