(* ===== verification/Vfs_Memory.thy ===== *)
theory Vfs_Memory
  imports Vfs_Security Vfs_Backend
begin

text \<open>
  The in-memory backend (\<^verbatim>\<open>src/src/vfs/memory.rs\<close>). The \<^verbatim>\<open>DashMap\<close> is an association list with
  distinct keys whose order stands for the map's unspecified iteration order; the counters are
  64-bit words with the wrapping \<^verbatim>\<open>fetch_add\<close> and \<^verbatim>\<open>fetch_sub\<close>. Each trait method is one atomic
  step of the model. \<open>mem_inv\<close> says that the counters are exact, that no quota is exceeded and
  that every key is a normalised path; every trait operation keeps it.
\<close>

section \<open>Definitions\<close>

record memory_backend =
  storage :: "(string \<times> vfs_file) list"
  limits :: resource_limits
  total_bytes :: usize
  file_count :: usize

definition mem_with_limits :: "resource_limits \<Rightarrow> memory_backend" where
  "mem_with_limits l = \<lparr>storage = [], limits = l, total_bytes = 0, file_count = 0\<rparr>"

definition mem_new :: memory_backend where
  "mem_new = mem_with_limits default_limits"

definition mem_clear :: "memory_backend \<Rightarrow> memory_backend" where
  "mem_clear b = b\<lparr>storage := [], total_bytes := 0, file_count := 0\<rparr>"

definition mem_len :: "memory_backend \<Rightarrow> nat" where
  "mem_len b = length (storage b)"

definition mem_is_empty :: "memory_backend \<Rightarrow> bool" where
  "mem_is_empty b = (storage b = [])"

definition current_usage :: "memory_backend \<Rightarrow> usize \<times> usize" where
  "current_usage b = (file_count b, total_bytes b)"

definition check_write_bounds ::
  "memory_backend \<Rightarrow> nat \<Rightarrow> bool \<Rightarrow> nat \<Rightarrow> unit vfs_result" where
  "check_write_bounds b content_len is_new old_size =
     (if content_len > unat (file_size_bytes_max (limits b))
      then Inl (QuotaExceeded ''file_size'' (file_size_bytes_max (limits b)) (of_nat content_len))
      else if is_new \<and> unat (file_count b) \<ge> unat (files_count_max (limits b))
      then Inl (QuotaExceeded ''file_count'' (files_count_max (limits b)) (ucast (file_count b)))
      else
        let delta = size_delta content_len old_size;
            current_total = total_bytes b;
            new_total = current_total + delta in
        if unat new_total > unat (total_storage_bytes_max (limits b))
        then Inl (QuotaExceeded ''total_storage'' (total_storage_bytes_max (limits b))
          (ucast current_total))
        else Inr ())"

definition mem_read :: "memory_backend \<Rightarrow> vfs_path \<Rightarrow> bytes vfs_result" where
  "mem_read b path = (case map_of (storage b) (as_str path) of
       Some entry \<Rightarrow> Inr (content entry)
     | None \<Rightarrow> Inl (NotFound (as_str path)))"

text \<open>
  A write and a deletion are one atomic step each. The code reads the counters before it updates them, without a lock around both, so the
  model is of operations that do not overlap in time; concurrent writes can pass the checks together and exceed a quota.
\<close>

definition mem_write ::
  "nat \<Rightarrow> memory_backend \<Rightarrow> vfs_path \<Rightarrow> bytes \<Rightarrow> unit vfs_result \<times> memory_backend" where
  "mem_write now b path c =
     (let content_len = length c;
          is_new = (map_of (storage b) (as_str path) = None);
          old_size = (if is_new then 0
            else (case map_of (storage b) (as_str path) of
                    Some entry \<Rightarrow> length (content entry) | None \<Rightarrow> 0))
      in case check_write_bounds b content_len is_new old_size of
           Inl e \<Rightarrow> (Inl e, b)
         | Inr _ \<Rightarrow>
             let file = (case map_of (storage b) (as_str path) of
                   None \<Rightarrow> \<lparr>content = c, created_at = now, modified_at = now, fsize = content_len\<rparr>
                 | Some existing \<Rightarrow> \<lparr>content = c, created_at = created_at existing,
                     modified_at = now, fsize = content_len\<rparr>);
                 b1 = b\<lparr>storage := AList.update (as_str path) file (storage b)\<rparr>;
                 b2 = (if is_new then b1\<lparr>file_count := file_count b1 + 1\<rparr> else b1)
             in (Inr (), b2\<lparr>total_bytes :=
                   apply_delta (total_bytes b2) (size_delta content_len old_size)\<rparr>))"

definition mem_exists :: "memory_backend \<Rightarrow> vfs_path \<Rightarrow> bool vfs_result" where
  "mem_exists b path = Inr (map_of (storage b) (as_str path) \<noteq> None)"

definition mem_delete ::
  "memory_backend \<Rightarrow> vfs_path \<Rightarrow> unit vfs_result \<times> memory_backend" where
  "mem_delete b path = (case map_of (storage b) (as_str path) of
       Some file \<Rightarrow> (Inr (), b\<lparr>storage := AList.delete (as_str path) (storage b),
          file_count := file_count b - 1, total_bytes := total_bytes b - of_nat (fsize file)\<rparr>)
     | None \<Rightarrow> (Inl (NotFound (as_str path)), b))"

definition mem_metadata :: "memory_backend \<Rightarrow> vfs_path \<Rightarrow> vfs_file vfs_result" where
  "mem_metadata b path = (case map_of (storage b) (as_str path) of
       Some entry \<Rightarrow> Inr entry
     | None \<Rightarrow> Inl (NotFound (as_str path)))"

text \<open>The body of the loop of \<^verbatim>\<open>list_dir\<close>: the child name a key contributes, if any.\<close>

definition child_of :: "string \<Rightarrow> string \<Rightarrow> string option" where
  "child_of prefix_with_slash key_str =
     (if starts_with key_str prefix_with_slash
      then let remaining = drop (length prefix_with_slash) key_str in
           (case find_char (CHR ''/'') remaining of
              Some slash_pos \<Rightarrow> Some (take slash_pos remaining)
            | None \<Rightarrow> if remaining \<noteq> [] then Some remaining else None)
      else None)"

text \<open>\<open>unwrap_all\<close> is the collection of unwrapped results: \<open>None\<close> when one of them panics.\<close>

fun unwrap_all :: "('e + 'a) list \<Rightarrow> 'a list option" where
  "unwrap_all [] = Some []"
| "unwrap_all (Inl e # rs) = None"
| "unwrap_all (Inr x # rs) = map_option (Cons x) (unwrap_all rs)"

definition mem_list_dir :: "memory_backend \<Rightarrow> vfs_path \<Rightarrow> vfs_path list vfs_result option" where
  "mem_list_dir b path =
     (let prefix_with_slash =
            (if ends_with_char (as_str path) (CHR ''/'') then as_str path else as_str path @ ''/'');
          entries = remdups (List.map_filter (\<lambda>kv. child_of prefix_with_slash (fst kv)) (storage b))
      in map_option Inr
           (unwrap_all (map (\<lambda>name. vfs_path_new (prefix_with_slash @ name)) entries)))"

definition snapshot_entries :: "memory_backend \<Rightarrow> (vfs_path \<times> vfs_file) list" where
  "snapshot_entries b = List.map_filter (\<lambda>(path_str, file).
     case vfs_path_new path_str of Inr path \<Rightarrow> Some (path, file) | Inl _ \<Rightarrow> None) (storage b)"

definition restore_from_snapshot ::
  "(vfs_path \<times> vfs_file) list \<Rightarrow> memory_backend \<Rightarrow> memory_backend" where
  "restore_from_snapshot entries b0 =
     (let b = mem_clear b0;
          (t, st) = fold (\<lambda>(path, file) (t, st).
             (t + of_nat (length (content file)), AList.update (as_str path) file st))
             entries (0 :: usize, storage b)
      in b\<lparr>storage := st, file_count := of_nat (length entries), total_bytes := t\<rparr>)"

definition memory_ops :: "memory_backend vfs_backend" where
  "memory_ops = \<lparr>be_read = mem_read, be_write = mem_write, be_exists = mem_exists,
     be_delete = mem_delete, be_metadata = mem_metadata, be_list_dir = mem_list_dir\<rparr>"

text \<open>The invariant and the abstract view: a map from path strings to contents.\<close>

definition stored_bytes :: "(string \<times> vfs_file) list \<Rightarrow> nat" where
  "stored_bytes st = sum_list (map (\<lambda>kv. length (content (snd kv))) st)"

definition storage_ok :: "(string \<times> vfs_file) list \<Rightarrow> bool" where
  "storage_ok st = (distinct (map fst st)
     \<and> (\<forall>kv \<in> set st. vfs_path_wf (VfsPath (fst kv))
          \<and> fsize (snd kv) = length (content (snd kv))))"

definition mem_inv :: "memory_backend \<Rightarrow> bool" where
  "mem_inv b = (storage_ok (storage b)
     \<and> unat (file_count b) = length (storage b)
     \<and> unat (total_bytes b) = stored_bytes (storage b)
     \<and> length (storage b) \<le> unat (files_count_max (limits b))
     \<and> stored_bytes (storage b) \<le> unat (total_storage_bytes_max (limits b))
     \<and> (\<forall>kv \<in> set (storage b).
          length (content (snd kv)) \<le> unat (file_size_bytes_max (limits b))))"

definition mem_view :: "memory_backend \<Rightarrow> string \<rightharpoonup> bytes" where
  "mem_view b = (\<lambda>k. map_option content (map_of (storage b) k))"

text \<open>The size of the file a write replaces, and the file it stores.\<close>

definition old_size_of :: "memory_backend \<Rightarrow> string \<Rightarrow> nat" where
  "old_size_of b k = (case map_of (storage b) k of Some f \<Rightarrow> length (content f) | None \<Rightarrow> 0)"

definition file_for :: "nat \<Rightarrow> memory_backend \<Rightarrow> string \<Rightarrow> bytes \<Rightarrow> vfs_file" where
  "file_for now b k c = \<lparr>content = c,
     created_at = (case map_of (storage b) k of Some f \<Rightarrow> created_at f | None \<Rightarrow> now),
     modified_at = now, fsize = length c\<rparr>"

text \<open>
  The abstract contract: a map from path strings to contents under three quotas. A write
  replaces one entry or reports the first quota it would exceed and changes nothing.
\<close>

definition spec_total :: "(string \<rightharpoonup> bytes) \<Rightarrow> nat" where
  "spec_total m = (\<Sum>k \<in> dom m. length (the (m k)))"

definition spec_size :: "(string \<rightharpoonup> bytes) \<Rightarrow> string \<Rightarrow> nat" where
  "spec_size m k = (case m k of Some c \<Rightarrow> length c | None \<Rightarrow> 0)"

definition spec_write ::
  "resource_limits \<Rightarrow> (string \<rightharpoonup> bytes) \<Rightarrow> string \<Rightarrow> bytes \<Rightarrow> unit vfs_result \<times> (string \<rightharpoonup> bytes)"
  where
  "spec_write l m k c =
     (if length c > unat (file_size_bytes_max l)
      then (Inl (QuotaExceeded ''file_size'' (file_size_bytes_max l) (of_nat (length c))), m)
      else if m k = None \<and> card (dom m) \<ge> unat (files_count_max l)
      then (Inl (QuotaExceeded ''file_count'' (files_count_max l) (of_nat (card (dom m)))), m)
      else if spec_total m - spec_size m k + length c > unat (total_storage_bytes_max l)
      then (Inl (QuotaExceeded ''total_storage'' (total_storage_bytes_max l)
              (of_nat (spec_total m))), m)
      else (Inr (), m(k \<mapsto> c)))"

datatype mem_op = MWrite nat vfs_path bytes | MDelete vfs_path | MClear

definition mem_op_ok :: "mem_op \<Rightarrow> bool" where
  "mem_op_ok x = (case x of MWrite _ p _ \<Rightarrow> vfs_path_wf p | MDelete p \<Rightarrow> vfs_path_wf p | MClear \<Rightarrow> True)"

definition mem_step :: "mem_op \<Rightarrow> memory_backend \<Rightarrow> memory_backend" where
  "mem_step x b = (case x of
       MWrite now p c \<Rightarrow> snd (mem_write now b p c)
     | MDelete p \<Rightarrow> snd (mem_delete b p)
     | MClear \<Rightarrow> mem_clear b)"

text \<open>A concrete backend the witnesses use: three files, one of them overwritten.\<close>

definition sample_ops :: "mem_op list" where
  "sample_ops = [MWrite 1 (VfsPath ''d/x'') [1, 2], MWrite 2 (VfsPath ''d/e/y'') [3],
     MWrite 3 (VfsPath ''z'') [4, 5, 6], MWrite 4 (VfsPath ''d/x'') [7], MDelete (VfsPath ''q'')]"

definition sample_mem :: memory_backend where
  "sample_mem = fold mem_step sample_ops (mem_with_limits test_limits)"

section \<open>Lemmas on the storage\<close>

lemma stored_bytes_simps [simp]:
  "stored_bytes [] = 0"
  "stored_bytes (kv # st) = length (content (snd kv)) + stored_bytes st"
  by (simp_all add: stored_bytes_def)

lemma stored_bytes_append [simp]: "stored_bytes (xs @ ys) = stored_bytes xs + stored_bytes ys"
  by (simp add: stored_bytes_def)

lemma stored_bytes_update_old:
  "map_of st k = Some g \<Longrightarrow> length (content g) \<le> stored_bytes st
     \<and> stored_bytes (AList.update k f st) =
         stored_bytes st - length (content g) + length (content f)"
  by (induction st) (auto split: if_splits)

lemma length_update_old: "map_of st k = Some g \<Longrightarrow> length (AList.update k f st) = length st"
  by (induction st) (auto split: if_splits)

lemma alist_delete_fresh: "k \<notin> fst ` set st \<Longrightarrow> AList.delete k st = st"
  by (induction st) (auto simp: AList.delete_eq)

lemma stored_bytes_delete:
  "\<lbrakk>distinct (map fst st); map_of st k = Some g\<rbrakk> \<Longrightarrow>
     length (content g) \<le> stored_bytes st
     \<and> stored_bytes (AList.delete k st) = stored_bytes st - length (content g)
     \<and> length (AList.delete k st) = length st - 1 \<and> st \<noteq> []"
proof (induction st)
  case (Cons kv st)
  show ?case
  proof (cases "fst kv = k")
    case True
    then have "AList.delete k st = st" using Cons.prems by (auto intro: alist_delete_fresh)
    then show ?thesis using Cons.prems True by (cases kv) auto
  next
    case False
    then show ?thesis using Cons by (cases kv) auto
  qed
qed simp

lemma storage_ok_update:
  "\<lbrakk>storage_ok st; vfs_path_wf (VfsPath k); fsize f = length (content f)\<rbrakk> \<Longrightarrow>
     storage_ok (AList.update k f st)"
  using set_alist_update [of k f st] AList.distinct_update [of st k f]
  by (auto simp: storage_ok_def)

lemma storage_ok_delete: "storage_ok st \<Longrightarrow> storage_ok (AList.delete k st)"
  using set_alist_delete [of k st] AList.distinct_delete [of st k]
  by (auto simp: storage_ok_def)

lemma storage_ok_entry:
  "\<lbrakk>storage_ok st; map_of st k = Some f\<rbrakk> \<Longrightarrow>
     vfs_path_wf (VfsPath k) \<and> fsize f = length (content f)"
  by (auto simp: storage_ok_def dest!: map_of_SomeD)

section \<open>The trait operations keep the invariant\<close>

lemma mem_inv_init: "mem_inv (mem_with_limits l)"
  by (simp add: mem_inv_def mem_with_limits_def storage_ok_def)

lemma mem_inv_clear: "mem_inv b \<Longrightarrow> mem_inv (mem_clear b)"
  by (simp add: mem_inv_def mem_clear_def storage_ok_def)

lemma mem_inv_bounds:
  assumes "mem_inv b"
  shows "stored_bytes (storage b) < 2 ^ 32" "length (storage b) < 2 ^ 32"
  using assms u32_bound [of "total_storage_bytes_max (limits b)"]
    u32_bound [of "files_count_max (limits b)"]
  by (auto simp: mem_inv_def)

lemma file_for_simps [simp]:
  "content (file_for now b k c) = c" "fsize (file_for now b k c) = length c"
  by (simp_all add: file_for_def)

lemma old_size_le: "mem_inv b \<Longrightarrow> old_size_of b k \<le> stored_bytes (storage b)"
  using stored_bytes_update_old [of "storage b" k] by (auto simp: old_size_of_def split: option.split)

lemma check_write_bounds_ok:
  assumes "mem_inv b"
  shows "check_write_bounds b n is_new (old_size_of b k) = Inr () \<longleftrightarrow>
     n \<le> unat (file_size_bytes_max (limits b))
     \<and> (is_new \<longrightarrow> length (storage b) < unat (files_count_max (limits b)))
     \<and> stored_bytes (storage b) - old_size_of b k + n \<le> unat (total_storage_bytes_max (limits b))"
proof (cases "n \<le> unat (file_size_bytes_max (limits b))")
  case True
  then have n: "n < 2 ^ 62" using u32_bound [of "file_size_bytes_max (limits b)"] by simp
  have "unat (total_bytes b + size_delta n (old_size_of b k)) =
      stored_bytes (storage b) - old_size_of b k + n"
    using assms mem_inv_bounds [OF assms] old_size_le [OF assms] n
    by (intro usize_delta(2)) (auto simp: mem_inv_def)
  with True assms show ?thesis
    by (auto simp: check_write_bounds_def Let_def mem_inv_def)
qed (simp add: check_write_bounds_def)

lemma mem_write_eq:
  "mem_write now b p c =
     (case check_write_bounds b (length c) (map_of (storage b) (as_str p) = None)
             (old_size_of b (as_str p)) of
        Inl e \<Rightarrow> (Inl e, b)
      | Inr _ \<Rightarrow> (Inr (), b\<lparr>storage := AList.update (as_str p) (file_for now b (as_str p) c) (storage b),
          file_count := (if map_of (storage b) (as_str p) = None then file_count b + 1 else file_count b),
          total_bytes := total_bytes b + size_delta (length c) (old_size_of b (as_str p))\<rparr>))"
  by (auto simp: mem_write_def Let_def old_size_of_def file_for_def apply_delta_eq
      split: option.split sum.split)

lemma mem_write_inv:
  assumes "mem_inv b" "vfs_path_wf p"
  shows "mem_inv (snd (mem_write now b p c))"
proof (cases "check_write_bounds b (length c) (map_of (storage b) (as_str p) = None)
             (old_size_of b (as_str p))")
  case (Inl e)
  then show ?thesis using assms by (simp add: mem_write_eq)
next
  case (Inr u)
  let ?k = "as_str p" let ?st = "storage b"
  let ?st' = "AList.update ?k (file_for now b ?k c) ?st"
  have ok: "length c \<le> unat (file_size_bytes_max (limits b))"
    "map_of ?st ?k = None \<Longrightarrow> length ?st < unat (files_count_max (limits b))"
    "stored_bytes ?st - old_size_of b ?k + length c \<le> unat (total_storage_bytes_max (limits b))"
    using Inr check_write_bounds_ok [OF assms(1)] by auto
  have st': "storage_ok ?st'" using assms by (auto simp: mem_inv_def intro: storage_ok_update)
  have bytes: "stored_bytes ?st' = stored_bytes ?st - old_size_of b ?k + length c"
    by (cases "map_of ?st ?k") (simp_all add: old_size_of_def alist_update_new stored_bytes_update_old)
  have tot: "unat (total_bytes b + size_delta (length c) (old_size_of b ?k)) = stored_bytes ?st'"
    using assms mem_inv_bounds [OF assms(1)] old_size_le [OF assms(1)] ok(1)
      u32_bound [of "file_size_bytes_max (limits b)"]
    by (subst usize_delta(2)) (auto simp: mem_inv_def bytes)
  have len: "length ?st' = (if map_of ?st ?k = None then length ?st + 1 else length ?st)"
    by (auto simp: alist_update_new length_update_old)
  have cnt: "unat (if map_of ?st ?k = None then file_count b + 1 else file_count b) = length ?st'"
    using assms(1) mem_inv_bounds [OF assms(1)] usize_inc [of "file_count b" "length ?st"]
    by (auto simp: mem_inv_def len)
  have each: "\<forall>kv \<in> set ?st'. length (content (snd kv)) \<le> unat (file_size_bytes_max (limits b))"
    using assms(1) ok(1) set_alist_update [of ?k "file_for now b ?k c" ?st]
    by (fastforce simp: mem_inv_def)
  show ?thesis
    using assms(1) st' tot cnt each ok bytes len
    by (simp add: mem_write_eq Inr mem_inv_def Suc_le_eq)
qed

lemma mem_delete_inv:
  assumes "mem_inv b"
  shows "mem_inv (snd (mem_delete b p))"
proof (cases "map_of (storage b) (as_str p)")
  case None
  then show ?thesis using assms by (simp add: mem_delete_def)
next
  case (Some f)
  let ?st = "storage b" let ?st' = "AList.delete (as_str p) (storage b)"
  have st: "storage_ok ?st" using assms by (simp add: mem_inv_def)
  then have d: "length (content f) \<le> stored_bytes ?st"
    "stored_bytes ?st' = stored_bytes ?st - length (content f)"
    "length ?st' = length ?st - 1" "?st \<noteq> []"
    using stored_bytes_delete [OF _ Some] by (auto simp: storage_ok_def)
  have sz: "fsize f = length (content f)" using storage_ok_entry [OF st Some] by simp
  have "unat (file_count b - 1) = length ?st'"
    using assms d usize_dec [of "file_count b" "length ?st" 1]
    by (cases ?st) (auto simp: mem_inv_def)
  moreover have "unat (total_bytes b - of_nat (fsize f)) = stored_bytes ?st'"
    using assms d sz usize_dec [of "total_bytes b" "stored_bytes ?st" "length (content f)"]
    by (auto simp: mem_inv_def)
  moreover have "\<forall>kv \<in> set ?st'. length (content (snd kv)) \<le> unat (file_size_bytes_max (limits b))"
    using assms set_alist_delete [of "as_str p" ?st] by (auto simp: mem_inv_def)
  ultimately show ?thesis
    using assms d st by (auto simp: mem_delete_def Some mem_inv_def storage_ok_delete)
qed

section \<open>Refinement to a map of contents\<close>

lemma mem_read_view:
  "mem_read b p = (case mem_view b (as_str p) of
     Some c \<Rightarrow> Inr c | None \<Rightarrow> Inl (NotFound (as_str p)))"
  by (simp add: mem_read_def mem_view_def split: option.split)

lemma mem_view_stored:
  "mem_view (b\<lparr>storage := AList.update k f (storage b), file_count := n, total_bytes := t\<rparr>) =
     (mem_view b)(k \<mapsto> content f)"
  "mem_view (b\<lparr>storage := AList.update k f (storage b), total_bytes := t\<rparr>) =
     (mem_view b)(k \<mapsto> content f)"
  by (auto simp: mem_view_def)

lemma mem_write_view:
  "mem_view (snd (mem_write now b p c)) =
     (if fst (mem_write now b p c) = Inr () then (mem_view b)(as_str p \<mapsto> c) else mem_view b)"
  by (auto simp: mem_write_eq mem_view_def split: sum.split)

lemma mem_delete_view:
  "mem_view (snd (mem_delete b p)) = (mem_view b)(as_str p := None)"
  by (auto simp: mem_delete_def mem_view_def split: option.split)

lemma mem_delete_result:
  "fst (mem_delete b p) = (if mem_view b (as_str p) = None then Inl (NotFound (as_str p)) else Inr ())"
  by (auto simp: mem_delete_def mem_view_def split: option.split)

lemma mem_write_limits: "limits (snd (mem_write now b p c)) = limits b"
  by (simp add: mem_write_eq split: sum.split)

interpretation mem: vfs_flat_store memory_ops mem_inv mem_view as_str
proof unfold_locales
  fix b p now c b' assume "be_write memory_ops now b p c = (Inr (), b')"
  then show "mem_view b' = (mem_view b)(as_str p \<mapsto> c)"
    using mem_write_view [of now b p c] by (simp add: memory_ops_def)
next
  fix b p now c e b' assume "be_write memory_ops now b p c = (Inl e, b')"
  then show "mem_view b' = mem_view b"
    using mem_write_view [of now b p c] by (simp add: memory_ops_def)
next
  fix b p b' assume "be_delete memory_ops b p = (Inr (), b')"
  then show "mem_view b (as_str p) \<noteq> None \<and> mem_view b' = (mem_view b)(as_str p := None)"
    using mem_delete_view [of b p] mem_delete_result [of b p]
    by (simp add: memory_ops_def split: if_splits)
next
  fix b p e b' assume "be_delete memory_ops b p = (Inl e, b')"
  then show "mem_view b' = mem_view b"
    using mem_delete_view [of b p] mem_delete_result [of b p]
    by (auto simp: memory_ops_def split: if_splits)
qed (auto simp: memory_ops_def mem_read_view mem_write_inv mem_delete_inv mem_exists_def
    mem_view_def mem_delete_result split: option.split)

section \<open>The abstract contract\<close>

lemma dom_mem_view: "dom (mem_view b) = fst ` set (storage b)"
  by (auto simp: mem_view_def dom_def map_of_eq_None_iff)

lemma card_dom_mem_view: "storage_ok (storage b) \<Longrightarrow> card (dom (mem_view b)) = length (storage b)"
  using distinct_card [of "map fst (storage b)"] by (simp add: dom_mem_view storage_ok_def)

lemma spec_total_mem_view:
  assumes "storage_ok (storage b)"
  shows "spec_total (mem_view b) = stored_bytes (storage b)"
proof -
  have d: "distinct (map fst (storage b))" using assms by (simp add: storage_ok_def)
  have "spec_total (mem_view b) = (\<Sum>k \<in> set (map fst (storage b)). length (the (mem_view b k)))"
    by (simp add: spec_total_def dom_mem_view)
  also have "\<dots> = sum_list (map (\<lambda>k. length (the (mem_view b k))) (map fst (storage b)))"
    using d by (rule sum.distinct_set_conv_list)
  also have "\<dots> = stored_bytes (storage b)"
    unfolding stored_bytes_def map_map using d
    by (intro arg_cong [where f = sum_list] map_cong) (auto simp: mem_view_def)
  finally show ?thesis .
qed

lemma spec_size_mem_view: "spec_size (mem_view b) k = old_size_of b k"
  by (simp add: spec_size_def old_size_of_def mem_view_def split: option.split)

lemma usize_as_u32: "unat (x :: 64 word) = n \<Longrightarrow> (ucast x :: 32 word) = of_nat n"
  by (metis of_nat_unat)

lemma mem_step_inv: "\<lbrakk>mem_inv b; mem_op_ok x\<rbrakk> \<Longrightarrow> mem_inv (mem_step x b)"
  by (cases x) (simp_all add: mem_step_def mem_op_ok_def mem_write_inv mem_delete_inv mem_inv_clear)

lemma mem_step_limits: "limits (mem_step x b) = limits b"
  by (cases x) (simp_all add: mem_step_def mem_write_limits mem_delete_def mem_clear_def
      split: option.split)

lemma mem_run_inv:
  "\<lbrakk>mem_inv b; list_all mem_op_ok xs\<rbrakk> \<Longrightarrow>
     mem_inv (fold mem_step xs b) \<and> limits (fold mem_step xs b) = limits b"
  by (induction xs arbitrary: b) (simp_all add: mem_step_inv mem_step_limits)

lemma sample_mem_inv: "mem_inv sample_mem"
proof -
  have "list_all mem_op_ok sample_ops" by code_simp
  then show ?thesis using mem_run_inv [OF mem_inv_init] by (simp add: sample_mem_def)
qed

section \<open>Directory listing and snapshots\<close>

lemma unwrap_all_map_Inr:
  "(\<And>x. x \<in> set xs \<Longrightarrow> g x = Inr (f x)) \<Longrightarrow> unwrap_all (map g xs) = Some (map f xs)"
  by (induction xs) simp_all

lemma child_of_Some:
  "child_of pre k = Some n \<longleftrightarrow>
     n \<noteq> [] \<and> CHR ''/'' \<notin> set n \<and> (k = pre @ n \<or> prefix (pre @ n @ ''/'') k)
     \<or> n = [] \<and> prefix (pre @ ''/'') k"
  (is "?l \<longleftrightarrow> ?r")
proof (cases "prefix pre k")
  case False
  then have "\<not> ?r" by (auto dest: append_prefixD)
  with False show ?thesis by (auto simp: child_of_def starts_with_iff_prefix)
next
  case True
  then obtain r where k: "k = pre @ r" by (auto simp: prefix_def)
  show ?thesis
  proof (cases "find_char (CHR ''/'') r")
    case None
    then have "CHR ''/'' \<notin> set r" by (simp add: find_char_None)
    with None True k show ?thesis
      by (auto simp: child_of_def starts_with_iff_prefix Let_def prefix_def)
  next
    case (Some i)
    then obtain u v where r: "r = u @ CHR ''/'' # v" "CHR ''/'' \<notin> set u" "i = length u"
      using find_char_Some [OF Some] by (metis length_take min.absorb4)
    then have "prefix (n @ ''/'') r \<and> CHR ''/'' \<notin> set n \<longleftrightarrow> n = u"
      by (auto simp: prefix_def first_sep_unique)
    with r Some True k show ?thesis
      by (auto simp: child_of_def starts_with_iff_prefix Let_def prefix_def)
  qed
qed

lemma child_of_key:
  assumes "vfs_path_wf p" "vfs_path_wf (VfsPath k)"
  shows "child_of (as_str p @ ''/'') k = Some n \<longleftrightarrow>
     CHR ''/'' \<notin> set n \<and> (k = as_str p @ CHR ''/'' # n \<or> prefix (as_str p @ CHR ''/'' # n @ ''/'') k)"
proof -
  have ne: "[] \<notin> set (split_on (CHR ''/'') k)" using vfs_path_wf_no_empty [OF assms(2)] by simp
  have "\<not> prefix (as_str p @ ''//'') k"
    using ne by (auto simp: prefix_def split_on_append)
  moreover have "k \<noteq> as_str p @ ''/''"
    using ne by (auto simp: split_on_append)
  ultimately show ?thesis
    by (auto simp: child_of_Some)
qed

lemma child_path_wf:
  assumes "vfs_path_wf p" "vfs_path_wf (VfsPath k)" "child_of (as_str p @ ''/'') k = Some n"
  shows "vfs_path_wf (VfsPath (as_str p @ CHR ''/'' # n))"
  using assms vfs_path_wf_ancestor [of "as_str p @ CHR ''/'' # n"]
  by (auto simp: child_of_key prefix_def)

lemma mem_list_dir_eq:
  assumes "storage_ok (storage b)" "vfs_path_wf p"
  shows "mem_list_dir b p = Some (Inr (map (\<lambda>n. VfsPath (as_str p @ CHR ''/'' # n))
     (remdups (List.map_filter (\<lambda>kv. child_of (as_str p @ ''/'') (fst kv)) (storage b)))))"
proof -
  let ?ns = "remdups (List.map_filter (\<lambda>kv. child_of (as_str p @ ''/'') (fst kv)) (storage b))"
  have "vfs_path_new (as_str p @ ''/'' @ n) = Inr (VfsPath (as_str p @ CHR ''/'' # n))"
    if "n \<in> set ?ns" for n
    using that assms child_path_wf [OF assms(2), of _ n]
      vfs_path_new_as_str [of "VfsPath (as_str p @ CHR ''/'' # n)"]
    by (fastforce simp: set_map_filter storage_ok_def)
  then have "unwrap_all (map (\<lambda>n. vfs_path_new (as_str p @ ''/'' @ n)) ?ns) =
      Some (map (\<lambda>n. VfsPath (as_str p @ CHR ''/'' # n)) ?ns)"
    by (rule unwrap_all_map_Inr)
  moreover have "\<not> ends_with_char (as_str p) (CHR ''/'')"
    using assms(2) by (auto simp: ends_with_char_def vfs_path_wf_def Let_def)
  ultimately show ?thesis by (simp add: mem_list_dir_def)
qed

lemma snapshot_entries_ok:
  "storage_ok (storage b) \<Longrightarrow>
     snapshot_entries b = map (\<lambda>kv. (VfsPath (fst kv), snd kv)) (storage b)"
  unfolding snapshot_entries_def
  using vfs_path_new_as_str
  by (intro map_filter_Some) (fastforce simp: storage_ok_def)

lemma restore_fold:
  "fold (\<lambda>(path, file) (t, st). (t + of_nat (length (content file)), AList.update (as_str path) file st))
     es (t, st) =
   (t + of_nat (sum_list (map (\<lambda>e. length (content (snd e))) es)),
    fold (\<lambda>e. AList.update (as_str (fst e)) (snd e)) es st)"
  by (induction es arbitrary: t st) (auto simp: algebra_simps)

lemma restore_from_snapshot_eq:
  "restore_from_snapshot es b =
     b\<lparr>storage := fold (\<lambda>e. AList.update (as_str (fst e)) (snd e)) es [],
       file_count := of_nat (length es),
       total_bytes := of_nat (sum_list (map (\<lambda>e. length (content (snd e))) es))\<rparr>"
  by (simp add: restore_from_snapshot_def restore_fold mem_clear_def Let_def)

lemma fold_update_fresh:
  "distinct (map fst (st @ es)) \<Longrightarrow> fold (\<lambda>e. AList.update (fst e) (snd e)) es st = st @ es"
proof (induction es arbitrary: st)
  case (Cons e es)
  then have "AList.update (fst e) (snd e) st = st @ [e]"
    by (cases e) (auto simp: alist_update_new map_of_eq_None_iff)
  then show ?case using Cons by simp
qed simp

section \<open>Properties\<close>

text \<open>
  C2. In every state that any sequence of writes, deletes and clears reaches from an empty
  backend, the two atomic counters are the exact number of files and of stored bytes (no
  wrap-around ever happens) and none of the three quotas is exceeded.
\<close>

theorem memory_quotas_hold:
  assumes "list_all mem_op_ok xs"
  shows "let b = fold mem_step xs (mem_with_limits l) in
     unat (file_count b) = length (storage b) \<and> unat (total_bytes b) = stored_bytes (storage b)
     \<and> distinct (map fst (storage b))
     \<and> length (storage b) \<le> unat (files_count_max l)
     \<and> stored_bytes (storage b) \<le> unat (total_storage_bytes_max l)
     \<and> list_all (\<lambda>kv. length (content (snd kv)) \<le> unat (file_size_bytes_max l)) (storage b)"
  using mem_run_inv [OF mem_inv_init assms, of l]
  by (auto simp: mem_inv_def storage_ok_def Let_def list_all_iff mem_with_limits_def)

theorem memory_quotas_hold_witness:
  "list_all mem_op_ok sample_ops \<and>
   (let b = fold mem_step sample_ops (mem_with_limits test_limits) in
     unat (file_count b) = length (storage b) \<and> unat (total_bytes b) = stored_bytes (storage b)
     \<and> distinct (map fst (storage b))
     \<and> length (storage b) \<le> unat (files_count_max test_limits)
     \<and> stored_bytes (storage b) \<le> unat (total_storage_bytes_max test_limits)
     \<and> list_all (\<lambda>kv. length (content (snd kv)) \<le> unat (file_size_bytes_max test_limits)) (storage b))"
proof -
  have a: "list_all mem_op_ok sample_ops" by code_simp
  from a memory_quotas_hold [OF a, of test_limits] show ?thesis by (rule conjI)
qed

text \<open>
  C5. The write of the memory backend refines the abstract quota map: same result, including
  the quota that is reported with its limit and current value, and the same next map. The
  counters, the signed difference and the casts of the code compute the abstract quantities.
\<close>

theorem memory_write_refines:
  assumes "mem_inv b"
  shows "map_prod id mem_view (mem_write now b p c) =
     spec_write (limits b) (mem_view b) (as_str p) c"
proof -
  let ?k = "as_str p" and ?new = "map_of (storage b) (as_str p) = None"
  have st: "storage_ok (storage b)" using assms by (simp add: mem_inv_def)
  have new: "mem_view b ?k = None \<longleftrightarrow> ?new" by (simp add: mem_view_def)
  have cnt: "unat (file_count b) = card (dom (mem_view b))"
    "(ucast (file_count b) :: 32 word) = of_nat (card (dom (mem_view b)))"
    using assms by (simp_all add: mem_inv_def card_dom_mem_view st usize_as_u32)
  have tot: "(ucast (total_bytes b) :: 32 word) = of_nat (spec_total (mem_view b))"
    using assms by (simp add: mem_inv_def spec_total_mem_view st usize_as_u32)
  have sum: "length c \<le> unat (file_size_bytes_max (limits b)) \<Longrightarrow>
      unat (total_bytes b + size_delta (length c) (old_size_of b ?k)) =
      spec_total (mem_view b) - spec_size (mem_view b) ?k + length c"
    using assms mem_inv_bounds [OF assms] old_size_le [OF assms]
      u32_bound [of "file_size_bytes_max (limits b)"]
    by (subst usize_delta(2)) (auto simp: mem_inv_def spec_total_mem_view st spec_size_mem_view)
  show ?thesis
    using sum
    by (simp add: mem_write_eq spec_write_def check_write_bounds_def new cnt tot Let_def
        mem_view_stored)
qed

theorem memory_write_refines_witness:
  "map_prod id mem_view (mem_write 7 (mem_with_limits test_limits) (VfsPath ''a'') [1, 2]) =
     spec_write test_limits Map.empty ''a'' [1, 2]"
  using memory_write_refines [OF mem_inv_init, of 7 test_limits "VfsPath ''a''" "[1, 2]"]
  by (simp add: mem_with_limits_def mem_view_def)

text \<open>
  \<^verbatim>\<open>list_dir\<close> never panics on its \<^verbatim>\<open>unwrap\<close> and lists, each once, exactly the paths whose
  parent is the directory and that are a stored file or an ancestor of one.
\<close>

theorem memory_list_dir_exact:
  assumes "mem_inv b" "vfs_path_wf p"
  shows "\<exists>ps. mem_list_dir b p = Some (Inr ps) \<and> distinct ps
     \<and> set ps = {q. vfs_path_parent q = Some p
          \<and> (\<exists>k \<in> dom (mem_view b). k = as_str q \<or> prefix (as_str q @ ''/'') k)}"
proof -
  have st: "storage_ok (storage b)" using assms by (simp add: mem_inv_def)
  let ?ns = "remdups (List.map_filter (\<lambda>kv. child_of (as_str p @ ''/'') (fst kv)) (storage b))"
  let ?f = "\<lambda>n. VfsPath (as_str p @ CHR ''/'' # n)"
  have ns: "set ?ns = {n. \<exists>k \<in> dom (mem_view b). child_of (as_str p @ ''/'') k = Some n}"
    by (auto simp: set_map_filter dom_mem_view)
  have wf: "\<And>k. k \<in> dom (mem_view b) \<Longrightarrow> vfs_path_wf (VfsPath k)"
    using st by (auto simp: dom_mem_view storage_ok_def)
  have "set (map ?f ?ns) = {q. vfs_path_parent q = Some p
          \<and> (\<exists>k \<in> dom (mem_view b). k = as_str q \<or> prefix (as_str q @ ''/'') k)}"
    (is "_ = ?R")
  proof (intro set_eqI iffI)
    fix q assume "q \<in> set (map ?f ?ns)"
    then show "q \<in> ?R"
      using ns wf child_of_key [OF assms(2)] by (fastforce simp: vfs_path_parent_Some)
  next
    fix q assume "q \<in> ?R"
    then obtain n where n: "as_str q = as_str p @ CHR ''/'' # n" "CHR ''/'' \<notin> set n"
      unfolding vfs_path_parent_Some by blast
    from \<open>q \<in> ?R\<close> obtain k where "k \<in> dom (mem_view b)" "k = as_str q \<or> prefix (as_str q @ ''/'') k"
      by blast
    with n have "n \<in> set ?ns" "q = ?f n"
      using ns wf child_of_key [OF assms(2), of k n] by (cases q; auto)+
    then show "q \<in> set (map ?f ?ns)" by auto
  qed
  moreover have "distinct (map ?f ?ns)" by (simp add: distinct_map inj_on_def)
  ultimately show ?thesis using mem_list_dir_eq [OF st assms(2)] by auto
qed

theorem memory_list_dir_exact_witness:
  "mem_list_dir sample_mem (VfsPath ''d'') = Some (Inr [VfsPath ''d/x'', VfsPath ''d/e''])
   \<and> set [VfsPath ''d/x'', VfsPath ''d/e''] = {q. vfs_path_parent q = Some (VfsPath ''d'')
          \<and> (\<exists>k \<in> dom (mem_view sample_mem). k = as_str q \<or> prefix (as_str q @ ''/'') k)}"
proof -
  have wf: "vfs_path_wf (VfsPath ''d'')" by code_simp
  have e: "mem_list_dir sample_mem (VfsPath ''d'') = Some (Inr [VfsPath ''d/x'', VfsPath ''d/e''])"
    by code_simp
  from memory_list_dir_exact [OF sample_mem_inv wf] e show ?thesis by auto
qed

text \<open>
  Taking a snapshot and restoring it, into any backend, reproduces the files, the
  timestamps and exact counters.
\<close>

theorem memory_snapshot_roundtrip:
  assumes "mem_inv b"
  shows "restore_from_snapshot (snapshot_entries b) b' = b\<lparr>limits := limits b'\<rparr>"
proof -
  have st: "storage_ok (storage b)" using assms by (simp add: mem_inv_def)
  then have "fold (\<lambda>e. AList.update (fst e) (snd e)) (storage b) [] = storage b"
    using fold_update_fresh [of "[]" "storage b"] by (simp add: storage_ok_def)
  moreover have "(of_nat (length (storage b)) :: usize) = file_count b"
    "(of_nat (stored_bytes (storage b)) :: usize) = total_bytes b"
    using assms by (metis mem_inv_def of_nat_unat_id)+
  ultimately show ?thesis
    by (simp add: restore_from_snapshot_eq snapshot_entries_ok [OF st] fold_map o_def stored_bytes_def)
qed

theorem memory_snapshot_roundtrip_witness:
  "length (snapshot_entries sample_mem) = 3
   \<and> restore_from_snapshot (snapshot_entries sample_mem) mem_new = sample_mem\<lparr>limits := default_limits\<rparr>"
proof -
  have "length (snapshot_entries sample_mem) = 3" by code_simp
  with memory_snapshot_roundtrip [OF sample_mem_inv, of mem_new] show ?thesis
    by (simp add: mem_new_def mem_with_limits_def)
qed

end
