(* ===== verification/Vfs_Isolate.thy ===== *)
theory Vfs_Isolate
  imports Vfs_Memory
begin

text \<open>
  The two clients of a backend: \<^verbatim>\<open>IsolateVfs\<close> with \<^verbatim>\<open>VfsNamespace\<close> (\<^verbatim>\<open>src/src/vfs/isolate.rs\<close>), the
  per-tenant view of a shared backend, and \<^verbatim>\<open>FileSystem\<close> (\<^verbatim>\<open>src/src/vfs/mod.rs\<close>). Both prefix a
  validated path with \<^verbatim>\<open>namespace::\<close> and call the backend. The backend is shared through an
  \<^verbatim>\<open>Arc\<close>, so its state is passed explicitly and the tenant is its namespace; the backend's
  methods are the argument \<open>ops\<close>. The locale \<open>namespaced_store\<close> adds to a store that different
  good namespaces have different keys, and proves tenant isolation over operation sequences once
  for every backend.
\<close>

section \<open>Definitions\<close>

subsection \<open>Namespaces and the isolate's file system\<close>

definition from_hostname :: "string \<Rightarrow> string" where
  "from_hostname hostname =
     replace_char (CHR ''-'') (CHR ''_'') (replace_char (CHR ''.'') (CHR ''_'') (to_lowercase hostname))"

definition iso_prefix_namespace :: "string \<Rightarrow> string \<Rightarrow> vfs_path vfs_result" where
  "iso_prefix_namespace ns path =
     bind_res (vfs_path_new path) (\<lambda>p.
       vfs_path_new (if ns = [] then as_str p else ns @ ''::'' @ as_str p))"

definition iso_read :: "'b vfs_backend \<Rightarrow> string \<Rightarrow> 'b \<Rightarrow> string \<Rightarrow> bytes vfs_result" where
  "iso_read ops ns b path = bind_res (iso_prefix_namespace ns path) (be_read ops b)"

definition iso_write ::
  "'b vfs_backend \<Rightarrow> string \<Rightarrow> nat \<Rightarrow> 'b \<Rightarrow> string \<Rightarrow> bytes \<Rightarrow> unit vfs_result \<times> 'b" where
  "iso_write ops ns now b path c = (case iso_prefix_namespace ns path of
       Inl e \<Rightarrow> (Inl e, b) | Inr storage_path \<Rightarrow> be_write ops now b storage_path c)"

definition iso_exists :: "'b vfs_backend \<Rightarrow> string \<Rightarrow> 'b \<Rightarrow> string \<Rightarrow> bool vfs_result" where
  "iso_exists ops ns b path = bind_res (iso_prefix_namespace ns path) (be_exists ops b)"

definition iso_delete ::
  "'b vfs_backend \<Rightarrow> string \<Rightarrow> 'b \<Rightarrow> string \<Rightarrow> unit vfs_result \<times> 'b" where
  "iso_delete ops ns b path = (case iso_prefix_namespace ns path of
       Inl e \<Rightarrow> (Inl e, b) | Inr storage_path \<Rightarrow> be_delete ops b storage_path)"

definition iso_metadata :: "'b vfs_backend \<Rightarrow> string \<Rightarrow> 'b \<Rightarrow> string \<Rightarrow> vfs_file vfs_result" where
  "iso_metadata ops ns b path = bind_res (iso_prefix_namespace ns path) (be_metadata ops b)"

definition iso_list_dir ::
  "'b vfs_backend \<Rightarrow> string \<Rightarrow> 'b \<Rightarrow> string \<Rightarrow> vfs_path list vfs_result option" where
  "iso_list_dir ops ns b path = (case iso_prefix_namespace ns path of
       Inl e \<Rightarrow> Some (Inl e) | Inr storage_path \<Rightarrow> be_list_dir ops b storage_path)"

subsection \<open>The file system with an optional namespace\<close>

record file_system =
  fs_namespace :: "string option"
  fs_validator :: path_validator

definition fs_new :: file_system where
  "fs_new = \<lparr>fs_namespace = None, fs_validator = default_validator\<rparr>"

definition fs_with_namespace :: "string \<Rightarrow> file_system" where
  "fs_with_namespace ns = \<lparr>fs_namespace = Some ns, fs_validator = default_validator\<rparr>"

definition fs_with_validator :: "path_validator \<Rightarrow> file_system \<Rightarrow> file_system" where
  "fs_with_validator v fs = fs\<lparr>fs_validator := v\<rparr>"

definition fs_validate_and_normalize :: "file_system \<Rightarrow> string \<Rightarrow> vfs_path vfs_result" where
  "fs_validate_and_normalize fs path =
     bind_res (validate_path (fs_validator fs) path) (\<lambda>_. vfs_path_new path)"

definition fs_prefix_namespace :: "file_system \<Rightarrow> vfs_path \<Rightarrow> vfs_path" where
  "fs_prefix_namespace fs path = (case fs_namespace fs of
       Some ns \<Rightarrow> (case vfs_path_new (ns @ ''::'' @ as_str path) of Inr p \<Rightarrow> p | Inl _ \<Rightarrow> path)
     | None \<Rightarrow> path)"

definition fs_read :: "'b vfs_backend \<Rightarrow> file_system \<Rightarrow> 'b \<Rightarrow> string \<Rightarrow> bytes vfs_result" where
  "fs_read ops fs b path = bind_res (fs_validate_and_normalize fs path)
     (\<lambda>p. be_read ops b (fs_prefix_namespace fs p))"

definition fs_write ::
  "'b vfs_backend \<Rightarrow> file_system \<Rightarrow> nat \<Rightarrow> 'b \<Rightarrow> string \<Rightarrow> bytes \<Rightarrow> unit vfs_result \<times> 'b" where
  "fs_write ops fs now b path c = (case fs_validate_and_normalize fs path of
       Inl e \<Rightarrow> (Inl e, b) | Inr p \<Rightarrow> be_write ops now b (fs_prefix_namespace fs p) c)"

definition fs_exists :: "'b vfs_backend \<Rightarrow> file_system \<Rightarrow> 'b \<Rightarrow> string \<Rightarrow> bool vfs_result" where
  "fs_exists ops fs b path = bind_res (fs_validate_and_normalize fs path)
     (\<lambda>p. be_exists ops b (fs_prefix_namespace fs p))"

definition fs_delete ::
  "'b vfs_backend \<Rightarrow> file_system \<Rightarrow> 'b \<Rightarrow> string \<Rightarrow> unit vfs_result \<times> 'b" where
  "fs_delete ops fs b path = (case fs_validate_and_normalize fs path of
       Inl e \<Rightarrow> (Inl e, b) | Inr p \<Rightarrow> be_delete ops b (fs_prefix_namespace fs p))"

definition fs_metadata :: "'b vfs_backend \<Rightarrow> file_system \<Rightarrow> 'b \<Rightarrow> string \<Rightarrow> vfs_file vfs_result" where
  "fs_metadata ops fs b path = bind_res (fs_validate_and_normalize fs path)
     (\<lambda>p. be_metadata ops b (fs_prefix_namespace fs p))"

subsection \<open>Tenants acting on one backend\<close>

text \<open>
  A namespace that a validated hostname yields is non-empty and has neither \<^verbatim>\<open>/\<close>, \<^verbatim>\<open>:\<close> nor NUL.
  A tenant operation names the namespace of its isolate.
\<close>

definition ns_ok :: "string \<Rightarrow> bool" where
  "ns_ok ns = (ns \<noteq> [] \<and> CHR ''/'' \<notin> set ns \<and> CHR '':'' \<notin> set ns \<and> CHR 0x00 \<notin> set ns)"

datatype tenant_op = TWrite (top_ns: string) nat string bytes | TDelete (top_ns: string) string

definition tenant_step :: "'b vfs_backend \<Rightarrow> tenant_op \<Rightarrow> 'b \<Rightarrow> 'b" where
  "tenant_step ops x b = (case x of
       TWrite ns now path c \<Rightarrow> snd (iso_write ops ns now b path c)
     | TDelete ns path \<Rightarrow> snd (iso_delete ops ns b path))"

locale namespaced_store = vfs_store +
  fixes ns_good :: "string \<Rightarrow> bool"
  assumes ns_good_ok: "ns_good n \<Longrightarrow> ns_ok n"
    and key_namespaces: "\<lbrakk>ns_good n; ns_good n'; n \<noteq> n'; vfs_path_wf p; vfs_path_wf p'\<rbrakk> \<Longrightarrow>
      key (VfsPath (n @ ''::'' @ as_str p)) \<noteq> key (VfsPath (n' @ ''::'' @ as_str p'))"

section \<open>Prefixing\<close>

lemma normalize_prefixed:
  assumes "vfs_path_wf p" "CHR ''/'' \<notin> set ns"
  shows "normalize_path (ns @ ''::'' @ as_str p) = ns @ ''::'' @ as_str p"
proof -
  have "[] \<notin> set (split_on (CHR ''/'') (as_str p))" by (rule vfs_path_wf_no_empty [OF assms(1)])
  then have "[] \<notin> set (split_on (CHR ''/'') (ns @ ''::'' @ as_str p))"
    using assms(2) set_split_on_hd_tl [of "[]" "CHR ''/''" "as_str p"]
    by (induction ns) (auto split: list.splits)
  then show ?thesis using normal_iff_no_empty_segment by blast
qed

lemma segments_prefixed:
  assumes "''..'' \<notin> set (segments s)" "CHR ''/'' \<notin> set ns"
  shows "''..'' \<notin> set (segments (ns @ ''::'' @ s))"
proof -
  obtain y ys where sp: "split_on (CHR ''/'') s = y # ys" by (cases "split_on (CHR ''/'') s") auto
  have "split_on (CHR ''/'') (ns @ ''::'' @ s) = (ns @ ''::'' @ y) # ys"
    using assms(2) by (induction ns) (auto simp: sp)
  moreover have "ns @ ''::'' @ y \<noteq> ''..''" by (cases ns; cases "tl ns") auto
  ultimately show ?thesis using assms(1) by (auto simp: segments_def sp split: if_splits)
qed

lemma prefixed_new:
  assumes "vfs_path_wf p" "ns_ok ns"
  shows "vfs_path_new (ns @ ''::'' @ as_str p) =
     (if length ns + 2 + length (as_str p) \<le> MAX_PATH_LENGTH
      then Inr (VfsPath (ns @ ''::'' @ as_str p))
      else Inl (InvalidPath (ns @ ''::'' @ as_str p)
        (''Path exceeds maximum length of '' @ show_nat MAX_PATH_LENGTH @ '' bytes'')))"
proof (cases "length ns + 2 + length (as_str p) \<le> MAX_PATH_LENGTH")
  case True
  have "vfs_path_wf (VfsPath (ns @ ''::'' @ as_str p))"
    using assms True normalize_prefixed [OF assms(1)] segments_prefixed [of "as_str p" ns]
    by (simp add: vfs_path_wf_iff ns_ok_def)
  then show ?thesis using True vfs_path_new_as_str by fastforce
qed (simp add: vfs_path_new_def)

lemma iso_prefix_namespace_Inr:
  assumes "ns_ok ns"
  shows "iso_prefix_namespace ns path = Inr sp \<longleftrightarrow>
     (\<exists>p. vfs_path_new path = Inr p \<and> sp = VfsPath (ns @ ''::'' @ as_str p) \<and> vfs_path_wf sp)"
proof
  assume "iso_prefix_namespace ns path = Inr sp"
  then obtain p where p: "vfs_path_new path = Inr p" "vfs_path_new (ns @ ''::'' @ as_str p) = Inr sp"
    using assms by (auto simp: iso_prefix_namespace_def bind_res_Inr ns_ok_def)
  then have "sp = VfsPath (ns @ ''::'' @ as_str p)"
    using prefixed_new [OF vfs_path_new_wf_rule [OF p(1)] assms] by (auto split: if_splits)
  with p vfs_path_new_wf_rule [OF p(2)] show
    "\<exists>p. vfs_path_new path = Inr p \<and> sp = VfsPath (ns @ ''::'' @ as_str p) \<and> vfs_path_wf sp" by blast
next
  assume "\<exists>p. vfs_path_new path = Inr p \<and> sp = VfsPath (ns @ ''::'' @ as_str p) \<and> vfs_path_wf sp"
  then obtain p where p: "vfs_path_new path = Inr p" "sp = VfsPath (ns @ ''::'' @ as_str p)"
    "vfs_path_wf sp" by blast
  have "vfs_path_new (as_str sp) = Inr sp" by (rule vfs_path_new_as_str [OF p(3)])
  then show "iso_prefix_namespace ns path = Inr sp"
    using p assms by (simp add: iso_prefix_namespace_def ns_ok_def)
qed

lemma iso_prefix_namespace_wf: "iso_prefix_namespace ns path = Inr sp \<Longrightarrow> vfs_path_wf sp"
  by (auto simp: iso_prefix_namespace_def bind_res_Inr intro: vfs_path_new_wf_rule)

lemma prefixed_namespaces_differ:
  assumes "ns_ok n" "ns_ok n'" "n \<noteq> n'"
  shows "n @ ''::'' @ x \<noteq> n' @ ''::'' @ y"
  using assms first_sep_unique [of "CHR '':''" n n' "CHR '':'' # x" "CHR '':'' # y"]
  by (auto simp: ns_ok_def)

section \<open>Isolation, for every namespaced store\<close>

context vfs_store
begin

lemma iso_write_invar: "invar b \<Longrightarrow> invar (snd (iso_write ops ns now b path c))"
  by (auto simp: iso_write_def iso_prefix_namespace_wf write_invar split: sum.split)

lemma iso_delete_invar: "invar b \<Longrightarrow> invar (snd (iso_delete ops ns b path))"
  by (auto simp: iso_delete_def iso_prefix_namespace_wf delete_invar split: sum.split)

lemma tenant_step_invar: "invar b \<Longrightarrow> invar (tenant_step ops x b)"
  by (cases x) (simp_all add: tenant_step_def iso_write_invar iso_delete_invar)

lemma tenant_run_invar: "invar b \<Longrightarrow> invar (fold (tenant_step ops) xs b)"
  by (induction xs arbitrary: b) (simp_all add: tenant_step_invar)

lemma iso_read_after_write:
  assumes "invar b" "iso_write ops ns now b path c = (Inr (), b')"
  shows "iso_read ops ns b' path = Inr c"
  using assms read_after_write [OF assms(1)]
  by (auto simp: iso_write_def iso_read_def split: sum.splits dest: iso_prefix_namespace_wf)

end

context namespaced_store
begin

lemma tenant_step_view:
  assumes "invar b" "ns_good ns" "ns_good (top_ns x)" "top_ns x \<noteq> ns"
    "iso_prefix_namespace ns path = Inr sp"
  shows "view (tenant_step ops x b) (key sp) = view b (key sp)"
proof -
  have "key sp \<noteq> key q" if "iso_prefix_namespace (top_ns x) p = Inr q" for p q
    using that assms key_namespaces [of ns "top_ns x"] ns_good_ok
    by (auto simp: iso_prefix_namespace_Inr vfs_path_new_wf_rule)
  then show ?thesis
    using assms(1)
    by (cases x) (auto simp: tenant_step_def iso_write_def iso_delete_def iso_prefix_namespace_wf
        write_view_other delete_view_other split: sum.split)
qed

lemma tenant_run_view:
  assumes "invar b" "ns_good ns" "\<forall>x \<in> set xs. ns_good (top_ns x) \<and> top_ns x \<noteq> ns"
    "iso_prefix_namespace ns path = Inr sp"
  shows "view (fold (tenant_step ops) xs b) (key sp) = view b (key sp)"
  using assms
proof (induction xs arbitrary: b)
  case (Cons x xs)
  then show ?case using tenant_step_view [of b ns x path sp] by (simp add: tenant_step_invar)
qed simp

lemma tenant_run_read:
  assumes "invar b" "ns_good ns" "\<forall>x \<in> set xs. ns_good (top_ns x) \<and> top_ns x \<noteq> ns"
  shows "iso_read ops ns (fold (tenant_step ops) xs b) path = Inr c \<longleftrightarrow>
     iso_read ops ns b path = Inr c"
proof (cases "iso_prefix_namespace ns path")
  case (Inr sp)
  then show ?thesis
    using tenant_run_view [OF assms Inr] tenant_run_invar [OF assms(1), of xs] assms(1)
    by (simp add: iso_read_def read_view iso_prefix_namespace_wf)
qed (simp add: iso_read_def)

end

interpretation mem_ns: namespaced_store memory_ops mem_inv mem_view as_str ns_ok
  by unfold_locales (use prefixed_namespaces_differ in auto)

lemma tenant_reads_same:
  assumes "mem_inv b" "ns_ok ns" "\<forall>x \<in> set xs. ns_ok (top_ns x) \<and> top_ns x \<noteq> ns"
  shows "iso_read memory_ops ns (fold (tenant_step memory_ops) xs b) path = iso_read memory_ops ns b path
     \<and> iso_exists memory_ops ns (fold (tenant_step memory_ops) xs b) path = iso_exists memory_ops ns b path"
proof (cases "iso_prefix_namespace ns path")
  case (Inr sp)
  have inv: "mem_inv (fold (tenant_step memory_ops) xs b)"
    by (rule mem.tenant_run_invar [OF assms(1)])
  have wf: "vfs_path_wf sp" by (rule iso_prefix_namespace_wf [OF Inr])
  have v: "mem_view (fold (tenant_step memory_ops) xs b) (as_str sp) = mem_view b (as_str sp)"
    by (rule mem_ns.tenant_run_view [OF assms Inr])
  then have "be_read memory_ops (fold (tenant_step memory_ops) xs b) sp = be_read memory_ops b sp"
    by (simp add: memory_ops_def mem_read_view)
  then show ?thesis
    using Inr v mem.exists_view [OF inv wf] mem.exists_view [OF assms(1) wf]
    by (simp add: iso_read_def iso_exists_def)
qed (simp add: iso_read_def iso_exists_def)

section \<open>Properties\<close>

text \<open>
  Read your writes: after a tenant's successful write, reading the same path through the
  same namespace returns the bytes written, whatever spelling of the path normalises to it.
\<close>

theorem isolate_read_your_writes:
  assumes "mem_inv b" "iso_write memory_ops ns now b path c = (Inr (), b')"
    "vfs_path_new path' = vfs_path_new path"
  shows "iso_read memory_ops ns b' path' = Inr c"
proof -
  have "iso_read memory_ops ns b' path = Inr c"
    by (rule mem.iso_read_after_write [OF assms(1,2)])
  then show ?thesis using assms(3) by (simp add: iso_read_def iso_prefix_namespace_def)
qed

theorem isolate_read_your_writes_witness:
  "\<exists>b'. iso_write memory_ops ''app_com'' 9 sample_mem ''/etc//motd'' [104, 105] = (Inr (), b')
     \<and> iso_read memory_ops ''app_com'' b' ''etc/motd'' = Inr [104, 105]"
proof -
  let ?w = "iso_write memory_ops ''app_com'' 9 sample_mem ''/etc//motd'' [104, 105]"
  have "fst ?w = Inr ()" by code_simp
  then have w: "?w = (Inr (), snd ?w)" by (metis prod.collapse)
  have p: "vfs_path_new ''etc/motd'' = vfs_path_new ''/etc//motd''" by code_simp
  from w isolate_read_your_writes [OF sample_mem_inv w p] show ?thesis by blast
qed

text \<open>
  C1. Tenant isolation: no sequence of writes and deletes by tenants of other namespaces
  changes what a tenant reads, tests for existence or gets as an error, for any path string.
\<close>

theorem tenant_isolation:
  assumes "mem_inv b" "ns_ok ns" "\<forall>x \<in> set xs. ns_ok (top_ns x) \<and> top_ns x \<noteq> ns"
  shows "iso_read memory_ops ns (fold (tenant_step memory_ops) xs b) path = iso_read memory_ops ns b path
     \<and> iso_exists memory_ops ns (fold (tenant_step memory_ops) xs b) path = iso_exists memory_ops ns b path"
  by (rule tenant_reads_same [OF assms])

theorem tenant_isolation_witness:
  "let b = snd (iso_write memory_ops ''app_a'' 1 sample_mem ''k'' [42]);
       xs = [TWrite ''app_b'' 2 ''k'' [13], TDelete ''app_b'' ''/k'']
   in iso_read memory_ops ''app_a'' (fold (tenant_step memory_ops) xs b) ''k'' = Inr [42]"
proof -
  let ?b = "snd (iso_write memory_ops ''app_a'' 1 sample_mem ''k'' [42])"
  let ?xs = "[TWrite ''app_b'' 2 ''k'' [13], TDelete ''app_b'' ''/k'']"
  have i: "mem_inv ?b" by (rule mem.iso_write_invar [OF sample_mem_inv])
  have n: "ns_ok ''app_a''" by code_simp
  have x: "\<forall>x \<in> set ?xs. ns_ok (top_ns x) \<and> top_ns x \<noteq> ''app_a''" by code_simp
  have "iso_read memory_ops ''app_a'' ?b ''k'' = Inr [42]" by code_simp
  with tenant_isolation [OF i n x, of "''k''"] show ?thesis by (simp add: Let_def)
qed

text \<open>
  Directory listings are confined: every path a tenant's \<^verbatim>\<open>list_dir\<close> returns lies under the
  tenant's own namespace prefix, and it does not panic.
\<close>

theorem isolate_list_dir_confined:
  assumes "mem_inv b" "ns_ok ns"
  shows "\<exists>r. iso_list_dir memory_ops ns b path = Some r \<and>
     (case r of Inl e \<Rightarrow> error_code e = ''EINVAL''
      | Inr ps \<Rightarrow> list_all (\<lambda>q. prefix (ns @ ''::'') (as_str q)) ps)"
proof (cases "iso_prefix_namespace ns path")
  case (Inl e)
  then have "error_code e = ''EINVAL''"
    by (auto simp: iso_prefix_namespace_def bind_res_def vfs_path_new_def Let_def error_code_def
        split: sum.splits if_splits)
  with Inl show ?thesis by (simp add: iso_list_dir_def)
next
  case (Inr sp)
  then obtain p where p: "sp = VfsPath (ns @ ''::'' @ as_str p)" "vfs_path_wf sp"
    using iso_prefix_namespace_Inr [OF assms(2)] by blast
  show ?thesis
    using mem_list_dir_eq [of b sp] assms p(2) Inr
    by (simp add: iso_list_dir_def memory_ops_def mem_inv_def list_all_iff p(1))
qed

theorem isolate_list_dir_confined_witness:
  "\<exists>r. iso_list_dir memory_ops ''app_a'' sample_mem ''d'' = Some r \<and>
     (case r of Inl e \<Rightarrow> error_code e = ''EINVAL''
      | Inr ps \<Rightarrow> list_all (\<lambda>q. prefix (''app_a'' @ ''::'') (as_str q)) ps)"
proof -
  have "ns_ok ''app_a''" by code_simp
  then show ?thesis by (rule isolate_list_dir_confined [OF sample_mem_inv])
qed

text \<open>
  Namespaces do not separate all hostnames: two distinct hostnames map to one namespace
  exactly when they agree after lower-casing and identifying dot, dash and underscore, so the
  applications \<^verbatim>\<open>my.app\<close> and \<^verbatim>\<open>my-app\<close> share their files.
\<close>

theorem namespace_collisions:
  "(from_hostname h = from_hostname h' \<longleftrightarrow>
      list_all2 (\<lambda>x y. lower_char x = lower_char y
        \<or> (lower_char x \<in> {CHR ''.'', CHR ''-'', CHR ''_''} \<and> lower_char y \<in> {CHR ''.'', CHR ''-'', CHR ''_''}))
      h h')
   \<and> from_hostname ''my.app'' = from_hostname ''my-app''"
proof
  show "from_hostname ''my.app'' = from_hostname ''my-app''" by code_simp
  let ?seps = "{CHR ''.'', CHR ''-'', CHR ''_''}"
  let ?f = "\<lambda>x. if lower_char x \<in> ?seps then CHR ''_'' else lower_char x"
  have f: "from_hostname h = map ?f h" for h
    by (auto simp: from_hostname_def replace_char_def to_lowercase_def)
  have "?f x = ?f y \<longleftrightarrow> lower_char x = lower_char y \<or> (lower_char x \<in> ?seps \<and> lower_char y \<in> ?seps)"
    for x y by auto
  then show "from_hostname h = from_hostname h' \<longleftrightarrow>
      list_all2 (\<lambda>x y. lower_char x = lower_char y \<or> (lower_char x \<in> ?seps \<and> lower_char y \<in> ?seps)) h h'"
    unfolding f by (simp only: list.rel_eq [symmetric] list.rel_map)
qed

text \<open>
  \<^verbatim>\<open>FileSystem\<close> keeps a path in its namespace exactly when the prefixed path fits in 4096
  bytes; a longer one falls back to the bare path, outside every namespace.
\<close>

theorem filesystem_namespace_fallback:
  assumes "vfs_path_wf p" "ns_ok ns"
  shows "fs_prefix_namespace (fs_with_namespace ns) p =
     (if length ns + 2 + length (as_str p) \<le> 4096 then VfsPath (ns @ ''::'' @ as_str p) else p)"
  using prefixed_new [OF assms]
  by (simp add: fs_prefix_namespace_def fs_with_namespace_def MAX_PATH_LENGTH_def)

theorem filesystem_namespace_fallback_witness:
  "fs_prefix_namespace (fs_with_namespace ''app_a'') (VfsPath ''k'') = VfsPath ''app_a::k''
   \<and> fs_prefix_namespace (fs_with_namespace ''app_a'') (VfsPath (replicate 4096 (CHR ''x''))) =
       VfsPath (replicate 4096 (CHR ''x''))"
proof
  have n: "ns_ok ''app_a''" by code_simp
  have w: "vfs_path_wf (VfsPath ''k'')" by code_simp
  show "fs_prefix_namespace (fs_with_namespace ''app_a'') (VfsPath ''k'') = VfsPath ''app_a::k''"
    using filesystem_namespace_fallback [OF w n] by simp
  have s: "split_on (CHR ''/'') (replicate 4096 (CHR ''x'')) = [replicate 4096 (CHR ''x'')]"
    by (rule split_on_atom) simp
  then have "normalize_path (replicate 4096 (CHR ''x'')) = replicate 4096 (CHR ''x'')"
    using normal_iff_no_empty_segment [of "replicate 4096 (CHR ''x'')"] by simp
  moreover have "replicate 4096 (CHR ''x'') \<noteq> ''..''"
    by (rule notI, drule arg_cong [where f = length]) simp
  ultimately have "vfs_path_wf (VfsPath (replicate 4096 (CHR ''x'')))"
    using s by (simp add: vfs_path_wf_iff MAX_PATH_LENGTH_def segments_def)
  from filesystem_namespace_fallback [OF this n]
  show "fs_prefix_namespace (fs_with_namespace ''app_a'') (VfsPath (replicate 4096 (CHR ''x''))) =
       VfsPath (replicate 4096 (CHR ''x''))" by simp
qed

text \<open>
  The two passes of \<^verbatim>\<open>FileSystem\<close> agree: with the default validator, the strict first pass
  accepts every path that normalisation accepts, so the combined check accepts exactly the
  strings \<^verbatim>\<open>VfsPath::new\<close> accepts and yields the same path.
\<close>

theorem filesystem_validation_agrees:
  "fs_validator fs = default_validator \<Longrightarrow>
     fs_validate_and_normalize fs s = Inr p \<longleftrightarrow> vfs_path_new s = Inr p"
  by (auto simp: fs_validate_and_normalize_def bind_res_Inr validate_path_Inr default_validator_def
      vfs_path_new_Inr)

theorem filesystem_validation_agrees_witness:
  "fs_validate_and_normalize fs_new ''a//b'' = Inr (VfsPath ''a/b'')"
proof -
  have "fs_validator fs_new = default_validator" by code_simp
  moreover have "vfs_path_new ''a//b'' = Inr (VfsPath ''a/b'')" by code_simp
  ultimately show ?thesis using filesystem_validation_agrees by blast
qed

end
