(* ===== verification/V8_Modules.thy ===== *)
theory V8_Modules
  imports Http_Types Vfs_Isolate
begin

text \<open>
  Loading of JavaScript modules (\<^verbatim>\<open>src/src/v8/module.rs\<close>): classification of code, resolution of import specifiers, the callback
  that V8 calls for every import, the run of a module and the reading of a handler's response, the latter also in the
  version of \<^verbatim>\<open>src/src/worker/pool.rs\<close>. V8 and the regex library are parameters; the compiled module is a value of any type.
  The module's code is read through the tenant's view of the file system, as bytes; \<open>lossy\<close> decodes them.
\<close>

section \<open>Definitions\<close>

subsection \<open>Kinds of code\<close>

datatype module_type = ESM | Script

definition detect_module_type :: "string \<Rightarrow> module_type" where
  "detect_module_type code =
     (if contains_sub code ''export default'' \<or> contains_sub code ''export '' \<or> contains_sub code ''export{''
         \<or> contains_sub code ''import '' \<or> contains_sub code ''import{'' \<or> contains_sub code ''import(''
      then ESM else Script)"

definition is_esm_module :: "string \<Rightarrow> bool" where
  "is_esm_module code = (detect_module_type code = ESM)"

subsection \<open>The loader\<close>

text \<open>The cache in the order of insertion; the stack has its top at the end.\<close>

record 'm module_loader =
  module_cache :: "(string \<times> 'm) list"
  loading_stack :: "string list"

definition module_loader_new :: "'m module_loader" where
  "module_loader_new = \<lparr>module_cache = [], loading_stack = []\<rparr>"

definition load_module_from_vfs :: "(bytes \<Rightarrow> string) \<Rightarrow> 'b vfs_backend \<Rightarrow> string \<Rightarrow> 'b \<Rightarrow> string \<Rightarrow> string + string" where
  "load_module_from_vfs lossy ops ns b path = (case iso_read ops ns b path of
       Inl e \<Rightarrow> Inl (''Failed to read module '' @ path @ '': '' @ show_vfs_error e)
     | Inr c \<Rightarrow> Inr (lossy c))"

definition base_dir :: "string \<Rightarrow> string" where
  "base_dir base_path = (case rfind_char (CHR ''/'') base_path of Some i \<Rightarrow> take i base_path | None \<Rightarrow> ''.'')"

definition real_component :: "string \<Rightarrow> bool" where
  "real_component c = (\<not> (c = [] \<or> c = ''.''))"

text \<open>The loop over the components of a specifier; \<open>None\<close> is a step above the root.\<close>

fun apply_components :: "string list \<Rightarrow> string list \<Rightarrow> string list option" where
  "apply_components components [] = Some components"
| "apply_components components (c # cs) =
     (if c = [] \<or> c = ''.'' then apply_components components cs
      else if c = ''..'' then (if components = [] then None else apply_components (butlast components) cs)
      else apply_components (components @ [c]) cs)"

definition resolve_import_path :: "'b vfs_backend \<Rightarrow> string \<Rightarrow> 'b \<Rightarrow> string \<Rightarrow> string \<Rightarrow> string + string" where
  "resolve_import_path ops ns b base_path specifier =
     (if starts_with specifier ''/'' then Inr specifier
      else case apply_components (filter real_component (split_on (CHR ''/'') (base_dir base_path))) (split_on (CHR ''/'') specifier) of
          None \<Rightarrow> Inl (''Path traversal out of bounds: '' @ specifier @ '' from '' @ base_path)
        | Some components \<Rightarrow>
            (let resolved = (if components = [] then ''/'' else ''/'' @ join_with ''/'' components) in
             if CHR ''.'' \<notin> set resolved
             then if iso_exists ops ns b (resolved @ ''.js'') = Inr True then Inr (resolved @ ''.js'')
               else if iso_exists ops ns b (resolved @ ''.mjs'') = Inr True then Inr (resolved @ ''.mjs'')
               else Inr resolved
             else Inr resolved))"

definition is_circular_import :: "'m module_loader \<Rightarrow> string \<Rightarrow> bool" where
  "is_circular_import l path = (path \<in> set (loading_stack l))"

definition push_loading :: "string \<Rightarrow> 'm module_loader \<Rightarrow> 'm module_loader" where
  "push_loading path l = l\<lparr>loading_stack := loading_stack l @ [path]\<rparr>"

definition pop_loading :: "'m module_loader \<Rightarrow> 'm module_loader" where
  "pop_loading l = l\<lparr>loading_stack := butlast (loading_stack l)\<rparr>"

definition get_cached :: "'m module_loader \<Rightarrow> string \<Rightarrow> 'm option" where
  "get_cached l path = map_of (module_cache l) path"

definition cache_module :: "string \<Rightarrow> 'm \<Rightarrow> 'm module_loader \<Rightarrow> 'm module_loader" where
  "cache_module path m l = l\<lparr>module_cache := AList.update path m (module_cache l)\<rparr>"

subsection \<open>Importing\<close>

text \<open>
  V8: whether a name is a registered builtin, the synthetic module for it, whether a text fits into a V8 string, and
  compilation of a module from its name and code.
\<close>

record 'm v8_env =
  v8_registered :: "string \<Rightarrow> bool"
  v8_synthetic :: "string \<Rightarrow> 'm option"
  v8_string_ok :: "string \<Rightarrow> bool"
  v8_compile :: "string \<Rightarrow> string \<Rightarrow> 'm option"
  v8_lossy :: "bytes \<Rightarrow> string"

definition builtin_module_id :: "'m v8_env \<Rightarrow> string \<Rightarrow> string option" where
  "builtin_module_id env specifier =
     (let bare = (if starts_with specifier ''node:'' then drop 5 specifier else specifier) in
      if starts_with specifier ''.'' \<or> starts_with specifier ''/'' then None
      else if v8_registered env bare then Some bare else None)"

definition module_resolve_callback ::
  "'m v8_env \<Rightarrow> 'b vfs_backend \<Rightarrow> string \<Rightarrow> 'b \<Rightarrow> string \<Rightarrow> 'm module_loader \<Rightarrow> 'm option \<times> 'm module_loader" where
  "module_resolve_callback env ops ns b specifier loader = (case builtin_module_id env specifier of
       Some builtin_id \<Rightarrow> (v8_synthetic env builtin_id, loader)
     | None \<Rightarrow> (case resolve_import_path ops ns b ''/handler.js'' specifier of
         Inl _ \<Rightarrow> (None, loader)
       | Inr path \<Rightarrow>
           if is_circular_import loader path then (None, loader)
           else (case get_cached loader path of
               Some cached \<Rightarrow> (Some cached, loader)
             | None \<Rightarrow> (case load_module_from_vfs (v8_lossy env) ops ns b path of
                 Inl _ \<Rightarrow> (None, loader)
               | Inr code \<Rightarrow>
                   let loader = push_loading path loader in
                   if \<not> v8_string_ok env code then (None, pop_loading loader)
                   else (case v8_compile env path code of
                       None \<Rightarrow> (None, pop_loading loader)
                     | Some m \<Rightarrow> (Some m, pop_loading (cache_module path m loader)))))))"

text \<open>The exports of a synthetic module: the default and the usable own property names, without repetition.\<close>

definition is_valid_export_binding :: "string \<Rightarrow> bool" where
  "is_valid_export_binding name = (case name of
       [] \<Rightarrow> False
     | c # cs \<Rightarrow> (is_ascii_alphanumeric c \<and> \<not> (48 \<le> (of_char c :: nat) \<and> (of_char c :: nat) \<le> 57) \<or> c = CHR ''_'' \<or> c = CHR 0x24)
         \<and> list_all (\<lambda>c. is_ascii_alphanumeric c \<or> c = CHR ''_'' \<or> c = CHR 0x24) cs)"

definition synthetic_exports :: "string list \<Rightarrow> string list" where
  "synthetic_exports keys = fold (\<lambda>key_name export_names.
     if is_valid_export_binding key_name \<and> key_name \<notin> set export_names then export_names @ [key_name] else export_names)
     keys [''default'']"

subsection \<open>Rewriting imports for classic scripts\<close>

text \<open>\<^verbatim>\<open>str::trim\<close> on ASCII whitespace.\<close>

definition is_space :: "char \<Rightarrow> bool" where
  "is_space c = (c \<in> {CHR '' '', CHR 0x09, CHR 0x0A, CHR 0x0B, CHR 0x0C, CHR 0x0D})"

definition str_trim :: "string \<Rightarrow> string" where
  "str_trim s = rev (dropWhile is_space (rev (dropWhile is_space s)))"

definition destructure_item :: "string \<Rightarrow> string option" where
  "destructure_item item =
     (let item = (if starts_with item ''type '' then str_trim (drop 5 item) else item) in
      if item = [] then None
      else case find_sub '' as '' item of
          Some i \<Rightarrow> (let imported = str_trim (take i item); local_name = str_trim (drop (i + 4) item)
            in Some (if imported = local_name then imported else imported @ '': '' @ local_name))
        | None \<Rightarrow> Some item)"

definition named_import_list_to_destructure :: "string \<Rightarrow> string" where
  "named_import_list_to_destructure named =
     join_with '', '' (List.map_filter destructure_item (filter (\<lambda>s. s \<noteq> []) (map str_trim (split_on (CHR '','') named))))"

text \<open>
  What the regular expression finds: the code as text between import statements and statements of its forms, with the captured
  names.
\<close>

datatype import_piece =
    CodeText string
  | TypeImport
  | DefaultAndNamespace string string string
  | DefaultAndNamed string string string
  | NamespaceImport string string
  | NamedImport string string
  | DefaultImport string string
  | BareImport string

definition require_call :: "string \<Rightarrow> string" where
  "require_call spec = ''require('' @ [CHR 0x22] @ spec @ [CHR 0x22] @ '')''"

fun rewrite_piece :: "import_piece \<Rightarrow> string" where
  "rewrite_piece (CodeText s) = s"
| "rewrite_piece TypeImport = []"
| "rewrite_piece (DefaultAndNamespace d n spec) =
     ''const '' @ n @ '' = '' @ require_call spec @ ''; const '' @ d @ '' = '' @ n @ ''.default;''"
| "rewrite_piece (DefaultAndNamed d names spec) =
     (let named = named_import_list_to_destructure names; req = require_call spec in
      if named = [] then ''const '' @ d @ '' = '' @ req @ ''.default;''
      else ''const { '' @ named @ '' } = '' @ req @ ''; const '' @ d @ '' = '' @ req @ ''.default;'')"
| "rewrite_piece (NamespaceImport n spec) = ''const '' @ n @ '' = '' @ require_call spec @ '';''"
| "rewrite_piece (NamedImport names spec) =
     (let named = named_import_list_to_destructure names in
      if named = [] then require_call spec @ '';''
      else ''const { '' @ named @ '' } = '' @ require_call spec @ '';'')"
| "rewrite_piece (DefaultImport d spec) = ''const '' @ d @ '' = '' @ require_call spec @ ''.default;''"
| "rewrite_piece (BareImport spec) = require_call spec @ '';''"

definition transform_imports :: "(string \<Rightarrow> import_piece list) \<Rightarrow> string \<Rightarrow> string" where
  "transform_imports import_stmt_re code = concat (map rewrite_piece (import_stmt_re code))"

definition handler_extraction :: string where
  "handler_extraction = [CHR 0x0A, CHR 0x0A] @ ''// Extract handler function from export'' @ [CHR 0x0A]
     @ ''var __nano_user_fetch = undefined;'' @ [CHR 0x0A]
     @ ''if (typeof __nano_handler === '' @ [CHR 0x27] @ ''object'' @ [CHR 0x27] @ '' && __nano_handler.fetch) {'' @ [CHR 0x0A]
     @ ''    __nano_user_fetch = __nano_handler.fetch;'' @ [CHR 0x0A] @ ''}''"

text \<open>\<open>export_as_default\<close> is the code with its default export lists replaced, if there are any.\<close>

definition transform_module_code :: "(string \<Rightarrow> import_piece list) \<Rightarrow> (string \<Rightarrow> string option) \<Rightarrow> string \<Rightarrow> string" where
  "transform_module_code import_stmt_re export_as_default code =
     (let code = transform_imports import_stmt_re code in
      if contains_sub code ''export default'' \<or> export_as_default code \<noteq> None
      then (let transformed = (case export_as_default code of Some c \<Rightarrow> c | None \<Rightarrow> code)
        in replace_sub ''export default'' ''var __nano_handler ='' transformed @ handler_extraction)
      else code)"

subsection \<open>Reading the response of a handler\<close>

text \<open>
  A JavaScript value as the code looks at it: null or undefined, a function, and the results of its conversions to an integer
  and to a string, \<open>None\<close> when they throw. Of the response object: the three properties it reads (\<open>None\<close> when the access
  throws); for the headers the own properties of the \<^verbatim>\<open>__headers__\<close> object, if it is one, and of the headers object.
\<close>

record js_value =
  jv_nullish :: bool
  jv_function :: bool
  jv_integer :: "int option"
  jv_text :: "string option"

type_synonym js_properties = "(string option \<times> js_value option) list"

record js_response =
  jr_is_object :: bool
  jr_status :: "js_value option"
  jr_headers :: "(js_properties option \<times> js_properties) option"
  jr_body :: "js_value option"

definition header_property :: "string option \<times> js_value option \<Rightarrow> (string \<times> string) option" where
  "header_property kv = (case kv of
       (Some key_name, Some v) \<Rightarrow>
         if starts_with key_name ''__'' \<or> key_name = ''set'' \<or> key_name = ''get'' \<or> key_name = ''forEach'' then None
         else if jv_function v then None
         else map_option (Pair key_name) (jv_text v)
     | _ \<Rightarrow> None)"

definition header_properties :: "js_response \<Rightarrow> (string \<times> string) list" where
  "header_properties r = (case jr_headers r of
       None \<Rightarrow> []
     | Some (inner, outer) \<Rightarrow> List.map_filter header_property (case inner of Some ps \<Rightarrow> ps | None \<Rightarrow> outer))"

text \<open>\<^verbatim>\<open>as u16\<close> keeps the low 16 bits.\<close>

definition status_of :: "js_value \<Rightarrow> u16" where
  "status_of v = (case jv_integer v of Some i \<Rightarrow> word_of_int i | None \<Rightarrow> 200)"

definition extract_js_response :: "js_response \<Rightarrow> string + nano_response" where
  "extract_js_response r =
     (if \<not> jr_is_object r then Inl ''Response is not an object''
      else let s = (case jr_status r of Some v \<Rightarrow> if jv_nullish v then 200 else status_of v | None \<Rightarrow> 200);
               hs = fold (\<lambda>(k, v). header_set k v) (header_properties r) headers_new;
               body = (case jr_body r of
                  Some v \<Rightarrow> if jv_nullish v then None else map_option string_bytes (jv_text v)
                | None \<Rightarrow> None)
           in Inr (response_new s hs body))"

text \<open>The copy in the worker's loop.\<close>

definition extract_in_worker :: "js_response \<Rightarrow> string + nano_response" where
  "extract_in_worker r =
     (if \<not> jr_is_object r then Inl ''Handler response is not an object''
      else let s = (case jr_status r of Some v \<Rightarrow> status_of v | None \<Rightarrow> 200);
               response = fold (\<lambda>(k, v). with_header k v) (header_properties r) (with_status s)
           in Inr (case jr_body r of
                  Some v \<Rightarrow> if jv_nullish v then response
                    else (case jv_text v of Some t \<Rightarrow> with_body t response | None \<Rightarrow> response)
                | None \<Rightarrow> response))"

subsection \<open>Running a module\<close>

text \<open>
  What V8 does with a module: compilation, the specifiers it asks for in order, instantiation once all are resolved,
  evaluation, the default export, the request object, the call and, for a promise, its result.
\<close>

datatype default_export = NoExport | FetchObject | FunctionExport | OtherExport

datatype call_result = NoValue | PromiseFailed string | Returned js_response

record esm_run =
  er_compiles :: bool
  er_imports :: "string list"
  er_instantiates :: bool
  er_evaluates :: bool
  er_default :: default_export
  er_request :: "string option"
  er_result :: call_result

fun resolve_imports ::
  "'m v8_env \<Rightarrow> 'b vfs_backend \<Rightarrow> string \<Rightarrow> 'b \<Rightarrow> string list \<Rightarrow> 'm module_loader \<Rightarrow> bool \<times> 'm module_loader" where
  "resolve_imports env ops ns b [] l = (True, l)"
| "resolve_imports env ops ns b (sp # sps) l = (case module_resolve_callback env ops ns b sp l of
       (None, l') \<Rightarrow> (False, l') | (Some m, l') \<Rightarrow> resolve_imports env ops ns b sps l')"

definition call_response :: "string option \<Rightarrow> call_result \<Rightarrow> string + nano_response" where
  "call_response request res = (case request of
       Some e \<Rightarrow> Inl e
     | None \<Rightarrow> (case res of
           NoValue \<Rightarrow> Inl ''Handler returned None''
         | PromiseFailed e \<Rightarrow> Inl e
         | Returned r \<Rightarrow> extract_js_response r))"

definition execute_esm_module ::
  "'m v8_env \<Rightarrow> 'b vfs_backend \<Rightarrow> string \<Rightarrow> 'b \<Rightarrow> string \<Rightarrow> esm_run \<Rightarrow> string + nano_response" where
  "execute_esm_module env ops ns b code run =
     (if \<not> v8_string_ok env code then Inl ''Failed to create code string''
      else if \<not> er_compiles run then Inl ''Module compilation failed''
      else if \<not> (fst (resolve_imports env ops ns b (er_imports run) module_loader_new) \<and> er_instantiates run)
      then Inl ''Module instantiation failed''
      else if \<not> er_evaluates run then Inl ''Module evaluation failed''
      else case er_default run of
          NoExport \<Rightarrow> Inl ''No default export found''
        | OtherExport \<Rightarrow> Inl ''Default export must be an object with fetch method or a function''
        | _ \<Rightarrow> call_response (er_request run) (er_result run))"

datatype fetch_global = NoFetch | FetchNotFunction | FetchFunction

record script_run =
  sr_compiles :: bool
  sr_fetch :: fetch_global
  sr_request :: "string option"
  sr_result :: call_result

definition plain_text :: "string \<Rightarrow> nano_response" where
  "plain_text m = with_body m (with_header ''Content-Type'' ''text/plain'' response_ok)"

definition execute_classic_script ::
  "'m v8_env \<Rightarrow> (string \<Rightarrow> import_piece list) \<Rightarrow> (string \<Rightarrow> string option) \<Rightarrow> string \<Rightarrow> (string \<Rightarrow> script_run)
     \<Rightarrow> string + nano_response" where
  "execute_classic_script env import_stmt_re export_as_default code run_of =
     (let transformed_code = transform_module_code import_stmt_re export_as_default code; run = run_of transformed_code in
      if \<not> v8_string_ok env transformed_code then Inl ''Failed to create code string''
      else if \<not> sr_compiles run then Inl ''Script compilation failed''
      else case sr_fetch run of
          NoFetch \<Rightarrow> Inr (plain_text ''Handler executed (no fetch function defined)'')
        | FetchNotFunction \<Rightarrow> Inr (plain_text ''Handler executed (fetch is not a function)'')
        | FetchFunction \<Rightarrow> call_response (sr_request run) (sr_result run))"

definition execute_esm_or_script ::
  "'m v8_env \<Rightarrow> (string \<Rightarrow> import_piece list) \<Rightarrow> (string \<Rightarrow> string option) \<Rightarrow> 'b vfs_backend \<Rightarrow> string \<Rightarrow> 'b \<Rightarrow> string
     \<Rightarrow> esm_run \<Rightarrow> (string \<Rightarrow> script_run) \<Rightarrow> string + nano_response" where
  "execute_esm_or_script env import_stmt_re export_as_default ops ns b code run run_of =
     (if is_esm_module code then execute_esm_module env ops ns b code run
      else execute_classic_script env import_stmt_re export_as_default code run_of)"

subsection \<open>Specification vocabulary\<close>

text \<open>A clean path below the root, and how deep a specifier leads.\<close>

definition clean_component :: "string \<Rightarrow> bool" where
  "clean_component c = (c \<noteq> [] \<and> c \<noteq> ''.'' \<and> c \<noteq> ''..'' \<and> CHR ''/'' \<notin> set c)"

definition depth_change :: "string \<Rightarrow> int" where
  "depth_change c = (if c = [] \<or> c = ''.'' then 0 else if c = ''..'' then - 1 else 1)"

text \<open>A module that an import can give: a builtin, or the compiled code of a file of the tenant under its path.\<close>

definition own_module :: "'m v8_env \<Rightarrow> 'b vfs_backend \<Rightarrow> string \<Rightarrow> 'b \<Rightarrow> string \<Rightarrow> 'm \<Rightarrow> bool" where
  "own_module env ops ns b path m =
     (\<exists>c. iso_read ops ns b path = Inr c \<and> v8_compile env path (v8_lossy env c) = Some m)"

definition loader_inv :: "'m v8_env \<Rightarrow> 'b vfs_backend \<Rightarrow> string \<Rightarrow> 'b \<Rightarrow> 'm module_loader \<Rightarrow> bool" where
  "loader_inv env ops ns b l = (loading_stack l = []
     \<and> (\<forall>path m. map_of (module_cache l) path = Some m \<longrightarrow> own_module env ops ns b path m))"

section \<open>Lemmas\<close>

lemma apply_components_ok:
  "\<lbrakk>apply_components xs cs = Some ys; list_all clean_component xs; \<forall>c \<in> set cs. CHR ''/'' \<notin> set c\<rbrakk>
   \<Longrightarrow> list_all clean_component ys"
proof (induction xs cs rule: apply_components.induct)
  case (2 xs c cs)
  consider "c = [] \<or> c = ''.''" | "c = ''..''" "xs \<noteq> []" | "c \<noteq> []" "c \<noteq> ''.''" "c \<noteq> ''..''"
    using 2(4) by (cases "c = [] \<or> c = ''.''"; cases "c = ''..''") (auto split: if_splits)
  then show ?case
  proof cases
    case 1
    then show ?thesis using 2 by simp
  next
    case 2
    have "list_all clean_component (butlast xs)" using "2.prems"(2) by (auto simp: list_all_iff dest: in_set_butlastD)
    then show ?thesis using "2.IH"(2) "2.prems" 2 by simp
  next
    case 3
    then have "clean_component c" using "2.prems"(3) by (simp add: clean_component_def)
    then have "list_all clean_component (xs @ [c])" using "2.prems"(2) by simp
    then show ?thesis using "2.IH"(3) "2.prems" 3 by simp
  qed
qed simp

lemma depth_change_simps [simp]:
  "depth_change [] = 0" "depth_change ''.'' = 0" "depth_change ''..'' = - 1"
  "\<lbrakk>c \<noteq> []; c \<noteq> ''.''; c \<noteq> ''..''\<rbrakk> \<Longrightarrow> depth_change c = 1"
  by (auto simp: depth_change_def)

lemma ex_le_Suc: "(\<exists>k \<le> Suc n. P k) \<longleftrightarrow> P 0 \<or> (\<exists>k \<le> n. P (Suc k))"
  by (metis Suc_le_mono le0 not0_implies_Suc)

lemma apply_components_None:
  "apply_components xs cs = None \<longleftrightarrow> (\<exists>k \<le> length cs. int (length xs) + sum_list (map depth_change (take k cs)) < 0)"
proof (induction xs cs rule: apply_components.induct)
  case (2 xs c cs)
  have split: "(\<exists>k \<le> length (c # cs). int (length xs) + sum_list (map depth_change (take k (c # cs))) < 0) \<longleftrightarrow>
      (\<exists>k \<le> length cs. int (length xs) + depth_change c + sum_list (map depth_change (take k cs)) < 0)"
    by (simp add: ex_le_Suc add.assoc)
  consider "c = [] \<or> c = ''.''" | "c = ''..''" "xs = []" | "c = ''..''" "xs \<noteq> []" | "c \<noteq> []" "c \<noteq> ''.''" "c \<noteq> ''..''" by blast
  then show ?case unfolding split
  proof cases
    case 1
    then have "depth_change c = 0" by auto
    then show "apply_components xs (c # cs) = None \<longleftrightarrow>
        (\<exists>k \<le> length cs. int (length xs) + depth_change c + sum_list (map depth_change (take k cs)) < 0)"
      using "2.IH"(1) 1 by simp
  next
    case 2
    then show "apply_components xs (c # cs) = None \<longleftrightarrow>
        (\<exists>k \<le> length cs. int (length xs) + depth_change c + sum_list (map depth_change (take k cs)) < 0)"
      by (auto intro: exI [of _ 0])
  next
    case 3
    then have "int (length (butlast xs)) = int (length xs) + depth_change c" by (cases xs) auto
    then show "apply_components xs (c # cs) = None \<longleftrightarrow>
        (\<exists>k \<le> length cs. int (length xs) + depth_change c + sum_list (map depth_change (take k cs)) < 0)"
      using "2.IH"(2) 3 by simp
  next
    case 4
    then have "int (length (xs @ [c])) = int (length xs) + depth_change c" by simp
    then show "apply_components xs (c # cs) = None \<longleftrightarrow>
        (\<exists>k \<le> length cs. int (length xs) + depth_change c + sum_list (map depth_change (take k cs)) < 0)"
      using "2.IH"(3) 4 by (simp add: add.commute)
  qed
qed simp

lemma resolve_callback_inv:
  assumes "loader_inv env ops ns b l"
  shows "loader_inv env ops ns b (snd (module_resolve_callback env ops ns b sp l))"
    "fst (module_resolve_callback env ops ns b sp l) = Some m \<Longrightarrow>
       (\<exists>i. builtin_module_id env sp = Some i \<and> v8_synthetic env i = Some m)
       \<or> (\<exists>path. resolve_import_path ops ns b ''/handler.js'' sp = Inr path \<and> own_module env ops ns b path m)"
  using assms
  by (auto simp: module_resolve_callback_def loader_inv_def is_circular_import_def get_cached_def load_module_from_vfs_def
      push_loading_def pop_loading_def cache_module_def own_module_def Let_def
      split: option.splits sum.splits if_splits)

lemma loader_new_inv: "loader_inv env ops ns b module_loader_new"
  by (simp add: loader_inv_def module_loader_new_def)

lemma same_files_same_callback:
  assumes "\<And>p. iso_read ops ns b p = iso_read ops ns b' p" "\<And>p. iso_exists ops ns b p = iso_exists ops ns b' p"
  shows "module_resolve_callback env ops ns b sp l = module_resolve_callback env ops ns b' sp l"
proof -
  have eq: "resolve_import_path ops ns b base s = resolve_import_path ops ns b' base s"
    "load_module_from_vfs lossy ops ns b p = load_module_from_vfs lossy ops ns b' p" for base s lossy p
    unfolding resolve_import_path_def load_module_from_vfs_def assms by (rule refl)+
  show ?thesis unfolding module_resolve_callback_def eq by (rule refl)
qed

lemma resolve_imports_inv: "loader_inv env ops ns b l \<Longrightarrow> loader_inv env ops ns b (snd (resolve_imports env ops ns b sps l))"
proof (induction sps arbitrary: l)
  case (Cons sp sps)
  then show ?case using resolve_callback_inv(1) [OF Cons.prems, of sp]
    by (cases "module_resolve_callback env ops ns b sp l") (auto split: option.split)
qed simp

lemma resolve_imports_same:
  assumes "\<And>p. iso_read ops ns b p = iso_read ops ns b' p" "\<And>p. iso_exists ops ns b p = iso_exists ops ns b' p"
  shows "resolve_imports env ops ns b sps l = resolve_imports env ops ns b' sps l"
  using same_files_same_callback [OF assms, of env] by (induction sps arbitrary: l) (auto split: option.split prod.split)

lemma fold_with_header:
  "fold (\<lambda>(k, v). with_header k v) hs r = r\<lparr>resp_headers := fold (\<lambda>(k, v). header_set k v) hs (resp_headers r)\<rparr>"
  by (induction hs arbitrary: r) (auto simp: with_header_def)

lemma accepted_no_dotdot: "vfs_path_new s = Inr p \<Longrightarrow> ''..'' \<notin> set (split_on (CHR ''/'') s)"
  by (auto simp: vfs_path_new_Inr segments_def)

section \<open>Properties\<close>

text \<open>
  C26. Where imports lead. A relative specifier, imported from a directory without \<^verbatim>\<open>..\<close> components (the program passes \<^verbatim>\<open>/handler.js\<close> only), is rejected
  exactly when its own \<^verbatim>\<open>..\<close> components lead above the root from the directory of the importing file; otherwise the
  path is absolute and clean, without empty, dot or double-dot components, followed by \<^verbatim>\<open>.js\<close> or \<^verbatim>\<open>.mjs\<close> when the path has no dot
  and such a file exists. An absolute specifier is taken as it is, without any check; one with a \<^verbatim>\<open>..\<close> component then fails to load, because the
  file system of the tenant rejects it.
\<close>

theorem import_paths_confined:
  assumes "''..'' \<notin> set (split_on (CHR ''/'') (base_dir base))"
  shows "if starts_with sp ''/''
    then resolve_import_path ops ns b base sp = Inr sp
      \<and> (case load_module_from_vfs lossy ops ns b sp of Inl _ \<Rightarrow> True | Inr _ \<Rightarrow> ''..'' \<notin> set (split_on (CHR ''/'') sp))
    else (case resolve_import_path ops ns b base sp of
      Inl e \<Rightarrow> (\<exists>k \<le> length (split_on (CHR ''/'') sp).
         int (length (filter real_component (split_on (CHR ''/'') (base_dir base))))
           + sum_list (map depth_change (take k (split_on (CHR ''/'') sp))) < 0)
    | Inr path \<Rightarrow> (\<forall>k \<le> length (split_on (CHR ''/'') sp).
         int (length (filter real_component (split_on (CHR ''/'') (base_dir base))))
           + sum_list (map depth_change (take k (split_on (CHR ''/'') sp))) \<ge> 0)
        \<and> (\<exists>cs ext. list_all clean_component cs \<and> ext \<in> {[], ''.js'', ''.mjs''}
            \<and> path = (if cs = [] then ''/'' else ''/'' @ join_with ''/'' cs) @ ext
            \<and> (ext \<noteq> [] \<longrightarrow> iso_exists ops ns b path = Inr True)))"
proof (cases "starts_with sp ''/''")
  case True
  have "''..'' \<notin> set (split_on (CHR ''/'') sp)" if "load_module_from_vfs lossy ops ns b sp = Inr c" for c
  proof -
    have "\<exists>p. vfs_path_new sp = Inr p"
      using that by (cases "vfs_path_new sp") (simp_all add: load_module_from_vfs_def iso_read_def iso_prefix_namespace_def bind_res_def)
    then obtain p where "vfs_path_new sp = Inr p" ..
    then show ?thesis by (rule accepted_no_dotdot)
  qed
  with True show ?thesis by (simp add: resolve_import_path_def split: sum.split)
next
  case False
  let ?base = "filter real_component (split_on (CHR ''/'') (base_dir base))" and ?sp = "split_on (CHR ''/'') sp"
  show ?thesis
  proof (cases "apply_components ?base ?sp")
    case None
    then show ?thesis using False apply_components_None [of ?base ?sp] by (simp add: resolve_import_path_def)
  next
    case (Some cs)
    let ?p = "if cs = [] then ''/'' else ''/'' @ join_with ''/'' cs"
    have base: "list_all clean_component ?base"
      using assms by (auto simp: list_all_iff clean_component_def real_component_def dest: split_on_no_sep)
    have clean: "list_all clean_component cs"
      by (rule apply_components_ok [OF Some base]) (simp add: split_on_no_sep)
    have "\<exists>path. resolve_import_path ops ns b base sp = Inr path
      \<and> (path = ?p \<or> path = ?p @ ''.js'' \<and> iso_exists ops ns b path = Inr True
      \<or> path = ?p @ ''.mjs'' \<and> iso_exists ops ns b path = Inr True)"
      unfolding resolve_import_path_def Let_def Some using False
      by (cases "CHR ''.'' \<in> set ?p"; cases "iso_exists ops ns b (?p @ ''.js'') = Inr True";
          cases "iso_exists ops ns b (?p @ ''.mjs'') = Inr True") (simp_all del: append.simps)
    then obtain path where r: "resolve_import_path ops ns b base sp = Inr path"
      and "path = ?p \<or> path = ?p @ ''.js'' \<and> iso_exists ops ns b path = Inr True
      \<or> path = ?p @ ''.mjs'' \<and> iso_exists ops ns b path = Inr True" by blast
    then have "\<exists>cs ext. list_all clean_component cs \<and> ext \<in> {[], ''.js'', ''.mjs''}
        \<and> path = (if cs = [] then ''/'' else ''/'' @ join_with ''/'' cs) @ ext
        \<and> (ext \<noteq> [] \<longrightarrow> iso_exists ops ns b path = Inr True)"
      using clean by (elim disjE) (rule exI [of _ cs], force)+
    moreover have "\<not> (\<exists>k \<le> length ?sp. int (length ?base) + sum_list (map depth_change (take k ?sp)) < 0)"
      using Some apply_components_None [of ?base ?sp] by simp
    ultimately show ?thesis using False unfolding r by (auto simp: not_less)
  qed
qed

theorem import_paths_confined_witness:
  "(\<exists>e. resolve_import_path memory_ops ''a'' sample_mem ''/handler.js'' ''../x'' = Inl e)
   \<and> resolve_import_path memory_ops ''a'' sample_mem ''/handler.js'' ''/../x'' = Inr ''/../x''
   \<and> (\<exists>e. load_module_from_vfs (\<lambda>_. []) memory_ops ''a'' sample_mem ''/../x'' = Inl e)"
proof -
  have b: "''..'' \<notin> set (split_on (CHR ''/'') (base_dir ''/handler.js''))" by code_simp
  have s: "\<not> starts_with ''../x'' ''/''" "starts_with ''/../x'' ''/''" "''..'' \<in> set (split_on (CHR ''/'') ''/../x'')" by code_simp+
  have "\<exists>e. resolve_import_path memory_ops ''a'' sample_mem ''/handler.js'' ''../x'' = Inl e"
  proof (cases "resolve_import_path memory_ops ''a'' sample_mem ''/handler.js'' ''../x''")
    case (Inr p)
    then have "\<forall>k \<le> length (split_on (CHR ''/'') ''../x'').
        int (length (filter real_component (split_on (CHR ''/'') (base_dir ''/handler.js''))))
          + sum_list (map depth_change (take k (split_on (CHR ''/'') ''../x''))) \<ge> 0"
      using import_paths_confined [OF b, of "''../x''" memory_ops "''a''" sample_mem] s(1) by simp
    then have "int (length (filter real_component (split_on (CHR ''/'') (base_dir ''/handler.js''))))
        + sum_list (map depth_change (take 1 (split_on (CHR ''/'') ''../x''))) \<ge> 0" by (rule allE [of _ 1]) simp
    moreover have "\<not> int (length (filter real_component (split_on (CHR ''/'') (base_dir ''/handler.js''))))
        + sum_list (map depth_change (take 1 (split_on (CHR ''/'') ''../x''))) \<ge> 0" by code_simp
    ultimately show ?thesis by blast
  qed simp
  then show ?thesis using import_paths_confined [OF b, of "''/../x''" memory_ops "''a''" sample_mem "\<lambda>_. []"] s(2,3)
    by (cases "load_module_from_vfs (\<lambda>_. []) memory_ops ''a'' sample_mem ''/../x''") simp_all
qed

text \<open>
  C27. Imports only give a tenant its own code. Whatever specifiers V8 asks for, every module that the callback returns is a
  registered builtin or was compiled from the tenant's own file under the path to which the specifier resolves, and the
  result does not depend on what other tenants do. The check for circular imports never fires: between two calls
  the stack of loading modules is always empty.
\<close>

theorem imports_are_own_code:
  assumes "mem_inv b" "ns_ok ns" "\<forall>x \<in> set xs. ns_ok (top_ns x) \<and> top_ns x \<noteq> ns"
    "l = snd (resolve_imports env memory_ops ns b sps module_loader_new)"
  shows "(\<forall>m. fst (module_resolve_callback env memory_ops ns b sp l) = Some m \<longrightarrow>
        (\<exists>i. builtin_module_id env sp = Some i \<and> v8_synthetic env i = Some m)
        \<or> (\<exists>path. resolve_import_path memory_ops ns b ''/handler.js'' sp = Inr path \<and> own_module env memory_ops ns b path m))
    \<and> module_resolve_callback env memory_ops ns (fold (tenant_step memory_ops) xs b) sp l
        = module_resolve_callback env memory_ops ns b sp l
    \<and> (\<forall>path. \<not> is_circular_import l path)"
proof -
  have inv: "loader_inv env memory_ops ns b l" unfolding assms(4) by (rule resolve_imports_inv [OF loader_new_inv])
  have "module_resolve_callback env memory_ops ns (fold (tenant_step memory_ops) xs b) sp l
      = module_resolve_callback env memory_ops ns b sp l"
    by (rule same_files_same_callback) (use tenant_reads_same [OF assms(1-3)] in blast)+
  then show ?thesis using resolve_callback_inv(2) [OF inv] inv by (auto simp: is_circular_import_def loader_inv_def)
qed

theorem imports_are_own_code_witness:
  "let b = snd (iso_write memory_ops ''app_a'' 1 sample_mem ''/a.js'' [42]);
       env = \<lparr>v8_registered = (\<lambda>_. False), v8_synthetic = (\<lambda>_. None), v8_string_ok = (\<lambda>_. True),
         v8_compile = (\<lambda>p c. Some (p, c)), v8_lossy = map (\<lambda>w. char_of (unat w))\<rparr>;
       b' = fold (tenant_step memory_ops) [TWrite ''app_b'' 2 ''/a.js'' [13]] b
   in fst (module_resolve_callback env memory_ops ''app_a'' b' ''./a.js'' module_loader_new) = Some (''/a.js'', ''*'')"
proof -
  let ?b = "snd (iso_write memory_ops ''app_a'' 1 sample_mem ''/a.js'' [42])"
  let ?env = "\<lparr>v8_registered = (\<lambda>_. False), v8_synthetic = (\<lambda>_. None), v8_string_ok = (\<lambda>_. True),
         v8_compile = (\<lambda>p c. Some (p, c)), v8_lossy = map (\<lambda>w. char_of (unat w))\<rparr> :: (string \<times> string) v8_env"
  let ?xs = "[TWrite ''app_b'' 2 ''/a.js'' [13]]"
  have i: "mem_inv ?b" by (rule mem.iso_write_invar [OF sample_mem_inv])
  have n: "ns_ok ''app_a''" by code_simp
  have x: "\<forall>x \<in> set ?xs. ns_ok (top_ns x) \<and> top_ns x \<noteq> ''app_a''" by code_simp
  have l: "module_loader_new = snd (resolve_imports ?env memory_ops ''app_a'' ?b [] module_loader_new)" by simp
  have e: "module_resolve_callback ?env memory_ops ''app_a'' (fold (tenant_step memory_ops) ?xs ?b) ''./a.js'' module_loader_new
      = module_resolve_callback ?env memory_ops ''app_a'' ?b ''./a.js'' module_loader_new"
    using imports_are_own_code [OF i n x l, of "''./a.js''"] by blast
  have "fst (module_resolve_callback ?env memory_ops ''app_a'' ?b ''./a.js'' module_loader_new) = Some (''/a.js'', ''*'')"
    by code_simp
  then show ?thesis unfolding Let_def e .
qed

text \<open>
  A handler that returns an object without a status. The module path answers with status 200. The loop of the worker turns the
  missing status, which JavaScript converts to zero, into status 0, which the HTTP library does not accept, so that the
  client gets an empty response 200: body and headers of the handler are lost.
\<close>

theorem missing_status_loses_response:
  assumes "jr_is_object r" "jr_status r = Some v" "jv_nullish v" "jv_integer v = Some 0" "\<not> status_ok 0"
  shows "(\<exists>x. extract_js_response r = Inr x \<and> status x = 200)
    \<and> (\<exists>y. extract_in_worker r = Inr y \<and> status y = 0 \<and> to_axum_response status_ok name_ok value_ok y = default_axum_response)"
  using assms
  by (auto simp: extract_js_response_def extract_in_worker_def status_of_def Let_def response_new_def with_status_def
      fold_with_header with_body_def to_axum_response_def split: option.splits)

theorem missing_status_loses_response_witness:
  "let v = \<lparr>jv_nullish = True, jv_function = False, jv_integer = Some 0, jv_text = Some ''undefined''\<rparr>;
       r = \<lparr>jr_is_object = True, jr_status = Some v, jr_headers = None,
         jr_body = Some \<lparr>jv_nullish = False, jv_function = False, jv_integer = None, jv_text = Some ''x''\<rparr>\<rparr>
   in \<exists>y. extract_in_worker r = Inr y \<and> resp_body y = Some [120]
        \<and> ax_body (to_axum_response (\<lambda>s. 100 \<le> s \<and> s < 1000) (\<lambda>_. True) (\<lambda>_. True) y) = []"
proof -
  let ?v = "\<lparr>jv_nullish = True, jv_function = False, jv_integer = Some 0, jv_text = Some ''undefined''\<rparr>"
  let ?r = "\<lparr>jr_is_object = True, jr_status = Some ?v, jr_headers = None,
     jr_body = Some \<lparr>jv_nullish = False, jv_function = False, jv_integer = None, jv_text = Some ''x''\<rparr>\<rparr>"
  have "\<exists>y. extract_in_worker ?r = Inr y \<and> to_axum_response (\<lambda>s. 100 \<le> s \<and> s < 1000) (\<lambda>_. True) (\<lambda>_. True) y = default_axum_response"
    using missing_status_loses_response [of ?r ?v "\<lambda>s. 100 \<le> s \<and> s < 1000" "\<lambda>_. True" "\<lambda>_. True"] by auto
  moreover have "extract_in_worker ?r = Inr y \<Longrightarrow> resp_body y = Some [120]" for y
    by (auto simp: extract_in_worker_def header_properties_def with_body_def string_bytes_def)
  ultimately show ?thesis by (auto simp: Let_def default_axum_response_def)
qed

end
