(* ===== verification/Vfs_Bindings.thy ===== *)
theory Vfs_Bindings
  imports Http_Types Vfs_Isolate "HOL-Library.List_Lexorder" "HOL-Library.Char_ord"
begin

text \<open>
  The file systems that JavaScript sees: \<^verbatim>\<open>Nano.fs\<close> (\<^verbatim>\<open>src/src/runtime/vfs_bindings.rs\<close>), the older \<^verbatim>\<open>fs\<close> polyfill
  (\<^verbatim>\<open>src/src/runtime/fs_polyfill.rs\<close>) and the hooks of \<^verbatim>\<open>node:fs\<close> (\<^verbatim>\<open>src/src/runtime/node_compat/hooks_fs.rs\<close>, with the
  conversions of \<^verbatim>\<open>helpers.rs\<close>), over the tenant's view of any backend. A thread keeps the current view in two thread-local
  variables. The decoding of bytes as UTF-8 is a parameter. A result \<open>None\<close> is a panic of the backend's listing.
\<close>

section \<open>Definitions\<close>

subsection \<open>Arguments and results of a callback\<close>

text \<open>
  A JavaScript value as the callbacks look at it. Next to its own contents a value carries the result of its conversion to
  a string, \<open>None\<close> when that throws, which a script can redefine; any other value also its truth and the string of its
  property \<^verbatim>\<open>encoding\<close>.
\<close>

datatype fs_value =
    JText string
  | JUint8 bytes "string option"
  | JView bytes "string option"
  | JBuffer bytes "string option"
  | JFunction "string option"
  | JOther "string option" bool "string option"

fun to_text :: "fs_value \<Rightarrow> string option" where
  "to_text (JText s) = Some s"
| "to_text (JUint8 bs t) = t"
| "to_text (JView bs t) = t"
| "to_text (JBuffer bs t) = t"
| "to_text (JFunction t) = t"
| "to_text (JOther t b e) = t"

text \<open>What the built-in conversion of a \<^verbatim>\<open>Uint8Array\<close> gives: its elements in decimal, separated by commas.\<close>

definition array_text :: "bytes \<Rightarrow> string" where
  "array_text bs = join_with '','' (map (\<lambda>w. show_nat (unat w)) bs)"

record js_error =
  je_type_error :: bool
  je_message :: string
  je_code :: "string option"
  je_path :: "string option"
  je_syscall :: "string option"
  je_errno :: "int option"

datatype js_ret =
    JUndefined
  | JNull
  | JBool bool
  | JString string
  | JArray8 bytes
  | JStrings "string list"
  | JStat nat nat nat bool
  | JPromise js_ret
  | JError js_error

text \<open>A callback returns, throws, or calls a function that it was given and returns undefined.\<close>

datatype fs_outcome = FsReturn js_ret | FsThrow js_error | FsCallback "js_ret list"

definition arg_at :: "fs_value list \<Rightarrow> nat \<Rightarrow> fs_value option" where
  "arg_at args i = (if length args \<le> i then None else Some (args ! i))"

definition extract_string_arg :: "fs_value list \<Rightarrow> nat \<Rightarrow> string option" where
  "extract_string_arg args i = (case arg_at args i of None \<Rightarrow> None | Some v \<Rightarrow> to_text v)"

definition plain_error :: "bool \<Rightarrow> string \<Rightarrow> js_error" where
  "plain_error t m = \<lparr>je_type_error = t, je_message = m, je_code = None, je_path = None, je_syscall = None, je_errno = None\<rparr>"

definition type_error :: "string \<Rightarrow> fs_outcome" where
  "type_error m = FsThrow (plain_error True m)"

definition vfs_error_object :: "vfs_error \<Rightarrow> js_error" where
  "vfs_error_object e = \<lparr>je_type_error = False, je_message = show_vfs_error e, je_code = Some (error_code e),
     je_path = error_path e, je_syscall = None, je_errno = None\<rparr>"

subsection \<open>The current view of a thread\<close>

text \<open>Both modules have their own variable; a view is the namespace of the tenant.\<close>

record fs_thread =
  nano_vfs :: "string option"
  poly_vfs :: "string option"

definition fs_thread_new :: fs_thread where
  "fs_thread_new = \<lparr>nano_vfs = None, poly_vfs = None\<rparr>"

definition set_current_vfs :: "string option \<Rightarrow> fs_thread \<Rightarrow> fs_thread" where
  "set_current_vfs v t = t\<lparr>nano_vfs := v\<rparr>"

definition poly_set_current_vfs :: "string option \<Rightarrow> fs_thread \<Rightarrow> fs_thread" where
  "poly_set_current_vfs v t = t\<lparr>poly_vfs := v\<rparr>"

definition on_vfs :: "string \<Rightarrow> string option \<Rightarrow> 'b \<Rightarrow> (string \<Rightarrow> 'a vfs_result \<times> 'b) \<Rightarrow> 'a vfs_result \<times> 'b" where
  "on_vfs missing cur b f = (case cur of Some ns \<Rightarrow> f ns | None \<Rightarrow> (Inl (IoError missing), b))"

definition no_vfs_nano :: string where
  "no_vfs_nano = ''No VFS available for this isolate''"

definition no_vfs_poly :: string where
  "no_vfs_poly = ''No VFS available''"

definition no_vfs_node :: string where
  "no_vfs_node = ''No VFS available in this context''"

subsection \<open>Nano.fs\<close>

text \<open>The contents to write: the conversion to a string comes first.\<close>

definition nano_bytes_arg :: "fs_value list \<Rightarrow> nat \<Rightarrow> bytes option" where
  "nano_bytes_arg args i = (case arg_at args i of
       None \<Rightarrow> None
     | Some v \<Rightarrow> (case to_text v of
           Some s \<Rightarrow> Some (string_bytes s)
         | None \<Rightarrow> (case v of JUint8 bs _ \<Rightarrow> Some bs | JBuffer bs _ \<Rightarrow> Some bs | _ \<Rightarrow> None)))"

definition utf8_requested :: "fs_value list \<Rightarrow> bool" where
  "utf8_requested args = (case extract_string_arg args 1 of
       Some e \<Rightarrow> e = ''utf8'' \<or> e = ''utf-8'' | None \<Rightarrow> False)"

text \<open>\<open>resolve\<close> is the script's \<^verbatim>\<open>Promise.resolve\<close>, \<open>None\<close> when it is not there or throws.\<close>

definition as_promise :: "(js_ret \<Rightarrow> js_ret option) \<Rightarrow> js_ret \<Rightarrow> fs_outcome" where
  "as_promise resolve r = FsReturn (case resolve r of Some p \<Rightarrow> p | None \<Rightarrow> r)"

definition nano_fs_read_file_sync ::
  "(bytes \<Rightarrow> string) \<Rightarrow> 'b vfs_backend \<Rightarrow> string option \<Rightarrow> 'b \<Rightarrow> fs_value list \<Rightarrow> fs_outcome \<times> 'b" where
  "nano_fs_read_file_sync lossy ops cur b args = (case extract_string_arg args 0 of
       None \<Rightarrow> (type_error ''readFileSync requires a path argument'', b)
     | Some path \<Rightarrow>
         (case fst (on_vfs no_vfs_nano cur b (\<lambda>ns. (iso_read ops ns b path, b))) of
            Inl e \<Rightarrow> (FsThrow (vfs_error_object e), b)
          | Inr c \<Rightarrow> (FsReturn (if utf8_requested args then JString (lossy c) else JArray8 c), b)))"

definition nano_fs_write_file_sync ::
  "'b vfs_backend \<Rightarrow> string option \<Rightarrow> nat \<Rightarrow> 'b \<Rightarrow> fs_value list \<Rightarrow> fs_outcome \<times> 'b" where
  "nano_fs_write_file_sync ops cur now b args = (case extract_string_arg args 0 of
       None \<Rightarrow> (type_error ''writeFileSync requires a path argument'', b)
     | Some path \<Rightarrow> (case nano_bytes_arg args 1 of
           None \<Rightarrow> (type_error ''writeFileSync requires data argument'', b)
         | Some bs \<Rightarrow> (case on_vfs no_vfs_nano cur b (\<lambda>ns. iso_write ops ns now b path bs) of
               (Inl e, b') \<Rightarrow> (FsThrow (vfs_error_object e), b')
             | (Inr _, b') \<Rightarrow> (FsReturn JUndefined, b'))))"

definition nano_fs_exists_sync ::
  "'b vfs_backend \<Rightarrow> string option \<Rightarrow> 'b \<Rightarrow> fs_value list \<Rightarrow> fs_outcome \<times> 'b" where
  "nano_fs_exists_sync ops cur b args = (case extract_string_arg args 0 of
       None \<Rightarrow> (type_error ''existsSync requires a path argument'', b)
     | Some path \<Rightarrow> (case fst (on_vfs no_vfs_nano cur b (\<lambda>ns. (iso_exists ops ns b path, b))) of
           Inl e \<Rightarrow> (FsThrow (vfs_error_object e), b)
         | Inr x \<Rightarrow> (FsReturn (JBool x), b)))"

definition nano_fs_delete_sync ::
  "'b vfs_backend \<Rightarrow> string option \<Rightarrow> 'b \<Rightarrow> fs_value list \<Rightarrow> fs_outcome \<times> 'b" where
  "nano_fs_delete_sync ops cur b args = (case extract_string_arg args 0 of
       None \<Rightarrow> (type_error ''deleteSync requires a path argument'', b)
     | Some path \<Rightarrow> (case on_vfs no_vfs_nano cur b (\<lambda>ns. iso_delete ops ns b path) of
           (Inl e, b') \<Rightarrow> (FsThrow (vfs_error_object e), b')
         | (Inr _, b') \<Rightarrow> (FsReturn JUndefined, b')))"

definition nano_fs_read_file ::
  "(bytes \<Rightarrow> string) \<Rightarrow> (js_ret \<Rightarrow> js_ret option) \<Rightarrow> 'b vfs_backend \<Rightarrow> string option \<Rightarrow> 'b \<Rightarrow> fs_value list \<Rightarrow> fs_outcome \<times> 'b" where
  "nano_fs_read_file lossy resolve ops cur b args = (case extract_string_arg args 0 of
       None \<Rightarrow> (type_error ''readFile requires a path argument'', b)
     | Some path \<Rightarrow>
         (case fst (on_vfs no_vfs_nano cur b (\<lambda>ns. (iso_read ops ns b path, b))) of
            Inl e \<Rightarrow> (FsThrow (vfs_error_object e), b)
          | Inr c \<Rightarrow> (as_promise resolve (if utf8_requested args then JString (lossy c) else JArray8 c), b)))"

definition nano_fs_write_file ::
  "(js_ret \<Rightarrow> js_ret option) \<Rightarrow> 'b vfs_backend \<Rightarrow> string option \<Rightarrow> nat \<Rightarrow> 'b \<Rightarrow> fs_value list \<Rightarrow> fs_outcome \<times> 'b" where
  "nano_fs_write_file resolve ops cur now b args = (case extract_string_arg args 0 of
       None \<Rightarrow> (type_error ''writeFile requires a path argument'', b)
     | Some path \<Rightarrow> (case nano_bytes_arg args 1 of
           None \<Rightarrow> (type_error ''writeFile requires data argument'', b)
         | Some bs \<Rightarrow> (case on_vfs no_vfs_nano cur b (\<lambda>ns. iso_write ops ns now b path bs) of
               (Inl e, b') \<Rightarrow> (FsThrow (vfs_error_object e), b')
             | (Inr _, b') \<Rightarrow> (as_promise resolve JUndefined, b'))))"

text \<open>\<^verbatim>\<open>bind_nano_fs\<close>: the methods by name.\<close>

definition nano_fs_call ::
  "(bytes \<Rightarrow> string) \<Rightarrow> (js_ret \<Rightarrow> js_ret option) \<Rightarrow> 'b vfs_backend \<Rightarrow> string option \<Rightarrow> nat \<Rightarrow> 'b
    \<Rightarrow> string \<Rightarrow> fs_value list \<Rightarrow> (fs_outcome \<times> 'b) option" where
  "nano_fs_call lossy resolve ops cur now b name args =
     (if name = ''readFileSync'' then Some (nano_fs_read_file_sync lossy ops cur b args)
      else if name = ''readFile'' then Some (nano_fs_read_file lossy resolve ops cur b args)
      else if name = ''writeFileSync'' then Some (nano_fs_write_file_sync ops cur now b args)
      else if name = ''writeFile'' then Some (nano_fs_write_file resolve ops cur now b args)
      else if name = ''existsSync'' then Some (nano_fs_exists_sync ops cur b args)
      else if name = ''deleteSync'' then Some (nano_fs_delete_sync ops cur b args)
      else None)"

subsection \<open>The polyfill\<close>

text \<open>Here arrays and buffers are tried before the conversion to a string.\<close>

definition poly_bytes_arg :: "fs_value list \<Rightarrow> nat \<Rightarrow> bytes option" where
  "poly_bytes_arg args i = (case arg_at args i of
       None \<Rightarrow> None
     | Some (JUint8 bs _) \<Rightarrow> Some bs
     | Some (JBuffer bs _) \<Rightarrow> Some bs
     | Some v \<Rightarrow> map_option string_bytes (to_text v))"

definition poly_encoding :: "fs_value list \<Rightarrow> string option" where
  "poly_encoding args = (case extract_string_arg args 1 of
       Some e \<Rightarrow> Some e
     | None \<Rightarrow> (case arg_at args 1 of Some (JOther _ _ enc) \<Rightarrow> enc | _ \<Rightarrow> None))"

definition is_function_arg :: "fs_value list \<Rightarrow> nat \<Rightarrow> bool" where
  "is_function_arg args i = (case arg_at args i of Some (JFunction _) \<Rightarrow> True | _ \<Rightarrow> False)"

text \<open>The outcome of the asynchronous methods: without a function nothing is reported.\<close>

definition call_back :: "bool \<Rightarrow> js_ret list \<Rightarrow> fs_outcome" where
  "call_back has_callback rs = (if has_callback then FsCallback rs else FsReturn JUndefined)"

definition poly_read_file_sync ::
  "(bytes \<Rightarrow> string) \<Rightarrow> 'b vfs_backend \<Rightarrow> string option \<Rightarrow> 'b \<Rightarrow> fs_value list \<Rightarrow> fs_outcome \<times> 'b" where
  "poly_read_file_sync lossy ops cur b args = (case extract_string_arg args 0 of
       None \<Rightarrow> (type_error ''readFileSync requires a path argument'', b)
     | Some path \<Rightarrow>
         (case fst (on_vfs no_vfs_poly cur b (\<lambda>ns. (iso_read ops ns b path, b))) of
            Inl e \<Rightarrow> (FsThrow (vfs_error_object e), b)
          | Inr c \<Rightarrow> (FsReturn (if poly_encoding args \<noteq> None then JString (lossy c) else JArray8 c), b)))"

definition poly_write_file_sync ::
  "'b vfs_backend \<Rightarrow> string option \<Rightarrow> nat \<Rightarrow> 'b \<Rightarrow> fs_value list \<Rightarrow> fs_outcome \<times> 'b" where
  "poly_write_file_sync ops cur now b args = (case extract_string_arg args 0 of
       None \<Rightarrow> (type_error ''writeFileSync requires a path argument'', b)
     | Some path \<Rightarrow> (case poly_bytes_arg args 1 of
           None \<Rightarrow> (type_error ''writeFileSync requires data argument'', b)
         | Some bs \<Rightarrow> (case on_vfs no_vfs_poly cur b (\<lambda>ns. iso_write ops ns now b path bs) of
               (Inl e, b') \<Rightarrow> (FsThrow (vfs_error_object e), b')
             | (Inr _, b') \<Rightarrow> (FsReturn JUndefined, b'))))"

definition poly_exists :: "'b vfs_backend \<Rightarrow> string option \<Rightarrow> 'b \<Rightarrow> string \<Rightarrow> bool" where
  "poly_exists ops cur b path = (case cur of None \<Rightarrow> False | Some ns \<Rightarrow> iso_exists ops ns b path = Inr True)"

definition poly_exists_sync :: "'b vfs_backend \<Rightarrow> string option \<Rightarrow> 'b \<Rightarrow> fs_value list \<Rightarrow> fs_outcome \<times> 'b" where
  "poly_exists_sync ops cur b args = (case extract_string_arg args 0 of
       None \<Rightarrow> (FsReturn (JBool False), b)
     | Some path \<Rightarrow> (FsReturn (JBool (poly_exists ops cur b path)), b))"

definition poly_unlink_sync :: "'b vfs_backend \<Rightarrow> string option \<Rightarrow> 'b \<Rightarrow> fs_value list \<Rightarrow> fs_outcome \<times> 'b" where
  "poly_unlink_sync ops cur b args = (case extract_string_arg args 0 of
       None \<Rightarrow> (type_error ''unlinkSync requires a path argument'', b)
     | Some path \<Rightarrow> (case on_vfs no_vfs_poly cur b (\<lambda>ns. iso_delete ops ns b path) of
           (Inl e, b') \<Rightarrow> (FsThrow (vfs_error_object e), b')
         | (Inr _, b') \<Rightarrow> (FsReturn JUndefined, b')))"

definition poly_read_file :: "'b vfs_backend \<Rightarrow> string option \<Rightarrow> 'b \<Rightarrow> fs_value list \<Rightarrow> fs_outcome \<times> 'b" where
  "poly_read_file ops cur b args = (case extract_string_arg args 0 of
       None \<Rightarrow> (type_error ''readFile requires a path argument'', b)
     | Some path \<Rightarrow>
         (let callback = (length args \<ge> 2 \<and> is_function_arg args (length args - 1)) in
          (call_back callback
             (case fst (on_vfs no_vfs_poly cur b (\<lambda>ns. (iso_read ops ns b path, b))) of
                Inr c \<Rightarrow> [JNull, JArray8 c]
              | Inl e \<Rightarrow> [JError (vfs_error_object e), JUndefined]), b)))"

definition poly_write_file :: "'b vfs_backend \<Rightarrow> string option \<Rightarrow> nat \<Rightarrow> 'b \<Rightarrow> fs_value list \<Rightarrow> fs_outcome \<times> 'b" where
  "poly_write_file ops cur now b args = (case extract_string_arg args 0 of
       None \<Rightarrow> (type_error ''writeFile requires a path argument'', b)
     | Some path \<Rightarrow> (case poly_bytes_arg args 1 of
           None \<Rightarrow> (type_error ''writeFile requires data argument'', b)
         | Some bs \<Rightarrow>
             (let callback = (length args \<ge> 3 \<and> is_function_arg args (length args - 1));
                  (result, b') = on_vfs no_vfs_poly cur b (\<lambda>ns. iso_write ops ns now b path bs)
              in (call_back callback (case result of
                     Inr _ \<Rightarrow> [JNull] | Inl e \<Rightarrow> [JError (vfs_error_object e)]), b'))))"

definition poly_exists_async :: "'b vfs_backend \<Rightarrow> string option \<Rightarrow> 'b \<Rightarrow> fs_value list \<Rightarrow> fs_outcome \<times> 'b" where
  "poly_exists_async ops cur b args = (case extract_string_arg args 0 of
       None \<Rightarrow> (FsReturn (JBool False), b)
     | Some path \<Rightarrow> (call_back (is_function_arg args 1) [JBool (poly_exists ops cur b path)], b))"

definition poly_unlink :: "'b vfs_backend \<Rightarrow> string option \<Rightarrow> 'b \<Rightarrow> fs_value list \<Rightarrow> fs_outcome \<times> 'b" where
  "poly_unlink ops cur b args = (case extract_string_arg args 0 of
       None \<Rightarrow> (type_error ''unlink requires a path argument'', b)
     | Some path \<Rightarrow>
         (let (result, b') = on_vfs no_vfs_poly cur b (\<lambda>ns. iso_delete ops ns b path)
          in (call_back (is_function_arg args 1) (case result of
                 Inr _ \<Rightarrow> [JNull] | Inl e \<Rightarrow> [JError (vfs_error_object e)]), b')))"

text \<open>\<^verbatim>\<open>bind_fs_polyfill\<close>: the methods by name.\<close>

definition poly_fs_call ::
  "(bytes \<Rightarrow> string) \<Rightarrow> 'b vfs_backend \<Rightarrow> string option \<Rightarrow> nat \<Rightarrow> 'b \<Rightarrow> string \<Rightarrow> fs_value list \<Rightarrow> (fs_outcome \<times> 'b) option" where
  "poly_fs_call lossy ops cur now b name args =
     (if name = ''readFileSync'' then Some (poly_read_file_sync lossy ops cur b args)
      else if name = ''writeFileSync'' then Some (poly_write_file_sync ops cur now b args)
      else if name = ''existsSync'' then Some (poly_exists_sync ops cur b args)
      else if name = ''unlinkSync'' \<or> name = ''deleteSync'' then Some (poly_unlink_sync ops cur b args)
      else if name = ''readFile'' then Some (poly_read_file ops cur b args)
      else if name = ''writeFile'' then Some (poly_write_file ops cur now b args)
      else if name = ''exists'' then Some (poly_exists_async ops cur b args)
      else if name = ''unlink'' then Some (poly_unlink ops cur b args)
      else None)"

text \<open>The \<^verbatim>\<open>require\<close> of the polyfill: the module object or an exception. \<open>fs_module\<close> is the global's \<^verbatim>\<open>_nano_fs\<close>.\<close>

definition require_callback :: "'m option \<Rightarrow> fs_value list \<Rightarrow> 'm + js_error" where
  "require_callback fs_module args =
     (if args = [] then Inr (plain_error True ''require() requires a module name'')
      else let module_name = (case to_text (args ! 0) of Some s \<Rightarrow> s | None \<Rightarrow> [])
           in if module_name = ''fs''
              then (case fs_module of Some m \<Rightarrow> Inl m | None \<Rightarrow> Inr (plain_error False ''fs module not available''))
              else Inr (plain_error False (''Module '' @ [CHR 0x27] @ module_name @ [CHR 0x27] @ '' not found'')))"

subsection \<open>The hooks of node:fs\<close>

definition DIR_MARKER :: string where
  "DIR_MARKER = ''.__nano_dir__''"

definition str_arg :: "fs_value list \<Rightarrow> nat \<Rightarrow> string option" where
  "str_arg args i = (case arg_at args i of Some (JText s) \<Rightarrow> Some s | _ \<Rightarrow> None)"

definition bytes_arg :: "fs_value list \<Rightarrow> nat \<Rightarrow> bytes option" where
  "bytes_arg args i = (case arg_at args i of
       Some (JUint8 bs _) \<Rightarrow> Some bs
     | Some (JView bs _) \<Rightarrow> Some bs
     | Some (JBuffer bs _) \<Rightarrow> Some bs
     | _ \<Rightarrow> None)"

definition bool_arg :: "fs_value list \<Rightarrow> nat \<Rightarrow> bool" where
  "bool_arg args i = (case arg_at args i of
       None \<Rightarrow> False
     | Some (JText s) \<Rightarrow> s \<noteq> []
     | Some (JOther _ t _) \<Rightarrow> t
     | Some _ \<Rightarrow> True)"

fun node_components :: "string list \<Rightarrow> string list \<Rightarrow> string list" where
  "node_components out [] = out"
| "node_components out (seg # segs) =
     (if seg = [] \<or> seg = ''.'' then node_components out segs
      else if seg = ''..'' then node_components (butlast out) segs
      else node_components (out @ [seg]) segs)"

definition node_normalize :: "string \<Rightarrow> string" where
  "node_normalize path = ''/'' @ join_with ''/'' (node_components [] (split_on (CHR ''/'') path))"

definition errno_for_code :: "string \<Rightarrow> int option" where
  "errno_for_code code = map_of
     [(''EPERM'', -1), (''ENOENT'', -2), (''EIO'', -5), (''EACCES'', -13), (''EEXIST'', -17), (''ENOTDIR'', -20),
      (''EISDIR'', -21), (''EINVAL'', -22), (''ENOSPC'', -28), (''ENOSYS'', -38), (''ENOTEMPTY'', -39), (''ENOTFOUND'', -3008)] code"

definition throw_coded_full :: "string \<Rightarrow> string \<Rightarrow> string option \<Rightarrow> string option \<Rightarrow> fs_outcome" where
  "throw_coded_full code message syscall path = FsThrow \<lparr>je_type_error = False, je_message = message, je_code = Some code,
     je_path = path, je_syscall = syscall, je_errno = errno_for_code code\<rparr>"

definition throw_uv :: "string \<Rightarrow> string \<Rightarrow> string \<Rightarrow> fs_outcome" where
  "throw_uv code syscall path =
     throw_coded_full code (code @ '': '' @ syscall @ '' '' @ [CHR 0x27] @ path @ [CHR 0x27]) (Some syscall) (Some path)"

definition node_code :: "vfs_error \<Rightarrow> string" where
  "node_code err = (case err of
       NotFound _ \<Rightarrow> ''ENOENT''
     | AlreadyExists _ \<Rightarrow> ''EEXIST''
     | InvalidPath _ _ \<Rightarrow> ''EINVAL''
     | PermissionDenied _ \<Rightarrow> ''EACCES''
     | QuotaExceeded _ _ _ \<Rightarrow> ''ENOSPC''
     | _ \<Rightarrow> ''EIO'')"

definition throw_node :: "vfs_error \<Rightarrow> string \<Rightarrow> string \<Rightarrow> fs_outcome" where
  "throw_node err syscall path = throw_uv (node_code err) syscall path"

definition throw_bad_args :: "string \<Rightarrow> fs_outcome" where
  "throw_bad_args hook = throw_coded_full ''ERR_INVALID_ARG_TYPE''
     (''__nano_node_host.'' @ hook @ '': invalid argument types'') None None"

text \<open>A hook with its view, or the error when the thread has none.\<close>

definition with_vfs ::
  "string option \<Rightarrow> string \<Rightarrow> string \<Rightarrow> 'b \<Rightarrow> (string \<Rightarrow> (fs_outcome \<times> 'b) option) \<Rightarrow> (fs_outcome \<times> 'b) option" where
  "with_vfs cur syscall path b f = (case cur of
       Some ns \<Rightarrow> f ns | None \<Rightarrow> Some (throw_node (IoError no_vfs_node) syscall path, b))"

definition file_exists :: "'b vfs_backend \<Rightarrow> string \<Rightarrow> 'b \<Rightarrow> string \<Rightarrow> bool" where
  "file_exists ops ns b path = (iso_exists ops ns b path = Inr True)"

definition base_name :: "string \<Rightarrow> string" where
  "base_name s = last (split_on (CHR ''/'') s)"

definition node_children :: "'b vfs_backend \<Rightarrow> string \<Rightarrow> 'b \<Rightarrow> string \<Rightarrow> string list vfs_result option" where
  "node_children ops ns b path = (case iso_list_dir ops ns b path of
       None \<Rightarrow> None
     | Some (Inl e) \<Rightarrow> Some (Inl e)
     | Some (Inr entries) \<Rightarrow> Some (Inr (remdups_adj (sort
         (filter (\<lambda>name. \<not> (name = DIR_MARKER \<or> name = [])) (map (\<lambda>p. base_name (as_str p)) entries))))))"

definition marker_of :: "string \<Rightarrow> string" where
  "marker_of path = path @ ''/'' @ DIR_MARKER"

definition dir_exists :: "'b vfs_backend \<Rightarrow> string \<Rightarrow> 'b \<Rightarrow> string \<Rightarrow> bool option" where
  "dir_exists ops ns b path =
     (if path = ''/'' then Some True
      else if file_exists ops ns b (marker_of path) then Some True
      else case node_children ops ns b path of
          None \<Rightarrow> None
        | Some (Inl _) \<Rightarrow> Some False
        | Some (Inr names) \<Rightarrow> Some (names \<noteq> []))"

text \<open>The result of an operation as the outcome of a hook without a value.\<close>

definition done_or_throw :: "string \<Rightarrow> string \<Rightarrow> unit vfs_result \<times> 'b \<Rightarrow> (fs_outcome \<times> 'b) option" where
  "done_or_throw syscall path rb = Some (case fst rb of
       Inr _ \<Rightarrow> FsReturn JUndefined | Inl e \<Rightarrow> throw_node e syscall path, snd rb)"

definition node_read_file :: "'b vfs_backend \<Rightarrow> string option \<Rightarrow> 'b \<Rightarrow> fs_value list \<Rightarrow> (fs_outcome \<times> 'b) option" where
  "node_read_file ops cur b args = (case map_option node_normalize (str_arg args 0) of
       None \<Rightarrow> Some (throw_bad_args ''fsReadFile'', b)
     | Some path \<Rightarrow> with_vfs cur ''open'' path b (\<lambda>ns. Some (case iso_read ops ns b path of
           Inr bs \<Rightarrow> FsReturn (JArray8 bs) | Inl e \<Rightarrow> throw_node e ''open'' path, b)))"

definition node_write_file :: "'b vfs_backend \<Rightarrow> string option \<Rightarrow> nat \<Rightarrow> 'b \<Rightarrow> fs_value list \<Rightarrow> (fs_outcome \<times> 'b) option" where
  "node_write_file ops cur now b args = (case (map_option node_normalize (str_arg args 0), bytes_arg args 1) of
       (Some path, Some c) \<Rightarrow> with_vfs cur ''open'' path b (\<lambda>ns. case dir_exists ops ns b path of
           None \<Rightarrow> None
         | Some True \<Rightarrow> Some (throw_uv ''EISDIR'' ''open'' path, b)
         | Some False \<Rightarrow> done_or_throw ''open'' path (iso_write ops ns now b path c))
     | _ \<Rightarrow> Some (throw_bad_args ''fsWriteFile'', b))"

definition node_exists :: "'b vfs_backend \<Rightarrow> string option \<Rightarrow> 'b \<Rightarrow> fs_value list \<Rightarrow> (fs_outcome \<times> 'b) option" where
  "node_exists ops cur b args = (case map_option node_normalize (str_arg args 0) of
       None \<Rightarrow> Some (throw_bad_args ''fsExists'', b)
     | Some path \<Rightarrow> (case cur of
           None \<Rightarrow> Some (FsReturn (JBool False), b)
         | Some ns \<Rightarrow> if file_exists ops ns b path then Some (FsReturn (JBool True), b)
             else map_option (\<lambda>d. (FsReturn (JBool d), b)) (dir_exists ops ns b path)))"

definition node_unlink :: "'b vfs_backend \<Rightarrow> string option \<Rightarrow> 'b \<Rightarrow> fs_value list \<Rightarrow> (fs_outcome \<times> 'b) option" where
  "node_unlink ops cur b args = (case map_option node_normalize (str_arg args 0) of
       None \<Rightarrow> Some (throw_bad_args ''fsUnlink'', b)
     | Some path \<Rightarrow> with_vfs cur ''unlink'' path b (\<lambda>ns.
         if file_exists ops ns b path then done_or_throw ''unlink'' path (iso_delete ops ns b path)
         else (case dir_exists ops ns b path of
             None \<Rightarrow> None
           | Some True \<Rightarrow> Some (throw_uv ''EISDIR'' ''unlink'' path, b)
           | Some False \<Rightarrow> Some (throw_node (NotFound path) ''unlink'' path, b))))"

definition parent_of :: "string \<Rightarrow> string" where
  "parent_of path = (case rfind_char (CHR ''/'') path of
       Some 0 \<Rightarrow> ''/'' | Some i \<Rightarrow> take i path | None \<Rightarrow> ''/'')"

definition make_dir :: "'b vfs_backend \<Rightarrow> string \<Rightarrow> nat \<Rightarrow> 'b \<Rightarrow> string \<Rightarrow> (fs_outcome \<times> 'b) option" where
  "make_dir ops ns now b path = done_or_throw ''mkdir'' path (iso_write ops ns now b (marker_of path) [])"

definition node_mkdir :: "'b vfs_backend \<Rightarrow> string option \<Rightarrow> nat \<Rightarrow> 'b \<Rightarrow> fs_value list \<Rightarrow> (fs_outcome \<times> 'b) option" where
  "node_mkdir ops cur now b args = (case map_option node_normalize (str_arg args 0) of
       None \<Rightarrow> Some (throw_bad_args ''fsMkdir'', b)
     | Some path \<Rightarrow> with_vfs cur ''mkdir'' path b (\<lambda>ns.
         if file_exists ops ns b path then Some (throw_uv ''EEXIST'' ''mkdir'' path, b)
         else (case dir_exists ops ns b path of
             None \<Rightarrow> None
           | Some True \<Rightarrow> Some (if bool_arg args 1 then FsReturn JUndefined else throw_uv ''EEXIST'' ''mkdir'' path, b)
           | Some False \<Rightarrow>
               if bool_arg args 1 then make_dir ops ns now b path
               else if file_exists ops ns b (parent_of path) then Some (throw_uv ''ENOTDIR'' ''mkdir'' path, b)
               else (case dir_exists ops ns b (parent_of path) of
                   None \<Rightarrow> None
                 | Some False \<Rightarrow> Some (throw_uv ''ENOENT'' ''mkdir'' path, b)
                 | Some True \<Rightarrow> make_dir ops ns now b path))))"

definition node_rmdir :: "'b vfs_backend \<Rightarrow> string option \<Rightarrow> 'b \<Rightarrow> fs_value list \<Rightarrow> (fs_outcome \<times> 'b) option" where
  "node_rmdir ops cur b args = (case map_option node_normalize (str_arg args 0) of
       None \<Rightarrow> Some (throw_bad_args ''fsRmdir'', b)
     | Some path \<Rightarrow> with_vfs cur ''rmdir'' path b (\<lambda>ns.
         if file_exists ops ns b path then Some (throw_uv ''ENOTDIR'' ''rmdir'' path, b)
         else (case dir_exists ops ns b path of
             None \<Rightarrow> None
           | Some False \<Rightarrow> Some (throw_uv ''ENOENT'' ''rmdir'' path, b)
           | Some True \<Rightarrow> (case node_children ops ns b path of
                 None \<Rightarrow> None
               | Some (Inl e) \<Rightarrow> Some (throw_node e ''rmdir'' path, b)
               | Some (Inr names) \<Rightarrow>
                   if names \<noteq> [] then Some (throw_uv ''ENOTEMPTY'' ''rmdir'' path, b)
                   else if file_exists ops ns b (marker_of path)
                   then done_or_throw ''rmdir'' path (iso_delete ops ns b (marker_of path))
                   else Some (FsReturn JUndefined, b)))))"

definition node_readdir :: "'b vfs_backend \<Rightarrow> string option \<Rightarrow> 'b \<Rightarrow> fs_value list \<Rightarrow> (fs_outcome \<times> 'b) option" where
  "node_readdir ops cur b args = (case map_option node_normalize (str_arg args 0) of
       None \<Rightarrow> Some (throw_bad_args ''fsReaddir'', b)
     | Some path \<Rightarrow> with_vfs cur ''scandir'' path b (\<lambda>ns.
         if file_exists ops ns b path then Some (throw_uv ''ENOTDIR'' ''scandir'' path, b)
         else (case dir_exists ops ns b path of
             None \<Rightarrow> None
           | Some False \<Rightarrow> Some (throw_uv ''ENOENT'' ''scandir'' path, b)
           | Some True \<Rightarrow> (case node_children ops ns b path of
                 None \<Rightarrow> None
               | Some (Inl e) \<Rightarrow> Some (throw_node e ''scandir'' path, b)
               | Some (Inr names) \<Rightarrow> Some (FsReturn (JStrings names), b)))))"

text \<open>\<open>ms\<close> is the time since the epoch in milliseconds, zero for earlier times.\<close>

definition node_stat ::
  "'b vfs_backend \<Rightarrow> (nat \<Rightarrow> nat) \<Rightarrow> string option \<Rightarrow> 'b \<Rightarrow> fs_value list \<Rightarrow> (fs_outcome \<times> 'b) option" where
  "node_stat ops ms cur b args = (case map_option node_normalize (str_arg args 0) of
       None \<Rightarrow> Some (throw_bad_args ''fsStat'', b)
     | Some path \<Rightarrow> with_vfs cur ''stat'' path b (\<lambda>ns.
         if file_exists ops ns b path
         then Some (case iso_metadata ops ns b path of
             Inr meta \<Rightarrow> FsReturn (JStat (fsize meta) (ms (modified_at meta)) (ms (created_at meta)) True)
           | Inl e \<Rightarrow> throw_node e ''stat'' path, b)
         else (case dir_exists ops ns b path of
             None \<Rightarrow> None
           | Some True \<Rightarrow> Some (FsReturn (JStat 0 0 0 False), b)
           | Some False \<Rightarrow> Some (throw_uv ''ENOENT'' ''stat'' path, b))))"

definition node_rename :: "'b vfs_backend \<Rightarrow> string option \<Rightarrow> nat \<Rightarrow> 'b \<Rightarrow> fs_value list \<Rightarrow> (fs_outcome \<times> 'b) option" where
  "node_rename ops cur now b args =
     (case (map_option node_normalize (str_arg args 0), map_option node_normalize (str_arg args 1)) of
       (Some old, Some new) \<Rightarrow> with_vfs cur ''rename'' old b (\<lambda>ns. done_or_throw ''rename'' old (case iso_read ops ns b old of
           Inl e \<Rightarrow> (Inl e, b)
         | Inr data \<Rightarrow> (case iso_write ops ns now b new data of
               (Inl e, b') \<Rightarrow> (Inl e, b')
             | (Inr _, b') \<Rightarrow> iso_delete ops ns b' old)))
     | _ \<Rightarrow> Some (throw_bad_args ''fsRename'', b))"

definition node_copy_file :: "'b vfs_backend \<Rightarrow> string option \<Rightarrow> nat \<Rightarrow> 'b \<Rightarrow> fs_value list \<Rightarrow> (fs_outcome \<times> 'b) option" where
  "node_copy_file ops cur now b args =
     (case (map_option node_normalize (str_arg args 0), map_option node_normalize (str_arg args 1)) of
       (Some old, Some new) \<Rightarrow> with_vfs cur ''copyfile'' old b (\<lambda>ns. done_or_throw ''copyfile'' old (case iso_read ops ns b old of
           Inl e \<Rightarrow> (Inl e, b)
         | Inr data \<Rightarrow> iso_write ops ns now b new data))
     | _ \<Rightarrow> Some (throw_bad_args ''fsCopyFile'', b))"

text \<open>\<^verbatim>\<open>bind\<close>: the hooks by name; the outer option is an unknown name.\<close>

definition node_fs_call ::
  "'b vfs_backend \<Rightarrow> (nat \<Rightarrow> nat) \<Rightarrow> string option \<Rightarrow> nat \<Rightarrow> 'b \<Rightarrow> string \<Rightarrow> fs_value list \<Rightarrow> (fs_outcome \<times> 'b) option option" where
  "node_fs_call ops ms cur now b name args =
     (if name = ''fsReadFile'' then Some (node_read_file ops cur b args)
      else if name = ''fsWriteFile'' then Some (node_write_file ops cur now b args)
      else if name = ''fsExists'' then Some (node_exists ops cur b args)
      else if name = ''fsUnlink'' then Some (node_unlink ops cur b args)
      else if name = ''fsMkdir'' then Some (node_mkdir ops cur now b args)
      else if name = ''fsRmdir'' then Some (node_rmdir ops cur b args)
      else if name = ''fsReaddir'' then Some (node_readdir ops cur b args)
      else if name = ''fsStat'' then Some (node_stat ops ms cur b args)
      else if name = ''fsRename'' then Some (node_rename ops cur now b args)
      else if name = ''fsCopyFile'' then Some (node_copy_file ops cur now b args)
      else None)"

subsection \<open>A thread over time\<close>

text \<open>
  What happens on a thread: the handler of a tenant starts, which sets the view of \<^verbatim>\<open>vfs_bindings\<close> only and happens only in
  \<^verbatim>\<open>src/src/runtime/handler.rs\<close>, or a script calls a method. A worker of \<^verbatim>\<open>src/src/worker/pool.rs\<close> sets no view. The
  backend is \<open>None\<close> after a panic.
\<close>

datatype fs_event =
    HandlerStarts string
  | NanoCall nat string "fs_value list"
  | PolyCall nat string "fs_value list"
  | NodeCall nat string "fs_value list"

definition fs_step ::
  "(bytes \<Rightarrow> string) \<Rightarrow> (js_ret \<Rightarrow> js_ret option) \<Rightarrow> (nat \<Rightarrow> nat) \<Rightarrow> 'b vfs_backend \<Rightarrow> fs_event
    \<Rightarrow> fs_thread \<times> 'b \<Rightarrow> fs_thread \<times> 'b" where
  "fs_step lossy resolve ms ops ev tb = (case ev of
       HandlerStarts ns \<Rightarrow> (set_current_vfs (Some ns) (fst tb), snd tb)
     | NanoCall now name args \<Rightarrow> (fst tb, case nano_fs_call lossy resolve ops (nano_vfs (fst tb)) now (snd tb) name args of
           Some (_, b) \<Rightarrow> b | None \<Rightarrow> snd tb)
     | PolyCall now name args \<Rightarrow> (fst tb, case poly_fs_call lossy ops (poly_vfs (fst tb)) now (snd tb) name args of
           Some (_, b) \<Rightarrow> b | None \<Rightarrow> snd tb)
     | NodeCall now name args \<Rightarrow> (fst tb, case node_fs_call ops ms (nano_vfs (fst tb)) now (snd tb) name args of
           Some (Some (_, b)) \<Rightarrow> b | _ \<Rightarrow> snd tb))"

section \<open>Operations stay in their tenant\<close>

text \<open>A step of a thread is a sequence of operations of the tenant whose view the thread has.\<close>

definition own_steps :: "'b vfs_backend \<Rightarrow> string option \<Rightarrow> 'b \<Rightarrow> 'b \<Rightarrow> bool" where
  "own_steps ops cur b b' = (\<exists>xs. b' = fold (tenant_step ops) xs b \<and> (\<forall>x \<in> set xs. Some (top_ns x) = cur))"

lemma own_steps_refl [simp, intro]: "own_steps ops cur b b"
  unfolding own_steps_def by (rule exI [of _ "[]"]) simp

lemma own_steps_trans: "\<lbrakk>own_steps ops cur b b'; own_steps ops cur b' b''\<rbrakk> \<Longrightarrow> own_steps ops cur b b''"
  unfolding own_steps_def
proof (elim exE conjE)
  fix xs ys
  assume "b' = fold (tenant_step ops) xs b" "\<forall>x \<in> set xs. Some (top_ns x) = cur"
    "b'' = fold (tenant_step ops) ys b'" "\<forall>x \<in> set ys. Some (top_ns x) = cur"
  then show "\<exists>zs. b'' = fold (tenant_step ops) zs b \<and> (\<forall>x \<in> set zs. Some (top_ns x) = cur)"
    by (intro exI [of _ "xs @ ys"]) auto
qed

lemma own_steps_names:
  assumes "own_steps ops cur b b'" "\<And>ns. cur = Some ns \<Longrightarrow> Q ns"
  shows "\<exists>xs. b' = fold (tenant_step ops) xs b \<and> (\<forall>x \<in> set xs. Q (top_ns x))"
proof -
  from assms(1) obtain xs where xs: "b' = fold (tenant_step ops) xs b" "\<forall>x \<in> set xs. Some (top_ns x) = cur"
    unfolding own_steps_def by blast
  then have "\<forall>x \<in> set xs. Q (top_ns x)" using assms(2) by (metis)
  with xs(1) show ?thesis by blast
qed

lemma own_steps_write: "iso_write ops ns now b path c = (r, b') \<Longrightarrow> own_steps ops (Some ns) b b'"
  unfolding own_steps_def by (rule exI [of _ "[TWrite ns now path c]"]) (simp add: tenant_step_def)

lemma own_steps_delete: "iso_delete ops ns b path = (r, b') \<Longrightarrow> own_steps ops (Some ns) b b'"
  unfolding own_steps_def by (rule exI [of _ "[TDelete ns path]"]) (simp add: tenant_step_def)

lemma own_steps_snd [simp, intro]:
  "own_steps ops (Some ns) b (snd (iso_write ops ns now b path c))"
  "own_steps ops (Some ns) b (snd (iso_delete ops ns b path))"
  by (rule own_steps_write [OF prod.collapse [symmetric]], rule own_steps_delete [OF prod.collapse [symmetric]])

lemma on_vfs_own:
  "on_vfs m cur b (\<lambda>ns. iso_write ops ns now b path c) = (r, b') \<Longrightarrow> own_steps ops cur b b'"
  "on_vfs m cur b (\<lambda>ns. iso_delete ops ns b path) = (r, b') \<Longrightarrow> own_steps ops cur b b'"
  by (auto simp: on_vfs_def dest: own_steps_write own_steps_delete split: option.splits)

lemma nano_own:
  "own_steps ops cur b (snd (nano_fs_read_file_sync lossy ops cur b args))"
  "own_steps ops cur b (snd (nano_fs_read_file lossy resolve ops cur b args))"
  "own_steps ops cur b (snd (nano_fs_exists_sync ops cur b args))"
  "own_steps ops cur b (snd (nano_fs_write_file_sync ops cur now b args))"
  "own_steps ops cur b (snd (nano_fs_write_file resolve ops cur now b args))"
  "own_steps ops cur b (snd (nano_fs_delete_sync ops cur b args))"
  by (simp_all add: nano_fs_read_file_sync_def nano_fs_read_file_def nano_fs_exists_sync_def nano_fs_write_file_sync_def
      nano_fs_write_file_def nano_fs_delete_sync_def split: option.split sum.split prod.split)
    (auto dest: on_vfs_own)

lemma poly_own:
  "own_steps ops cur b (snd (poly_read_file_sync lossy ops cur b args))"
  "own_steps ops cur b (snd (poly_read_file ops cur b args))"
  "own_steps ops cur b (snd (poly_exists_sync ops cur b args))"
  "own_steps ops cur b (snd (poly_exists_async ops cur b args))"
  "own_steps ops cur b (snd (poly_write_file_sync ops cur now b args))"
  "own_steps ops cur b (snd (poly_write_file ops cur now b args))"
  "own_steps ops cur b (snd (poly_unlink_sync ops cur b args))"
  "own_steps ops cur b (snd (poly_unlink ops cur b args))"
  by (simp_all add: poly_read_file_sync_def poly_read_file_def poly_exists_sync_def poly_exists_async_def Let_def
      poly_write_file_sync_def poly_write_file_def poly_unlink_sync_def poly_unlink_def split: option.split sum.split prod.split)
    (auto dest: on_vfs_own)

lemma own_resultI: "\<lbrakk>own_steps ops cur b (snd x); x = rb\<rbrakk> \<Longrightarrow> own_steps ops cur b (snd rb)"
  by simp

lemma if_Some_iff: "(if c then Some x else y) = Some r \<longleftrightarrow> c \<and> x = r \<or> \<not> c \<and> y = Some r"
  by simp

lemma nano_call_own:
  assumes "nano_fs_call lossy resolve ops cur now b name args = Some rb"
  shows "own_steps ops cur b (snd rb)"
  using assms unfolding nano_fs_call_def if_Some_iff
  by (elim disjE conjE) (erule nano_own [THEN own_resultI] | simp only: option.distinct)+

lemma poly_call_own:
  assumes "poly_fs_call lossy ops cur now b name args = Some rb"
  shows "own_steps ops cur b (snd rb)"
  using assms unfolding poly_fs_call_def if_Some_iff
  by (elim disjE conjE) (erule poly_own [THEN own_resultI] | simp only: option.distinct)+

lemma done_or_throw_own: "done_or_throw s p rb' = Some rb \<Longrightarrow> snd rb = snd rb'"
  by (auto simp: done_or_throw_def)

lemma node_reads_own:
  "node_read_file ops cur b args = Some rb \<Longrightarrow> own_steps ops cur b (snd rb)"
  "node_exists ops cur b args = Some rb \<Longrightarrow> own_steps ops cur b (snd rb)"
  "node_readdir ops cur b args = Some rb \<Longrightarrow> own_steps ops cur b (snd rb)"
  "node_stat ops ms cur b args = Some rb \<Longrightarrow> own_steps ops cur b (snd rb)"
  by (auto simp: node_read_file_def node_exists_def node_readdir_def node_stat_def with_vfs_def
      split: if_splits option.splits sum.splits prod.splits bool.splits)

lemma node_writes_own:
  "node_write_file ops cur now b args = Some rb \<Longrightarrow> own_steps ops cur b (snd rb)"
  "node_unlink ops cur b args = Some rb \<Longrightarrow> own_steps ops cur b (snd rb)"
  "node_mkdir ops cur now b args = Some rb \<Longrightarrow> own_steps ops cur b (snd rb)"
  "node_rmdir ops cur b args = Some rb \<Longrightarrow> own_steps ops cur b (snd rb)"
  by (auto simp: node_write_file_def node_unlink_def node_mkdir_def node_rmdir_def with_vfs_def make_dir_def
      dest!: done_or_throw_own split: if_splits option.splits sum.splits prod.splits bool.splits)

lemma node_moves_own:
  "node_rename ops cur now b args = Some rb \<Longrightarrow> own_steps ops cur b (snd rb)"
  "node_copy_file ops cur now b args = Some rb \<Longrightarrow> own_steps ops cur b (snd rb)"
  by (auto simp: node_rename_def node_copy_file_def with_vfs_def
      dest!: done_or_throw_own dest: own_steps_write intro: own_steps_trans
      split: option.splits sum.splits prod.splits)

lemma node_call_own:
  assumes "node_fs_call ops ms cur now b name args = Some (Some rb)"
  shows "own_steps ops cur b (snd rb)"
  using assms unfolding node_fs_call_def if_Some_iff
  by (elim disjE conjE) (erule node_reads_own node_writes_own node_moves_own | simp only: option.distinct)+

lemma fs_step_own:
  "own_steps ops (nano_vfs (fst tb)) (snd tb) (snd (fs_step lossy resolve ms ops ev tb))
   \<or> own_steps ops (poly_vfs (fst tb)) (snd tb) (snd (fs_step lossy resolve ms ops ev tb))"
proof (cases ev)
  case (NanoCall now name args)
  then show ?thesis using nano_call_own [of lossy resolve ops "nano_vfs (fst tb)" now "snd tb" name args]
    by (auto simp: fs_step_def split: option.split prod.split)
next
  case (PolyCall now name args)
  then show ?thesis using poly_call_own [of lossy ops "poly_vfs (fst tb)" now "snd tb" name args]
    by (auto simp: fs_step_def split: option.split prod.split)
next
  case (NodeCall now name args)
  then show ?thesis using node_call_own [of ops ms "nano_vfs (fst tb)" now "snd tb" name args]
    by (auto simp: fs_step_def split: option.split prod.split)
qed (simp add: fs_step_def)

lemma fs_step_thread:
  "fst (fs_step lossy resolve ms ops ev tb)
     = (case ev of HandlerStarts ns \<Rightarrow> set_current_vfs (Some ns) (fst tb) | _ \<Rightarrow> fst tb)"
  by (simp add: fs_step_def split: fs_event.split)

lemma fs_run_thread:
  "poly_vfs (fst (fold (fs_step lossy resolve ms ops) evs tb)) = poly_vfs (fst tb)"
  by (induction evs arbitrary: tb) (auto simp: fs_step_thread set_current_vfs_def split: fs_event.split)

lemma fs_run_own:
  assumes "\<forall>ns. HandlerStarts ns \<in> set evs \<longrightarrow> Q ns" "\<forall>ns. nano_vfs (fst tb) = Some ns \<longrightarrow> Q ns" "poly_vfs (fst tb) = None"
  shows "\<exists>xs. snd (fold (fs_step lossy resolve ms ops) evs tb) = fold (tenant_step ops) xs (snd tb) \<and> (\<forall>x \<in> set xs. Q (top_ns x))"
  using assms
proof (induction evs arbitrary: tb)
  case Nil
  show ?case by (rule exI [of _ "[]"]) simp
next
  case (Cons ev evs)
  let ?tb = "fs_step lossy resolve ms ops ev tb"
  have "\<exists>xs. snd ?tb = fold (tenant_step ops) xs (snd tb) \<and> (\<forall>x \<in> set xs. Q (top_ns x))"
    using fs_step_own [of ops tb lossy resolve ms ev]
  proof
    assume "own_steps ops (nano_vfs (fst tb)) (snd tb) (snd ?tb)"
    then show ?thesis by (rule own_steps_names) (use Cons.prems(2) in blast)
  next
    assume "own_steps ops (poly_vfs (fst tb)) (snd tb) (snd ?tb)"
    then show ?thesis by (rule own_steps_names) (use Cons.prems(3) in simp)
  qed
  then obtain xs where xs: "snd ?tb = fold (tenant_step ops) xs (snd tb)" "\<forall>x \<in> set xs. Q (top_ns x)" by blast
  have "\<exists>ys. snd (fold (fs_step lossy resolve ms ops) evs ?tb) = fold (tenant_step ops) ys (snd ?tb) \<and> (\<forall>x \<in> set ys. Q (top_ns x))"
    by (rule Cons.IH) (use Cons.prems in \<open>auto simp: fs_step_thread set_current_vfs_def split: fs_event.split\<close>)
  then obtain ys where "snd (fold (fs_step lossy resolve ms ops) evs ?tb) = fold (tenant_step ops) ys (snd ?tb)"
    "\<forall>x \<in> set ys. Q (top_ns x)" by blast
  with xs show ?case by (intro exI [of _ "xs @ ys"]) auto
qed

section \<open>Directories of the hooks\<close>

lemma node_components_ok:
  "\<lbrakk>\<forall>c \<in> set out. c \<noteq> [] \<and> CHR ''/'' \<notin> set c \<and> c \<noteq> ''..''; \<forall>c \<in> set segs. CHR ''/'' \<notin> set c;
    c \<in> set (node_components out segs)\<rbrakk> \<Longrightarrow> c \<noteq> [] \<and> CHR ''/'' \<notin> set c \<and> c \<noteq> ''..''"
  by (induction out segs rule: node_components.induct) (auto split: if_splits dest: in_set_butlastD)

lemma node_normalize_cases:
  obtains "node_normalize p = ''/''"
  | cs where "node_normalize p = ''/'' @ join_with ''/'' cs" "cs \<noteq> []"
      "\<forall>c \<in> set cs. c \<noteq> [] \<and> CHR ''/'' \<notin> set c \<and> c \<noteq> ''..''"
proof (cases "node_components [] (split_on (CHR ''/'') p) = []")
  case True
  then show ?thesis using that(1) by (simp add: node_normalize_def)
next
  case False
  moreover have "\<forall>c \<in> set (node_components [] (split_on (CHR ''/'') p)). c \<noteq> [] \<and> CHR ''/'' \<notin> set c \<and> c \<noteq> ''..''"
    using node_components_ok [of "[]" "split_on (CHR ''/'') p"] by (auto dest: split_on_no_sep)
  ultimately show ?thesis using that(2) by (simp add: node_normalize_def)
qed

lemma segments_slash: "segments (''/'' @ s) = segments s"
  by (cases "split_on (CHR ''/'') s") (simp_all add: segments_def)

lemma segments_join:
  assumes "cs \<noteq> []" "\<forall>c \<in> set cs. c \<noteq> [] \<and> CHR ''/'' \<notin> set c \<and> c \<noteq> ''..''"
  shows "segments (join_with ''/'' cs) = cs" "''..'' \<notin> set cs"
  using assms by (auto simp: segments_def split_join)

lemma new_node_path:
  assumes "cs \<noteq> []" "\<forall>c \<in> set cs. c \<noteq> [] \<and> CHR ''/'' \<notin> set c \<and> c \<noteq> ''..''"
  shows "vfs_path_new (''/'' @ join_with ''/'' cs) = Inr p \<longleftrightarrow>
     Suc (length (join_with ''/'' cs)) \<le> MAX_PATH_LENGTH \<and> CHR 0x00 \<notin> set (join_with ''/'' cs) \<and> p = VfsPath (join_with ''/'' cs)"
  using assms segments_join [OF assms] segments_slash [of "join_with ''/'' cs"]
  by (auto simp: vfs_path_new_Inr normalize_segments)

lemma marker_ok: "DIR_MARKER \<noteq> []" "CHR ''/'' \<notin> set DIR_MARKER" "DIR_MARKER \<noteq> ''..''"
  by (simp_all add: DIR_MARKER_def)

lemma marker_prefix:
  assumes "ns_ok ns" "node_normalize p \<noteq> ''/''" "iso_prefix_namespace ns (marker_of (node_normalize p)) = Inr sp"
  obtains sq where "iso_prefix_namespace ns (node_normalize p) = Inr sq" "as_str sp = as_str sq @ CHR ''/'' # DIR_MARKER"
    "vfs_path_wf sp" "vfs_path_wf sq"
proof (cases rule: node_normalize_cases [of p])
  case 1
  with assms(2) show ?thesis by simp
next
  case (2 cs)
  let ?j = "join_with ''/'' cs"
  have m: "marker_of (node_normalize p) = ''/'' @ join_with ''/'' (cs @ [DIR_MARKER])"
    using 2 by (simp add: marker_of_def join_with_append)
  have j: "join_with ''/'' (cs @ [DIR_MARKER]) = ?j @ CHR ''/'' # DIR_MARKER" using 2 by (simp add: join_with_append)
  have cs: "\<forall>c \<in> set (cs @ [DIR_MARKER]). c \<noteq> [] \<and> CHR ''/'' \<notin> set c \<and> c \<noteq> ''..''" using 2(3) marker_ok by auto
  from assms(3) obtain q where q: "vfs_path_new (''/'' @ join_with ''/'' (cs @ [DIR_MARKER])) = Inr q"
    and sp: "sp = VfsPath (ns @ ''::'' @ as_str q)" "vfs_path_wf sp"
    unfolding m iso_prefix_namespace_Inr [OF assms(1)] by blast
  from q have q': "q = VfsPath (?j @ CHR ''/'' # DIR_MARKER)"
    "Suc (length ?j) \<le> MAX_PATH_LENGTH" "CHR 0x00 \<notin> set ?j"
    using new_node_path [OF _ cs, of q] by (auto simp: j)
  have n: "vfs_path_new (node_normalize p) = Inr (VfsPath ?j)"
    using new_node_path [OF 2(2,3), of "VfsPath ?j"] q' 2(1) by simp
  have sp': "sp = VfsPath ((ns @ ''::'' @ ?j) @ CHR ''/'' # DIR_MARKER)" using sp(1) q'(1) by simp
  then have wf: "vfs_path_wf (VfsPath (ns @ ''::'' @ ?j))" using vfs_path_wf_ancestor sp(2) by metis
  show ?thesis
    by (rule that [of "VfsPath (ns @ ''::'' @ ?j)"]) (use n wf sp(2) sp' in \<open>auto simp: iso_prefix_namespace_Inr [OF assms(1)]\<close>)
qed

lemma base_name_child: "CHR ''/'' \<notin> set n \<Longrightarrow> base_name (s @ CHR ''/'' # n) = n"
  by (simp add: base_name_def split_on_append split_on_atom)

text \<open>What a directory shows: the names, sorted, of stored files in it and of directories with stored files, except the marker.\<close>

definition shown_names :: "memory_backend \<Rightarrow> vfs_path \<Rightarrow> string set" where
  "shown_names b sq = {n. n \<noteq> DIR_MARKER \<and> n \<noteq> [] \<and> CHR ''/'' \<notin> set n
     \<and> (\<exists>k \<in> dom (mem_view b). k = as_str sq @ CHR ''/'' # n \<or> prefix (as_str sq @ CHR ''/'' # n @ ''/'') k)}"

lemma sorted_dedup_distinct: "sorted (xs :: string list) \<Longrightarrow> distinct (remdups_adj xs)"
  by (induction xs rule: remdups_adj.induct) (auto simp: order_antisym)

lemma node_children_mem:
  assumes "mem_inv b" "vfs_path_wf sq" "iso_prefix_namespace ns path = Inr sq"
  obtains names where "node_children memory_ops ns b path = Some (Inr names)" "set names = shown_names b sq"
    "sorted names" "distinct names"
proof -
  obtain ps where ps: "mem_list_dir b sq = Some (Inr ps)"
    and set_ps: "set ps = {q. vfs_path_parent q = Some sq \<and> (\<exists>k \<in> dom (mem_view b). k = as_str q \<or> prefix (as_str q @ ''/'') k)}"
    using memory_list_dir_exact [OF assms(1,2)] by blast
  let ?f = "filter (\<lambda>name. \<not> (name = DIR_MARKER \<or> name = [])) (map (\<lambda>p. base_name (as_str p)) ps)"
  have "set ?f = shown_names b sq"
  proof (intro set_eqI iffI)
    fix n assume "n \<in> set ?f"
    then show "n \<in> shown_names b sq"
      by (force simp: set_ps vfs_path_parent_Some shown_names_def base_name_child)
  next
    fix n assume n: "n \<in> shown_names b sq"
    then have "VfsPath (as_str sq @ CHR ''/'' # n) \<in> set ps"
      by (auto simp: set_ps vfs_path_parent_Some shown_names_def)
    with n show "n \<in> set ?f" by (force simp: shown_names_def base_name_child)
  qed
  moreover have "node_children memory_ops ns b path = Some (Inr (remdups_adj (sort ?f)))"
    by (simp add: node_children_def iso_list_dir_def assms(3) memory_ops_def ps)
  ultimately show ?thesis
    using that [of "remdups_adj (sort ?f)"] sorted_dedup_distinct [of "sort ?f"] by simp
qed

lemma iso_exists_mem:
  assumes "mem_inv b" "iso_prefix_namespace ns path = Inr sp"
  shows "iso_exists memory_ops ns b path = Inr (mem_view b (as_str sp) \<noteq> None)"
  using assms mem.exists_view [OF assms(1), of sp] by (simp add: iso_exists_def iso_prefix_namespace_wf)

lemma conj_cong2: "(Q \<Longrightarrow> P = P') \<Longrightarrow> (P \<and> Q) = (P' \<and> Q)"
  by blast

lemma marker_not_shown:
  assumes "mem_view b' = (mem_view b)(as_str sq @ CHR ''/'' # DIR_MARKER := v)"
  shows "shown_names b' sq = shown_names b sq"
proof -
  have "as_str sq @ CHR ''/'' # DIR_MARKER \<noteq> as_str sq @ CHR ''/'' # n
      \<and> \<not> prefix (as_str sq @ CHR ''/'' # n @ ''/'') (as_str sq @ CHR ''/'' # DIR_MARKER)" if "n \<noteq> DIR_MARKER" for n
    using that marker_ok(2) by (auto simp: prefix_def) (metis in_set_conv_decomp)
  then have same: "mem_view b' k = mem_view b k"
    if "n \<noteq> DIR_MARKER" "k = as_str sq @ CHR ''/'' # n \<or> prefix (as_str sq @ CHR ''/'' # n @ ''/'') k" for n k
    using that unfolding assms by (metis fun_upd_other)
  have eq: "(\<exists>k \<in> dom (mem_view b'). k = as_str sq @ CHR ''/'' # n \<or> prefix (as_str sq @ CHR ''/'' # n @ ''/'') k)
      \<longleftrightarrow> (\<exists>k \<in> dom (mem_view b). k = as_str sq @ CHR ''/'' # n \<or> prefix (as_str sq @ CHR ''/'' # n @ ''/'') k)"
    if "n \<noteq> DIR_MARKER" for n
    unfolding Bex_def domIff by (rule arg_cong [where f = Ex], rule ext, rule conj_cong2) (simp add: same [OF that])
  show ?thesis unfolding shown_names_def by (intro Collect_cong conj_cong refl) (erule eq)
qed

lemma done_undefined: "done_or_throw s p rb = Some (FsReturn JUndefined, b') \<Longrightarrow> rb = (Inr (), b')"
  by (cases rb) (auto simp: done_or_throw_def throw_node_def throw_uv_def throw_coded_full_def split: sum.splits)

lemma throw_uv_not_undefined [simp]: "throw_uv code syscall path \<noteq> FsReturn r" "FsReturn r \<noteq> throw_uv code syscall path"
  by (simp_all add: throw_uv_def throw_coded_full_def)

lemma make_dir_done:
  assumes "mem_inv b" "ns_ok ns" "node_mkdir memory_ops (Some ns) now b [JText p] = Some (FsReturn JUndefined, b')"
  obtains sp sq where "iso_prefix_namespace ns (marker_of (node_normalize p)) = Inr sp"
    "iso_prefix_namespace ns (node_normalize p) = Inr sq" "as_str sp = as_str sq @ CHR ''/'' # DIR_MARKER"
    "vfs_path_wf sp" "vfs_path_wf sq" "mem_view b (as_str sp) = None" "mem_view b (as_str sq) = None"
    "mem_view b' = (mem_view b)(as_str sp \<mapsto> [])" "mem_inv b'" "shown_names b sq = {}" "node_normalize p \<noteq> ''/''"
proof -
  let ?path = "node_normalize p"
  have args: "str_arg [JText p] 0 = Some p" "bool_arg [JText p] (Suc 0) = False"
    by (simp_all add: str_arg_def arg_at_def bool_arg_def)
  from assms(3) have nf: "\<not> file_exists memory_ops ns b ?path"
    by (auto simp: node_mkdir_def args with_vfs_def split: if_split_asm)
  with assms(3) have nd: "dir_exists memory_ops ns b ?path = Some False"
    by (cases "dir_exists memory_ops ns b ?path") (auto simp: node_mkdir_def args with_vfs_def split: bool.split_asm)
  from assms(3) nf nd have "make_dir memory_ops ns now b ?path = Some (FsReturn JUndefined, b')"
    by (cases "dir_exists memory_ops ns b (parent_of ?path)")
      (auto simp: node_mkdir_def args with_vfs_def split: bool.split_asm if_split_asm)
  then have w: "iso_write memory_ops ns now b (marker_of ?path) [] = (Inr (), b')"
    by (simp add: make_dir_def done_undefined)
  from nd have root: "?path \<noteq> ''/''" by (auto simp: dir_exists_def)
  from w obtain sp where sp: "iso_prefix_namespace ns (marker_of ?path) = Inr sp"
    and be: "be_write memory_ops now b sp [] = (Inr (), b')" by (auto simp: iso_write_def split: sum.splits)
  obtain sq where sq: "iso_prefix_namespace ns ?path = Inr sq" "as_str sp = as_str sq @ CHR ''/'' # DIR_MARKER"
    "vfs_path_wf sp" "vfs_path_wf sq" by (rule marker_prefix [OF assms(2) root sp])
  have v: "mem_view b' = (mem_view b)(as_str sp \<mapsto> [])" by (rule mem.write_ok [OF assms(1) sq(3) be])
  have i: "mem_inv b'" using mem.write_invar [OF assms(1) sq(3), of now "[]"] be by simp
  obtain names where names: "node_children memory_ops ns b ?path = Some (Inr names)" "set names = shown_names b sq"
    by (rule node_children_mem [OF assms(1) sq(4,1)])
  have e: "\<not> file_exists memory_ops ns b (marker_of ?path)" "names = []"
    using nd names(1) root by (auto simp: dir_exists_def split: if_splits)
  have n: "mem_view b (as_str sp) = None" "mem_view b (as_str sq) = None"
    using e(1) nf iso_exists_mem [OF assms(1) sp] iso_exists_mem [OF assms(1) sq(1)] by (simp_all add: file_exists_def)
  show ?thesis by (rule that [OF sp sq n v i _ root]) (use e(2) names(2) in simp)
qed

lemma show_nat_pos: "0 < length (show_nat n)"
  by (subst show_nat.simps) simp

lemma array_text_length: "bs \<noteq> [] \<Longrightarrow> 2 * length bs \<le> Suc (length (array_text bs))"
proof (induction bs)
  case (Cons b bs)
  moreover obtain c cs where "show_nat (unat b) = c # cs" using show_nat_pos [of "unat b"] by (cases "show_nat (unat b)") auto
  ultimately show ?case by (cases bs) (auto simp: array_text_def)
qed simp

lemma array_text_single: "string_bytes (array_text [w]) \<noteq> [w]"
proof (cases "unat w < 10")
  case True
  have "(of_char (char_of (48 + unat w) :: char) :: 8 word) = of_nat ((48 + unat w) mod 256)"
    by (metis of_char_of of_nat_of_char)
  also have "\<dots> = 48 + w" using True by simp
  finally have "(of_char (char_of (48 + unat w) :: char) :: 8 word) \<noteq> w" by simp
  moreover have "show_nat (unat w) = [char_of (48 + unat w)]" using True by (subst show_nat.simps) simp
  ultimately show ?thesis by (simp add: array_text_def string_bytes_def)
next
  case False
  then have "2 \<le> length (show_nat (unat w))" using show_nat_pos [of "unat w div 10"]
    by (subst show_nat.simps) (simp add: Suc_le_eq)
  then show ?thesis by (auto simp: array_text_def string_bytes_def dest: arg_cong [of _ _ length])
qed

lemma array_text_differs: "bs \<noteq> [] \<Longrightarrow> string_bytes (array_text bs) \<noteq> bs"
proof
  assume n: "bs \<noteq> []" and e: "string_bytes (array_text bs) = bs"
  from e have "length (array_text bs) = length bs" by (metis string_bytes_def length_map)
  with array_text_length [OF n] n obtain w where "bs = [w]" by (cases bs; cases "tl bs") auto
  with e array_text_single show False by blast
qed

text \<open>The events of a thread that are calls of scripts.\<close>

definition is_call :: "fs_event \<Rightarrow> bool" where
  "is_call ev = (case ev of HandlerStarts _ \<Rightarrow> False | _ \<Rightarrow> True)"

lemma fs_calls_thread: "fst (fold (fs_step lossy resolve ms ops) (filter is_call evs) tb) = fst tb"
  by (induction evs arbitrary: tb) (auto simp: fs_step_thread is_call_def split: fs_event.splits)

lemma root_path: "node_normalize ''/'' = ''/''" "vfs_path_new ''/'' = Inl (InvalidPath ''/'' ''Path is empty after normalization'')"
  by code_simp+

section \<open>Properties\<close>

text \<open>
  C28. File operations of JavaScript stay in their tenant. Whatever handlers start on a thread and whatever methods of the three
  interfaces their scripts call, with any arguments, a tenant whose handler does not start on the thread reads exactly
  what it read before.
\<close>

theorem bindings_confined:
  assumes "mem_inv b" "ns_ok ns" "\<forall>n. HandlerStarts n \<in> set evs \<longrightarrow> ns_ok n \<and> n \<noteq> ns"
  shows "iso_read memory_ops ns (snd (fold (fs_step lossy resolve ms memory_ops) evs (fs_thread_new, b))) path
     = iso_read memory_ops ns b path"
proof -
  obtain xs where xs: "snd (fold (fs_step lossy resolve ms memory_ops) evs (fs_thread_new, b)) = fold (tenant_step memory_ops) xs b"
    "\<forall>x \<in> set xs. ns_ok (top_ns x) \<and> top_ns x \<noteq> ns"
    using fs_run_own [of evs "\<lambda>n. ns_ok n \<and> n \<noteq> ns" "(fs_thread_new, b)" lossy resolve ms memory_ops] assms(3)
    by (auto simp: fs_thread_new_def)
  show ?thesis unfolding xs(1) using tenant_reads_same [OF assms(1,2) xs(2)] by blast
qed

theorem bindings_confined_witness:
  "iso_read memory_ops ''a'' (snd (fold (fs_step (\<lambda>_. []) Some id memory_ops)
      [HandlerStarts ''b'', NanoCall 1 ''writeFileSync'' [JText ''/d/x'', JText ''hi'']] (fs_thread_new, sample_mem))) ''/d/x''
     = iso_read memory_ops ''a'' sample_mem ''/d/x''
   \<and> iso_read memory_ops ''b'' (snd (fold (fs_step (\<lambda>_. []) Some id memory_ops)
      [HandlerStarts ''b'', NanoCall 1 ''writeFileSync'' [JText ''/d/x'', JText ''hi'']] (fs_thread_new, sample_mem))) ''/d/x''
     = Inr [104, 105]"
proof -
  have n: "ns_ok ''a''" "ns_ok ''b''" by code_simp+
  have "\<forall>n. HandlerStarts n \<in> set [HandlerStarts ''b'', NanoCall 1 ''writeFileSync'' [JText ''/d/x'', JText ''hi'']]
      \<longrightarrow> ns_ok n \<and> n \<noteq> ''a''" using n by simp
  from bindings_confined [OF sample_mem_inv n(1) this] show ?thesis
    by (rule conjI) code_simp
qed

text \<open>
  A script that writes a \<^verbatim>\<open>Uint8Array\<close> with \<^verbatim>\<open>Nano.fs\<close> gets other bytes: the file holds the decimal text of the elements,
  which is never the array unless it is empty. The hook of \<^verbatim>\<open>node:fs\<close> stores the bytes themselves.
\<close>

theorem nano_binary_stored_as_text:
  assumes "mem_inv b" "bs \<noteq> []"
    "nano_fs_write_file_sync memory_ops (Some ns) now b [JText path, JUint8 bs (Some (array_text bs))] = (FsReturn JUndefined, b')"
    "node_write_file memory_ops (Some ns) now b [JText path, JUint8 bs t] = Some (FsReturn JUndefined, b'')"
  shows "iso_read memory_ops ns b' path = Inr (string_bytes (array_text bs)) \<and> string_bytes (array_text bs) \<noteq> bs
     \<and> iso_read memory_ops ns b'' (node_normalize path) = Inr bs"
proof -
  have "iso_write memory_ops ns now b path (string_bytes (array_text bs)) = (Inr (), b')"
    using assms(3) by (simp add: nano_fs_write_file_sync_def extract_string_arg_def nano_bytes_arg_def arg_at_def on_vfs_def
        split: prod.splits sum.splits)
  moreover have "iso_write memory_ops ns now b (node_normalize path) bs = (Inr (), b'')"
    using assms(4) by (auto simp: node_write_file_def str_arg_def bytes_arg_def arg_at_def with_vfs_def
        dest!: done_undefined split: option.splits bool.splits)
  ultimately show ?thesis
    using mem.iso_read_after_write [OF assms(1)] array_text_differs [OF assms(2)] by blast
qed

theorem nano_binary_stored_as_text_witness:
  "\<exists>b'. iso_read memory_ops ''a'' b' ''/f'' = Inr [55, 44, 48]"
proof -
  let ?b' = "snd (nano_fs_write_file_sync memory_ops (Some ''a'') 1 sample_mem [JText ''/f'', JUint8 [7, 0] (Some (array_text [7, 0]))])"
  let ?b'' = "snd (the (node_write_file memory_ops (Some ''a'') 1 sample_mem [JText ''/f'', JUint8 [7, 0] None]))"
  have n: "nano_fs_write_file_sync memory_ops (Some ''a'') 1 sample_mem [JText ''/f'', JUint8 [7, 0] (Some (array_text [7, 0]))]
      = (FsReturn JUndefined, ?b')" by code_simp
  have m: "node_write_file memory_ops (Some ''a'') 1 sample_mem [JText ''/f'', JUint8 [7, 0] None] = Some (FsReturn JUndefined, ?b'')"
    by code_simp
  have "string_bytes (array_text [7, 0]) = [55, 44, 48]" by code_simp
  with nano_binary_stored_as_text [OF sample_mem_inv _ n m] show ?thesis by auto
qed

text \<open>
  Making and removing a directory. After a successful \<^verbatim>\<open>mkdir\<close> the directory lists nothing and cannot be written or
  unlinked as a file; \<^verbatim>\<open>rmdir\<close> succeeds and restores all stored files.
\<close>

theorem mkdir_rmdir_roundtrip:
  assumes "mem_inv b" "ns_ok ns" "node_mkdir memory_ops (Some ns) now b [JText p] = Some (FsReturn JUndefined, b')"
  shows "node_readdir memory_ops (Some ns) b' [JText p] = Some (FsReturn (JStrings []), b')
    \<and> node_unlink memory_ops (Some ns) b' [JText p] = Some (throw_uv ''EISDIR'' ''unlink'' (node_normalize p), b')
    \<and> node_write_file memory_ops (Some ns) now b' [JText p, JUint8 c t] = Some (throw_uv ''EISDIR'' ''open'' (node_normalize p), b')
    \<and> (\<exists>b''. node_rmdir memory_ops (Some ns) b' [JText p] = Some (FsReturn JUndefined, b'') \<and> mem_view b'' = mem_view b)"
proof -
  let ?path = "node_normalize p"
  obtain sp sq where o: "iso_prefix_namespace ns (marker_of ?path) = Inr sp"
    "iso_prefix_namespace ns ?path = Inr sq" "as_str sp = as_str sq @ CHR ''/'' # DIR_MARKER"
    "vfs_path_wf sp" "vfs_path_wf sq" "mem_view b (as_str sp) = None" "mem_view b (as_str sq) = None"
    "mem_view b' = (mem_view b)(as_str sp \<mapsto> [])" "mem_inv b'" "shown_names b sq = {}" "?path \<noteq> ''/''"
    by (rule make_dir_done [OF assms])
  have ne: "as_str sq \<noteq> as_str sp" using o(3) by simp
  have f: "\<not> file_exists memory_ops ns b' ?path" "file_exists memory_ops ns b' (marker_of ?path)"
    using iso_exists_mem [OF o(9,1)] iso_exists_mem [OF o(9,2)] o(7,8) ne by (simp_all add: file_exists_def)
  then have d: "dir_exists memory_ops ns b' ?path = Some True" by (simp add: dir_exists_def)
  obtain names where names: "node_children memory_ops ns b' ?path = Some (Inr names)" "set names = shown_names b' sq"
    by (rule node_children_mem [OF o(9,5,2)])
  have "shown_names b' sq = shown_names b sq" by (rule marker_not_shown) (simp add: o(3,8))
  then have c: "node_children memory_ops ns b' ?path = Some (Inr [])" using names o(10) by simp
  have del: "fst (be_delete memory_ops b' sp) = Inr ()" by (rule mem.delete_present [OF o(9,4)]) (simp add: o(8))
  then obtain b'' where b'': "be_delete memory_ops b' sp = (Inr (), b'')" by (cases "be_delete memory_ops b' sp") auto
  have "mem_view b'' = (mem_view b')(as_str sp := None)" using mem.delete_ok [OF o(9,4) b''] by simp
  then have v: "mem_view b'' = mem_view b" using o(6,8) by auto
  have "iso_delete memory_ops ns b' (marker_of ?path) = (Inr (), b'')" by (simp add: iso_delete_def o(1) b'')
  then have r: "node_rmdir memory_ops (Some ns) b' [JText p] = Some (FsReturn JUndefined, b'')"
    by (simp add: node_rmdir_def str_arg_def arg_at_def with_vfs_def f d c done_or_throw_def)
  show ?thesis using r v
    by (simp add: node_readdir_def node_unlink_def node_write_file_def bytes_arg_def str_arg_def arg_at_def with_vfs_def f d c)
qed

theorem mkdir_rmdir_roundtrip_witness:
  "\<exists>b' b''. node_mkdir memory_ops (Some ''a'') 1 sample_mem [JText ''/new''] = Some (FsReturn JUndefined, b')
     \<and> node_rmdir memory_ops (Some ''a'') b' [JText ''/new''] = Some (FsReturn JUndefined, b'') \<and> mem_view b'' = mem_view sample_mem"
proof -
  let ?b' = "snd (the (node_mkdir memory_ops (Some ''a'') 1 sample_mem [JText ''/new'']))"
  have n: "ns_ok ''a''" by code_simp
  have m: "node_mkdir memory_ops (Some ''a'') 1 sample_mem [JText ''/new''] = Some (FsReturn JUndefined, ?b')" by code_simp
  from mkdir_rmdir_roundtrip [OF sample_mem_inv n m] m show ?thesis by blast
qed

text \<open>
  Renaming a file to itself deletes it: the file is read, written, and then deleted under the same path.
\<close>

theorem rename_self_loses_file:
  assumes "mem_inv b" "node_normalize q = node_normalize p"
    "node_rename memory_ops (Some ns) now b [JText p, JText q] = Some (FsReturn JUndefined, b')"
  shows "iso_exists memory_ops ns b (node_normalize p) = Inr True \<and> iso_exists memory_ops ns b' (node_normalize p) = Inr False"
proof -
  let ?path = "node_normalize p"
  obtain data b1 where r: "iso_read memory_ops ns b ?path = Inr data" and w: "iso_write memory_ops ns now b ?path data = (Inr (), b1)"
    and d: "iso_delete memory_ops ns b1 ?path = (Inr (), b')"
    using assms(3) by (auto simp: node_rename_def str_arg_def arg_at_def with_vfs_def assms(2)
        dest!: done_undefined split: sum.splits prod.splits)
  from r obtain sp where sp: "iso_prefix_namespace ns ?path = Inr sp" by (auto simp: iso_read_def bind_res_Inr)
  have wf: "vfs_path_wf sp" by (rule iso_prefix_namespace_wf [OF sp])
  have i: "mem_inv b1" using mem.iso_write_invar [OF assms(1), of ns now ?path data] w by simp
  have i': "mem_inv b'" using mem.iso_delete_invar [OF i, of ns ?path] d by simp
  have "mem_view b (as_str sp) = Some data" using r mem.read_view [OF assms(1) wf] by (simp add: iso_read_def sp)
  moreover have "mem_view b' (as_str sp) = None" using d mem.delete_ok [OF i wf] by (simp add: iso_delete_def sp)
  ultimately show ?thesis using iso_exists_mem [OF assms(1) sp] iso_exists_mem [OF i' sp] by simp
qed

theorem rename_self_loses_file_witness:
  "\<exists>b'. iso_exists memory_ops ''a'' b' (node_normalize ''f'') = Inr False"
proof -
  let ?b = "snd (iso_write memory_ops ''a'' 1 sample_mem ''/f'' [42])"
  let ?b' = "snd (the (node_rename memory_ops (Some ''a'') 2 ?b [JText ''f'', JText ''/d/../f'']))"
  have i: "mem_inv ?b" by (rule mem.iso_write_invar [OF sample_mem_inv])
  have n: "node_normalize ''/d/../f'' = node_normalize ''f''" by code_simp
  have r: "node_rename memory_ops (Some ''a'') 2 ?b [JText ''f'', JText ''/d/../f''] = Some (FsReturn JUndefined, ?b')" by code_simp
  from rename_self_loses_file [OF i n r] show ?thesis by blast
qed

text \<open>
  Scripts without files. In every run of a thread the view of the polyfill stays unset: its reads and writes fail and nothing
  exists for it. On a thread that runs no handler through \<^verbatim>\<open>handler.rs\<close>, like every worker of the pool, the same holds for
  \<^verbatim>\<open>Nano.fs\<close> and the hooks. With a view, the root exists and cannot be listed.
\<close>

theorem scripts_without_files:
  "let t = fst (fold (fs_step lossy resolve ms ops) evs (fs_thread_new, b0));
       w = fst (fold (fs_step lossy resolve ms ops) (filter is_call evs) (fs_thread_new, b0)) in
   poly_read_file_sync lossy ops (poly_vfs t) b (JText p # args) = (FsThrow (vfs_error_object (IoError no_vfs_poly)), b)
   \<and> poly_write_file_sync ops (poly_vfs t) now b (JText p # JText c # args) = (FsThrow (vfs_error_object (IoError no_vfs_poly)), b)
   \<and> poly_exists_sync ops (poly_vfs t) b (JText p # args) = (FsReturn (JBool False), b)
   \<and> nano_fs_read_file_sync lossy ops (nano_vfs w) b (JText p # args) = (FsThrow (vfs_error_object (IoError no_vfs_nano)), b)
   \<and> node_read_file ops (nano_vfs w) b (JText p # args) = Some (throw_uv ''EIO'' ''open'' (node_normalize p), b)
   \<and> node_exists ops (Some ns) b [JText ''/''] = Some (FsReturn (JBool True), b)
   \<and> node_readdir ops (Some ns) b [JText ''/''] = Some (throw_uv ''EINVAL'' ''scandir'' ''/'', b)"
  by (simp add: fs_run_thread fs_calls_thread fs_thread_new_def poly_read_file_sync_def poly_write_file_sync_def poly_exists_sync_def
      poly_exists_def on_vfs_def extract_string_arg_def poly_bytes_arg_def arg_at_def nano_fs_read_file_sync_def
      node_read_file_def str_arg_def with_vfs_def throw_node_def node_code_def node_exists_def node_readdir_def root_path
      file_exists_def iso_exists_def iso_list_dir_def dir_exists_def node_children_def iso_prefix_namespace_def)

end
