(* ===== verification/Nano_Float.thy ===== *)
theory Nano_Float
  imports Complex_Main Nano_Prelude "HOL-Library.Log_Nat"
begin

text \<open>
  The type \<^verbatim>\<open>f64\<close> as the metrics and the memory monitor use it: IEEE 754 binary64 with rounding to the
  nearest value, ties to even. A finite number is its rational value, so that there is one zero: no
  code of the model divides by a negative zero or prints one. Rounding keeps 53 significant bits
  down to the subnormal step \<open>2 powi -1074\<close> and overflows to infinity. Arithmetic rounds the exact result.
  A cast to an integer truncates and saturates; comparisons with NaN are false.
\<close>

section \<open>Definitions\<close>

datatype f64 = Fin rat | PInf | NInf | NaN

text \<open>The exponent \<open>e\<close> of a positive number, with \<open>2 powi e \<le> q < 2 powi (e + 1)\<close>.\<close>

definition binade :: "rat \<Rightarrow> int" where
  "binade q = (let (a, b) = quotient_of q; e = bitlen a - bitlen b in if 2 powi e \<le> q then e else e - 1)"

definition ulp :: "rat \<Rightarrow> rat" where
  "ulp q = 2 powi (max (binade q - 52) (- 1074))"

definition round_half_even :: "rat \<Rightarrow> int" where
  "round_half_even q = (let f = \<lfloor>q\<rfloor>; d = q - of_int f in if d < 1 / 2 \<or> d = 1 / 2 \<and> even f then f else f + 1)"

definition nearest :: "rat \<Rightarrow> rat" where
  "nearest q = (if q = 0 then 0 else of_int (round_half_even (q / ulp \<bar>q\<bar>)) * ulp \<bar>q\<bar>)"

definition round_f64 :: "rat \<Rightarrow> f64" where
  "round_f64 q = (let r = nearest q in if r \<ge> 2 ^ 1024 then PInf else if r \<le> - (2 ^ 1024) then NInf else Fin r)"

definition f_le :: "f64 \<Rightarrow> f64 \<Rightarrow> bool" where
  "f_le x y = (case (x, y) of
       (Fin a, Fin b) \<Rightarrow> a \<le> b | (NaN, _) \<Rightarrow> False | (_, NaN) \<Rightarrow> False
     | (NInf, _) \<Rightarrow> True | (_, PInf) \<Rightarrow> True | _ \<Rightarrow> False)"

definition f_lt :: "f64 \<Rightarrow> f64 \<Rightarrow> bool" where
  "f_lt x y = (f_le x y \<and> \<not> f_le y x)"

definition f_add :: "f64 \<Rightarrow> f64 \<Rightarrow> f64" where
  "f_add x y = (case (x, y) of
       (NaN, _) \<Rightarrow> NaN | (_, NaN) \<Rightarrow> NaN
     | (Fin a, Fin b) \<Rightarrow> round_f64 (a + b)
     | (PInf, NInf) \<Rightarrow> NaN | (NInf, PInf) \<Rightarrow> NaN
     | (PInf, _) \<Rightarrow> PInf | (_, PInf) \<Rightarrow> PInf | _ \<Rightarrow> NInf)"

definition f_neg :: "f64 \<Rightarrow> f64" where
  "f_neg x = (case x of Fin a \<Rightarrow> Fin (- a) | PInf \<Rightarrow> NInf | NInf \<Rightarrow> PInf | NaN \<Rightarrow> NaN)"

definition f_sub :: "f64 \<Rightarrow> f64 \<Rightarrow> f64" where
  "f_sub x y = f_add x (f_neg y)"

definition f_abs :: "f64 \<Rightarrow> f64" where
  "f_abs x = (case x of Fin a \<Rightarrow> Fin \<bar>a\<bar> | PInf \<Rightarrow> PInf | NInf \<Rightarrow> PInf | NaN \<Rightarrow> NaN)"

definition f_mul :: "f64 \<Rightarrow> f64 \<Rightarrow> f64" where
  "f_mul x y = (let sign = (\<lambda>v. case v of Fin a \<Rightarrow> sgn a | PInf \<Rightarrow> 1 | NInf \<Rightarrow> - 1 | NaN \<Rightarrow> 0); s = sign x * sign y in
     case (x, y) of
       (NaN, _) \<Rightarrow> NaN | (_, NaN) \<Rightarrow> NaN
     | (Fin a, Fin b) \<Rightarrow> round_f64 (a * b)
     | _ \<Rightarrow> if s > 0 then PInf else if s < 0 then NInf else NaN)"

definition f_div :: "f64 \<Rightarrow> f64 \<Rightarrow> f64" where
  "f_div x y = (case (x, y) of
       (NaN, _) \<Rightarrow> NaN | (_, NaN) \<Rightarrow> NaN
     | (Fin a, Fin b) \<Rightarrow> if b = 0 then (if a > 0 then PInf else if a < 0 then NInf else NaN) else round_f64 (a / b)
     | (Fin a, _) \<Rightarrow> Fin 0
     | (PInf, Fin b) \<Rightarrow> if b < 0 then NInf else PInf
     | (NInf, Fin b) \<Rightarrow> if b < 0 then PInf else NInf
     | _ \<Rightarrow> NaN)"

text \<open>\<^verbatim>\<open>n as f64\<close> and \<^verbatim>\<open>x as u64\<close>.\<close>

definition f_of_nat :: "nat \<Rightarrow> f64" where
  "f_of_nat n = round_f64 (of_nat n)"

definition f_to_u64 :: "f64 \<Rightarrow> u64" where
  "f_to_u64 x = (case x of
       Fin a \<Rightarrow> if a \<le> 0 then 0 else if a \<ge> 2 ^ 64 then - 1 else of_int \<lfloor>a\<rfloor>
     | PInf \<Rightarrow> - 1 | NInf \<Rightarrow> 0 | NaN \<Rightarrow> 0)"

definition f_is_infinite :: "f64 \<Rightarrow> bool" where
  "f_is_infinite x = (x = PInf \<or> x = NInf)"

text \<open>The total order that sorting uses on lists without NaN; NaN is put last.\<close>

instantiation f64 :: linorder
begin

definition less_eq_f64 :: "f64 \<Rightarrow> f64 \<Rightarrow> bool" where
  "less_eq_f64 x y = (y = NaN \<or> f_le x y)"

definition less_f64 :: "f64 \<Rightarrow> f64 \<Rightarrow> bool" where
  "less_f64 x y = (x \<noteq> NaN \<and> (y = NaN \<or> f_lt x y))"

instance
  by standard (auto simp: less_eq_f64_def less_f64_def f_lt_def f_le_def split: f64.splits)

end

section \<open>Lemmas\<close>

lemma f_le_order: "\<lbrakk>x \<noteq> NaN; y \<noteq> NaN\<rbrakk> \<Longrightarrow> f_le x y \<longleftrightarrow> x \<le> y"
  by (auto simp: less_eq_f64_def)

lemma f_le_NaN [simp]: "\<not> f_le NaN y" "\<not> f_le x NaN"
  by (auto simp: f_le_def split: f64.splits)

lemma f_le_refl: "x \<noteq> NaN \<Longrightarrow> f_le x x"
  by (cases x) (simp_all add: f_le_def)

lemma f_le_trans: "\<lbrakk>f_le x y; f_le y z\<rbrakk> \<Longrightarrow> f_le x z"
  by (auto simp: f_le_def split: f64.splits)

lemma f_le_PInf: "x \<noteq> NaN \<Longrightarrow> f_le x PInf"
  by (cases x) (simp_all add: f_le_def)

lemma f_le_Fin [simp]: "f_le (Fin a) (Fin b) \<longleftrightarrow> a \<le> b"
  by (simp add: f_le_def)

subsection \<open>Rounding\<close>

lemma round_half_even_mono: "x \<le> y \<Longrightarrow> round_half_even x \<le> round_half_even y"
proof -
  assume "x \<le> y"
  then have f: "\<lfloor>x\<rfloor> \<le> \<lfloor>y\<rfloor>" by (rule floor_mono)
  show ?thesis
  proof (cases "\<lfloor>x\<rfloor> = \<lfloor>y\<rfloor>")
    case True
    with \<open>x \<le> y\<close> show ?thesis by (auto simp: round_half_even_def Let_def)
  next
    case False
    with f show ?thesis by (auto simp: round_half_even_def Let_def)
  qed
qed

lemma round_half_even_of_int [simp]: "round_half_even (of_int n) = n"
  by (simp add: round_half_even_def)

lemma round_half_even_near: "\<bar>of_int (round_half_even q) - q\<bar> \<le> 1 / 2"
proof -
  have "of_int \<lfloor>q\<rfloor> \<le> q" "q < of_int \<lfloor>q\<rfloor> + 1" by linarith+
  then show ?thesis by (auto simp: round_half_even_def Let_def abs_le_iff)
qed

lemma binade_bounds:
  assumes "q > 0"
  shows "2 powi binade q \<le> q" "q < 2 powi (binade q + 1)"
proof -
  obtain a b where ab: "quotient_of q = (a, b)" by force
  then have b: "b > 0" and q: "q = of_int a / of_int b"
    using quotient_of_denom_pos quotient_of_div by blast+
  with assms have a: "a > 0" by (simp add: zero_less_divide_iff)
  have pow: "(2 :: rat) ^ nat e = 2 powi e" if "e \<ge> 0" for e using that by (simp add: power_int_nonneg_exp)
  have l1: "bitlen x \<ge> 1" if "x > 0" for x using that bitlen_nonneg [of x] bitlen_eq_zero_iff [of x] by linarith
  have B: "2 powi (bitlen x - 1) \<le> (of_int x :: rat)" "(of_int x :: rat) < 2 powi bitlen x" if "x > 0" for x
  proof -
    have "of_int (2 ^ nat (bitlen x - 1)) \<le> (of_int x :: rat)" "(of_int x :: rat) < of_int (2 ^ nat (bitlen x))"
      using bitlen_bounds [OF that] by (simp_all only: of_int_le_iff of_int_less_iff)
    then show "2 powi (bitlen x - 1) \<le> (of_int x :: rat)" "(of_int x :: rat) < 2 powi bitlen x"
      using l1 [OF that] by (simp_all add: pow)
  qed
  let ?e = "bitlen a - bitlen b"
  have "2 powi (?e - 1) * 2 powi bitlen b = (2 powi (bitlen a - 1) :: rat)"
    by (subst power_int_add [symmetric]) (simp_all add: algebra_simps)
  moreover have "2 powi (?e - 1) * of_int b < (2 powi (?e - 1) * 2 powi bitlen b :: rat)" using B(2) [OF b] by simp
  ultimately have "2 powi (?e - 1) * of_int b < (of_int a :: rat)" using B(1) [OF a] by linarith
  then have lo: "2 powi (?e - 1) \<le> q" using b q by (simp add: pos_le_divide_eq)
  have "2 powi (?e + 1) * 2 powi (bitlen b - 1) = (2 powi bitlen a :: rat)"
    by (subst power_int_add [symmetric]) simp_all
  moreover have "2 powi (?e + 1) * 2 powi (bitlen b - 1) \<le> (2 powi (?e + 1) * of_int b :: rat)" using B(1) [OF b] by simp
  ultimately have "of_int a < (2 powi (?e + 1) * of_int b :: rat)" using B(2) [OF a] by linarith
  then have hi: "q < 2 powi (?e + 1)" using b q by (simp add: pos_divide_less_eq)
  show "2 powi binade q \<le> q" "q < 2 powi (binade q + 1)"
    using lo hi by (auto simp: binade_def ab Let_def split: if_splits)
qed

lemma ulp_pos [simp]: "ulp q > 0"
  by (simp add: ulp_def)

text \<open>A power of two that is not below the step is a multiple of it.\<close>

lemma power_multiple:
  assumes "k \<le> m"
  shows "\<exists>n :: int. (2 powi m :: rat) = of_int n * 2 powi k"
proof -
  have "(2 powi m :: rat) = 2 powi (m - k) * 2 powi k" by (subst power_int_add [symmetric]) simp_all
  moreover have "(2 powi (m - k) :: rat) = of_int (2 ^ nat (m - k))" using assms by (simp add: power_int_nonneg_exp)
  ultimately show ?thesis by metis
qed

lemma nearest_le:
  assumes "0 < q" "q \<le> r" "r = of_int n * ulp q"
  shows "nearest q \<le> r"
proof -
  have "q / ulp q \<le> of_int n" using assms by (simp add: pos_divide_le_eq)
  then have "round_half_even (q / ulp q) \<le> n" using round_half_even_mono [of _ "of_int n"] by force
  then show ?thesis using assms by (simp add: nearest_def)
qed

lemma nearest_ge:
  assumes "0 < q" "r \<le> q" "r = of_int n * ulp q"
  shows "r \<le> nearest q"
proof -
  have "of_int n \<le> q / ulp q" using assms by (simp add: pos_le_divide_eq)
  then have "n \<le> round_half_even (q / ulp q)" using round_half_even_mono [of "of_int n"] by force
  then show ?thesis using assms by (simp add: nearest_def)
qed

lemma binade_mono:
  assumes "0 < q" "q \<le> r"
  shows "binade q \<le> binade r"
proof -
  have "(2 :: rat) powi binade q < 2 powi (binade r + 1)"
    using binade_bounds [of q] binade_bounds [of r] assms by linarith
  then have "binade q < binade r + 1" using power_int_increasing [of "binade r + 1" "binade q" "2 :: rat"] by force
  then show ?thesis by simp
qed

text \<open>Rounding is monotone: across exponents the power of two between the numbers is representable.\<close>

lemma nearest_mono_pos:
  assumes "0 < q" "q \<le> r"
  shows "nearest q \<le> nearest r"
proof (cases "ulp q = ulp r")
  case True
  have "q / ulp r \<le> r / ulp r" using assms(2) by (intro divide_right_mono) (simp_all add: less_imp_le)
  then show ?thesis using True assms round_half_even_mono by (auto simp: nearest_def)
next
  case False
  then have "binade q \<noteq> binade r" by (auto simp: ulp_def)
  with False have lt: "binade q < binade r" "binade r - 52 > - 1074"
    using binade_mono [OF assms] by (auto simp: ulp_def max_def split: if_splits)
  let ?B = "2 powi binade r :: rat"
  have "(2 :: rat) powi (binade q + 1) \<le> ?B" using lt by (intro power_int_increasing) simp_all
  then have B: "q \<le> ?B" "?B \<le> r" using binade_bounds [of q] binade_bounds [of r] assms by linarith+
  obtain n m :: int where "?B = of_int n * ulp q" "?B = of_int m * ulp r"
    using power_multiple [of "max (binade q - 52) (- 1074)" "binade r"] power_multiple [of "max (binade r - 52) (- 1074)" "binade r"] lt
    by (auto simp: ulp_def)
  then show ?thesis using nearest_le [OF assms(1) B(1)] nearest_ge [OF _ B(2)] assms by (meson less_le_trans order_trans)
qed

lemma nearest_nonneg: "0 \<le> q \<Longrightarrow> 0 \<le> nearest q"
  using nearest_ge [of q 0 0] by (cases "q = 0") (simp_all add: nearest_def)

lemma nearest_mono: "\<lbrakk>0 \<le> q; q \<le> r\<rbrakk> \<Longrightarrow> nearest q \<le> nearest r"
  using nearest_mono_pos [of q r] nearest_nonneg [of r] by (cases "q = 0") (simp_all add: nearest_def)

lemma round_f64_mono:
  assumes "0 \<le> q" "q \<le> r"
  shows "f_le (round_f64 q) (round_f64 r)"
proof -
  have "nearest q \<ge> 0" "nearest r \<ge> 0" "nearest q \<le> nearest r"
    using nearest_mono [OF assms] nearest_nonneg assms by auto
  moreover have "(2 :: rat) ^ 1024 > 0" by simp
  ultimately show ?thesis by (auto simp: round_f64_def Let_def f_le_def)
qed

lemma round_f64_no_NaN [simp]: "round_f64 q \<noteq> NaN"
  by (simp add: round_f64_def Let_def)

text \<open>Numbers below one round to numbers below one when they keep clear of it.\<close>

lemma nearest_below_one:
  assumes "0 \<le> q" "q \<le> 1 - 1 / 2 ^ 53"
  shows "nearest q < 1"
proof (cases "q = 0")
  case False
  with assms have q: "0 < q" by simp
  have "(2 :: rat) powi binade q < 1" using binade_bounds(1) [OF q] assms by (simp add: field_simps)
  then have "binade q < 0" by (meson not_le one_le_power_int one_le_numeral)
  then have k: "max (binade q - 52) (- 1074) \<le> - 53" by simp
  obtain m n :: int where "(2 powi - 53 :: rat) = of_int m * ulp q" "(2 powi 0 :: rat) = of_int n * ulp q"
    using power_multiple [OF k] power_multiple [of "max (binade q - 52) (- 1074)" 0] k by (auto simp: ulp_def)
  then have "1 - 1 / 2 ^ 53 = of_int (n - m) * ulp q" by (simp add: algebra_simps power_int_minus field_simps)
  from nearest_le [OF q assms(2) this] show ?thesis by (simp add: field_simps)
qed (simp add: nearest_def)

lemma f_to_u64_below_one: "\<lbrakk>0 \<le> q; q \<le> 1 - 1 / 2 ^ 53\<rbrakk> \<Longrightarrow> f_to_u64 (round_f64 q) = 0"
proof -
  assume q: "0 \<le> q" "q \<le> 1 - 1 / 2 ^ 53"
  then have n: "nearest q < 1" by (rule nearest_below_one)
  with q have "\<lfloor>nearest q\<rfloor> = 0" using nearest_nonneg by (simp add: floor_eq_iff)
  with n show ?thesis by (auto simp: f_to_u64_def round_f64_def Let_def split: f64.splits if_splits)
qed

text \<open>Rounding moves a number below one by at most half of the last place.\<close>

lemma nearest_error:
  assumes "0 \<le> q" "q < 1"
  shows "\<bar>nearest q - q\<bar> \<le> 1 / 2 ^ 54"
proof (cases "q = 0")
  case False
  with assms have q: "0 < q" by simp
  have "(2 :: rat) powi binade q < 1" using binade_bounds(1) [OF q] assms by simp
  then have "binade q < 0" by (meson not_le one_le_power_int one_le_numeral)
  then have "ulp q \<le> 2 powi - 53" unfolding ulp_def by (intro power_int_increasing) simp_all
  then have u: "ulp q \<le> 1 / 2 ^ 53" by (simp add: power_int_minus inverse_eq_divide)
  have "nearest q - q = (of_int (round_half_even (q / ulp q)) - q / ulp q) * ulp q"
    using q less_imp_neq [OF ulp_pos [of q]] by (simp add: nearest_def algebra_simps)
  then have "\<bar>nearest q - q\<bar> = \<bar>of_int (round_half_even (q / ulp q)) - q / ulp q\<bar> * ulp q"
    by (simp add: abs_mult abs_of_pos)
  also have "\<dots> \<le> 1 / 2 * ulp q" using round_half_even_near by (intro mult_right_mono) (simp_all add: less_imp_le)
  also have "\<dots> \<le> 1 / 2 ^ 54" using u by (simp add: field_simps)
  finally show ?thesis .
qed (simp add: nearest_def)

text \<open>Numbers that are further apart stay apart.\<close>

lemma nearest_strict:
  assumes "0 \<le> p" "p < q" "q < 1" "1 / 2 ^ 53 < q - p"
  shows "nearest p < nearest q"
proof -
  have "nearest p - p \<le> 1 / 2 ^ 54" using abs_le_D1 [OF nearest_error [of p]] assms by linarith
  moreover have "q - nearest q \<le> 1 / 2 ^ 54" using abs_le_D2 [OF nearest_error [of q]] assms by linarith
  moreover have "(1 / 2 ^ 53 :: rat) = 1 / 2 ^ 54 + 1 / 2 ^ 54" by simp
  ultimately show ?thesis using assms(4) by linarith
qed

lemma nearest_power:
  assumes "m \<ge> 0"
  shows "nearest (2 powi m) = 2 powi m"
proof -
  have p: "(2 powi m :: rat) > 0" by simp
  have "binade (2 powi m) \<le> m"
    using power_int_le_imp_le_exp [OF _ binade_bounds(1) [OF p]] assms by force
  then obtain n :: int where "(2 powi m :: rat) = of_int n * ulp (2 powi m)"
    using power_multiple [of "max (binade (2 powi m) - 52) (- 1074)" m] assms by (auto simp: ulp_def)
  from nearest_le [OF p order.refl this] nearest_ge [OF p order.refl this] show ?thesis by simp
qed

lemma nearest_range: "\<lbrakk>0 \<le> q; q \<le> 2 ^ 64\<rbrakk> \<Longrightarrow> round_f64 q = Fin (nearest q)"
proof -
  assume q: "0 \<le> q" "q \<le> 2 ^ 64"
  have "nearest (2 ^ 64) = 2 ^ 64" using nearest_power [of 64] by simp
  with nearest_mono [OF q] have "nearest q \<le> 2 ^ 64" by simp
  moreover have "(2 :: rat) ^ 64 < 2 ^ 1024" by (intro power_strict_increasing) simp_all
  ultimately have "nearest q < 2 ^ 1024" by linarith
  moreover have "- (2 ^ 1024) < nearest q" using nearest_nonneg [OF q(1)] zero_less_power [of "2 :: rat" 1024] by linarith
  ultimately show ?thesis by (simp add: round_f64_def Let_def)
qed

text \<open>Integers of at most 53 bits are exact.\<close>

lemma nearest_of_nat:
  assumes "n < 2 ^ 53"
  shows "nearest (of_nat n) = of_nat n"
proof (cases "n = 0")
  case False
  let ?q = "of_nat n :: rat"
  have q: "?q > 0" using False by simp
  have "(of_nat n :: rat) < of_nat (2 ^ 53)" using assms of_nat_less_iff by blast
  then have "(2 :: rat) powi binade ?q < 2 powi 53" using binade_bounds(1) [OF q] by simp
  then have "binade ?q < 53" using power_int_increasing [of 53 "binade ?q" "2 :: rat"] by force
  then obtain m :: int where "(2 powi 0 :: rat) = of_int m * ulp ?q"
    using power_multiple [of "max (binade ?q - 52) (- 1074)" 0] by (auto simp: ulp_def)
  then have "?q = of_int (int n * m) * ulp ?q" by simp
  from nearest_le [OF q order.refl this] nearest_ge [OF q order.refl this] show ?thesis by simp
qed (simp add: nearest_def)

lemma f_of_nat_exact: "n < 2 ^ 53 \<Longrightarrow> f_of_nat n = Fin (of_nat n)"
proof -
  assume a: "n < 2 ^ 53"
  then have "(of_nat n :: rat) < of_nat (2 ^ 53)" using of_nat_less_iff by blast
  moreover have "(2 :: rat) ^ 53 < 2 ^ 1024" by simp
  ultimately have "(of_nat n :: rat) < 2 ^ 1024" by simp
  moreover have "\<not> (of_nat n :: rat) \<le> - (2 ^ 1024)" using zero_less_power [of "2 :: rat" 1024] of_nat_0_le_iff [of n, where 'a = rat]
    by linarith
  ultimately show ?thesis by (simp add: f_of_nat_def round_f64_def nearest_of_nat [OF a] Let_def not_le)
qed

text \<open>Casting back to an integer.\<close>

lemma f_to_u64_le:
  assumes "0 \<le> q" "q \<le> of_nat n" "n < 2 ^ 53"
  shows "unat (f_to_u64 (round_f64 q)) \<le> n"
proof -
  have "nearest q \<le> of_nat n" using nearest_mono [OF assms(1,2)] nearest_of_nat [OF assms(3)] by simp
  then have le: "\<lfloor>nearest q\<rfloor> \<le> int n" by (simp add: floor_le_iff)
  have nn: "(of_nat n :: rat) \<le> of_nat (2 ^ 53)" using assms(3) of_nat_le_iff less_imp_le by blast
  then have r: "round_f64 q = Fin (nearest q)" using assms by (intro nearest_range) simp_all
  have "int n < 2 ^ 64" using assms(3) by simp
  with le have lt: "\<lfloor>nearest q\<rfloor> < 2 ^ 64" by (rule le_less_trans)
  have "0 \<le> \<lfloor>nearest q\<rfloor>" using nearest_nonneg [OF assms(1)] by simp
  then have "unat (of_int \<lfloor>nearest q\<rfloor> :: u64) \<le> n"
    using le lt by (simp add: unat_eq_nat_uint uint_word_of_int_eq take_bit_int_eq_self nat_le_iff)
  moreover have "\<not> nearest q \<ge> 2 ^ 64" using \<open>nearest q \<le> of_nat n\<close> nn by simp
  ultimately show ?thesis by (simp add: r f_to_u64_def)
qed

lemma f_to_u64_of_nat: "n < 2 ^ 53 \<Longrightarrow> f_to_u64 (f_of_nat n) = of_nat n"
proof -
  assume n: "n < 2 ^ 53"
  then have "(of_nat n :: rat) < of_nat (2 ^ 53)" by (simp only: of_nat_less_iff)
  then have "\<not> (of_nat n :: rat) \<ge> 2 ^ 64" by simp
  then show ?thesis unfolding f_of_nat_exact [OF n] by (simp add: f_to_u64_def)
qed

lemma f_mul_one: "n < 2 ^ 53 \<Longrightarrow> f_mul (f_of_nat n) (Fin 1) = f_of_nat n"
proof -
  assume n: "n < 2 ^ 53"
  have "f_mul (Fin a) (Fin 1) = round_f64 a" for a by (simp add: f_mul_def)
  then have "f_mul (f_of_nat n) (Fin 1) = round_f64 (of_nat n)" unfolding f_of_nat_exact [OF n] .
  then show ?thesis by (simp add: f_of_nat_def)
qed

end
