(* ===== verification/Runtime_Web.thy ===== *)
theory Runtime_Web
  imports V8_Modules Vfs_Bindings Nano_Float
begin

text \<open>
  The web interfaces of scripts (\<^verbatim>\<open>src/src/runtime/apis.rs\<close>): \<^verbatim>\<open>URL\<close>, \<^verbatim>\<open>URLSearchParams\<close>, \<^verbatim>\<open>Headers\<close>, \<^verbatim>\<open>Response\<close>, \<^verbatim>\<open>Buffer\<close> and the text
  coders. Their objects keep names in ordinary JavaScript objects, so what those inherit is part of the behaviour. Two of them are
  instances of the locale \<open>named_texts\<close>. URL parsing, the text of native functions and numbers that values convert to are parameters.
\<close>

section \<open>Definitions\<close>

subsection \<open>Ordinary objects\<close>

text \<open>
  The own properties of an object in the order of creation, all texts here, and what it inherits. Assigning a text to
  \<^verbatim>\<open>__proto__\<close> does nothing. Own names are listed with the array indices first. \<open>OBJECT_PROTOTYPE\<close> is the prototype as V8
  makes it, which the model takes for unmodified: after a script has added a property to it, the lookups here would find that
  property too.
\<close>

type_synonym js_object = "(string \<times> string) list"

datatype js_prop = OwnText string | InheritedProp string

definition OBJECT_PROTOTYPE :: "string list" where
  "OBJECT_PROTOTYPE = [''constructor'', ''__defineGetter__'', ''__defineSetter__'', ''hasOwnProperty'', ''__lookupGetter__'',
     ''__lookupSetter__'', ''isPrototypeOf'', ''propertyIsEnumerable'', ''toString'', ''valueOf'', ''__proto__'', ''toLocaleString'']"

definition object_get :: "js_object \<Rightarrow> string \<Rightarrow> js_prop option" where
  "object_get ob k = (case map_of ob k of
       Some v \<Rightarrow> Some (OwnText v)
     | None \<Rightarrow> if k \<in> set OBJECT_PROTOTYPE then Some (InheritedProp k) else None)"

definition object_set :: "string \<Rightarrow> string \<Rightarrow> js_object \<Rightarrow> js_object" where
  "object_set k v ob = (if k = ''__proto__'' then ob else AList.update k v ob)"

definition index_value :: "string \<Rightarrow> nat" where
  "index_value k = foldl (\<lambda>n c. 10 * n + ((of_char c :: nat) - 48)) 0 k"

definition is_index :: "string \<Rightarrow> bool" where
  "is_index k = (show_nat (index_value k) = k \<and> index_value k < 2 ^ 32 - 1)"

definition own_entries :: "js_object \<Rightarrow> js_object" where
  "own_entries ob = sort_key (\<lambda>kv. index_value (fst kv)) (filter (\<lambda>kv. is_index (fst kv)) ob)
     @ filter (\<lambda>kv. \<not> is_index (fst kv)) ob"

text \<open>The own names of a text that was made an object: its indices.\<close>

definition text_entries :: "string \<Rightarrow> js_object" where
  "text_entries t = map (\<lambda>(i, c). (show_nat i, [c])) (List.enumerate 0 t)"

definition name_arg :: "fs_value list \<Rightarrow> nat \<Rightarrow> string" where
  "name_arg args i = (case extract_string_arg args i of Some s \<Rightarrow> s | None \<Rightarrow> [])"

subsection \<open>URLSearchParams\<close>

definition search_pair :: "string \<Rightarrow> (string \<times> string) option" where
  "search_pair pair = (case find_char (CHR ''='') pair of
       Some eq_pos \<Rightarrow> Some (take eq_pos pair, drop (Suc eq_pos) pair)
     | None \<Rightarrow> if pair \<noteq> [] then Some (pair, []) else None)"

definition search_pairs :: "string \<Rightarrow> (string \<times> string) list" where
  "search_pairs q = List.map_filter search_pair (split_on (CHR ''&'') q)"

definition usp_new :: "fs_value list \<Rightarrow> js_object" where
  "usp_new args = (case extract_string_arg args 0 of
       None \<Rightarrow> [] | Some query_string \<Rightarrow> fold (\<lambda>(k, v). object_set k v) (search_pairs query_string) [])"

definition usp_get :: "js_object \<Rightarrow> fs_value list \<Rightarrow> js_prop option" where
  "usp_get store args = (if length args < 1 then None else object_get store (name_arg args 0))"

definition usp_set :: "js_object \<Rightarrow> fs_value list \<Rightarrow> js_object" where
  "usp_set store args = (if length args < 2 then store else object_set (name_arg args 0) (name_arg args 1) store)"

definition usp_has :: "js_object \<Rightarrow> fs_value list \<Rightarrow> bool" where
  "usp_has store args = (if length args < 1 then False else object_get store (name_arg args 0) \<noteq> None)"

definition usp_delete :: "js_object \<Rightarrow> fs_value list \<Rightarrow> js_object" where
  "usp_delete store args = (if length args < 1 then store else AList.delete (name_arg args 0) store)"

text \<open>Both branches of \<^verbatim>\<open>toString\<close> give the empty text.\<close>

definition usp_tostring :: "js_object \<Rightarrow> string" where
  "usp_tostring store = []"

subsection \<open>URL\<close>

text \<open>What the URL library reads.\<close>

record url_parts =
  up_href :: string
  up_scheme :: string
  up_host :: "string option"
  up_port :: "nat option"
  up_path :: string
  up_query :: "string option"
  up_fragment :: "string option"

record js_url =
  ju_href :: string
  ju_protocol :: string
  ju_host :: string
  ju_hostname :: string
  ju_port :: string
  ju_pathname :: string
  ju_search :: string
  ju_hash :: string
  ju_search_params :: js_object

definition url_constructor :: "(string \<Rightarrow> url_parts option) \<Rightarrow> fs_value list \<Rightarrow> js_url option" where
  "url_constructor parse args =
     map_option (\<lambda>parsed.
       let hostname = (case up_host parsed of Some h \<Rightarrow> h | None \<Rightarrow> []) in
       \<lparr>ju_href = up_href parsed, ju_protocol = up_scheme parsed @ '':'',
         ju_host = (case up_port parsed of Some p \<Rightarrow> hostname @ '':'' @ show_nat p | None \<Rightarrow> hostname),
         ju_hostname = hostname,
         ju_port = (case up_port parsed of Some p \<Rightarrow> show_nat p | None \<Rightarrow> []),
         ju_pathname = up_path parsed,
         ju_search = (case up_query parsed of Some q \<Rightarrow> ''?'' @ q | None \<Rightarrow> []),
         ju_hash = (case up_fragment parsed of Some f \<Rightarrow> ''#'' @ f | None \<Rightarrow> []),
         ju_search_params = usp_new [JText (case up_query parsed of Some q \<Rightarrow> q | None \<Rightarrow> [])]\<rparr>)
       (case parse (name_arg args 0) of Some p \<Rightarrow> Some p | None \<Rightarrow> parse ''http://localhost/'')"

definition url_tostring :: "js_url \<Rightarrow> string" where
  "url_tostring u = ju_href u"

definition url_href :: "js_url \<Rightarrow> string" where
  "url_href u = ju_href u"

subsection \<open>Headers\<close>

text \<open>
  An object that is given as initial value: its own names with their values as texts, \<open>None\<close> when the conversion throws. A \<^verbatim>\<open>Headers\<close> object
  has four own names, whose values are its store and three native functions.
\<close>

type_synonym js_init = "(string \<times> string option) list"

definition plain_init :: "js_object \<Rightarrow> js_init" where
  "plain_init ob = map (\<lambda>(k, v). (k, Some v)) (own_entries ob)"

definition headers_init :: "(string \<Rightarrow> string) \<Rightarrow> js_object \<Rightarrow> js_init" where
  "headers_init native store = [(''__headers__'', Some ''[object Object]''), (''get'', Some (native ''get'')),
     (''set'', Some (native ''set'')), (''forEach'', Some (native ''forEach''))]"

definition js_headers_new :: "js_init option \<Rightarrow> js_object" where
  "js_headers_new init = (case init of
       None \<Rightarrow> []
     | Some ps \<Rightarrow> fold (\<lambda>(k, v) ob. case v of Some t \<Rightarrow> object_set (to_lowercase k) t ob | None \<Rightarrow> ob) ps [])"

definition js_headers_get :: "js_object \<Rightarrow> fs_value list \<Rightarrow> js_prop option" where
  "js_headers_get store args = object_get store (if length args > 0 then to_lowercase (name_arg args 0) else [])"

definition js_headers_set :: "js_object \<Rightarrow> fs_value list \<Rightarrow> js_object" where
  "js_headers_set store args =
     (if length args \<ge> 2 then object_set (to_lowercase (name_arg args 0)) (name_arg args 1) store else store)"

text \<open>The arguments of the calls: value and name.\<close>

definition js_headers_for_each :: "js_object \<Rightarrow> fs_value list \<Rightarrow> (string \<times> string) list" where
  "js_headers_for_each store args =
     (if is_function_arg args 0 then map (\<lambda>(k, v). (v, k)) (own_entries store) else [])"

subsection \<open>Response\<close>

text \<open>
  The options: the number of the status, \<open>None\<close> when there is none, and the headers. The headers object of a response has the copied names and its store, unless
  a copied name has replaced the store by a text.
\<close>

record response_options =
  ro_status :: "f64 option"
  ro_headers :: "js_init option"

record js_response_object =
  rj_status :: u16
  rj_store :: js_object
  rj_store_text :: "string option"
  rj_body :: string

definition f_to_u16 :: "f64 \<Rightarrow> u16" where
  "f_to_u16 x = (case x of
       Fin q \<Rightarrow> if q \<le> 0 then 0 else if q \<ge> 2 ^ 16 then - 1 else of_nat (nat \<lfloor>q\<rfloor>)
     | PInf \<Rightarrow> - 1
     | _ \<Rightarrow> 0)"

definition response_status :: "f64 option \<Rightarrow> u16" where
  "response_status st = (case st of
       Some (Fin q) \<Rightarrow> if q > 0 then f_to_u16 (Fin q) else 200
     | Some PInf \<Rightarrow> f_to_u16 PInf
     | _ \<Rightarrow> 200)"

text \<open>\<open>body\<close> is the first argument as a text, \<open>None\<close> when it is null, undefined or cannot be converted.\<close>

definition response_constructor :: "string option \<Rightarrow> response_options option \<Rightarrow> js_response_object" where
  "response_constructor body options =
     (let st = (case options of Some ro \<Rightarrow> response_status (ro_status ro) | None \<Rightarrow> 200);
          hdrs = (case options of Some ro \<Rightarrow> (case ro_headers ro of Some ps \<Rightarrow> ps | None \<Rightarrow> []) | None \<Rightarrow> []);
          copied = List.map_filter (\<lambda>(k, v). map_option (Pair k) v) hdrs
      in \<lparr>rj_status = st, rj_store = fold (\<lambda>(k, v). object_set k v) copied [],
          rj_store_text = map_of (rev copied) ''__headers__'',
          rj_body = (case body of Some s \<Rightarrow> s | None \<Rightarrow> [])\<rparr>)"

text \<open>\<^verbatim>\<open>response.headers.set\<close>: without the store it has no effect.\<close>

definition response_headers_set :: "js_response_object \<Rightarrow> fs_value list \<Rightarrow> js_response_object" where
  "response_headers_set r args =
     (if length args \<ge> 2 \<and> rj_store_text r = None
      then r\<lparr>rj_store := object_set (name_arg args 0) (name_arg args 1) (rj_store r)\<rparr> else r)"

text \<open>The response as the code that reads it sees it.\<close>

definition text_value :: "string \<Rightarrow> js_value" where
  "text_value t = \<lparr>jv_nullish = False, jv_function = False, jv_integer = None, jv_text = Some t\<rparr>"

definition response_view :: "js_response_object \<Rightarrow> js_response" where
  "response_view r = \<lparr>jr_is_object = True,
     jr_status = Some \<lparr>jv_nullish = False, jv_function = False, jv_integer = Some (uint (rj_status r)),
       jv_text = Some (show_nat (unat (rj_status r)))\<rparr>,
     jr_headers = Some (Some (map (\<lambda>(k, v). (Some k, Some (text_value v)))
       (case rj_store_text r of Some t \<Rightarrow> text_entries t | None \<Rightarrow> own_entries (rj_store r))), []),
     jr_body = Some (text_value (rj_body r))\<rparr>"

subsection \<open>Buffer and the text coders\<close>

definition hex_digit :: "char \<Rightarrow> nat option" where
  "hex_digit c = (let n = (of_char c :: nat) in
     if 48 \<le> n \<and> n \<le> 57 then Some (n - 48)
     else if 65 \<le> n \<and> n \<le> 70 then Some (n - 55)
     else if 97 \<le> n \<and> n \<le> 102 then Some (n - 87)
     else None)"

text \<open>\<^verbatim>\<open>u8::from_str_radix(pair, 16)\<close>, which accepts a leading plus.\<close>

definition hex_pair :: "char \<Rightarrow> char \<Rightarrow> 8 word option" where
  "hex_pair a b = (case hex_digit b of
       None \<Rightarrow> None
     | Some y \<Rightarrow> if a = CHR ''+'' then Some (of_nat y)
         else map_option (\<lambda>x. of_nat (16 * x + y)) (hex_digit a))"

fun hex_bytes :: "string \<Rightarrow> bytes" where
  "hex_bytes (a # b # text) = (case hex_pair a b of Some w \<Rightarrow> w # hex_bytes text | None \<Rightarrow> hex_bytes text)"
| "hex_bytes _ = []"

definition f_to_u8 :: "f64 \<Rightarrow> 8 word" where
  "f_to_u8 x = (case x of
       Fin q \<Rightarrow> if q \<le> 0 then 0 else if q \<ge> 2 ^ 8 then - 1 else of_nat (nat \<lfloor>q\<rfloor>)
     | PInf \<Rightarrow> - 1
     | _ \<Rightarrow> 0)"

text \<open>\<open>elements\<close> gives the numbers of the elements of an array, \<open>None\<close> for other values.\<close>

definition buffer_from :: "(fs_value \<Rightarrow> f64 option list option) \<Rightarrow> fs_value list \<Rightarrow> bytes" where
  "buffer_from elements args = (case arg_at args 0 of
       None \<Rightarrow> []
     | Some (JBuffer bs _) \<Rightarrow> bs
     | Some (JUint8 bs _) \<Rightarrow> bs
     | Some (JView bs _) \<Rightarrow> bs
     | Some (JText text) \<Rightarrow>
         (let encoding = (case extract_string_arg args 1 of Some enc \<Rightarrow> to_lowercase enc | None \<Rightarrow> ''utf8'')
          in if encoding = ''hex'' then hex_bytes text else string_bytes text)
     | Some v \<Rightarrow> (case elements v of
           Some ns \<Rightarrow> map (\<lambda>n. case n of Some x \<Rightarrow> f_to_u8 x | None \<Rightarrow> 0) ns
         | None \<Rightarrow> []))"

text \<open>\<open>number\<close> is the number a value converts to; sizes are the numbers' integer parts.\<close>

definition buffer_constructor :: "(fs_value \<Rightarrow> f64 option) \<Rightarrow> fs_value list \<Rightarrow> bytes" where
  "buffer_constructor number args = replicate (case arg_at args 0 of
       None \<Rightarrow> 0
     | Some v \<Rightarrow> (case number v of
           Some x \<Rightarrow> unat (f_to_u64 x)
         | None \<Rightarrow> (case to_text v of Some s \<Rightarrow> length s | None \<Rightarrow> 0))) 0"

definition number_arg :: "(fs_value \<Rightarrow> f64 option) \<Rightarrow> fs_value list \<Rightarrow> nat \<Rightarrow> f64" where
  "number_arg number args i = (case arg_at args i of
       Some v \<Rightarrow> (case number v of Some x \<Rightarrow> x | None \<Rightarrow> Fin 0) | None \<Rightarrow> Fin 0)"

definition buffer_alloc :: "(fs_value \<Rightarrow> f64 option) \<Rightarrow> fs_value list \<Rightarrow> bytes" where
  "buffer_alloc number args = replicate (unat (f_to_u64 (number_arg number args 0))) (f_to_u8 (number_arg number args 1))"

text \<open>The arguments of \<^verbatim>\<open>toString\<close> are not read.\<close>

definition buffer_tostring :: "(bytes \<Rightarrow> string) \<Rightarrow> bytes \<Rightarrow> fs_value list \<Rightarrow> string" where
  "buffer_tostring lossy bs args = lossy bs"

definition text_encode :: "fs_value list \<Rightarrow> bytes" where
  "text_encode args = string_bytes (name_arg args 0)"

definition text_decode :: "(bytes \<Rightarrow> string) \<Rightarrow> fs_value list \<Rightarrow> string" where
  "text_decode lossy args = (case arg_at args 0 of
       None \<Rightarrow> []
     | Some (JUint8 bs _) \<Rightarrow> lossy bs
     | Some (JBuffer bs _) \<Rightarrow> lossy bs
     | Some _ \<Rightarrow> lossy [])"

section \<open>Objects that keep texts under names\<close>

text \<open>The text that was last assigned under a name.\<close>

definition last_text :: "(string \<Rightarrow> string) \<Rightarrow> (string \<times> string) list \<Rightarrow> string \<Rightarrow> string option" where
  "last_text canon kvs k = map_of (rev (map (\<lambda>(k, v). (canon k, v)) (filter (\<lambda>kv. canon (fst kv) \<noteq> ''__proto__'') kvs))) (canon k)"

lemma last_text_Nil: "last_text canon [] k = None"
  by (simp add: last_text_def)

text \<open>
  The contract of \<^verbatim>\<open>URLSearchParams\<close> and \<^verbatim>\<open>Headers\<close>: assigning under a name answers for every name with the same normal form; the name
  \<^verbatim>\<open>__proto__\<close> cannot be assigned.
\<close>

locale named_texts =
  fixes canon :: "string \<Rightarrow> string"
    and lookup :: "'o \<Rightarrow> string \<Rightarrow> js_prop option"
    and assign :: "string \<Rightarrow> string \<Rightarrow> 'o \<Rightarrow> 'o"
  assumes lookup_assign: "canon k \<noteq> ''__proto__'' \<Longrightarrow>
      lookup (assign k v ob) k' = (if canon k = canon k' then Some (OwnText v) else lookup ob k')"
    and assign_proto: "canon k = ''__proto__'' \<Longrightarrow> assign k v ob = ob"
begin

lemma lookup_fold:
  "lookup (fold (\<lambda>(k, v). assign k v) kvs ob) k
     = (case last_text canon kvs k of Some v \<Rightarrow> Some (OwnText v) | None \<Rightarrow> lookup ob k)"
proof (induction kvs rule: rev_induct)
  case (snoc kv kvs)
  obtain a v where kv: "kv = (a, v)" by (cases kv)
  show ?case
  proof (cases "canon a = ''__proto__''")
    case True
    then show ?thesis using snoc by (simp add: kv assign_proto last_text_def)
  next
    case False
    then show ?thesis using snoc by (simp add: kv lookup_assign last_text_def)
  qed
qed (simp add: last_text_Nil)

end

lemma object_get_set:
  "k \<noteq> ''__proto__'' \<Longrightarrow> object_get (object_set k v ob) k' = (if k = k' then Some (OwnText v) else object_get ob k')"
  by (simp add: object_get_def object_set_def map_of_alist_update)

lemma object_set_proto: "object_set ''__proto__'' v ob = ob"
  by (simp add: object_set_def)

lemma text_args [simp]:
  "name_arg (JText a # args) 0 = a" "name_arg (x # JText b # args) 1 = b" "name_arg (x # JText b # args) (Suc 0) = b"
  by (simp_all add: name_arg_def extract_string_arg_def arg_at_def)

interpretation usp: named_texts "\<lambda>k. k" "\<lambda>ob k. usp_get ob [JText k]" "\<lambda>k v ob. usp_set ob [JText k, JText v]"
  by unfold_locales (simp_all add: usp_get_def usp_set_def object_get_set object_set_proto)

interpretation hdr: named_texts to_lowercase "\<lambda>ob k. js_headers_get ob [JText k]" "\<lambda>k v ob. js_headers_set ob [JText k, JText v]"
  by unfold_locales (simp_all add: js_headers_get_def js_headers_set_def object_get_set object_set_proto)

section \<open>Queries\<close>

text \<open>
  The grammar of a query: pairs of a name without \<^verbatim>\<open>=\<close> and \<^verbatim>\<open>&\<close> and a value without \<^verbatim>\<open>&\<close>, or a name without a value. Of a name the last
  pair counts; an empty pair and the name \<^verbatim>\<open>__proto__\<close> do not.
\<close>

definition query_ok :: "(string \<times> string option) list \<Rightarrow> bool" where
  "query_ok kvs = list_all (\<lambda>(k, v). CHR ''='' \<notin> set k \<and> CHR ''&'' \<notin> set k \<and> (case v of Some t \<Rightarrow> CHR ''&'' \<notin> set t | None \<Rightarrow> True)) kvs"

definition pair_text :: "string \<times> string option \<Rightarrow> string" where
  "pair_text kv = (case snd kv of Some t \<Rightarrow> fst kv @ ''='' @ t | None \<Rightarrow> fst kv)"

definition query_text :: "(string \<times> string option) list \<Rightarrow> string" where
  "query_text kvs = join_with ''&'' (map pair_text kvs)"

definition query_value :: "(string \<times> string option) list \<Rightarrow> string \<Rightarrow> string option" where
  "query_value kvs n = (if n = ''__proto__'' then None
     else case filter (\<lambda>kv. fst kv = n \<and> kv \<noteq> ([], None)) (rev kvs) of
         [] \<Rightarrow> None
       | kv # _ \<Rightarrow> Some (case snd kv of Some t \<Rightarrow> t | None \<Rightarrow> []))"

lemma search_pair_text:
  assumes "CHR ''='' \<notin> set k"
  shows "search_pair (pair_text (k, v)) = (if (k, v) = ([], None) then None else Some (k, case v of Some t \<Rightarrow> t | None \<Rightarrow> []))"
proof (cases v)
  case None
  moreover have "find_char (CHR ''='') k = None" using assms by (simp add: find_char_None)
  ultimately show ?thesis by (simp add: search_pair_def pair_text_def)
next
  case (Some t)
  have "find_char (CHR ''='') (k @ ''='' @ t) = Some (length k)" using assms by (simp add: find_char_append)
  then show ?thesis by (simp add: search_pair_def pair_text_def Some)
qed

lemma search_pairs_text:
  assumes "query_ok kvs"
  shows "search_pairs (query_text kvs) = map (\<lambda>(k, v). (k, case v of Some t \<Rightarrow> t | None \<Rightarrow> [])) (filter (\<lambda>kv. kv \<noteq> ([], None)) kvs)"
proof (cases "kvs = []")
  case True
  then show ?thesis by (simp add: query_text_def search_pairs_def search_pair_def List.map_filter_simps)
next
  case False
  have "\<forall>x \<in> set (map pair_text kvs). CHR ''&'' \<notin> set x"
    using assms by (auto simp: query_ok_def list_all_iff pair_text_def split: option.split)
  then have "split_on (CHR ''&'') (query_text kvs) = map pair_text kvs"
    unfolding query_text_def using False by (intro split_join) simp_all
  moreover have "List.map_filter search_pair (map pair_text kvs)
      = map (\<lambda>(k, v). (k, case v of Some t \<Rightarrow> t | None \<Rightarrow> [])) (filter (\<lambda>kv. kv \<noteq> ([], None)) kvs)"
    using assms by (induction kvs) (auto simp: query_ok_def search_pair_text List.map_filter_simps split: option.split if_splits)
  ultimately show ?thesis by (simp add: search_pairs_def)
qed

lemma last_text_query:
  assumes "query_ok kvs"
  shows "last_text (\<lambda>k. k) (search_pairs (query_text kvs)) n = query_value kvs n"
proof (cases "n = ''__proto__''")
  case True
  then show ?thesis by (auto simp: last_text_def query_value_def map_of_eq_None_iff)
next
  case False
  have "last_text (\<lambda>k. k) (map (\<lambda>(k, v). (k, case v of Some t \<Rightarrow> t | None \<Rightarrow> [])) (filter (\<lambda>kv. kv \<noteq> ([], None)) kvs)) n = query_value kvs n"
  proof (induction kvs rule: rev_induct)
    case (snoc kv kvs)
    then show ?case using False by (cases kv) (auto simp: last_text_def query_value_def)
  qed (simp add: last_text_def query_value_def False)
  then show ?thesis unfolding search_pairs_text [OF assms] .
qed

lemma query_exists: "\<exists>kvs. query_ok kvs \<and> query_text kvs = q"
proof -
  let ?f = "\<lambda>p. case find_char (CHR ''='') p of Some i \<Rightarrow> (take i p, Some (drop (Suc i) p)) | None \<Rightarrow> (p, None)"
  have t: "pair_text (?f p) = p" for p using find_char_Some [of "CHR ''=''" p] by (auto simp: pair_text_def split: option.split)
  have "query_text (map ?f (split_on (CHR ''&'') q)) = q" by (simp add: query_text_def o_def t)
  moreover have "case ?f p of (k, v) \<Rightarrow> CHR ''='' \<notin> set k \<and> CHR ''&'' \<notin> set k \<and> (case v of Some t \<Rightarrow> CHR ''&'' \<notin> set t | None \<Rightarrow> True)"
    if "p \<in> set (split_on (CHR ''&'') q)" for p
    using split_on_no_sep [OF that] find_char_None [of "CHR ''=''" p] find_char_Some [of "CHR ''=''" p]
    by (auto dest: in_set_takeD in_set_dropD split: option.split)
  ultimately show ?thesis by (intro exI [of _ "map ?f (split_on (CHR ''&'') q)"]) (auto simp: query_ok_def list_all_iff)
qed

section \<open>Copied headers\<close>

lemma map_filter_Some_pairs: "List.map_filter (\<lambda>(k, v). map_option (Pair k) v) (map (\<lambda>(k, v). (k, Some v)) xs) = xs"
  by (induction xs) (auto simp: List.map_filter_simps)

lemma fold_object_set:
  "\<lbrakk>distinct (map fst (acc @ kvs)); ''__proto__'' \<notin> fst ` set kvs\<rbrakk> \<Longrightarrow> fold (\<lambda>(k, v). object_set k v) kvs acc = acc @ kvs"
proof (induction kvs arbitrary: acc)
  case (Cons kv kvs)
  obtain k v where kv: "kv = (k, v)" by (cases kv)
  have "AList.update k v acc = acc @ [(k, v)]" using Cons.prems(1) by (intro alist_update_new) (simp add: kv map_of_eq_None_iff)
  then show ?case using Cons.IH [of "acc @ [(k, v)]"] Cons.prems by (auto simp: kv object_set_def)
qed simp

lemma set_own_entries: "set (own_entries ob) = set ob"
  by (auto simp: own_entries_def)

lemma distinct_own_entries: "distinct (map fst ob) \<Longrightarrow> distinct (map fst (own_entries ob))"
  unfolding own_entries_def
  by (auto simp: distinct_map inj_on_def map_filter_def filter_map dest: distinct_filter)

lemma own_entries_idem: "own_entries (own_entries ob) = own_entries ob"
  unfolding own_entries_def by (simp add: filter_sort sort_key_id_if_sorted)

lemma copied_headers:
  assumes "distinct (map fst ob)" "''__proto__'' \<notin> fst ` set ob"
  shows "fold (\<lambda>(k, v). object_set k v) (own_entries ob) [] = own_entries ob"
  using fold_object_set [of "[]" "own_entries ob"] assms by (simp add: distinct_own_entries set_own_entries)

lemma header_property_text:
  "header_property (Some k, Some (text_value v)) =
     (if starts_with k ''__'' \<or> k \<in> {''set'', ''get'', ''forEach''} then None else Some (k, v))"
  by (auto simp: header_property_def text_value_def)

lemma header_properties_texts:
  "List.map_filter header_property (map (\<lambda>(k, v). (Some k, Some (text_value v))) kvs)
     = filter (\<lambda>kv. \<not> (starts_with (fst kv) ''__'' \<or> fst kv \<in> {''set'', ''get'', ''forEach''})) kvs"
  by (induction kvs) (auto simp: List.map_filter_simps header_property_text)

text \<open>The hexadecimal text of bytes.\<close>

definition hex_char :: "nat \<Rightarrow> char" where
  "hex_char n = (if n < 10 then char_of (48 + n) else char_of (87 + n))"

definition hex_text :: "bytes \<Rightarrow> string" where
  "hex_text bs = concat (map (\<lambda>w. [hex_char (unat w div 16), hex_char (unat w mod 16)]) bs)"

lemma hex_digit_char: "n < 16 \<Longrightarrow> hex_digit (hex_char n) = Some n \<and> hex_char n \<noteq> CHR ''+''"
proof -
  assume n: "n < 16"
  have o: "(of_char (hex_char n) :: nat) = (if n < 10 then 48 + n else 87 + n)" using n by (simp add: hex_char_def)
  then have "(of_char (hex_char n) :: nat) \<noteq> of_char CHR ''+''" by simp
  then have "hex_char n \<noteq> CHR ''+''" by metis
  then show ?thesis using n o by (simp add: hex_digit_def Let_def)
qed

lemma hex_bytes_text: "hex_bytes (hex_text bs) = bs"
proof (induction bs)
  case (Cons w bs)
  have "unat w < 256" using unsigned_less [of w] by simp
  then have "hex_digit (hex_char (unat w div 16)) = Some (unat w div 16)" "hex_char (unat w div 16) \<noteq> CHR ''+''"
    "hex_digit (hex_char (unat w mod 16)) = Some (unat w mod 16)"
    using hex_digit_char [of "unat w div 16"] hex_digit_char [of "unat w mod 16"] by simp_all
  moreover have "of_nat (16 * (unat w div 16) + unat w mod 16) = w" by simp
  ultimately have "hex_pair (hex_char (unat w div 16)) (hex_char (unat w mod 16)) = Some w"
    unfolding hex_pair_def by (simp del: of_nat_add of_nat_mult)
  then show ?case using Cons by (simp add: hex_text_def)
qed (simp add: hex_text_def)

section \<open>Properties\<close>

text \<open>
  C35. What a script reads from its query, with the prototype of objects as V8 makes it. Every text is a query of the grammar. A parameter has the text of the last pair with its name,
  as it is written, without decoding. A name that the query does not have is still answered, as present, if all objects inherit it, for example
  \<^verbatim>\<open>constructor\<close>. A leading question mark belongs to the first name, so that the example of the documentation finds nothing under
  the name itself. The conversion to a string is always empty.
\<close>

theorem search_params_exact:
  assumes "query_ok kvs"
  shows "usp_get (usp_new [JText (query_text kvs)]) [JText n]
      = (case query_value kvs n of
           Some v \<Rightarrow> Some (OwnText v)
         | None \<Rightarrow> if n \<in> set OBJECT_PROTOTYPE then Some (InheritedProp n) else None)
    \<and> usp_has (usp_new [JText (query_text kvs)]) [JText n] = (query_value kvs n \<noteq> None \<or> n \<in> set OBJECT_PROTOTYPE)
    \<and> usp_tostring (usp_new [JText (query_text kvs)]) = []
    \<and> (\<exists>kvs'. query_ok kvs' \<and> query_text kvs' = q)
    \<and> ''?'' @ query_text ((k, v) # kvs) = query_text ((''?'' @ k, v) # kvs)
    \<and> usp_get (usp_new [JText ''?foo=bar&baz=qux'']) [JText ''foo''] = None
    \<and> usp_get (usp_new [JText ''?foo=bar&baz=qux'']) [JText ''?foo''] = Some (OwnText ''bar'')"
proof -
  let ?o = "usp_new [JText (query_text kvs)]"
  have n: "usp_new [JText q] = fold (\<lambda>(k, v) ob. usp_set ob [JText k, JText v]) (search_pairs q) []" for q
    by (simp add: usp_new_def usp_set_def extract_string_arg_def arg_at_def)
  have g: "usp_get ?o [JText n]
     = (case query_value kvs n of
          Some v \<Rightarrow> Some (OwnText v)
        | None \<Rightarrow> if n \<in> set OBJECT_PROTOTYPE then Some (InheritedProp n) else None)"
    unfolding n usp.lookup_fold last_text_query [OF assms] by (simp add: usp_get_def object_get_def split: option.split)
  moreover have "usp_has ?o [JText n] = (usp_get ?o [JText n] \<noteq> None)"
    by (simp add: usp_has_def usp_get_def)
  moreover have "''?'' @ query_text ((k, v) # kvs) = query_text ((''?'' @ k, v) # kvs)"
    by (cases kvs) (simp_all add: query_text_def pair_text_def split: option.split)
  moreover have "usp_get (usp_new [JText ''?foo=bar&baz=qux'']) [JText ''foo''] = None" by code_simp
  moreover have "usp_get (usp_new [JText ''?foo=bar&baz=qux'']) [JText ''?foo''] = Some (OwnText ''bar'')" by code_simp
  ultimately show ?thesis using query_exists [of q] by (simp add: usp_tostring_def split: option.split)
qed

theorem search_params_exact_witness:
  "usp_get (usp_new [JText ''a=1&b&a=2=3'']) [JText ''a''] = Some (OwnText ''2=3'')
   \<and> usp_has (usp_new [JText ''a=1&b&a=2=3'']) [JText ''valueOf'']"
proof -
  let ?kvs = "[(''a'', Some ''1''), (''b'', None), (''a'', Some ''2=3'')]"
  have q: "query_ok ?kvs" "query_text ?kvs = ''a=1&b&a=2=3''" "query_value ?kvs ''a'' = Some ''2=3''" "''valueOf'' \<in> set OBJECT_PROTOTYPE"
    by code_simp+
  show ?thesis using search_params_exact [OF q(1), of "''a''"] search_params_exact [OF q(1), of "''valueOf''"] q(2-4) by simp
qed

text \<open>
  C34. The headers of a script's response. With a plain object the client gets its own entries, except those whose names the reading code skips,
  in the order of the object, with the body and the status. With a \<^verbatim>\<open>Headers\<close> object all its headers are lost: the copied names replace the store
  of the response by a text, whose characters become the headers.
\<close>

theorem response_headers_extracted:
  assumes "distinct (map fst ob)" "''__proto__'' \<notin> fst ` set ob" "''__headers__'' \<notin> fst ` set ob"
  shows "extract_js_response (response_view (response_constructor (Some t) (Some \<lparr>ro_status = st, ro_headers = Some (plain_init ob)\<rparr>)))
      = Inr (response_new (response_status st)
          (fold (\<lambda>(k, v). header_set k v)
            (filter (\<lambda>kv. \<not> (starts_with (fst kv) ''__'' \<or> fst kv \<in> {''set'', ''get'', ''forEach''})) (own_entries ob)) headers_new)
          (Some (string_bytes t)))
    \<and> header_properties (response_view (response_constructor (Some t) (Some \<lparr>ro_status = st, ro_headers = Some (headers_init native h)\<rparr>)))
      = text_entries ''[object Object]''"
proof
  let ?r = "response_constructor (Some t) (Some \<lparr>ro_status = st, ro_headers = Some (plain_init ob)\<rparr>)"
  have "map_of (rev (own_entries ob)) ''__headers__'' = None"
    using assms(3) by (simp add: map_of_eq_None_iff set_own_entries)
  then have r: "?r = \<lparr>rj_status = response_status st, rj_store = own_entries ob, rj_store_text = None, rj_body = t\<rparr>"
    using copied_headers [OF assms(1,2)]
    by (simp add: response_constructor_def plain_init_def map_filter_Some_pairs)
  have "header_properties (response_view ?r)
      = filter (\<lambda>kv. \<not> (starts_with (fst kv) ''__'' \<or> fst kv \<in> {''set'', ''get'', ''forEach''})) (own_entries ob)"
    by (simp add: r header_properties_def response_view_def header_properties_texts own_entries_idem)
  then show "extract_js_response (response_view ?r)
      = Inr (response_new (response_status st)
          (fold (\<lambda>(k, v). header_set k v)
            (filter (\<lambda>kv. \<not> (starts_with (fst kv) ''__'' \<or> fst kv \<in> {''set'', ''get'', ''forEach''})) (own_entries ob)) headers_new)
          (Some (string_bytes t)))"
    by (simp add: extract_js_response_def Let_def r response_view_def status_of_def text_value_def)
next
  have "filter (\<lambda>kv. \<not> (starts_with (fst kv) ''__'' \<or> fst kv \<in> {''set'', ''get'', ''forEach''})) (text_entries ''[object Object]'')
      = text_entries ''[object Object]''" by code_simp
  then show "header_properties (response_view (response_constructor (Some t) (Some \<lparr>ro_status = st, ro_headers = Some (headers_init native h)\<rparr>)))
      = text_entries ''[object Object]''"
    by (simp add: header_properties_def response_view_def response_constructor_def headers_init_def List.map_filter_simps
        header_properties_texts)
qed

theorem response_headers_extracted_witness:
  "\<exists>r. extract_js_response (response_view (response_constructor (Some ''hi'')
       (Some \<lparr>ro_status = None, ro_headers = Some (plain_init [(''X-A'', ''1'')])\<rparr>))) = Inr r
     \<and> status r = 200 \<and> resp_body r = Some [104, 105]"
proof -
  have a: "distinct (map fst [(''X-A'', ''1'')])" "''__proto__'' \<notin> fst ` set [(''X-A'', ''1'')]"
    "''__headers__'' \<notin> fst ` set [(''X-A'', ''1'')]" by code_simp+
  have "string_bytes ''hi'' = [104, 105]" by code_simp
  then show ?thesis
    using response_headers_extracted [OF a, of "''hi''" None] by (auto simp: response_new_def response_status_def)
qed

text \<open>
  Hexadecimal text. \<^verbatim>\<open>Buffer.from\<close> with the encoding \<^verbatim>\<open>hex\<close> reads back every text of hexadecimal digits, in capitals too. Of other text it
  skips the pairs it cannot read, where Node stops, and reads a plus as the first digit.
\<close>

theorem hex_decoding:
  "buffer_from elements [JText (hex_text bs), JText ''HEX''] = bs
   \<and> buffer_from elements [JText ''61zz62'', JText ''hex''] = [97, 98]
   \<and> buffer_from elements [JText ''+f'', JText ''hex''] = [15]"
proof -
  have l: "to_lowercase ''HEX'' = ''hex''" "to_lowercase ''hex'' = ''hex''" by code_simp+
  have "hex_bytes ''61zz62'' = [97, 98]" "hex_bytes ''+f'' = [15]" by code_simp+
  then show ?thesis by (simp add: buffer_from_def arg_at_def extract_string_arg_def l hex_bytes_text)
qed

end
