(* ===== verification/Web_Crypto.thy ===== *)
theory Web_Crypto
  imports Runtime_Web
begin

text \<open>
  The Web Crypto interface (\<^verbatim>\<open>src/src/runtime/crypto/\<close> and the \<^verbatim>\<open>crypto.subtle\<close> callbacks of \<^verbatim>\<open>src/src/runtime/apis.rs\<close>): keys with
  their usages and their extractable flag, import and export, the operations and their checks. The cryptographic crates, base64, JSON
  and the source of random bytes are a parameter of type \<open>crypto_env\<close>; their laws are named where a theorem needs them.
\<close>

section \<open>Definitions\<close>

subsection \<open>Keys\<close>

datatype hash_algorithm = Sha256 | Sha384 | Sha512

datatype algorithm_identifier =
    AesGcm u16
  | Hmac hash_algorithm "u32 option"
  | RsaOaep hash_algorithm
  | RsaPss hash_algorithm "u32 option"
  | RsaSsaPkcs1V1_5 hash_algorithm
  | Ecdsa string hash_algorithm
  | Ecdh string

definition algorithm_name :: "algorithm_identifier \<Rightarrow> string" where
  "algorithm_name a = (case a of
       AesGcm _ \<Rightarrow> ''AES-GCM''
     | Hmac _ _ \<Rightarrow> ''HMAC''
     | RsaOaep _ \<Rightarrow> ''RSA-OAEP''
     | RsaPss _ _ \<Rightarrow> ''RSA-PSS''
     | RsaSsaPkcs1V1_5 _ \<Rightarrow> ''RSASSA-PKCS1-v1_5''
     | Ecdsa _ _ \<Rightarrow> ''ECDSA''
     | Ecdh _ \<Rightarrow> ''ECDH'')"

definition algorithm_key_length :: "algorithm_identifier \<Rightarrow> u16 option" where
  "algorithm_key_length a = (case a of
       AesGcm n \<Rightarrow> Some n
     | Hmac _ n \<Rightarrow> map_option ucast n
     | _ \<Rightarrow> None)"

definition hash_name :: "hash_algorithm \<Rightarrow> string" where
  "hash_name h = (case h of Sha256 \<Rightarrow> ''SHA-256'' | Sha384 \<Rightarrow> ''SHA-384'' | Sha512 \<Rightarrow> ''SHA-512'')"

definition hash_output_size :: "hash_algorithm \<Rightarrow> nat" where
  "hash_output_size h = (case h of Sha256 \<Rightarrow> 32 | Sha384 \<Rightarrow> 48 | Sha512 \<Rightarrow> 64)"

definition hash_from_name :: "string \<Rightarrow> hash_algorithm option" where
  "hash_from_name s = (if s = ''SHA-256'' then Some Sha256 else if s = ''SHA-384'' then Some Sha384
     else if s = ''SHA-512'' then Some Sha512 else None)"

datatype key_usage = Encrypt | Decrypt | Sign | Verify | DeriveKey | DeriveBits | WrapKey | UnwrapKey

definition usage_str :: "key_usage \<Rightarrow> string" where
  "usage_str u = (case u of
       Encrypt \<Rightarrow> ''encrypt'' | Decrypt \<Rightarrow> ''decrypt'' | Sign \<Rightarrow> ''sign'' | Verify \<Rightarrow> ''verify''
     | DeriveKey \<Rightarrow> ''deriveKey'' | DeriveBits \<Rightarrow> ''deriveBits'' | WrapKey \<Rightarrow> ''wrapKey'' | UnwrapKey \<Rightarrow> ''unwrapKey'')"

definition usage_from_str :: "string \<Rightarrow> key_usage option" where
  "usage_from_str s = map_of (map (\<lambda>u. (usage_str u, u))
     [Encrypt, Decrypt, Sign, Verify, DeriveKey, DeriveBits, WrapKey, UnwrapKey]) s"

datatype crypto_key_handle =
    AesGcmKey bytes
  | HmacKey bytes
  | RsaPrivateKey bytes
  | RsaPublicKey bytes
  | EcdsaPrivateKey bytes
  | EcdsaPublicKey bytes

definition handle_bytes :: "crypto_key_handle \<Rightarrow> bytes" where
  "handle_bytes h = (case h of AesGcmKey bs \<Rightarrow> bs | HmacKey bs \<Rightarrow> bs | RsaPrivateKey bs \<Rightarrow> bs | RsaPublicKey bs \<Rightarrow> bs
     | EcdsaPrivateKey bs \<Rightarrow> bs | EcdsaPublicKey bs \<Rightarrow> bs)"

definition handle_algorithm_type :: "crypto_key_handle \<Rightarrow> string" where
  "handle_algorithm_type h = (case h of AesGcmKey _ \<Rightarrow> ''AES-GCM'' | HmacKey _ \<Rightarrow> ''HMAC'' | RsaPrivateKey _ \<Rightarrow> ''RSA''
     | RsaPublicKey _ \<Rightarrow> ''RSA'' | EcdsaPrivateKey _ \<Rightarrow> ''ECDSA'' | EcdsaPublicKey _ \<Rightarrow> ''ECDSA'')"

record crypto_key =
  ck_handle :: crypto_key_handle
  ck_algorithm :: algorithm_identifier
  ck_extractable :: bool
  ck_usages :: "key_usage list"

definition crypto_key_new :: "crypto_key_handle \<Rightarrow> algorithm_identifier \<Rightarrow> bool \<Rightarrow> key_usage list \<Rightarrow> crypto_key" where
  "crypto_key_new h a x us = \<lparr>ck_handle = h, ck_algorithm = a, ck_extractable = x, ck_usages = us\<rparr>"

definition key_type :: "crypto_key \<Rightarrow> string" where
  "key_type k = (case ck_handle k of AesGcmKey _ \<Rightarrow> ''secret'' | HmacKey _ \<Rightarrow> ''secret'' | RsaPrivateKey _ \<Rightarrow> ''private''
     | RsaPublicKey _ \<Rightarrow> ''public'' | EcdsaPrivateKey _ \<Rightarrow> ''private'' | EcdsaPublicKey _ \<Rightarrow> ''public'')"

definition has_usage :: "crypto_key \<Rightarrow> key_usage \<Rightarrow> bool" where
  "has_usage k u = (u \<in> set (ck_usages k))"

definition can_use :: "crypto_key \<Rightarrow> key_usage \<Rightarrow> bool" where
  "can_use k u = has_usage k u"

definition new_rsa_private :: "algorithm_identifier \<Rightarrow> bytes \<Rightarrow> bool \<Rightarrow> key_usage list \<Rightarrow> crypto_key" where
  "new_rsa_private a bs x us = \<lparr>ck_handle = RsaPrivateKey bs, ck_algorithm = a, ck_extractable = x, ck_usages = us\<rparr>"

definition new_rsa_public :: "algorithm_identifier \<Rightarrow> bytes \<Rightarrow> bool \<Rightarrow> key_usage list \<Rightarrow> crypto_key" where
  "new_rsa_public a bs x us = \<lparr>ck_handle = RsaPublicKey bs, ck_algorithm = a, ck_extractable = x, ck_usages = us\<rparr>"

definition new_ecdsa_private :: "algorithm_identifier \<Rightarrow> bytes \<Rightarrow> bool \<Rightarrow> key_usage list \<Rightarrow> crypto_key" where
  "new_ecdsa_private a bs x us = \<lparr>ck_handle = EcdsaPrivateKey bs, ck_algorithm = a, ck_extractable = x, ck_usages = us\<rparr>"

definition new_ecdsa_public :: "algorithm_identifier \<Rightarrow> bytes \<Rightarrow> bool \<Rightarrow> key_usage list \<Rightarrow> crypto_key" where
  "new_ecdsa_public a bs x us = \<lparr>ck_handle = EcdsaPublicKey bs, ck_algorithm = a, ck_extractable = x, ck_usages = us\<rparr>"

datatype crypto_error =
    InvalidAlgorithm string
  | InvalidKey
  | OperationFailed
  | CryptoNotSupported
  | InvalidAccess
  | DataError string
  | SyntaxError string

definition error_name :: "crypto_error \<Rightarrow> string" where
  "error_name e = (case e of
       InvalidAlgorithm _ \<Rightarrow> ''NotSupportedError''
     | InvalidKey \<Rightarrow> ''InvalidAccessError''
     | OperationFailed \<Rightarrow> ''OperationError''
     | CryptoNotSupported \<Rightarrow> ''NotSupportedError''
     | InvalidAccess \<Rightarrow> ''InvalidAccessError''
     | DataError _ \<Rightarrow> ''DataError''
     | SyntaxError _ \<Rightarrow> ''SyntaxError'')"

definition crypto_error_text :: "crypto_error \<Rightarrow> string" where
  "crypto_error_text e = (case e of
       InvalidAlgorithm s \<Rightarrow> ''Invalid algorithm: '' @ s
     | InvalidKey \<Rightarrow> ''Invalid key''
     | OperationFailed \<Rightarrow> ''Operation failed''
     | CryptoNotSupported \<Rightarrow> ''Not supported''
     | InvalidAccess \<Rightarrow> ''Invalid access''
     | DataError s \<Rightarrow> ''Data error: '' @ s
     | SyntaxError s \<Rightarrow> ''Syntax error: '' @ s)"

type_synonym 'a crypto_result = "crypto_error + 'a"

record jwk_object =
  jwk_kty :: string
  jwk_alg :: "string option"
  jwk_k :: "string option"
  jwk_ext :: "bool option"
  jwk_key_ops :: "string list option"

definition jwk_new_symmetric :: "string \<Rightarrow> string \<Rightarrow> bool \<Rightarrow> string list \<Rightarrow> jwk_object" where
  "jwk_new_symmetric alg k extractable key_ops = \<lparr>jwk_kty = ''oct'', jwk_alg = Some alg, jwk_k = Some k,
     jwk_ext = Some extractable, jwk_key_ops = Some key_ops\<rparr>"

subsection \<open>The libraries\<close>

text \<open>
  Random bytes of a length; base64url without padding; JWK as JSON; sealing and opening with an AES-GCM key (nonce, additional data, text; the tag
  apart when sealing, at the end when opening); HMAC; SHA-2. Errors with a text are the text of the library's error. RSA keys have the types \<open>'r\<close> and \<open>'s\<close> (private, public), keys on curves \<open>'c\<close> and \<open>'d\<close>; the
  curve is named where a library of its own is used.
\<close>

record crypto_env =
  ce_random :: "nat \<Rightarrow> bytes option"
  ce_b64_encode :: "bytes \<Rightarrow> string"
  ce_b64_decode :: "string \<Rightarrow> string + bytes"
  ce_jwk_parse :: "bytes \<Rightarrow> string + jwk_object"
  ce_jwk_print :: "jwk_object \<Rightarrow> string + bytes"
  ce_seal :: "bytes \<Rightarrow> bytes \<Rightarrow> bytes \<Rightarrow> bytes \<Rightarrow> (bytes \<times> bytes) option"
  ce_open :: "bytes \<Rightarrow> bytes \<Rightarrow> bytes \<Rightarrow> bytes \<Rightarrow> bytes option"
  ce_hmac :: "hash_algorithm \<Rightarrow> bytes \<Rightarrow> bytes \<Rightarrow> bytes"
  ce_sha :: "hash_algorithm \<Rightarrow> bytes \<Rightarrow> bytes"
  ce_json :: "bytes \<Rightarrow> string + (string \<Rightarrow> string option)"

record ('r, 's, 'c, 'd) key_env =
  ce_rsa_new :: "u32 \<Rightarrow> bytes \<Rightarrow> 'r option"
  ce_rsa_pkcs8 :: "'r \<Rightarrow> bytes option"
  ce_rsa_spki :: "'s \<Rightarrow> bytes option"
  ce_rsa_read_private :: "bytes \<Rightarrow> string + 'r"
  ce_rsa_read_public :: "bytes \<Rightarrow> string + 's"
  ce_rsa_components :: "bytes \<Rightarrow> bytes \<Rightarrow> bytes \<Rightarrow> 'r option"
  ce_rsa_public_new :: "bytes \<Rightarrow> bytes \<Rightarrow> 's option"
  ce_rsa_public_of :: "'r \<Rightarrow> 's"
  ce_rsa_encrypt :: "hash_algorithm \<Rightarrow> 's \<Rightarrow> bytes \<Rightarrow> bytes option"
  ce_rsa_decrypt :: "hash_algorithm \<Rightarrow> 'r \<Rightarrow> bytes \<Rightarrow> bytes option"
  ce_pss_sign :: "'r \<Rightarrow> bytes \<Rightarrow> bytes"
  ce_pss_verify :: "'s \<Rightarrow> bytes \<Rightarrow> bytes \<Rightarrow> bool option"
  ce_pkcs_sign :: "hash_algorithm \<Rightarrow> 'r \<Rightarrow> bytes \<Rightarrow> bytes"
  ce_pkcs_verify :: "hash_algorithm \<Rightarrow> 's \<Rightarrow> bytes \<Rightarrow> bytes \<Rightarrow> bool option"
  ce_ec_new :: "string \<Rightarrow> 'c"
  ce_ec_der :: "string \<Rightarrow> 'c \<Rightarrow> bytes option"
  ce_ec_spki :: "string \<Rightarrow> 'd \<Rightarrow> bytes option"
  ce_ec_read_private :: "string \<Rightarrow> bytes \<Rightarrow> string + 'c"
  ce_ec_read_public :: "string \<Rightarrow> bytes \<Rightarrow> string + 'd"
  ce_ec_point :: "string \<Rightarrow> bytes \<Rightarrow> string + 'd"
  ce_ec_scalar :: "string \<Rightarrow> bytes \<Rightarrow> string + 'c"
  ce_ec_public_of :: "string \<Rightarrow> 'c \<Rightarrow> 'd"
  ce_ec_sign :: "string \<Rightarrow> 'c \<Rightarrow> bytes \<Rightarrow> bytes"
  ce_ec_verify :: "string \<Rightarrow> 'd \<Rightarrow> bytes \<Rightarrow> bytes \<Rightarrow> bool option"
  ce_ecdh :: "string \<Rightarrow> 'c \<Rightarrow> 'd \<Rightarrow> bytes"

text \<open>A result of a library as a result here, with its error as a text or without.\<close>

definition map_err :: "(string \<Rightarrow> crypto_error) \<Rightarrow> string + 'a \<Rightarrow> 'a crypto_result" where
  "map_err f r = (case r of Inl s \<Rightarrow> Inl (f s) | Inr x \<Rightarrow> Inr x)"

definition ok_or :: "crypto_error \<Rightarrow> 'a option \<Rightarrow> 'a crypto_result" where
  "ok_or e r = (case r of None \<Rightarrow> Inl e | Some x \<Rightarrow> Inr x)"

subsection \<open>AES-GCM\<close>

record aes_gcm_params =
  ag_iv :: bytes
  ag_additional_data :: "bytes option"
  ag_tag_length :: u16

definition aes_params_validate :: "aes_gcm_params \<Rightarrow> unit crypto_result" where
  "aes_params_validate p =
     (if ag_tag_length p \<in> {32, 64, 96, 104, 112, 120, 128} then Inr ()
      else Inl (InvalidAlgorithm (''Invalid tag length: '' @ show_nat (unat (ag_tag_length p)))))"

definition aes_generate_key ::
  "crypto_env \<Rightarrow> u16 \<Rightarrow> bool \<Rightarrow> key_usage list \<Rightarrow> crypto_key crypto_result" where
  "aes_generate_key env len extractable usages =
     bind_res (if len = 128 then Inr 16 else if len = 192 then Inr 24 else if len = 256 then Inr 32
        else Inl (InvalidAlgorithm (''Invalid AES-GCM key length: '' @ show_nat (unat len)))) (\<lambda>key_bytes.
     bind_res (ok_or OperationFailed (ce_random env key_bytes)) (\<lambda>key_material.
     Inr (crypto_key_new (AesGcmKey key_material) (AesGcm len) extractable usages)))"

definition jwk_key_material :: "crypto_env \<Rightarrow> jwk_object \<Rightarrow> bytes crypto_result" where
  "jwk_key_material env jwk = bind_res (ok_or (DataError (''Missing '' @ [CHR 0x27] @ ''k'' @ [CHR 0x27] @ '' field in JWK'')) (jwk_k jwk)) (\<lambda>k.
     map_err (\<lambda>_. DataError (''Invalid base64url encoding in JWK '' @ [CHR 0x27] @ ''k'' @ [CHR 0x27] @ '' field'')) (ce_b64_decode env k))"

definition jwk_check_kty :: "jwk_object \<Rightarrow> unit crypto_result" where
  "jwk_check_kty jwk = (if jwk_kty jwk = ''oct'' then Inr ()
     else Inl (DataError (''Invalid JWK kty: expected '' @ [CHR 0x27] @ ''oct'' @ [CHR 0x27] @ '', got '' @ [CHR 0x27] @ jwk_kty jwk @ [CHR 0x27])))"

definition aes_import_key_jwk ::
  "crypto_env \<Rightarrow> jwk_object \<Rightarrow> bool \<Rightarrow> key_usage list \<Rightarrow> crypto_key crypto_result" where
  "aes_import_key_jwk env jwk extractable usages =
     bind_res (jwk_check_kty jwk) (\<lambda>_.
     bind_res (jwk_key_material env jwk) (\<lambda>key_material.
     bind_res (case jwk_alg jwk of
         Some alg \<Rightarrow> if alg = ''A128GCM'' then Inr 128 else if alg = ''A192GCM'' then Inr 192 else if alg = ''A256GCM'' then Inr 256
           else Inl (DataError (''Unknown JWK algorithm: '' @ alg))
       | None \<Rightarrow> if length key_material = 16 then Inr 128 else if length key_material = 24 then Inr 192
           else if length key_material = 32 then Inr 256
           else Inl (DataError (''Invalid key length: '' @ show_nat (length key_material) @ '' bytes''))) (\<lambda>len.
     Inr (crypto_key_new (AesGcmKey key_material) (AesGcm len) extractable usages))))"

definition aes_export_key_jwk :: "crypto_env \<Rightarrow> crypto_key \<Rightarrow> jwk_object crypto_result" where
  "aes_export_key_jwk env k =
     (if \<not> ck_extractable k then Inl InvalidAccess
      else case ck_handle k of
          AesGcmKey key_bytes \<Rightarrow>
            bind_res (case ck_algorithm k of
                AesGcm len \<Rightarrow> if len = 128 then Inr ''A128GCM'' else if len = 192 then Inr ''A192GCM''
                  else if len = 256 then Inr ''A256GCM'' else Inl InvalidKey
              | _ \<Rightarrow> Inl InvalidKey) (\<lambda>alg.
            Inr (jwk_new_symmetric alg (ce_b64_encode env key_bytes) (ck_extractable k) (map usage_str (ck_usages k))))
        | _ \<Rightarrow> Inl InvalidKey)"

text \<open>The checks before the library is called: parameters, kind of key, usage, length, nonce. The library accepts a key of the algorithm's length and a nonce of 12 bytes.\<close>

definition aes_checked_key :: "crypto_key \<Rightarrow> aes_gcm_params \<Rightarrow> key_usage \<Rightarrow> bytes crypto_result" where
  "aes_checked_key k p u = bind_res (aes_params_validate p) (\<lambda>_. case ck_handle k of
       AesGcmKey key_bytes \<Rightarrow>
         if \<not> has_usage k u then Inl InvalidAccess
         else bind_res (case ck_algorithm k of
             AesGcm len \<Rightarrow> if len = 128 then Inr 16 else if len = 256 then Inr 32
               else if len = 192 then Inl CryptoNotSupported else Inl (InvalidAlgorithm ''Invalid AES key length'')
           | _ \<Rightarrow> Inl (InvalidAlgorithm ''Invalid AES key length'')) (\<lambda>key_len.
         if length key_bytes \<noteq> key_len then Inl OperationFailed
         else if length (ag_iv p) \<noteq> 12 then Inl (DataError ''Invalid IV length'')
         else Inr key_bytes)
     | _ \<Rightarrow> Inl InvalidKey)"

definition aad_of :: "aes_gcm_params \<Rightarrow> bytes" where
  "aad_of p = (case ag_additional_data p of Some data \<Rightarrow> data | None \<Rightarrow> [])"

definition aes_encrypt ::
  "crypto_env \<Rightarrow> crypto_key \<Rightarrow> aes_gcm_params \<Rightarrow> bytes \<Rightarrow> bytes crypto_result" where
  "aes_encrypt env k p plaintext = bind_res (aes_checked_key k p Encrypt) (\<lambda>key_bytes.
     map_sum id (\<lambda>(in_out, tag). in_out @ tag) (ok_or OperationFailed (ce_seal env key_bytes (ag_iv p) (aad_of p) plaintext)))"

definition aes_decrypt ::
  "crypto_env \<Rightarrow> crypto_key \<Rightarrow> aes_gcm_params \<Rightarrow> bytes \<Rightarrow> bytes crypto_result" where
  "aes_decrypt env k p ciphertext = bind_res (aes_checked_key k p Decrypt) (\<lambda>key_bytes.
     if length ciphertext < 16 then Inl OperationFailed
     else ok_or OperationFailed (ce_open env key_bytes (ag_iv p) (aad_of p) ciphertext))"

definition generate_iv :: "crypto_env \<Rightarrow> bytes crypto_result" where
  "generate_iv env = ok_or OperationFailed (ce_random env 12)"

subsection \<open>HMAC\<close>

record hmac_params =
  hp_hash :: hash_algorithm
  hp_length :: "u32 option"

definition hmac_default_key_length :: "hmac_params \<Rightarrow> u32" where
  "hmac_default_key_length p = (case hp_length p of
       Some len \<Rightarrow> len
     | None \<Rightarrow> (case hp_hash p of Sha256 \<Rightarrow> 256 | Sha384 \<Rightarrow> 384 | Sha512 \<Rightarrow> 512))"

definition hmac_params_validate :: "hmac_params \<Rightarrow> unit crypto_result" where
  "hmac_params_validate p =
     (let key_len = hmac_default_key_length p; min_len = of_nat (hash_output_size (hp_hash p)) * 8
      in if key_len < min_len
         then Inl (DataError (''HMAC key length '' @ show_nat (unat key_len) @ '' is less than minimum '' @ show_nat (unat min_len) @ '' bits''))
         else Inr ())"

definition hmac_generate_key ::
  "crypto_env \<Rightarrow> hash_algorithm \<Rightarrow> u32 option \<Rightarrow> bool \<Rightarrow> key_usage list \<Rightarrow> crypto_key crypto_result" where
  "hmac_generate_key env hash len extractable usages =
     (let p = \<lparr>hp_hash = hash, hp_length = len\<rparr>; key_bits = hmac_default_key_length p in
      bind_res (hmac_params_validate p) (\<lambda>_.
      bind_res (ok_or OperationFailed (ce_random env (unat (key_bits div 8)))) (\<lambda>key_material.
      Inr (crypto_key_new (HmacKey key_material) (Hmac hash (Some key_bits)) extractable usages))))"

definition hmac_jwk_hash :: "string \<Rightarrow> hash_algorithm option" where
  "hmac_jwk_hash alg = (if alg = ''HS256'' then Some Sha256 else if alg = ''HS384'' then Some Sha384
     else if alg = ''HS512'' then Some Sha512 else None)"

definition hmac_jwk_alg :: "hash_algorithm \<Rightarrow> string" where
  "hmac_jwk_alg h = (case h of Sha256 \<Rightarrow> ''HS256'' | Sha384 \<Rightarrow> ''HS384'' | Sha512 \<Rightarrow> ''HS512'')"

definition hmac_import_key_jwk ::
  "crypto_env \<Rightarrow> jwk_object \<Rightarrow> bool \<Rightarrow> key_usage list \<Rightarrow> crypto_key crypto_result" where
  "hmac_import_key_jwk env jwk extractable usages =
     bind_res (jwk_check_kty jwk) (\<lambda>_.
     bind_res (ok_or (DataError (''Missing or invalid '' @ [CHR 0x27] @ ''alg'' @ [CHR 0x27] @ '' field in JWK for HMAC''))
       (Option.bind (jwk_alg jwk) hmac_jwk_hash)) (\<lambda>hash.
     bind_res (jwk_key_material env jwk) (\<lambda>key_material.
     if length key_material < hash_output_size hash
     then Inl (DataError (''HMAC key must be at least '' @ show_nat (hash_output_size hash) @ '' bytes for '' @ hash_name hash))
     else Inr (crypto_key_new (HmacKey key_material) (Hmac hash (Some (of_nat (length key_material * 8)))) extractable usages))))"

definition hmac_export_key_jwk :: "crypto_env \<Rightarrow> crypto_key \<Rightarrow> jwk_object crypto_result" where
  "hmac_export_key_jwk env k =
     (if \<not> ck_extractable k then Inl InvalidAccess
      else case ck_handle k of
          HmacKey key_bytes \<Rightarrow>
            (case ck_algorithm k of
                Hmac hash _ \<Rightarrow> Inr (jwk_new_symmetric (hmac_jwk_alg hash) (ce_b64_encode env key_bytes) (ck_extractable k)
                   (map usage_str (ck_usages k)))
              | _ \<Rightarrow> Inl InvalidKey)
        | _ \<Rightarrow> Inl InvalidKey)"

definition hmac_checked_key :: "crypto_key \<Rightarrow> key_usage \<Rightarrow> (hash_algorithm \<times> bytes) crypto_result" where
  "hmac_checked_key k u = (case (ck_algorithm k, ck_handle k) of
       (Hmac hash _, HmacKey key_bytes) \<Rightarrow> if has_usage k u then Inr (hash, key_bytes) else Inl InvalidAccess
     | _ \<Rightarrow> Inl InvalidKey)"

definition hmac_sign :: "crypto_env \<Rightarrow> crypto_key \<Rightarrow> bytes \<Rightarrow> bytes crypto_result" where
  "hmac_sign env k data = bind_res (hmac_checked_key k Sign) (\<lambda>(hash, key_bytes). Inr (ce_hmac env hash key_bytes data))"

definition hmac_verify :: "crypto_env \<Rightarrow> crypto_key \<Rightarrow> bytes \<Rightarrow> bytes \<Rightarrow> bool crypto_result" where
  "hmac_verify env k data signature =
     bind_res (hmac_checked_key k Verify) (\<lambda>(hash, key_bytes). Inr (signature = ce_hmac env hash key_bytes data))"

subsection \<open>RSA\<close>

definition base64_decode_url_safe :: "crypto_env \<Rightarrow> string \<Rightarrow> bytes crypto_result" where
  "base64_decode_url_safe env input = map_err (\<lambda>e. DataError (''Base64 decode error: '' @ e)) (ce_b64_decode env input)"

definition rsa_algorithm :: "string \<Rightarrow> algorithm_identifier crypto_result" where
  "rsa_algorithm algorithm =
     (if algorithm = ''RSA-OAEP'' then Inr (RsaOaep Sha256)
      else if algorithm = ''RSA-PSS'' then Inr (RsaPss Sha256 None)
      else if algorithm = ''RSASSA-PKCS1-v1_5'' then Inr (RsaSsaPkcs1V1_5 Sha256)
      else Inl (InvalidAlgorithm algorithm))"

definition rsa_generate_key ::
  "('r, 's, 'c, 'd) key_env \<Rightarrow> u32 \<Rightarrow> bytes \<Rightarrow> string \<Rightarrow> bool \<Rightarrow> key_usage list \<Rightarrow> crypto_key crypto_result" where
  "rsa_generate_key kenv modulus_length public_exponent algorithm extractable usages =
     (if modulus_length < 256 then Inl (DataError ''RSA modulus length must be at least 256'')
      else bind_res (ok_or OperationFailed (ce_rsa_new kenv modulus_length public_exponent)) (\<lambda>private_key.
        bind_res (ok_or OperationFailed (ce_rsa_pkcs8 kenv private_key)) (\<lambda>private_key_bytes.
        bind_res (rsa_algorithm algorithm) (\<lambda>alg_id.
        Inr (new_rsa_private alg_id private_key_bytes extractable usages)))))"

text \<open>A string member of the JSON object.\<close>

definition json_field :: "(string \<Rightarrow> string option) \<Rightarrow> string \<Rightarrow> string crypto_result" where
  "json_field jwk name = ok_or (DataError (''Missing '' @ [CHR 0x27] @ name @ [CHR 0x27] @ '' in JWK'')) (jwk name)"

definition rsa_import_key ::
  "crypto_env \<Rightarrow> ('r, 's, 'c, 'd) key_env \<Rightarrow> string \<Rightarrow> bytes \<Rightarrow> string \<Rightarrow> bool \<Rightarrow> key_usage list \<Rightarrow> crypto_key crypto_result" where
  "rsa_import_key env kenv format key_data algorithm extractable usages = bind_res (rsa_algorithm algorithm) (\<lambda>alg_id.
     if format = ''pkcs8'' then Inr (new_rsa_private alg_id key_data extractable usages)
     else if format = ''spki'' then
       bind_res (map_err (\<lambda>e. DataError (''Failed to parse SPKI: '' @ e)) (ce_rsa_read_public kenv key_data)) (\<lambda>public_key.
       bind_res (ok_or OperationFailed (ce_rsa_spki kenv public_key)) (\<lambda>public_key_bytes.
       Inr (new_rsa_public alg_id public_key_bytes extractable usages)))
     else if format = ''jwk'' then
       bind_res (map_err (\<lambda>e. DataError (''Invalid JWK: '' @ e)) (ce_json env key_data)) (\<lambda>jwk.
       bind_res (json_field jwk ''n'') (\<lambda>n.
       bind_res (json_field jwk ''e'') (\<lambda>e.
       bind_res (base64_decode_url_safe env n) (\<lambda>modulus.
       bind_res (base64_decode_url_safe env e) (\<lambda>exponent.
       case jwk ''d'' of
           Some d \<Rightarrow>
             bind_res (base64_decode_url_safe env d) (\<lambda>private_exp.
             bind_res (ok_or OperationFailed (ce_rsa_components kenv modulus exponent private_exp)) (\<lambda>private_key.
             bind_res (ok_or OperationFailed (ce_rsa_pkcs8 kenv private_key)) (\<lambda>private_key_bytes.
             Inr (new_rsa_private alg_id private_key_bytes extractable usages))))
         | None \<Rightarrow>
             bind_res (ok_or OperationFailed (ce_rsa_public_new kenv modulus exponent)) (\<lambda>public_key.
             bind_res (ok_or OperationFailed (ce_rsa_spki kenv public_key)) (\<lambda>public_key_bytes.
             Inr (new_rsa_public alg_id public_key_bytes extractable usages))))))))
     else Inl CryptoNotSupported)"

definition rsa_export_key :: "string \<Rightarrow> crypto_key \<Rightarrow> bytes crypto_result" where
  "rsa_export_key format k = (if \<not> ck_extractable k then Inl InvalidAccess else Inl CryptoNotSupported)"

definition get_private_key :: "('r, 's, 'c, 'd) key_env \<Rightarrow> crypto_key \<Rightarrow> 'r crypto_result" where
  "get_private_key kenv k = (case ck_handle k of
       RsaPrivateKey bs \<Rightarrow> map_err (\<lambda>e. DataError (''Failed to parse RSA private key: '' @ e)) (ce_rsa_read_private kenv bs)
     | _ \<Rightarrow> Inl InvalidKey)"

definition get_public_key :: "('r, 's, 'c, 'd) key_env \<Rightarrow> crypto_key \<Rightarrow> 's crypto_result" where
  "get_public_key kenv k = (case ck_handle k of
       RsaPublicKey bs \<Rightarrow> map_err (\<lambda>e. DataError (''Failed to parse RSA public key: '' @ e)) (ce_rsa_read_public kenv bs)
     | RsaPrivateKey _ \<Rightarrow> bind_res (get_private_key kenv k) (\<lambda>private_key. Inr (ce_rsa_public_of kenv private_key))
     | _ \<Rightarrow> Inl InvalidKey)"

record rsa_oaep_params =
  op_hash :: string
  op_label :: "bytes option"

definition rsa_encrypt ::
  "('r, 's, 'c, 'd) key_env \<Rightarrow> crypto_key \<Rightarrow> bytes \<Rightarrow> rsa_oaep_params \<Rightarrow> bytes crypto_result" where
  "rsa_encrypt kenv k data p = bind_res (get_public_key kenv k) (\<lambda>public_key.
     bind_res (ok_or (InvalidAlgorithm (op_hash p)) (hash_from_name (op_hash p))) (\<lambda>oaep.
     ok_or OperationFailed (ce_rsa_encrypt kenv oaep public_key data)))"

definition rsa_decrypt ::
  "('r, 's, 'c, 'd) key_env \<Rightarrow> crypto_key \<Rightarrow> bytes \<Rightarrow> rsa_oaep_params \<Rightarrow> bytes crypto_result" where
  "rsa_decrypt kenv k data p = bind_res (get_private_key kenv k) (\<lambda>private_key.
     bind_res (ok_or (InvalidAlgorithm (op_hash p)) (hash_from_name (op_hash p))) (\<lambda>oaep.
     ok_or OperationFailed (ce_rsa_decrypt kenv oaep private_key data)))"

definition pkcs1_hash :: "crypto_key \<Rightarrow> hash_algorithm" where
  "pkcs1_hash k = (case ck_algorithm k of RsaSsaPkcs1V1_5 hash \<Rightarrow> hash | _ \<Rightarrow> Sha256)"

text \<open>The salt length of the parameters is not used by either.\<close>

definition rsa_sign ::
  "('r, 's, 'c, 'd) key_env \<Rightarrow> crypto_key \<Rightarrow> bytes \<Rightarrow> string \<Rightarrow> nat option \<Rightarrow> bytes crypto_result" where
  "rsa_sign kenv k data algorithm salt_length = bind_res (get_private_key kenv k) (\<lambda>private_key.
     if algorithm = ''RSA-PSS'' then Inr (ce_pss_sign kenv private_key data)
     else if algorithm = ''RSASSA-PKCS1-v1_5'' then Inr (ce_pkcs_sign kenv (pkcs1_hash k) private_key data)
     else Inl (InvalidAlgorithm algorithm))"

definition rsa_verify ::
  "('r, 's, 'c, 'd) key_env \<Rightarrow> crypto_key \<Rightarrow> bytes \<Rightarrow> bytes \<Rightarrow> string \<Rightarrow> nat option \<Rightarrow> bool crypto_result" where
  "rsa_verify kenv k signature data algorithm salt_length = bind_res (get_public_key kenv k) (\<lambda>public_key.
     if algorithm = ''RSA-PSS'' then ok_or (DataError ''Invalid signature'') (ce_pss_verify kenv public_key data signature)
     else if algorithm = ''RSASSA-PKCS1-v1_5''
     then ok_or (DataError ''Invalid signature'') (ce_pkcs_verify kenv (pkcs1_hash k) public_key data signature)
     else Inl (InvalidAlgorithm algorithm))"

subsection \<open>Elliptic curves\<close>

text \<open>The two branches of every operation use the crates \<^verbatim>\<open>p256\<close> and \<^verbatim>\<open>p384\<close> in the same way; the hash and the coordinate size are those of the branch.\<close>

definition curve_hash :: "string \<Rightarrow> hash_algorithm option" where
  "curve_hash named_curve = (if named_curve = ''P-256'' then Some Sha256 else if named_curve = ''P-384'' then Some Sha384 else None)"

definition coordinate_size :: "hash_algorithm \<Rightarrow> nat" where
  "coordinate_size h = (if h = Sha256 then 32 else 48)"

definition unsupported_curve :: "string \<Rightarrow> crypto_error" where
  "unsupported_curve named_curve = InvalidAlgorithm (''Unsupported named curve: '' @ named_curve)"

definition ec_algorithm :: "string \<Rightarrow> string \<Rightarrow> hash_algorithm \<Rightarrow> algorithm_identifier" where
  "ec_algorithm algorithm named_curve hash = (if algorithm = ''ECDH'' then Ecdh named_curve else Ecdsa named_curve hash)"

definition ec_generate_key ::
  "('r, 's, 'c, 'd) key_env \<Rightarrow> string \<Rightarrow> string \<Rightarrow> bool \<Rightarrow> key_usage list \<Rightarrow> crypto_key crypto_result" where
  "ec_generate_key kenv named_curve algorithm extractable usages =
     bind_res (ok_or (unsupported_curve named_curve) (curve_hash named_curve)) (\<lambda>hash.
     bind_res (ok_or OperationFailed (ce_ec_der kenv named_curve (ce_ec_new kenv named_curve))) (\<lambda>private_key_bytes.
     Inr (new_ecdsa_private (ec_algorithm algorithm named_curve hash) private_key_bytes extractable usages)))"

definition ec_import_jwk ::
  "crypto_env \<Rightarrow> ('r, 's, 'c, 'd) key_env \<Rightarrow> (string \<Rightarrow> string option) \<Rightarrow> string \<Rightarrow> string \<Rightarrow> bool \<Rightarrow> key_usage list \<Rightarrow>
   crypto_key crypto_result" where
  "ec_import_jwk env kenv jwk algorithm named_curve extractable usages =
     bind_res (json_field jwk ''crv'') (\<lambda>crv.
     if crv \<noteq> named_curve
     then Inl (DataError (''JWK curve '' @ [CHR 0x27] @ crv @ [CHR 0x27] @ '' does not match expected '' @ [CHR 0x27] @ named_curve @ [CHR 0x27]))
     else bind_res (json_field jwk ''x'') (\<lambda>x.
       bind_res (json_field jwk ''y'') (\<lambda>y.
       bind_res (base64_decode_url_safe env x) (\<lambda>x_bytes.
       bind_res (base64_decode_url_safe env y) (\<lambda>y_bytes.
       bind_res (ok_or (unsupported_curve named_curve) (curve_hash named_curve)) (\<lambda>hash.
       if length x_bytes \<noteq> coordinate_size hash \<or> length y_bytes \<noteq> coordinate_size hash
       then Inl (DataError (''Invalid '' @ named_curve @ '' JWK coordinate length''))
       else bind_res (map_err (\<lambda>e. DataError (''Invalid JWK public key: '' @ e))
           (ce_ec_point kenv named_curve (4 # x_bytes @ y_bytes))) (\<lambda>public_key.
         bind_res (ok_or OperationFailed (ce_ec_spki kenv named_curve public_key)) (\<lambda>spki_bytes.
         case jwk ''d'' of
             Some d \<Rightarrow>
               bind_res (base64_decode_url_safe env d) (\<lambda>d_bytes.
               if length d_bytes \<noteq> coordinate_size hash
               then Inl (DataError (''Invalid '' @ named_curve @ '' JWK private key length''))
               else bind_res (map_err (\<lambda>e. DataError (''Invalid JWK private key: '' @ e))
                   (ce_ec_scalar kenv named_curve d_bytes)) (\<lambda>secret_key.
                 bind_res (ok_or OperationFailed (ce_ec_der kenv named_curve secret_key)) (\<lambda>private_key_bytes.
                 Inr (new_ecdsa_private (ec_algorithm algorithm named_curve hash) private_key_bytes extractable usages))))
           | None \<Rightarrow> Inr (new_ecdsa_public (ec_algorithm algorithm named_curve hash) spki_bytes extractable usages)))))))))"

definition ec_import_key ::
  "crypto_env \<Rightarrow> ('r, 's, 'c, 'd) key_env \<Rightarrow> string \<Rightarrow> bytes \<Rightarrow> string \<Rightarrow> string \<Rightarrow> bool \<Rightarrow> key_usage list \<Rightarrow>
   crypto_key crypto_result" where
  "ec_import_key env kenv format key_data algorithm named_curve extractable usages =
     (if format = ''pkcs8'' then
        bind_res (ok_or (unsupported_curve named_curve) (curve_hash named_curve)) (\<lambda>hash.
        bind_res (map_err (\<lambda>e. DataError (''Failed to parse SEC1 key: '' @ e)) (ce_ec_read_private kenv named_curve key_data)) (\<lambda>_.
        Inr (new_ecdsa_private (ec_algorithm algorithm named_curve hash) key_data extractable usages)))
      else if format = ''spki'' then
        bind_res (ok_or (unsupported_curve named_curve) (curve_hash named_curve)) (\<lambda>hash.
        bind_res (map_err (\<lambda>e. DataError (''Failed to parse SPKI key: '' @ e)) (ce_ec_read_public kenv named_curve key_data)) (\<lambda>public_key.
        bind_res (ok_or OperationFailed (ce_ec_spki kenv named_curve public_key)) (\<lambda>spki_bytes.
        Inr (new_ecdsa_public (ec_algorithm algorithm named_curve hash) spki_bytes extractable usages))))
      else if format = ''jwk'' then
        bind_res (map_err (\<lambda>e. DataError (''Invalid JWK: '' @ e)) (ce_json env key_data)) (\<lambda>jwk.
        ec_import_jwk env kenv jwk algorithm named_curve extractable usages)
      else Inl CryptoNotSupported)"

record ecdsa_params =
  ep_named_curve :: string
  ep_hash :: hash_algorithm

text \<open>The private key of an operation, with its curve.\<close>

definition ec_private_key :: "('r, 's, 'c, 'd) key_env \<Rightarrow> crypto_key \<Rightarrow> ecdsa_params \<Rightarrow> 'c crypto_result" where
  "ec_private_key kenv k p = (case ck_handle k of
       EcdsaPrivateKey bs \<Rightarrow>
         bind_res (ok_or (InvalidAlgorithm (ep_named_curve p)) (curve_hash (ep_named_curve p))) (\<lambda>_.
         map_err (\<lambda>_. InvalidKey) (ce_ec_read_private kenv (ep_named_curve p) bs))
     | _ \<Rightarrow> Inl InvalidKey)"

definition ecdsa_sign :: "('r, 's, 'c, 'd) key_env \<Rightarrow> crypto_key \<Rightarrow> bytes \<Rightarrow> ecdsa_params \<Rightarrow> bytes crypto_result" where
  "ecdsa_sign kenv k data p = bind_res (ec_private_key kenv k p) (\<lambda>secret_key.
     Inr (ce_ec_sign kenv (ep_named_curve p) secret_key data))"

definition ecdsa_verify ::
  "('r, 's, 'c, 'd) key_env \<Rightarrow> crypto_key \<Rightarrow> bytes \<Rightarrow> bytes \<Rightarrow> ecdsa_params \<Rightarrow> bool crypto_result" where
  "ecdsa_verify kenv k signature data p = bind_res (ec_private_key kenv k p) (\<lambda>secret_key.
     ok_or (DataError ''Invalid signature'')
       (ce_ec_verify kenv (ep_named_curve p) (ce_ec_public_of kenv (ep_named_curve p) secret_key) data signature))"

definition key_curve :: "algorithm_identifier \<Rightarrow> string option" where
  "key_curve a = (case a of Ecdh named_curve \<Rightarrow> Some named_curve | Ecdsa named_curve _ \<Rightarrow> Some named_curve | _ \<Rightarrow> None)"

definition truncate_bits :: "nat option \<Rightarrow> bytes \<Rightarrow> bytes" where
  "truncate_bits len shared_secret = (case len of
       Some n \<Rightarrow> if n > 0 \<and> n < length shared_secret * 8 then take ((n + 7) div 8) shared_secret else shared_secret
     | None \<Rightarrow> shared_secret)"

definition ecdh_derive_bits ::
  "('r, 's, 'c, 'd) key_env \<Rightarrow> crypto_key \<Rightarrow> crypto_key \<Rightarrow> nat option \<Rightarrow> bytes crypto_result" where
  "ecdh_derive_bits kenv private_key public_key len = (case (ck_handle private_key, ck_handle public_key) of
       (EcdsaPrivateKey priv_bytes, EcdsaPublicKey pub_bytes) \<Rightarrow>
         bind_res (ok_or (InvalidAlgorithm ''ECDH key required'') (key_curve (ck_algorithm private_key))) (\<lambda>named_curve.
         bind_res (ok_or (InvalidAlgorithm (''Unsupported curve for ECDH: '' @ named_curve)) (curve_hash named_curve)) (\<lambda>_.
         bind_res (map_err (\<lambda>_. DataError (''Invalid '' @ named_curve @ '' private key'')) (ce_ec_read_private kenv named_curve priv_bytes)) (\<lambda>secret_key.
         bind_res (map_err (\<lambda>_. DataError (''Invalid '' @ named_curve @ '' public key'')) (ce_ec_read_public kenv named_curve pub_bytes)) (\<lambda>peer.
         Inr (truncate_bits len (ce_ecdh kenv named_curve secret_key peer))))))
     | _ \<Rightarrow> Inl InvalidKey)"

subsection \<open>The operations of SubtleCrypto\<close>

definition crypto_generate_key ::
  "crypto_env \<Rightarrow> ('r, 's, 'c, 'd) key_env \<Rightarrow> algorithm_identifier \<Rightarrow> bool \<Rightarrow> key_usage list \<Rightarrow> crypto_key crypto_result" where
  "crypto_generate_key env kenv algorithm extractable usages = (case algorithm of
       AesGcm len \<Rightarrow> aes_generate_key env len extractable usages
     | Hmac hash len \<Rightarrow> hmac_generate_key env hash len extractable usages
     | RsaOaep _ \<Rightarrow> rsa_generate_key kenv 2048 [1, 0, 1] ''RSA-OAEP'' extractable usages
     | RsaPss _ _ \<Rightarrow> rsa_generate_key kenv 2048 [1, 0, 1] ''RSA-PSS'' extractable usages
     | RsaSsaPkcs1V1_5 _ \<Rightarrow> rsa_generate_key kenv 2048 [1, 0, 1] ''RSASSA-PKCS1-v1_5'' extractable usages
     | Ecdsa named_curve _ \<Rightarrow> ec_generate_key kenv named_curve ''ECDSA'' extractable usages
     | Ecdh named_curve \<Rightarrow> ec_generate_key kenv named_curve ''ECDH'' extractable usages)"

definition jwk_from_slice :: "crypto_env \<Rightarrow> bytes \<Rightarrow> jwk_object crypto_result" where
  "jwk_from_slice env data = map_err (\<lambda>e. DataError (''Invalid JWK: '' @ e)) (ce_jwk_parse env data)"

definition crypto_import_key ::
  "crypto_env \<Rightarrow> ('r, 's, 'c, 'd) key_env \<Rightarrow> string \<Rightarrow> bytes \<Rightarrow> algorithm_identifier \<Rightarrow> bool \<Rightarrow> key_usage list \<Rightarrow>
   crypto_key crypto_result" where
  "crypto_import_key env kenv format key_data algorithm extractable usages = (case algorithm of
       AesGcm _ \<Rightarrow> if format = ''jwk''
         then bind_res (jwk_from_slice env key_data) (\<lambda>jwk. aes_import_key_jwk env jwk extractable usages) else Inl CryptoNotSupported
     | Hmac _ _ \<Rightarrow> if format = ''jwk''
         then bind_res (jwk_from_slice env key_data) (\<lambda>jwk. hmac_import_key_jwk env jwk extractable usages) else Inl CryptoNotSupported
     | RsaOaep _ \<Rightarrow> rsa_import_key env kenv format key_data ''RSA-OAEP'' extractable usages
     | RsaPss _ _ \<Rightarrow> rsa_import_key env kenv format key_data ''RSA-PSS'' extractable usages
     | RsaSsaPkcs1V1_5 _ \<Rightarrow> rsa_import_key env kenv format key_data ''RSASSA-PKCS1-v1_5'' extractable usages
     | Ecdsa named_curve _ \<Rightarrow> ec_import_key env kenv format key_data ''ECDSA'' named_curve extractable usages
     | Ecdh named_curve \<Rightarrow> ec_import_key env kenv format key_data ''ECDH'' named_curve extractable usages)"

definition crypto_export_key :: "crypto_env \<Rightarrow> string \<Rightarrow> crypto_key \<Rightarrow> bytes crypto_result" where
  "crypto_export_key env format k =
     (if \<not> ck_extractable k then Inl InvalidAccess
      else if format \<noteq> ''jwk'' then Inl CryptoNotSupported
      else bind_res (case ck_algorithm k of
          AesGcm _ \<Rightarrow> aes_export_key_jwk env k
        | Hmac _ _ \<Rightarrow> hmac_export_key_jwk env k
        | _ \<Rightarrow> Inl CryptoNotSupported) (\<lambda>jwk.
        map_err (\<lambda>e. DataError (''JWK serialization failed: '' @ e)) (ce_jwk_print env jwk)))"

text \<open>Without a nonce one is made; \<open>None\<close> is the panic when that fails.\<close>

definition iv_or_new :: "crypto_env \<Rightarrow> bytes option \<Rightarrow> bytes option" where
  "iv_or_new env iv = (case iv of Some bs \<Rightarrow> Some bs | None \<Rightarrow> (case generate_iv env of Inr bs \<Rightarrow> Some bs | Inl _ \<Rightarrow> None))"

definition gcm_128 :: "bytes \<Rightarrow> bytes option \<Rightarrow> aes_gcm_params" where
  "gcm_128 iv additional_data = \<lparr>ag_iv = iv, ag_additional_data = additional_data, ag_tag_length = 128\<rparr>"

definition crypto_encrypt ::
  "crypto_env \<Rightarrow> ('r, 's, 'c, 'd) key_env \<Rightarrow> crypto_key \<Rightarrow> bytes \<Rightarrow> bytes option \<Rightarrow> bytes option \<Rightarrow> bytes crypto_result option" where
  "crypto_encrypt env kenv k data iv additional_data = (case ck_algorithm k of
       AesGcm _ \<Rightarrow> map_option (\<lambda>iv. aes_encrypt env k (gcm_128 iv additional_data) data) (iv_or_new env iv)
     | RsaOaep hash \<Rightarrow> Some (rsa_encrypt kenv k data \<lparr>op_hash = hash_name hash, op_label = None\<rparr>)
     | a \<Rightarrow> Some (Inl (InvalidAlgorithm (''Encryption not supported for '' @ algorithm_name a))))"

definition crypto_decrypt ::
  "crypto_env \<Rightarrow> ('r, 's, 'c, 'd) key_env \<Rightarrow> crypto_key \<Rightarrow> bytes \<Rightarrow> bytes option \<Rightarrow> bytes option \<Rightarrow> bytes crypto_result" where
  "crypto_decrypt env kenv k data iv additional_data = (case ck_algorithm k of
       AesGcm _ \<Rightarrow> bind_res (ok_or (DataError ''IV is required for AES-GCM decryption'') iv) (\<lambda>iv.
         aes_decrypt env k (gcm_128 iv additional_data) data)
     | RsaOaep hash \<Rightarrow> rsa_decrypt kenv k data \<lparr>op_hash = hash_name hash, op_label = None\<rparr>
     | a \<Rightarrow> Inl (InvalidAlgorithm (''Decryption not supported for '' @ algorithm_name a)))"

definition crypto_sign ::
  "crypto_env \<Rightarrow> ('r, 's, 'c, 'd) key_env \<Rightarrow> crypto_key \<Rightarrow> bytes \<Rightarrow> bytes crypto_result" where
  "crypto_sign env kenv k data = (case ck_algorithm k of
       Hmac _ _ \<Rightarrow> hmac_sign env k data
     | RsaPss _ _ \<Rightarrow> rsa_sign kenv k data ''RSA-PSS'' (Some 32)
     | RsaSsaPkcs1V1_5 _ \<Rightarrow> rsa_sign kenv k data ''RSASSA-PKCS1-v1_5'' None
     | Ecdsa named_curve hash \<Rightarrow> ecdsa_sign kenv k data \<lparr>ep_named_curve = named_curve, ep_hash = hash\<rparr>
     | a \<Rightarrow> Inl (InvalidAlgorithm (''Signing not supported for '' @ algorithm_name a)))"

definition crypto_verify ::
  "crypto_env \<Rightarrow> ('r, 's, 'c, 'd) key_env \<Rightarrow> crypto_key \<Rightarrow> bytes \<Rightarrow> bytes \<Rightarrow> bool crypto_result" where
  "crypto_verify env kenv k signature data = (case ck_algorithm k of
       Hmac _ _ \<Rightarrow> hmac_verify env k data signature
     | RsaPss _ _ \<Rightarrow> rsa_verify kenv k signature data ''RSA-PSS'' (Some 32)
     | RsaSsaPkcs1V1_5 _ \<Rightarrow> rsa_verify kenv k signature data ''RSASSA-PKCS1-v1_5'' None
     | Ecdsa named_curve hash \<Rightarrow> ecdsa_verify kenv k signature data \<lparr>ep_named_curve = named_curve, ep_hash = hash\<rparr>
     | a \<Rightarrow> Inl (InvalidAlgorithm (''Verification not supported for '' @ algorithm_name a)))"

text \<open>\<open>upper\<close> is \<^verbatim>\<open>to_uppercase\<close>.\<close>

definition crypto_digest :: "(string \<Rightarrow> string) \<Rightarrow> crypto_env \<Rightarrow> string \<Rightarrow> bytes \<Rightarrow> bytes crypto_result" where
  "crypto_digest upper env algorithm data =
     (let normalized = upper algorithm in
      if normalized \<in> {''SHA-256'', ''SHA256''} then Inr (ce_sha env Sha256 data)
      else if normalized \<in> {''SHA-384'', ''SHA384''} then Inr (ce_sha env Sha384 data)
      else if normalized \<in> {''SHA-512'', ''SHA512''} then Inr (ce_sha env Sha512 data)
      else Inl (InvalidAlgorithm (''Digest algorithm: '' @ algorithm)))"

definition crypto_derive_bits ::
  "('r, 's, 'c, 'd) key_env \<Rightarrow> crypto_key \<Rightarrow> crypto_key \<Rightarrow> u32 option \<Rightarrow> bytes crypto_result" where
  "crypto_derive_bits kenv base_key public_key len =
     (case (key_curve (ck_algorithm base_key), key_curve (ck_algorithm public_key)) of
        (Some nc1, Some nc2) \<Rightarrow>
          if nc1 \<noteq> nc2 then Inl (InvalidAlgorithm ''Curve mismatch in ECDH key agreement'')
          else ecdh_derive_bits kenv base_key public_key (map_option unat len)
      | _ \<Rightarrow> Inl (InvalidAlgorithm ''deriveBits only supports ECDH''))"

definition crypto_derive_key ::
  "('r, 's, 'c, 'd) key_env \<Rightarrow> crypto_key \<Rightarrow> crypto_key \<Rightarrow> u16 \<Rightarrow> bool \<Rightarrow> key_usage list \<Rightarrow> crypto_key crypto_result" where
  "crypto_derive_key kenv base_key public_key derived_key_length extractable usages =
     bind_res (crypto_derive_bits kenv base_key public_key (Some (ucast derived_key_length div 8))) (\<lambda>bits.
     if length bits < unat derived_key_length div 8 then Inl OperationFailed
     else Inr (crypto_key_new (AesGcmKey (take (unat derived_key_length div 8) bits)) (AesGcm derived_key_length) extractable usages))"

definition crypto_wrap_key ::
  "crypto_env \<Rightarrow> string \<Rightarrow> crypto_key \<Rightarrow> crypto_key \<Rightarrow> bytes option \<Rightarrow> bytes crypto_result option" where
  "crypto_wrap_key env format k wrapping_key iv =
     (case (if format = ''raw'' then (case ck_handle k of AesGcmKey bs \<Rightarrow> Inr bs | HmacKey bs \<Rightarrow> Inr bs | _ \<Rightarrow> Inl InvalidKey)
            else if format = ''jwk'' then crypto_export_key env format k
            else Inl CryptoNotSupported) of
        Inl e \<Rightarrow> Some (Inl e)
      | Inr key_bytes \<Rightarrow> map_option (\<lambda>iv. aes_encrypt env wrapping_key (gcm_128 iv None) key_bytes) (iv_or_new env iv))"

definition crypto_unwrap_key ::
  "crypto_env \<Rightarrow> ('r, 's, 'c, 'd) key_env \<Rightarrow> string \<Rightarrow> bytes \<Rightarrow> crypto_key \<Rightarrow> algorithm_identifier \<Rightarrow> bool \<Rightarrow> key_usage list \<Rightarrow>
   bytes option \<Rightarrow> crypto_key crypto_result" where
  "crypto_unwrap_key env kenv format wrapped_key unwrapping_key unwrapped_key_algorithm extractable usages iv =
     bind_res (ok_or (DataError ''IV is required for AES-GCM unwrap'') iv) (\<lambda>iv.
     bind_res (aes_decrypt env unwrapping_key (gcm_128 iv None) wrapped_key) (\<lambda>decrypted.
     let symmetric = (\<lambda>alg. jwk_new_symmetric alg (ce_b64_encode env decrypted) extractable (map usage_str usages));
         import_again = crypto_import_key env kenv format decrypted unwrapped_key_algorithm extractable usages
     in case unwrapped_key_algorithm of
         AesGcm _ \<Rightarrow> if format = ''raw'' then aes_import_key_jwk env (symmetric ''A256GCM'') extractable usages else import_again
       | Hmac hash _ \<Rightarrow> if format = ''raw'' then hmac_import_key_jwk env (symmetric (hmac_jwk_alg hash)) extractable usages
           else import_again
       | _ \<Rightarrow> import_again))"

section \<open>Laws of the libraries\<close>

text \<open>Decoding inverts encoding, parsing inverts printing, opening what was sealed gives the text back; a tag has 16 bytes; random bytes have the length asked for.\<close>

definition base64_law :: "crypto_env \<Rightarrow> bool" where
  "base64_law env \<longleftrightarrow> (\<forall>bs. ce_b64_decode env (ce_b64_encode env bs) = Inr bs)"

definition jwk_law :: "crypto_env \<Rightarrow> bool" where
  "jwk_law env \<longleftrightarrow> (\<forall>jwk bs. ce_jwk_print env jwk = Inr bs \<longrightarrow> ce_jwk_parse env bs = Inr jwk)"

definition aead_law :: "crypto_env \<Rightarrow> bool" where
  "aead_law env \<longleftrightarrow> (\<forall>key iv aad pt c t. ce_seal env key iv aad pt = Some (c, t) \<longrightarrow>
     length t = 16 \<and> ce_open env key iv aad (c @ t) = Some pt)"

definition random_law :: "crypto_env \<Rightarrow> bool" where
  "random_law env \<longleftrightarrow> (\<forall>n bs. ce_random env n = Some bs \<longrightarrow> length bs = n)"

text \<open>A symmetric key whose material fits its algorithm.\<close>

definition symmetric_key_ok :: "crypto_key \<Rightarrow> bool" where
  "symmetric_key_ok k = (case (ck_algorithm k, ck_handle k) of
       (AesGcm n, AesGcmKey bs) \<Rightarrow> n \<in> {128, 192, 256} \<and> unat n = 8 * length bs
     | (Hmac h n, HmacKey bs) \<Rightarrow> hash_output_size h \<le> length bs \<and> n = Some (of_nat (length bs * 8))
     | _ \<Rightarrow> False)"

section \<open>Lemmas\<close>

lemma result_Inr [simp]:
  "map_err f r = Inr x \<longleftrightarrow> r = Inr x"
  "ok_or e q = Inr x \<longleftrightarrow> q = Some x"
  by (auto simp: map_err_def ok_or_def split: sum.splits option.splits)

lemma result_simps [simp]:
  "map_err f (Inr x) = Inr x" "map_err f (Inl s) = Inl (f s)" "ok_or e None = Inl e" "ok_or e (Some x) = Inr x"
  by (simp_all add: map_err_def ok_or_def)

lemma aes_checked_key_Inr:
  "aes_checked_key k p u = Inr bs \<longleftrightarrow>
     aes_params_validate p = Inr () \<and> ck_handle k = AesGcmKey bs \<and> has_usage k u \<and> length (ag_iv p) = 12 \<and>
     (ck_algorithm k = AesGcm 128 \<and> length bs = 16 \<or> ck_algorithm k = AesGcm 256 \<and> length bs = 32)"
  by (auto simp: aes_checked_key_def bind_res_Inr split: crypto_key_handle.splits algorithm_identifier.splits if_splits)

lemma aes_checked_key_other_usage:
  "aes_checked_key k p u = Inr bs \<Longrightarrow> aes_checked_key k p v = (if has_usage k v then Inr bs else Inl InvalidAccess)"
  by (drule aes_checked_key_Inr [THEN iffD1]) (auto simp: aes_checked_key_def)

lemma sealed_opens:
  assumes "aead_law env" "aes_encrypt env k p pt = Inr c"
  shows "aes_decrypt env k p c = (if has_usage k Decrypt then Inr pt else Inl InvalidAccess)"
proof -
  from assms(2) obtain bs ct t where bs: "aes_checked_key k p Encrypt = Inr bs"
    and sealed: "ce_seal env bs (ag_iv p) (aad_of p) pt = Some (ct, t)" and c: "c = ct @ t"
    by (auto simp: aes_encrypt_def bind_res_Inr ok_or_def split: option.splits)
  from assms(1) sealed have "length t = 16" "ce_open env bs (ag_iv p) (aad_of p) (ct @ t) = Some pt"
    by (auto simp: aead_law_def)
  then show ?thesis using aes_checked_key_other_usage [OF bs, of Decrypt] c by (auto simp: aes_decrypt_def)
qed

lemma aes_encrypt_algorithm: "aes_encrypt env k p pt = Inr c \<Longrightarrow> \<exists>n. ck_algorithm k = AesGcm n"
  by (auto simp: aes_encrypt_def bind_res_Inr aes_checked_key_Inr)

lemma hmac_jwk_hash_alg [simp]: "hmac_jwk_hash (hmac_jwk_alg h) = Some h"
  by (cases h) (simp_all add: hmac_jwk_hash_def hmac_jwk_alg_def)

lemma jwk_new_symmetric_simps [simp]:
  "jwk_check_kty (jwk_new_symmetric alg k x ops) = Inr ()" "jwk_alg (jwk_new_symmetric alg k x ops) = Some alg"
  "base64_law env \<Longrightarrow> jwk_key_material env (jwk_new_symmetric alg (ce_b64_encode env bs) x ops) = Inr bs"
  by (simp_all add: jwk_check_kty_def jwk_new_symmetric_def jwk_key_material_def base64_law_def)

lemma aes_jwk_back:
  assumes "base64_law env" "symmetric_key_ok k" "ck_algorithm k = AesGcm n" "aes_export_key_jwk env k = Inr jwk"
  shows "aes_import_key_jwk env jwk x us = Inr (k\<lparr>ck_extractable := x, ck_usages := us\<rparr>)"
  using assms by (cases k) (auto simp: symmetric_key_ok_def aes_export_key_jwk_def aes_import_key_jwk_def crypto_key_new_def
    split: crypto_key_handle.splits if_splits)

lemma hmac_jwk_back:
  assumes "base64_law env" "symmetric_key_ok k" "ck_algorithm k = Hmac h n" "hmac_export_key_jwk env k = Inr jwk"
  shows "hmac_import_key_jwk env jwk x us = Inr (k\<lparr>ck_extractable := x, ck_usages := us\<rparr>)"
  using assms by (cases k) (auto simp: symmetric_key_ok_def hmac_export_key_jwk_def hmac_import_key_jwk_def crypto_key_new_def
    split: crypto_key_handle.splits if_splits)

lemma length_truncate_bits:
  assumes "0 < n" shows "length (truncate_bits (Some n) ss) \<le> (n + 7) div 8"
  using assms by (auto simp: truncate_bits_def)


lemma derived_key_Inl:
  assumes "16 \<le> unat len"
  shows "\<exists>e. crypto_derive_key kenv base public len x us = Inl e"
proof (cases "crypto_derive_bits kenv base public (Some (ucast len div 8))")
  case (Inl e) then show ?thesis by (simp add: crypto_derive_key_def)
next
  case (Inr bits)
  define n where "n = unat (ucast len div 8 :: u32)"
  have n: "n = unat len div 8"
  proof -
    have "unat len < 2 ^ 32" using unsigned_less [of len, where ?'a = nat] by simp
    then show ?thesis by (simp add: n_def unat_div unsigned_ucast_eq take_bit_nat_eq_self)
  qed
  have n2: "2 \<le> n" using assms n by linarith
  obtain ss where "bits = truncate_bits (Some n) ss"
    using Inr by (auto simp: crypto_derive_bits_def ecdh_derive_bits_def bind_res_Inr n_def
      split: option.splits if_splits crypto_key_handle.splits)
  then have "length bits \<le> (n + 7) div 8" using n2 by (simp add: length_truncate_bits)
  then have "length bits < n" using n2 by linarith
  then show ?thesis using Inr n by (simp add: crypto_derive_key_def)
qed

section \<open>Properties\<close>

text \<open>Which keys generation makes: material that fits the algorithm, if the number of bits is a multiple of 8.\<close>

lemma generated_keys_ok:
  assumes "random_law env" "crypto_generate_key env kenv a x us = Inr k"
    "case a of AesGcm _ \<Rightarrow> True | Hmac _ n \<Rightarrow> (\<forall>m. n = Some m \<longrightarrow> 8 dvd unat m) | _ \<Rightarrow> False"
  shows "symmetric_key_ok k"
proof (cases a)
  case (AesGcm n)
  with assms show ?thesis
    by (auto simp: crypto_generate_key_def aes_generate_key_def bind_res_Inr symmetric_key_ok_def crypto_key_new_def random_law_def
      split: if_splits)
next
  case (Hmac h n)
  define b where "b = hmac_default_key_length \<lparr>hp_hash = h, hp_length = n\<rparr>"
  have d: "8 dvd unat b"
    using assms(3) Hmac by (cases n; cases h) (auto simp: b_def hmac_default_key_length_def)
  obtain bs where k: "k = crypto_key_new (HmacKey bs) (Hmac h (Some b)) x us" and len: "length bs = unat b div 8"
    and m: "\<not> b < of_nat (hash_output_size h) * 8"
    using assms(1,2) Hmac
    by (auto simp: crypto_generate_key_def hmac_generate_key_def hmac_params_validate_def Let_def bind_res_Inr b_def random_law_def
      unat_div split: if_splits)
  have "hash_output_size h \<le> unat b div 8"
    using m by (cases h) (auto simp: hash_output_size_def word_less_nat_alt not_less)
  moreover have "of_nat (unat b div 8 * 8) = b" using d by (simp add: dvd_div_mult_self)
  ultimately show ?thesis using len by (simp add: k symmetric_key_ok_def crypto_key_new_def)
qed (use assms in auto)

text \<open>For example zero bytes as random bytes, texts with the same codes as base64, texts next to a constant tag as sealed ones.\<close>

definition crypto_sample :: "jwk_object \<Rightarrow> crypto_env" where
  "crypto_sample jwk = \<lparr>ce_random = \<lambda>n. Some (replicate n 0),
     ce_b64_encode = map (\<lambda>w. char_of (unat w)), ce_b64_decode = (\<lambda>s. Inr (map (\<lambda>c. of_nat (of_char c)) s)),
     ce_jwk_parse = (\<lambda>bs. if bs = string_bytes ''{}'' then Inr jwk else Inl ''unknown''),
     ce_jwk_print = (\<lambda>j. if j = jwk then Inr (string_bytes ''{}'') else Inl ''unknown''),
     ce_seal = (\<lambda>key iv aad pt. Some (pt, replicate 16 0)), ce_open = (\<lambda>key iv aad c. Some (take (length c - 16) c)),
     ce_hmac = (\<lambda>h key data. replicate (hash_output_size h) 0), ce_sha = (\<lambda>h data. replicate (hash_output_size h) 0),
     ce_json = (\<lambda>bs. Inl ''unknown'')\<rparr>"

lemma crypto_sample_laws:
  "base64_law (crypto_sample jwk)" "jwk_law (crypto_sample jwk)" "aead_law (crypto_sample jwk)" "random_law (crypto_sample jwk)"
proof -
  have "of_nat (of_char (char_of (unat w) :: char)) = w" for w :: "8 word"
    using unsigned_less [of w, where ?'a = nat] by (simp add: take_bit_nat_eq_self)
  then show "base64_law (crypto_sample jwk)" by (simp add: base64_law_def crypto_sample_def comp_def)
qed (auto simp: jwk_law_def aead_law_def random_law_def crypto_sample_def)

definition no_keys :: "(unit, unit, unit, unit) key_env" where
  "no_keys = \<lparr>ce_rsa_new = (\<lambda>_ _. None), ce_rsa_pkcs8 = (\<lambda>_. None), ce_rsa_spki = (\<lambda>_. None),
     ce_rsa_read_private = (\<lambda>_. Inl ''no key''), ce_rsa_read_public = (\<lambda>_. Inl ''no key''), ce_rsa_components = (\<lambda>_ _ _. None),
     ce_rsa_public_new = (\<lambda>_ _. None), ce_rsa_public_of = (\<lambda>_. ()), ce_rsa_encrypt = (\<lambda>_ _ _. None), ce_rsa_decrypt = (\<lambda>_ _ _. None),
     ce_pss_sign = (\<lambda>_ _. []), ce_pss_verify = (\<lambda>_ _ _. None), ce_pkcs_sign = (\<lambda>_ _ _. []), ce_pkcs_verify = (\<lambda>_ _ _ _. None),
     ce_ec_new = (\<lambda>_. ()), ce_ec_der = (\<lambda>_ _. None), ce_ec_spki = (\<lambda>_ _. None), ce_ec_read_private = (\<lambda>_ _. Inl ''no key''),
     ce_ec_read_public = (\<lambda>_ _. Inl ''no key''), ce_ec_point = (\<lambda>_ _. Inl ''no key''), ce_ec_scalar = (\<lambda>_ _. Inl ''no key''),
     ce_ec_public_of = (\<lambda>_ _. ()), ce_ec_sign = (\<lambda>_ _ _. []), ce_ec_verify = (\<lambda>_ _ _ _. None), ce_ecdh = (\<lambda>_ _ _. [])\<rparr>"

text \<open>
  A symmetric key whose material fits its algorithm, exported as JSON and imported again, is the same key, with the
  flag and the usages that the import asks for.
\<close>

theorem jwk_roundtrip:
  assumes "base64_law env" "jwk_law env" "symmetric_key_ok k" "crypto_export_key env ''jwk'' k = Inr data"
  shows "crypto_import_key env kenv ''jwk'' data (ck_algorithm k) x us = Inr (k\<lparr>ck_extractable := x, ck_usages := us\<rparr>)"
proof -
  have law: "ce_jwk_print env jwk = Inr bs \<Longrightarrow> ce_jwk_parse env bs = Inr jwk" for jwk bs
    using assms(2) by (simp add: jwk_law_def)
  show ?thesis
  proof (cases "ck_algorithm k")
    case (AesGcm n)
    with assms(4) obtain jwk where j: "aes_export_key_jwk env k = Inr jwk" "ce_jwk_print env jwk = Inr data"
      by (auto simp: crypto_export_key_def bind_res_Inr split: if_splits)
    with aes_jwk_back [OF assms(1,3) AesGcm j(1), of x us] AesGcm show ?thesis
      by (simp add: crypto_import_key_def jwk_from_slice_def law)
  next
    case (Hmac h n)
    with assms(4) obtain jwk where j: "hmac_export_key_jwk env k = Inr jwk" "ce_jwk_print env jwk = Inr data"
      by (auto simp: crypto_export_key_def bind_res_Inr split: if_splits)
    with hmac_jwk_back [OF assms(1,3) Hmac j(1), of x us] Hmac show ?thesis
      by (simp add: crypto_import_key_def jwk_from_slice_def law)
  qed (use assms(3) in \<open>auto simp: symmetric_key_ok_def\<close>)
qed

definition sample_aes_key :: crypto_key where
  "sample_aes_key = crypto_key_new (AesGcmKey (replicate 16 7)) (AesGcm 128) True [Encrypt, Decrypt]"

theorem jwk_roundtrip_witness:
  "\<exists>jwk data. crypto_import_key (crypto_sample jwk) no_keys ''jwk'' data (ck_algorithm sample_aes_key) False [Encrypt]
     = Inr (sample_aes_key\<lparr>ck_extractable := False, ck_usages := [Encrypt]\<rparr>)"
proof -
  define jwk where "jwk = jwk_new_symmetric ''A128GCM'' (map (\<lambda>w. char_of (unat w)) (replicate 16 (7::8 word))) True [''encrypt'', ''decrypt'']"
  have "crypto_export_key (crypto_sample jwk) ''jwk'' sample_aes_key = Inr (string_bytes ''{}'')"
    by (simp add: crypto_export_key_def aes_export_key_jwk_def sample_aes_key_def crypto_key_new_def jwk_def crypto_sample_def usage_str_def)
  moreover have "symmetric_key_ok sample_aes_key" by (simp add: symmetric_key_ok_def sample_aes_key_def crypto_key_new_def)
  ultimately show ?thesis using jwk_roundtrip [OF crypto_sample_laws(1,2)] by metis
qed

text \<open>
  Sealing and opening. What a key encrypts, the same key with the same parameters decrypts to the text, if it may decrypt.
\<close>

theorem aes_gcm_roundtrip:
  assumes "aead_law env" "crypto_encrypt env kenv k data (Some iv) aad = Some (Inr c)" "ck_algorithm k = AesGcm n"
  shows "crypto_decrypt env kenv k c (Some iv) aad = (if has_usage k Decrypt then Inr data else Inl InvalidAccess)"
  using assms sealed_opens [OF assms(1)] by (auto simp: crypto_encrypt_def crypto_decrypt_def iv_or_new_def)

theorem aes_gcm_roundtrip_witness:
  "\<exists>c. crypto_decrypt (crypto_sample (jwk_new_symmetric [] [] True [])) no_keys sample_aes_key c (Some (replicate 12 1)) None = Inr [1, 2, 3]"
proof -
  have "crypto_encrypt (crypto_sample (jwk_new_symmetric [] [] True [])) no_keys sample_aes_key [1, 2, 3] (Some (replicate 12 1)) None
      = Some (Inr ([1, 2, 3] @ replicate 16 0))"
    by (simp add: crypto_encrypt_def sample_aes_key_def crypto_key_new_def iv_or_new_def aes_encrypt_def aes_checked_key_def
      aes_params_validate_def gcm_128_def has_usage_def crypto_sample_def)
  from aes_gcm_roundtrip [OF crypto_sample_laws(3) this, of 128]
  have "crypto_decrypt (crypto_sample (jwk_new_symmetric [] [] True [])) no_keys sample_aes_key ([1, 2, 3] @ replicate 16 0) (Some (replicate 12 1)) None = Inr [1, 2, 3]"
    by (simp add: sample_aes_key_def crypto_key_new_def has_usage_def)
  then show ?thesis by blast
qed

definition vault_key :: crypto_key where
  "vault_key = crypto_key_new (AesGcmKey (replicate 16 9)) (AesGcm 128) False [Encrypt]"

text \<open>
  C32. Wrapping reveals keys. A secret key that may not be extracted, wrapped in the format \<^verbatim>\<open>raw\<close>, is given back by the
  ordinary decryption with the wrapping key; exporting it fails, and so does wrapping it as JSON.
\<close>

theorem wrapping_reveals_keys:
  assumes "aead_law env" "\<not> ck_extractable k" "crypto_wrap_key env ''raw'' k w (Some iv) = Some (Inr c)" "has_usage w Decrypt"
  shows "crypto_decrypt env kenv w c (Some iv) None = Inr (handle_bytes (ck_handle k))
    \<and> crypto_export_key env format k = Inl InvalidAccess
    \<and> crypto_wrap_key env ''jwk'' k w (Some iv) = Some (Inl InvalidAccess)"
proof -
  have e: "aes_encrypt env w (gcm_128 iv None) (handle_bytes (ck_handle k)) = Inr c"
    using assms(3) by (auto simp: crypto_wrap_key_def iv_or_new_def handle_bytes_def split: crypto_key_handle.splits)
  obtain n where "ck_algorithm w = AesGcm n" using aes_encrypt_algorithm [OF e] by blast
  then show ?thesis using sealed_opens [OF assms(1) e] assms(2,4)
    by (simp add: crypto_decrypt_def crypto_export_key_def crypto_wrap_key_def)
qed

theorem wrapping_reveals_keys_witness:
  "\<exists>c. crypto_wrap_key (crypto_sample (jwk_new_symmetric [] [] True [])) ''raw'' vault_key sample_aes_key (Some (replicate 12 1)) = Some (Inr c)
     \<and> crypto_decrypt (crypto_sample (jwk_new_symmetric [] [] True [])) no_keys sample_aes_key c (Some (replicate 12 1)) None
       = Inr (replicate 16 9)"
proof -
  have w: "crypto_wrap_key (crypto_sample (jwk_new_symmetric [] [] True [])) ''raw'' vault_key sample_aes_key (Some (replicate 12 1))
      = Some (Inr (replicate 16 9 @ replicate 16 0))"
    by (simp add: crypto_wrap_key_def sample_aes_key_def vault_key_def crypto_key_new_def iv_or_new_def aes_encrypt_def aes_checked_key_def
      aes_params_validate_def gcm_128_def has_usage_def crypto_sample_def)
  moreover have "\<not> ck_extractable vault_key" "has_usage sample_aes_key Decrypt" "handle_bytes (ck_handle vault_key) = replicate 16 9"
    by (simp_all add: vault_key_def sample_aes_key_def crypto_key_new_def has_usage_def handle_bytes_def)
  ultimately show ?thesis using wrapping_reveals_keys [OF crypto_sample_laws(3)] by metis
qed

text \<open>
  Deriving a key never succeeds for 16 bits or more: the number of bytes is passed as the number of bits, so an eighth of the
  material is derived. Deriving bits gives the material.
\<close>

theorem derive_key_never:
  assumes "16 \<le> unat len"
  shows "\<exists>e. crypto_derive_key kenv base public len x us = Inl e"
  using assms by (rule derived_key_Inl)

theorem derive_key_never_witness: "\<exists>e. crypto_derive_key no_keys sample_aes_key sample_aes_key 256 True [Encrypt] = Inl e"
  using derive_key_never [of 256] by simp

text \<open>An unwrapped 128-bit key is taken for one of 256 bits, so it cannot encrypt.\<close>

lemma raw_unwrap_mislabels:
  assumes "crypto_unwrap_key env kenv ''raw'' c w (AesGcm n) x us iv = Inr k" "length (handle_bytes (ck_handle k)) \<noteq> 32"
  shows "ck_algorithm k = AesGcm 256 \<and> (\<exists>e. crypto_encrypt env kenv k data (Some iv') aad = Some (Inl e))"
proof -
  obtain bs where k: "k = crypto_key_new (AesGcmKey bs) (AesGcm 256) x us"
    using assms(1) by (auto simp: crypto_unwrap_key_def Let_def bind_res_Inr aes_import_key_jwk_def)
  have "aes_checked_key k p Encrypt \<noteq> Inr b" for p b
    using assms(2) by (auto simp: k aes_checked_key_Inr crypto_key_new_def handle_bytes_def)
  then have "\<exists>e. aes_checked_key k p Encrypt = Inl e" for p by (cases "aes_checked_key k p Encrypt") auto
  then obtain e where "aes_checked_key k (gcm_128 iv' aad) Encrypt = Inl e" by blast
  then show ?thesis by (simp add: k crypto_encrypt_def crypto_key_new_def iv_or_new_def aes_encrypt_def)
qed

text \<open>No operation on an RSA or elliptic-curve key reads its usages.\<close>

definition keys_of_pair :: "crypto_key \<Rightarrow> bool" where
  "keys_of_pair k = (case ck_algorithm k of AesGcm _ \<Rightarrow> False | Hmac _ _ \<Rightarrow> False | _ \<Rightarrow> True)"

lemma pair_usages_ignored:
  assumes "keys_of_pair k"
  shows "crypto_encrypt env kenv (k\<lparr>ck_usages := us\<rparr>) data iv aad = crypto_encrypt env kenv k data iv aad
    \<and> crypto_decrypt env kenv (k\<lparr>ck_usages := us\<rparr>) data iv aad = crypto_decrypt env kenv k data iv aad
    \<and> crypto_sign env kenv (k\<lparr>ck_usages := us\<rparr>) data = crypto_sign env kenv k data
    \<and> crypto_verify env kenv (k\<lparr>ck_usages := us\<rparr>) sig data = crypto_verify env kenv k sig data
    \<and> crypto_derive_bits kenv (k\<lparr>ck_usages := us\<rparr>) p len = crypto_derive_bits kenv k p len"
proof -
  have p: "get_private_key kenv (k\<lparr>ck_usages := us\<rparr>) = get_private_key kenv k"
    "ec_private_key kenv (k\<lparr>ck_usages := us\<rparr>) q = ec_private_key kenv k q"
    "ecdh_derive_bits kenv (k\<lparr>ck_usages := us\<rparr>) p n = ecdh_derive_bits kenv k p n" for q n
    by (cases "ck_handle k"; cases "ck_handle p"; simp add: get_private_key_def ec_private_key_def ecdh_derive_bits_def)+
  have g: "get_public_key kenv (k\<lparr>ck_usages := us\<rparr>) = get_public_key kenv k" by (cases "ck_handle k") (simp_all add: get_public_key_def p)
  have d: "crypto_derive_bits kenv (k\<lparr>ck_usages := us\<rparr>) p len = crypto_derive_bits kenv k p len"
    by (simp add: crypto_derive_bits_def p split: option.split)
  show ?thesis using assms
    by (cases "ck_algorithm k")
      (simp_all add: keys_of_pair_def crypto_encrypt_def crypto_decrypt_def crypto_sign_def crypto_verify_def d
        rsa_encrypt_def rsa_decrypt_def rsa_sign_def rsa_verify_def ecdsa_sign_def ecdsa_verify_def pkcs1_hash_def p g)
qed

text \<open>What the checks of symmetric keys read of the usages is whether the one they ask for is among them.\<close>

lemma only_usage_read:
  assumes "has_usage k u"
  shows "aes_checked_key k p u = aes_checked_key (k\<lparr>ck_usages := [u]\<rparr>) p u" "hmac_checked_key k u = hmac_checked_key (k\<lparr>ck_usages := [u]\<rparr>) u"
proof -
  have "has_usage (k\<lparr>ck_usages := [u]\<rparr>) u" by (simp add: has_usage_def)
  with assms show "aes_checked_key k p u = aes_checked_key (k\<lparr>ck_usages := [u]\<rparr>) p u"
    "hmac_checked_key k u = hmac_checked_key (k\<lparr>ck_usages := [u]\<rparr>) u"
    by (simp_all add: aes_checked_key_def hmac_checked_key_def split: crypto_key_handle.split algorithm_identifier.split)
qed

lemma usage_needed:
  assumes "\<not> has_usage k u"
  shows "aes_checked_key k p u \<noteq> Inr x" "hmac_checked_key k u \<noteq> Inr y"
  using assms by (auto simp: aes_checked_key_Inr hmac_checked_key_def split: algorithm_identifier.splits crypto_key_handle.splits)

lemma checked_usage:
  "if has_usage k Encrypt then aes_encrypt env k p x = aes_encrypt env (k\<lparr>ck_usages := [Encrypt]\<rparr>) p x else \<forall>c. aes_encrypt env k p x \<noteq> Inr c"
  "if has_usage k Decrypt then aes_decrypt env k p x = aes_decrypt env (k\<lparr>ck_usages := [Decrypt]\<rparr>) p x else \<forall>c. aes_decrypt env k p x \<noteq> Inr c"
  "if has_usage k Sign then hmac_sign env k x = hmac_sign env (k\<lparr>ck_usages := [Sign]\<rparr>) x else \<forall>c. hmac_sign env k x \<noteq> Inr c"
  "if has_usage k Verify then hmac_verify env k x y = hmac_verify env (k\<lparr>ck_usages := [Verify]\<rparr>) x y else \<forall>c. hmac_verify env k x y \<noteq> Inr c"
  by (auto simp: aes_encrypt_def aes_decrypt_def hmac_sign_def hmac_verify_def bind_res_Inr only_usage_read [symmetric] usage_needed)

text \<open>
  C33. Usages. A symmetric key encrypts, decrypts, signs and verifies exactly as if it had only the usage of the operation, if it has that
  usage, and not at all if it has not. Wrapping and unwrapping ask the wrapping key for the usages \<^verbatim>\<open>encrypt\<close> and \<^verbatim>\<open>decrypt\<close>, and never
  look at \<^verbatim>\<open>wrapKey\<close> and \<^verbatim>\<open>unwrapKey\<close>. Keys of a pair do everything, whatever their usages are.
\<close>

theorem usages_exact:
  "(if keys_of_pair k
    then crypto_encrypt env kenv k data iv aad = crypto_encrypt env kenv (k\<lparr>ck_usages := us\<rparr>) data iv aad
      \<and> crypto_decrypt env kenv k data iv aad = crypto_decrypt env kenv (k\<lparr>ck_usages := us\<rparr>) data iv aad
      \<and> crypto_sign env kenv k data = crypto_sign env kenv (k\<lparr>ck_usages := us\<rparr>) data
      \<and> crypto_verify env kenv k sig data = crypto_verify env kenv (k\<lparr>ck_usages := us\<rparr>) sig data
    else (if has_usage k Encrypt
          then crypto_encrypt env kenv k data iv aad = crypto_encrypt env kenv (k\<lparr>ck_usages := [Encrypt]\<rparr>) data iv aad
          else \<forall>c. crypto_encrypt env kenv k data iv aad \<noteq> Some (Inr c))
      \<and> (if has_usage k Decrypt
          then crypto_decrypt env kenv k data iv aad = crypto_decrypt env kenv (k\<lparr>ck_usages := [Decrypt]\<rparr>) data iv aad
          else \<forall>d. crypto_decrypt env kenv k data iv aad \<noteq> Inr d)
      \<and> (if has_usage k Sign then crypto_sign env kenv k data = crypto_sign env kenv (k\<lparr>ck_usages := [Sign]\<rparr>) data
          else \<forall>s. crypto_sign env kenv k data \<noteq> Inr s)
      \<and> (if has_usage k Verify then crypto_verify env kenv k sig data = crypto_verify env kenv (k\<lparr>ck_usages := [Verify]\<rparr>) sig data
          else \<forall>b. crypto_verify env kenv k sig data \<noteq> Inr b))
   \<and> (if has_usage w Encrypt then crypto_wrap_key env format k w iv = crypto_wrap_key env format k (w\<lparr>ck_usages := [Encrypt]\<rparr>) iv
      else \<forall>c. crypto_wrap_key env format k w iv \<noteq> Some (Inr c))
   \<and> (if has_usage w Decrypt
      then crypto_unwrap_key env kenv format data w alg x us iv = crypto_unwrap_key env kenv format data (w\<lparr>ck_usages := [Decrypt]\<rparr>) alg x us iv
      else \<forall>k'. crypto_unwrap_key env kenv format data w alg x us iv \<noteq> Inr k')"
proof -
  note C = checked_usage(1) [of k env] checked_usage(2) [of k env] checked_usage(3) [of k env] checked_usage(4) [of k env]
    checked_usage(1) [of w env] checked_usage(2) [of w env]
  have ops: "if has_usage k Encrypt then crypto_encrypt env kenv k data iv aad = crypto_encrypt env kenv (k\<lparr>ck_usages := [Encrypt]\<rparr>) data iv aad
      else \<forall>c. crypto_encrypt env kenv k data iv aad \<noteq> Some (Inr c)"
    "if has_usage k Decrypt then crypto_decrypt env kenv k data iv aad = crypto_decrypt env kenv (k\<lparr>ck_usages := [Decrypt]\<rparr>) data iv aad
      else \<forall>d. crypto_decrypt env kenv k data iv aad \<noteq> Inr d"
    "if has_usage k Sign then crypto_sign env kenv k data = crypto_sign env kenv (k\<lparr>ck_usages := [Sign]\<rparr>) data
      else \<forall>s. crypto_sign env kenv k data \<noteq> Inr s"
    "if has_usage k Verify then crypto_verify env kenv k sig data = crypto_verify env kenv (k\<lparr>ck_usages := [Verify]\<rparr>) sig data
      else \<forall>b. crypto_verify env kenv k sig data \<noteq> Inr b" if "\<not> keys_of_pair k"
    using that C
    by (cases "ck_algorithm k"; simp add: keys_of_pair_def crypto_encrypt_def crypto_decrypt_def crypto_sign_def crypto_verify_def bind_res_Inr
      split: if_splits; fail)+
  have wrap: "if has_usage w Encrypt then crypto_wrap_key env format k w iv = crypto_wrap_key env format k (w\<lparr>ck_usages := [Encrypt]\<rparr>) iv
      else \<forall>c. crypto_wrap_key env format k w iv \<noteq> Some (Inr c)"
    using C(5) by (simp add: crypto_wrap_key_def split: sum.split if_splits)
  have unwrap: "if has_usage w Decrypt
      then crypto_unwrap_key env kenv format data w alg x us iv = crypto_unwrap_key env kenv format data (w\<lparr>ck_usages := [Decrypt]\<rparr>) alg x us iv
      else \<forall>k'. crypto_unwrap_key env kenv format data w alg x us iv \<noteq> Inr k'"
    using C(6) by (simp add: crypto_unwrap_key_def bind_res_Inr split: if_splits)
  show ?thesis
  proof (cases "keys_of_pair k")
    case True
    then show ?thesis unfolding if_P [OF True] by (intro conjI wrap unwrap) (simp_all add: pair_usages_ignored)
  next
    case False
    then show ?thesis unfolding if_not_P [OF False] by (intro conjI wrap unwrap ops)
  qed
qed

text \<open>Public keys verify no ECDSA signature, and the hash that RSA keys are asked for is ignored.\<close>

lemma public_key_never_verifies:
  assumes "ck_handle k = EcdsaPublicKey bs" "ck_algorithm k = Ecdsa c h"
  shows "crypto_verify env kenv k sig data = Inl InvalidKey"
  using assms by (simp add: crypto_verify_def ecdsa_verify_def ec_private_key_def)

lemma rsa_hash_ignored:
  assumes "crypto_import_key env kenv format data (RsaSsaPkcs1V1_5 h) x us = Inr k \<or> crypto_generate_key env kenv (RsaSsaPkcs1V1_5 h) x us = Inr k"
  shows "ck_algorithm k = RsaSsaPkcs1V1_5 Sha256"
  using assms by (auto simp: crypto_import_key_def crypto_generate_key_def rsa_import_key_def rsa_generate_key_def bind_res_Inr
    rsa_algorithm_def new_rsa_private_def new_rsa_public_def split: if_splits option.splits)

end
