(* ===== verification/Runtime_Timers.thy ===== *)
theory Runtime_Timers
  imports Nano_Float
begin

text \<open>
  \<^verbatim>\<open>setTimeout\<close>, \<^verbatim>\<open>setInterval\<close> and their clearing (\<^verbatim>\<open>src/src/runtime/apis.rs\<close>) and the loop of a worker that waits for the
  promise of a handler and fires them (\<^verbatim>\<open>src/src/worker/pool.rs\<close>). The thread-local variables are a record. A JavaScript
  function is a value of any type, and what a call of it does is the record \<open>js_call\<close>: the timer operations it
  makes with their times, whether it ran to its end, and when. Times are nanoseconds.
\<close>

section \<open>Definitions\<close>

subsection \<open>State\<close>

record 'f timeout_entry =
  te_id :: u32
  te_func :: 'f
  te_fire_at :: nat

record 'f interval_entry =
  ie_id :: u32
  ie_func :: 'f
  ie_interval_ms :: u64
  ie_next_fire :: nat

record 'f js_timers =
  pending_timeouts :: "'f timeout_entry list"
  timeout_counter :: u32
  pending_intervals :: "'f interval_entry list"
  cleared_during_fire :: "u32 list"
  interval_counter :: u32

definition js_timers_new :: "'f js_timers" where
  "js_timers_new = \<lparr>pending_timeouts = [], timeout_counter = 1, pending_intervals = [], cleared_during_fire = [],
     interval_counter = 100\<rparr>"

definition millis :: "u64 \<Rightarrow> nat" where
  "millis n = unat n * 1000000"

subsection \<open>The functions that JavaScript calls\<close>

text \<open>An argument: missing, not convertible to a number (the conversion threw), or a number.\<close>

datatype js_arg = Absent | NoNumber | Number f64

text \<open>\<^verbatim>\<open>max(0.0) as u64\<close>; \<^verbatim>\<open>max\<close> prefers the number over NaN.\<close>

definition delay_ms :: "js_arg \<Rightarrow> u64" where
  "delay_ms a = (case a of Number n \<Rightarrow> f_to_u64 (if f_lt (Fin 0) n then n else Fin 0) | _ \<Rightarrow> 0)"

text \<open>\<^verbatim>\<open>as u32\<close> saturates and maps NaN to zero.\<close>

definition f_to_u32 :: "f64 \<Rightarrow> u32" where
  "f_to_u32 x = (case x of
       Fin q \<Rightarrow> if q \<le> 0 then 0 else if q \<ge> 2 ^ 32 then - 1 else of_nat (nat \<lfloor>q\<rfloor>)
     | PInf \<Rightarrow> - 1
     | _ \<Rightarrow> 0)"

text \<open>The first argument is \<open>None\<close> when it is missing or no function. The result is the handle.\<close>

definition set_timeout :: "nat \<Rightarrow> 'f option \<Rightarrow> js_arg \<Rightarrow> 'f js_timers \<Rightarrow> u32 \<times> 'f js_timers" where
  "set_timeout now func delay s = (case func of
       None \<Rightarrow> (0, s)
     | Some f \<Rightarrow>
         let i = timeout_counter s
         in (i, s\<lparr>timeout_counter := (if i \<ge> 99 then 1 else i + 1),
               pending_timeouts := pending_timeouts s @ [\<lparr>te_id = i, te_func = f, te_fire_at = now + millis (delay_ms delay)\<rparr>]\<rparr>))"

definition set_interval :: "nat \<Rightarrow> 'f option \<Rightarrow> js_arg \<Rightarrow> 'f js_timers \<Rightarrow> u32 \<times> 'f js_timers" where
  "set_interval now func delay s = (case func of
       None \<Rightarrow> (0, s)
     | Some f \<Rightarrow>
         let i = interval_counter s; ms = delay_ms delay
         in (i, s\<lparr>interval_counter := i + 1,
               pending_intervals := pending_intervals s
                 @ [\<lparr>ie_id = i, ie_func = f, ie_interval_ms = ms, ie_next_fire = now + millis ms\<rparr>]\<rparr>))"

definition clear_timeout :: "js_arg \<Rightarrow> 'f js_timers \<Rightarrow> 'f js_timers" where
  "clear_timeout a s = (case a of
       Number n \<Rightarrow> s\<lparr>pending_timeouts := filter (\<lambda>e. te_id e \<noteq> f_to_u32 n) (pending_timeouts s)\<rparr>
     | _ \<Rightarrow> s)"

definition clear_interval_id :: "u32 \<Rightarrow> 'f js_timers \<Rightarrow> 'f js_timers" where
  "clear_interval_id target s =
     s\<lparr>pending_intervals := filter (\<lambda>e. ie_id e \<noteq> target) (pending_intervals s),
       cleared_during_fire := (if target \<in> set (cleared_during_fire s) then cleared_during_fire s
         else cleared_during_fire s @ [target])\<rparr>"

definition clear_interval :: "js_arg \<Rightarrow> 'f js_timers \<Rightarrow> 'f js_timers" where
  "clear_interval a s = (case a of Number n \<Rightarrow> clear_interval_id (f_to_u32 n) s | _ \<Rightarrow> s)"

datatype 'f timer_op =
    SetTimeout "'f option" js_arg
  | SetInterval "'f option" js_arg
  | ClearTimeout js_arg
  | ClearInterval js_arg

definition apply_timer_op :: "nat \<times> 'f timer_op \<Rightarrow> 'f js_timers \<Rightarrow> 'f js_timers" where
  "apply_timer_op ta s = (case snd ta of
       SetTimeout f d \<Rightarrow> snd (set_timeout (fst ta) f d s)
     | SetInterval f d \<Rightarrow> snd (set_interval (fst ta) f d s)
     | ClearTimeout a \<Rightarrow> clear_timeout a s
     | ClearInterval a \<Rightarrow> clear_interval a s)"

subsection \<open>Firing\<close>

record 'f js_call =
  jc_ops :: "(nat \<times> 'f timer_op) list"
  jc_completed :: bool
  jc_end :: nat

definition run_call :: "'f js_call \<Rightarrow> 'f js_timers \<Rightarrow> 'f js_timers" where
  "run_call c s = fold apply_timer_op (jc_ops c) s"

text \<open>The loop that takes the due entries out of the list.\<close>

fun drain_due :: "('e \<Rightarrow> bool) \<Rightarrow> 'e list \<Rightarrow> 'e list \<times> 'e list" where
  "drain_due due [] = ([], [])"
| "drain_due due (e # es) = (let (d, r) = drain_due due es in if due e then (e # d, r) else (d, e # r))"

text \<open>
  \<open>js\<close> says what the calls of a pass do: its first argument counts them. The result of a pass names the functions
  that were called, in order.
\<close>

fun call_intervals :: "(nat \<Rightarrow> 'f \<Rightarrow> 'f js_call) \<Rightarrow> nat \<Rightarrow> 'f interval_entry list \<Rightarrow> 'f js_timers \<Rightarrow> 'f list \<times> 'f js_timers" where
  "call_intervals js i [] s = ([], s)"
| "call_intervals js i (entry # es) s =
     (let c = js i (ie_func entry);
          s1 = run_call c s;
          s2 = (if ie_id entry \<in> set (cleared_during_fire s1) then s1
                else s1\<lparr>pending_intervals := pending_intervals s1
                  @ [entry\<lparr>ie_next_fire := jc_end c + millis (ie_interval_ms entry)\<rparr>]\<rparr>)
      in apfst (Cons (ie_func entry)) (call_intervals js (i + 1) es s2))"

definition fire_pending_intervals :: "(nat \<Rightarrow> 'f \<Rightarrow> 'f js_call) \<Rightarrow> nat \<Rightarrow> 'f js_timers \<Rightarrow> 'f list \<times> 'f js_timers" where
  "fire_pending_intervals js now s =
     (let (due, rest) = drain_due (\<lambda>e. now \<ge> ie_next_fire e) (pending_intervals s);
          (fs, s') = call_intervals js 0 due (s\<lparr>pending_intervals := rest\<rparr>)
      in (fs, s'\<lparr>cleared_during_fire := []\<rparr>))"

definition clear_pending_intervals :: "'f js_timers \<Rightarrow> 'f js_timers" where
  "clear_pending_intervals s = s\<lparr>pending_intervals := [], cleared_during_fire := [], interval_counter := 100\<rparr>"

fun call_timeouts ::
  "(nat \<Rightarrow> 'f \<Rightarrow> 'f js_call) \<Rightarrow> nat \<Rightarrow> 'f timeout_entry list \<Rightarrow> 'f js_timers
     \<Rightarrow> 'f list \<times> 'f timeout_entry list \<times> 'f js_timers" where
  "call_timeouts js i [] s = ([], [], s)"
| "call_timeouts js i (entry # es) s =
     (let c = js i (te_func entry);
          (fs, failed, s') = call_timeouts js (i + 1) es (run_call c s)
      in (te_func entry # fs, (if jc_completed c then failed else entry # failed), s'))"

definition fire_pending_timeouts :: "(nat \<Rightarrow> 'f \<Rightarrow> 'f js_call) \<Rightarrow> nat \<Rightarrow> 'f js_timers \<Rightarrow> 'f list \<times> 'f js_timers" where
  "fire_pending_timeouts js now s =
     (let (due, rest) = drain_due (\<lambda>e. now \<ge> te_fire_at e) (pending_timeouts s);
          (fs, failed, s') = call_timeouts js 0 due (s\<lparr>pending_timeouts := rest\<rparr>)
      in (fs, s'\<lparr>pending_timeouts := pending_timeouts s' @ failed\<rparr>))"

definition clear_pending_timeouts :: "'f js_timers \<Rightarrow> 'f js_timers" where
  "clear_pending_timeouts s = s\<lparr>pending_timeouts := [], timeout_counter := 1\<rparr>"

subsection \<open>Waiting for the promise of a handler\<close>

datatype 'v promise_state = Pending | Fulfilled 'v | Rejected string

text \<open>
  One turn of the loop: what the queued JavaScript does, the state of the promise after it, the time at the check of the deadline, the times and the
  calls of the two passes.
\<close>

record ('f, 'v) pump_turn =
  pt_microtasks :: "'f js_call"
  pt_promise :: "'v promise_state"
  pt_now :: nat
  pt_interval_now :: nat
  pt_interval_js :: "nat \<Rightarrow> 'f \<Rightarrow> 'f js_call"
  pt_timeout_now :: nat
  pt_timeout_js :: "nat \<Rightarrow> 'f \<Rightarrow> 'f js_call"

definition pump_fire :: "('f, 'v) pump_turn \<Rightarrow> 'f js_timers \<Rightarrow> 'f js_timers" where
  "pump_fire t s = snd (fire_pending_timeouts (pt_timeout_js t) (pt_timeout_now t)
     (snd (fire_pending_intervals (pt_interval_js t) (pt_interval_now t) s)))"

text \<open>\<open>None\<close>: the loop still runs after the last turn.\<close>

fun pump_loop :: "nat \<Rightarrow> ('f, 'v) pump_turn list \<Rightarrow> 'f js_timers \<Rightarrow> (string + 'v) option \<times> 'f js_timers" where
  "pump_loop deadline [] s = (None, s)"
| "pump_loop deadline (t # ts) s =
     (let s = run_call (pt_microtasks t) s in
      case pt_promise t of
       Fulfilled v \<Rightarrow> (Some (Inr v), s)
     | Rejected m \<Rightarrow> (Some (Inl (''Promise rejected: '' @ m)), s)
     | Pending \<Rightarrow>
         if pt_now t > deadline then (Some (Inl ''Async handler timed out after 30s''), s)
         else pump_loop deadline ts (pump_fire t s))"

definition await_promise :: "nat \<Rightarrow> ('f, 'v) pump_turn list \<Rightarrow> 'f js_timers \<Rightarrow> (string + 'v) option \<times> 'f js_timers" where
  "await_promise started ts s = pump_loop (started + 30 * 1000000000) ts s"

subsection \<open>Specification vocabulary\<close>

text \<open>The handle of the timeout with index \<open>k\<close>, and several timeouts set one after the other: times, functions and delays.\<close>

definition timeout_handle :: "nat \<Rightarrow> u32" where
  "timeout_handle k = of_nat (k mod 99 + 1)"

definition set_all :: "(nat \<times> 'f \<times> js_arg) list \<Rightarrow> 'f js_timers \<Rightarrow> 'f js_timers" where
  "set_all xs s = fold (\<lambda>(t, f, d) s. snd (set_timeout t (Some f) d s)) xs s"

text \<open>The calls of a pass, the intervals that a call clears and the number of intervals it sets.\<close>

definition calls_of :: "(nat \<Rightarrow> 'f \<Rightarrow> 'f js_call) \<Rightarrow> 'f list \<Rightarrow> 'f js_call list" where
  "calls_of js fs = map (\<lambda>(i, f). js i f) (List.enumerate 0 fs)"

definition clears :: "'f js_call \<Rightarrow> u32 set" where
  "clears c = {f_to_u32 n | n t. (t, ClearInterval (Number n)) \<in> set (jc_ops c)}"

fun is_set_interval :: "'f timer_op \<Rightarrow> bool" where
  "is_set_interval (SetInterval (Some f) d) = True"
| "is_set_interval _ = False"

definition sets :: "'f js_call \<Rightarrow> nat" where
  "sets c = length (filter (is_set_interval \<circ> snd) (jc_ops c))"

definition due_timeouts :: "nat \<Rightarrow> 'f js_timers \<Rightarrow> 'f timeout_entry list" where
  "due_timeouts now s = filter (\<lambda>e. te_fire_at e \<le> now) (pending_timeouts s)"

definition due_intervals :: "nat \<Rightarrow> 'f js_timers \<Rightarrow> 'f interval_entry list" where
  "due_intervals now s = filter (\<lambda>e. ie_next_fire e \<le> now) (pending_intervals s)"

text \<open>The intervals \<open>S\<close>, all issued before \<open>n\<close>, are cleared and not pending.\<close>

definition stay_cleared :: "u32 set \<Rightarrow> nat \<Rightarrow> 'f js_timers \<Rightarrow> bool" where
  "stay_cleared S n s = ((\<forall>t \<in> S. unat t < n) \<and> S \<subseteq> set (cleared_during_fire s)
     \<and> (\<forall>e \<in> set (pending_intervals s). ie_id e \<notin> S) \<and> n \<le> unat (interval_counter s))"

section \<open>Lemmas\<close>

lemma drain_due_filter: "drain_due due es = (filter due es, filter (\<lambda>e. \<not> due e) es)"
  by (induction due es rule: drain_due.induct) auto

lemma call_timeouts_exact:
  "call_timeouts js i es s =
     (let cs = map (\<lambda>(i, e). js i (te_func e)) (List.enumerate i es)
      in (map te_func es, map fst (filter (\<lambda>(e, c). \<not> jc_completed c) (zip es cs)), fold run_call cs s))"
  by (induction js i es s rule: call_timeouts.induct) (auto simp: Let_def)

lemma call_intervals_names: "fst (call_intervals js i es s) = map ie_func es"
  by (induction js i es s rule: call_intervals.induct) (auto simp: Let_def)

lemma enumerate_map: "List.enumerate i (map f xs) = map (\<lambda>(i, x). (i, f x)) (List.enumerate i xs)"
  by (induction xs arbitrary: i) auto

lemma calls_of_funcs: "calls_of js (map g es) = map (\<lambda>(i, e). js i (g e)) (List.enumerate 0 es)"
  by (simp add: calls_of_def enumerate_map split_beta comp_def)

lemma set_all_snoc: "set_all (xs @ [(t, f, d)]) s = snd (set_timeout t (Some f) d (set_all xs s))"
  by (simp add: set_all_def)

lemma small_of_nat_eq: "a < 2 ^ 32 \<Longrightarrow> b < 2 ^ 32 \<Longrightarrow> (of_nat a :: u32) = of_nat b \<longleftrightarrow> a = b"
  by (simp add: word_unat_eq_iff unat_of_nat)

lemma unat_handle: "unat (timeout_handle k) = k mod 99 + 1"
proof -
  have "k mod 99 + 1 < 2 ^ LENGTH(32)" using mod_less_divisor [of 99 k] by simp
  then show ?thesis unfolding timeout_handle_def by (subst unat_of_nat) simp
qed

lemma handle_eq: "timeout_handle j = timeout_handle k \<longleftrightarrow> j mod 99 = k mod 99"
  by (simp add: word_unat_eq_iff unat_handle)

lemma handle_next: "(if timeout_handle k \<ge> 99 then 1 else timeout_handle k + 1) = timeout_handle (Suc k)"
proof (cases "k mod 99 = 98")
  case True
  then have "timeout_handle k \<ge> 99" "Suc k mod 99 = 0" by (simp_all add: word_le_nat_alt unat_handle mod_Suc)
  then show ?thesis by (simp add: timeout_handle_def)
next
  case False
  then have "\<not> timeout_handle k \<ge> 99" "Suc k mod 99 = k mod 99 + 1"
    using mod_less_divisor [of 99 k] by (simp_all add: word_le_nat_alt unat_handle mod_Suc)
  then show ?thesis by (simp add: timeout_handle_def)
qed

lemma set_all_state:
  "timeout_counter (set_all xs js_timers_new) = timeout_handle (length xs)
   \<and> pending_timeouts (set_all xs js_timers_new) =
       map (\<lambda>(k, t, f, d). \<lparr>te_id = timeout_handle k, te_func = f, te_fire_at = t + millis (delay_ms d)\<rparr>) (List.enumerate 0 xs)"
proof (induction xs rule: rev_induct)
  case Nil
  then show ?case by (simp add: set_all_def js_timers_new_def timeout_handle_def)
next
  case (snoc x xs)
  obtain t f d where x: "x = (t, f, d)" by (cases x)
  show ?case using snoc
    by (simp add: x set_all_snoc set_timeout_def Let_def enumerate_append_eq handle_next del: if_split)
qed

lemma enumerate_filter_mod:
  "map (\<lambda>(k, x). g x) (filter (\<lambda>(k, x). P k) (List.enumerate 0 xs)) = [g (xs ! k). k \<leftarrow> [0..<length xs], P k]"
  by (induction xs rule: rev_induct) (auto simp: enumerate_append_eq nth_append intro!: arg_cong [of _ _ concat])

text \<open>Intervals that are cleared stay cleared.\<close>

definition op_clears :: "'f timer_op \<Rightarrow> u32 set" where
  "op_clears x = (case x of ClearInterval (Number n) \<Rightarrow> {f_to_u32 n} | _ \<Rightarrow> {})"

lemma clears_ops: "clears c = (\<Union>x \<in> snd ` set (jc_ops c). op_clears x)"
  by (force simp: clears_def op_clears_def split: timer_op.splits js_arg.splits)

lemma stay_cleared_op:
  assumes "stay_cleared S n s" "unat (interval_counter s) + (if is_set_interval (snd x) then 1 else 0) < 2 ^ 32"
  shows "stay_cleared (S \<union> {t \<in> op_clears (snd x). unat t < n}) n (apply_timer_op x s)
    \<and> unat (interval_counter (apply_timer_op x s)) = unat (interval_counter s) + (if is_set_interval (snd x) then 1 else 0)"
proof -
  have suc: "unat (interval_counter s + 1) = unat (interval_counter s) + 1" if "unat (interval_counter s) + 1 < 2 ^ 32"
    using that by (simp add: unat_word_ariths)
  show ?thesis
  proof (cases "snd x")
    case (SetInterval f d)
    then show ?thesis using assms suc
      by (cases f) (auto simp: stay_cleared_def apply_timer_op_def set_interval_def op_clears_def Let_def)
  qed (use assms in \<open>auto simp: stay_cleared_def apply_timer_op_def set_timeout_def clear_timeout_def clear_interval_def
      clear_interval_id_def op_clears_def Let_def split: option.splits js_arg.splits\<close>)
qed

lemma stay_cleared_ops:
  "\<lbrakk>stay_cleared S n s; unat (interval_counter s) + length (filter (is_set_interval \<circ> snd) xs) < 2 ^ 32\<rbrakk> \<Longrightarrow>
   stay_cleared (S \<union> {t \<in> (\<Union>x \<in> snd ` set xs. op_clears x). unat t < n}) n (fold apply_timer_op xs s)
   \<and> unat (interval_counter (fold apply_timer_op xs s)) = unat (interval_counter s) + length (filter (is_set_interval \<circ> snd) xs)"
proof (induction xs arbitrary: S s)
  case (Cons x xs)
  let ?s = "apply_timer_op x s" and ?S = "S \<union> {t \<in> op_clears (snd x). unat t < n}"
  have o: "stay_cleared ?S n ?s"
    "unat (interval_counter ?s) = unat (interval_counter s) + (if is_set_interval (snd x) then 1 else 0)"
    using stay_cleared_op [OF Cons.prems(1), of x] Cons.prems(2) by (auto split: if_splits)
  have "?S \<union> {t \<in> (\<Union>x \<in> snd ` set xs. op_clears x). unat t < n} = S \<union> {t \<in> (\<Union>x \<in> snd ` set (x # xs). op_clears x). unat t < n}"
    by auto
  then show ?case using Cons.IH [OF o(1)] Cons.prems(2) o(2) by (auto split: if_splits)
qed simp

lemma stay_cleared_call:
  "\<lbrakk>stay_cleared S n s; unat (interval_counter s) + sets c < 2 ^ 32\<rbrakk> \<Longrightarrow>
   stay_cleared (S \<union> {t \<in> clears c. unat t < n}) n (run_call c s)
   \<and> unat (interval_counter (run_call c s)) = unat (interval_counter s) + sets c"
  unfolding clears_ops run_call_def sets_def by (rule stay_cleared_ops)

lemma stay_cleared_push:
  "\<lbrakk>stay_cleared S n s; ie_id e \<notin> set (cleared_during_fire s)\<rbrakk> \<Longrightarrow>
   stay_cleared S n (s\<lparr>pending_intervals := pending_intervals s @ [e\<lparr>ie_next_fire := t\<rparr>]\<rparr>)"
  unfolding stay_cleared_def by auto

lemma stay_cleared_calls:
  "\<lbrakk>stay_cleared S n s; unat (interval_counter s) + sum_list (map sets cs) < 2 ^ 32;
    cs = map (\<lambda>(i, e). js i (ie_func e)) (List.enumerate i es)\<rbrakk> \<Longrightarrow>
   stay_cleared (S \<union> {t \<in> (\<Union>c \<in> set cs. clears c). unat t < n}) n (snd (call_intervals js i es s))"
proof (induction js i es s arbitrary: S cs rule: call_intervals.induct)
  case (2 js i e es s)
  let ?c = "js i (ie_func e)" and ?cs = "map (\<lambda>(i, e). js i (ie_func e)) (List.enumerate (i + 1) es)"
  let ?s1 = "run_call ?c s" and ?S = "S \<union> {t \<in> clears ?c. unat t < n}"
  define s2 where "s2 = (if ie_id e \<in> set (cleared_during_fire ?s1) then ?s1
    else ?s1\<lparr>pending_intervals := pending_intervals ?s1 @ [e\<lparr>ie_next_fire := jc_end ?c + millis (ie_interval_ms e)\<rparr>]\<rparr>)"
  have cs: "cs = ?c # ?cs" using 2(4) by simp
  have b: "unat (interval_counter s) + (sets ?c + sum_list (map sets ?cs)) < 2 ^ 32" using 2(3) unfolding cs by simp
  have o: "stay_cleared ?S n ?s1" "unat (interval_counter ?s1) = unat (interval_counter s) + sets ?c"
    using stay_cleared_call [OF 2(2), of ?c] b by simp_all
  have s2: "stay_cleared ?S n s2" "interval_counter s2 = interval_counter ?s1"
    using stay_cleared_push [OF o(1)] o(1) by (simp_all add: s2_def)
  have "stay_cleared (?S \<union> {t \<in> (\<Union>c \<in> set ?cs. clears c). unat t < n}) n (snd (call_intervals js (i + 1) es s2))"
    by (rule 2(1) [OF refl refl s2_def s2(1) _ refl]) (use b o(2) s2(2) in simp)
  moreover have "?S \<union> {t \<in> (\<Union>c \<in> set ?cs. clears c). unat t < n} = S \<union> {t \<in> (\<Union>c \<in> set cs. clears c). unat t < n}"
    using cs by auto
  ultimately show ?case by (simp add: Let_def s2_def)
qed simp

lemma pump_loop_ends:
  "\<lbrakk>\<forall>i < length ts. t + i * 1000000 \<le> pt_now (ts ! i); deadline < t + (length ts - 1) * 1000000; ts \<noteq> []\<rbrakk>
   \<Longrightarrow> fst (pump_loop deadline ts s) \<noteq> None"
proof (induction ts arbitrary: t s)
  case (Cons u us)
  show ?case
  proof (cases "pt_promise u = Pending \<and> pt_now u \<le> deadline")
    case True
    have t: "t \<le> pt_now u" using Cons.prems(1) by force
    then have ne: "us \<noteq> []" using True Cons.prems(2) by auto
    have "\<forall>i < length us. (t + 1000000) + i * 1000000 \<le> pt_now (us ! i)"
    proof (intro allI impI)
      fix i assume "i < length us"
      then have "t + Suc i * 1000000 \<le> pt_now ((u # us) ! Suc i)" using Cons.prems(1) by (metis Suc_less_eq length_Cons)
      then show "(t + 1000000) + i * 1000000 \<le> pt_now (us ! i)" by simp
    qed
    moreover have "deadline < (t + 1000000) + (length us - 1) * 1000000"
      using Cons.prems(2) ne by (cases us) simp_all
    ultimately show ?thesis using Cons.IH ne True by (simp add: Let_def)
  qed (auto simp: Let_def split: promise_state.split)
qed simp

section \<open>Properties\<close>

text \<open>
  C23. A pass over the timeouts is exact. It calls the functions of all timeouts whose time has come and no others, once each, in
  the order in which they were set. Afterwards pending are the others, as the calls left them, and after them exactly
  those whose call V8 did not finish. What the calls do does not change which timeouts are called.
\<close>

theorem timeouts_fire_exactly:
  "fst (fire_pending_timeouts js now s) = map te_func (due_timeouts now s)
   \<and> (let cs = calls_of js (map te_func (due_timeouts now s));
          rest = s\<lparr>pending_timeouts := filter (\<lambda>e. \<not> te_fire_at e \<le> now) (pending_timeouts s)\<rparr>
      in pending_timeouts (snd (fire_pending_timeouts js now s)) =
           pending_timeouts (fold run_call cs rest)
             @ map fst (filter (\<lambda>(e, c). \<not> jc_completed c) (zip (due_timeouts now s) cs)))"
  by (simp add: fire_pending_timeouts_def drain_due_filter call_timeouts_exact due_timeouts_def calls_of_funcs Let_def)

text \<open>
  The handles of timeouts repeat after 99. The timeouts set from a fresh state get the handles 1 to 99 in a cycle, and
  clearing the handle of one removes exactly the timeouts whose index is the same modulo 99: with up to 99 timeouts
  only the one that is meant, with more also others.
\<close>

theorem timeout_handles_wrap:
  "fst (set_timeout t (Some f) d (set_all xs js_timers_new)) = of_nat (length xs mod 99 + 1)
   \<and> map te_func (pending_timeouts (clear_timeout (Number n) (set_all xs js_timers_new))) =
       [fst (snd (xs ! k)). k \<leftarrow> [0..<length xs], f_to_u32 n \<noteq> of_nat (k mod 99 + 1)]
   \<and> (\<forall>j k. (of_nat (j mod 99 + 1) :: u32) = of_nat (k mod 99 + 1) \<longleftrightarrow> j mod 99 = k mod 99)"
proof -
  have h: "of_nat (k mod 99 + 1) = timeout_handle k" for k by (simp add: timeout_handle_def)
  have "map te_func (pending_timeouts (clear_timeout (Number n) (set_all xs js_timers_new))) =
      map (\<lambda>(k, x). fst (snd x)) (filter (\<lambda>(k, x). timeout_handle k \<noteq> f_to_u32 n) (List.enumerate 0 xs))"
    by (simp add: clear_timeout_def set_all_state filter_map o_def case_prod_unfold)
  then show ?thesis unfolding h
    by (auto simp: enumerate_filter_mod handle_eq set_timeout_def Let_def set_all_state intro!: arg_cong [of _ _ concat])
qed

text \<open>
  C24. A cleared interval is never scheduled again. However the calls of a pass set and clear intervals, an interval that existed
  before the pass and that one of the calls clears is not pending after it, also when the call is its own. But it is
  called once more when it was due in the same pass: all due intervals are called.
\<close>

theorem cleared_intervals_stay_cleared:
  assumes "unat (interval_counter s) + sum_list (map sets (calls_of js (map ie_func (due_intervals now s)))) < 2 ^ 32"
    "c \<in> set (calls_of js (map ie_func (due_intervals now s)))" "t \<in> clears c" "t < interval_counter s"
  shows "t \<notin> ie_id ` set (pending_intervals (snd (fire_pending_intervals js now s)))
    \<and> fst (fire_pending_intervals js now s) = map ie_func (due_intervals now s)"
proof -
  let ?es = "due_intervals now s" and ?s = "s\<lparr>pending_intervals := filter (\<lambda>e. \<not> ie_next_fire e \<le> now) (pending_intervals s)\<rparr>"
  have "stay_cleared {} (unat (interval_counter s)) ?s" by (simp add: stay_cleared_def)
  then have "stay_cleared ({} \<union> {t \<in> (\<Union>c \<in> set (calls_of js (map ie_func ?es)). clears c). unat t < unat (interval_counter s)})
      (unat (interval_counter s)) (snd (call_intervals js 0 ?es ?s))"
    by (rule stay_cleared_calls [OF _ _ calls_of_funcs]) (use assms(1) in simp)
  then have "t \<notin> ie_id ` set (pending_intervals (snd (call_intervals js 0 ?es ?s)))"
    using assms(2-4) by (auto simp: stay_cleared_def word_less_nat_alt)
  then show ?thesis
    using call_intervals_names [of js 0 ?es ?s]
    by (simp add: fire_pending_intervals_def drain_due_filter due_intervals_def split_beta Let_def)
qed

theorem cleared_intervals_stay_cleared_witness:
  "let s = snd (set_interval 0 (Some ''g'') Absent (snd (set_interval 0 (Some ''f'') Absent js_timers_new)));
       js = (\<lambda>i f. \<lparr>jc_ops = [(0, ClearInterval (Number (Fin 101)))], jc_completed = True, jc_end = 1\<rparr>)
   in 101 \<notin> ie_id ` set (pending_intervals (snd (fire_pending_intervals js 5 s)))
      \<and> fst (fire_pending_intervals js 5 s) = [''f'', ''g'']"
proof -
  let ?s = "snd (set_interval 0 (Some ''g'') Absent (snd (set_interval 0 (Some ''f'') Absent js_timers_new)))"
  let ?c = "\<lparr>jc_ops = [(0, ClearInterval (Number (Fin 101)))], jc_completed = True, jc_end = 1\<rparr> :: string js_call"
  have d: "due_intervals 5 ?s = pending_intervals ?s" "interval_counter ?s = 102"
    "map ie_func (pending_intervals ?s) = [''f'', ''g'']"
    by (simp_all add: due_intervals_def set_interval_def Let_def js_timers_new_def delay_ms_def millis_def)
  have c: "calls_of (\<lambda>i f. ?c) [''f'', ''g''] = [?c, ?c]" by (simp add: calls_of_def)
  have f: "f_to_u32 (Fin 101) = 101" by (simp add: f_to_u32_def)
  have "101 \<in> clears ?c" using f by (force simp: clears_def)
  then show ?thesis
    using cleared_intervals_stay_cleared [of ?s "\<lambda>i f. ?c" 5 ?c 101] d c by (simp add: sets_def Let_def)
qed

text \<open>
  C25. The wait for the promise of a handler ends. As every turn takes at least the millisecond of its sleep, the loop has returned
  a value or an error after at most 30002 turns, whatever the promise and the timers do.
\<close>

theorem await_promise_ends:
  assumes "\<forall>i < length ts. started + i * 1000000 \<le> pt_now (ts ! i)" "length ts \<ge> 30002"
  shows "fst (await_promise started ts s) \<noteq> None"
proof -
  have "ts \<noteq> []" "started + 30 * 1000000000 < started + (length ts - 1) * 1000000" using assms(2) by auto
  then show ?thesis unfolding await_promise_def by (intro pump_loop_ends [OF assms(1)]) auto
qed

theorem await_promise_ends_witness:
  "let t = (\<lambda>i. \<lparr>pt_microtasks = \<lparr>jc_ops = [], jc_completed = True, jc_end = 0\<rparr>, pt_promise = Pending, pt_now = i * 1000000,
       pt_interval_now = 0, pt_interval_js = (\<lambda>_ _. \<lparr>jc_ops = [], jc_completed = True, jc_end = 0\<rparr>), pt_timeout_now = 0,
       pt_timeout_js = (\<lambda>_ _. \<lparr>jc_ops = [], jc_completed = True, jc_end = 0\<rparr>)\<rparr> :: (unit, unit) pump_turn)
   in fst (await_promise 0 (map t [0..<30002]) js_timers_new) \<noteq> None"
  unfolding Let_def by (rule await_promise_ends) simp_all

end
