(* ===== verification/Crypto_Bindings.thy ===== *)
theory Crypto_Bindings
  imports Web_Crypto Runtime_Timers
begin

text \<open>
  The callbacks of \<^verbatim>\<open>crypto.subtle\<close> (\<^verbatim>\<open>src/src/runtime/apis.rs\<close>): how they read their arguments, which checks they make before the
  operations of \<^verbatim>\<open>Web_Crypto\<close>, and how a key travels through a script, as a pointer in a property that the script can read and set.
\<close>

section \<open>Definitions\<close>

subsection \<open>Values\<close>

text \<open>
  A pointer that native code hands to a script points to a key or to the body of a response of \<^verbatim>\<open>fetch\<close>; V8 does not know which.
\<close>

datatype external_data = KeyPointer crypto_key | ResponsePointer bytes

datatype crypto_value =
    CUndefined
  | CNull
  | CBool bool
  | CNumber f64
  | CText string
  | CBytes bytes
  | CArray "crypto_value list"
  | CObject "(string \<times> crypto_value) list"
  | CExternal external_data
  | COther nat

text \<open>
  Conversions that run code of the script or of V8: to a text, to a number, properties that are not an object's own, the elements of an
  array-like object, and \<^verbatim>\<open>Promise.resolve\<close>.
\<close>

record value_env =
  ve_text :: "crypto_value \<Rightarrow> string option"
  ve_number :: "crypto_value \<Rightarrow> f64 option"
  ve_get :: "crypto_value \<Rightarrow> string \<Rightarrow> crypto_value option"
  ve_items :: "crypto_value \<Rightarrow> crypto_value list"
  ve_promise :: "crypto_value \<Rightarrow> crypto_value option"

definition nullish :: "crypto_value \<Rightarrow> bool" where
  "nullish v = (case v of CUndefined \<Rightarrow> True | CNull \<Rightarrow> True | _ \<Rightarrow> False)"

text \<open>\<^verbatim>\<open>to_object\<close> fails exactly for null and undefined.\<close>

definition value_text :: "value_env \<Rightarrow> crypto_value \<Rightarrow> string option" where
  "value_text venv v = (case v of CText s \<Rightarrow> Some s | CUndefined \<Rightarrow> Some ''undefined'' | CNull \<Rightarrow> Some ''null''
     | CBool b \<Rightarrow> Some (if b then ''true'' else ''false'') | _ \<Rightarrow> ve_text venv v)"

definition value_number :: "value_env \<Rightarrow> crypto_value \<Rightarrow> f64 option" where
  "value_number venv v = (case v of CNumber x \<Rightarrow> Some x | CUndefined \<Rightarrow> Some NaN | CNull \<Rightarrow> Some (Fin 0)
     | CBool b \<Rightarrow> Some (Fin (of_bool b)) | _ \<Rightarrow> ve_number venv v)"

definition value_get :: "value_env \<Rightarrow> crypto_value \<Rightarrow> string \<Rightarrow> crypto_value option" where
  "value_get venv v name = (case v of
       CObject ps \<Rightarrow> (case map_of ps name of Some w \<Rightarrow> Some w | None \<Rightarrow> ve_get venv v name)
     | _ \<Rightarrow> ve_get venv v name)"

definition value_items :: "value_env \<Rightarrow> crypto_value \<Rightarrow> crypto_value list" where
  "value_items venv v = (case v of CArray xs \<Rightarrow> xs | _ \<Rightarrow> ve_items venv v)"

definition carg :: "crypto_value list \<Rightarrow> nat \<Rightarrow> crypto_value" where
  "carg args i = (if i < length args then args ! i else CUndefined)"

definition text_or_empty :: "value_env \<Rightarrow> crypto_value option \<Rightarrow> string" where
  "text_or_empty venv v = (case Option.bind v (value_text venv) of Some s \<Rightarrow> s | None \<Rightarrow> [])"

definition key_usages_arg :: "value_env \<Rightarrow> crypto_value \<Rightarrow> key_usage list" where
  "key_usages_arg venv v = (if nullish v then []
     else List.map_filter (\<lambda>u. Option.bind (value_text venv u) usage_from_str) (value_items venv v))"

definition extract_array_buffer_view :: "crypto_value \<Rightarrow> bytes option" where
  "extract_array_buffer_view v = (case v of CBytes bs \<Rightarrow> Some bs | _ \<Rightarrow> None)"

text \<open>A pointer in the property is taken for one to a key, whatever it points to.\<close>

datatype key_pointer = NoKey | TheKey crypto_key | OtherMemory

definition extract_crypto_key :: "value_env \<Rightarrow> crypto_value \<Rightarrow> key_pointer" where
  "extract_crypto_key venv v = (case value_get venv v ''__crypto_key_ptr__'' of
       Some (CExternal (KeyPointer k)) \<Rightarrow> TheKey k
     | Some (CExternal (ResponsePointer _)) \<Rightarrow> OtherMemory
     | _ \<Rightarrow> NoKey)"

subsection \<open>Outcomes\<close>

text \<open>
  What a callback asks of V8: a return value, an error as the return value, an error thrown (with or without the class of type errors).
  \<open>MemoryConfusion\<close> is undefined behaviour: memory of another type was read as a key.
\<close>

datatype crypto_outcome =
    COk crypto_value
  | CErrorValue bool string
  | CThrown bool string
  | MemoryConfusion

definition crypto_done :: "('a \<Rightarrow> crypto_value) \<Rightarrow> 'a crypto_result \<Rightarrow> crypto_outcome" where
  "crypto_done f r = (case r of Inr x \<Rightarrow> COk (f x) | Inl e \<Rightarrow> CThrown False (crypto_error_text e))"

definition crypto_done_value :: "('a \<Rightarrow> crypto_value) \<Rightarrow> 'a crypto_result \<Rightarrow> crypto_outcome" where
  "crypto_done_value f r = (case r of Inr x \<Rightarrow> COk (f x) | Inl e \<Rightarrow> CErrorValue False (crypto_error_text e))"

definition bare_algorithm :: "algorithm_identifier \<Rightarrow> crypto_value" where
  "bare_algorithm a = CObject ((''name'', CText (algorithm_name a)) # (case a of
       AesGcm n \<Rightarrow> [(''length'', CNumber (f_of_nat (unat n)))]
     | _ \<Rightarrow> []))"

definition algorithm_object :: "algorithm_identifier \<Rightarrow> crypto_value" where
  "algorithm_object a = (case a of
       Hmac h n \<Rightarrow> CObject ([(''name'', CText (algorithm_name a)), (''hash'', CObject [(''name'', CText (hash_name h))])]
         @ (case n of Some m \<Rightarrow> [(''length'', CNumber (f_of_nat (unat m)))] | None \<Rightarrow> []))
     | _ \<Rightarrow> bare_algorithm a)"

definition key_object :: "(algorithm_identifier \<Rightarrow> crypto_value) \<Rightarrow> crypto_key \<Rightarrow> crypto_value" where
  "key_object alg k = CObject [(''__crypto_key_ptr__'', CExternal (KeyPointer k)), (''type'', CText (key_type k)),
     (''extractable'', CBool (ck_extractable k)), (''algorithm'', alg (ck_algorithm k)),
     (''usages'', CArray (map (\<lambda>u. CText (usage_str u)) (ck_usages k)))]"

subsection \<open>The callbacks\<close>

definition generate_aes_length :: "value_env \<Rightarrow> crypto_value \<Rightarrow> u16" where
  "generate_aes_length venv alg = (case Option.bind (value_get venv alg ''length'') (value_number venv) of
       Some x \<Rightarrow> f_to_u16 x | None \<Rightarrow> 256)"

definition hash_name_arg :: "value_env \<Rightarrow> crypto_value \<Rightarrow> string" where
  "hash_name_arg venv alg = (case value_get venv alg ''hash'' of
       None \<Rightarrow> []
     | Some v \<Rightarrow> (case value_text venv v of
           Some s \<Rightarrow> s
         | None \<Rightarrow> if nullish v then [] else text_or_empty venv (value_get venv v ''name'')))"

definition hmac_length_arg :: "value_env \<Rightarrow> crypto_value \<Rightarrow> u32 option" where
  "hmac_length_arg venv alg = (case value_get venv alg ''length'' of
       None \<Rightarrow> None
     | Some v \<Rightarrow> if nullish v then None
         else (case map_option f_to_u32 (value_number venv v) of Some n \<Rightarrow> if n > 0 then Some n else None | None \<Rightarrow> None))"

definition subtle_generate_key :: "crypto_env \<Rightarrow> value_env \<Rightarrow> crypto_value list \<Rightarrow> crypto_outcome" where
  "subtle_generate_key env venv args =
     (let alg = carg args 0; name = text_or_empty venv (value_get venv alg ''name'');
          extractable = (carg args 1 = CBool True); usages = key_usages_arg venv (carg args 2)
      in if length args < 3 then CErrorValue True ''generateKey requires 3 arguments: algorithm, extractable, keyUsages''
         else if nullish alg then CErrorValue True ''First argument must be an algorithm object''
         else if name = ''AES-GCM''
         then crypto_done_value (key_object algorithm_object) (aes_generate_key env (generate_aes_length venv alg) extractable usages)
         else if name = ''HMAC''
         then crypto_done_value (key_object algorithm_object)
           (hmac_generate_key env (case hash_from_name (hash_name_arg venv alg) of Some h \<Rightarrow> h | None \<Rightarrow> Sha256)
             (hmac_length_arg venv alg) extractable usages)
         else CErrorValue False (''Algorithm '' @ [CHR 0x27] @ name @ [CHR 0x27] @ '' not supported''))"

definition string_property :: "value_env \<Rightarrow> crypto_value \<Rightarrow> string \<Rightarrow> string option" where
  "string_property venv v name = Option.bind (value_get venv v name) (\<lambda>w. if nullish w then None else value_text venv w)"

definition bool_property :: "value_env \<Rightarrow> crypto_value \<Rightarrow> string \<Rightarrow> bool option" where
  "bool_property venv v name = Option.bind (value_get venv v name) (\<lambda>w. if nullish w then None else Some (w = CBool True))"

fun all_texts :: "value_env \<Rightarrow> crypto_value list \<Rightarrow> string list option" where
  "all_texts venv [] = Some []"
| "all_texts venv (x # xs) = Option.bind (value_text venv x) (\<lambda>s. map_option (Cons s) (all_texts venv xs))"

definition string_array_property :: "value_env \<Rightarrow> crypto_value \<Rightarrow> string \<Rightarrow> string list option" where
  "string_array_property venv v name =
     Option.bind (value_get venv v name) (\<lambda>w. if nullish w then None else all_texts venv (value_items venv w))"

definition jwk_from_object :: "value_env \<Rightarrow> crypto_value \<Rightarrow> jwk_object option" where
  "jwk_from_object venv v = map_option (\<lambda>kty. \<lparr>jwk_kty = kty, jwk_alg = string_property venv v ''alg'',
     jwk_k = string_property venv v ''k'', jwk_ext = bool_property venv v ''ext'',
     jwk_key_ops = string_array_property venv v ''key_ops''\<rparr>) (string_property venv v ''kty'')"

definition optional_property :: "string \<Rightarrow> ('a \<Rightarrow> crypto_value) \<Rightarrow> 'a option \<Rightarrow> (string \<times> crypto_value) list" where
  "optional_property name f x = (case x of Some y \<Rightarrow> [(name, f y)] | None \<Rightarrow> [])"

definition jwk_to_object :: "jwk_object \<Rightarrow> crypto_value" where
  "jwk_to_object jwk = CObject ((''kty'', CText (jwk_kty jwk)) # optional_property ''alg'' CText (jwk_alg jwk)
     @ optional_property ''k'' CText (jwk_k jwk) @ optional_property ''ext'' CBool (jwk_ext jwk)
     @ optional_property ''key_ops'' (\<lambda>ops. CArray (map CText ops)) (jwk_key_ops jwk))"

definition subtle_import_key :: "crypto_env \<Rightarrow> value_env \<Rightarrow> crypto_value list \<Rightarrow> crypto_outcome" where
  "subtle_import_key env venv args =
     (let format = text_or_empty venv (Some (carg args 0)); key_data = carg args 1; alg = carg args 2;
          name = text_or_empty venv (value_get venv alg ''name'');
          extractable = (carg args 3 = CBool True); usages = key_usages_arg venv (carg args 4)
      in if length args < 5 then CErrorValue True ''importKey requires 5 arguments: format, keyData, algorithm, extractable, keyUsages''
         else if nullish alg then CErrorValue True ''Third argument must be an algorithm object''
         else if format \<noteq> ''jwk'' then CErrorValue False (crypto_error_text CryptoNotSupported)
         else if nullish key_data then CErrorValue True ''JWK key data must be an object''
         else (case jwk_from_object venv key_data of
             None \<Rightarrow> CErrorValue True ''Invalid JWK format''
           | Some jwk \<Rightarrow> crypto_done_value (key_object algorithm_object)
               (if name = ''AES-GCM'' then aes_import_key_jwk env jwk extractable usages
                else if name = ''HMAC'' then hmac_import_key_jwk env jwk extractable usages
                else Inl (InvalidAlgorithm name))))"

text \<open>The key of an argument, with the texts of the two errors.\<close>

definition with_key :: "value_env \<Rightarrow> string \<Rightarrow> string \<Rightarrow> crypto_value \<Rightarrow> (crypto_key \<Rightarrow> crypto_outcome) \<Rightarrow> crypto_outcome" where
  "with_key venv no_object no_key v f = (if nullish v then CErrorValue True no_object
     else (case extract_crypto_key venv v of
         NoKey \<Rightarrow> CErrorValue True no_key | OtherMemory \<Rightarrow> MemoryConfusion | TheKey k \<Rightarrow> f k))"

definition with_bytes :: "string \<Rightarrow> crypto_value \<Rightarrow> (bytes \<Rightarrow> crypto_outcome) \<Rightarrow> crypto_outcome" where
  "with_bytes no_bytes v f = (case extract_array_buffer_view v of None \<Rightarrow> CErrorValue True no_bytes | Some bs \<Rightarrow> f bs)"

definition subtle_export_key :: "crypto_env \<Rightarrow> value_env \<Rightarrow> crypto_value list \<Rightarrow> crypto_outcome" where
  "subtle_export_key env venv args =
     (if length args < 2 then CErrorValue True ''exportKey requires 2 arguments: format, key''
      else with_key venv ''Second argument must be a CryptoKey'' ''Invalid CryptoKey'' (carg args 1) (\<lambda>k.
        if \<not> ck_extractable k then CThrown False ''The CryptoKey is not extractable''
        else if text_or_empty venv (Some (carg args 0)) = ''jwk''
        then crypto_done jwk_to_object (case ck_algorithm k of
            AesGcm _ \<Rightarrow> aes_export_key_jwk env k
          | Hmac _ _ \<Rightarrow> hmac_export_key_jwk env k
          | _ \<Rightarrow> Inl InvalidKey)
        else CErrorValue True ''Only JWK format is supported for export''))"

definition tag_length_arg :: "value_env \<Rightarrow> crypto_value \<Rightarrow> u16" where
  "tag_length_arg venv alg = (case value_get venv alg ''tagLength'' of
       None \<Rightarrow> 128
     | Some v \<Rightarrow> if nullish v then 128
         else (case map_option f_to_u16 (value_number venv v) of Some n \<Rightarrow> if n > 0 then n else 128 | None \<Rightarrow> 128))"

definition aes_gcm_arguments :: "value_env \<Rightarrow> crypto_value \<Rightarrow> aes_gcm_params" where
  "aes_gcm_arguments venv alg = \<lparr>
     ag_iv = (case Option.bind (value_get venv alg ''iv'') extract_array_buffer_view of Some bs \<Rightarrow> bs | None \<Rightarrow> []),
     ag_additional_data = Option.bind (value_get venv alg ''additionalData'') extract_array_buffer_view,
     ag_tag_length = tag_length_arg venv alg\<rparr>"

text \<open>Encryption and decryption read their arguments alike.\<close>

definition subtle_cipher ::
  "string \<Rightarrow> (crypto_key \<Rightarrow> aes_gcm_params \<Rightarrow> bytes \<Rightarrow> bytes crypto_result) \<Rightarrow> value_env \<Rightarrow> crypto_value list \<Rightarrow> crypto_outcome" where
  "subtle_cipher operation f venv args =
     (let alg = carg args 0; name = text_or_empty venv (value_get venv alg ''name'')
      in if length args < 3 then CErrorValue True (operation @ '' requires 3 arguments: algorithm, key, data'')
         else if nullish alg then CErrorValue True ''First argument must be an algorithm object''
         else with_key venv ''Second argument must be a CryptoKey'' ''Invalid CryptoKey'' (carg args 1) (\<lambda>k.
           with_bytes ''Third argument must be an ArrayBufferView'' (carg args 2) (\<lambda>data.
           crypto_done CBytes (if name = ''AES-GCM'' then f k (aes_gcm_arguments venv alg) data else Inl CryptoNotSupported))))"

definition subtle_encrypt :: "crypto_env \<Rightarrow> value_env \<Rightarrow> crypto_value list \<Rightarrow> crypto_outcome" where
  "subtle_encrypt env venv args = subtle_cipher ''encrypt'' (aes_encrypt env) venv args"

definition subtle_decrypt :: "crypto_env \<Rightarrow> value_env \<Rightarrow> crypto_value list \<Rightarrow> crypto_outcome" where
  "subtle_decrypt env venv args = subtle_cipher ''decrypt'' (aes_decrypt env) venv args"

text \<open>The first argument of signing and verifying, the algorithm, is not read.\<close>

definition subtle_sign :: "crypto_env \<Rightarrow> value_env \<Rightarrow> crypto_value list \<Rightarrow> crypto_outcome" where
  "subtle_sign env venv args =
     (if length args < 3 then CErrorValue True ''sign requires 3 arguments: algorithm, key, data''
      else with_key venv ''Second argument must be a CryptoKey'' ''Invalid CryptoKey'' (carg args 1) (\<lambda>k.
        with_bytes ''Third argument must be an ArrayBufferView'' (carg args 2) (\<lambda>data.
        crypto_done CBytes (case ck_algorithm k of Hmac _ _ \<Rightarrow> hmac_sign env k data | _ \<Rightarrow> Inl InvalidKey))))"

definition subtle_verify :: "crypto_env \<Rightarrow> value_env \<Rightarrow> crypto_value list \<Rightarrow> crypto_outcome" where
  "subtle_verify env venv args =
     (if length args < 4 then CErrorValue True ''verify requires 4 arguments: algorithm, key, signature, data''
      else with_key venv ''Second argument must be a CryptoKey'' ''Invalid CryptoKey'' (carg args 1) (\<lambda>k.
        with_bytes ''Third argument (signature) must be an ArrayBufferView'' (carg args 2) (\<lambda>signature.
        with_bytes ''Fourth argument (data) must be an ArrayBufferView'' (carg args 3) (\<lambda>data.
        crypto_done CBool (case ck_algorithm k of Hmac _ _ \<Rightarrow> hmac_verify env k data signature | _ \<Rightarrow> Inl InvalidKey)))))"

definition subtle_digest ::
  "(string \<Rightarrow> string) \<Rightarrow> crypto_env \<Rightarrow> value_env \<Rightarrow> crypto_value list \<Rightarrow> crypto_outcome" where
  "subtle_digest upper env venv args = (case value_text venv (carg args 0) of
       None \<Rightarrow> CErrorValue True ''First argument (algorithm) must be a string''
     | Some algorithm \<Rightarrow>
         with_bytes ''Second argument (data) must be an ArrayBufferView'' (carg args 1) (\<lambda>data.
         crypto_done (\<lambda>bs. case ve_promise venv (CBytes bs) of Some p \<Rightarrow> p | None \<Rightarrow> CBytes bs)
           (crypto_digest upper env algorithm data)))"

text \<open>\<^verbatim>\<open>to_integer\<close>, then \<^verbatim>\<open>as u32\<close> of its 64-bit value, which wraps.\<close>

definition integer_to_u32 :: "f64 \<Rightarrow> u32" where
  "integer_to_u32 x = (case x of
       Fin q \<Rightarrow> of_int (max (- (2 ^ 63)) (min (2 ^ 63 - 1) (if q < 0 then - \<lfloor>- q\<rfloor> else \<lfloor>q\<rfloor>)))
     | PInf \<Rightarrow> of_int (2 ^ 63 - 1)
     | NInf \<Rightarrow> of_int (- (2 ^ 63))
     | NaN \<Rightarrow> 0)"

text \<open>Both derivations start in the same way; \<open>f\<close> is given the private and the public key.\<close>

definition with_ecdh_keys ::
  "string \<Rightarrow> value_env \<Rightarrow> crypto_value list \<Rightarrow> (crypto_key \<Rightarrow> crypto_key \<Rightarrow> crypto_outcome) \<Rightarrow> crypto_outcome" where
  "with_ecdh_keys operation venv args f =
     (let alg = carg args 0; name = text_or_empty venv (value_get venv alg ''name'')
      in if nullish alg then CErrorValue True ''First argument must be an algorithm object''
         else if name \<noteq> ''ECDH'' then CThrown False (operation @ '': unsupported algorithm '' @ [CHR 0x27] @ name @ [CHR 0x27])
         else with_key venv ''algorithm.public must be a CryptoKey'' ''algorithm.public is not a valid CryptoKey''
             (case value_get venv alg ''public'' of Some v \<Rightarrow> v | None \<Rightarrow> CUndefined) (\<lambda>public_key.
           with_key venv ''Second argument must be a CryptoKey'' ''Invalid CryptoKey'' (carg args 1) (\<lambda>base_key.
           f base_key public_key)))"

definition subtle_derive_bits :: "('r, 's, 'c, 'd) key_env \<Rightarrow> value_env \<Rightarrow> crypto_value list \<Rightarrow> crypto_outcome" where
  "subtle_derive_bits kenv venv args =
     (if length args < 3 then CErrorValue True ''deriveBits requires 3 arguments: algorithm, baseKey, length''
      else with_ecdh_keys ''deriveBits'' venv args (\<lambda>base_key public_key.
        crypto_done CBytes (crypto_derive_bits kenv base_key public_key
          (if nullish (carg args 2) then None else map_option integer_to_u32 (value_number venv (carg args 2))))))"

definition derived_length_arg :: "value_env \<Rightarrow> crypto_value \<Rightarrow> u16" where
  "derived_length_arg venv alg = (case Option.bind (value_get venv alg ''length'') (value_number venv) of
       Some x \<Rightarrow> f_to_u16 x | None \<Rightarrow> 256)"

definition subtle_derive_key :: "('r, 's, 'c, 'd) key_env \<Rightarrow> value_env \<Rightarrow> crypto_value list \<Rightarrow> crypto_outcome" where
  "subtle_derive_key kenv venv args =
     (if length args < 5
      then CErrorValue True ''deriveKey requires 5 arguments: algorithm, baseKey, derivedKeyAlgorithm, extractable, keyUsages''
      else with_ecdh_keys ''deriveKey'' venv args (\<lambda>base_key public_key.
        if nullish (carg args 2) then CErrorValue True ''Third argument must be a derivedKeyAlgorithm object''
        else crypto_done (key_object bare_algorithm) (crypto_derive_key kenv base_key public_key
          (derived_length_arg venv (carg args 2)) (carg args 3 = CBool True) (key_usages_arg venv (carg args 4)))))"

section \<open>Keys that a script can hold\<close>

fun value_pointers :: "crypto_value \<Rightarrow> external_data list" where
  "value_pointers (CExternal e) = [e]"
| "value_pointers (CArray xs) = concat (map value_pointers xs)"
| "value_pointers (CObject ps) = concat (map (\<lambda>p. value_pointers (snd p)) ps)"
| "value_pointers _ = []"

datatype crypto_call = GenerateKey | ImportKey | ExportKey | EncryptData | DecryptData | SignData | VerifyData | DigestData | DeriveBitsOf | DeriveKeyOf

definition subtle_call ::
  "(string \<Rightarrow> string) \<Rightarrow> crypto_env \<Rightarrow> ('r, 's, 'c, 'd) key_env \<Rightarrow> value_env \<Rightarrow> crypto_call \<Rightarrow> crypto_value list \<Rightarrow> crypto_outcome" where
  "subtle_call upper env kenv venv c args = (case c of
       GenerateKey \<Rightarrow> subtle_generate_key env venv args
     | ImportKey \<Rightarrow> subtle_import_key env venv args
     | ExportKey \<Rightarrow> subtle_export_key env venv args
     | EncryptData \<Rightarrow> subtle_encrypt env venv args
     | DecryptData \<Rightarrow> subtle_decrypt env venv args
     | SignData \<Rightarrow> subtle_sign env venv args
     | VerifyData \<Rightarrow> subtle_verify env venv args
     | DigestData \<Rightarrow> subtle_digest upper env venv args
     | DeriveBitsOf \<Rightarrow> subtle_derive_bits kenv venv args
     | DeriveKeyOf \<Rightarrow> subtle_derive_key kenv venv args)"

text \<open>
  No script can make a pointer: whatever code of its own runs in a conversion (a getter, a changed prototype, an iterator), the answer has only
  pointers of \<open>W\<close>, those that native code has handed out. The code is otherwise free and can differ from call to call.
\<close>

definition opaque_pointers :: "external_data set \<Rightarrow> value_env \<Rightarrow> bool" where
  "opaque_pointers W venv \<longleftrightarrow> (\<forall>v name w. set (value_pointers v) \<subseteq> W \<and> ve_get venv v name = Some w \<longrightarrow> set (value_pointers w) \<subseteq> W)
     \<and> (\<forall>v. set (value_pointers v) \<subseteq> W \<longrightarrow> (\<forall>w\<in>set (ve_items venv v). set (value_pointers w) \<subseteq> W))
     \<and> (\<forall>v w. set (value_pointers v) \<subseteq> W \<and> ve_promise venv v = Some w \<longrightarrow> set (value_pointers w) \<subseteq> W)"

text \<open>
  The pointers that native code can have handed out to a script, as long as no call read other memory as a key: those of responses, and those
  in the results of calls.
\<close>

inductive pointer_world :: "('r, 's, 'c, 'd) key_env \<Rightarrow> external_data set \<Rightarrow> bool" for kenv where
    start: "pointer_world kenv {}"
  | response: "pointer_world kenv W \<Longrightarrow> pointer_world kenv (insert (ResponsePointer bs) W)"
  | call: "\<lbrakk>pointer_world kenv W; opaque_pointers W venv; \<forall>v\<in>set args. set (value_pointers v) \<subseteq> W;
      subtle_call upper env kenv venv c args = COk w\<rbrakk> \<Longrightarrow> pointer_world kenv (W \<union> set (value_pointers w))"

text \<open>A key of AES-GCM or HMAC, with material of that kind.\<close>

definition secret_key :: "crypto_key \<Rightarrow> bool" where
  "secret_key k = (case (ck_algorithm k, ck_handle k) of
       (AesGcm _, AesGcmKey _) \<Rightarrow> True | (Hmac _ _, HmacKey _) \<Rightarrow> True | _ \<Rightarrow> False)"

section \<open>Lemmas\<close>

lemma crypto_done_COk [simp]:
  "crypto_done f r = COk w \<longleftrightarrow> (\<exists>x. r = Inr x \<and> w = f x)"
  "crypto_done_value f r = COk w \<longleftrightarrow> (\<exists>x. r = Inr x \<and> w = f x)"
  "crypto_done f r \<noteq> MemoryConfusion" "crypto_done_value f r \<noteq> MemoryConfusion"
  by (auto simp: crypto_done_def crypto_done_value_def split: sum.splits)

lemma with_bytes_COk [simp]:
  "with_bytes m v f = COk w \<longleftrightarrow> (\<exists>bs. extract_array_buffer_view v = Some bs \<and> f bs = COk w)"
  "with_bytes m v f = MemoryConfusion \<longleftrightarrow> (\<exists>bs. extract_array_buffer_view v = Some bs \<and> f bs = MemoryConfusion)"
  by (auto simp: with_bytes_def split: option.splits)

lemma with_key_COk [simp]:
  "with_key venv a b v f = COk w \<longleftrightarrow> (\<exists>k. \<not> nullish v \<and> extract_crypto_key venv v = TheKey k \<and> f k = COk w)"
  "with_key venv a b v f = MemoryConfusion \<longleftrightarrow> \<not> nullish v \<and>
     (extract_crypto_key venv v = OtherMemory \<or> (\<exists>k. extract_crypto_key venv v = TheKey k \<and> f k = MemoryConfusion))"
  by (auto simp: with_key_def split: key_pointer.splits)

lemma generated_secret:
  "aes_generate_key env n x us = Inr k \<Longrightarrow> secret_key k"
  "hmac_generate_key env h m x us = Inr k \<Longrightarrow> secret_key k"
  "aes_import_key_jwk env jwk x us = Inr k \<Longrightarrow> secret_key k"
  "hmac_import_key_jwk env jwk x us = Inr k \<Longrightarrow> secret_key k"
  "crypto_derive_key kenv base public n x us = Inr k \<Longrightarrow> secret_key k"
  by (auto simp: aes_generate_key_def hmac_generate_key_def aes_import_key_jwk_def hmac_import_key_jwk_def crypto_derive_key_def
    bind_res_Inr Let_def secret_key_def crypto_key_new_def split: if_splits)

lemma no_text_pointers [simp]: "concat (map (\<lambda>x. value_pointers (CText (f x))) xs) = []"
  by (induction xs) simp_all

lemma key_object_pointers [simp]:
  "value_pointers (key_object algorithm_object k) = [KeyPointer k]" "value_pointers (key_object bare_algorithm k) = [KeyPointer k]"
  by (auto simp: key_object_def algorithm_object_def bare_algorithm_def comp_def split: algorithm_identifier.splits option.splits)

lemma jwk_object_pointers [simp]: "value_pointers (jwk_to_object jwk) = []"
  by (auto simp: jwk_to_object_def optional_property_def comp_def split: option.splits)

lemma map_of_pointers:
  assumes "map_of ps name = Some w"
  shows "set (value_pointers w) \<subseteq> set (value_pointers (CObject ps))"
proof -
  have "(name, w) \<in> set ps" using assms by (rule map_of_SomeD)
  then show ?thesis by force
qed

lemma part_pointers:
  assumes "opaque_pointers W venv" "set (value_pointers v) \<subseteq> W" "value_get venv v name = Some w"
  shows "set (value_pointers w) \<subseteq> W"
proof -
  consider ps where "v = CObject ps" "map_of ps name = Some w" | "ve_get venv v name = Some w"
    using assms(3) by (cases v) (auto simp: value_get_def split: option.splits)
  then show ?thesis
  proof cases
    case 1
    then show ?thesis using map_of_pointers [of ps name w] assms(2) by blast
  next
    case 2
    then show ?thesis using assms(1,2) unfolding opaque_pointers_def by blast
  qed
qed

lemma extracted_pointer:
  assumes "opaque_pointers W venv" "set (value_pointers v) \<subseteq> W"
  shows "extract_crypto_key venv v = TheKey k \<Longrightarrow> KeyPointer k \<in> W"
    "extract_crypto_key venv v = OtherMemory \<Longrightarrow> \<exists>bs. ResponsePointer bs \<in> W"
  using part_pointers [OF assms, of "''__crypto_key_ptr__''"]
  by (force simp: extract_crypto_key_def split: option.splits crypto_value.splits external_data.splits)+

lemma carg_pointers: "\<forall>v\<in>set args. set (value_pointers v) \<subseteq> W \<Longrightarrow> set (value_pointers (carg args i)) \<subseteq> W"
  by (simp add: carg_def)

lemma call_pointers:
  assumes "opaque_pointers W venv" "\<forall>v\<in>set args. set (value_pointers v) \<subseteq> W" "subtle_call upper env kenv venv c args = COk w"
    "KeyPointer k \<in> set (value_pointers w)"
  shows "KeyPointer k \<in> W \<or> secret_key k"
proof (cases c)
  case GenerateKey
  with assms(3,4) show ?thesis
    by (auto simp: subtle_call_def subtle_generate_key_def Let_def dest: generated_secret split: if_splits)
next
  case ImportKey
  with assms(3,4) show ?thesis
    by (auto simp: subtle_call_def subtle_import_key_def Let_def dest: generated_secret split: if_splits option.splits)
next
  case DeriveKeyOf
  with assms(3,4) show ?thesis
    by (auto simp: subtle_call_def subtle_derive_key_def with_ecdh_keys_def Let_def dest: generated_secret split: if_splits)
next
  case DigestData
  have "KeyPointer k \<in> W" if "ve_promise venv (CBytes x) = Some p" "KeyPointer k \<in> set (value_pointers p)" for x p
  proof -
    have "set (value_pointers (CBytes x)) \<subseteq> W" by simp
    with that assms(1) show ?thesis unfolding opaque_pointers_def by blast
  qed
  with assms(3,4) DigestData show ?thesis
    by (auto simp: subtle_call_def subtle_digest_def split: option.split_asm)
qed (use assms(3,4) in \<open>auto simp: subtle_call_def subtle_export_key_def subtle_encrypt_def subtle_decrypt_def subtle_cipher_def
   subtle_sign_def subtle_verify_def subtle_derive_bits_def with_ecdh_keys_def Let_def split: if_splits\<close>)

lemma world_keys_secret:
  assumes "pointer_world kenv W" "KeyPointer k \<in> W"
  shows "secret_key k"
  using assms
proof (induction arbitrary: k rule: pointer_world.induct)
  case (call W venv args upper env c w)
  then show ?case using call_pointers [OF call.hyps(2-4), of k] by blast
qed auto

lemma secret_key_curve: "secret_key k \<Longrightarrow> key_curve (ck_algorithm k) = None"
  by (auto simp: secret_key_def key_curve_def split: algorithm_identifier.splits)

lemma usage_from_str_str [simp]: "usage_from_str (usage_str u) = Some u"
  by (cases u) (simp_all add: usage_from_str_def usage_str_def)

lemma key_usages_arg_texts [simp]: "key_usages_arg venv (CArray (map (\<lambda>u. CText (usage_str u)) us)) = us"
  by (induction us) (simp_all add: key_usages_arg_def nullish_def value_items_def value_text_def List.map_filter_simps)

lemma all_texts_texts [simp]: "all_texts venv (map CText ss) = Some ss"
  by (induction ss) (simp_all add: value_text_def)

lemma jwk_object_back:
  "jwk_from_object venv (jwk_to_object (jwk_new_symmetric alg k x ops)) = Some (jwk_new_symmetric alg k x ops)"
  by (simp add: jwk_from_object_def jwk_to_object_def jwk_new_symmetric_def optional_property_def string_property_def bool_property_def
    string_array_property_def value_get_def nullish_def value_text_def value_items_def)

lemma key_object_key [simp]: "extract_crypto_key venv (key_object f k) = TheKey k" "\<not> nullish (key_object f k)"
  by (simp_all add: extract_crypto_key_def key_object_def value_get_def nullish_def)

lemma exported_object:
  "aes_export_key_jwk env k = Inr jwk \<Longrightarrow> jwk_from_object venv (jwk_to_object jwk) = Some jwk"
  "hmac_export_key_jwk env k = Inr jwk \<Longrightarrow> jwk_from_object venv (jwk_to_object jwk) = Some jwk"
  by (auto simp: aes_export_key_jwk_def hmac_export_key_jwk_def bind_res_Inr jwk_object_back
    split: if_splits crypto_key_handle.splits algorithm_identifier.splits)

section \<open>Properties\<close>

definition plain_values :: value_env where
  "plain_values = \<lparr>ve_text = (\<lambda>_. Some ''[object Object]''), ve_number = (\<lambda>_. Some NaN), ve_get = (\<lambda>_ _. Some CUndefined),
     ve_items = (\<lambda>_. []), ve_promise = Some\<rparr>"

lemma plain_values_opaque: "opaque_pointers W plain_values"
  by (auto simp: opaque_pointers_def plain_values_def)

text \<open>A script that has put the pointer of a response into the prototype of all objects.\<close>

definition prototype_values :: "bytes \<Rightarrow> value_env" where
  "prototype_values bs = plain_values\<lparr>ve_get := (\<lambda>v name. if name = ''__crypto_key_ptr__'' then Some (CExternal (ResponsePointer bs))
     else Some CUndefined)\<rparr>"

lemma prototype_values_opaque: "ResponsePointer bs \<in> W \<Longrightarrow> opaque_pointers W (prototype_values bs)"
  by (auto simp: opaque_pointers_def prototype_values_def plain_values_def split: if_splits)

text \<open>
  C30. Export and import in a script. The object that \<^verbatim>\<open>exportKey\<close> gives for a key, passed to \<^verbatim>\<open>importKey\<close> with the name of the
  algorithm, gives the same key, with the flag and the usages that the import asks for.
\<close>

theorem script_key_roundtrip:
  assumes "base64_law env" "symmetric_key_ok k"
    "subtle_export_key env venv [CText ''jwk'', key_object algorithm_object k] = COk w"
  shows "subtle_import_key env venv [CText ''jwk'', w, CObject [(''name'', CText (algorithm_name (ck_algorithm k)))], CBool x,
      CArray (map (\<lambda>u. CText (usage_str u)) us)]
    = COk (key_object algorithm_object (k\<lparr>ck_extractable := x, ck_usages := us\<rparr>))"
proof -
  obtain jwk where w: "w = jwk_to_object jwk"
    and e: "(case ck_algorithm k of AesGcm _ \<Rightarrow> aes_export_key_jwk env k | Hmac _ _ \<Rightarrow> hmac_export_key_jwk env k | _ \<Rightarrow> Inl InvalidKey) = Inr jwk"
    using assms(3) by (auto simp: subtle_export_key_def carg_def split: if_splits)
  have j: "jwk_from_object venv w = Some jwk" "\<not> nullish w"
    using e by (auto simp: w nullish_def jwk_to_object_def dest: exported_object split: algorithm_identifier.splits)
  have n: "(if algorithm_name (ck_algorithm k) = ''AES-GCM'' then aes_import_key_jwk env jwk x us
      else if algorithm_name (ck_algorithm k) = ''HMAC'' then hmac_import_key_jwk env jwk x us
      else Inl (InvalidAlgorithm (algorithm_name (ck_algorithm k)))) = Inr (k\<lparr>ck_extractable := x, ck_usages := us\<rparr>)"
    using e aes_jwk_back [OF assms(1,2)] hmac_jwk_back [OF assms(1,2)]
    by (cases "ck_algorithm k") (auto simp: algorithm_name_def)
  show ?thesis using j
    by (simp add: subtle_import_key_def carg_def text_or_empty_def value_text_def value_get_def nullish_def n)
qed

theorem script_key_roundtrip_witness:
  "\<exists>w. subtle_import_key (crypto_sample (jwk_new_symmetric [] [] True [])) plain_values [CText ''jwk'', w, CObject [(''name'', CText ''AES-GCM'')],
      CBool False, CArray (map (\<lambda>u. CText (usage_str u)) [Decrypt])]
    = COk (key_object algorithm_object (sample_aes_key\<lparr>ck_extractable := False, ck_usages := [Decrypt]\<rparr>))"
proof -
  have "symmetric_key_ok sample_aes_key" "ck_algorithm sample_aes_key = AesGcm 128"
    by (simp_all add: symmetric_key_ok_def sample_aes_key_def crypto_key_new_def)
  moreover have "\<exists>w. subtle_export_key (crypto_sample (jwk_new_symmetric [] [] True [])) plain_values
      [CText ''jwk'', key_object algorithm_object sample_aes_key] = COk w"
    by (simp add: subtle_export_key_def carg_def text_or_empty_def value_text_def sample_aes_key_def crypto_key_new_def aes_export_key_jwk_def)
  ultimately show ?thesis using script_key_roundtrip [OF crypto_sample_laws(1), of sample_aes_key _ plain_values _ False "[Decrypt]"]
    by (auto simp: algorithm_name_def)
qed

text \<open>
  C31. A script never derives bits or a key. As long as no call has read other memory as a key, every key whose pointer the script can hold,
  after any calls and whatever code of its own ran in them, is a key of AES-GCM or HMAC with material of that kind; and with such
  pointers neither \<^verbatim>\<open>deriveBits\<close> nor \<^verbatim>\<open>deriveKey\<close> succeeds, whatever the arguments, their getters and their prototypes are.
\<close>

theorem scripts_never_derive:
  assumes "pointer_world kenv W" "opaque_pointers W venv" "\<forall>v\<in>set args. set (value_pointers v) \<subseteq> W"
  shows "(\<forall>k. KeyPointer k \<in> W \<longrightarrow>
        (\<exists>n bs. ck_algorithm k = AesGcm n \<and> ck_handle k = AesGcmKey bs) \<or> (\<exists>h n bs. ck_algorithm k = Hmac h n \<and> ck_handle k = HmacKey bs))
    \<and> subtle_derive_bits kenv venv args \<noteq> COk w \<and> subtle_derive_key kenv venv args \<noteq> COk w"
proof -
  have "(\<exists>n bs. ck_algorithm k = AesGcm n \<and> ck_handle k = AesGcmKey bs) \<or> (\<exists>h n bs. ck_algorithm k = Hmac h n \<and> ck_handle k = HmacKey bs)"
    if "KeyPointer k \<in> W" for k
    using world_keys_secret [OF assms(1) that] by (auto simp: secret_key_def split: algorithm_identifier.splits crypto_key_handle.splits)
  moreover have "crypto_derive_bits kenv k p n \<noteq> Inr bs" if "extract_crypto_key venv (carg args 1) = TheKey k" for k p n bs
  proof -
    have "secret_key k" using world_keys_secret [OF assms(1)] extracted_pointer(1) [OF assms(2) carg_pointers [OF assms(3)] that] .
    then show ?thesis using secret_key_curve by (simp add: crypto_derive_bits_def)
  qed
  ultimately show ?thesis
    by (auto simp: subtle_derive_bits_def subtle_derive_key_def with_ecdh_keys_def Let_def crypto_derive_key_def bind_res_Inr split: if_splits)
qed

theorem scripts_never_derive_witness:
  "subtle_derive_bits no_keys (prototype_values [1]) [CObject [(''name'', CText ''ECDH'')],
     key_object algorithm_object (crypto_key_new (AesGcmKey (replicate 16 0)) (AesGcm 128) True []), CNumber (Fin 256)] \<noteq> COk (CBytes [1])"
proof -
  let ?k = "crypto_key_new (AesGcmKey (replicate 16 0)) (AesGcm 128) True []"
  let ?args = "[CObject [(''name'', CText ''AES-GCM''), (''length'', CNumber (Fin 128))], CBool True, CArray []]"
  have "f_to_u16 (Fin 128) = 128" by (simp add: f_to_u16_def)
  then have g: "subtle_call (\<lambda>s. s) (crypto_sample (jwk_new_symmetric [] [] True [])) no_keys plain_values GenerateKey ?args
      = COk (key_object algorithm_object ?k)"
    by (simp add: subtle_call_def subtle_generate_key_def carg_def text_or_empty_def value_get_def value_text_def nullish_def
      generate_aes_length_def value_number_def key_usages_arg_def value_items_def aes_generate_key_def crypto_sample_def Let_def
      bind_res_Inr ok_or_def List.map_filter_simps)
  have "pointer_world no_keys {ResponsePointer [1]}" by (rule pointer_world.response) (rule pointer_world.start)
  then have "pointer_world no_keys ({ResponsePointer [1]} \<union> set (value_pointers (key_object algorithm_object ?k)))"
    by (rule pointer_world.call [OF _ plain_values_opaque _ g]) simp
  then have "pointer_world no_keys {KeyPointer ?k, ResponsePointer [1]}" by simp
  then show ?thesis
    using scripts_never_derive [OF _ prototype_values_opaque, of no_keys "{KeyPointer ?k, ResponsePointer [1]}" "[1]"
      "[CObject [(''name'', CText ''ECDH'')], key_object algorithm_object ?k, CNumber (Fin 256)]" "CBytes [1]"] by simp
qed

text \<open>
  C29. Memory confusion. A call reads memory of another type as a key only if the script has got a response from \<^verbatim>\<open>fetch\<close>, whatever code of its own runs
  in the call; and every script that has one can make it do so, by passing an object with the pointer of the response as its own property,
  or any object once the pointer is in the prototype that it inherits from.
\<close>

theorem response_taken_for_key:
  assumes "opaque_pointers W venv" "\<forall>v\<in>set args. set (value_pointers v) \<subseteq> W"
  shows "(subtle_call upper env kenv venv c args = MemoryConfusion \<longrightarrow> (\<exists>bs. ResponsePointer bs \<in> W))
    \<and> pointer_world kenv {ResponsePointer bs}
    \<and> subtle_sign env venv [a, CObject [(''__crypto_key_ptr__'', CExternal (ResponsePointer bs))], d] = MemoryConfusion
    \<and> (ve_get venv (CObject []) ''__crypto_key_ptr__'' = Some (CExternal (ResponsePointer bs)) \<longrightarrow>
         subtle_sign env venv [a, CObject [], d] = MemoryConfusion)"
proof -
  have arg: "\<exists>bs. ResponsePointer bs \<in> W" if "extract_crypto_key venv (carg args i) = OtherMemory" for i
    by (rule extracted_pointer(2) [OF assms(1) carg_pointers [OF assms(2)] that])
  have public: "\<exists>bs. ResponsePointer bs \<in> W"
    if "value_get venv (carg args 0) ''public'' = Some v" "extract_crypto_key venv v = OtherMemory" for v
    by (rule extracted_pointer(2) [OF assms(1) part_pointers [OF assms(1) carg_pointers [OF assms(2)] that(1)] that(2)])
  have "\<exists>bs. ResponsePointer bs \<in> W" if m: "subtle_call upper env kenv venv c args = MemoryConfusion"
    using m arg public
    by (cases c; auto simp: subtle_call_def subtle_generate_key_def subtle_import_key_def subtle_export_key_def subtle_encrypt_def
      subtle_decrypt_def subtle_cipher_def subtle_sign_def subtle_verify_def subtle_digest_def subtle_derive_bits_def subtle_derive_key_def
      with_ecdh_keys_def Let_def nullish_def [of CUndefined] split: if_splits option.splits)
  moreover have "pointer_world kenv {ResponsePointer bs}" by (rule pointer_world.response) (rule pointer_world.start)
  ultimately show ?thesis
    by (simp add: subtle_sign_def carg_def with_key_def nullish_def extract_crypto_key_def value_get_def)
qed

theorem response_taken_for_key_witness:
  "subtle_sign (crypto_sample (jwk_new_symmetric [] [] True [])) (prototype_values [1, 2]) [CNull, CObject [], CBytes []] = MemoryConfusion"
  using response_taken_for_key [OF prototype_values_opaque [of "[1, 2]" "{ResponsePointer [1, 2]}"], of "[]"
    "\<lambda>s. s" "crypto_sample (jwk_new_symmetric [] [] True [])" no_keys GenerateKey "[1, 2]" CNull "CBytes []"]
  by (simp add: prototype_values_def)

text \<open>
  Defaults of \<^verbatim>\<open>generateKey\<close>. Without a length a key for AES-GCM is refused, as one of length 0. For HMAC a hash given as an object, and any
  unknown hash, counts as SHA-256. Refusals are returned as values, not thrown.
\<close>

theorem generate_key_defaults:
  assumes "\<And>ps. ve_get venv (CObject ps) ''length'' = Some CUndefined" "\<And>ps. ve_text venv (CObject ps) = Some ''[object Object]''"
  shows "subtle_generate_key env venv [CObject [(''name'', CText ''AES-GCM'')], CBool x, CArray us]
      = CErrorValue False ''Invalid algorithm: Invalid AES-GCM key length: 0''
    \<and> subtle_generate_key env venv [CObject [(''name'', CText ''HMAC''), (''hash'', CObject ps)], CBool x, CArray us]
      = crypto_done_value (key_object algorithm_object) (hmac_generate_key env Sha256 None x (key_usages_arg venv (CArray us)))
    \<and> subtle_generate_key env venv [CObject [(''name'', CText ''ECDH'')], CBool x, CArray us]
      = CErrorValue False (''Algorithm '' @ [CHR 0x27] @ ''ECDH'' @ [CHR 0x27] @ '' not supported'')"
proof -
  have z: "f_to_u16 NaN = 0" by (simp add: f_to_u16_def)
  have d: "show_nat 0 = ''0''" by code_simp
  have h: "hash_from_name ''[object Object]'' = None" by (simp add: hash_from_name_def)
  show ?thesis
    by (simp add: subtle_generate_key_def carg_def text_or_empty_def value_text_def value_get_def nullish_def generate_aes_length_def
      value_number_def assms z d aes_generate_key_def crypto_done_value_def crypto_error_text_def hash_name_arg_def h hmac_length_arg_def)
qed

theorem generate_key_defaults_witness:
  "subtle_generate_key (crypto_sample (jwk_new_symmetric [] [] True [])) plain_values [CObject [(''name'', CText ''AES-GCM'')], CBool True, CArray []]
     = CErrorValue False ''Invalid algorithm: Invalid AES-GCM key length: 0''"
proof -
  have "ve_get plain_values (CObject ps) ''length'' = Some CUndefined" "ve_text plain_values (CObject ps) = Some ''[object Object]''" for ps
    by (simp_all add: plain_values_def)
  from generate_key_defaults [OF this] show ?thesis by blast
qed

text \<open>A key that may not be extracted is never exported, whatever the script writes into its properties.\<close>

lemma export_needs_flag:
  "subtle_export_key env venv args = COk w \<Longrightarrow>
     \<exists>k. extract_crypto_key venv (carg args 1) = TheKey k \<and> ck_extractable k \<and> text_or_empty venv (Some (carg args 0)) = ''jwk''"
  by (auto simp: subtle_export_key_def split: if_splits)

end
