(* ===== verification/Host_Fs.thy ===== *)
theory Host_Fs
  imports Nano_Prelude
begin

text \<open>
  The file system of the host as the disk backend uses it through \<^verbatim>\<open>std::fs\<close>: a tree of
  directories and files with their times, without symbolic links. A location is the list of names
  from the root; a path is resolved against the working directory, a dot names the directory
  itself and two dots its parent. The operations return the tree they leave or the error of the
  operating system. \<open>tree_wf\<close> says that every entry lies in a directory.
\<close>

section \<open>Definitions\<close>

type_synonym loc = "string list"

datatype node = NDir | NFile bytes nat nat

type_synonym host_tree = "(loc \<times> node) list"

datatype io_error = IoNotFound | IoPermissionDenied | IoOther string

fun walk :: "loc \<Rightarrow> string list \<Rightarrow> loc" where
  "walk l [] = l"
| "walk l (c # cs) =
     walk (if c = [] \<or> c = ''.'' then l else if c = ''..'' then butlast l else l @ [c]) cs"

definition locate :: "loc \<Rightarrow> string \<Rightarrow> loc" where
  "locate cwd p = walk (if path_is_absolute p then [] else cwd) (split_on (CHR ''/'') p)"

definition node_at :: "host_tree \<Rightarrow> loc \<Rightarrow> node option" where
  "node_at t l = (if l = [] then Some NDir else map_of t l)"

definition is_file_at :: "host_tree \<Rightarrow> loc \<Rightarrow> bool" where
  "is_file_at t l = (case node_at t l of Some (NFile _ _ _) \<Rightarrow> True | _ \<Rightarrow> False)"

definition host_stat :: "host_tree \<Rightarrow> loc \<Rightarrow> io_error + node" where
  "host_stat t l =
     (if list_ex (\<lambda>k. is_file_at t (take k l)) [0..<length l] then Inl (IoOther ''Not a directory'')
      else case node_at t l of Some n \<Rightarrow> Inr n | None \<Rightarrow> Inl IoNotFound)"

definition host_read :: "host_tree \<Rightarrow> loc \<Rightarrow> io_error + bytes" where
  "host_read t l = (case host_stat t l of
       Inl e \<Rightarrow> Inl e
     | Inr NDir \<Rightarrow> Inl (IoOther ''Is a directory'')
     | Inr (NFile c _ _) \<Rightarrow> Inr c)"

definition host_create_dir_all :: "host_tree \<Rightarrow> loc \<Rightarrow> io_error + host_tree" where
  "host_create_dir_all t l =
     (if list_ex (\<lambda>k. is_file_at t (take k l)) [0..<Suc (length l)] then Inl (IoOther ''Not a directory'')
      else Inr (fold (\<lambda>k t. if node_at t (take k l) = None then AList.update (take k l) NDir t else t)
             [1..<Suc (length l)] t))"

text \<open>\<^verbatim>\<open>File::create\<close> makes an empty file or truncates an existing one; \<open>host_write\<close> writes to it.\<close>

definition host_create :: "nat \<Rightarrow> host_tree \<Rightarrow> loc \<Rightarrow> io_error + host_tree" where
  "host_create now t l =
     (if l = [] then Inl (IoOther ''Is a directory'')
      else case host_stat t (butlast l) of
          Inl e \<Rightarrow> Inl e
        | Inr (NFile _ _ _) \<Rightarrow> Inl (IoOther ''Not a directory'')
        | Inr NDir \<Rightarrow> (case node_at t l of
              Some NDir \<Rightarrow> Inl (IoOther ''Is a directory'')
            | Some (NFile _ created _) \<Rightarrow> Inr (AList.update l (NFile [] created now) t)
            | None \<Rightarrow> Inr (AList.update l (NFile [] now now) t)))"

definition host_write :: "nat \<Rightarrow> host_tree \<Rightarrow> loc \<Rightarrow> bytes \<Rightarrow> host_tree" where
  "host_write now t l c = (case node_at t l of
       Some (NFile _ created _) \<Rightarrow> AList.update l (NFile c created now) t
     | _ \<Rightarrow> t)"

definition host_rename :: "host_tree \<Rightarrow> loc \<Rightarrow> loc \<Rightarrow> io_error + host_tree" where
  "host_rename t a b = (case host_stat t a of
       Inl e \<Rightarrow> Inl e
     | Inr n \<Rightarrow> (case host_stat t b of
           Inr NDir \<Rightarrow> Inl (IoOther ''Is a directory'')
         | _ \<Rightarrow> Inr (AList.update b n (AList.delete a t))))"

definition host_remove :: "host_tree \<Rightarrow> loc \<Rightarrow> io_error + host_tree" where
  "host_remove t l = (case host_stat t l of
       Inl e \<Rightarrow> Inl e
     | Inr NDir \<Rightarrow> Inl (IoOther ''Is a directory'')
     | Inr (NFile _ _ _) \<Rightarrow> Inr (AList.delete l t))"

definition host_read_dir :: "host_tree \<Rightarrow> loc \<Rightarrow> io_error + string list" where
  "host_read_dir t l = (case host_stat t l of
       Inl e \<Rightarrow> Inl e
     | Inr (NFile _ _ _) \<Rightarrow> Inl (IoOther ''Not a directory'')
     | Inr NDir \<Rightarrow> Inr (map last (filter (\<lambda>k. k \<noteq> [] \<and> butlast k = l) (map fst t))))"

text \<open>The contents of the files, and well-formed trees.\<close>

definition file_at :: "host_tree \<Rightarrow> loc \<rightharpoonup> bytes" where
  "file_at t l = (case node_at t l of Some (NFile c _ _) \<Rightarrow> Some c | _ \<Rightarrow> None)"

definition tree_wf :: "host_tree \<Rightarrow> bool" where
  "tree_wf t = (distinct (map fst t)
     \<and> list_all (\<lambda>(l, n). l \<noteq> [] \<and> node_at t (butlast l) = Some NDir) t)"

section \<open>Well-formed trees\<close>

lemma node_at_update: "l \<noteq> [] \<Longrightarrow> node_at (AList.update l n t) = (node_at t)(l \<mapsto> n)"
  by (auto simp: node_at_def)

lemma node_at_delete: "l \<noteq> [] \<Longrightarrow> node_at (AList.delete l t) = (node_at t)(l := None)"
  by (auto simp: node_at_def)

lemma node_at_Nil [simp]: "node_at t [] = Some NDir"
  by (simp add: node_at_def)

lemma tree_wf_iff:
  "tree_wf t \<longleftrightarrow> distinct (map fst t) \<and> [] \<notin> fst ` set t
     \<and> (\<forall>l. l \<noteq> [] \<and> node_at t l \<noteq> None \<longrightarrow> node_at t (butlast l) = Some NDir)"
proof -
  have "tree_wf t \<longleftrightarrow> distinct (map fst t)
      \<and> (\<forall>l \<in> fst ` set t. l \<noteq> [] \<and> node_at t (butlast l) = Some NDir)"
    by (auto simp: tree_wf_def list_all_iff case_prod_beta)
  moreover have "node_at t l \<noteq> None \<longleftrightarrow> l \<in> fst ` set t" if "l \<noteq> []" for l
    using that by (simp add: node_at_def map_of_eq_None_iff)
  moreover have "(\<forall>l \<in> K. l \<noteq> [] \<and> P l) \<longleftrightarrow> [] \<notin> K \<and> (\<forall>l. l \<noteq> [] \<and> Q l \<longrightarrow> P l)"
    if "\<And>l. l \<noteq> [] \<Longrightarrow> Q l \<longleftrightarrow> l \<in> K" for K :: "loc set" and P Q
    using that by metis
  ultimately show ?thesis by presburger
qed

lemma tree_wf_parent:
  "\<lbrakk>tree_wf t; l \<noteq> []; node_at t l \<noteq> None\<rbrakk> \<Longrightarrow> node_at t (butlast l) = Some NDir"
  by (simp add: tree_wf_iff)

lemma tree_wf_ancestor:
  assumes "tree_wf t" "node_at t l \<noteq> None" "k < length l"
  shows "node_at t (take k l) = Some NDir"
  using assms(2,3)
proof (induction "length l" arbitrary: l)
  case (Suc n)
  then have ne: "l \<noteq> []" by auto
  then have p: "node_at t (butlast l) = Some NDir" using tree_wf_parent [OF assms(1)] Suc.prems by blast
  show ?case
  proof (cases "k = length l - 1")
    case True
    then show ?thesis using p by (simp add: butlast_conv_take)
  next
    case False
    then have "k < length (butlast l)" "n = length (butlast l)" using Suc by auto
    with Suc.hyps(1) [of "butlast l"] p show ?thesis by (simp add: take_butlast)
  qed
qed simp

lemma is_file_at_iff: "is_file_at t l \<longleftrightarrow> file_at t l \<noteq> None"
  by (auto simp: is_file_at_def file_at_def split: option.splits node.splits)

lemma host_stat_Inr:
  assumes "tree_wf t"
  shows "host_stat t l = Inr n \<longleftrightarrow> node_at t l = Some n"
proof -
  have "\<not> is_file_at t (take k l)" if "node_at t l = Some n" "k < length l" for k
    using tree_wf_ancestor [OF assms _ that(2)] that(1) by (simp add: is_file_at_def)
  then show ?thesis by (auto simp: host_stat_def list_ex_iff split: option.splits)
qed

lemma host_stat_NotFound: "host_stat t l = Inl IoNotFound \<Longrightarrow> node_at t l = None"
  by (auto simp: host_stat_def split: if_splits option.splits)

lemma host_read_Inr:
  assumes "tree_wf t"
  shows "host_read t l = Inr c \<longleftrightarrow> file_at t l = Some c"
proof -
  have "host_read t l = Inr c \<longleftrightarrow> (\<exists>a b. host_stat t l = Inr (NFile c a b))"
    by (auto simp: host_read_def split: sum.splits node.splits)
  then show ?thesis using host_stat_Inr [OF assms]
    by (auto simp: file_at_def split: option.splits node.splits)
qed

lemma tree_wf_update:
  assumes "tree_wf t" "l \<noteq> []" "node_at t (butlast l) = Some NDir" "n = NDir \<or> node_at t l \<noteq> Some NDir"
  shows "tree_wf (AList.update l n t)"
proof -
  have "distinct (map fst (AList.update l n t))" using assms(1) by (simp add: tree_wf_def distinct_update)
  moreover have "[] \<notin> fst ` set (AList.update l n t)"
    using assms(1,2) by (simp add: tree_wf_iff dom_update)
  moreover have "node_at (AList.update l n t) (butlast k) = Some NDir"
    if "k \<noteq> []" "node_at (AList.update l n t) k \<noteq> None" for k
  proof (cases "butlast k = l")
    case True
    then have "k \<noteq> l" using that(1) by (metis append_butlast_last_id append_self_conv list.distinct(1))
    then have "node_at t l = Some NDir"
      using that True assms(1,2) by (auto simp: node_at_update dest: tree_wf_parent)
    then show ?thesis using assms(2,4) True by (auto simp: node_at_update)
  next
    case False
    then show ?thesis using that assms by (cases "k = l") (auto simp: node_at_update dest: tree_wf_parent)
  qed
  ultimately show ?thesis by (simp add: tree_wf_iff)
qed

lemma tree_wf_delete:
  assumes "tree_wf t" "node_at t l = Some (NFile c a b)"
  shows "tree_wf (AList.delete l t)"
proof -
  have l: "l \<noteq> []" using assms(2) by auto
  have "node_at (AList.delete l t) (butlast k) = Some NDir"
    if "k \<noteq> []" "node_at (AList.delete l t) k \<noteq> None" for k
    using that assms l tree_wf_parent [OF assms(1) that(1)] by (auto simp: node_at_delete split: if_splits)
  moreover have "[] \<notin> fst ` set (AList.delete l t)"
    using assms(1) image_mono [OF set_alist_delete [of l t], of fst] by (auto simp: tree_wf_iff)
  ultimately show ?thesis using assms(1) by (simp add: tree_wf_iff distinct_delete)
qed

lemma file_at_update_file:
  "l \<noteq> [] \<Longrightarrow> file_at (AList.update l (NFile c a b) t) = (file_at t)(l \<mapsto> c)"
  by (auto simp: file_at_def node_at_update)

lemma file_at_update_dir:
  "\<lbrakk>l \<noteq> []; node_at t l = None\<rbrakk> \<Longrightarrow> file_at (AList.update l NDir t) = file_at t"
  by (auto simp: file_at_def node_at_update)

lemma file_at_delete: "l \<noteq> [] \<Longrightarrow> file_at (AList.delete l t) = (file_at t)(l := None)"
  by (auto simp: file_at_def node_at_delete)

section \<open>The operations keep trees well formed\<close>

lemma create_dirs_fold:
  assumes "tree_wf t" "\<And>k. k \<le> m \<Longrightarrow> \<not> is_file_at t (take k l)" "m \<le> length l"
  defines "t' \<equiv> fold (\<lambda>k t. if node_at t (take k l) = None then AList.update (take k l) NDir t else t)
       [1..<Suc m] t"
  shows "tree_wf t' \<and> file_at t' = file_at t \<and> node_at t' (take m l) = Some NDir
     \<and> (\<forall>k. node_at t k \<noteq> None \<longrightarrow> node_at t' k = node_at t k)"
  using assms(2,3) unfolding t'_def
proof (induction m)
  case 0
  then show ?case using assms(1) by simp
next
  case (Suc m)
  let ?f = "\<lambda>k t. if node_at t (take k l) = None then AList.update (take k l) NDir t else t"
  let ?u = "fold ?f [1..<Suc m] t"
  have u: "tree_wf ?u" "file_at ?u = file_at t" "node_at ?u (take m l) = Some NDir"
    "\<forall>k. node_at t k \<noteq> None \<longrightarrow> node_at ?u k = node_at t k"
    using Suc.IH Suc.prems by auto
  have e: "fold ?f [1..<Suc (Suc m)] t = ?f (Suc m) ?u" by simp
  have ne: "take (Suc m) l \<noteq> []" "butlast (take (Suc m) l) = take m l"
    using Suc.prems(2) by (auto simp: butlast_take)
  show ?case
  proof (cases "node_at ?u (take (Suc m) l)")
    case None
    then have "tree_wf (AList.update (take (Suc m) l) NDir ?u)"
      "file_at (AList.update (take (Suc m) l) NDir ?u) = file_at ?u"
      using u(1,3) ne by (auto intro: tree_wf_update file_at_update_dir)
    moreover have "node_at t k \<noteq> None \<Longrightarrow> k \<noteq> take (Suc m) l" for k using u(4) None by auto
    ultimately show ?thesis using None u ne(1) unfolding e by (auto simp: node_at_update)
  next
    case (Some n)
    have "\<not> is_file_at ?u (take (Suc m) l)" using Suc.prems(1) [of "Suc m"] u(2) by (simp add: is_file_at_iff)
    then have "n = NDir" using Some by (auto simp: is_file_at_def split: node.splits)
    then show ?thesis using Some u unfolding e by simp
  qed
qed

lemma host_create_dir_all_ok:
  assumes "tree_wf t" "host_create_dir_all t l = Inr t'"
  shows "tree_wf t'" "file_at t' = file_at t" "node_at t' l = Some NDir"
    "node_at t k \<noteq> None \<Longrightarrow> node_at t' k = node_at t k"
proof -
  have "\<not> is_file_at t (take k l)" if "k \<le> length l" for k
    using assms(2) that by (auto simp: host_create_dir_all_def list_ex_iff split: if_splits)
  note f = create_dirs_fold [OF assms(1) this order_refl]
  moreover have "t' = fold (\<lambda>k t. if node_at t (take k l) = None then AList.update (take k l) NDir t else t)
       [1..<Suc (length l)] t"
    using assms(2) by (simp add: host_create_dir_all_def del: upt_Suc split: if_splits)
  ultimately show "tree_wf t'" "file_at t' = file_at t" "node_at t' l = Some NDir"
    "node_at t k \<noteq> None \<Longrightarrow> node_at t' k = node_at t k" by auto
qed

lemma host_create_new:
  assumes "tree_wf t" "l \<noteq> []" "node_at t l = None" "node_at t (butlast l) = Some NDir"
  shows "host_create now t l = Inr (AList.update l (NFile [] now now) t)"
  using assms host_stat_Inr [OF assms(1), of "butlast l" NDir] by (simp add: host_create_def)

lemma host_create_Inr:
  assumes "tree_wf t" "host_create now t l = Inr t'"
  obtains a where "l \<noteq> []" "t' = AList.update l (NFile [] a now) t" "tree_wf t'"
proof -
  have l: "l \<noteq> []" "node_at t (butlast l) = Some NDir" "node_at t l \<noteq> Some NDir"
    using assms(2) host_stat_Inr [OF assms(1)]
    by (auto simp: host_create_def split: if_splits sum.splits node.splits option.splits)
  obtain a where "t' = AList.update l (NFile [] a now) t"
    using assms(2) by (auto simp: host_create_def split: if_splits sum.splits node.splits option.splits)
  then show thesis using that l tree_wf_update [OF assms(1) l(1,2)] by blast
qed

lemma host_create_not_dir: "host_create now t l = Inr t' \<Longrightarrow> node_at t l \<noteq> Some NDir"
  by (auto simp: host_create_def split: if_splits sum.splits node.splits)

lemma host_write_file:
  assumes "node_at t l = Some (NFile x a b)"
  shows "host_write now t l c = AList.update l (NFile c a now) t"
  using assms by (simp add: host_write_def)

lemma host_remove_file:
  assumes "tree_wf t" "node_at t l = Some (NFile x a b)"
  shows "host_remove t l = Inr (AList.delete l t)"
  using assms host_stat_Inr [OF assms(1), of l "NFile x a b"] by (simp add: host_remove_def)

end
