(* ===== verification/Vfs_Disk.thy ===== *)
theory Vfs_Disk
  imports Vfs_Isolate Host_Fs
begin

text \<open>
  The disk backend (\<^verbatim>\<open>src/src/vfs/disk.rs\<close>) over the host's file system. The state holds the backend's
  fields together with the tree and the working directory of the process. What the operating
  system decides is the record \<open>disk_env\<close>: an error that a call may fail with, the text of an
  error, how much of a failing write reaches the file, the length it reports for directories and
  the process id and random number in the name of a temporary file. Every operation issues each
  kind of call at most once, so one optional error per kind covers all failure points; the scan
  stops at its first error.
  The locale \<open>disk_host\<close> fixes a working directory, a base directory and calls that do not fail;
  its interpretation shows that the backend is a \<open>vfs_store\<close> whose keys are locations on the host.
\<close>

section \<open>Definitions\<close>

datatype io_call =
    CMetadata | CRead | CCreateDir | CCreate | CWrite | CSync | CRename | CRemove | CReadDir
  | CReadEntry | CCreated | CModified

record disk_env =
  io_fault :: "io_call \<Rightarrow> io_error option"
  io_text :: "io_error \<Rightarrow> string"
  io_partial :: nat
  dir_len :: nat
  temp_tag :: "host_tree \<Rightarrow> string"

definition attempt :: "disk_env \<Rightarrow> io_call \<Rightarrow> io_error + 'a \<Rightarrow> io_error + 'a" where
  "attempt env call r = (case io_fault env call of Some e \<Rightarrow> Inl e | None \<Rightarrow> r)"

record disk_backend =
  d_base_path :: string
  d_limits :: resource_limits
  d_total_bytes :: usize
  d_file_count :: usize
  d_cwd :: loc
  d_tree :: host_tree

definition disk_current_usage :: "disk_backend \<Rightarrow> usize \<times> usize" where
  "disk_current_usage b = (d_file_count b, d_total_bytes b)"

subsection \<open>Paths\<close>

definition sanitize_namespace :: "string \<Rightarrow> string" where
  "sanitize_namespace ns = replace_char (CHR 0x5C) (CHR ''_'')
     (replace_char (CHR ''/'') (CHR ''_'') (replace_sub ''::'' ''__'' ns))"

definition to_filesystem_path :: "string \<Rightarrow> vfs_path \<Rightarrow> string" where
  "to_filesystem_path base path =
     (let path_str = as_str path;
          (namespace, subpath) = (case find_sub ''::'' path_str of
              Some idx \<Rightarrow> (take idx path_str, drop (idx + 2) path_str)
            | None \<Rightarrow> ([], path_str));
          fs_path = (if namespace = [] then base else path_join base (sanitize_namespace namespace))
      in if subpath \<noteq> [] then path_join fs_path subpath else fs_path)"

definition host_loc :: "disk_backend \<Rightarrow> vfs_path \<Rightarrow> loc" where
  "host_loc b path = locate (d_cwd b) (to_filesystem_path (d_base_path b) path)"

subsection \<open>Writing\<close>

definition ensure_parent_dir :: "disk_env \<Rightarrow> host_tree \<Rightarrow> loc \<Rightarrow> host_tree vfs_result" where
  "ensure_parent_dir env t l =
     (if l = [] then Inr t
      else case attempt env CCreateDir (host_create_dir_all t (butlast l)) of
          Inl e \<Rightarrow> Inl (IoError (''Failed to create directory: '' @ io_text env e))
        | Inr t' \<Rightarrow> Inr t')"

text \<open>\<^verbatim>\<open>Path::with_extension\<close> on the last name of a location.\<close>

definition with_extension :: "loc \<Rightarrow> string \<Rightarrow> loc" where
  "with_extension l ext = (if l = [] then [] else
     let name = last l;
         stem = (case rfind_char (CHR ''.'') name of
             Some i \<Rightarrow> if i = 0 then name else take i name | None \<Rightarrow> name)
     in butlast l @ [stem @ ''.'' @ ext])"

definition temp_path :: "disk_env \<Rightarrow> host_tree \<Rightarrow> loc \<Rightarrow> loc" where
  "temp_path env t l = with_extension l (''tmp.'' @ temp_tag env t)"

text \<open>The block of \<^verbatim>\<open>atomic_write\<close>: create, write, synchronise, rename; the tree is the one it leaves.\<close>

definition write_temp ::
  "disk_env \<Rightarrow> nat \<Rightarrow> host_tree \<Rightarrow> loc \<Rightarrow> loc \<Rightarrow> bytes \<Rightarrow> unit vfs_result \<times> host_tree" where
  "write_temp env now t tmp l c =
     (case attempt env CCreate (host_create now t tmp) of
        Inl e \<Rightarrow> (Inl (IoError (''Failed to create temp file: '' @ io_text env e)), t)
      | Inr t1 \<Rightarrow> (case io_fault env CWrite of
        Some e \<Rightarrow> (Inl (IoError (''Failed to write temp file: '' @ io_text env e)),
                     host_write now t1 tmp (take (io_partial env) c))
      | None \<Rightarrow> (let t2 = host_write now t1 tmp c in
      case io_fault env CSync of
        Some e \<Rightarrow> (Inl (IoError (''Failed to sync temp file: '' @ io_text env e)), t2)
      | None \<Rightarrow> (case attempt env CRename (host_rename t2 tmp l) of
        Inl e \<Rightarrow> (Inl (IoError (''Failed to rename temp file: '' @ io_text env e)), t2)
      | Inr t3 \<Rightarrow> (Inr (), t3)))))"

definition atomic_write :: "disk_env \<Rightarrow> nat \<Rightarrow> host_tree \<Rightarrow> loc \<Rightarrow> bytes \<Rightarrow> unit vfs_result \<times> host_tree" where
  "atomic_write env now t l c =
     (let tmp = temp_path env t l in
      case write_temp env now t tmp l c of
        (Inr _, t') \<Rightarrow> (Inr (), t')
      | (Inl e, t') \<Rightarrow> (Inl e, (case attempt env CRemove (host_remove t' tmp) of
            Inr t'' \<Rightarrow> t'' | Inl _ \<Rightarrow> t')))"

definition disk_check_write_bounds :: "disk_backend \<Rightarrow> nat \<Rightarrow> bool \<Rightarrow> nat \<Rightarrow> unit vfs_result" where
  "disk_check_write_bounds b content_len is_new old_size =
     (if content_len > unat (file_size_bytes_max (d_limits b))
      then Inl (QuotaExceeded ''file_size'' (file_size_bytes_max (d_limits b)) (of_nat content_len))
      else if is_new \<and> unat (d_file_count b) \<ge> unat (files_count_max (d_limits b))
      then Inl (QuotaExceeded ''file_count'' (files_count_max (d_limits b)) (ucast (d_file_count b)))
      else let new_total = d_total_bytes b + size_delta content_len old_size in
        if unat new_total > unat (total_storage_bytes_max (d_limits b))
        then Inl (QuotaExceeded ''total_storage'' (total_storage_bytes_max (d_limits b))
          (ucast (d_total_bytes b)))
        else Inr ())"

definition node_len :: "disk_env \<Rightarrow> node \<Rightarrow> nat" where
  "node_len env n = (case n of NDir \<Rightarrow> dir_len env | NFile c _ _ \<Rightarrow> length c)"

definition disk_write ::
  "disk_env \<Rightarrow> nat \<Rightarrow> disk_backend \<Rightarrow> vfs_path \<Rightarrow> bytes \<Rightarrow> unit vfs_result \<times> disk_backend" where
  "disk_write env now b path c =
     (let content_len = length c;
          l = host_loc b path;
          (is_new, old_size) = (case attempt env CMetadata (host_stat (d_tree b) l) of
              Inr n \<Rightarrow> (False, node_len env n)
            | Inl IoNotFound \<Rightarrow> (True, 0)
            | Inl _ \<Rightarrow> (False, 0))
      in case disk_check_write_bounds b content_len is_new old_size of
           Inl e \<Rightarrow> (Inl e, b)
         | Inr _ \<Rightarrow> (case ensure_parent_dir env (d_tree b) l of
           Inl e \<Rightarrow> (Inl e, b)
         | Inr t1 \<Rightarrow> (case atomic_write env now t1 l c of
           (Inl e, t2) \<Rightarrow> (Inl e, b\<lparr>d_tree := t2\<rparr>)
         | (Inr _, t2) \<Rightarrow> (Inr (), if is_new
             then b\<lparr>d_tree := t2, d_file_count := d_file_count b + 1,
                    d_total_bytes := d_total_bytes b + of_nat content_len\<rparr>
             else b\<lparr>d_tree := t2,
                    d_total_bytes := apply_delta (d_total_bytes b) (size_delta content_len old_size)\<rparr>))))"

subsection \<open>The other operations\<close>

definition read_error :: "disk_env \<Rightarrow> vfs_path \<Rightarrow> string \<Rightarrow> io_error \<Rightarrow> vfs_error" where
  "read_error env path what e = (case e of
       IoNotFound \<Rightarrow> NotFound (as_str path)
     | IoPermissionDenied \<Rightarrow> PermissionDenied (as_str path)
     | IoOther _ \<Rightarrow> IoError (what @ io_text env e))"

definition disk_read :: "disk_env \<Rightarrow> disk_backend \<Rightarrow> vfs_path \<Rightarrow> bytes vfs_result" where
  "disk_read env b path = (case attempt env CRead (host_read (d_tree b) (host_loc b path)) of
       Inr c \<Rightarrow> Inr c
     | Inl e \<Rightarrow> Inl (read_error env path ''Failed to read file: '' e))"

definition disk_exists :: "disk_env \<Rightarrow> disk_backend \<Rightarrow> vfs_path \<Rightarrow> bool vfs_result" where
  "disk_exists env b path = (case attempt env CMetadata (host_stat (d_tree b) (host_loc b path)) of
       Inr n \<Rightarrow> Inr (n \<noteq> NDir)
     | Inl IoNotFound \<Rightarrow> Inr False
     | Inl e \<Rightarrow> Inl (IoError (''Failed to check existence: '' @ io_text env e)))"

definition disk_delete :: "disk_env \<Rightarrow> disk_backend \<Rightarrow> vfs_path \<Rightarrow> unit vfs_result \<times> disk_backend" where
  "disk_delete env b path = (let l = host_loc b path in
     case attempt env CMetadata (host_stat (d_tree b) l) of
       Inr NDir \<Rightarrow> (Inl (NotFound (as_str path)), b)
     | Inl IoNotFound \<Rightarrow> (Inl (NotFound (as_str path)), b)
     | Inl e \<Rightarrow> (Inl (IoError (''Failed to get metadata: '' @ io_text env e)), b)
     | Inr (NFile c _ _) \<Rightarrow> (case attempt env CRemove (host_remove (d_tree b) l) of
           Inl e \<Rightarrow> (Inl (IoError (''Failed to delete file: '' @ io_text env e)), b)
         | Inr t \<Rightarrow> (Inr (), b\<lparr>d_tree := t, d_file_count := d_file_count b - 1,
              d_total_bytes := d_total_bytes b - of_nat (length c)\<rparr>)))"

definition disk_metadata :: "disk_env \<Rightarrow> disk_backend \<Rightarrow> vfs_path \<Rightarrow> vfs_file vfs_result" where
  "disk_metadata env b path = (let l = host_loc b path in
     case attempt env CMetadata (host_stat (d_tree b) l) of
       Inl e \<Rightarrow> Inl (read_error env path ''Failed to get metadata: '' e)
     | Inr NDir \<Rightarrow> Inl (NotFound (as_str path))
     | Inr (NFile c created modified) \<Rightarrow> (case attempt env CRead (host_read (d_tree b) l) of
           Inl e \<Rightarrow> Inl (IoError (''Failed to read file: '' @ io_text env e))
         | Inr bs \<Rightarrow> (case io_fault env CCreated of
           Some e \<Rightarrow> Inl (IoError (''Failed to get created time: '' @ io_text env e))
         | None \<Rightarrow> (case io_fault env CModified of
           Some e \<Rightarrow> Inl (IoError (''Failed to get modified time: '' @ io_text env e))
         | None \<Rightarrow> Inr \<lparr>content = bs, created_at = created, modified_at = modified, fsize = length c\<rparr>))))"

fun list_children :: "string \<Rightarrow> string list \<Rightarrow> vfs_path list vfs_result" where
  "list_children parent [] = Inr []"
| "list_children parent (name # names) =
     (if starts_with name ''.'' then list_children parent names
      else let child_path = (if ends_with_char parent (CHR ''/'') then parent @ name else parent @ ''/'' @ name)
           in case vfs_path_new child_path of
                Inl e \<Rightarrow> Inl (InvalidPath child_path (''Invalid path generated: '' @ show_vfs_error e))
              | Inr p \<Rightarrow> bind_res (list_children parent names) (\<lambda>ps. Inr (p # ps)))"

definition disk_list_dir :: "disk_env \<Rightarrow> disk_backend \<Rightarrow> vfs_path \<Rightarrow> vfs_path list vfs_result" where
  "disk_list_dir env b path =
     (case attempt env CReadDir (host_read_dir (d_tree b) (host_loc b path)) of
        Inl e \<Rightarrow> Inl (read_error env path ''Failed to read directory: '' e)
      | Inr names \<Rightarrow> (case io_fault env CReadEntry of
          Some e \<Rightarrow> Inl (IoError (''Failed to read directory entry: '' @ io_text env e))
        | None \<Rightarrow> list_children (as_str path) names))"

definition disk_ops :: "disk_env \<Rightarrow> disk_backend vfs_backend" where
  "disk_ops env = \<lparr>be_read = disk_read env, be_write = (\<lambda>now. disk_write env now),
     be_exists = disk_exists env, be_delete = disk_delete env, be_metadata = disk_metadata env,
     be_list_dir = (\<lambda>b p. Some (disk_list_dir env b p))\<rparr>"

subsection \<open>Opening the backend\<close>

text \<open>
  The scan of existing storage. \<open>host_entries\<close> is \<^verbatim>\<open>read_dir\<close> with the metadata of the entries;
  \<open>scan_entry\<close> is the body of the inner loop of \<^verbatim>\<open>scan_namespace\<close> and \<open>scan_dirs\<close> its outer loop over
  a stack of directories, with fuel for one iteration per directory.
\<close>

definition host_entries :: "host_tree \<Rightarrow> loc \<Rightarrow> (loc \<times> node) list" where
  "host_entries t l = filter (\<lambda>e. fst e \<noteq> [] \<and> butlast (fst e) = l) t"

definition sat_add :: "nat \<Rightarrow> nat \<Rightarrow> nat" where
  "sat_add a b = min (a + b) (2 ^ 64 - 1)"

definition scan_entry :: "loc \<times> node \<Rightarrow> nat \<times> nat \<times> loc list \<Rightarrow> nat \<times> nat \<times> loc list" where
  "scan_entry e acc = (case acc of (count, tot, dirs) \<Rightarrow> (case snd e of
       NFile c _ _ \<Rightarrow> (count + 1, sat_add tot (length c), dirs)
     | NDir \<Rightarrow> (count, tot, fst e # dirs)))"

text \<open>The errors of listing a directory and reading the metadata of its entries.\<close>

definition entries_error :: "disk_env \<Rightarrow> string \<Rightarrow> (loc \<times> node) list \<Rightarrow> vfs_error option" where
  "entries_error env what es = (case io_fault env CReadEntry of
       Some e \<Rightarrow> Some (IoError (what @ io_text env e))
     | None \<Rightarrow> if es = [] then None
         else map_option (\<lambda>e. IoError (''Failed to read metadata: '' @ io_text env e)) (io_fault env CMetadata))"

fun scan_dirs ::
  "nat \<Rightarrow> disk_env \<Rightarrow> host_tree \<Rightarrow> loc list \<Rightarrow> nat \<times> nat \<Rightarrow> (nat \<times> nat) vfs_result option" where
  "scan_dirs 0 env t dirs acc = None"
| "scan_dirs (Suc fuel) env t [] acc = Some (Inr acc)"
| "scan_dirs (Suc fuel) env t (dir # dirs) (count, tot) =
     (case attempt env CReadDir (host_read_dir t dir) of
        Inl e \<Rightarrow> Some (Inl (IoError (''Failed to read directory: '' @ io_text env e)))
      | Inr _ \<Rightarrow> (case entries_error env ''Failed to read entry: '' (host_entries t dir) of
          Some e \<Rightarrow> Some (Inl e)
        | None \<Rightarrow> (case fold scan_entry (host_entries t dir) (count, tot, dirs) of
            (count', tot', dirs') \<Rightarrow> scan_dirs fuel env t dirs' (count', tot'))))"

definition scan_namespace :: "disk_env \<Rightarrow> host_tree \<Rightarrow> loc \<Rightarrow> (nat \<times> nat) vfs_result option" where
  "scan_namespace env t l = scan_dirs (Suc (length t)) env t [l] (0, 0)"

fun scan_subdirs :: "disk_env \<Rightarrow> host_tree \<Rightarrow> (loc \<times> node) list \<Rightarrow> nat \<times> nat \<Rightarrow> (nat \<times> nat) vfs_result option" where
  "scan_subdirs env t [] acc = Some (Inr acc)"
| "scan_subdirs env t (e # es) (count, tot) = (case snd e of
       NFile _ _ _ \<Rightarrow> scan_subdirs env t es (count, tot)
     | NDir \<Rightarrow> (case scan_namespace env t (fst e) of
           None \<Rightarrow> None
         | Some (Inl err) \<Rightarrow> Some (Inl err)
         | Some (Inr (subcount, subbytes)) \<Rightarrow>
             scan_subdirs env t es (count + subcount, sat_add tot subbytes)))"

definition scan_storage :: "disk_env \<Rightarrow> host_tree \<Rightarrow> loc \<Rightarrow> (nat \<times> nat) vfs_result option" where
  "scan_storage env t l = (case attempt env CReadDir (host_read_dir t l) of
       Inl e \<Rightarrow> Some (Inl (IoError (''Failed to read base directory: '' @ io_text env e)))
     | Inr _ \<Rightarrow> (case entries_error env ''Failed to read directory entry: '' (host_entries t l) of
         Some e \<Rightarrow> Some (Inl e)
       | None \<Rightarrow> scan_subdirs env t (host_entries t l) (0, 0)))"

definition disk_new :: "disk_env \<Rightarrow> loc \<Rightarrow> host_tree \<Rightarrow> string \<Rightarrow> disk_backend vfs_result option" where
  "disk_new env cwd t base =
     (case attempt env CCreateDir (host_create_dir_all t (locate cwd base)) of
        Inl e \<Rightarrow> Some (Inl (IoError (''Failed to create base directory: '' @ io_text env e)))
      | Inr t1 \<Rightarrow> map_option (\<lambda>r. bind_res r (\<lambda>(count, bytes).
          Inr \<lparr>d_base_path = base, d_limits = default_limits, d_total_bytes = of_nat bytes,
            d_file_count = of_nat count, d_cwd = cwd, d_tree = t1\<rparr>)) (scan_storage env t1 (locate cwd base)))"

definition disk_with_limits ::
  "disk_env \<Rightarrow> loc \<Rightarrow> host_tree \<Rightarrow> string \<Rightarrow> resource_limits \<Rightarrow> disk_backend vfs_result option" where
  "disk_with_limits env cwd t base l =
     map_option (\<lambda>r. bind_res r (\<lambda>b. Inr (b\<lparr>d_limits := l\<rparr>))) (disk_new env cwd t base)"

subsection \<open>Specification vocabulary\<close>

text \<open>The files strictly below a directory with at least \<open>k\<close> more names: their number and size.\<close>

definition below :: "nat \<Rightarrow> loc \<Rightarrow> loc \<Rightarrow> bool" where
  "below k l l' = (prefix l l' \<and> length l + k \<le> length l')"

definition weight :: "((loc \<times> node) \<Rightarrow> bool) \<Rightarrow> (node \<Rightarrow> nat) \<Rightarrow> host_tree \<Rightarrow> nat" where
  "weight P w t = sum_list (map (\<lambda>e. if P e then w (snd e) else 0) t)"

definition file_one :: "node \<Rightarrow> nat" where
  "file_one n = (case n of NDir \<Rightarrow> 0 | NFile _ _ _ \<Rightarrow> 1)"

definition dir_one :: "node \<Rightarrow> nat" where
  "dir_one n = (case n of NDir \<Rightarrow> 1 | NFile _ _ _ \<Rightarrow> 0)"

definition file_len :: "node \<Rightarrow> nat" where
  "file_len n = (case n of NDir \<Rightarrow> 0 | NFile c _ _ \<Rightarrow> length c)"

definition ns_dir_ok :: "string \<Rightarrow> bool" where
  "ns_dir_ok ns = (ns_ok ns \<and> CHR 0x5C \<notin> set ns \<and> ns \<noteq> ''.'' \<and> ns \<noteq> ''..'')"

text \<open>The operating system at rest, with a tag longer than every name in the tree.\<close>

definition long_tag :: "host_tree \<Rightarrow> string" where
  "long_tag t = replicate (Suc (sum_list (map (\<lambda>e. length (concat (fst e))) t))) (CHR ''0'')"

definition quiet_env :: disk_env where
  "quiet_env = \<lparr>io_fault = (\<lambda>_. None), io_text = (\<lambda>_. ''error''), io_partial = 0, dir_len = 4096,
     temp_tag = long_tag\<rparr>"

definition no_faults :: "disk_env \<Rightarrow> bool" where
  "no_faults env = (io_fault env = (\<lambda>_. None))"

text \<open>A temporary file never exists before it is created.\<close>

definition fresh_temp :: "disk_env \<Rightarrow> bool" where
  "fresh_temp env = (\<forall>t l. tree_wf t \<and> l \<noteq> [] \<longrightarrow> node_at t (temp_path env t l) = None)"

definition disk_key :: "loc \<Rightarrow> string \<Rightarrow> vfs_path \<Rightarrow> loc" where
  "disk_key C B p = locate C (to_filesystem_path B p)"

definition disk_inv :: "loc \<Rightarrow> string \<Rightarrow> disk_backend \<Rightarrow> bool" where
  "disk_inv C B b = (tree_wf (d_tree b) \<and> d_cwd b = C \<and> d_base_path b = B)"

definition disk_view :: "disk_backend \<Rightarrow> loc \<rightharpoonup> bytes" where
  "disk_view b = file_at (d_tree b)"

definition child_dirs :: "host_tree \<Rightarrow> loc \<Rightarrow> loc list" where
  "child_dirs t l = map fst (filter (\<lambda>e. snd e = NDir) (host_entries t l))"

text \<open>A tree with one application's file, one file beside the namespaces and one elsewhere.\<close>

definition sample_tree :: host_tree where
  "sample_tree = [([''data''], NDir), ([''data'', ''app_a''], NDir),
     ([''data'', ''app_a'', ''k''], NFile [1, 2] 5 6), ([''data'', ''loose''], NFile [7] 5 5),
     ([''data'', ''app_a'', ''d''], NDir), ([''data'', ''app_a'', ''d'', ''n.txt''], NFile [3] 5 5)]"

definition sample_disk :: disk_backend where
  "sample_disk = \<lparr>d_base_path = ''/data'', d_limits = test_limits, d_total_bytes = 3, d_file_count = 2,
     d_cwd = [], d_tree = sample_tree\<rparr>"

section \<open>Where a path leads\<close>

lemma walk_append: "walk l (xs @ ys) = walk (walk l xs) ys"
  by (induction l xs rule: walk.induct) simp_all

lemma walk_plain: "''..'' \<notin> set cs \<Longrightarrow> walk l cs = l @ filter (\<lambda>c. c \<noteq> [] \<and> c \<noteq> ''.'') cs"
  by (induction l cs rule: walk.induct) auto

lemma locate_join:
  assumes "\<not> path_is_absolute p"
  shows "locate C (path_join base p) = walk (locate C base) (split_on (CHR ''/'') p)"
proof (cases "base = [] \<or> ends_with_char base (CHR ''/'')")
  case True
  show ?thesis
  proof (cases "base = []")
    case False
    with True obtain a where a: "base = a @ ''/''"
      by (metis append_butlast_last_id ends_with_char_def)
    have "path_is_absolute (base @ p) = path_is_absolute base"
      using False by (cases base) (auto simp: path_is_absolute_def starts_with_def)
    moreover have "split_on (CHR ''/'') (base @ p) = split_on (CHR ''/'') a @ split_on (CHR ''/'') p"
      "split_on (CHR ''/'') base = split_on (CHR ''/'') a @ [[]]"
      using a split_on_append [of "CHR ''/''" a p] split_on_append [of "CHR ''/''" a "[]"] by simp_all
    ultimately show ?thesis using True assms by (simp add: path_join_def locate_def walk_append)
  qed (use assms in \<open>simp add: path_join_def locate_def path_is_absolute_def starts_with_def\<close>)
next
  case False
  then have "path_is_absolute (base @ ''/'' @ p) = path_is_absolute base"
    by (cases base) (auto simp: path_is_absolute_def starts_with_def)
  then show ?thesis
    using False assms split_on_append [of "CHR ''/''" base p]
    by (simp add: path_join_def locate_def walk_append)
qed

lemma sanitize_plain:
  assumes "CHR '':'' \<notin> set ns" "CHR ''/'' \<notin> set ns" "CHR 0x5C \<notin> set ns"
  shows "sanitize_namespace ns = ns"
  using assms by (simp add: sanitize_namespace_def replace_colons_plain replace_char_plain)

lemma disk_key_namespaced:
  assumes "ns_dir_ok ns" "vfs_path_wf p"
  shows "disk_key C B (VfsPath (ns @ ''::'' @ as_str p)) =
     locate C B @ ns # filter (\<lambda>c. c \<noteq> ''.'') (split_on (CHR ''/'') (as_str p))"
proof -
  have n: "CHR '':'' \<notin> set ns" "CHR ''/'' \<notin> set ns" "CHR 0x5C \<notin> set ns" "ns \<noteq> []"
    "ns \<noteq> ''.''" "ns \<noteq> ''..''" using assms(1) by (auto simp: ns_dir_ok_def ns_ok_def)
  have s: "as_str p \<noteq> []" "\<not> path_is_absolute (as_str p)" "''..'' \<notin> set (split_on (CHR ''/'') (as_str p))"
    "[] \<notin> set (split_on (CHR ''/'') (as_str p))"
    using assms(2) vfs_path_wf_no_empty [OF assms(2)]
    by (auto simp: vfs_path_wf_def Let_def path_is_absolute_def starts_with_def neq_Nil_conv)
  have a: "\<not> path_is_absolute ns" using n(2,4) by (cases ns) (auto simp: path_is_absolute_def starts_with_def)
  have "to_filesystem_path B (VfsPath (ns @ ''::'' @ as_str p)) = path_join (path_join B ns) (as_str p)"
    using n s(1) find_sub_first [OF n(1)] sanitize_plain [OF n(1-3)]
    by (simp add: to_filesystem_path_def Let_def)
  moreover have "filter (\<lambda>c. c \<noteq> [] \<and> c \<noteq> ''.'') (split_on (CHR ''/'') (as_str p))
      = filter (\<lambda>c. c \<noteq> ''.'') (split_on (CHR ''/'') (as_str p))"
    using s(4) by (intro filter_cong) auto
  ultimately show ?thesis using n a s split_on_atom [OF n(2)]
    by (simp add: disk_key_def locate_join walk_plain)
qed

section \<open>Writing is atomic\<close>

lemma with_extension_props:
  assumes "l \<noteq> []"
  shows "with_extension l ext \<noteq> []" "butlast (with_extension l ext) = butlast l"
    "CHR ''.'' \<in> set ext \<Longrightarrow> with_extension l ext \<noteq> l"
proof -
  show "with_extension l ext \<noteq> []" "butlast (with_extension l ext) = butlast l"
    using assms by (simp_all add: with_extension_def Let_def)
  have l: "l = butlast l @ [last l]" using assms by simp
  let ?stem = "case rfind_char (CHR ''.'') (last l) of
      Some i \<Rightarrow> if i = 0 then last l else take i (last l) | None \<Rightarrow> last l"
  have "?stem @ ''.'' @ ext \<noteq> last l" if d: "CHR ''.'' \<in> set ext"
  proof (cases "rfind_char (CHR ''.'') (last l)")
    case (Some i)
    then obtain x y where "last l = x @ CHR ''.'' # y" "CHR ''.'' \<notin> set y" "i = length x"
      by (rule rfind_char_cases)
    then show ?thesis using Some d by auto
  qed simp
  then show "CHR ''.'' \<in> set ext \<Longrightarrow> with_extension l ext \<noteq> l"
    using l assms by (metis (no_types, lifting) with_extension_def append1_eq_conv)
qed

lemma rename_temp:
  assumes "tree_wf t" "l \<noteq> []" "node_at t (butlast l) = Some NDir"
    "tmp \<noteq> []" "butlast tmp = butlast l" "tmp \<noteq> l" "node_at t tmp = None"
    "host_rename (AList.update tmp (NFile c a m) t) tmp l = Inr t'"
  shows "tree_wf t' \<and> file_at t' = (file_at t)(l \<mapsto> c)"
proof -
  let ?t = "AList.update tmp (NFile c a m) t"
  have wf: "tree_wf ?t" using assms by (intro tree_wf_update) auto
  have n: "node_at ?t tmp = Some (NFile c a m)" using assms(4) by (simp add: node_at_update)
  then have st: "host_stat ?t tmp = Inr (NFile c a m)" by (simp add: host_stat_Inr [OF wf])
  then have nd: "host_stat ?t l \<noteq> Inr NDir" and t': "t' = AList.update l (NFile c a m) (AList.delete tmp ?t)"
    using assms(8) by (auto simp: host_rename_def split: sum.splits node.splits)
  have ld: "node_at ?t l \<noteq> Some NDir" using nd host_stat_Inr [OF wf] by blast
  have "tmp \<noteq> butlast l" using assms(3,7) by auto
  then have "node_at (AList.delete tmp ?t) (butlast l) = Some NDir" "node_at (AList.delete tmp ?t) l \<noteq> Some NDir"
    using assms(3,4,6) ld by (auto simp: node_at_delete node_at_update)
  then have "tree_wf t'" unfolding t' using tree_wf_delete [OF wf n] assms(2) by (intro tree_wf_update) auto
  moreover have "file_at t tmp = None" using assms(7) by (simp add: file_at_def)
  ultimately show ?thesis unfolding t' using assms(2,4)
    by (simp add: file_at_update_file file_at_delete fun_upd_idem)
qed

lemma write_temp_ok:
  assumes "tree_wf t" "l \<noteq> []" "node_at t (butlast l) = Some NDir"
    "tmp \<noteq> []" "butlast tmp = butlast l" "tmp \<noteq> l" "node_at t tmp = None"
    "write_temp env now t tmp l c = (r, t')"
  shows "r = Inr () \<and> tree_wf t' \<and> file_at t' = (file_at t)(l \<mapsto> c)
     \<or> (\<exists>e. r = Inl e) \<and> (t' = t \<or> (\<exists>x. t' = AList.update tmp (NFile x now now) t))"
proof -
  have cr: "host_create now t tmp = Inr (AList.update tmp (NFile [] now now) t)"
    using host_create_new [OF assms(1,4,7)] assms(3,5) by simp
  have wr: "host_write now (AList.update tmp (NFile [] now now) t) tmp x = AList.update tmp (NFile x now now) t" for x
    using assms(4) by (simp add: host_write_file node_at_update update_last)
  have rn: "tree_wf u \<and> file_at u = (file_at t)(l \<mapsto> c)"
    if "host_rename (AList.update tmp (NFile c now now) t) tmp l = Inr u" for u
    by (rule rename_temp [OF assms(1-7) that])
  show ?thesis
    using assms(8) rn
    by (auto simp: write_temp_def attempt_def Let_def cr wr split: option.splits sum.splits)
qed

lemma atomic_write_ok:
  assumes "tree_wf t" "l \<noteq> []" "node_at t (butlast l) = Some NDir" "node_at t (temp_path env t l) = None"
    "atomic_write env now t l c = (r, t')"
  shows "tree_wf t'
     \<and> (if r = Inr () then file_at t' = (file_at t)(l \<mapsto> c)
        else (file_at t')(temp_path env t l := None) = file_at t
          \<and> (io_fault env CRemove = None \<longrightarrow> file_at t' = file_at t))"
proof -
  let ?tmp = "temp_path env t l"
  have tmp: "?tmp \<noteq> []" "butlast ?tmp = butlast l" "?tmp \<noteq> l"
    using with_extension_props [OF assms(2), of "''tmp.'' @ temp_tag env t"] by (simp_all add: temp_path_def)
  have none: "file_at t ?tmp = None" using assms(4) by (simp add: file_at_def)
  obtain r' t1 where w: "write_temp env now t ?tmp l c = (r', t1)" by fastforce
  have rm: "tree_wf u \<and> (file_at u)(?tmp := None) = file_at t
      \<and> (io_fault env CRemove = None \<longrightarrow> file_at u = file_at t)"
    if "u = (case attempt env CRemove (host_remove t1 ?tmp) of Inr t'' \<Rightarrow> t'' | Inl _ \<Rightarrow> t1)"
      and d: "t1 = t \<or> (\<exists>x. t1 = AList.update ?tmp (NFile x now now) t)" for u
    using d
  proof
    assume "t1 = t"
    moreover have "host_remove t ?tmp = Inl e" if "host_stat t ?tmp = Inl e" for e
      using that by (simp add: host_remove_def)
    moreover have "\<exists>e. host_stat t ?tmp = Inl e" using assms(4) by (auto simp: host_stat_def)
    ultimately show ?thesis using that(1) assms(1) none by (auto simp: attempt_def fun_upd_idem split: option.splits)
  next
    assume "\<exists>x. t1 = AList.update ?tmp (NFile x now now) t"
    then obtain x where t1: "t1 = AList.update ?tmp (NFile x now now) t" by blast
    then have wf: "tree_wf t1" and n: "node_at t1 ?tmp = Some (NFile x now now)"
      using assms(1,3,4) tmp by (auto intro: tree_wf_update simp: node_at_update)
    have f: "file_at t1 = (file_at t)(?tmp \<mapsto> x)" unfolding t1 by (rule file_at_update_file [OF tmp(1)])
    then have "(file_at t1)(?tmp := None) = file_at t" using none by (simp add: fun_upd_idem)
    then show ?thesis
      using that(1) wf host_remove_file [OF wf n] tree_wf_delete [OF wf n] file_at_delete [OF tmp(1), of t1] none
      by (auto simp: attempt_def fun_upd_idem split: option.splits)
  qed
  note k = write_temp_ok [OF assms(1-3) tmp assms(4) w]
  show ?thesis
  proof (cases r')
    case (Inr u)
    then show ?thesis using assms(5) k w by (auto simp: atomic_write_def Let_def)
  next
    case (Inl e)
    have u: "t' = (case attempt env CRemove (host_remove t1 ?tmp) of Inr t'' \<Rightarrow> t'' | Inl _ \<Rightarrow> t1)"
      and r: "r = Inl e" using assms(5) w Inl by (simp_all add: atomic_write_def Let_def)
    have "t1 = t \<or> (\<exists>x. t1 = AList.update ?tmp (NFile x now now) t)" using k Inl by auto
    from rm [OF u this] r show ?thesis by simp
  qed
qed

lemma ensure_parent_dir_ok:
  assumes "tree_wf t" "ensure_parent_dir env t l = Inr t1" "l \<noteq> []"
  shows "tree_wf t1" "file_at t1 = file_at t" "node_at t1 (butlast l) = Some NDir"
  using assms host_create_dir_all_ok [OF assms(1), of "butlast l" t1]
  by (auto simp: ensure_parent_dir_def attempt_def split: sum.splits option.splits)

lemma atomic_write_root: "atomic_write env now t [] c = (r, t') \<Longrightarrow> r \<noteq> Inr () \<and> t' = t"
  by (auto simp: atomic_write_def Let_def temp_path_def with_extension_def write_temp_def attempt_def
      host_create_def host_remove_def host_stat_def split: option.splits)

lemma disk_write_ok:
  assumes "tree_wf (d_tree b)" "fresh_temp env" "disk_write env now b p c = (r, b')"
  shows "tree_wf (d_tree b') \<and> d_cwd b' = d_cwd b \<and> d_base_path b' = d_base_path b
     \<and> (if r = Inr () then disk_view b' = (disk_view b)(host_loc b p \<mapsto> c)
        else (\<exists>tmp. disk_view b tmp = None \<and> (disk_view b')(tmp := None) = disk_view b)
          \<and> (io_fault env CRemove = None \<longrightarrow> disk_view b' = disk_view b)
          \<and> disk_current_usage b' = disk_current_usage b)"
proof -
  let ?l = "host_loc b p"
  define w where "w = (case attempt env CMetadata (host_stat (d_tree b) ?l) of
      Inr n \<Rightarrow> (False, node_len env n) | Inl IoNotFound \<Rightarrow> (True, 0) | Inl _ \<Rightarrow> (False, 0 :: nat))"
  have d: "disk_write env now b p c = (case disk_check_write_bounds b (length c) (fst w) (snd w) of
           Inl e \<Rightarrow> (Inl e, b)
         | Inr _ \<Rightarrow> (case ensure_parent_dir env (d_tree b) ?l of
           Inl e \<Rightarrow> (Inl e, b)
         | Inr t1 \<Rightarrow> (case atomic_write env now t1 ?l c of
           (Inl e, t2) \<Rightarrow> (Inl e, b\<lparr>d_tree := t2\<rparr>)
         | (Inr _, t2) \<Rightarrow> (Inr (), if fst w
             then b\<lparr>d_tree := t2, d_file_count := d_file_count b + 1,
                    d_total_bytes := d_total_bytes b + of_nat (length c)\<rparr>
             else b\<lparr>d_tree := t2,
                    d_total_bytes := apply_delta (d_total_bytes b) (size_delta (length c) (snd w))\<rparr>))))"
    unfolding w_def by (simp add: disk_write_def Let_def case_prod_beta)
  show ?thesis
  proof (cases "is_ok (disk_check_write_bounds b (length c) (fst w) (snd w)) \<and> is_ok (ensure_parent_dir env (d_tree b) ?l)")
    case False
    have "\<exists>tmp. disk_view b tmp = None"
      by (rule exI [of _ "[]"]) (simp add: disk_view_def file_at_def)
    moreover have "b' = b \<and> r \<noteq> Inr ()"
      using False assms(3) unfolding d by (auto simp: is_ok_def split: sum.splits)
    ultimately show ?thesis using assms(1) by (auto simp: fun_upd_idem)
  next
    case True
    then obtain t1 where t1: "ensure_parent_dir env (d_tree b) ?l = Inr t1" by (auto simp: is_ok_iff)
    obtain r' t2 where a: "atomic_write env now t1 ?l c = (r', t2)" by fastforce
    have b': "d_tree b' = t2" "d_cwd b' = d_cwd b" "d_base_path b' = d_base_path b" "r = Inr () \<longleftrightarrow> r' = Inr ()"
      "r \<noteq> Inr () \<Longrightarrow> disk_current_usage b' = disk_current_usage b"
      using True assms(3) a t1 unfolding d
      by (auto simp: is_ok_iff disk_current_usage_def split: sum.splits if_splits)
    show ?thesis
    proof (cases "?l = []")
      case True
      then have "t1 = d_tree b" using t1 by (simp add: ensure_parent_dir_def)
      moreover have "r' \<noteq> Inr ()" "t2 = t1" using atomic_write_root a True by auto
      moreover have "disk_view b [] = None" by (simp add: disk_view_def file_at_def)
      ultimately show ?thesis using b' assms(1)
        by (auto simp: disk_view_def fun_upd_idem intro!: exI [of _ "[]"])
    next
      case False
      note e = ensure_parent_dir_ok [OF assms(1) t1 False]
      have tmp: "node_at t1 (temp_path env t1 ?l) = None"
        using assms(2) e(1) False by (simp add: fresh_temp_def)
      then have none: "file_at (d_tree b) (temp_path env t1 ?l) = None" by (simp add: e(2) [symmetric] file_at_def)
      show ?thesis using atomic_write_ok [OF e(1) False e(3) tmp a] b' none
        by (auto simp: disk_view_def e(2) split: if_splits)
    qed
  qed
qed

section \<open>The contract of a store\<close>

lemma disk_read_Inr:
  assumes "tree_wf (d_tree b)" "io_fault env CRead = None"
  shows "disk_read env b p = Inr c \<longleftrightarrow> disk_view b (host_loc b p) = Some c"
  using host_read_Inr [OF assms(1), of "host_loc b p" c] assms(2)
  by (auto simp: disk_read_def attempt_def disk_view_def split: sum.splits)

lemma disk_delete_ok:
  assumes "tree_wf (d_tree b)" "disk_delete env b p = (r, b')"
  shows "tree_wf (d_tree b') \<and> d_cwd b' = d_cwd b \<and> d_base_path b' = d_base_path b
     \<and> (if r = Inr () then disk_view b (host_loc b p) \<noteq> None
          \<and> disk_view b' = (disk_view b)(host_loc b p := None) else b' = b)"
proof (cases "r = Inr ()")
  case False
  then have "b' = b"
    using assms(2) by (auto simp: disk_delete_def Let_def split: sum.splits io_error.splits node.splits)
  then show ?thesis using False assms(1) by simp
next
  case True
  let ?l = "host_loc b p"
  obtain c x y where n: "host_stat (d_tree b) ?l = Inr (NFile c x y)"
    "b' = b\<lparr>d_tree := AList.delete ?l (d_tree b), d_file_count := d_file_count b - 1,
       d_total_bytes := d_total_bytes b - of_nat (length c)\<rparr>"
    using True assms(2)
    by (auto simp: disk_delete_def Let_def attempt_def host_remove_def
        split: sum.splits io_error.splits node.splits option.splits)
  have a: "node_at (d_tree b) ?l = Some (NFile c x y)" using n(1) by (simp add: host_stat_Inr [OF assms(1)])
  then have "?l \<noteq> []" by auto
  then show ?thesis
    using True a n(2) tree_wf_delete [OF assms(1) a]
    by (simp add: disk_view_def file_at_delete) (simp add: file_at_def)
qed

lemma fresh_quiet: "fresh_temp quiet_env"
proof -
  have "node_at t (temp_path quiet_env t l) = None" if "l \<noteq> []" for t and l :: loc
  proof (rule ccontr)
    let ?tmp = "temp_path quiet_env t l"
    assume "node_at t ?tmp \<noteq> None"
    moreover have ne: "?tmp \<noteq> []" using with_extension_props(1) [OF that] by (simp add: temp_path_def)
    ultimately have "?tmp \<in> fst ` set t" by (simp add: node_at_def map_of_eq_None_iff)
    then obtain e where e: "e \<in> set t" "fst e = ?tmp" by auto
    have "length (concat (fst e)) \<le> sum_list (map (\<lambda>e. length (concat (fst e))) t)"
      by (rule member_le_sum_list) (use e(1) in auto)
    then have "length (concat ?tmp) \<le> sum_list (map (\<lambda>e. length (concat (fst e))) t)"
      by (simp only: e(2))
    moreover have "length (concat ?tmp) > sum_list (map (\<lambda>e. length (concat (fst e))) t)"
      using that by (simp add: temp_path_def with_extension_def Let_def quiet_env_def long_tag_def)
    ultimately show False by simp
  qed
  then show ?thesis by (simp add: fresh_temp_def)
qed

locale disk_host =
  fixes env :: disk_env and C :: loc and B :: string
  assumes quiet: "no_faults env" and fresh: "fresh_temp env"

sublocale disk_host \<subseteq> store: namespaced_store "disk_ops env" "disk_inv C B" disk_view "disk_key C B" ns_dir_ok
proof
  fix b p c now b' e
  assume inv: "disk_inv C B b" and "vfs_path_wf p"
  then have wf: "tree_wf (d_tree b)" and loc: "host_loc b p = disk_key C B p"
    by (simp_all add: disk_inv_def host_loc_def disk_key_def)
  have f: "io_fault env x = None" for x using quiet by (simp add: no_faults_def)
  show "be_read (disk_ops env) b p = Inr c \<longleftrightarrow> disk_view b (disk_key C B p) = Some c"
    using disk_read_Inr [OF wf f] loc by (simp add: disk_ops_def)
  note w = disk_write_ok [OF wf fresh, of now p c] and d = disk_delete_ok [OF wf, of env p]
  show "disk_view b' = (disk_view b)(disk_key C B p \<mapsto> c)"
    if "be_write (disk_ops env) now b p c = (Inr (), b')"
    using w [of "Inr ()" b'] that loc by (simp add: disk_ops_def)
  show "disk_view b' = disk_view b" if "be_write (disk_ops env) now b p c = (Inl e, b')"
    using w [of "Inl e" b'] that f by (simp add: disk_ops_def)
  show "disk_view b (disk_key C B p) \<noteq> None \<and> disk_view b' = (disk_view b)(disk_key C B p := None)"
    if "be_delete (disk_ops env) b p = (Inr (), b')"
    using d [of "Inr ()" b'] that loc by (simp add: disk_ops_def)
  show "disk_view b' = disk_view b" if "be_delete (disk_ops env) b p = (Inl e, b')"
    using d [of "Inl e" b'] that by (simp add: disk_ops_def)
  show "disk_inv C B (snd (be_write (disk_ops env) now b p c))"
    using w [of "fst (disk_write env now b p c)" "snd (disk_write env now b p c)"] inv
    by (simp add: disk_ops_def disk_inv_def)
  show "disk_inv C B (snd (be_delete (disk_ops env) b p))"
    using d [of "fst (disk_delete env b p)" "snd (disk_delete env b p)"] inv
    by (simp add: disk_ops_def disk_inv_def)
next
  fix n n' p p'
  show "ns_dir_ok n \<Longrightarrow> ns_ok n" by (simp add: ns_dir_ok_def)
  assume "ns_dir_ok n" "ns_dir_ok n'" "n \<noteq> n'" "vfs_path_wf p" "vfs_path_wf p'"
  then show "disk_key C B (VfsPath (n @ ''::'' @ as_str p)) \<noteq> disk_key C B (VfsPath (n' @ ''::'' @ as_str p'))"
    using disk_key_namespaced [of n p C B] disk_key_namespaced [of n' p' C B] by simp
qed

context disk_host
begin

lemma disk_run_read:
  assumes "disk_inv C B b" "ns_dir_ok ns" "\<forall>x \<in> set xs. ns_dir_ok (top_ns x) \<and> top_ns x \<noteq> ns"
  shows "iso_read (disk_ops env) ns (fold (tenant_step (disk_ops env)) xs b) path = Inr c
     \<longleftrightarrow> iso_read (disk_ops env) ns b path = Inr c"
  by (rule store.tenant_run_read [OF assms])

lemma disk_run_invar:
  assumes "disk_inv C B b"
  shows "disk_inv C B (fold (tenant_step (disk_ops env)) xs b)"
  by (rule store.tenant_run_invar [OF assms])

lemma disk_read_your_writes:
  assumes "disk_inv C B b" "iso_write (disk_ops env) ns now b path c = (Inr (), b')"
  shows "iso_read (disk_ops env) ns b' path = Inr c"
  by (rule store.iso_read_after_write [OF assms])

end

interpretation quiet_disk: disk_host quiet_env C B for C B
  by unfold_locales (simp_all add: no_faults_def quiet_env_def fresh_quiet [unfolded quiet_env_def])

section \<open>The scan\<close>

lemma below_iff: "below k l m \<longleftrightarrow> take (length l) m = l \<and> length l + k \<le> length m"
  by (auto simp: below_def prefix_def) (metis append_take_drop_id)

lemma below_child: "\<lbrakk>k \<noteq> []; butlast k = l\<rbrakk> \<Longrightarrow> below 1 l k \<and> \<not> below 2 l k"
  by (auto simp: below_iff butlast_conv_take)

lemma below_1_cases: "below 1 l k \<longleftrightarrow> k \<noteq> [] \<and> butlast k = l \<or> below 2 l k"
proof (cases "length k = Suc (length l)")
  case True
  then show ?thesis by (auto simp: below_iff butlast_conv_take)
next
  case False
  then show ?thesis by (auto simp: below_iff butlast_conv_take)
qed

lemma child_dirs_node:
  "tree_wf t \<Longrightarrow> d \<in> set (child_dirs t l) \<longleftrightarrow> d \<noteq> [] \<and> butlast d = l \<and> node_at t d = Some NDir"
  by (auto simp: child_dirs_def host_entries_def node_at_def tree_wf_def image_iff)

lemma child_dirs_distinct: "tree_wf t \<Longrightarrow> distinct (child_dirs t l)"
  unfolding child_dirs_def host_entries_def tree_wf_def by (auto simp: distinct_map intro: inj_on_subset)

lemma below_2_dir:
  assumes "tree_wf t" "(k, n) \<in> set t"
  shows "below 2 l k \<longleftrightarrow> (\<exists>d \<in> set (child_dirs t l). below 1 d k)"
proof
  assume a: "below 2 l k"
  let ?d = "take (Suc (length l)) k"
  have "k \<noteq> []" using a by (auto simp: below_iff)
  then have k: "node_at t k \<noteq> None" using assms(2) weak_map_of_SomeI [of k n t] by (auto simp: node_at_def)
  have len: "Suc (length l) < length k" using a by (simp add: below_iff)
  have "node_at t ?d = Some NDir" by (rule tree_wf_ancestor [OF assms(1) k len])
  moreover have "butlast ?d = l" "?d \<noteq> []" "below 1 ?d k" using len a by (auto simp: below_iff butlast_take)
  ultimately show "\<exists>d \<in> set (child_dirs t l). below 1 d k" using child_dirs_node [OF assms(1)] by blast
next
  assume "\<exists>d \<in> set (child_dirs t l). below 1 d k"
  then obtain d where d: "d \<noteq> []" "butlast d = l" "below 1 d k" using child_dirs_node [OF assms(1)] by blast
  have "d = l @ [last d]" using d(1,2) by auto
  then have "take (length l) (take (Suc (length l)) k) = take (length l) (l @ [last d])" "Suc (Suc (length l)) \<le> length k"
    using d(3) by (metis below_iff length_append_singleton, metis below_iff length_append_singleton Suc_eq_plus1)
  then show "below 2 l k" by (simp add: below_iff)
qed

lemma below_1_unique: "\<lbrakk>below 1 d k; below 1 d' k; d \<noteq> []; d' \<noteq> []; butlast d = butlast d'\<rbrakk> \<Longrightarrow> d = d'"
proof -
  assume a: "below 1 d k" "below 1 d' k" "d \<noteq> []" "d' \<noteq> []" and b: "butlast d = butlast d'"
  have "length d = length d'" using a(3,4) arg_cong [OF b, of length]
    by (simp add: length_greater_0_conv [symmetric] del: length_greater_0_conv)
  moreover have "d = take (length d) k" "d' = take (length d') k" using a(1,2) by (simp_all add: below_iff)
  ultimately show "d = d'" by simp
qed

lemma sum_list_one:
  assumes "distinct ds" "\<And>d d'. \<lbrakk>d \<in> set ds; d' \<in> set ds; P d; P d'\<rbrakk> \<Longrightarrow> d = d'"
  shows "(\<Sum>d\<leftarrow>ds. if P d then w else 0) = (if \<exists>d \<in> set ds. P d then w else (0 :: nat))"
  using assms
proof (induction ds)
  case (Cons d ds)
  then have "(\<Sum>d\<leftarrow>ds. if P d then w else 0) = (if \<exists>d \<in> set ds. P d then w else 0)" by simp
  moreover have "P d \<Longrightarrow> \<not> (\<exists>d' \<in> set ds. P d')" using Cons.prems by (metis distinct.simps(2) list.set_intros)
  ultimately show ?case by auto
qed simp

lemma sum_list_swap:
  "(\<Sum>x\<leftarrow>xs. \<Sum>y\<leftarrow>ys. f x y) = (\<Sum>y\<leftarrow>ys. \<Sum>x\<leftarrow>xs. f x y :: nat)"
  by (induction xs) (simp_all add: sum_list_addf)

lemma weight_below_2:
  assumes "tree_wf t"
  shows "weight (\<lambda>e. below 2 l (fst e)) w t
       = (\<Sum>d\<leftarrow>child_dirs t l. weight (\<lambda>e. below 1 d (fst e)) w t)"
proof -
  have "(if below 2 l (fst e) then w (snd e) else 0)
      = (\<Sum>d\<leftarrow>child_dirs t l. if below 1 d (fst e) then w (snd e) else 0)" if "e \<in> set t" for e
  proof -
    have "d = d'" if "d \<in> set (child_dirs t l)" "d' \<in> set (child_dirs t l)" "below 1 d (fst e)" "below 1 d' (fst e)" for d d'
      using that child_dirs_node [OF assms] by (metis below_1_unique)
    moreover have "(fst e, snd e) \<in> set t" using that by simp
    ultimately show ?thesis
      using sum_list_one [OF child_dirs_distinct [OF assms], of l "\<lambda>d. below 1 d (fst e)" "w (snd e)"]
        below_2_dir [OF assms, of "fst e" "snd e" l] by simp
  qed
  then show ?thesis unfolding weight_def sum_list_swap [of _ _ t, symmetric]
    by (intro arg_cong [of _ _ sum_list] map_cong) auto
qed

lemma weight_below_1:
  assumes "tree_wf t"
  shows "weight (\<lambda>e. below 1 l (fst e)) w t
       = (\<Sum>e\<leftarrow>host_entries t l. w (snd e)) + weight (\<lambda>e. below 2 l (fst e)) w t"
proof -
  have "(\<Sum>e\<leftarrow>host_entries t l. w (snd e)) = (\<Sum>e\<leftarrow>t. if fst e \<noteq> [] \<and> butlast (fst e) = l then w (snd e) else 0)"
    by (simp add: host_entries_def sum_list_map_filter')
  moreover have "(if below 1 l k then x else 0)
      = (if k \<noteq> [] \<and> butlast k = l then x else 0) + (if below 2 l k then x else (0 :: nat))" for k x
    using below_1_cases [of l k] below_child [of k l] by auto
  ultimately show ?thesis by (simp add: weight_def sum_list_addf)
qed

lemma sat_add_assoc: "sat_add (sat_add a b) c = sat_add a (b + c)"
  by (simp add: sat_add_def min_def)

lemma sat_add_0: "a \<le> 2 ^ 64 - 1 \<Longrightarrow> sat_add a 0 = a"
  by (simp add: sat_add_def)

lemma sat_add_le: "sat_add a b \<le> 2 ^ 64 - 1"
  by (simp add: sat_add_def)

lemma scan_entries:
  "tot \<le> 2 ^ 64 - 1 \<Longrightarrow> fold scan_entry es (count, tot, dirs)
     = (count + (\<Sum>e\<leftarrow>es. file_one (snd e)), sat_add tot (\<Sum>e\<leftarrow>es. file_len (snd e)),
        rev (map fst (filter (\<lambda>e. snd e = NDir) es)) @ dirs)"
proof (induction es arbitrary: count tot dirs)
  case (Cons e es)
  then show ?case
    using Cons.IH [OF sat_add_le]
    by (cases "snd e") (simp_all add: scan_entry_def file_one_def file_len_def sat_add_assoc)
qed (simp add: sat_add_0)

lemma entries_error_none: "no_faults env \<Longrightarrow> entries_error env what es = None"
  by (simp add: entries_error_def no_faults_def)

lemma host_read_dir_ok:
  assumes "tree_wf t" "no_faults env" "node_at t d = Some NDir"
  shows "\<exists>ns. attempt env CReadDir (host_read_dir t d) = Inr ns"
  using assms host_stat_Inr [OF assms(1), of d NDir] by (simp add: attempt_def no_faults_def host_read_dir_def)

lemma dir_count: "(\<Sum>e\<leftarrow>es. dir_one (snd e)) = length (filter (\<lambda>e. snd e = NDir) es)"
  by (induction es) (auto simp: dir_one_def split: node.splits)

text \<open>The number of iterations left is the number of directories at or below those on the stack.\<close>

lemma scan_dirs_ok:
  assumes "tree_wf t" "no_faults env"
  shows "\<lbrakk>\<forall>d \<in> set stack. node_at t d = Some NDir; tot \<le> 2 ^ 64 - 1;
      (\<Sum>d\<leftarrow>stack. Suc (weight (\<lambda>e. below 1 d (fst e)) dir_one t)) < fuel\<rbrakk>
    \<Longrightarrow> scan_dirs fuel env t stack (count, tot)
      = Some (Inr (count + (\<Sum>d\<leftarrow>stack. weight (\<lambda>e. below 1 d (fst e)) file_one t),
          sat_add tot (\<Sum>d\<leftarrow>stack. weight (\<lambda>e. below 1 d (fst e)) file_len t)))"
proof (induction fuel arbitrary: stack count tot)
  case (Suc fuel)
  let ?W = "\<lambda>w d. weight (\<lambda>e. below 1 d (fst e)) w t"
  show ?case
  proof (cases stack)
    case Nil
    then show ?thesis using Suc.prems(2) by (simp add: sat_add_0)
  next
    case (Cons d ds)
    let ?new = "rev (child_dirs t d) @ ds"
    have d: "node_at t d = Some NDir" using Suc.prems(1) Cons by simp
    have W: "?W w d = (\<Sum>e\<leftarrow>host_entries t d. w (snd e)) + (\<Sum>d\<leftarrow>child_dirs t d. ?W w d)" for w :: "node \<Rightarrow> nat"
      using weight_below_1 [OF assms(1), of d w] weight_below_2 [OF assms(1), of d w] by simp
    have len: "(\<Sum>e\<leftarrow>host_entries t d. dir_one (snd e)) = length (child_dirs t d)"
      by (simp add: dir_count child_dirs_def)
    have "(\<Sum>d\<leftarrow>?new. Suc (?W dir_one d)) = ?W dir_one d + (\<Sum>d\<leftarrow>ds. Suc (?W dir_one d))"
      unfolding W [of dir_one] by (simp add: len sum_list_Suc rev_map [symmetric] sum_list_rev)
    then have "(\<Sum>d\<leftarrow>?new. Suc (?W dir_one d)) < fuel" using Suc.prems(3) Cons by simp
    moreover have "\<forall>d \<in> set ?new. node_at t d = Some NDir"
      using Suc.prems(1) Cons child_dirs_node [OF assms(1)] by auto
    ultimately have ih: "scan_dirs fuel env t ?new (c, sat_add x y)
        = Some (Inr (c + (\<Sum>d\<leftarrow>?new. ?W file_one d), sat_add (sat_add x y) (\<Sum>d\<leftarrow>?new. ?W file_len d)))" for c x y
      by (intro Suc.IH sat_add_le)
    have "scan_dirs (Suc fuel) env t stack (count, tot)
        = scan_dirs fuel env t ?new (count + (\<Sum>e\<leftarrow>host_entries t d. file_one (snd e)),
            sat_add tot (\<Sum>e\<leftarrow>host_entries t d. file_len (snd e)))"
      using host_read_dir_ok [OF assms d] scan_entries [OF Suc.prems(2)]
      by (auto simp: Cons entries_error_none [OF assms(2)] child_dirs_def)
    then show ?thesis unfolding ih Cons by (simp del: One_nat_def add: W sat_add_assoc rev_map [symmetric] sum_list_rev ac_simps)
  qed
qed simp

lemma weight_less:
  assumes "e \<in> set t" "\<not> P e" "\<And>n. w n \<le> 1"
  shows "weight P w t < length t"
  using assms(1)
proof (induction t)
  case (Cons a t)
  have le: "weight P w u \<le> length u" for u
  proof (induction u)
    case (Cons x u)
    then show ?case using assms(3) [of "snd x"] by (simp add: weight_def)
  qed (simp add: weight_def)
  show ?case using Cons assms(2) assms(3) [of "snd a"] le [of t] by (auto simp: weight_def)
qed simp

lemma scan_namespace_ok:
  assumes "tree_wf t" "no_faults env" "(d, NDir) \<in> set t"
  shows "scan_namespace env t d = Some (Inr (weight (\<lambda>e. below 1 d (fst e)) file_one t,
     sat_add 0 (weight (\<lambda>e. below 1 d (fst e)) file_len t)))"
proof -
  have "node_at t d = Some NDir" using assms(1,3) by (auto simp: node_at_def tree_wf_def)
  moreover have "weight (\<lambda>e. below 1 d (fst e)) dir_one t < length t"
    by (rule weight_less [OF assms(3)]) (simp_all add: below_iff dir_one_def split: node.split)
  ultimately show ?thesis
    using scan_dirs_ok [OF assms(1,2), of "[d]" 0 "Suc (length t)" 0] by (simp add: scan_namespace_def)
qed

lemma scan_subdirs_ok:
  assumes "tree_wf t" "no_faults env" "set es \<subseteq> set t"
  shows "tot \<le> 2 ^ 64 - 1 \<Longrightarrow> scan_subdirs env t es (count, tot)
     = Some (Inr (count + (\<Sum>d\<leftarrow>map fst (filter (\<lambda>e. snd e = NDir) es). weight (\<lambda>e. below 1 d (fst e)) file_one t),
         sat_add tot (\<Sum>d\<leftarrow>map fst (filter (\<lambda>e. snd e = NDir) es). weight (\<lambda>e. below 1 d (fst e)) file_len t)))"
  using assms(3)
proof (induction es arbitrary: count tot)
  case (Cons e es)
  have sat: "sat_add tot (sat_add 0 x + y) = sat_add tot (x + y)" for x y by (simp add: sat_add_def min_def)
  show ?case
  proof (cases "snd e")
    case NDir
    then have "(fst e, NDir) \<in> set t" using Cons.prems(2) by (metis insert_subset list.simps(15) prod.collapse)
    then show ?thesis using Cons NDir scan_namespace_ok [OF assms(1,2)] Cons.IH [OF sat_add_le]
      by (simp add: sat sat_add_assoc)
  qed (use Cons in simp)
qed (simp add: sat_add_0)

lemma scan_storage_ok:
  assumes "tree_wf t" "no_faults env" "node_at t l = Some NDir"
  shows "scan_storage env t l = Some (Inr (weight (\<lambda>e. below 2 l (fst e)) file_one t,
     sat_add 0 (weight (\<lambda>e. below 2 l (fst e)) file_len t)))"
  using host_read_dir_ok [OF assms] scan_subdirs_ok [OF assms(1,2), of "host_entries t l" 0 0]
  by (auto simp: scan_storage_def entries_error_none [OF assms(2)] weight_below_2 [OF assms(1)] child_dirs_def
      host_entries_def)

lemma sample_tree_wf: "tree_wf sample_tree"
  by code_simp

section \<open>Properties\<close>

text \<open>
  C6. Writes are atomic. Whatever the operating system fails to do, a write either stores exactly
  the bytes given at the location of the path and changes no other file, or it reports an error,
  leaves every file as it was and the counters unchanged, and at most one stray temporary file
  remains, none unless its removal fails too.
\<close>

theorem disk_write_atomic:
  assumes "tree_wf (d_tree b)" "fresh_temp env" "disk_write env now b p c = (r, b')"
  shows "tree_wf (d_tree b')
     \<and> (if r = Inr () then disk_view b' = (disk_view b)(host_loc b p \<mapsto> c)
        else (\<exists>tmp. disk_view b tmp = None \<and> (disk_view b')(tmp := None) = disk_view b)
          \<and> (io_fault env CRemove = None \<longrightarrow> disk_view b' = disk_view b)
          \<and> disk_current_usage b' = disk_current_usage b)"
  using disk_write_ok [OF assms] by simp

theorem disk_write_atomic_witness:
  "let env = quiet_env\<lparr>io_fault := (\<lambda>x. if x = CRename then Some IoPermissionDenied else None)\<rparr>;
       b' = snd (disk_write env 9 sample_disk (VfsPath ''app_a::k'') [9])
   in disk_view b' [''data'', ''app_a'', ''k''] = Some [1, 2] \<and> disk_current_usage b' = (2, 3)"
proof -
  let ?env = "quiet_env\<lparr>io_fault := (\<lambda>x. if x = CRename then Some IoPermissionDenied else None)\<rparr>"
  let ?w = "disk_write ?env 9 sample_disk (VfsPath ''app_a::k'') [9]"
  have f: "fresh_temp ?env" using fresh_quiet by (simp add: fresh_temp_def temp_path_def)
  have t: "tree_wf (d_tree sample_disk)" by code_simp
  have r: "fst ?w \<noteq> Inr ()" by code_simp
  have e: "io_fault ?env CRemove = None" by simp
  from disk_write_atomic [OF t f, of 9 "VfsPath ''app_a::k''" "[9]" "fst ?w" "snd ?w"] r e
  have "disk_view (snd ?w) = disk_view sample_disk" "disk_current_usage (snd ?w) = disk_current_usage sample_disk"
    by simp_all
  moreover have "disk_view sample_disk [''data'', ''app_a'', ''k''] = Some [1, 2]"
    "disk_current_usage sample_disk = (2, 3)" by code_simp+
  ultimately show ?thesis by (simp add: Let_def)
qed

text \<open>
  Tenants are isolated on disk: as long as the operating system's calls succeed, no sequence of
  writes and deletes by tenants of other namespaces changes the contents a tenant reads.
\<close>

theorem disk_tenant_isolation:
  assumes "no_faults env" "fresh_temp env" "tree_wf (d_tree b)" "ns_dir_ok ns"
    "\<forall>x \<in> set xs. ns_dir_ok (top_ns x) \<and> top_ns x \<noteq> ns"
  shows "iso_read (disk_ops env) ns (fold (tenant_step (disk_ops env)) xs b) path = Inr c
     \<longleftrightarrow> iso_read (disk_ops env) ns b path = Inr c"
proof -
  have "disk_host env" using assms(1,2) by (rule disk_host.intro)
  moreover have "disk_inv (d_cwd b) (d_base_path b) b" using assms(3) by (simp add: disk_inv_def)
  ultimately show ?thesis by (rule disk_host.disk_run_read [OF _ _ assms(4,5)])
qed

theorem disk_tenant_isolation_witness:
  "iso_read (disk_ops quiet_env) ''app_a''
     (fold (tenant_step (disk_ops quiet_env)) [TWrite ''app_b'' 2 ''k'' [13], TDelete ''app_b'' ''/k''] sample_disk)
     ''k'' = Inr [1, 2]"
proof -
  let ?xs = "[TWrite ''app_b'' 2 ''k'' [13], TDelete ''app_b'' ''/k'']"
  have q: "no_faults quiet_env" by (simp add: no_faults_def quiet_env_def)
  have t: "tree_wf (d_tree sample_disk)" by code_simp
  have n: "ns_dir_ok ''app_a''" by code_simp
  have x: "\<forall>x \<in> set ?xs. ns_dir_ok (top_ns x) \<and> top_ns x \<noteq> ''app_a''" by code_simp
  have "iso_read (disk_ops quiet_env) ''app_a'' sample_disk ''k'' = Inr [1, 2]" by code_simp
  with disk_tenant_isolation [OF q fresh_quiet t n x, of "''k''" "[1, 2]"] show ?thesis by simp
qed

text \<open>
  Where a path leads: a path that an isolate prefixed with its namespace leads to the location with
  the path's segments, less single dots, in the namespace's own directory below the base directory. A
  path given to the backend itself is not confined: after a double colon an absolute rest replaces
  the base directory.
\<close>

theorem disk_path_confined:
  assumes "iso_prefix_namespace ns path = Inr sp" "ns_dir_ok ns"
  shows "(\<exists>p. vfs_path_new path = Inr p \<and> locate C (to_filesystem_path B sp)
         = locate C B @ ns # filter (\<lambda>c. c \<noteq> ''.'') (split_on (CHR ''/'') (as_str p)))
     \<and> vfs_path_new ''x::/etc/passwd'' = Inr (VfsPath ''x::/etc/passwd'')
     \<and> locate C (to_filesystem_path B (VfsPath ''x::/etc/passwd'')) = [''etc'', ''passwd'']"
proof (intro conjI)
  obtain p where p: "vfs_path_new path = Inr p" "sp = VfsPath (ns @ ''::'' @ as_str p)"
    using assms iso_prefix_namespace_Inr [of ns path sp] by (auto simp: ns_dir_ok_def)
  then have "locate C (to_filesystem_path B sp)
      = locate C B @ ns # filter (\<lambda>c. c \<noteq> ''.'') (split_on (CHR ''/'') (as_str p))"
    using disk_key_namespaced [OF assms(2) vfs_path_new_wf_rule [OF p(1)], of C B] by (simp add: disk_key_def)
  with p(1) show "\<exists>p. vfs_path_new path = Inr p \<and> locate C (to_filesystem_path B sp)
         = locate C B @ ns # filter (\<lambda>c. c \<noteq> ''.'') (split_on (CHR ''/'') (as_str p))" by blast
  show "vfs_path_new ''x::/etc/passwd'' = Inr (VfsPath ''x::/etc/passwd'')" by code_simp
  have e: "find_sub ''::'' ''x::/etc/passwd'' = Some 1" by code_simp
  have "to_filesystem_path B (VfsPath ''x::/etc/passwd'') = ''/etc/passwd''"
    by (simp add: to_filesystem_path_def e path_join_def path_is_absolute_def starts_with_def)
  then show "locate C (to_filesystem_path B (VfsPath ''x::/etc/passwd'')) = [''etc'', ''passwd'']"
    by (simp add: locate_def path_is_absolute_def starts_with_def)
qed

theorem disk_path_confined_witness:
  "locate [''srv''] (to_filesystem_path ''data'' (VfsPath ''app_a::./d/n.txt''))
     = [''srv'', ''data'', ''app_a'', ''d'', ''n.txt'']"
proof -
  have p: "iso_prefix_namespace ''app_a'' ''/./d//n.txt'' = Inr (VfsPath ''app_a::./d/n.txt'')" by code_simp
  have n: "ns_dir_ok ''app_a''" by code_simp
  have v: "vfs_path_new ''/./d//n.txt'' = Inr (VfsPath ''./d/n.txt'')" by code_simp
  have "locate [''srv''] ''data'' @ ''app_a'' # filter (\<lambda>c. c \<noteq> ''.'') (split_on (CHR ''/'') (as_str (VfsPath ''./d/n.txt'')))
      = [''srv'', ''data'', ''app_a'', ''d'', ''n.txt'']" by code_simp
  with disk_path_confined [OF p n, of "[''srv'']" "''data''"] v show ?thesis by auto
qed

text \<open>
  Opening a backend terminates and counts what is there: with fuel for one iteration per entry of
  the tree the scan of a directory tree of any depth returns, and the counters are the number and
  the (saturated) size of the files at least two levels below the base directory. A file directly in the
  base directory, where the backend stores paths without a namespace, is not counted.
\<close>

theorem disk_new_counts:
  assumes "tree_wf t" "no_faults env" "host_create_dir_all t (locate cwd base) = Inr t1"
  shows "disk_new env cwd t base = Some (Inr \<lparr>d_base_path = base, d_limits = default_limits,
       d_total_bytes = of_nat (min (weight (\<lambda>e. below 2 (locate cwd base) (fst e)) file_len t1) (2 ^ 64 - 1)),
       d_file_count = of_nat (weight (\<lambda>e. below 2 (locate cwd base) (fst e)) file_one t1),
       d_cwd = cwd, d_tree = t1\<rparr>) \<and> file_at t1 = file_at t"
  using host_create_dir_all_ok(1-3) [OF assms(1,3)] scan_storage_ok [of t1 env "locate cwd base"] assms(2,3)
  by (simp add: disk_new_def attempt_def no_faults_def sat_add_def bind_res_def)

theorem disk_new_counts_witness:
  "\<exists>b. disk_new quiet_env [] sample_tree ''/data'' = Some (Inr b) \<and> disk_current_usage b = (2, 3)
     \<and> disk_view b [''data'', ''loose''] = Some [7]"
proof -
  have q: "no_faults quiet_env" by (simp add: no_faults_def quiet_env_def)
  have c: "host_create_dir_all sample_tree (locate [] ''/data'') = Inr sample_tree" by code_simp
  have w: "weight (\<lambda>e. below 2 (locate [] ''/data'') (fst e)) file_len sample_tree = 3"
    "weight (\<lambda>e. below 2 (locate [] ''/data'') (fst e)) file_one sample_tree = 2" by code_simp+
  have "file_at sample_tree [''data'', ''loose''] = Some [7]" by code_simp
  with disk_new_counts [OF sample_tree_wf q c] show ?thesis
    by (simp add: w disk_current_usage_def disk_view_def)
qed

end
