(* ===== verification/Nano_Limits.thy ===== *)
theory Nano_Limits
  imports Nano_Prelude
begin

text \<open>
  The compile-time resource limits (\<^verbatim>\<open>src/src/limits.rs\<close>) as 32-bit words, and the static
  allocation total computed from them in 64 bits.
\<close>

definition isolate_POOL_SIZE_MAX :: u32 where "isolate_POOL_SIZE_MAX = 10000"
definition HEAP_SIZE_BYTES_PER_ISOLATE :: u32 where
  "HEAP_SIZE_BYTES_PER_ISOLATE = 128 * 1024 * 1024"
definition HEAP_SIZE_BYTES_MAX :: u32 where "HEAP_SIZE_BYTES_MAX = 256 * 1024 * 1024"

definition queue_DEPTH_MAX :: u32 where "queue_DEPTH_MAX = 10000"
definition WORKERS_PER_APP_MAX :: u32 where "WORKERS_PER_APP_MAX = 64"
definition PER_WORKER_CAPACITY :: u32 where "PER_WORKER_CAPACITY = 256"

definition REQUEST_POOL_SIZE :: u32 where "REQUEST_POOL_SIZE = 1000"
definition REQUEST_SIZE_BYTES_MAX :: u32 where "REQUEST_SIZE_BYTES_MAX = 10 * 1024 * 1024"
definition RESPONSE_SIZE_BYTES_MAX :: u32 where "RESPONSE_SIZE_BYTES_MAX = 10 * 1024 * 1024"

definition SCRIPT_SIZE_BYTES_MAX :: u32 where "SCRIPT_SIZE_BYTES_MAX = 10 * 1024 * 1024"
definition TIMEOUT_MS :: u32 where "TIMEOUT_MS = 30000"
definition EVENT_LOOP_ITERATIONS_MAX :: u32 where "EVENT_LOOP_ITERATIONS_MAX = 10000"
definition CALL_STACK_DEPTH_MAX :: u32 where "CALL_STACK_DEPTH_MAX = 100"

definition HEADER_COUNT_MAX :: u32 where "HEADER_COUNT_MAX = 100"
definition HEADER_SIZE_BYTES_MAX :: u32 where "HEADER_SIZE_BYTES_MAX = 8 * 1024"
definition BODY_SIZE_BYTES_MAX :: u32 where "BODY_SIZE_BYTES_MAX = 10 * 1024 * 1024"

definition vfs_FILE_COUNT_MAX :: u32 where "vfs_FILE_COUNT_MAX = 100000"
definition STORAGE_BYTES_MAX :: u32 where "STORAGE_BYTES_MAX = 1024 * 1024 * 1024"
definition vfs_FILE_SIZE_BYTES_MAX :: u32 where "vfs_FILE_SIZE_BYTES_MAX = 100 * 1024 * 1024"
definition PATH_LENGTH_BYTES_MAX :: u32 where "PATH_LENGTH_BYTES_MAX = 4096"

text \<open>\<^verbatim>\<open>size_of::<usize>()\<close> is 8 on the 64-bit target.\<close>

definition total_static_allocation_bytes :: u64 where
  "total_static_allocation_bytes =
     (let isolate_memory = (ucast isolate_POOL_SIZE_MAX :: u64) * ucast HEAP_SIZE_BYTES_PER_ISOLATE;
          queue_memory = ucast queue_DEPTH_MAX * 8;
          buffer_memory = ucast REQUEST_POOL_SIZE * ucast REQUEST_SIZE_BYTES_MAX
      in isolate_memory + queue_memory + buffer_memory)"

definition total_static_allocation_mb :: u64 where
  "total_static_allocation_mb = total_static_allocation_bytes div (1024 * 1024)"

lemmas limit_defs = isolate_POOL_SIZE_MAX_def HEAP_SIZE_BYTES_PER_ISOLATE_def
  HEAP_SIZE_BYTES_MAX_def queue_DEPTH_MAX_def WORKERS_PER_APP_MAX_def PER_WORKER_CAPACITY_def
  REQUEST_POOL_SIZE_def REQUEST_SIZE_BYTES_MAX_def TIMEOUT_MS_def

end
