(* ===== verification/Config_App.thy ===== *)
theory Config_App
  imports Nano_Limits Vfs_Isolate
begin

text \<open>
  Application configuration (\<^verbatim>\<open>src/src/config/app.rs\<close>) and the timeout configuration it yields
  (\<^verbatim>\<open>src/src/worker/timeout.rs\<close>). Validation collects every error message in order, as the code
  does. The host file system that validation consults is the record \<open>host_fs\<close> of the two
  queries it makes (\<^verbatim>\<open>Path::exists\<close>, \<^verbatim>\<open>Path::is_file\<close>). Environment variables are the entries of
  a hash map, in its iteration order.
\<close>

section \<open>Definitions\<close>

subsection \<open>Timeouts\<close>

record timeout_config =
  cpu_time_limit_ms :: u32
  wall_clock_limit_ms :: u32
  termination_grace_us :: u32

definition default_timeout_config :: timeout_config where
  "default_timeout_config =
     \<lparr>cpu_time_limit_ms = 50, wall_clock_limit_ms = 30000, termination_grace_us = 100\<rparr>"

definition with_cpu_limit :: "u32 \<Rightarrow> timeout_config" where
  "with_cpu_limit n = default_timeout_config\<lparr>cpu_time_limit_ms := n\<rparr>"

text \<open>Durations in nanoseconds.\<close>

definition cpu_duration :: "timeout_config \<Rightarrow> nat" where
  "cpu_duration c = unat (cpu_time_limit_ms c) * 1000000"

definition wall_clock_duration :: "timeout_config \<Rightarrow> nat" where
  "wall_clock_duration c = unat (wall_clock_limit_ms c) * 1000000"

definition grace_duration :: "timeout_config \<Rightarrow> nat" where
  "grace_duration c = unat (termination_grace_us c) * 1000"

definition validate_timeout :: "timeout_config \<Rightarrow> string + unit" where
  "validate_timeout c =
     (if cpu_time_limit_ms c < 1 then Inl ''CPU time limit must be at least 1ms''
      else if cpu_time_limit_ms c > 1000 then Inl ''CPU time limit must not exceed 1000ms (1s)''
      else if wall_clock_limit_ms c < cpu_time_limit_ms c
      then Inl ''Wall clock limit must be >= CPU time limit''
      else if wall_clock_limit_ms c > 300000
      then Inl ''Wall clock limit must not exceed 300s (5min)''
      else Inr ())"

subsection \<open>Limits of an application\<close>

record app_limits =
  memory_mb :: u32
  timeout_secs :: u32
  workers :: u32
  cpu_time_ms :: u32
  cpu_time_enabled :: bool
  max_ws_connections :: "u32 option"
  ws_idle_timeout_ms :: "u64 option"

definition default_memory_mb :: u32 where "default_memory_mb = 128"
definition default_timeout_secs :: u32 where "default_timeout_secs = 30"
definition default_workers :: u32 where "default_workers = 4"
definition default_cpu_time_ms :: u32 where "default_cpu_time_ms = 50"
definition default_cpu_time_enabled :: bool where "default_cpu_time_enabled = True"

definition default_app_limits :: app_limits where
  "default_app_limits = \<lparr>memory_mb = default_memory_mb, timeout_secs = default_timeout_secs,
     workers = default_workers, cpu_time_ms = default_cpu_time_ms,
     cpu_time_enabled = default_cpu_time_enabled, max_ws_connections = None,
     ws_idle_timeout_ms = None\<rparr>"

text \<open>The multiplication is the wrapping one of a release build.\<close>

definition to_timeout_config :: "app_limits \<Rightarrow> timeout_config" where
  "to_timeout_config l =
     \<lparr>cpu_time_limit_ms = (if cpu_time_enabled l then cpu_time_ms l else 1000),
      wall_clock_limit_ms = timeout_secs l * 1000,
      termination_grace_us = 100\<rparr>"

definition effective_max_ws_connections :: "app_limits \<Rightarrow> u32" where
  "effective_max_ws_connections l =
     (case max_ws_connections l of Some n \<Rightarrow> n | None \<Rightarrow> workers l div 2)"

definition effective_ws_idle_timeout_ms :: "app_limits \<Rightarrow> u64" where
  "effective_ws_idle_timeout_ms l =
     (case ws_idle_timeout_ms l of Some n \<Rightarrow> n | None \<Rightarrow> 30000)"

subsection \<open>Configuration data\<close>

datatype vfs_backend_type = Memory | Disk | S3

record vfs_disk_config =
  base_path :: string

record vfs_s3_config =
  endpoint :: string
  bucket :: string
  region :: string
  access_key :: string
  secret_key :: string
  key_prefix :: "string option"
  path_style :: bool

record app_config =
  hostname :: string
  entrypoint :: string
  sliver :: "string option"
  env_vars :: "(string \<times> string) list"
  app_limits_of :: app_limits
  vfs_backend_of :: vfs_backend_type
  vfs_disk :: "vfs_disk_config option"
  vfs_s3 :: "vfs_s3_config option"

definition default_app_config :: app_config where
  "default_app_config = \<lparr>hostname = [], entrypoint = [], sliver = None, env_vars = [],
     app_limits_of = default_app_limits, vfs_backend_of = Memory, vfs_disk = None, vfs_s3 = None\<rparr>"

record server_config_section =
  port :: u16
  host :: string

definition default_server_config :: server_config_section where
  "default_server_config = \<lparr>port = 8080, host = ''0.0.0.0''\<rparr>"

record nano_config =
  apps :: "app_config list"
  server :: server_config_section

subsection \<open>Validation\<close>

record host_fs =
  path_exists :: "string \<Rightarrow> bool"
  path_is_file :: "string \<Rightarrow> bool"

definition label_ok :: "string \<Rightarrow> bool" where
  "label_ok label =
     (label \<noteq> [] \<and> length label \<le> 63 \<and> \<not> (hd label = CHR ''-'' \<or> last label = CHR ''-'')
      \<and> list_all (\<lambda>b. is_ascii_alphanumeric b \<or> b = CHR ''-'') label)"

definition is_valid_hostname :: "string \<Rightarrow> bool" where
  "is_valid_hostname h =
     (if h = [] then False
      else if length h > 253 then False
      else list_all label_ok (split_on (CHR ''.'') h))"

text \<open>Text in single quotes, as the messages print names.\<close>

definition quoted :: "string \<Rightarrow> string" where
  "quoted s = CHR 0x27 # s @ [CHR 0x27]"

text \<open>The two path checks of \<^verbatim>\<open>validate_config\<close> differ only in the noun of the message.\<close>

definition check_host_path :: "host_fs \<Rightarrow> string option \<Rightarrow> string \<Rightarrow> string \<Rightarrow> string list" where
  "check_host_path fs base noun p = (case base of
       None \<Rightarrow> []
     | Some base \<Rightarrow>
         let full_path = (if path_is_absolute p then p else path_join base p) in
         if \<not> path_exists fs full_path
         then [noun @ '' '' @ quoted p @ '' not found (resolved to: '' @ full_path @ '')'']
         else if \<not> path_is_file fs full_path then [noun @ '' '' @ quoted p @ '' is not a file'']
         else [])"

definition hostname_errors :: "string \<Rightarrow> string list" where
  "hostname_errors h =
     (if h = [] then [''hostname cannot be empty'']
      else if \<not> is_valid_hostname h then [quoted h @ '' is not a valid hostname'']
      else [])"

definition entrypoint_errors :: "host_fs \<Rightarrow> string option \<Rightarrow> app_config \<Rightarrow> string list" where
  "entrypoint_errors fs base c =
     (if entrypoint c = [] \<and> sliver c = None
      then [''either entrypoint or sliver must be specified''] else [])
     @ (if entrypoint c \<noteq> []
        then if contains_sub (entrypoint c) ''..''
          then [''entrypoint '' @ quoted (entrypoint c) @ '' contains '..' which is not allowed for security'']
          else check_host_path fs base ''entrypoint'' (entrypoint c)
        else [])"

definition sliver_errors :: "host_fs \<Rightarrow> string option \<Rightarrow> app_config \<Rightarrow> string list" where
  "sliver_errors fs base c = (case sliver c of
       None \<Rightarrow> []
     | Some s \<Rightarrow>
         if s = [] then [''sliver path cannot be empty'']
         else if contains_sub s ''..''
         then [''sliver path '' @ quoted s @ '' contains '..' which is not allowed for security'']
         else check_host_path fs base ''sliver'' s)"

definition range_error :: "string \<Rightarrow> u32 \<Rightarrow> u32 \<Rightarrow> u32 \<Rightarrow> string list" where
  "range_error name lo hi v =
     (if v < lo \<or> v > hi
      then [name @ '' must be between '' @ show_nat (unat lo) @ '' and '' @ show_nat (unat hi)
            @ '', got '' @ show_nat (unat v)]
      else [])"

definition limits_errors :: "app_limits \<Rightarrow> string list" where
  "limits_errors l =
     range_error ''memory_mb'' 16 (HEAP_SIZE_BYTES_MAX div (1024 * 1024)) (memory_mb l)
     @ range_error ''timeout_secs'' 1 (TIMEOUT_MS div 1000) (timeout_secs l)
     @ range_error ''workers'' 1 WORKERS_PER_APP_MAX (workers l)
     @ range_error ''cpu_time_ms'' 1 1000 (cpu_time_ms l)"

definition env_var_errors :: "string \<times> string \<Rightarrow> string list" where
  "env_var_errors kv = (let (key, value) = kv in
     (if key = [] then [''environment variable key cannot be empty''] else [])
     @ (if contains_sub key ''..'' \<or> CHR ''/'' \<in> set key \<or> CHR 0x5C \<in> set key
        then [''suspicious environment variable key: '' @ quoted key] else [])
     @ (if length value > 65536
        then [''environment variable '' @ quoted key @ '' value exceeds 64KB limit''] else []))"

definition vfs_errors :: "app_config \<Rightarrow> string list" where
  "vfs_errors c = (case vfs_backend_of c of
       Memory \<Rightarrow> []
     | Disk \<Rightarrow> (case vfs_disk c of
           None \<Rightarrow> [''vfs_backend is 'disk' but vfs_disk configuration is missing'']
         | Some d \<Rightarrow>
             if base_path d = [] then [''vfs_disk.base_path cannot be empty'']
             else if contains_sub (base_path d) ''..''
             then [''vfs_disk.base_path contains '..' which is not allowed for security'']
             else [])
     | S3 \<Rightarrow> (case vfs_s3 c of
           None \<Rightarrow> [''vfs_backend is 's3' but vfs_s3 configuration is missing'']
         | Some s \<Rightarrow>
             (if endpoint s = [] then [''vfs_s3.endpoint cannot be empty''] else [])
             @ (if bucket s = [] then [''vfs_s3.bucket cannot be empty''] else [])
             @ (if access_key s = [] then [''vfs_s3.access_key cannot be empty''] else [])
             @ (if secret_key s = [] then [''vfs_s3.secret_key cannot be empty''] else [])))"

definition errors_result :: "string list \<Rightarrow> string list + unit" where
  "errors_result errors = (if errors = [] then Inr () else Inl errors)"

definition validate_config :: "host_fs \<Rightarrow> string option \<Rightarrow> app_config \<Rightarrow> string list + unit" where
  "validate_config fs base c = errors_result
     (hostname_errors (hostname c) @ entrypoint_errors fs base c @ sliver_errors fs base c
      @ limits_errors (app_limits_of c) @ concat (map env_var_errors (env_vars c)) @ vfs_errors c)"

fun duplicate_errors :: "string set \<Rightarrow> app_config list \<Rightarrow> string list" where
  "duplicate_errors seen [] = []"
| "duplicate_errors seen (app # rest) =
     (let lower_hostname = to_lowercase (hostname app) in
      if lower_hostname \<in> seen
      then (''duplicate hostname: '' @ quoted (hostname app) @ '' (case-insensitive)'')
           # duplicate_errors seen rest
      else duplicate_errors (insert lower_hostname seen) rest)"

definition app_errors :: "host_fs \<Rightarrow> string option \<Rightarrow> nat \<times> app_config \<Rightarrow> string list" where
  "app_errors fs base ia = (case validate_config fs base (snd ia) of
       Inr _ \<Rightarrow> []
     | Inl es \<Rightarrow> map (\<lambda>e. ''app['' @ show_nat (fst ia) @ ''] ('' @ hostname (snd ia) @ ''): '' @ e) es)"

definition validate_nano_config :: "host_fs \<Rightarrow> string option \<Rightarrow> nano_config \<Rightarrow> string list + unit" where
  "validate_nano_config fs base c = errors_result
     ((if apps c = [] then [''configuration must define at least one application'']
       else if length (apps c) > 1000
       then [''too many applications: '' @ show_nat (length (apps c)) @ '' (max 1000)'']
       else [])
      @ duplicate_errors {} (apps c)
      @ concat (map (app_errors fs base) (List.enumerate 0 (apps c)))
      @ (if port (server c) = 0 then [''server port cannot be 0''] else [])
      @ (if host (server c) = [] then [''server host cannot be empty''] else []))"

text \<open>
  The declarative contract of validation: what each part of an accepted configuration
  satisfies.
\<close>

definition no_traversal :: "string \<Rightarrow> bool" where
  "no_traversal s = (\<not> contains_sub s ''..'')"

definition path_present :: "host_fs \<Rightarrow> string option \<Rightarrow> string \<Rightarrow> bool" where
  "path_present fs base p = (case base of None \<Rightarrow> True
     | Some b \<Rightarrow> path_exists fs (path_join b p) \<and> path_is_file fs (path_join b p))"

definition limits_in_range :: "app_limits \<Rightarrow> bool" where
  "limits_in_range l = (unat (memory_mb l) \<in> {16..256} \<and> unat (timeout_secs l) \<in> {1..30}
     \<and> unat (workers l) \<in> {1..64} \<and> unat (cpu_time_ms l) \<in> {1..1000})"

definition backend_configured :: "app_config \<Rightarrow> bool" where
  "backend_configured c = (case vfs_backend_of c of
       Memory \<Rightarrow> True
     | Disk \<Rightarrow> (\<exists>d. vfs_disk c = Some d \<and> base_path d \<noteq> [] \<and> no_traversal (base_path d))
     | S3 \<Rightarrow> (\<exists>s. vfs_s3 c = Some s \<and> endpoint s \<noteq> [] \<and> bucket s \<noteq> [] \<and> access_key s \<noteq> []
         \<and> secret_key s \<noteq> []))"

section \<open>What validation guarantees\<close>

lemma errors_result_ok [simp]: "errors_result es = Inr () \<longleftrightarrow> es = []"
  by (simp add: errors_result_def)

lemma range_error_Nil [simp]: "range_error name lo hi v = [] \<longleftrightarrow> lo \<le> v \<and> v \<le> hi"
  by (auto simp: range_error_def not_less)

lemma duplicate_errors_Nil:
  "duplicate_errors seen as = [] \<longleftrightarrow>
     distinct (map (\<lambda>a. to_lowercase (hostname a)) as)
     \<and> seen \<inter> (\<lambda>a. to_lowercase (hostname a)) ` set as = {}"
  by (induction seen as rule: duplicate_errors.induct) (auto simp: Let_def)

lemma app_errors_Nil: "app_errors fs base ia = [] \<longleftrightarrow> validate_config fs base (snd ia) = Inr ()"
  by (auto simp: app_errors_def errors_result_def validate_config_def split: sum.splits if_splits)

lemma app_errors_enumerate:
  "(\<forall>ia \<in> set (List.enumerate 0 as). app_errors fs base ia = []) \<longleftrightarrow>
     list_all (\<lambda>a. validate_config fs base a = Inr ()) as"
  unfolding app_errors_Nil list_all_iff
  by (metis (no_types, lifting) list.set_map map_snd_enumerate image_iff)

lemma validate_nano_config_apps:
  "\<lbrakk>validate_nano_config fs base c = Inr (); a \<in> set (apps c)\<rbrakk> \<Longrightarrow> validate_config fs base a = Inr ()"
  using app_errors_enumerate [of "apps c" fs base] by (auto simp: validate_nano_config_def list_all_iff)

lemma limits_errors_Nil:
  "limits_errors l = [] \<longleftrightarrow> 16 \<le> memory_mb l \<and> memory_mb l \<le> 256
     \<and> 1 \<le> timeout_secs l \<and> timeout_secs l \<le> 30 \<and> 1 \<le> workers l \<and> workers l \<le> 64
     \<and> 1 \<le> cpu_time_ms l \<and> cpu_time_ms l \<le> 1000"
  by (simp add: limits_errors_def limit_defs)

lemma hostname_chars:
  assumes "is_valid_hostname h" "x \<in> set h"
  shows "is_ascii_alphanumeric x \<or> x = CHR ''-'' \<or> x = CHR ''.''"
proof -
  have "x \<in> set (join_with ''.'' (split_on (CHR ''.'') h))" using assms(2) by simp
  then have "x = CHR ''.'' \<or> (\<exists>l \<in> set (split_on (CHR ''.'') h). x \<in> set l)"
    using set_join_with [of "CHR ''.''" "split_on (CHR ''.'') h"] by blast
  moreover have "\<forall>l \<in> set (split_on (CHR ''.'') h). label_ok l"
    using assms(1) by (auto simp: is_valid_hostname_def list_all_iff split: if_splits)
  ultimately show ?thesis by (auto simp: label_ok_def list_all_iff)
qed

lemma lower_char_alnum: "is_ascii_alphanumeric x \<Longrightarrow> is_ascii_alphanumeric (lower_char x)"
  by (auto simp: is_ascii_alphanumeric_def lower_char_def Let_def)

lemma alnum_not_special:
  "is_ascii_alphanumeric x \<Longrightarrow> x \<noteq> CHR ''/'' \<and> x \<noteq> CHR '':'' \<and> x \<noteq> CHR 0x00 \<and> x \<noteq> CHR ''.''"
  by (auto simp: is_ascii_alphanumeric_def)

lemma valid_hostname_ns_ok:
  assumes "is_valid_hostname h"
  shows "ns_ok (from_hostname h)"
proof -
  have "from_hostname h \<noteq> []"
    using assms by (auto simp: is_valid_hostname_def from_hostname_def replace_char_def to_lowercase_def)
  moreover have "y \<noteq> CHR ''/'' \<and> y \<noteq> CHR '':'' \<and> y \<noteq> CHR 0x00" if "y \<in> set (from_hostname h)" for y
  proof -
    from that obtain x where x: "x \<in> set h" and y: "y = CHR ''_'' \<or> y = lower_char x"
      by (auto simp: from_hostname_def replace_char_def to_lowercase_def)
    from hostname_chars [OF assms x] y show ?thesis
      using alnum_not_special [OF lower_char_alnum, of x]
      by (auto simp: lower_char_def)
  qed
  ultimately show ?thesis unfolding ns_ok_def by blast
qed

lemma validate_config_ok:
  "validate_config fs base c = Inr () \<longleftrightarrow>
     hostname_errors (hostname c) = [] \<and> entrypoint_errors fs base c = [] \<and> sliver_errors fs base c = []
     \<and> limits_errors (app_limits_of c) = [] \<and> (\<forall>kv \<in> set (env_vars c). env_var_errors kv = [])
     \<and> vfs_errors c = []"
  by (auto simp: validate_config_def)

lemma hostname_errors_Nil: "hostname_errors h = [] \<longleftrightarrow> is_valid_hostname h"
  by (auto simp: hostname_errors_def is_valid_hostname_def)

lemma u32_mult_1000:
  assumes "(n :: u32) \<le> 300"
  shows "unat (n * 1000) = unat n * 1000"
proof -
  have n: "unat n \<le> 300" using assms by (simp add: word_le_nat_alt)
  have "n * 1000 = of_nat (unat n * 1000)" by simp
  also have "unat \<dots> = unat n * 1000"
    unfolding unat_of_nat using n by (intro mod_less) simp
  finally show ?thesis .
qed

lemma limits_errors_range: "limits_errors l = [] \<longleftrightarrow> limits_in_range l"
  by (auto simp: limits_errors_Nil limits_in_range_def word_le_nat_alt)

lemma check_host_path_Nil: "check_host_path fs base noun p = [] \<longleftrightarrow> path_present fs base p"
  by (auto simp: check_host_path_def path_present_def path_join_def Let_def split: option.splits)

lemma vfs_errors_Nil: "vfs_errors c = [] \<longleftrightarrow> backend_configured c"
  by (auto simp: vfs_errors_def backend_configured_def no_traversal_def
      split: vfs_backend_type.splits option.splits)

lemma env_var_errors_Nil:
  "env_var_errors (k, v) = [] \<longleftrightarrow>
     k \<noteq> [] \<and> no_traversal k \<and> CHR ''/'' \<notin> set k \<and> CHR 0x5C \<notin> set k \<and> length v \<le> 65536"
  by (auto simp: env_var_errors_def no_traversal_def)

lemma env_vars_ok:
  "(\<forall>kv \<in> set es. env_var_errors kv = []) \<longleftrightarrow>
   (\<forall>(k, v) \<in> set es. k \<noteq> [] \<and> no_traversal k \<and> CHR ''/'' \<notin> set k \<and> CHR 0x5C \<notin> set k
      \<and> length v \<le> 65536)"
  using env_var_errors_Nil by fast

section \<open>Properties\<close>

text \<open>
  \<^verbatim>\<open>validate_config\<close> accepts exactly the configurations that meet its contract: a valid
  hostname (whose namespace is then non-empty and free of separators), an entry point or a
  sliver, none with \<^verbatim>\<open>..\<close> and both present as files under the base directory if one is given, the
  four limits in range, harmless environment keys, and a configured storage backend.
\<close>

theorem validate_config_exact:
  "validate_config fs base c = Inr () \<longleftrightarrow>
     is_valid_hostname (hostname c) \<and> ns_ok (from_hostname (hostname c))
     \<and> \<not> (entrypoint c = [] \<and> sliver c = None)
     \<and> (entrypoint c = [] \<or> no_traversal (entrypoint c) \<and> path_present fs base (entrypoint c))
     \<and> (case sliver c of None \<Rightarrow> True
        | Some s \<Rightarrow> s \<noteq> [] \<and> no_traversal s \<and> path_present fs base s)
     \<and> limits_in_range (app_limits_of c)
     \<and> list_all (\<lambda>(k, v). k \<noteq> [] \<and> no_traversal k \<and> CHR ''/'' \<notin> set k \<and> CHR 0x5C \<notin> set k
          \<and> length v \<le> 65536) (env_vars c)
     \<and> backend_configured c"
proof -
  have e: "entrypoint_errors fs base c = [] \<longleftrightarrow>
      \<not> (entrypoint c = [] \<and> sliver c = None)
      \<and> (entrypoint c = [] \<or> no_traversal (entrypoint c) \<and> path_present fs base (entrypoint c))"
    by (auto simp: entrypoint_errors_def check_host_path_Nil no_traversal_def)
  have s: "sliver_errors fs base c = [] \<longleftrightarrow> (case sliver c of None \<Rightarrow> True
        | Some s \<Rightarrow> s \<noteq> [] \<and> no_traversal s \<and> path_present fs base s)"
    by (auto simp: sliver_errors_def check_host_path_Nil no_traversal_def split: option.split)
  show ?thesis
    unfolding validate_config_ok hostname_errors_Nil e s limits_errors_range vfs_errors_Nil
      env_vars_ok list_all_iff
    using valid_hostname_ns_ok [of "hostname c"] by blast
qed

text \<open>
  C10. \<^verbatim>\<open>validate_nano_config\<close> accepts exactly: between 1 and 1000 applications, hostnames that
  are pairwise different without regard to case, every application valid on its own, a
  non-zero port and a non-empty host.
\<close>

theorem validate_nano_config_exact:
  "validate_nano_config fs base c = Inr () \<longleftrightarrow>
     length (apps c) \<in> {1..1000}
     \<and> distinct (map (\<lambda>a. to_lowercase (hostname a)) (apps c))
     \<and> list_all (\<lambda>a. validate_config fs base a = Inr ()) (apps c)
     \<and> port (server c) \<noteq> 0 \<and> host (server c) \<noteq> []"
  using app_errors_enumerate [of "apps c" fs base]
  by (auto simp: validate_nano_config_def duplicate_errors_Nil Suc_le_eq)

text \<open>
  Limits that pass validation give a timeout configuration that passes its own
  validation: the multiplication to milliseconds does not wrap, and the CPU limit never
  exceeds the wall-clock limit, also when CPU tracking is disabled.
\<close>

theorem validated_limits_timeouts:
  assumes "limits_errors l = []"
  shows "validate_timeout (to_timeout_config l) = Inr ()
     \<and> unat (wall_clock_limit_ms (to_timeout_config l)) = unat (timeout_secs l) * 1000
     \<and> cpu_duration (to_timeout_config l) \<le> wall_clock_duration (to_timeout_config l)
     \<and> grace_duration (to_timeout_config l) < cpu_duration (to_timeout_config l)"
proof -
  have r: "1 \<le> unat (timeout_secs l)" "unat (timeout_secs l) \<le> 30"
    "1 \<le> unat (cpu_time_ms l)" "unat (cpu_time_ms l) \<le> 1000"
    using assms by (auto simp: limits_errors_range limits_in_range_def)
  have w: "unat (timeout_secs l * 1000) = unat (timeout_secs l) * 1000"
    using r by (intro u32_mult_1000) (simp add: word_le_nat_alt)
  show ?thesis
    using r by (auto simp: to_timeout_config_def validate_timeout_def cpu_duration_def
        wall_clock_duration_def grace_duration_def word_less_nat_alt w)
qed

theorem validated_limits_timeouts_witness:
  "limits_errors default_app_limits = []
   \<and> validate_timeout (to_timeout_config default_app_limits) = Inr ()
   \<and> unat (wall_clock_limit_ms (to_timeout_config default_app_limits)) = 30000"
proof -
  have a: "limits_errors default_app_limits = []" by code_simp
  have "unat (timeout_secs default_app_limits) = 30" by code_simp
  with a validated_limits_timeouts [OF a] show ?thesis by simp
qed

end
