(* ===== verification/Vfs_S3.thy ===== *)
theory Vfs_S3
  imports Vfs_Isolate Config_App "HOL-Library.List_Lexorder" "HOL-Library.Char_ord"
begin

text \<open>
  The S3 backend (\<^verbatim>\<open>src/src/vfs/s3.rs\<close>). The client library is the record \<open>s3_client\<close>, an argument of
  every operation: what its calls answer for a bucket state, with an error given by its text, which
  is all the code reads of it. The locale \<open>s3_service\<close> names what the code relies on (the documented
  behaviour of an object store) over the contents of the bucket; \<open>bucket_client\<close> is a concrete
  instance. Under these laws the backend is a \<open>namespaced_store\<close> keyed by object keys.
\<close>

section \<open>Definitions\<close>

datatype s3_region = CustomRegion string string | NamedRegion string

record s3_head_info =
  content_length :: "int option"
  last_modified :: "string option"

record s3_page =
  common_prefixes :: "string list"
  page_keys :: "string list"

record 's s3_client =
  cl_parse_region :: "string \<Rightarrow> string + s3_region"
  cl_credentials :: "string \<Rightarrow> string \<Rightarrow> string + unit"
  cl_bucket :: "string \<Rightarrow> s3_region \<Rightarrow> string \<times> string \<Rightarrow> bool \<Rightarrow> string + 's"
  cl_get :: "'s \<Rightarrow> string \<Rightarrow> string + bytes"
  cl_head :: "'s \<Rightarrow> string \<Rightarrow> string + s3_head_info"
  cl_put :: "'s \<Rightarrow> string \<Rightarrow> bytes \<Rightarrow> (string + unit) \<times> 's"
  cl_delete :: "'s \<Rightarrow> string \<Rightarrow> (string + unit) \<times> 's"
  cl_list :: "'s \<Rightarrow> string \<Rightarrow> string option \<Rightarrow> string + s3_page list"
  cl_parse_time :: "string \<Rightarrow> nat option"

record 's s3_backend =
  s3_bucket :: 's
  s3_limits :: resource_limits
  s3_prefix :: "string option"
  s3_total_bytes :: usize
  s3_file_count :: usize

text \<open>\<^verbatim>\<open>S3Config\<close> has the fields of the application's \<open>vfs_s3_config\<close>.\<close>

definition s3_new :: "'s s3_client \<Rightarrow> vfs_s3_config \<Rightarrow> 's s3_backend vfs_result" where
  "s3_new cl config =
     bind_res (if path_style config \<or> region config = []
       then Inr (CustomRegion (region config) (endpoint config))
       else case cl_parse_region cl (region config) of
           Inl e \<Rightarrow> Inl (IoError (''Invalid S3 region '' @ [CHR 39] @ region config @ [CHR 39] @ '': '' @ e))
         | Inr r \<Rightarrow> Inr r)
     (\<lambda>reg. case cl_credentials cl (access_key config) (secret_key config) of
        Inl e \<Rightarrow> Inl (IoError (''Invalid S3 credentials: '' @ e))
      | Inr _ \<Rightarrow> (case cl_bucket cl (bucket config) reg (access_key config, secret_key config) (path_style config) of
        Inl e \<Rightarrow> Inl (IoError (''Failed to create S3 bucket: '' @ e))
      | Inr s \<Rightarrow> (case cl_list cl s [] (Some ''/'') of
        Inl e \<Rightarrow> Inl (IoError (''Failed to connect to S3: '' @ e))
      | Inr _ \<Rightarrow> Inr \<lparr>s3_bucket = s, s3_limits = default_limits, s3_prefix = key_prefix config,
          s3_total_bytes = 0, s3_file_count = 0\<rparr>)))"

definition s3_with_limits :: "'s s3_client \<Rightarrow> vfs_s3_config \<Rightarrow> resource_limits \<Rightarrow> 's s3_backend vfs_result" where
  "s3_with_limits cl config l = bind_res (s3_new cl config) (\<lambda>b. Inr (b\<lparr>s3_limits := l\<rparr>))"

definition s3_current_usage :: "'s s3_backend \<Rightarrow> usize \<times> usize" where
  "s3_current_usage b = (s3_file_count b, s3_total_bytes b)"

subsection \<open>Keys\<close>

definition s3_sanitize_namespace :: "string \<Rightarrow> string" where
  "s3_sanitize_namespace ns = replace_char (CHR 10) (CHR ''_'')
     (replace_char (CHR 9) (CHR ''_'') (replace_sub ''::'' ''__'' ns))"

definition to_s3_key :: "string option \<Rightarrow> vfs_path \<Rightarrow> string" where
  "to_s3_key pre path =
     (let path_str = as_str path;
          (namespace, subpath) = (case find_sub ''::'' path_str of
              Some idx \<Rightarrow> (take idx path_str, drop (idx + 2) path_str)
            | None \<Rightarrow> (''default'', path_str));
          sanitized_ns = s3_sanitize_namespace namespace
      in case pre of
           Some p \<Rightarrow> p @ ''/'' @ sanitized_ns @ ''/'' @ subpath
         | None \<Rightarrow> sanitized_ns @ ''/'' @ subpath)"

definition s3_key :: "'s s3_backend \<Rightarrow> vfs_path \<Rightarrow> string" where
  "s3_key b path = to_s3_key (s3_prefix b) path"

subsection \<open>Operations\<close>

definition s3_check_write_bounds :: "'s s3_backend \<Rightarrow> nat \<Rightarrow> bool \<Rightarrow> usize \<Rightarrow> unit vfs_result" where
  "s3_check_write_bounds b content_len is_new old_size =
     (if content_len > unat (file_size_bytes_max (s3_limits b))
      then Inl (QuotaExceeded ''file_size'' (file_size_bytes_max (s3_limits b)) (of_nat content_len))
      else if is_new \<and> unat (s3_file_count b) \<ge> unat (files_count_max (s3_limits b))
      then Inl (QuotaExceeded ''file_count'' (files_count_max (s3_limits b)) (ucast (s3_file_count b)))
      else let new_total = s3_total_bytes b + (of_nat content_len - old_size) in
        if unat new_total > unat (total_storage_bytes_max (s3_limits b))
        then Inl (QuotaExceeded ''total_storage'' (total_storage_bytes_max (s3_limits b))
          (ucast (s3_total_bytes b)))
        else Inr ())"

definition map_s3_error :: "string \<Rightarrow> string \<Rightarrow> vfs_error" where
  "map_s3_error path e =
     (if contains_sub e ''404'' \<or> contains_sub e ''NoSuchKey'' then NotFound path
      else if contains_sub e ''403'' \<or> contains_sub e ''AccessDenied'' then PermissionDenied path
      else IoError (''S3 error: '' @ e))"

text \<open>\<^verbatim>\<open>content_length.unwrap_or(0) as usize\<close>.\<close>

definition head_size :: "s3_head_info \<Rightarrow> usize" where
  "head_size h = (case content_length h of Some n \<Rightarrow> of_int n | None \<Rightarrow> 0)"

definition s3_read :: "'s s3_client \<Rightarrow> 's s3_backend \<Rightarrow> vfs_path \<Rightarrow> bytes vfs_result" where
  "s3_read cl b path = (case cl_get cl (s3_bucket b) (s3_key b path) of
       Inr c \<Rightarrow> Inr c | Inl e \<Rightarrow> Inl (map_s3_error (as_str path) e))"

definition s3_write ::
  "'s s3_client \<Rightarrow> 's s3_backend \<Rightarrow> vfs_path \<Rightarrow> bytes \<Rightarrow> unit vfs_result \<times> 's s3_backend" where
  "s3_write cl b path c =
     (let content_len = length c;
          key = s3_key b path;
          (is_new, old_size) = (case cl_head cl (s3_bucket b) key of
              Inr h \<Rightarrow> (False, head_size h) | Inl _ \<Rightarrow> (True, 0))
      in case s3_check_write_bounds b content_len is_new old_size of
           Inl e \<Rightarrow> (Inl e, b)
         | Inr _ \<Rightarrow> (case cl_put cl (s3_bucket b) key c of
             (Inl e, s) \<Rightarrow> (Inl (IoError (''Failed to write to S3: '' @ e)), b\<lparr>s3_bucket := s\<rparr>)
           | (Inr _, s) \<Rightarrow> (Inr (), if is_new
               then b\<lparr>s3_bucket := s, s3_file_count := s3_file_count b + 1,
                      s3_total_bytes := s3_total_bytes b + of_nat content_len\<rparr>
               else b\<lparr>s3_bucket := s,
                      s3_total_bytes := s3_total_bytes b + (of_nat content_len - old_size)\<rparr>)))"

definition s3_exists :: "'s s3_client \<Rightarrow> 's s3_backend \<Rightarrow> vfs_path \<Rightarrow> bool vfs_result" where
  "s3_exists cl b path = (case cl_head cl (s3_bucket b) (s3_key b path) of
       Inr h \<Rightarrow> Inr ((case content_length h of Some n \<Rightarrow> n | None \<Rightarrow> 0) > 0)
     | Inl _ \<Rightarrow> Inr False)"

definition s3_delete ::
  "'s s3_client \<Rightarrow> 's s3_backend \<Rightarrow> vfs_path \<Rightarrow> unit vfs_result \<times> 's s3_backend" where
  "s3_delete cl b path = (let key = s3_key b path in
     case cl_head cl (s3_bucket b) key of
       Inl e \<Rightarrow> (Inl (map_s3_error (as_str path) e), b)
     | Inr h \<Rightarrow> (case cl_delete cl (s3_bucket b) key of
         (Inl e, s) \<Rightarrow> (Inl (IoError (''Failed to delete from S3: '' @ e)), b\<lparr>s3_bucket := s\<rparr>)
       | (Inr _, s) \<Rightarrow> (Inr (), b\<lparr>s3_bucket := s, s3_file_count := s3_file_count b - 1,
            s3_total_bytes := s3_total_bytes b - head_size h\<rparr>)))"

definition s3_metadata :: "'s s3_client \<Rightarrow> nat \<Rightarrow> 's s3_backend \<Rightarrow> vfs_path \<Rightarrow> vfs_file vfs_result" where
  "s3_metadata cl now b path = (case cl_head cl (s3_bucket b) (s3_key b path) of
       Inl e \<Rightarrow> Inl (map_s3_error (as_str path) e)
     | Inr h \<Rightarrow> bind_res (s3_read cl b path) (\<lambda>c.
         let t = (case Option.bind (last_modified h) (cl_parse_time cl) of Some t \<Rightarrow> t | None \<Rightarrow> now)
         in Inr \<lparr>content = c, created_at = t, modified_at = t, fsize = unat (head_size h)\<rparr>))"

definition strip_prefix :: "string \<Rightarrow> string \<Rightarrow> string option" where
  "strip_prefix s p = (if starts_with s p then Some (drop (length p) s) else None)"

text \<open>The paths one page of the listing contributes: subdirectories, then files.\<close>

definition page_children :: "string \<Rightarrow> string \<Rightarrow> s3_page \<Rightarrow> vfs_path list" where
  "page_children pre parent page =
     (let names = map (trim_end_matches (CHR ''/'')) (List.map_filter (\<lambda>cp. strip_prefix cp pre) (common_prefixes page))
            @ List.map_filter (\<lambda>k. strip_prefix k pre) (page_keys page)
      in List.map_filter (\<lambda>name. case vfs_path_new (parent @ ''/'' @ name) of Inr p \<Rightarrow> Some p | Inl _ \<Rightarrow> None)
           (filter (\<lambda>name. name \<noteq> []) names))"

definition s3_list_dir :: "'s s3_client \<Rightarrow> 's s3_backend \<Rightarrow> vfs_path \<Rightarrow> vfs_path list vfs_result" where
  "s3_list_dir cl b path =
     (let key = s3_key b path;
          pre = (if ends_with_char key (CHR ''/'') then key else key @ ''/'')
      in case cl_list cl (s3_bucket b) pre (Some ''/'') of
           Inl e \<Rightarrow> Inl (map_s3_error (as_str path) e)
         | Inr pages \<Rightarrow> Inr (sort_key as_str (remdups (concat (map (page_children pre (as_str path)) pages)))))"

definition s3_ops :: "'s s3_client \<Rightarrow> nat \<Rightarrow> 's s3_backend vfs_backend" where
  "s3_ops cl now = \<lparr>be_read = s3_read cl, be_write = (\<lambda>_. s3_write cl), be_exists = s3_exists cl,
     be_delete = s3_delete cl, be_metadata = s3_metadata cl now,
     be_list_dir = (\<lambda>b p. Some (s3_list_dir cl b p))\<rparr>"

subsection \<open>Specification vocabulary\<close>

definition ns_key_ok :: "string \<Rightarrow> bool" where
  "ns_key_ok ns = (ns_ok ns \<and> CHR 9 \<notin> set ns \<and> CHR 10 \<notin> set ns)"

definition s3_inv :: "string option \<Rightarrow> 's s3_backend \<Rightarrow> bool" where
  "s3_inv pre b = (s3_prefix b = pre)"

definition s3_view :: "('s \<Rightarrow> string \<rightharpoonup> bytes) \<Rightarrow> 's s3_backend \<Rightarrow> string \<rightharpoonup> bytes" where
  "s3_view objects b = objects (s3_bucket b)"

text \<open>A bucket as an association list, with a directory listing by delimiter.\<close>

definition bucket_client :: "(string \<times> bytes) list s3_client" where
  "bucket_client = \<lparr>cl_parse_region = (\<lambda>r. Inr (NamedRegion r)), cl_credentials = (\<lambda>_ _. Inr ()),
     cl_bucket = (\<lambda>_ _ _ _. Inr []),
     cl_get = (\<lambda>s k. case map_of s k of Some c \<Rightarrow> Inr c | None \<Rightarrow> Inl ''HTTP 404: NoSuchKey''),
     cl_head = (\<lambda>s k. case map_of s k of
         Some c \<Rightarrow> Inr \<lparr>content_length = Some (int (length c)), last_modified = None\<rparr>
       | None \<Rightarrow> Inl ''HTTP 404''),
     cl_put = (\<lambda>s k c. (Inr (), AList.update k c s)),
     cl_delete = (\<lambda>s k. (Inr (), AList.delete k s)),
     cl_list = (\<lambda>s pre _. Inr [\<lparr>common_prefixes = [],
        page_keys = filter (\<lambda>k. starts_with k pre \<and> CHR ''/'' \<notin> set (drop (length pre) k)) (map fst s)\<rparr>]),
     cl_parse_time = (\<lambda>_. None)\<rparr>"

definition empty_s3 :: "string option \<Rightarrow> (string \<times> bytes) list s3_backend" where
  "empty_s3 pre = \<lparr>s3_bucket = [], s3_limits = test_limits, s3_prefix = pre, s3_total_bytes = 0, s3_file_count = 0\<rparr>"

locale s3_service =
  fixes cl :: "'s s3_client"
    and objects :: "'s \<Rightarrow> string \<rightharpoonup> bytes"
    and pre :: "string option"
  assumes get_object: "cl_get cl s k = Inr c \<longleftrightarrow> objects s k = Some c"
    and head_object: "objects s k = Some c \<Longrightarrow>
      \<exists>t. cl_head cl s k = Inr \<lparr>content_length = Some (int (length c)), last_modified = t\<rparr>"
    and head_missing: "objects s k = None \<Longrightarrow> \<exists>e. cl_head cl s k = Inl e"
    and put_object: "cl_put cl s k c = (Inr (), s') \<Longrightarrow> objects s' = (objects s)(k \<mapsto> c)"
    and put_rejected: "cl_put cl s k c = (Inl e, s') \<Longrightarrow> objects s' = objects s"
    and delete_object: "cl_delete cl s k = (Inr (), s') \<Longrightarrow> objects s' = (objects s)(k := None)"
    and delete_rejected: "cl_delete cl s k = (Inl e, s') \<Longrightarrow> objects s' = objects s"

section \<open>Keys\<close>

lemma to_s3_key_namespaced:
  assumes "ns_key_ok ns"
  shows "to_s3_key pre (VfsPath (ns @ ''::'' @ s)) = (case pre of Some p \<Rightarrow> p @ ''/'' | None \<Rightarrow> []) @ ns @ ''/'' @ s"
proof -
  have n: "CHR '':'' \<notin> set ns" "CHR 9 \<notin> set ns" "CHR 10 \<notin> set ns"
    using assms by (auto simp: ns_key_ok_def ns_ok_def)
  show ?thesis using n find_sub_first [OF n(1), of s]
    by (simp add: to_s3_key_def Let_def s3_sanitize_namespace_def replace_colons_plain replace_char_plain
        split: option.split)
qed

lemma s3_keys_differ:
  assumes "ns_key_ok n" "ns_key_ok n'" "n \<noteq> n'"
  shows "to_s3_key pre (VfsPath (n @ ''::'' @ s)) \<noteq> to_s3_key pre (VfsPath (n' @ ''::'' @ s'))"
proof -
  have "n @ CHR ''/'' # s \<noteq> n' @ CHR ''/'' # s'"
    using assms first_sep_unique [of "CHR ''/''" n n' s s'] by (auto simp: ns_key_ok_def ns_ok_def)
  then show ?thesis
    unfolding to_s3_key_namespaced [OF assms(1)] to_s3_key_namespaced [OF assms(2)] by simp
qed

section \<open>The contract of a store\<close>

lemma s3_write_cases:
  assumes "s3_write cl b p c = (r, b')"
  shows "b' = b \<and> (\<exists>e. r = Inl e)
     \<or> (\<exists>x s. cl_put cl (s3_bucket b) (s3_key b p) c = (x, s) \<and> s3_bucket b' = s \<and> s3_prefix b' = s3_prefix b
          \<and> (r = Inr () \<longleftrightarrow> x = Inr ()))"
  using assms by (auto simp: s3_write_def Let_def split: sum.splits prod.splits if_splits) (metis, metis)

lemma s3_delete_cases:
  assumes "s3_delete cl b p = (r, b')"
  shows "b' = b \<and> (\<exists>e. r = Inl e)
     \<or> (\<exists>h x s. cl_head cl (s3_bucket b) (s3_key b p) = Inr h \<and> cl_delete cl (s3_bucket b) (s3_key b p) = (x, s)
          \<and> s3_bucket b' = s \<and> s3_prefix b' = s3_prefix b \<and> (r = Inr () \<longleftrightarrow> x = Inr ()))"
  using assms by (auto simp: s3_delete_def Let_def split: sum.splits prod.splits)

sublocale s3_service \<subseteq> store: namespaced_store "s3_ops cl now" "s3_inv pre" "s3_view objects" "to_s3_key pre" ns_key_ok for now
proof
  fix b b' :: "'s s3_backend" and p c e t
  assume inv: "s3_inv pre b"
  then have k: "s3_key b p = to_s3_key pre p" by (simp add: s3_inv_def s3_key_def)
  show "be_read (s3_ops cl now) b p = Inr c \<longleftrightarrow> s3_view objects b (to_s3_key pre p) = Some c"
    using get_object [of "s3_bucket b" "to_s3_key pre p" c]
    by (auto simp: s3_ops_def s3_read_def k s3_view_def split: sum.splits)
  show "s3_view objects b' = (s3_view objects b)(to_s3_key pre p \<mapsto> c)"
    if "be_write (s3_ops cl now) t b p c = (Inr (), b')"
    using s3_write_cases [of cl b p c "Inr ()" b'] that put_object [of "s3_bucket b"]
    by (auto simp: s3_ops_def s3_view_def k)
  show "s3_view objects b' = s3_view objects b" if "be_write (s3_ops cl now) t b p c = (Inl e, b')"
    using s3_write_cases [of cl b p c "Inl e" b'] that put_rejected [of "s3_bucket b"]
    by (auto simp: s3_ops_def s3_view_def) (metis sumE old.unit.exhaust)
  show "s3_view objects b (to_s3_key pre p) \<noteq> None
      \<and> s3_view objects b' = (s3_view objects b)(to_s3_key pre p := None)"
    if "be_delete (s3_ops cl now) b p = (Inr (), b')"
    using s3_delete_cases [of cl b p "Inr ()" b'] that delete_object [of "s3_bucket b"]
      head_missing [of "s3_bucket b" "to_s3_key pre p"]
    by (cases "objects (s3_bucket b) (to_s3_key pre p)") (auto simp: s3_ops_def s3_view_def k)
  show "s3_view objects b' = s3_view objects b" if "be_delete (s3_ops cl now) b p = (Inl e, b')"
    using s3_delete_cases [of cl b p "Inl e" b'] that delete_rejected [of "s3_bucket b"]
    by (auto simp: s3_ops_def s3_view_def) (metis sumE old.unit.exhaust)
  show "s3_inv pre (snd (be_write (s3_ops cl now) t b p c))"
    using s3_write_cases [of cl b p c "fst (s3_write cl b p c)" "snd (s3_write cl b p c)"] inv
    by (auto simp: s3_ops_def s3_inv_def)
  show "s3_inv pre (snd (be_delete (s3_ops cl now) b p))"
    using s3_delete_cases [of cl b p "fst (s3_delete cl b p)" "snd (s3_delete cl b p)"] inv
    by (auto simp: s3_ops_def s3_inv_def)
next
  show "ns_key_ok n \<Longrightarrow> ns_ok n" for n by (simp add: ns_key_ok_def)
  show "to_s3_key pre (VfsPath (n @ ''::'' @ as_str p)) \<noteq> to_s3_key pre (VfsPath (n' @ ''::'' @ as_str p'))"
    if "ns_key_ok n" "ns_key_ok n'" "n \<noteq> n'" for n n' p p'
    using s3_keys_differ [OF that] by simp
qed

context s3_service
begin

lemma s3_run_read:
  assumes "s3_inv pre b" "ns_key_ok ns" "\<forall>x \<in> set xs. ns_key_ok (top_ns x) \<and> top_ns x \<noteq> ns"
  shows "iso_read (s3_ops cl now) ns (fold (tenant_step (s3_ops cl now)) xs b) path = Inr c
     \<longleftrightarrow> iso_read (s3_ops cl now) ns b path = Inr c"
  by (rule store.tenant_run_read [OF assms])

lemma s3_exists_view:
  assumes "s3_inv pre b"
  shows "s3_exists cl b p = Inr (\<exists>c. s3_view objects b (to_s3_key pre p) = Some c \<and> c \<noteq> [])"
  using assms head_object [of "s3_bucket b" "to_s3_key pre p"] head_missing [of "s3_bucket b" "to_s3_key pre p"]
  by (cases "objects (s3_bucket b) (to_s3_key pre p)")
    (auto simp: s3_exists_def s3_inv_def s3_key_def s3_view_def)

lemma s3_read_view:
  assumes "s3_inv pre b"
  shows "s3_read cl b p = Inr c \<longleftrightarrow> s3_view objects b (to_s3_key pre p) = Some c"
  using get_object [of "s3_bucket b" "to_s3_key pre p" c] assms
  by (auto simp: s3_read_def s3_inv_def s3_key_def s3_view_def split: sum.splits)

end

interpretation bucket: s3_service bucket_client map_of pre for pre
  by unfold_locales (auto simp: bucket_client_def split: option.splits)

section \<open>Properties\<close>

text \<open>
  The S3 backend over any object store with the documented behaviour: tenants of other
  namespaces never change what a tenant reads. Existence and reading disagree: a path is reported
  to exist exactly when it can be read and its contents are not empty, so an empty file is
  readable and does not exist.
\<close>

theorem s3_tenant_isolation:
  assumes "s3_service cl objects" "ns_key_ok ns"
    "\<forall>x \<in> set xs. ns_key_ok (top_ns x) \<and> top_ns x \<noteq> ns"
  shows "(iso_read (s3_ops cl now) ns (fold (tenant_step (s3_ops cl now)) xs b) path = Inr c
       \<longleftrightarrow> iso_read (s3_ops cl now) ns b path = Inr c)
     \<and> s3_exists cl b p = Inr (\<exists>c. s3_read cl b p = Inr c \<and> c \<noteq> [])"
proof -
  have "s3_inv (s3_prefix b) b" by (simp add: s3_inv_def)
  then show ?thesis
    using s3_service.s3_run_read [OF assms(1) _ assms(2,3)] s3_service.s3_exists_view [OF assms(1)]
      s3_service.s3_read_view [OF assms(1)] by simp
qed

theorem s3_tenant_isolation_witness:
  "let b = snd (iso_write (s3_ops bucket_client 0) ''app_a'' 1 (empty_s3 (Some ''nano'')) ''k'' [42]);
       xs = [TWrite ''app_b'' 2 ''k'' [], TDelete ''app_b'' ''/k'']
   in iso_read (s3_ops bucket_client 0) ''app_a'' (fold (tenant_step (s3_ops bucket_client 0)) xs b) ''k'' = Inr [42]
    \<and> (let e = snd (iso_write (s3_ops bucket_client 0) ''app_b'' 2 b ''k'' []) in
       s3_read bucket_client e (VfsPath ''app_b::k'') = Inr [] \<and> s3_exists bucket_client e (VfsPath ''app_b::k'') = Inr False)"
proof -
  let ?b = "snd (iso_write (s3_ops bucket_client 0) ''app_a'' 1 (empty_s3 (Some ''nano'')) ''k'' [42])"
  let ?e = "snd (iso_write (s3_ops bucket_client 0) ''app_b'' 2 ?b ''k'' [])"
  let ?xs = "[TWrite ''app_b'' 2 ''k'' [], TDelete ''app_b'' ''/k'']"
  have n: "ns_key_ok ''app_a''" by code_simp
  have x: "\<forall>x \<in> set ?xs. ns_key_ok (top_ns x) \<and> top_ns x \<noteq> ''app_a''" by code_simp
  note iso = s3_tenant_isolation [OF bucket.s3_service_axioms n x]
  have "iso_read (s3_ops bucket_client 0) ''app_a'' ?b ''k'' = Inr [42]" by code_simp
  moreover have r: "s3_read bucket_client ?e (VfsPath ''app_b::k'') = Inr []" by code_simp
  moreover from r iso [of 0 ?e "''k''" "[]" "VfsPath ''app_b::k''"]
  have "s3_exists bucket_client ?e (VfsPath ''app_b::k'') = Inr False" by simp
  ultimately show ?thesis using iso [of 0 ?b "''k''" "[42]"] by (simp add: Let_def)
qed

end
