(* ===== verification/Vfs_Factory.thy ===== *)
theory Vfs_Factory
  imports Vfs_Disk Vfs_S3
begin

text \<open>
  The enum of backends (\<^verbatim>\<open>VfsBackendEnum\<close> in \<^verbatim>\<open>src/src/vfs/mod.rs\<close>), which forwards every operation to the
  backend it holds, and the factory that opens the backend an application is configured with
  (\<^verbatim>\<open>src/src/vfs/factory.rs\<close>). Whether the program was built with the feature \<^verbatim>\<open>vfs-s3\<close> is an argument of
  the factory. The environment of a backend is \<open>backend_env\<close>: the operating system of the disk
  backend, the client of the S3 backend and the time.
\<close>

section \<open>Definitions\<close>

datatype 's vfs_backend_enum =
    BMemory memory_backend | BDisk disk_backend | BS3 "'s s3_backend"

record 's backend_env =
  benv_disk :: disk_env
  benv_s3 :: "'s s3_client"
  benv_now :: nat

definition enum_read :: "'s backend_env \<Rightarrow> 's vfs_backend_enum \<Rightarrow> vfs_path \<Rightarrow> bytes vfs_result" where
  "enum_read env b path = (case b of
       BMemory m \<Rightarrow> mem_read m path
     | BDisk d \<Rightarrow> disk_read (benv_disk env) d path
     | BS3 s \<Rightarrow> s3_read (benv_s3 env) s path)"

definition enum_write ::
  "'s backend_env \<Rightarrow> nat \<Rightarrow> 's vfs_backend_enum \<Rightarrow> vfs_path \<Rightarrow> bytes \<Rightarrow> unit vfs_result \<times> 's vfs_backend_enum" where
  "enum_write env now b path c = (case b of
       BMemory m \<Rightarrow> apsnd BMemory (mem_write now m path c)
     | BDisk d \<Rightarrow> apsnd BDisk (disk_write (benv_disk env) now d path c)
     | BS3 s \<Rightarrow> apsnd BS3 (s3_write (benv_s3 env) s path c))"

definition enum_exists :: "'s backend_env \<Rightarrow> 's vfs_backend_enum \<Rightarrow> vfs_path \<Rightarrow> bool vfs_result" where
  "enum_exists env b path = (case b of
       BMemory m \<Rightarrow> mem_exists m path
     | BDisk d \<Rightarrow> disk_exists (benv_disk env) d path
     | BS3 s \<Rightarrow> s3_exists (benv_s3 env) s path)"

definition enum_delete ::
  "'s backend_env \<Rightarrow> 's vfs_backend_enum \<Rightarrow> vfs_path \<Rightarrow> unit vfs_result \<times> 's vfs_backend_enum" where
  "enum_delete env b path = (case b of
       BMemory m \<Rightarrow> apsnd BMemory (mem_delete m path)
     | BDisk d \<Rightarrow> apsnd BDisk (disk_delete (benv_disk env) d path)
     | BS3 s \<Rightarrow> apsnd BS3 (s3_delete (benv_s3 env) s path))"

definition enum_metadata :: "'s backend_env \<Rightarrow> 's vfs_backend_enum \<Rightarrow> vfs_path \<Rightarrow> vfs_file vfs_result" where
  "enum_metadata env b path = (case b of
       BMemory m \<Rightarrow> mem_metadata m path
     | BDisk d \<Rightarrow> disk_metadata (benv_disk env) d path
     | BS3 s \<Rightarrow> s3_metadata (benv_s3 env) (benv_now env) s path)"

definition enum_list_dir ::
  "'s backend_env \<Rightarrow> 's vfs_backend_enum \<Rightarrow> vfs_path \<Rightarrow> vfs_path list vfs_result option" where
  "enum_list_dir env b path = (case b of
       BMemory m \<Rightarrow> mem_list_dir m path
     | BDisk d \<Rightarrow> Some (disk_list_dir (benv_disk env) d path)
     | BS3 s \<Rightarrow> Some (s3_list_dir (benv_s3 env) s path))"

definition enum_len :: "'s vfs_backend_enum \<Rightarrow> nat" where
  "enum_len b = (case b of BMemory m \<Rightarrow> mem_len m | BDisk _ \<Rightarrow> 0 | BS3 _ \<Rightarrow> 0)"

definition enum_is_empty :: "'s vfs_backend_enum \<Rightarrow> bool" where
  "enum_is_empty b = (enum_len b = 0)"

definition enum_ops :: "'s backend_env \<Rightarrow> 's vfs_backend_enum vfs_backend" where
  "enum_ops env = \<lparr>be_read = enum_read env, be_write = enum_write env, be_exists = enum_exists env,
     be_delete = enum_delete env, be_metadata = enum_metadata env, be_list_dir = enum_list_dir env\<rparr>"

subsection \<open>The factory\<close>

definition missing_disk_config :: vfs_error where
  "missing_disk_config = InvalidPath ''vfs_disk'' ''Disk backend requires vfs_disk configuration''"

definition missing_s3_config :: vfs_error where
  "missing_s3_config = InvalidPath ''vfs_s3'' ''S3 backend requires vfs_s3 configuration''"

definition create_backend ::
  "bool \<Rightarrow> 's backend_env \<Rightarrow> loc \<Rightarrow> host_tree \<Rightarrow> vfs_backend_type \<Rightarrow> vfs_disk_config option \<Rightarrow> vfs_s3_config option
     \<Rightarrow> 's vfs_backend_enum vfs_result option" where
  "create_backend s3_feature env cwd t backend_type disk_config s3_config = (case backend_type of
       Memory \<Rightarrow> Some (Inr (BMemory mem_new))
     | Disk \<Rightarrow> (case disk_config of
           None \<Rightarrow> Some (Inl missing_disk_config)
         | Some config \<Rightarrow> map_option (\<lambda>r. bind_res r (\<lambda>d. Inr (BDisk d)))
             (disk_new (benv_disk env) cwd t (base_path config)))
     | S3 \<Rightarrow> Some (if s3_feature then (case s3_config of
             None \<Rightarrow> Inl missing_s3_config
           | Some config \<Rightarrow> bind_res (s3_new (benv_s3 env) config) (\<lambda>s. Inr (BS3 s)))
         else Inl (IoError ''S3 backend requires vfs-s3 feature'')))"

definition create_backend_with_limits ::
  "bool \<Rightarrow> 's backend_env \<Rightarrow> loc \<Rightarrow> host_tree \<Rightarrow> vfs_backend_type \<Rightarrow> vfs_disk_config option \<Rightarrow> vfs_s3_config option
     \<Rightarrow> resource_limits \<Rightarrow> 's vfs_backend_enum vfs_result option" where
  "create_backend_with_limits s3_feature env cwd t backend_type disk_config s3_config l = (case backend_type of
       Memory \<Rightarrow> Some (Inr (BMemory (mem_with_limits l)))
     | Disk \<Rightarrow> (case disk_config of
           None \<Rightarrow> Some (Inl missing_disk_config)
         | Some config \<Rightarrow> map_option (\<lambda>r. bind_res r (\<lambda>d. Inr (BDisk d)))
             (disk_with_limits (benv_disk env) cwd t (base_path config) l))
     | S3 \<Rightarrow> Some (if s3_feature then (case s3_config of
             None \<Rightarrow> Inl missing_s3_config
           | Some config \<Rightarrow> bind_res (s3_with_limits (benv_s3 env) config l) (\<lambda>s. Inr (BS3 s)))
         else Inl (IoError ''S3 backend requires vfs-s3 feature'')))"

subsection \<open>Specification vocabulary\<close>

text \<open>What the operations rely on, for whichever backend was opened.\<close>

definition env_ok :: "('s \<Rightarrow> string \<rightharpoonup> bytes) \<Rightarrow> 's backend_env \<Rightarrow> bool" where
  "env_ok objects env = (no_faults (benv_disk env) \<and> fresh_temp (benv_disk env) \<and> s3_service (benv_s3 env) objects)"

definition enum_inv :: "'s vfs_backend_enum \<Rightarrow> bool" where
  "enum_inv b = (case b of BMemory m \<Rightarrow> mem_inv m | BDisk d \<Rightarrow> tree_wf (d_tree d) | BS3 _ \<Rightarrow> True)"

definition host_ns :: "string \<Rightarrow> bool" where
  "host_ns ns = (\<exists>h. is_valid_hostname h \<and> ns = from_hostname h)"

definition sample_env :: "(string \<times> bytes) list backend_env" where
  "sample_env = \<lparr>benv_disk = quiet_env, benv_s3 = bucket_client, benv_now = 0\<rparr>"

definition sample_s3_config :: vfs_s3_config where
  "sample_s3_config = \<lparr>endpoint = ''http://localhost:9000'', bucket = ''files'', region = [], access_key = ''key'',
     secret_key = ''secret'', key_prefix = Some ''nano'', path_style = True\<rparr>"

definition sample_s3_app :: app_config where
  "sample_s3_app = default_app_config\<lparr>hostname := ''App.example'', vfs_backend_of := S3,
     vfs_s3 := Some sample_s3_config\<rparr>"

section \<open>The enum forwards every operation\<close>

lemma enum_iso_read:
  "iso_read (enum_ops env) ns (BMemory m) path = iso_read memory_ops ns m path"
  "iso_read (enum_ops env) ns (BDisk d) path = iso_read (disk_ops (benv_disk env)) ns d path"
  "iso_read (enum_ops env) ns (BS3 s) path = iso_read (s3_ops (benv_s3 env) (benv_now env)) ns s path"
  by (simp_all add: iso_read_def enum_ops_def enum_read_def memory_ops_def disk_ops_def s3_ops_def bind_res_def
      split: sum.split)

lemma enum_tenant_step:
  "tenant_step (enum_ops env) x (BMemory m) = BMemory (tenant_step memory_ops x m)"
  "tenant_step (enum_ops env) x (BDisk d) = BDisk (tenant_step (disk_ops (benv_disk env)) x d)"
  "tenant_step (enum_ops env) x (BS3 s) = BS3 (tenant_step (s3_ops (benv_s3 env) (benv_now env)) x s)"
  by (simp_all add: tenant_step_def iso_write_def iso_delete_def enum_ops_def enum_write_def enum_delete_def
      memory_ops_def disk_ops_def s3_ops_def split: tenant_op.split sum.split)

lemma enum_tenant_run:
  "fold (tenant_step (enum_ops env)) xs (BMemory m) = BMemory (fold (tenant_step memory_ops) xs m)"
  "fold (tenant_step (enum_ops env)) xs (BDisk d) = BDisk (fold (tenant_step (disk_ops (benv_disk env))) xs d)"
  "fold (tenant_step (enum_ops env)) xs (BS3 s) = BS3 (fold (tenant_step (s3_ops (benv_s3 env) (benv_now env))) xs s)"
  by (induction xs arbitrary: m d s) (simp_all add: enum_tenant_step)

section \<open>Namespaces of hosts\<close>

lemma host_ns_chars:
  assumes "host_ns ns" "y \<in> set ns"
  shows "is_ascii_alphanumeric y \<or> y = CHR ''_''"
proof -
  obtain h where h: "is_valid_hostname h" "ns = from_hostname h" using assms(1) by (auto simp: host_ns_def)
  then obtain x where x: "x \<in> set h" "y = CHR ''_'' \<or> y = lower_char x \<and> y \<noteq> CHR ''.'' \<and> y \<noteq> CHR ''-''"
    using assms(2) by (auto simp: from_hostname_def replace_char_def to_lowercase_def split: if_splits)
  with hostname_chars [OF h(1) x(1)] lower_char_alnum show ?thesis by (auto simp: lower_char_def)
qed

lemma host_ns_ok:
  assumes "host_ns ns"
  shows "ns_ok ns" "ns_dir_ok ns" "ns_key_ok ns"
proof -
  show ok: "ns_ok ns" using assms valid_hostname_ns_ok by (auto simp: host_ns_def)
  have c: "CHR 0x5C \<notin> set ns" "CHR ''.'' \<notin> set ns" "CHR 9 \<notin> set ns" "CHR 10 \<notin> set ns"
    using host_ns_chars [OF assms, of "CHR 0x5C"] host_ns_chars [OF assms, of "CHR ''.''"]
      host_ns_chars [OF assms, of "CHR 9"] host_ns_chars [OF assms, of "CHR 10"]
    by (auto simp: is_ascii_alphanumeric_def)
  then have "ns \<noteq> ''.''" "ns \<noteq> ''..''" by auto
  with c ok show "ns_dir_ok ns" "ns_key_ok ns" by (simp_all add: ns_dir_ok_def ns_key_ok_def)
qed

section \<open>The backend of an application\<close>

lemma create_backend_inv:
  assumes "create_backend feat env cwd t ty dc sc = Some (Inr b)" "tree_wf t"
  shows "enum_inv b"
proof (cases ty)
  case Memory
  then show ?thesis using assms(1) mem_inv_init by (auto simp: create_backend_def enum_inv_def mem_new_def)
next
  case Disk
  then obtain d c where d: "disk_new (benv_disk env) cwd t c = Some (Inr d)" "b = BDisk d"
    using assms(1) by (auto simp: create_backend_def bind_res_Inr split: option.splits)
  then obtain t1 where "host_create_dir_all t (locate cwd c) = Inr t1" "d_tree d = t1"
    by (auto simp: disk_new_def attempt_def bind_res_Inr split: sum.splits option.splits)
  then show ?thesis using host_create_dir_all_ok(1) [OF assms(2)] d(2) by (simp add: enum_inv_def)
next
  case S3
  then show ?thesis using assms(1) by (auto simp: create_backend_def enum_inv_def bind_res_Inr split: if_splits option.splits)
qed

lemma enum_run_inv:
  assumes "env_ok objects env" "enum_inv b"
  shows "enum_inv (fold (tenant_step (enum_ops env)) xs b)"
proof (cases b)
  case (BMemory m)
  then show ?thesis using assms(2) mem.tenant_run_invar [of m xs] by (simp add: enum_inv_def enum_tenant_run)
next
  case (BDisk d)
  have "disk_inv (d_cwd d) (d_base_path d) d" using BDisk assms(2) by (simp add: disk_inv_def enum_inv_def)
  moreover have "disk_host (benv_disk env)" using assms(1) by (simp add: env_ok_def disk_host_def)
  ultimately have "disk_inv (d_cwd d) (d_base_path d) (fold (tenant_step (disk_ops (benv_disk env))) xs d)"
    by (rule disk_host.disk_run_invar [rotated])
  then show ?thesis by (simp add: BDisk enum_inv_def enum_tenant_run disk_inv_def)
next
  case (BS3 s)
  then show ?thesis by (simp add: enum_inv_def enum_tenant_run)
qed

lemma enum_run_read:
  assumes "env_ok objects env" "enum_inv b" "host_ns ns" "\<forall>x \<in> set xs. host_ns (top_ns x) \<and> top_ns x \<noteq> ns"
  shows "iso_read (enum_ops env) ns (fold (tenant_step (enum_ops env)) xs b) path = Inr c
     \<longleftrightarrow> iso_read (enum_ops env) ns b path = Inr c"
proof (cases b)
  case (BMemory m)
  have "mem_inv m" using BMemory assms(2) by (simp add: enum_inv_def)
  from mem_ns.tenant_run_read [OF this host_ns_ok(1) [OF assms(3)], of xs path c] show ?thesis
    using assms(4) host_ns_ok(1) by (simp add: BMemory enum_tenant_run enum_iso_read)
next
  case (BDisk d)
  have i: "disk_inv (d_cwd d) (d_base_path d) d" using BDisk assms(2) by (simp add: disk_inv_def enum_inv_def)
  have h: "disk_host (benv_disk env)" using assms(1) by (simp add: env_ok_def disk_host_def)
  from disk_host.disk_run_read [OF h i host_ns_ok(2) [OF assms(3)], of xs path c] show ?thesis
    using assms(4) host_ns_ok(2) by (simp add: BDisk enum_tenant_run enum_iso_read)
next
  case (BS3 s)
  have h: "s3_service (benv_s3 env) objects" using assms(1) by (simp add: env_ok_def)
  have i: "s3_inv (s3_prefix s) s" by (simp add: s3_inv_def)
  from s3_service.s3_run_read [OF h i host_ns_ok(3) [OF assms(3)], of xs "benv_now env" path c] show ?thesis
    using assms(4) host_ns_ok(3) by (simp add: BS3 enum_tenant_run enum_iso_read)
qed

section \<open>Properties\<close>

text \<open>
  C9. Isolation holds for whichever backend an application is configured with: once the factory has
  opened it, and after any operations of any tenants, operations of tenants of other valid hosts
  with another namespace never change the contents a tenant reads.
\<close>

theorem backend_tenant_isolation:
  assumes "create_backend s3_feature env cwd t (vfs_backend_of app) (vfs_disk app) (vfs_s3 app) = Some (Inr b0)"
    "env_ok objects env" "tree_wf t" "is_valid_hostname (hostname app)"
    "\<forall>x \<in> set xs. host_ns (top_ns x) \<and> top_ns x \<noteq> from_hostname (hostname app)"
  shows "iso_read (enum_ops env) (from_hostname (hostname app))
       (fold (tenant_step (enum_ops env)) xs (fold (tenant_step (enum_ops env)) ys b0)) path = Inr c
     \<longleftrightarrow> iso_read (enum_ops env) (from_hostname (hostname app))
       (fold (tenant_step (enum_ops env)) ys b0) path = Inr c"
proof (rule enum_run_read [OF assms(2) _ _ assms(5)])
  show "enum_inv (fold (tenant_step (enum_ops env)) ys b0)" by (rule enum_run_inv [OF assms(2) create_backend_inv [OF assms(1,3)]])
  show "host_ns (from_hostname (hostname app))" using assms(4) by (auto simp: host_ns_def)
qed

theorem backend_tenant_isolation_witness:
  "\<exists>b0. create_backend True sample_env [] sample_tree S3 None (Some sample_s3_config) = Some (Inr b0)
     \<and> iso_read (enum_ops sample_env) ''app_example''
         (fold (tenant_step (enum_ops sample_env)) [TWrite ''app_b'' 2 ''k'' [13]]
           (fold (tenant_step (enum_ops sample_env)) [TWrite ''app_example'' 1 ''k'' [42]] b0)) ''k'' = Inr [42]"
proof -
  let ?b0 = "BS3 \<lparr>s3_bucket = [], s3_limits = default_limits, s3_prefix = Some ''nano'',
      s3_total_bytes = 0, s3_file_count = 0\<rparr> :: (string \<times> bytes) list vfs_backend_enum"
  have c: "create_backend True sample_env [] sample_tree (vfs_backend_of sample_s3_app)
      (vfs_disk sample_s3_app) (vfs_s3 sample_s3_app) = Some (Inr ?b0)"
    by (simp add: sample_s3_app_def default_app_config_def create_backend_def sample_env_def s3_new_def
        sample_s3_config_def bucket_client_def)
  have e: "env_ok map_of sample_env"
    using fresh_quiet bucket.s3_service_axioms by (simp add: env_ok_def sample_env_def no_faults_def quiet_env_def)
  have v: "is_valid_hostname (hostname sample_s3_app)" by code_simp
  have ns: "from_hostname (hostname sample_s3_app) = ''app_example''" by code_simp
  have "is_valid_hostname ''app-b''" "''app_b'' = from_hostname ''app-b''" by code_simp+
  then have "host_ns ''app_b''" by (auto simp only: host_ns_def)
  then have x: "\<forall>x \<in> set [TWrite ''app_b'' 2 ''k'' [13]]. host_ns (top_ns x) \<and> top_ns x \<noteq> from_hostname (hostname sample_s3_app)"
    by (simp add: ns)
  have p: "iso_prefix_namespace ''app_example'' ''k'' = Inr (VfsPath ''app_example::k'')" by code_simp
  have "iso_read (enum_ops sample_env) ''app_example''
      (fold (tenant_step (enum_ops sample_env)) [TWrite ''app_example'' 1 ''k'' [42]] ?b0) ''k'' = Inr [42]"
    by (simp add: tenant_step_def iso_write_def iso_read_def p enum_ops_def enum_write_def enum_read_def s3_write_def
        s3_read_def s3_key_def s3_check_write_bounds_def default_limits_def sample_env_def bucket_client_def Let_def)
  moreover have "vfs_backend_of sample_s3_app = S3" "vfs_disk sample_s3_app = None" "vfs_s3 sample_s3_app = Some sample_s3_config"
    by (simp_all add: sample_s3_app_def default_app_config_def)
  ultimately show ?thesis
    using backend_tenant_isolation [OF c e sample_tree_wf v x, of "[TWrite ''app_example'' 1 ''k'' [42]]" "''k''" "[42]"] c
    unfolding ns by auto
qed

end
