(* ===== verification/Vfs_Loader.thy ===== *)
theory Vfs_Loader
  imports Vfs_Disk
begin

text \<open>
  Loading a directory of the host into the files of a tenant (\<^verbatim>\<open>src/src/vfs/loader.rs\<close>). The tree of
  the host does not change while it is read and has no symbolic links. The recursion over
  subdirectories has fuel for its depth; \<open>load_directory_to_vfs\<close> passes one more than the number of
  entries of the tree, which is always enough. The locale \<open>tree_store\<close> is the interface the loader
  needs of a backend: different paths of a namespace have different keys.
\<close>

section \<open>Definitions\<close>

definition mount_child :: "string \<Rightarrow> string \<Rightarrow> string" where
  "mount_child mount_point fname =
     (if ends_with_char mount_point (CHR ''/'') then mount_point @ fname
      else if mount_point = ''/'' then ''/'' @ fname
      else mount_point @ ''/'' @ fname)"

fun load_entries ::
  "(string \<Rightarrow> loc \<Rightarrow> string \<Rightarrow> 'b \<Rightarrow> (nat vfs_result \<times> 'b) option) \<Rightarrow> disk_env \<Rightarrow> 'b vfs_backend \<Rightarrow> string \<Rightarrow> nat
     \<Rightarrow> string \<Rightarrow> string \<Rightarrow> (loc \<times> node) list \<Rightarrow> nat \<Rightarrow> 'b \<Rightarrow> (nat vfs_result \<times> 'b) option" where
  "load_entries inner env ops ns now src mount_point [] count b = Some (Inr count, b)"
| "load_entries inner env ops ns now src mount_point (e # es) count b =
     (let name = last (fst e);
          path = path_join src name;
          vfs_path = mount_child mount_point name
      in case snd e of
           NDir \<Rightarrow> (case inner path (fst e) vfs_path b of
               None \<Rightarrow> None
             | Some (Inl err, b') \<Rightarrow> Some (Inl err, b')
             | Some (Inr sub_count, b') \<Rightarrow>
                 load_entries inner env ops ns now src mount_point es (count + sub_count) b')
         | NFile c _ _ \<Rightarrow> (case io_fault env CRead of
               Some err \<Rightarrow> Some (Inl (IoError (''Failed to read file '' @ [CHR 39] @ path @ [CHR 39] @ '': '' @ io_text env err)), b)
             | None \<Rightarrow> (case iso_write ops ns now b vfs_path c of
                   (Inl err, b') \<Rightarrow> Some (Inl err, b')
                 | (Inr _, b') \<Rightarrow> load_entries inner env ops ns now src mount_point es (count + 1) b')))"

primrec load_directory_to_vfs_inner ::
  "nat \<Rightarrow> disk_env \<Rightarrow> 'b vfs_backend \<Rightarrow> string \<Rightarrow> nat \<Rightarrow> host_tree \<Rightarrow> string \<Rightarrow> loc \<Rightarrow> string \<Rightarrow> 'b
     \<Rightarrow> (nat vfs_result \<times> 'b) option" where
  "load_directory_to_vfs_inner 0 env ops ns now t src l mount_point b = None"
| "load_directory_to_vfs_inner (Suc fuel) env ops ns now t src l mount_point b =
     (case attempt env CMetadata (host_stat t l) of
        Inl _ \<Rightarrow> Some (Inl (InvalidPath src ''Source directory does not exist''), b)
      | Inr (NFile _ _ _) \<Rightarrow> Some (Inl (InvalidPath src ''Source path is not a directory''), b)
      | Inr NDir \<Rightarrow> (case io_fault env CReadDir of
          Some e \<Rightarrow> Some (Inl (IoError (''Failed to read directory: '' @ io_text env e)), b)
        | None \<Rightarrow> (case io_fault env CReadEntry of
          Some e \<Rightarrow> Some (Inl (IoError (''Failed to read directory entry: '' @ io_text env e)), b)
        | None \<Rightarrow> load_entries (load_directory_to_vfs_inner fuel env ops ns now t) env ops ns now src mount_point
            (host_entries t l) 0 b)))"

definition load_directory_to_vfs ::
  "disk_env \<Rightarrow> 'b vfs_backend \<Rightarrow> string \<Rightarrow> nat \<Rightarrow> loc \<Rightarrow> host_tree \<Rightarrow> string \<Rightarrow> string \<Rightarrow> 'b
     \<Rightarrow> (nat vfs_result \<times> 'b) option" where
  "load_directory_to_vfs env ops ns now cwd t source_dir mount_point b =
     load_directory_to_vfs_inner (Suc (length t)) env ops ns now t source_dir (locate cwd source_dir) mount_point b"

definition load_file_to_vfs ::
  "disk_env \<Rightarrow> 'b vfs_backend \<Rightarrow> string \<Rightarrow> nat \<Rightarrow> loc \<Rightarrow> host_tree \<Rightarrow> string \<Rightarrow> string \<Rightarrow> 'b \<Rightarrow> unit vfs_result \<times> 'b" where
  "load_file_to_vfs env ops ns now cwd t source_path vfs_path b =
     (case attempt env CMetadata (host_stat t (locate cwd source_path)) of
        Inl _ \<Rightarrow> (Inl (NotFound source_path), b)
      | Inr NDir \<Rightarrow> (Inl (InvalidPath source_path ''Path is not a regular file''), b)
      | Inr (NFile _ _ _) \<Rightarrow> (case attempt env CRead (host_read t (locate cwd source_path)) of
          Inl e \<Rightarrow> (Inl (IoError (''Failed to read file '' @ [CHR 39] @ source_path @ [CHR 39] @ '': '' @ io_text env e)), b)
        | Inr c \<Rightarrow> iso_write ops ns now b vfs_path c))"

subsection \<open>Specification vocabulary\<close>

definition seg_path :: "string \<Rightarrow> string list \<Rightarrow> vfs_path" where
  "seg_path ns xs = VfsPath (ns @ ''::'' @ join_with ''/'' xs)"

definition segs_ok :: "string list \<Rightarrow> bool" where
  "segs_ok xs = (xs \<noteq> [] \<and> list_all (\<lambda>x. x \<noteq> [] \<and> CHR ''/'' \<notin> set x) xs)"

definition names_ok :: "host_tree \<Rightarrow> bool" where
  "names_ok t = list_all (\<lambda>e. segs_ok (fst e)) t"

text \<open>
  From \<open>b\<close> to \<open>b'\<close> the files below \<open>l\<close> whose first name is in \<open>S\<close> were stored under the segments \<open>m\<close>,
  and nothing else changed.
\<close>

definition loaded ::
  "('b \<Rightarrow> 'k \<rightharpoonup> bytes) \<Rightarrow> (vfs_path \<Rightarrow> 'k) \<Rightarrow> string \<Rightarrow> host_tree \<Rightarrow> string list \<Rightarrow> loc \<Rightarrow> string set \<Rightarrow> 'b \<Rightarrow> 'b \<Rightarrow> bool" where
  "loaded view key ns t m l S b b' =
     ((\<forall>rel c. rel \<noteq> [] \<and> hd rel \<in> S \<and> file_at t (l @ rel) = Some c \<longrightarrow>
         view b' (key (seg_path ns (m @ rel))) = Some c \<and> vfs_path_wf (seg_path ns (m @ rel)))
      \<and> (\<forall>q. (\<forall>rel. rel \<noteq> [] \<and> hd rel \<in> S \<and> file_at t (l @ rel) \<noteq> None \<longrightarrow> q \<noteq> key (seg_path ns (m @ rel)))
           \<longrightarrow> view b' q = view b q))"

locale tree_store = vfs_store +
  assumes seg_key: "\<lbrakk>ns_ok ns; segs_ok xs; segs_ok ys; key (seg_path ns xs) = key (seg_path ns ys)\<rbrakk> \<Longrightarrow> xs = ys"

section \<open>Segments\<close>

lemma segments_mount_child:
  assumes "name \<noteq> []" "CHR ''/'' \<notin> set name"
  shows "segments (mount_child mp name) = segments mp @ [name]"
proof -
  have j: "segments (x @ CHR ''/'' # name) = segments x @ [name]" for x
    using assms by (simp add: segments_def split_on_append split_on_atom)
  show ?thesis
  proof (cases "ends_with_char mp (CHR ''/'')")
    case True
    then obtain x where x: "mp = x @ ''/''" by (metis append_butlast_last_id ends_with_char_def)
    have "segments mp = segments x" by (simp add: x segments_def split_on_snoc_sep)
    then show ?thesis using True j by (simp add: x mount_child_def)
  next
    case False
    then show ?thesis using j [of mp] by (auto simp: mount_child_def ends_with_char_def)
  qed
qed

lemma iso_prefix_segments:
  assumes "ns_ok ns" "iso_prefix_namespace ns s = Inr sp"
  shows "sp = seg_path ns (segments s)" "vfs_path_wf sp" "segs_ok (segments s)"
proof -
  obtain p where p: "vfs_path_new s = Inr p" "sp = VfsPath (ns @ ''::'' @ as_str p)" "vfs_path_wf sp"
    using iso_prefix_namespace_Inr [OF assms(1)] assms(2) by blast
  then show "sp = seg_path ns (segments s)" "vfs_path_wf sp" "segs_ok (segments s)"
    using segments_ok [of _ s]
    by (auto simp: vfs_path_new_Inr seg_path_def normalize_segments segs_ok_def list_all_iff)
qed

lemma join_with_inj: "\<lbrakk>segs_ok xs; segs_ok ys; join_with ''/'' xs = join_with ''/'' ys\<rbrakk> \<Longrightarrow> xs = ys"
proof -
  assume a: "segs_ok xs" "segs_ok ys" "join_with ''/'' xs = join_with ''/'' ys"
  have j: "split_on (CHR ''/'') (join_with ''/'' xs) = xs" if "segs_ok xs" for xs
    using that split_join [of xs "CHR ''/''"] by (simp add: segs_ok_def list_all_iff)
  have "xs = split_on (CHR ''/'') (join_with ''/'' xs)" by (rule j [OF a(1), symmetric])
  also have "\<dots> = ys" unfolding a(3) by (rule j [OF a(2)])
  finally show "xs = ys" .
qed

lemma names_ok_file:
  assumes "names_ok t" "file_at t (l @ rel) = Some c" "rel \<noteq> []" "list_all (\<lambda>x. x \<noteq> [] \<and> CHR ''/'' \<notin> set x) m"
  shows "segs_ok (m @ rel)"
proof -
  have "map_of t (l @ rel) \<noteq> None" using assms(2,3) by (auto simp: file_at_def node_at_def split: if_splits option.splits)
  then obtain n where "(l @ rel, n) \<in> set t" by (auto dest: map_of_SomeD)
  then show ?thesis using assms(1,3,4) by (fastforce simp: names_ok_def list_all_iff segs_ok_def)
qed

section \<open>Loading\<close>

context tree_store
begin

lemma iso_write_loaded:
  assumes "ns_ok ns" "invar b" "iso_write ops ns now b s c = (Inr (), b')"
  shows "view b' = (view b)(key (seg_path ns (segments s)) \<mapsto> c)" "vfs_path_wf (seg_path ns (segments s))" "invar b'"
proof -
  obtain sp where sp: "iso_prefix_namespace ns s = Inr sp" "be_write ops now b sp c = (Inr (), b')"
    using assms(3) by (auto simp: iso_write_def split: sum.splits)
  note i = iso_prefix_segments [OF assms(1) sp(1)]
  show "view b' = (view b)(key (seg_path ns (segments s)) \<mapsto> c)" "vfs_path_wf (seg_path ns (segments s))" "invar b'"
    using write_ok [OF assms(2) i(2) sp(2)] write_invar [OF assms(2) i(2), of now c] i sp(2) by simp_all
qed

lemma loaded_comp:
  assumes "ns_ok ns" "names_ok t" "list_all (\<lambda>x. x \<noteq> [] \<and> CHR ''/'' \<notin> set x) m" "S \<inter> S' = {}"
    "loaded view key ns t m l S b b1" "loaded view key ns t m l S' b1 b2"
  shows "loaded view key ns t m l (S \<union> S') b b2"
proof -
  have *: "view b2 (key (seg_path ns (m @ rel))) = view b1 (key (seg_path ns (m @ rel)))"
    if "rel \<noteq> []" "hd rel \<in> S" "file_at t (l @ rel) = Some c" for rel c
  proof -
    have "key (seg_path ns (m @ rel)) \<noteq> key (seg_path ns (m @ rel'))"
      if r: "rel' \<noteq> []" "hd rel' \<in> S'" "file_at t (l @ rel') \<noteq> None" for rel'
    proof
      assume "key (seg_path ns (m @ rel)) = key (seg_path ns (m @ rel'))"
      moreover have "segs_ok (m @ rel)" "segs_ok (m @ rel')"
        using names_ok_file [OF assms(2) _ _ assms(3)] that \<open>rel \<noteq> []\<close> \<open>file_at t (l @ rel) = Some c\<close> by auto
      ultimately have "m @ rel = m @ rel'" using seg_key [OF assms(1)] by blast
      then show False using r(2) \<open>hd rel \<in> S\<close> assms(4) by auto
    qed
    then show ?thesis using assms(6) unfolding loaded_def by blast
  qed
  show ?thesis using assms(5,6) * unfolding loaded_def by fastforce
qed

lemma load_file_entry:
  assumes "ns_ok ns" "invar b" "tree_wf t" "node_at t (l @ [name]) = Some (NFile c x y)"
    "iso_write ops ns now b s c = (Inr (), b')" "segments s = m @ [name]"
  shows "loaded view key ns t m l {name} b b'"
proof -
  note w = iso_write_loaded [OF assms(1,2,5), unfolded assms(6)]
  have rel: "rel = [name]" if r: "rel \<noteq> []" "hd rel = name" "file_at t (l @ rel) \<noteq> None" for rel
  proof (rule ccontr)
    assume "rel \<noteq> [name]"
    then obtain z zs where z: "rel = name # z # zs" using r(1,2) by (metis hd_Cons_tl list.exhaust)
    have "node_at t (l @ rel) \<noteq> None" using r(3) by (auto simp: file_at_def split: option.splits)
    then have "node_at t (take (Suc (length l)) (l @ rel)) = Some NDir"
      by (rule tree_wf_ancestor [OF assms(3)]) (simp add: z)
    then show False using assms(4) by (simp add: z)
  qed
  have f: "file_at t (l @ [name]) = Some c" using assms(4) by (simp add: file_at_def)
  show ?thesis unfolding loaded_def w(1)
  proof (intro conjI allI impI)
    fix rel d assume "rel \<noteq> [] \<and> hd rel \<in> {name} \<and> file_at t (l @ rel) = Some d"
    moreover from this have "rel = [name]" using rel by auto
    ultimately show "((view b)(key (seg_path ns (m @ [name])) \<mapsto> c)) (key (seg_path ns (m @ rel))) = Some d"
      "vfs_path_wf (seg_path ns (m @ rel))" using f w(2) by simp_all
  next
    fix q assume "\<forall>rel. rel \<noteq> [] \<and> hd rel \<in> {name} \<and> file_at t (l @ rel) \<noteq> None \<longrightarrow> q \<noteq> key (seg_path ns (m @ rel))"
    then have "q \<noteq> key (seg_path ns (m @ [name]))" using f by (metis list.distinct(1) list.sel(1) option.distinct(1) singletonI)
    then show "((view b)(key (seg_path ns (m @ [name])) \<mapsto> c)) q = view b q" by simp
  qed
qed

lemma load_dir_entry:
  assumes "node_at t (l @ [name]) = Some NDir" "loaded view key ns t (m @ [name]) (l @ [name]) UNIV b b'"
  shows "loaded view key ns t m l {name} b b'"
proof -
  have rel: "\<exists>r. rel = name # r \<and> r \<noteq> []" if "rel \<noteq> []" "hd rel = name" "file_at t (l @ rel) \<noteq> None" for rel
    using that assms(1) by (cases rel; cases "tl rel") (auto simp: file_at_def)
  show ?thesis unfolding loaded_def
  proof (intro conjI allI impI)
    fix rel d assume a: "rel \<noteq> [] \<and> hd rel \<in> {name} \<and> file_at t (l @ rel) = Some d"
    then obtain r where r: "rel = name # r" "r \<noteq> []" using rel by auto
    with a assms(2) show "view b' (key (seg_path ns (m @ rel))) = Some d" "vfs_path_wf (seg_path ns (m @ rel))"
      unfolding loaded_def by auto
  next
    fix q assume a: "\<forall>rel. rel \<noteq> [] \<and> hd rel \<in> {name} \<and> file_at t (l @ rel) \<noteq> None \<longrightarrow> q \<noteq> key (seg_path ns (m @ rel))"
    have "q \<noteq> key (seg_path ns ((m @ [name]) @ r))" if "file_at t ((l @ [name]) @ r) \<noteq> None" for r
      using a [rule_format, of "name # r"] that by simp
    then show "view b' q = view b q" using assms(2) unfolding loaded_def by blast
  qed
qed

lemma loaded_none: "(\<And>rel. \<lbrakk>rel \<noteq> []; hd rel \<in> S\<rbrakk> \<Longrightarrow> file_at t (l @ rel) = None) \<Longrightarrow> loaded view key ns t m l S b b"
  by (auto simp: loaded_def)

text \<open>One pass over the entries of a directory, given that the recursive calls do what they should.\<close>

lemma load_entries_ok:
  assumes "ns_ok ns" "tree_wf t" "names_ok t"
    and inner: "\<And>src d mp b k b'. \<lbrakk>invar b; inner src d mp b = Some (Inr k, b')\<rbrakk> \<Longrightarrow>
      invar b' \<and> k = weight (\<lambda>e. below 1 d (fst e)) file_one t \<and> loaded view key ns t (segments mp) d UNIV b b'"
  shows "\<lbrakk>invar b; distinct (map fst es); \<forall>e \<in> set es. e \<in> set t \<and> butlast (fst e) = l;
      load_entries inner env ops ns now src mp es cnt b = Some (Inr k, b')\<rbrakk>
    \<Longrightarrow> invar b' \<and> loaded view key ns t (segments mp) l (last ` fst ` set es) b b'
      \<and> k = cnt + (\<Sum>e\<leftarrow>es. file_one (snd e)) + (\<Sum>d\<leftarrow>map fst (filter (\<lambda>e. snd e = NDir) es). weight (\<lambda>e. below 1 d (fst e)) file_one t)"
proof (induction es arbitrary: b cnt)
  case Nil
  then show ?case by (auto intro: loaded_none)
next
  case (Cons e es)
  let ?name = "last (fst e)" and ?m = "segments mp" and ?rest = "last ` fst ` set es"
  have e: "(fst e, snd e) \<in> set t" "butlast (fst e) = l" using Cons.prems(3) by auto
  have ne: "segs_ok (fst e)" using assms(3) e(1) by (auto simp: names_ok_def list_all_iff)
  then have fst: "fst e = l @ [?name]" and nm: "?name \<noteq> []" "CHR ''/'' \<notin> set ?name"
    using e(2) by (auto simp: segs_ok_def list_all_iff)
  have node: "node_at t (l @ [?name]) = Some (snd e)"
    using e(1) assms(2) fst by (auto simp: node_at_def tree_wf_def)
  have m: "list_all (\<lambda>x. x \<noteq> [] \<and> CHR ''/'' \<notin> set x) ?m" using segments_ok [of _ mp] by (auto simp: list_all_iff)
  have "?name \<notin> ?rest"
  proof
    assume "?name \<in> ?rest"
    then obtain f where f: "f \<in> set es" "?name = last (fst f)" by blast
    have "segs_ok (fst f)" "butlast (fst f) = l"
      using f(1) assms(3) Cons.prems(3) by (auto simp: names_ok_def list_all_iff)
    then have "fst f = fst e" using fst f(2) by (metis append_butlast_last_id segs_ok_def)
    then show False using f(1) Cons.prems(2) by (auto simp: image_iff)
  qed
  then have disj: "{?name} \<inter> ?rest = {}" by blast
  note seg = segments_mount_child [OF nm, of mp]
  obtain b1 d where d: "invar b1" "loaded view key ns t ?m l {?name} b b1"
    "load_entries inner env ops ns now src mp es (cnt + d) b1 = Some (Inr k, b')"
    "d = file_one (snd e) + (if snd e = NDir then weight (\<lambda>x. below 1 (fst e) (fst x)) file_one t else 0)"
  proof (cases "snd e")
    case NDir
    then obtain j b1 where j: "inner (path_join src ?name) (fst e) (mount_child mp ?name) b = Some (Inr j, b1)"
      "load_entries inner env ops ns now src mp es (cnt + j) b1 = Some (Inr k, b')"
      using Cons.prems(4) by (auto simp: Let_def split: option.splits sum.splits)
    note i = inner [OF Cons.prems(1) j(1)]
    show ?thesis
    proof (rule that [of b1 j])
      show "loaded view key ns t ?m l {?name} b b1"
        using load_dir_entry [of t l ?name ns ?m b b1] node NDir i seg fst by simp
    qed (use i j NDir in \<open>simp_all add: file_one_def\<close>)
  next
    case (NFile c x y)
    then obtain b1 where j: "iso_write ops ns now b (mount_child mp ?name) c = (Inr (), b1)"
      "load_entries inner env ops ns now src mp es (cnt + 1) b1 = Some (Inr k, b')"
      using Cons.prems(4) by (auto simp: Let_def split: option.splits sum.splits prod.splits)
    show ?thesis
    proof (rule that [of b1 1])
      show "invar b1" by (rule iso_write_loaded(3) [OF assms(1) Cons.prems(1) j(1)])
      show "loaded view key ns t ?m l {?name} b b1"
        by (rule load_file_entry [OF assms(1) Cons.prems(1) assms(2) node [unfolded NFile] j(1) seg])
    qed (use j NFile in \<open>simp_all add: file_one_def\<close>)
  qed
  have ih: "invar b' \<and> loaded view key ns t ?m l ?rest b1 b'
      \<and> k = cnt + d + (\<Sum>e\<leftarrow>es. file_one (snd e)) + (\<Sum>d\<leftarrow>map fst (filter (\<lambda>e. snd e = NDir) es). weight (\<lambda>e. below 1 d (fst e)) file_one t)"
    using Cons.IH [OF d(1) _ _ d(3)] Cons.prems(2,3) by simp
  moreover have "loaded view key ns t ?m l ({?name} \<union> ?rest) b b'"
    using loaded_comp [OF assms(1,3) m disj d(2)] ih by blast
  ultimately show ?case using d(4) by simp
qed

lemma load_inner_ok:
  assumes "ns_ok ns" "tree_wf t" "names_ok t"
  shows "\<lbrakk>invar b; load_directory_to_vfs_inner fuel env ops ns now t src l mp b = Some (Inr k, b')\<rbrakk>
    \<Longrightarrow> invar b' \<and> k = weight (\<lambda>e. below 1 l (fst e)) file_one t \<and> loaded view key ns t (segments mp) l UNIV b b'"
proof (induction fuel arbitrary: src l mp b k b')
  case (Suc fuel)
  let ?es = "host_entries t l" and ?S = "last ` fst ` set (host_entries t l)"
  have le: "load_entries (load_directory_to_vfs_inner fuel env ops ns now t) env ops ns now src mp ?es 0 b = Some (Inr k, b')"
    using Suc.prems(2) by (auto split: sum.splits node.splits option.splits)
  have es: "distinct (map fst ?es)" "\<forall>e \<in> set ?es. e \<in> set t \<and> butlast (fst e) = l"
    using assms(2) by (auto simp: host_entries_def tree_wf_def distinct_map intro: inj_on_subset)
  have ok: "invar b' \<and> loaded view key ns t (segments mp) l ?S b b'
      \<and> k = 0 + (\<Sum>e\<leftarrow>?es. file_one (snd e)) + (\<Sum>d\<leftarrow>map fst (filter (\<lambda>e. snd e = NDir) ?es). weight (\<lambda>e. below 1 d (fst e)) file_one t)"
    by (rule load_entries_ok [OF assms _ Suc.prems(1) es le]) (rule Suc.IH)
  have none: "file_at t (l @ rel) = None" if r: "rel \<noteq> []" "hd rel \<notin> ?S" for rel
  proof (rule ccontr)
    assume "file_at t (l @ rel) \<noteq> None"
    then have n: "node_at t (l @ rel) \<noteq> None" by (auto simp: file_at_def split: option.splits)
    have "node_at t (l @ [hd rel]) \<noteq> None"
    proof (cases "tl rel")
      case Nil
      then show ?thesis using n r(1) by (metis hd_Cons_tl)
    next
      case (Cons z zs)
      then have "Suc (length l) < length (l @ rel)" using r(1) by (cases rel) auto
      from tree_wf_ancestor [OF assms(2) n this] show ?thesis using r(1) by (cases rel) auto
    qed
    then have "(\<exists>n. (l @ [hd rel], n) \<in> set t)" by (auto simp: node_at_def dest: map_of_SomeD)
    then have "hd rel \<in> ?S" by (force simp: host_entries_def image_iff)
    then show False using r(2) by blast
  qed
  have "loaded view key ns t (segments mp) l UNIV b b'"
    unfolding loaded_def
  proof (intro conjI allI impI, goal_cases)
    case (1 rel c)
    then have "hd rel \<in> ?S" using none by (cases "hd rel \<in> ?S") auto
    with 1 ok show ?case unfolding loaded_def by blast
  next
    case (2 rel c)
    then have "hd rel \<in> ?S" using none by (cases "hd rel \<in> ?S") auto
    with 2 ok show ?case unfolding loaded_def by blast
  next
    case (3 q)
    with ok show ?case unfolding loaded_def by blast
  qed
  moreover have "k = weight (\<lambda>e. below 1 l (fst e)) file_one t"
    using ok weight_below_1 [OF assms(2), of l file_one] weight_below_2 [OF assms(2), of l file_one]
    by (simp add: child_dirs_def)
  ultimately show ?case using ok by blast
qed simp

end

section \<open>The fuel is enough\<close>

lemma load_entries_total:
  assumes "\<And>e src mp b. \<lbrakk>e \<in> set es; snd e = NDir\<rbrakk> \<Longrightarrow> inner src (fst e) mp b \<noteq> None"
  shows "load_entries inner env ops ns now src mp es cnt b \<noteq> None"
  using assms
proof (induction es arbitrary: cnt b)
  case (Cons e es)
  have ih: "load_entries inner env ops ns now src mp es x y \<noteq> None" for x y
    by (rule Cons.IH) (use Cons.prems in auto)
  show ?case
    using Cons.prems [of e "path_join src (last (fst e))" "mount_child mp (last (fst e))" b] ih
    by (auto simp: Let_def split: node.splits option.splits sum.splits prod.splits)
qed simp

lemma load_inner_total:
  assumes "tree_wf t"
  shows "weight (\<lambda>e. below 1 l (fst e)) (\<lambda>_. 1) t < fuel \<Longrightarrow>
    load_directory_to_vfs_inner fuel env ops ns now t src l mp b \<noteq> None"
proof (induction fuel arbitrary: src l mp b)
  case (Suc fuel)
  have "load_directory_to_vfs_inner fuel env ops ns now t src' (fst e) mp' b' \<noteq> None"
    if e: "e \<in> set (host_entries t l)" "snd e = NDir" for e src' mp' b'
  proof (rule Suc.IH)
    let ?W = "\<lambda>d. weight (\<lambda>e. below 1 d (fst e)) (\<lambda>_. 1) t"
    have "fst e \<in> set (child_dirs t l)" using e by (auto simp: child_dirs_def)
    then have "?W (fst e) \<le> (\<Sum>d\<leftarrow>child_dirs t l. ?W d)" by (intro member_le_sum_list) auto
    moreover have "(\<Sum>e\<leftarrow>host_entries t l. 1 :: nat) \<ge> 1" using e(1) by (cases "host_entries t l") auto
    ultimately show "?W (fst e) < fuel"
      using Suc.prems weight_below_1 [OF assms, of l "\<lambda>_. 1"] weight_below_2 [OF assms, of l "\<lambda>_. 1"] by simp
  qed
  then have "load_entries (load_directory_to_vfs_inner fuel env ops ns now t) env ops ns now src mp (host_entries t l) 0 b \<noteq> None"
    by (rule load_entries_total)
  then show ?case by (auto split: sum.split node.split option.split)
qed simp

section \<open>The memory backend is such a store\<close>

interpretation mem_tree: tree_store memory_ops mem_inv mem_view as_str
  by unfold_locales (auto simp: seg_path_def intro: join_with_inj)

section \<open>Properties\<close>

text \<open>
  Loading a directory returns for every tree, and when it succeeds the number returned is the
  number of files below the directory, every such file can be read with its contents under every
  spelling of the mount point followed by its relative path, and no other file of any tenant
  has changed.
\<close>

theorem load_directory_exact:
  assumes "tree_wf t" "names_ok t" "ns_ok ns" "mem_inv b"
  shows "\<exists>r b'. load_directory_to_vfs env memory_ops ns now cwd t source_dir mount_point b = Some (r, b')
     \<and> (\<forall>k. r = Inr k \<longrightarrow> k = weight (\<lambda>e. below 1 (locate cwd source_dir) (fst e)) file_one t
       \<and> (\<forall>rel c q. rel \<noteq> [] \<and> file_at t (locate cwd source_dir @ rel) = Some c
            \<and> is_ok (vfs_path_new q) \<and> segments q = segments mount_point @ rel \<longrightarrow> iso_read memory_ops ns b' q = Inr c)
       \<and> (\<forall>q. (\<forall>rel. rel \<noteq> [] \<and> file_at t (locate cwd source_dir @ rel) \<noteq> None \<longrightarrow>
              q \<noteq> ns @ ''::'' @ join_with ''/'' (segments mount_point @ rel)) \<longrightarrow> mem_view b' q = mem_view b q))"
proof -
  let ?l = "locate cwd source_dir"
  have "weight (\<lambda>e. below 1 ?l (fst e)) (\<lambda>_. 1) t \<le> length t"
    by (induction t) (auto simp: weight_def)
  then obtain r b' where r: "load_directory_to_vfs env memory_ops ns now cwd t source_dir mount_point b = Some (r, b')"
    using load_inner_total [OF assms(1), of ?l "Suc (length t)" env memory_ops ns now source_dir mount_point b]
    by (auto simp: load_directory_to_vfs_def)
  show ?thesis
  proof (intro exI conjI allI impI, rule r, goal_cases)
    case (1 k)
    note ok = mem_tree.load_inner_ok [OF assms(3,1,2,4) r [unfolded load_directory_to_vfs_def 1]]
    then show ?case by blast
  next
    case (2 k rel c q)
    note ok = mem_tree.load_inner_ok [OF assms(3,1,2,4) r [unfolded load_directory_to_vfs_def 2(1)]]
    with 2 have v: "mem_view b' (as_str (seg_path ns (segments q))) = Some c" "vfs_path_wf (seg_path ns (segments q))"
      by (auto simp: loaded_def)
    obtain p where p: "vfs_path_new q = Inr p" using 2 by (auto simp: is_ok_iff)
    then have "iso_prefix_namespace ns q = Inr (seg_path ns (segments q))"
      using iso_prefix_namespace_Inr [OF assms(3)] v(2) by (auto simp: vfs_path_new_Inr seg_path_def normalize_segments)
    then show ?case using mem.read_view v ok by (simp add: iso_read_def)
  next
    case (3 k q)
    note ok = mem_tree.load_inner_ok [OF assms(3,1,2,4) r [unfolded load_directory_to_vfs_def 3(1)]]
    then show ?case using 3(2) by (auto simp: loaded_def seg_path_def)
  qed
qed

theorem load_directory_exact_witness:
  "\<exists>r b'. load_directory_to_vfs quiet_env memory_ops ''app_a'' 9 [] sample_tree ''/data'' ''/site'' (mem_with_limits test_limits) = Some (Inr r, b')
     \<and> r = 3 \<and> iso_read memory_ops ''app_a'' b' ''site/app_a/d//n.txt'' = Inr [3]"
proof -
  let ?L = "load_directory_to_vfs quiet_env memory_ops ''app_a'' 9 [] sample_tree ''/data'' ''/site'' (mem_with_limits test_limits)"
  have n: "names_ok sample_tree" "ns_ok ''app_a''" by code_simp+
  have s: "(case ?L of Some (Inr _, _) \<Rightarrow> True | _ \<Rightarrow> False)" by code_simp
  have w: "weight (\<lambda>e. below 1 (locate [] ''/data'') (fst e)) file_one sample_tree = 3" by code_simp
  have f: "file_at sample_tree (locate [] ''/data'' @ [''app_a'', ''d'', ''n.txt'']) = Some [3]" by code_simp
  have q: "is_ok (vfs_path_new ''site/app_a/d//n.txt'')"
    "segments ''site/app_a/d//n.txt'' = segments ''/site'' @ [''app_a'', ''d'', ''n.txt'']" by code_simp+
  note T = load_directory_exact [OF sample_tree_wf n mem_inv_init [of test_limits], of quiet_env 9 "[]" "''/data''" "''/site''"]
  from s obtain k b' where L: "?L = Some (Inr k, b')" by (auto split: option.splits sum.splits)
  with T have "k = 3" and "\<And>rel c q. \<lbrakk>rel \<noteq> []; file_at sample_tree (locate [] ''/data'' @ rel) = Some c;
      is_ok (vfs_path_new q); segments q = segments ''/site'' @ rel\<rbrakk> \<Longrightarrow> iso_read memory_ops ''app_a'' b' q = Inr c"
    unfolding w by simp_all
  from this(1) this(2) [OF _ f q] show ?thesis using L by blast
qed

end
