(* ===== verification/Sliver_Format.thy ===== *)
theory Sliver_Format
  imports Vfs_Loader
begin

text \<open>
  Slivers, the archives an application is packed into (\<^verbatim>\<open>src/src/sliver/\<close>: error, format, metadata,
  packer, unpacker, restore, vfs_capture and the functions of mod.rs). The tar and JSON libraries are
  the record \<open>sliver_lib\<close>, an argument of the operations; \<open>'d\<close> is the type of archive data. An entry
  of an archive is its path and its contents: nothing reads the modes and times that are stored
  with it. The locale \<open>sliver_codec\<close> names what the code relies on: what was written is read back.
\<close>

section \<open>Definitions\<close>

datatype sliver_error =
    SIoError string | SerializationError string | InvalidFormat string | MissingMetadata string
  | MissingHeap string | CorruptedArchive string | InvalidVfsPath string | UnsupportedEntryType string
  | VfsRestore string string

type_synonym 'a sliver_result = "sliver_error + 'a"

definition FORMAT_VERSION :: string where
  "FORMAT_VERSION = ''1.0''"

definition HEAP_FILENAME :: string where
  "HEAP_FILENAME = ''heap.bin''"

definition METADATA_FILENAME :: string where
  "METADATA_FILENAME = ''meta.json''"

definition MANIFEST_FILENAME :: string where
  "MANIFEST_FILENAME = ''manifest.txt''"

definition VFS_PREFIX :: string where
  "VFS_PREFIX = ''vfs/''"

definition is_supported_version :: "string \<Rightarrow> bool" where
  "is_supported_version version = (version = FORMAT_VERSION)"

lemmas sliver_names = FORMAT_VERSION_def HEAP_FILENAME_def METADATA_FILENAME_def MANIFEST_FILENAME_def VFS_PREFIX_def

subsection \<open>Metadata\<close>

record sliver_metadata =
  m_name :: "string option"
  m_hostname :: string
  m_created_at :: nat
  m_format_version :: string
  m_nano_version :: string
  m_description :: "string option"
  m_custom :: "(string \<times> string) list"

definition metadata_new :: "nat \<Rightarrow> string \<Rightarrow> string \<Rightarrow> sliver_metadata" where
  "metadata_new now h nano_version = \<lparr>m_name = None, m_hostname = h, m_created_at = now,
     m_format_version = FORMAT_VERSION, m_nano_version = nano_version, m_description = None, m_custom = []\<rparr>"

definition metadata_with_name :: "nat \<Rightarrow> string \<Rightarrow> string \<Rightarrow> string \<Rightarrow> sliver_metadata" where
  "metadata_with_name now name h nano_version = (metadata_new now h nano_version)\<lparr>m_name := Some name\<rparr>"

definition metadata_with_description :: "nat \<Rightarrow> string \<Rightarrow> string \<Rightarrow> string \<Rightarrow> sliver_metadata" where
  "metadata_with_description now h nano_version description =
     (metadata_new now h nano_version)\<lparr>m_description := Some description\<rparr>"

definition metadata_with_custom :: "sliver_metadata \<Rightarrow> string \<Rightarrow> string \<Rightarrow> sliver_metadata" where
  "metadata_with_custom m k v = m\<lparr>m_custom := AList.update k v (m_custom m)\<rparr>"

text \<open>The time is printed by the chrono library.\<close>

definition metadata_summary :: "(nat \<Rightarrow> string) \<Rightarrow> sliver_metadata \<Rightarrow> string" where
  "metadata_summary rfc3339 m = join_with [CHR 10]
     ((case m_name m of Some name \<Rightarrow> [''Name: '' @ name] | None \<Rightarrow> [])
      @ [''Hostname: '' @ m_hostname m, ''Created: '' @ rfc3339 (m_created_at m),
         ''Format Version: '' @ m_format_version m, ''NANO Version: '' @ m_nano_version m]
      @ (case m_description m of Some desc \<Rightarrow> [''Description: '' @ desc] | None \<Rightarrow> [])
      @ (if m_custom m = [] then [] else ''Custom Metadata:'' # map (\<lambda>(k, v). ''  '' @ k @ '': '' @ v) (m_custom m)))"

subsection \<open>The libraries\<close>

record tar_entry =
  te_path :: "string + string"
  te_size :: nat
  te_content :: "string + bytes"

record 'd sliver_lib =
  lib_to_json :: "sliver_metadata \<Rightarrow> string + bytes"
  lib_from_json :: "bytes \<Rightarrow> string + sliver_metadata"
  lib_append :: "string \<Rightarrow> bytes \<Rightarrow> string option"
  lib_finish :: "(string \<times> bytes) list \<Rightarrow> string + 'd"
  lib_entries :: "'d \<Rightarrow> string + (string + tar_entry) list"

definition str_bytes :: "string \<Rightarrow> bytes" where
  "str_bytes s = map of_char s"

subsection \<open>Packing\<close>

record sliver_packer =
  pk_archive :: "(string \<times> bytes) list"
  pk_entries :: "string list"

definition packer_new :: sliver_packer where
  "packer_new = \<lparr>pk_archive = [], pk_entries = []\<rparr>"

text \<open>\<^verbatim>\<open>Builder::append\<close> and \<^verbatim>\<open>append_data\<close>.\<close>

definition tar_append :: "'d sliver_lib \<Rightarrow> string \<Rightarrow> bytes \<Rightarrow> sliver_packer \<Rightarrow> sliver_packer sliver_result" where
  "tar_append lib p c pk = (case lib_append lib p c of
       Some e \<Rightarrow> Inl (SIoError e)
     | None \<Rightarrow> Inr (pk\<lparr>pk_archive := pk_archive pk @ [(p, c)]\<rparr>))"

definition push_entry :: "string \<Rightarrow> sliver_packer \<Rightarrow> sliver_packer" where
  "push_entry p pk = pk\<lparr>pk_entries := pk_entries pk @ [p]\<rparr>"

definition add_metadata :: "'d sliver_lib \<Rightarrow> sliver_metadata \<Rightarrow> sliver_packer \<Rightarrow> sliver_packer sliver_result" where
  "add_metadata lib m pk = (case lib_to_json lib m of
       Inl e \<Rightarrow> Inl (SerializationError e)
     | Inr json_data \<Rightarrow> bind_res (tar_append lib METADATA_FILENAME json_data pk)
         (\<lambda>pk. Inr (push_entry METADATA_FILENAME pk)))"

definition add_heap :: "'d sliver_lib \<Rightarrow> bytes \<Rightarrow> sliver_packer \<Rightarrow> sliver_packer sliver_result" where
  "add_heap lib heap pk = bind_res (tar_append lib HEAP_FILENAME heap pk) (\<lambda>pk. Inr (push_entry HEAP_FILENAME pk))"

definition add_vfs_entry ::
  "'d sliver_lib \<Rightarrow> vfs_path \<Rightarrow> vfs_file \<Rightarrow> sliver_packer \<Rightarrow> sliver_packer sliver_result" where
  "add_vfs_entry lib path file pk = (let archive_path = VFS_PREFIX @ as_str path in
     bind_res (tar_append lib archive_path (content file) pk) (\<lambda>pk. Inr (push_entry archive_path pk)))"

fun add_vfs_entries ::
  "'d sliver_lib \<Rightarrow> (vfs_path \<times> vfs_file) list \<Rightarrow> sliver_packer \<Rightarrow> sliver_packer sliver_result" where
  "add_vfs_entries lib [] pk = Inr pk"
| "add_vfs_entries lib ((path, file) # es) pk =
     bind_res (add_vfs_entry lib path file pk) (add_vfs_entries lib es)"

definition build_manifest :: "string list \<Rightarrow> string" where
  "build_manifest entries = ''# Sliver Archive Manifest'' @ [CHR 10] @ ''# ========================='' @ [CHR 10, CHR 10]
     @ concat (map (\<lambda>e. e @ [CHR 10]) entries)"

definition add_manifest :: "'d sliver_lib \<Rightarrow> sliver_packer \<Rightarrow> sliver_packer sliver_result" where
  "add_manifest lib pk = tar_append lib MANIFEST_FILENAME (str_bytes (build_manifest (pk_entries pk))) pk"

definition packer_finalize :: "'d sliver_lib \<Rightarrow> sliver_packer \<Rightarrow> 'd sliver_result" where
  "packer_finalize lib pk = bind_res (add_manifest lib pk) (\<lambda>pk. case lib_finish lib (pk_archive pk) of
       Inl e \<Rightarrow> Inl (SIoError e) | Inr data \<Rightarrow> Inr data)"

definition pack_sliver ::
  "'d sliver_lib \<Rightarrow> sliver_metadata \<Rightarrow> bytes \<Rightarrow> (vfs_path \<times> vfs_file) list option \<Rightarrow> 'd sliver_result" where
  "pack_sliver lib m heap vfs_entries =
     bind_res (add_metadata lib m packer_new) (\<lambda>pk.
     bind_res (add_heap lib heap pk) (\<lambda>pk.
     bind_res (case vfs_entries of Some es \<Rightarrow> add_vfs_entries lib es pk | None \<Rightarrow> Inr pk)
       (packer_finalize lib)))"

subsection \<open>Unpacking\<close>

record unpacked_sliver =
  u_metadata :: sliver_metadata
  u_heap_data :: bytes
  u_vfs_entries :: "(vfs_path \<times> vfs_file) list"

definition io_res :: "string + 'a \<Rightarrow> 'a sliver_result" where
  "io_res r = (case r of Inl e \<Rightarrow> Inl (SIoError e) | Inr x \<Rightarrow> Inr x)"

definition json_res :: "string + 'a \<Rightarrow> 'a sliver_result" where
  "json_res r = (case r of Inl e \<Rightarrow> Inl (SerializationError e) | Inr x \<Rightarrow> Inr x)"

type_synonym unpack_state = "sliver_metadata option \<times> bytes option \<times> (vfs_path \<times> vfs_file) list"

definition unpack_entry :: "'d sliver_lib \<Rightarrow> nat \<Rightarrow> string \<Rightarrow> bytes \<Rightarrow> unpack_state \<Rightarrow> unpack_state sliver_result" where
  "unpack_entry lib now p c st = (case st of (m, h, vs) \<Rightarrow>
     if p = METADATA_FILENAME then bind_res (json_res (lib_from_json lib c)) (\<lambda>m'. Inr (Some m', h, vs))
     else if p = HEAP_FILENAME then Inr (m, Some c, vs)
     else if starts_with p VFS_PREFIX then
       (let vfs_path_str = drop (length VFS_PREFIX) p in
        case vfs_path_new vfs_path_str of
          Inr vp \<Rightarrow> Inr (m, h, vs @ [(vp, \<lparr>content = c, created_at = now, modified_at = now, fsize = 0\<rparr>)])
        | Inl _ \<Rightarrow> Inl (InvalidVfsPath vfs_path_str))
     else Inr (m, h, vs))"

fun unpack_loop ::
  "'d sliver_lib \<Rightarrow> nat \<Rightarrow> (string + tar_entry) list \<Rightarrow> unpack_state \<Rightarrow> unpack_state sliver_result" where
  "unpack_loop lib now [] st = Inr st"
| "unpack_loop lib now (r # rs) st =
     bind_res (io_res r) (\<lambda>entry.
     bind_res (io_res (te_path entry)) (\<lambda>p.
     bind_res (io_res (te_content entry)) (\<lambda>c.
     bind_res (unpack_entry lib now p c st) (unpack_loop lib now rs))))"

definition sliver_unpack :: "'d sliver_lib \<Rightarrow> nat \<Rightarrow> 'd \<Rightarrow> unpacked_sliver sliver_result" where
  "sliver_unpack lib now data =
     bind_res (io_res (lib_entries lib data)) (\<lambda>rs.
     bind_res (unpack_loop lib now rs (None, None, [])) (\<lambda>(m, h, vs).
     case m of None \<Rightarrow> Inl (MissingMetadata METADATA_FILENAME)
     | Some m \<Rightarrow> (case h of None \<Rightarrow> Inl (MissingHeap HEAP_FILENAME)
     | Some h \<Rightarrow> if \<not> is_supported_version (m_format_version m) then Inl (InvalidFormat (m_format_version m))
       else Inr \<lparr>u_metadata = m, u_heap_data = h,
         u_vfs_entries = map (\<lambda>(p, f). (p, f\<lparr>fsize := length (content f)\<rparr>)) vs\<rparr>)))"

definition unpack_and_validate :: "'d sliver_lib \<Rightarrow> nat \<Rightarrow> 'd \<Rightarrow> unpacked_sliver sliver_result" where
  "unpack_and_validate lib now data = bind_res (sliver_unpack lib now data) (\<lambda>u.
     if u_heap_data u = [] then Inl (CorruptedArchive ''Heap data is empty'') else Inr u)"

fun validate_loop ::
  "'d sliver_lib \<Rightarrow> (string + tar_entry) list \<Rightarrow> bool \<times> string option \<Rightarrow> (bool \<times> string option) sliver_result" where
  "validate_loop lib [] st = Inr st"
| "validate_loop lib (r # rs) (has_heap, version) =
     bind_res (io_res r) (\<lambda>entry.
     bind_res (io_res (te_path entry)) (\<lambda>p.
       if p = METADATA_FILENAME then
         bind_res (io_res (te_content entry)) (\<lambda>c.
         bind_res (json_res (lib_from_json lib c)) (\<lambda>m. validate_loop lib rs (has_heap, Some (m_format_version m))))
       else validate_loop lib rs (has_heap \<or> p = HEAP_FILENAME, version)))"

definition validate_sliver :: "'d sliver_lib \<Rightarrow> 'd \<Rightarrow> unit sliver_result" where
  "validate_sliver lib data =
     bind_res (io_res (lib_entries lib data)) (\<lambda>rs.
     bind_res (validate_loop lib rs (False, None)) (\<lambda>(has_heap, version).
     case version of None \<Rightarrow> Inl (MissingMetadata METADATA_FILENAME)
     | Some v \<Rightarrow> if \<not> has_heap then Inl (MissingHeap HEAP_FILENAME)
       else if \<not> is_supported_version v then Inl (InvalidFormat v) else Inr ()))"

definition total_size :: "(sliver_metadata \<Rightarrow> string + bytes) \<Rightarrow> unpacked_sliver \<Rightarrow> nat" where
  "total_size to_vec u = (case to_vec (u_metadata u) of Inr v \<Rightarrow> length v | Inl _ \<Rightarrow> 0) + length (u_heap_data u)
     + sum_list (map (\<lambda>(_, f). length (content f)) (u_vfs_entries u))"

definition unpacked_summary :: "(sliver_metadata \<Rightarrow> string + bytes) \<Rightarrow> unpacked_sliver \<Rightarrow> string" where
  "unpacked_summary to_vec u = join_with [CHR 10] [''Unpacked Sliver:'', ''  Hostname: '' @ m_hostname (u_metadata u),
     ''  Format: '' @ m_format_version (u_metadata u), ''  Heap: '' @ show_nat (length (u_heap_data u)) @ '' bytes'',
     ''  VFS: '' @ show_nat (length (u_vfs_entries u)) @ '' entries'',
     ''  Total: '' @ show_nat (total_size to_vec u) @ '' bytes'']"

subsection \<open>Restoring\<close>

fun restore_entries ::
  "'b vfs_backend \<Rightarrow> string \<Rightarrow> nat \<Rightarrow> (vfs_path \<times> vfs_file) list \<Rightarrow> 'b \<Rightarrow> unit sliver_result \<times> 'b" where
  "restore_entries ops ns now [] b = (Inr (), b)"
| "restore_entries ops ns now ((path, file) # es) b = (case iso_write ops ns now b (as_str path) (content file) of
       (Inl e, b') \<Rightarrow> (Inl (VfsRestore (as_str path) (show_vfs_error e)), b')
     | (Inr _, b') \<Rightarrow> restore_entries ops ns now es b')"

definition restore_to_vfs ::
  "'b vfs_backend \<Rightarrow> string \<Rightarrow> nat \<Rightarrow> unpacked_sliver \<Rightarrow> 'b \<Rightarrow> unit sliver_result \<times> 'b" where
  "restore_to_vfs ops ns now u b = restore_entries ops ns now (u_vfs_entries u) b"

definition restore_vfs ::
  "'b vfs_backend \<Rightarrow> string \<Rightarrow> nat \<Rightarrow> unpacked_sliver \<Rightarrow> 'b \<Rightarrow> unit sliver_result \<times> 'b" where
  "restore_vfs ops ns now u b = restore_to_vfs ops ns now u b"

record verification_report =
  r_total :: nat
  r_verified :: nat
  r_missing :: "string list"
  r_mismatched :: "string list"

definition verify_entry ::
  "'b vfs_backend \<Rightarrow> string \<Rightarrow> 'b \<Rightarrow> vfs_path \<times> vfs_file \<Rightarrow> verification_report \<Rightarrow> verification_report" where
  "verify_entry ops ns b e r = (case iso_read ops ns b (as_str (fst e)) of
       Inr c \<Rightarrow> if c = content (snd e) then r\<lparr>r_verified := r_verified r + 1\<rparr>
         else r\<lparr>r_mismatched := r_mismatched r @ [as_str (fst e)]\<rparr>
     | Inl _ \<Rightarrow> r\<lparr>r_missing := r_missing r @ [as_str (fst e)]\<rparr>)"

definition verify_vfs_restoration ::
  "'b vfs_backend \<Rightarrow> string \<Rightarrow> unpacked_sliver \<Rightarrow> 'b \<Rightarrow> verification_report" where
  "verify_vfs_restoration ops ns u b = fold (verify_entry ops ns b) (u_vfs_entries u)
     \<lparr>r_total = length (u_vfs_entries u), r_verified = 0, r_missing = [], r_mismatched = []\<rparr>"

definition is_complete :: "verification_report \<Rightarrow> bool" where
  "is_complete r = (r_verified r = r_total r \<and> r_missing r = [] \<and> r_mismatched r = [])"

subsection \<open>Capturing\<close>

record vfs_capture =
  cap_files :: "(string \<times> vfs_file) list"
  cap_file_count :: nat
  cap_total_bytes :: nat

definition capture_new :: vfs_capture where
  "capture_new = \<lparr>cap_files = [], cap_file_count = 0, cap_total_bytes = 0\<rparr>"

definition add_file :: "vfs_path \<Rightarrow> vfs_file \<Rightarrow> vfs_capture \<Rightarrow> vfs_capture" where
  "add_file path file cap = \<lparr>cap_files = AList.update (as_str path) file (cap_files cap),
     cap_file_count = cap_file_count cap + 1, cap_total_bytes = cap_total_bytes cap + length (content file)\<rparr>"

definition has_path :: "vfs_capture \<Rightarrow> string \<Rightarrow> bool" where
  "has_path cap p = (map_of (cap_files cap) p \<noteq> None)"

text \<open>
  The loop over the entries of a directory; \<open>inner\<close> is the recursive call. No result means that a
  listing panicked or that the fuel is used up.
\<close>

fun capture_entries ::
  "(string \<Rightarrow> vfs_capture \<Rightarrow> (unit vfs_result \<times> vfs_capture) option) \<Rightarrow> vfs_path list \<Rightarrow> vfs_capture
     \<Rightarrow> (unit vfs_result \<times> vfs_capture) option" where
  "capture_entries inner [] cap = Some (Inr (), cap)"
| "capture_entries inner (entry # es) cap = (case inner (as_str entry) cap of
       Some (Inr _, cap') \<Rightarrow> capture_entries inner es cap'
     | r \<Rightarrow> r)"

primrec capture_all_files_recursive ::
  "nat \<Rightarrow> 'b vfs_backend \<Rightarrow> string \<Rightarrow> nat \<Rightarrow> 'b \<Rightarrow> string \<Rightarrow> vfs_capture \<Rightarrow> (unit vfs_result \<times> vfs_capture) option" where
  "capture_all_files_recursive 0 ops ns now b path cap = None"
| "capture_all_files_recursive (Suc fuel) ops ns now b path cap = (case iso_list_dir ops ns b path of
       None \<Rightarrow> None
     | Some (Inr entries) \<Rightarrow> capture_entries (capture_all_files_recursive fuel ops ns now b) entries cap
     | Some (Inl _) \<Rightarrow> (case iso_read ops ns b path of
         Inr c \<Rightarrow> (case vfs_path_new path of
             Inl e \<Rightarrow> Some (Inl e, cap)
           | Inr p \<Rightarrow> Some (Inr (), add_file p (vfs_file_new now c) cap))
       | Inl _ \<Rightarrow> Some (Inr (), cap)))"

definition capture_vfs :: "nat \<Rightarrow> 'b vfs_backend \<Rightarrow> string \<Rightarrow> nat \<Rightarrow> 'b \<Rightarrow> vfs_capture vfs_result option" where
  "capture_vfs fuel ops ns now b = map_option (\<lambda>(r, cap). bind_res r (\<lambda>_. Inr cap))
     (capture_all_files_recursive fuel ops ns now b ''/'' capture_new)"

primrec walk_and_capture ::
  "nat \<Rightarrow> 'b vfs_backend \<Rightarrow> nat \<Rightarrow> 'b \<Rightarrow> string \<Rightarrow> vfs_capture \<Rightarrow> (unit vfs_result \<times> vfs_capture) option" where
  "walk_and_capture 0 ops now b path cap = None"
| "walk_and_capture (Suc fuel) ops now b path cap = (case vfs_path_new path of
       Inl e \<Rightarrow> Some (Inl e, cap)
     | Inr p \<Rightarrow> (case be_list_dir ops b p of
         None \<Rightarrow> None
       | Some (Inr entries) \<Rightarrow> capture_entries (walk_and_capture fuel ops now b) entries cap
       | Some (Inl _) \<Rightarrow> (case be_read ops b p of
           Inr c \<Rightarrow> Some (Inr (), add_file p (vfs_file_new now c) cap)
         | Inl _ \<Rightarrow> Some (Inr (), cap))))"

text \<open>The loop of \<^verbatim>\<open>walk_vfs_for_sliver\<close> over the paths to process, which starts by unwrapping the path of the root.\<close>

definition walk_entry ::
  "'b vfs_backend \<Rightarrow> nat \<Rightarrow> 'b \<Rightarrow> vfs_path \<Rightarrow> vfs_path list \<times> (vfs_path \<times> vfs_file) list
     \<Rightarrow> vfs_path list \<times> (vfs_path \<times> vfs_file) list" where
  "walk_entry ops now b entry acc = (case be_metadata ops b entry of
       Inr _ \<Rightarrow> (case be_read ops b entry of
           Inr c \<Rightarrow> (fst acc, snd acc @ [(entry, vfs_file_new now c)]) | Inl _ \<Rightarrow> acc)
     | Inl _ \<Rightarrow> (entry # fst acc, snd acc))"

primrec walk_loop ::
  "nat \<Rightarrow> 'b vfs_backend \<Rightarrow> nat \<Rightarrow> 'b \<Rightarrow> vfs_path list \<times> (vfs_path \<times> vfs_file) list
     \<Rightarrow> (vfs_path \<times> vfs_file) list option" where
  "walk_loop 0 ops now b acc = None"
| "walk_loop (Suc fuel) ops now b acc = (case fst acc of
       [] \<Rightarrow> Some (snd acc)
     | path # rest \<Rightarrow> (case be_list_dir ops b path of
         None \<Rightarrow> None
       | Some (Inr entries) \<Rightarrow> walk_loop fuel ops now b (fold (walk_entry ops now b) entries (rest, snd acc))
       | Some (Inl _) \<Rightarrow> walk_loop fuel ops now b (rest, (case be_read ops b path of
             Inr c \<Rightarrow> snd acc @ [(path, vfs_file_new now c)] | Inl _ \<Rightarrow> snd acc))))"

definition walk_vfs_for_sliver :: "nat \<Rightarrow> 'b vfs_backend \<Rightarrow> nat \<Rightarrow> 'b \<Rightarrow> (vfs_path \<times> vfs_file) list option" where
  "walk_vfs_for_sliver fuel ops now b = (case vfs_path_new ''/'' of
       Inl _ \<Rightarrow> None | Inr root \<Rightarrow> walk_loop fuel ops now b ([root], []))"

subsection \<open>Specification vocabulary\<close>

text \<open>Paths that the tar library stores unchanged.\<close>

definition tar_clean :: "string \<Rightarrow> bool" where
  "tar_clean p = list_all (\<lambda>s. s \<noteq> [] \<and> s \<noteq> ''.'' \<and> s \<noteq> ''..'') (split_on (CHR ''/'') p)"

definition plain_entry :: "string \<times> bytes \<Rightarrow> string + tar_entry" where
  "plain_entry e = Inr \<lparr>te_path = Inr (fst e), te_size = length (snd e), te_content = Inr (snd e)\<rparr>"

definition stamped :: "nat \<Rightarrow> vfs_file \<Rightarrow> vfs_file" where
  "stamped now f = \<lparr>content = content f, created_at = now, modified_at = now, fsize = length (content f)\<rparr>"

definition archive_entry :: "vfs_path \<times> vfs_file \<Rightarrow> string \<times> bytes" where
  "archive_entry e = (VFS_PREFIX @ as_str (fst e), content (snd e))"

definition sample_meta :: sliver_metadata where
  "sample_meta = metadata_with_custom (metadata_with_name 7 ''api'' ''api.example.com'' ''1.2.3'') ''tag'' ''v1''"

definition sample_files :: "(vfs_path \<times> vfs_file) list" where
  "sample_files = [(VfsPath ''index.js'', vfs_file_new 3 [1, 2]), (VfsPath ''meta.json'', vfs_file_new 4 [])]"

text \<open>An archive as the list of its entries and a coding of one metadata record.\<close>

definition plain_lib :: "sliver_metadata \<Rightarrow> (string \<times> bytes) list sliver_lib" where
  "plain_lib m0 = \<lparr>lib_to_json = (\<lambda>m. if m = m0 then Inr [123, 125] else Inl ''unsupported''),
     lib_from_json = (\<lambda>d. if d = [123, 125] then Inr m0 else Inl ''expected value''),
     lib_append = (\<lambda>_ _. None), lib_finish = Inr, lib_entries = (\<lambda>d. Inr (map plain_entry d))\<rparr>"

locale sliver_codec =
  fixes lib :: "'d sliver_lib"
  assumes json_roundtrip: "lib_to_json lib m = Inr d \<Longrightarrow> lib_from_json lib d = Inr m"
    and tar_roundtrip: "\<lbrakk>lib_finish lib es = Inr data; list_all (tar_clean \<circ> fst) es\<rbrakk> \<Longrightarrow>
      lib_entries lib data = Inr (map plain_entry es)"

section \<open>Packing and unpacking\<close>

lemma tar_append_Inr: "tar_append lib p c pk = Inr pk' \<Longrightarrow> pk_archive pk' = pk_archive pk @ [(p, c)]"
  by (auto simp: tar_append_def split: option.splits)

lemma add_vfs_entries_archive:
  "add_vfs_entries lib es pk = Inr pk' \<Longrightarrow> pk_archive pk' = pk_archive pk @ map archive_entry es"
  by (induction lib es pk rule: add_vfs_entries.induct)
    (auto simp: add_vfs_entry_def Let_def bind_res_Inr push_entry_def archive_entry_def dest: tar_append_Inr)

lemma pack_sliver_archive:
  assumes "pack_sliver lib m heap (Some es) = Inr d"
  shows "\<exists>j man. lib_to_json lib m = Inr j \<and> lib_finish lib ([(METADATA_FILENAME, j), (HEAP_FILENAME, heap)]
     @ map archive_entry es @ [(MANIFEST_FILENAME, man)]) = Inr d"
proof -
  obtain pk1 pk2 pk3 where pk: "add_metadata lib m packer_new = Inr pk1" "add_heap lib heap pk1 = Inr pk2"
    "add_vfs_entries lib es pk2 = Inr pk3" "packer_finalize lib pk3 = Inr d"
    using assms by (auto simp: pack_sliver_def bind_res_Inr)
  obtain j where j: "lib_to_json lib m = Inr j" "pk_archive pk1 = [(METADATA_FILENAME, j)]"
    using pk(1) by (auto simp: add_metadata_def bind_res_Inr push_entry_def packer_new_def dest: tar_append_Inr split: sum.splits)
  moreover have "pk_archive pk2 = pk_archive pk1 @ [(HEAP_FILENAME, heap)]"
    using pk(2) by (auto simp: add_heap_def bind_res_Inr push_entry_def dest: tar_append_Inr)
  moreover note add_vfs_entries_archive [OF pk(3)]
  moreover obtain pk4 where "add_manifest lib pk3 = Inr pk4" "lib_finish lib (pk_archive pk4) = Inr d"
    using pk(4) by (auto simp: packer_finalize_def bind_res_def split: sum.splits)
  ultimately show ?thesis by (auto simp: add_manifest_def dest!: tar_append_Inr)
qed

lemma archive_entry_clean:
  assumes "vfs_path_wf (fst e)" "''.'' \<notin> set (split_on (CHR ''/'') (as_str (fst e)))"
  shows "tar_clean (fst (archive_entry e))"
proof -
  have "split_on (CHR ''/'') (VFS_PREFIX @ as_str (fst e)) = ''vfs'' # split_on (CHR ''/'') (as_str (fst e))"
    by (simp add: VFS_PREFIX_def)
  moreover have "''..'' \<notin> set (split_on (CHR ''/'') (as_str (fst e)))"
    using assms(1) by (auto simp: vfs_path_wf_def Let_def)
  ultimately show ?thesis using assms(2) vfs_path_wf_no_empty [OF assms(1)]
    by (auto simp: tar_clean_def archive_entry_def list_all_iff)
qed

lemma unpack_vfs_entries:
  assumes "\<forall>e \<in> set es. vfs_path_wf (fst e)"
  shows "unpack_loop lib now (map plain_entry (map archive_entry es) @ rest) (m, h, vs)
     = unpack_loop lib now rest (m, h, vs @ map (\<lambda>(p, f). (p, (stamped now f)\<lparr>fsize := 0\<rparr>)) es)"
  using assms
proof (induction es arbitrary: vs)
  case (Cons e es)
  have "vfs_path_new (as_str (fst e)) = Inr (fst e)" using Cons.prems vfs_path_new_as_str by simp
  then show ?case using Cons
    by (simp add: plain_entry_def archive_entry_def io_res_def unpack_entry_def sliver_names starts_with_def
        case_prod_beta stamped_def)
qed simp

lemma validate_vfs_entries:
  "validate_loop lib (map plain_entry (map archive_entry es) @ rest) (h, v) = validate_loop lib rest (h, v)"
  by (induction es) (simp_all add: plain_entry_def archive_entry_def io_res_def sliver_names)

context sliver_codec
begin

lemma packed_entries:
  assumes "\<forall>e \<in> set es. vfs_path_wf (fst e) \<and> ''.'' \<notin> set (split_on (CHR ''/'') (as_str (fst e)))"
    "pack_sliver lib m heap (Some es) = Inr d"
  shows "\<exists>j man. lib_from_json lib j = Inr m \<and> lib_entries lib d = Inr (map plain_entry
     ([(METADATA_FILENAME, j), (HEAP_FILENAME, heap)] @ map archive_entry es @ [(MANIFEST_FILENAME, man)]))"
proof -
  obtain j man where j: "lib_to_json lib m = Inr j" and f: "lib_finish lib ([(METADATA_FILENAME, j), (HEAP_FILENAME, heap)]
     @ map archive_entry es @ [(MANIFEST_FILENAME, man)]) = Inr d" using pack_sliver_archive [OF assms(2)] by blast
  have "tar_clean METADATA_FILENAME" "tar_clean HEAP_FILENAME" "tar_clean MANIFEST_FILENAME" by code_simp+
  moreover have "\<forall>e \<in> set es. tar_clean (fst (archive_entry e))" using assms(1) archive_entry_clean by blast
  ultimately have "list_all (tar_clean \<circ> fst) ([(METADATA_FILENAME, j), (HEAP_FILENAME, heap)]
     @ map archive_entry es @ [(MANIFEST_FILENAME, man)])" by (auto simp: list_all_iff)
  from tar_roundtrip [OF f this] json_roundtrip [OF j] show ?thesis by blast
qed

lemma unpack_packed:
  assumes "\<forall>e \<in> set es. vfs_path_wf (fst e) \<and> ''.'' \<notin> set (split_on (CHR ''/'') (as_str (fst e)))"
    "pack_sliver lib m heap (Some es) = Inr d" "m_format_version m = FORMAT_VERSION"
  shows "sliver_unpack lib now d
     = Inr \<lparr>u_metadata = m, u_heap_data = heap, u_vfs_entries = map (\<lambda>(p, f). (p, stamped now f)) es\<rparr>"
    and "validate_sliver lib d = Inr ()"
proof -
  obtain j man where j: "lib_from_json lib j = Inr m" and e: "lib_entries lib d = Inr (map plain_entry
     ([(METADATA_FILENAME, j), (HEAP_FILENAME, heap)] @ map archive_entry es @ [(MANIFEST_FILENAME, man)]))"
    using packed_entries [OF assms(1,2)] by blast
  have n: "METADATA_FILENAME \<noteq> HEAP_FILENAME" "MANIFEST_FILENAME \<noteq> METADATA_FILENAME"
    "MANIFEST_FILENAME \<noteq> HEAP_FILENAME" "\<not> starts_with MANIFEST_FILENAME VFS_PREFIX"
    by (simp_all add: sliver_names starts_with_def)
  have s: "(\<lambda>(p, f). (p, f\<lparr>fsize := length (content f)\<rparr>)) \<circ> (\<lambda>(p, f). (p, (stamped now f)\<lparr>fsize := 0\<rparr>))
      = (\<lambda>(p, f). (p, stamped now f))" by (auto simp: stamped_def fun_eq_iff)
  have wf: "\<forall>e \<in> set es. vfs_path_wf (fst e)" using assms(1) by blast
  have "unpack_loop lib now (map plain_entry ([(METADATA_FILENAME, j), (HEAP_FILENAME, heap)]
        @ map archive_entry es @ [(MANIFEST_FILENAME, man)])) (None, None, [])
      = Inr (Some m, Some heap, map (\<lambda>(p, f). (p, (stamped now f)\<lparr>fsize := 0\<rparr>)) es)"
    using unpack_vfs_entries [OF wf, of lib now "map plain_entry [(MANIFEST_FILENAME, man)]"] n j
    by (simp add: plain_entry_def io_res_def json_res_def unpack_entry_def)
  then show "sliver_unpack lib now d
     = Inr \<lparr>u_metadata = m, u_heap_data = heap, u_vfs_entries = map (\<lambda>(p, f). (p, stamped now f)) es\<rparr>"
    using assms(3) by (simp add: sliver_unpack_def io_res_def e is_supported_version_def s)
  have "validate_loop lib (map plain_entry ([(METADATA_FILENAME, j), (HEAP_FILENAME, heap)]
        @ map archive_entry es @ [(MANIFEST_FILENAME, man)])) (False, None) = Inr (True, Some (m_format_version m))"
    using validate_vfs_entries [of lib es "map plain_entry [(MANIFEST_FILENAME, man)]"] n j
    by (simp add: plain_entry_def io_res_def json_res_def)
  then show "validate_sliver lib d = Inr ()"
    using assms(3) by (simp add: validate_sliver_def io_res_def e is_supported_version_def)
qed

end

interpretation plain: sliver_codec "plain_lib m0" for m0
  by unfold_locales (auto simp: plain_lib_def split: if_splits)

section \<open>Restoring\<close>

lemma as_str_segments: "vfs_path_wf p \<Longrightarrow> as_str p = join_with ''/'' (segments (as_str p))"
  by (metis normalize_segments vfs_path_wf_iff)

context tree_store
begin

lemma restore_entries_view:
  assumes "ns_ok ns" "\<forall>e \<in> set es. vfs_path_wf (fst e)" "distinct (map fst es)"
    "invar b" "restore_entries ops ns now es b = (Inr (), b')"
  shows "invar b' \<and> (\<forall>e \<in> set es. view b' (key (seg_path ns (segments (as_str (fst e))))) = Some (content (snd e))
       \<and> vfs_path_wf (seg_path ns (segments (as_str (fst e)))))
     \<and> (\<forall>q. q \<notin> (\<lambda>e. key (seg_path ns (segments (as_str (fst e))))) ` set es \<longrightarrow> view b' q = view b q)"
  using assms(2-5)
proof (induction es arbitrary: b)
  case (Cons e es)
  let ?K = "\<lambda>e. key (seg_path ns (segments (as_str (fst e))))"
  obtain b1 where w: "iso_write ops ns now b (as_str (fst e)) (content (snd e)) = (Inr (), b1)"
    and rest: "restore_entries ops ns now es b1 = (Inr (), b')"
    using Cons.prems(4) by (cases e) (auto split: prod.splits sum.splits)
  note l = iso_write_loaded [OF assms(1) Cons.prems(3) w]
  have ih: "invar b' \<and> (\<forall>e \<in> set es. view b' (?K e) = Some (content (snd e))
       \<and> vfs_path_wf (seg_path ns (segments (as_str (fst e))))) \<and> (\<forall>q. q \<notin> ?K ` set es \<longrightarrow> view b' q = view b1 q)"
    using Cons.IH [OF _ _ l(3) rest] Cons.prems(1,2) by simp
  have "?K e \<noteq> ?K e'" if e': "e' \<in> set es" for e'
  proof
    assume k: "?K e = ?K e'"
    have wf: "vfs_path_wf (fst e)" "vfs_path_wf (fst e')" using Cons.prems(1) e' by auto
    then have "segs_ok (segments (as_str (fst e)))" "segs_ok (segments (as_str (fst e')))"
      using segments_ok by (auto simp: segs_ok_def list_all_iff vfs_path_wf_iff normalize_empty [symmetric])
    then have "segments (as_str (fst e)) = segments (as_str (fst e'))" using seg_key [OF assms(1)] k by blast
    then have "as_str (fst e) = as_str (fst e')" using as_str_segments wf by metis
    then have "fst e = fst e'" by (simp add: vfs_path.expand)
    then show False using Cons.prems(2) e' by (auto simp: image_iff)
  qed
  then have "?K e \<notin> ?K ` set es" by blast
  then have "view b' (?K e) = Some (content (snd e))" using ih l(1) by simp
  then show ?case using ih l(1,2) by auto
qed simp

end

lemma verify_all:
  assumes "\<forall>e \<in> set es. iso_read ops ns b (as_str (fst e)) = Inr (content (snd e))"
  shows "fold (verify_entry ops ns b) es r = r\<lparr>r_verified := r_verified r + length es\<rparr>"
  using assms by (induction es arbitrary: r) (simp_all add: verify_entry_def)

lemma restore_verified:
  assumes "ns_ok ns" "\<forall>e \<in> set (u_vfs_entries u). vfs_path_wf (fst e)" "distinct (map fst (u_vfs_entries u))"
    "mem_inv b" "restore_vfs memory_ops ns now u b = (Inr (), b')"
  shows "is_complete (verify_vfs_restoration memory_ops ns u b')"
proof -
  let ?es = "u_vfs_entries u"
  have v: "mem_inv b'" "\<forall>e \<in> set ?es. mem_view b' (as_str (seg_path ns (segments (as_str (fst e))))) = Some (content (snd e))
       \<and> vfs_path_wf (seg_path ns (segments (as_str (fst e))))"
    using mem_tree.restore_entries_view [OF assms(1-4), of now b'] assms(5)
    by (auto simp: restore_vfs_def restore_to_vfs_def)
  have "iso_read memory_ops ns b' (as_str (fst e)) = Inr (content (snd e))" if e: "e \<in> set ?es" for e
  proof -
    have wf: "vfs_path_wf (fst e)" using assms(2) e by blast
    then have "seg_path ns (segments (as_str (fst e))) = VfsPath (ns @ ''::'' @ as_str (fst e))"
      by (simp add: seg_path_def as_str_segments [symmetric])
    moreover have "vfs_path_new (as_str (fst e)) = Inr (fst e)" using wf vfs_path_new_as_str by simp
    ultimately have "iso_prefix_namespace ns (as_str (fst e)) = Inr (seg_path ns (segments (as_str (fst e))))"
      using iso_prefix_namespace_Inr [OF assms(1)] v(2) e by auto
    then show ?thesis using v e mem.read_view [OF v(1)] by (simp add: iso_read_def)
  qed
  then show ?thesis by (simp add: verify_vfs_restoration_def verify_all is_complete_def)
qed

section \<open>Properties\<close>

text \<open>
  C16. A sliver survives the round trip: whatever is packed with the current format version and
  normalised paths is accepted by the quick validation, unpacks to the same metadata, heap and
  files in the same order (with new times), and restoring it into a tenant's namespace of the
  memory backend, when it succeeds, verifies completely if the paths are distinct.
\<close>

theorem sliver_roundtrip:
  assumes "sliver_codec lib" "pack_sliver lib m heap (Some es) = Inr d" "m_format_version m = FORMAT_VERSION"
    "\<forall>e \<in> set es. vfs_path_wf (fst e) \<and> ''.'' \<notin> set (split_on (CHR ''/'') (as_str (fst e)))"
  shows "validate_sliver lib d = Inr ()
     \<and> (\<exists>u. sliver_unpack lib now d = Inr u \<and> u_metadata u = m \<and> u_heap_data u = heap
          \<and> u_vfs_entries u = map (\<lambda>(p, f). (p, stamped now f)) es
          \<and> (\<forall>ns b b'. ns_ok ns \<and> mem_inv b \<and> distinct (map fst es) \<and> restore_vfs memory_ops ns now u b = (Inr (), b')
                \<longrightarrow> is_complete (verify_vfs_restoration memory_ops ns u b')))"
proof -
  let ?u = "\<lparr>u_metadata = m, u_heap_data = heap, u_vfs_entries = map (\<lambda>(p, f). (p, stamped now f)) es\<rparr>"
  have u: "sliver_unpack lib now d = Inr ?u" "validate_sliver lib d = Inr ()"
    using sliver_codec.unpack_packed [OF assms(1,4,2,3)] by auto
  have f: "map fst (u_vfs_entries ?u) = map fst es" by auto
  have wf: "\<forall>e \<in> set (u_vfs_entries ?u). vfs_path_wf (fst e)" using assms(4) by (simp add: case_prod_beta)
  have "is_complete (verify_vfs_restoration memory_ops ns ?u b')"
    if "ns_ok ns" "mem_inv b" "distinct (map fst es)" "restore_vfs memory_ops ns now ?u b = (Inr (), b')" for ns b b'
    by (rule restore_verified [OF that(1) wf _ that(2,4)]) (simp only: f that(3))
  then show ?thesis using u by auto
qed

theorem sliver_roundtrip_witness:
  "\<exists>d u b'. pack_sliver (plain_lib sample_meta) sample_meta [9] (Some sample_files) = Inr d \<and> validate_sliver (plain_lib sample_meta) d = Inr ()
     \<and> sliver_unpack (plain_lib sample_meta) 5 d = Inr u \<and> map fst (u_vfs_entries u) = map fst sample_files
     \<and> restore_vfs memory_ops ''app_a'' 5 u (mem_with_limits test_limits) = (Inr (), b')
     \<and> is_complete (verify_vfs_restoration memory_ops ''app_a'' u b')"
proof -
  let ?p = "pack_sliver (plain_lib sample_meta) sample_meta [9] (Some sample_files)"
  obtain d where d: "?p = Inr d"
    by (simp add: pack_sliver_def add_metadata_def add_heap_def packer_finalize_def add_manifest_def sample_files_def
        add_vfs_entry_def tar_append_def plain_lib_def Let_def)
  have v: "m_format_version sample_meta = FORMAT_VERSION" by code_simp
  have w: "\<forall>e \<in> set sample_files. vfs_path_wf (fst e) \<and> ''.'' \<notin> set (split_on (CHR ''/'') (as_str (fst e)))" by code_simp
  from sliver_roundtrip [OF plain.sliver_codec_axioms d v w, of 5] obtain u where u:
    "validate_sliver (plain_lib sample_meta) d = Inr ()" "sliver_unpack (plain_lib sample_meta) 5 d = Inr u"
    "u_vfs_entries u = map (\<lambda>(p, f). (p, stamped 5 f)) sample_files"
    "\<And>ns b b'. \<lbrakk>ns_ok ns; mem_inv b; distinct (map fst sample_files); restore_vfs memory_ops ns 5 u b = (Inr (), b')\<rbrakk>
       \<Longrightarrow> is_complete (verify_vfs_restoration memory_ops ns u b')" by blast
  let ?r = "restore_entries memory_ops ''app_a'' 5 (map (\<lambda>(p, f). (p, stamped 5 f)) sample_files) (mem_with_limits test_limits)"
  have "fst ?r = Inr ()" by code_simp
  then have r: "restore_vfs memory_ops ''app_a'' 5 u (mem_with_limits test_limits) = (Inr (), snd ?r)"
    by (simp add: restore_vfs_def restore_to_vfs_def u(3) prod_eq_iff)
  have "ns_ok ''app_a''" "distinct (map fst sample_files)" by code_simp+
  from u(4) [OF this(1) mem_inv_init this(2) r] have "is_complete (verify_vfs_restoration memory_ops ''app_a'' u (snd ?r))" .
  moreover have "map fst (u_vfs_entries u) = map fst sample_files" by (auto simp: u(3))
  ultimately show ?thesis using d u(1,2) r by blast
qed

text \<open>
  Capturing a running application never captures anything: the capture starts at the root, which is
  not a valid path, so it is empty for every backend, tenant and contents, and the walk that collects
  the files for packing panics at its first step.
\<close>

theorem capture_is_empty:
  "capture_vfs (Suc fuel) ops ns now b = Some (Inr capture_new) \<and> walk_vfs_for_sliver fuel ops now b = None"
proof -
  have e: "\<exists>e. vfs_path_new ''/'' = Inl e" by (simp add: vfs_path_new_def normalize_path_def trim_start_matches_def
        trim_end_matches_def Let_def MAX_PATH_LENGTH_def)
  then obtain x where "iso_prefix_namespace ns ''/'' = Inl x" by (auto simp: iso_prefix_namespace_def)
  then show ?thesis using e
    by (auto simp: capture_vfs_def walk_vfs_for_sliver_def iso_list_dir_def iso_read_def)
qed

end
