(* ===== verification/Sliver_Validation.thy ===== *)
theory Sliver_Validation
  imports Sliver_Format Config_App
begin

text \<open>
  Validation of sliver files and typo suggestions (\<^verbatim>\<open>src/src/sliver/validation.rs\<close>). The distance of two
  names is computed in a matrix of rows that two nested loops fill; it is shown equal to the least
  number of single-character edits. The characters of a string are the groups of its UTF-8 bytes.
  What the tar library finds in a file is an argument, as in Sliver_Format.
\<close>

section \<open>Definitions\<close>

subsection \<open>Corruption\<close>

datatype corruption_type =
    InvalidTar string | NoMetadata | NoHeap | InvalidMetadata string | TruncatedFile nat nat string
  | EmptyFile string | InvalidExtension string

definition show_corruption :: "corruption_type \<Rightarrow> string" where
  "show_corruption c = (case c of
       InvalidTar reason \<Rightarrow> ''Invalid tar archive: '' @ reason
     | NoMetadata \<Rightarrow> ''Missing '' @ METADATA_FILENAME @ '' (required)''
     | NoHeap \<Rightarrow> ''Missing heap.bin (required)''
     | InvalidMetadata e \<Rightarrow> ''Corrupted '' @ METADATA_FILENAME @ '': '' @ e
     | TruncatedFile expected found entry \<Rightarrow> ''Truncated file '' @ entry @ '': expected '' @ show_nat expected
         @ '' bytes, found '' @ show_nat found
     | EmptyFile entry \<Rightarrow> ''Empty required file: '' @ entry
     | InvalidExtension found \<Rightarrow> ''Invalid file extension: '' @ found @ '' (expected .sliver)'')"

text \<open>What one entry of the archive contributes: found metadata, found heap, corruptions.\<close>

definition check_entry ::
  "'d sliver_lib \<Rightarrow> (bytes \<Rightarrow> string option) \<Rightarrow> string + tar_entry \<Rightarrow> bool \<times> bool \<times> corruption_type list
     \<Rightarrow> bool \<times> bool \<times> corruption_type list" where
  "check_entry lib utf8_error r acc = (case acc of (found_metadata, found_heap, errors) \<Rightarrow> (case r of
       Inl e \<Rightarrow> (found_metadata, found_heap, errors @ [InvalidTar e])
     | Inr entry \<Rightarrow> (case te_path entry of
         Inl e \<Rightarrow> (found_metadata, found_heap, errors @ [InvalidTar (''Invalid entry path: '' @ e)])
       | Inr p \<Rightarrow>
           if p = METADATA_FILENAME then (True, found_heap, errors @
             (if te_size entry = 0 then [EmptyFile METADATA_FILENAME]
              else case te_content entry of
                Inl e \<Rightarrow> [InvalidMetadata e]
              | Inr c \<Rightarrow> (case utf8_error c of
                  Some e \<Rightarrow> [InvalidMetadata e]
                | None \<Rightarrow> (case lib_from_json lib c of Inl e \<Rightarrow> [InvalidMetadata e] | Inr _ \<Rightarrow> []))))
           else if p = ''heap.bin'' then (found_metadata, True, errors @
             (if te_size entry = 0 then [EmptyFile ''heap.bin''] else []))
           else acc)))"

text \<open>The file on the host: whether it exists, its extension, and what opening it yields.\<close>

record 'd sliver_file =
  sf_path :: string
  sf_exists :: bool
  sf_open :: "string + 'd"

text \<open>\<^verbatim>\<open>Path::extension\<close> of the last component.\<close>

definition path_extension :: "string \<Rightarrow> string option" where
  "path_extension p = (case rev (filter (\<lambda>s. s \<noteq> [] \<and> s \<noteq> ''.'') (split_on (CHR ''/'') p)) of
       [] \<Rightarrow> None
     | name # _ \<Rightarrow> if name = ''..'' then None else (case rfind_char (CHR ''.'') name of
         Some i \<Rightarrow> if i = 0 then None else Some (drop (i + 1) name)
       | None \<Rightarrow> None))"

definition validate_sliver_integrity ::
  "'d sliver_lib \<Rightarrow> (bytes \<Rightarrow> string option) \<Rightarrow> 'd sliver_file \<Rightarrow> unit sliver_result" where
  "validate_sliver_integrity lib utf8_error f =
     (if \<not> sf_exists f then Inl (SIoError (''Sliver file not found: '' @ sf_path f))
      else let ext = path_extension (sf_path f) in
      if ext \<noteq> Some ''sliver''
      then Inl (CorruptedArchive (''Invalid extension: '' @ (case ext of Some e \<Rightarrow> e | None \<Rightarrow> ''none'') @ '' (expected .sliver)''))
      else bind_res (io_res (sf_open f)) (\<lambda>d. case lib_entries lib d of
        Inl e \<Rightarrow> Inl (CorruptedArchive (''Failed to read archive: '' @ e))
      | Inr rs \<Rightarrow> (case fold (check_entry lib utf8_error) rs (False, False, []) of
          (found_metadata, found_heap, errors) \<Rightarrow>
            (case errors @ (if found_metadata then [] else [NoMetadata]) @ (if found_heap then [] else [NoHeap]) of
               first_error # _ \<Rightarrow> Inl (CorruptedArchive (show_corruption first_error))
             | [] \<Rightarrow> Inr ()))))"

definition find_sliver_file :: "host_fs \<Rightarrow> string option \<Rightarrow> string option \<Rightarrow> string \<Rightarrow> string option" where
  "find_sliver_file fs HOME USERPROFILE name_or_path =
     (let usable = (\<lambda>p. path_exists fs p \<and> path_is_file fs p);
          home_dir = (case HOME of Some h \<Rightarrow> h | None \<Rightarrow> (case USERPROFILE of Some h \<Rightarrow> h | None \<Rightarrow> []))
      in if usable name_or_path then Some name_or_path
         else List.find usable [''./'' @ name_or_path @ ''.sliver'', ''./slivers/'' @ name_or_path @ ''.sliver'',
           home_dir @ ''/.nano/slivers/'' @ name_or_path @ ''.sliver''])"

subsection \<open>Typo suggestions\<close>

definition is_continuation :: "char \<Rightarrow> bool" where
  "is_continuation c = (let n = (of_char c :: nat) in 128 \<le> n \<and> n < 192)"

function utf8_chars :: "string \<Rightarrow> string list" where
  "utf8_chars [] = []"
| "utf8_chars (c # s) = (c # takeWhile is_continuation s) # utf8_chars (dropWhile is_continuation s)"
  by pat_completeness auto
termination
  by (relation "measure length") (auto simp: length_dropWhile_le le_imp_less_Suc)

fun lev_inner :: "'c \<Rightarrow> 'c list \<Rightarrow> nat \<Rightarrow> nat \<Rightarrow> nat list list \<Rightarrow> nat list list" where
  "lev_inner a_char [] i j matrix = matrix"
| "lev_inner a_char (b_char # bs) i j matrix =
     (let cost = (if a_char = b_char then 0 else 1);
          v = min (min (matrix ! i ! (j + 1) + 1) (matrix ! (i + 1) ! j + 1)) (matrix ! i ! j + cost)
      in lev_inner a_char bs i (j + 1) (matrix[i + 1 := (matrix ! (i + 1))[j + 1 := v]]))"

fun lev_outer :: "'c list \<Rightarrow> 'c list \<Rightarrow> nat \<Rightarrow> nat list list \<Rightarrow> nat list list" where
  "lev_outer [] bs i matrix = matrix"
| "lev_outer (a_char # as) bs i matrix = lev_outer as bs (i + 1) (lev_inner a_char bs i 0 matrix)"

definition lev_matrix :: "nat \<Rightarrow> nat \<Rightarrow> nat list list" where
  "lev_matrix a_len b_len =
     (let matrix = replicate (a_len + 1) (replicate (b_len + 1) 0);
          matrix = fold (\<lambda>i m. m[i := (m ! i)[0 := i]]) [0..<a_len + 1] matrix
      in fold (\<lambda>j m. m[0 := (m ! 0)[j := j]]) [0..<b_len + 1] matrix)"

definition levenshtein_chars :: "'c list \<Rightarrow> 'c list \<Rightarrow> nat" where
  "levenshtein_chars a b =
     (let a_len = length a; b_len = length b in
      if a_len = 0 then b_len else if b_len = 0 then a_len
      else lev_outer a b 0 (lev_matrix a_len b_len) ! a_len ! b_len)"

definition levenshtein_distance :: "string \<Rightarrow> string \<Rightarrow> nat" where
  "levenshtein_distance a b = levenshtein_chars (utf8_chars a) (utf8_chars b)"

definition best_step :: "string \<Rightarrow> nat \<Rightarrow> string \<Rightarrow> (string \<times> nat) option \<Rightarrow> (string \<times> nat) option" where
  "best_step target threshold candidate best_match =
     (let distance = levenshtein_distance target candidate in
      if distance \<le> threshold \<and> distance < length target
           \<and> (case best_match of None \<Rightarrow> True | Some (_, d) \<Rightarrow> distance < d)
      then Some (candidate, distance) else best_match)"

definition find_similar_internal :: "string \<Rightarrow> string list \<Rightarrow> nat \<Rightarrow> string option" where
  "find_similar_internal target candidates threshold =
     map_option fst (fold (best_step target threshold) candidates None)"

text \<open>\<^verbatim>\<open>Path::file_stem\<close> of a file name, and the names of the directories that can be read.\<close>

definition file_stem :: "string \<Rightarrow> string" where
  "file_stem name = (case rfind_char (CHR ''.'') name of
       Some i \<Rightarrow> if i = 0 then name else take i name | None \<Rightarrow> name)"

definition find_similar_slivers :: "(string \<Rightarrow> string list option) \<Rightarrow> string \<Rightarrow> string list \<Rightarrow> string option" where
  "find_similar_slivers read_dir input search_dirs = find_similar_internal input
     (concat (map (\<lambda>dir. case read_dir dir of Some names \<Rightarrow> map file_stem names | None \<Rightarrow> []) search_dirs)) 3"

subsection \<open>Specification vocabulary\<close>

text \<open>An entry without corruption, and one with a given path.\<close>

definition sound_entry :: "'d sliver_lib \<Rightarrow> (bytes \<Rightarrow> string option) \<Rightarrow> string + tar_entry \<Rightarrow> bool" where
  "sound_entry lib utf8_error r = (\<exists>e p. r = Inr e \<and> te_path e = Inr p
     \<and> (p = METADATA_FILENAME \<longrightarrow> te_size e \<noteq> 0
          \<and> (\<exists>c m. te_content e = Inr c \<and> utf8_error c = None \<and> lib_from_json lib c = Inr m))
     \<and> (p = HEAP_FILENAME \<longrightarrow> te_size e \<noteq> 0))"

definition has_entry :: "string \<Rightarrow> (string + tar_entry) list \<Rightarrow> bool" where
  "has_entry p rs = list_ex (\<lambda>r. case r of Inr e \<Rightarrow> te_path e = Inr p | Inl _ \<Rightarrow> False) rs"

text \<open>A suggestion: near enough to the input and not all of it replaced.\<close>

definition eligible :: "string \<Rightarrow> nat \<Rightarrow> string \<Rightarrow> bool" where
  "eligible target threshold c =
     (levenshtein_distance target c \<le> threshold \<and> levenshtein_distance target c < length target)"

text \<open>\<open>edits n xs ys\<close>: \<open>n\<close> insertions, deletions and replacements turn \<open>xs\<close> into \<open>ys\<close>.\<close>

inductive edits :: "nat \<Rightarrow> 'c list \<Rightarrow> 'c list \<Rightarrow> bool" where
  empty: "edits 0 [] []"
| keep: "edits n xs ys \<Longrightarrow> edits n (xs @ [x]) (ys @ [x])"
| replace: "edits n xs ys \<Longrightarrow> edits (Suc n) (xs @ [x]) (ys @ [y])"
| remove: "edits n xs ys \<Longrightarrow> edits (Suc n) (xs @ [x]) ys"
| insert: "edits n xs ys \<Longrightarrow> edits (Suc n) xs (ys @ [y])"

text \<open>The recurrence of the distance on prefixes.\<close>

fun prefix_dist :: "'c list \<Rightarrow> 'c list \<Rightarrow> nat \<Rightarrow> nat \<Rightarrow> nat" where
  "prefix_dist a b 0 j = j"
| "prefix_dist a b (Suc i) 0 = Suc i"
| "prefix_dist a b (Suc i) (Suc j) =
     min (min (prefix_dist a b i (Suc j) + 1) (prefix_dist a b (Suc i) j + 1))
       (prefix_dist a b i j + (if a ! i = b ! j then 0 else 1))"

text \<open>The matrix after \<open>I\<close> full rounds of the outer loop and \<open>J\<close> steps of the next one.\<close>

definition filled :: "'c list \<Rightarrow> 'c list \<Rightarrow> nat \<Rightarrow> nat \<Rightarrow> nat list list \<Rightarrow> bool" where
  "filled a b I J m = (length m = Suc (length a) \<and> (\<forall>i \<le> length a. length (m ! i) = Suc (length b))
     \<and> (\<forall>i \<le> length a. \<forall>j \<le> length b. i \<le> I \<or> i = Suc I \<and> j \<le> J \<or> j = 0 \<longrightarrow> m ! i ! j = prefix_dist a b i j))"

section \<open>The least number of edits\<close>

lemma edits_take:
  "\<lbrakk>i \<le> length a; j \<le> length b\<rbrakk> \<Longrightarrow> edits (prefix_dist a b i j) (take i a) (take j b)"
proof (induction a b i j rule: prefix_dist.induct)
  case (1 a b j)
  then show ?case
  proof (induction j)
    case (Suc j)
    then show ?case using edits.insert [of j "[]" "take j b" "b ! j"] by (simp add: take_Suc_conv_app_nth)
  qed (simp add: edits.empty)
next
  case (2 a b i)
  have "edits k (take k a) []" if "k \<le> length a" for k
    using that
  proof (induction k)
    case (Suc k)
    then show ?case using edits.remove [of k "take k a" "[]" "a ! k"] by (simp add: take_Suc_conv_app_nth)
  qed (simp add: edits.empty)
  from this [OF 2(1)] show ?case by simp
next
  case (3 a b i j)
  have t: "take (Suc i) a = take i a @ [a ! i]" "take (Suc j) b = take j b @ [b ! j]"
    using 3 by (simp_all add: take_Suc_conv_app_nth)
  have "edits (prefix_dist a b i (Suc j) + 1) (take (Suc i) a) (take (Suc j) b)"
    "edits (prefix_dist a b (Suc i) j + 1) (take (Suc i) a) (take (Suc j) b)"
    "edits (prefix_dist a b i j + (if a ! i = b ! j then 0 else 1)) (take (Suc i) a) (take (Suc j) b)"
    using 3 edits.remove [of "prefix_dist a b i (Suc j)" "take i a" "take (Suc j) b" "a ! i"]
      edits.insert [of "prefix_dist a b (Suc i) j" "take (Suc i) a" "take j b" "b ! j"]
      edits.keep [of "prefix_dist a b i j" "take i a" "take j b" "b ! j"]
      edits.replace [of "prefix_dist a b i j" "take i a" "take j b" "a ! i" "b ! j"]
    by (auto simp: t)
  then show ?case by (auto simp: min_def)
qed

lemma prefix_dist_append:
  "\<lbrakk>i \<le> length a; j \<le> length b\<rbrakk> \<Longrightarrow> prefix_dist (a @ u) (b @ v) i j = prefix_dist a b i j"
  by (induction a b i j rule: prefix_dist.induct) (simp_all add: nth_append)

lemma prefix_dist_append1:
  "\<lbrakk>i \<le> length a; j \<le> length b\<rbrakk> \<Longrightarrow> prefix_dist (a @ u) b i j = prefix_dist a b i j"
  "\<lbrakk>i \<le> length a; j \<le> length b\<rbrakk> \<Longrightarrow> prefix_dist a (b @ v) i j = prefix_dist a b i j"
  using prefix_dist_append [of i a j b u "[]"] prefix_dist_append [of i a j b "[]" v] by simp_all

lemma prefix_dist_0: "prefix_dist a b i 0 = i"
  by (cases i) simp_all

lemma edits_lower: "edits n xs ys \<Longrightarrow> prefix_dist xs ys (length xs) (length ys) \<le> n"
proof (induction rule: edits.induct)
  case (remove n xs ys x)
  then show ?case
    by (cases "length ys") (auto simp: prefix_dist_append1 prefix_dist_0 intro: min.coboundedI1)
next
  case (insert n xs ys y)
  then show ?case
    by (cases "length xs") (auto simp: prefix_dist_append1 intro: min.coboundedI1)
qed (auto simp: prefix_dist_append nth_append min_le_iff_disj)

section \<open>The loops fill the matrix\<close>

lemma filled_nth:
  "\<lbrakk>filled a b I J m; i \<le> length a; j \<le> length b; i \<le> I \<or> i = Suc I \<and> j \<le> J \<or> j = 0\<rbrakk>
    \<Longrightarrow> m ! i ! j = prefix_dist a b i j"
  unfolding filled_def by blast

lemma filled_step:
  assumes "filled a b i j m" "i < length a" "j < length b"
  shows "filled a b i (Suc j) (m[Suc i := (m ! Suc i)[Suc j := prefix_dist a b (Suc i) (Suc j)]])"
proof -
  define V where "V = prefix_dist a b (Suc i) (Suc j)"
  have len: "length m = Suc (length a)" "\<forall>i \<le> length a. length (m ! i) = Suc (length b)"
    using assms(1) by (auto simp: filled_def)
  have "m[Suc i := (m ! Suc i)[Suc j := V]] ! p ! q = prefix_dist a b p q"
    if "p \<le> length a" "q \<le> length b" "p \<le> i \<or> p = Suc i \<and> q \<le> Suc j \<or> q = 0" for p q
    using that assms(2,3) len filled_nth [OF assms(1) that(1,2)] V_def
    by (cases "p = Suc i"; cases "q = Suc j") (auto simp del: prefix_dist.simps)
  moreover have "length (m[Suc i := (m ! Suc i)[Suc j := V]] ! p) = Suc (length b)" if "p \<le> length a" for p
    using that len assms(2) by (cases "p = Suc i") auto
  ultimately show ?thesis unfolding filled_def V_def [symmetric] using len(1) by simp
qed

lemma lev_inner_filled:
  assumes "i < length a" "j + length bs = length b" "bs = drop j b" "filled a b i j m"
  shows "filled a b i (length b) (lev_inner (a ! i) bs i j m)"
  using assms
proof (induction "a ! i" bs i j m rule: lev_inner.induct)
  case (1 i j m)
  then show ?case by simp
next
  case (2 b_char bs i j m)
  have j: "j < length b" "b ! j = b_char" "bs = drop (Suc j) b"
    using 2(3) nth_via_drop [OF 2(4) [symmetric]] arg_cong [OF 2(4), of tl] by (simp_all add: drop_Suc tl_drop)
  let ?v = "min (min (m ! i ! (j + 1) + 1) (m ! (i + 1) ! j + 1)) (m ! i ! j + (if a ! i = b_char then 0 else 1))"
  have "m ! i ! (j + 1) = prefix_dist a b i (Suc j)" "m ! (i + 1) ! j = prefix_dist a b (Suc i) j"
    "m ! i ! j = prefix_dist a b i j"
    using filled_nth [OF 2(5), of i "j + 1"] filled_nth [OF 2(5), of "i + 1" j] filled_nth [OF 2(5), of i j] 2(2) j(1)
    by simp_all
  then have "?v = prefix_dist a b (Suc i) (Suc j)" by (simp add: j(2))
  then have "filled a b i (j + 1) (m[i + 1 := (m ! (i + 1))[j + 1 := ?v]])"
    using filled_step [OF 2(5,2) j(1)] by (simp only: Suc_eq_plus1)
  from 2(1) [OF refl refl 2(2) _ _ this] j 2(3) show ?case by (simp add: Let_def)
qed

lemma filled_next: "filled a b i (length b) m \<Longrightarrow> filled a b (Suc i) 0 m"
  by (auto simp: filled_def le_Suc_eq prefix_dist_0)

lemma lev_outer_filled:
  "\<lbrakk>i + length as = length a; as = drop i a; filled a b i 0 m\<rbrakk>
    \<Longrightarrow> filled a b (length a) 0 (lev_outer as b i m)"
proof (induction as arbitrary: i m)
  case (Cons x as)
  have i: "i < length a" "a ! i = x" "as = drop (Suc i) a"
    using Cons.prems(1) nth_via_drop [OF Cons.prems(2) [symmetric]] arg_cong [OF Cons.prems(2), of tl]
    by (simp_all add: drop_Suc tl_drop)
  have "filled a b i (length b) (lev_inner (a ! i) b i 0 m)"
    by (rule lev_inner_filled [OF i(1) _ _ Cons.prems(3)]) simp_all
  from Cons.IH [OF _ i(3) filled_next [OF this]] show ?case using Cons.prems(1) by (simp add: i(2))
qed simp

lemma first_column:
  assumes "R ! 0 = 0"
  defines "step \<equiv> \<lambda>i m. m[i := (m ! i)[0 := i]]"
  shows "n \<le> Suc A \<Longrightarrow> length (fold step [0..<n] (replicate (Suc A) R)) = Suc A
     \<and> (\<forall>i \<le> A. fold step [0..<n] (replicate (Suc A) R) ! i = R[0 := (if i < n then i else 0)])"
proof (induction n)
  case 0
  have "R[0 := 0] = R" using list_update_id [of R 0] assms(1) by simp
  then show ?case by (simp add: nth_replicate less_Suc_eq_le del: replicate.simps)
next
  case (Suc n)
  let ?m = "fold step [0..<n] (replicate (Suc A) R)"
  have "fold step [0..<Suc n] (replicate (Suc A) R) = ?m[n := R[0 := n]]"
    using Suc by (simp add: step_def)
  moreover have "?m[n := R[0 := n]] ! i = R[0 := (if i < Suc n then i else 0)]" if "i \<le> A" for i
    using Suc that by (cases "i = n") (auto simp del: replicate.simps)
  ultimately show ?case using Suc by simp
qed

lemma first_row:
  assumes "length m = Suc A" "length (m ! 0) = Suc B" "m ! 0 ! 0 = 0"
  defines "step \<equiv> \<lambda>j m. m[0 := (m ! 0)[j := j]]"
  shows "n \<le> Suc B \<Longrightarrow> length (fold step [0..<n] m) = Suc A \<and> length (fold step [0..<n] m ! 0) = Suc B
     \<and> (\<forall>j < n. fold step [0..<n] m ! 0 ! j = j) \<and> (\<forall>i. 0 < i \<longrightarrow> fold step [0..<n] m ! i = m ! i)"
proof (induction n)
  case (Suc n)
  let ?m = "fold step [0..<n] m"
  have m: "fold step [0..<Suc n] m = ?m[0 := (?m ! 0)[n := n]]" by (simp add: step_def)
  have 0: "?m[0 := (?m ! 0)[n := n]] ! 0 = (?m ! 0)[n := n]" using Suc by simp
  have "(?m ! 0)[n := n] ! j = j" if "j < Suc n" for j
    using Suc that by (cases "j = n") auto
  then show ?case unfolding m 0 using Suc by simp
qed (use assms(1-3) in simp)

lemma lev_matrix_filled: "filled a b 0 0 (lev_matrix (length a) (length b))"
proof -
  let ?A = "length a" and ?B = "length b"
  let ?m = "fold (\<lambda>i m. m[i := (m ! i)[0 := i]]) [0..<Suc ?A] (replicate (Suc ?A) (replicate (Suc ?B) (0 :: nat)))"
  have m: "length ?m = Suc ?A" "\<forall>i \<le> ?A. ?m ! i = (replicate (Suc ?B) 0)[0 := i]"
    using first_column [of "replicate (Suc ?B) 0" "Suc ?A" ?A] by (auto simp del: upt_Suc replicate.simps)
  let ?n = "fold (\<lambda>j m. m[0 := (m ! 0)[j := j]]) [0..<Suc ?B] ?m"
  have n: "length ?n = Suc ?A" "length (?n ! 0) = Suc ?B" "\<forall>j < Suc ?B. ?n ! 0 ! j = j" "\<forall>i. 0 < i \<longrightarrow> ?n ! i = ?m ! i"
    using first_row [of ?m ?A ?B "Suc ?B"] m by (auto simp del: upt_Suc)
  have "length (?n ! i) = Suc ?B" if "i \<le> ?A" for i
    using that n(2,4) m(2) by (cases i) auto
  moreover have "?n ! i ! j = prefix_dist a b i j" if "i \<le> ?A" "j \<le> ?B" "i = 0 \<or> j = 0" for i j
    using that n(3,4) m(2) by (cases i) (auto simp: prefix_dist_0)
  ultimately show ?thesis using n(1)
    by (auto simp: filled_def lev_matrix_def Let_def simp del: upt_Suc replicate.simps)
qed

section \<open>Suggestions\<close>

lemma best_step_eq:
  "best_step t k c best = (if eligible t k c \<and> (\<forall>s d. best = Some (s, d) \<longrightarrow> levenshtein_distance t c < d)
     then Some (c, levenshtein_distance t c) else best)"
  by (auto simp: best_step_def eligible_def Let_def split: option.split)

text \<open>After a pass: the first of the nearest eligible candidates.\<close>

lemma best_fold:
  "case fold (best_step t k) cs None of
     None \<Rightarrow> \<forall>c \<in> set cs. \<not> eligible t k c
   | Some (s, d) \<Rightarrow> d = levenshtein_distance t s \<and> (\<exists>us vs. cs = us @ s # vs \<and> eligible t k s
       \<and> (\<forall>c \<in> set us. eligible t k c \<longrightarrow> d < levenshtein_distance t c)
       \<and> (\<forall>c \<in> set vs. eligible t k c \<longrightarrow> d \<le> levenshtein_distance t c))"
proof (induction cs rule: rev_induct)
  case (snoc c cs)
  show ?case
  proof (cases "fold (best_step t k) cs None")
    case None
    then have e: "fold (best_step t k) (cs @ [c]) None = (if eligible t k c then Some (c, levenshtein_distance t c) else None)"
      by (simp add: best_step_eq [of t k c])
    show ?thesis
    proof (cases "eligible t k c")
      case True
      show ?thesis unfolding e using True snoc None by simp (rule exI [of _ cs], rule exI [of _ "[]"], simp)
    next
      case False
      show ?thesis unfolding e using False snoc None by simp
    qed
  next
    case (Some sd)
    obtain s d where sd: "sd = (s, d)" by fastforce
    with Some snoc obtain us vs where u: "d = levenshtein_distance t s" "cs = us @ s # vs" "eligible t k s"
      "\<forall>c \<in> set us. eligible t k c \<longrightarrow> d < levenshtein_distance t c" "\<forall>c \<in> set vs. eligible t k c \<longrightarrow> d \<le> levenshtein_distance t c"
      by auto
    show ?thesis
    proof (cases "eligible t k c \<and> levenshtein_distance t c < d")
      case True
      then have "\<forall>x \<in> set cs. eligible t k x \<longrightarrow> levenshtein_distance t c < levenshtein_distance t x"
        using u by fastforce
      moreover have "fold (best_step t k) (cs @ [c]) None = Some (c, levenshtein_distance t c)"
        using True by (simp add: Some sd best_step_eq [of t k c])
      ultimately show ?thesis using True
        by simp (rule exI [of _ cs], rule exI [of _ "[]"], simp)
    next
      case False
      moreover have "fold (best_step t k) (cs @ [c]) None = Some (s, d)"
        using False by (auto simp: Some sd best_step_eq [of t k c])
      ultimately show ?thesis using u
        by simp (rule exI [of _ us], rule exI [of _ "vs @ [c]"], auto)
    qed
  qed
qed simp

text \<open>A suggestion is the first candidate of least distance among those near enough; without one, none is near enough.\<close>

theorem find_similar_best:
  "case find_similar_internal t cs k of
     None \<Rightarrow> \<forall>c \<in> set cs. \<not> eligible t k c
   | Some s \<Rightarrow> \<exists>us vs. cs = us @ s # vs \<and> eligible t k s
       \<and> (\<forall>c \<in> set us. eligible t k c \<longrightarrow> levenshtein_distance t s < levenshtein_distance t c)
       \<and> (\<forall>c \<in> set vs. eligible t k c \<longrightarrow> levenshtein_distance t s \<le> levenshtein_distance t c)"
  using best_fold [where t = t and k = k and cs = cs] by (auto simp: find_similar_internal_def split: option.splits)

section \<open>Integrity\<close>

lemma check_entries:
  "fold (check_entry lib u) rs (m, h, es) = (m', h', es') \<Longrightarrow>
     (m' \<longleftrightarrow> m \<or> has_entry METADATA_FILENAME rs) \<and> (h' \<longleftrightarrow> h \<or> has_entry HEAP_FILENAME rs)
     \<and> (es' = [] \<longleftrightarrow> es = [] \<and> list_all (sound_entry lib u) rs)"
proof (induction rs arbitrary: m h es)
  case (Cons r rs)
  obtain m1 h1 es1 where c: "check_entry lib u r (m, h, es) = (m1, h1, es1)" by (metis prod_cases3)
  have n: "METADATA_FILENAME \<noteq> HEAP_FILENAME" "HEAP_FILENAME = ''heap.bin''" by (simp_all add: sliver_names)
  have "(m1 \<longleftrightarrow> m \<or> has_entry METADATA_FILENAME [r]) \<and> (h1 \<longleftrightarrow> h \<or> has_entry HEAP_FILENAME [r])
     \<and> (es1 = [] \<longleftrightarrow> es = [] \<and> sound_entry lib u r)"
    using c n by (auto simp: check_entry_def has_entry_def sound_entry_def split: sum.splits if_splits option.splits)
  with Cons.IH [of m1 h1 es1] Cons.prems c show ?case by (auto simp: has_entry_def)
qed (auto simp: has_entry_def)

section \<open>Properties\<close>

text \<open>
  C40. The distance the matrix loops compute is the edit distance: some sequence of that many insertions,
  deletions and replacements of characters turns one name into the other, and no shorter one does.
\<close>

theorem levenshtein_is_edit_distance:
  "edits (levenshtein_distance a b) (utf8_chars a) (utf8_chars b)
   \<and> (\<forall>n. edits n (utf8_chars a) (utf8_chars b) \<longrightarrow> levenshtein_distance a b \<le> n)"
proof -
  have "levenshtein_chars x y = prefix_dist x y (length x) (length y)" for x y :: "string list"
  proof -
    have "filled x y (length x) 0 (lev_outer x y 0 (lev_matrix (length x) (length y)))"
      by (rule lev_outer_filled [OF _ _ lev_matrix_filled]) simp_all
    then show ?thesis by (auto simp: levenshtein_chars_def Let_def filled_def prefix_dist_0)
  qed
  then show ?thesis
    using edits_take [of "length (utf8_chars a)" "utf8_chars a" "length (utf8_chars b)" "utf8_chars b"]
      edits_lower [of _ "utf8_chars a" "utf8_chars b"] by (auto simp: levenshtein_distance_def)
qed

theorem levenshtein_is_edit_distance_witness:
  "levenshtein_distance ''kitten'' ''sitting'' = 3 \<and> edits 3 (utf8_chars ''kitten'') (utf8_chars ''sitting'')
   \<and> \<not> edits 2 (utf8_chars ''kitten'') (utf8_chars ''sitting'')"
proof -
  have d: "levenshtein_distance ''kitten'' ''sitting'' = 3" by code_simp
  from levenshtein_is_edit_distance [of "''kitten''" "''sitting''"] d show ?thesis by fastforce
qed

text \<open>
  The integrity check accepts exactly the files that exist, are named with the sliver extension and
  open as an archive in which every entry can be read, no metadata or heap entry is empty, all
  metadata parses, and both a metadata and a heap entry are present.
\<close>

theorem sliver_integrity_exact:
  "validate_sliver_integrity lib utf8_error f = Inr () \<longleftrightarrow>
     sf_exists f \<and> path_extension (sf_path f) = Some ''sliver''
     \<and> (\<exists>d rs. sf_open f = Inr d \<and> lib_entries lib d = Inr rs \<and> list_all (sound_entry lib utf8_error) rs
          \<and> has_entry METADATA_FILENAME rs \<and> has_entry HEAP_FILENAME rs)"
proof -
  have e: "(case fold (check_entry lib utf8_error) rs (False, False, []) of (m, h, es) \<Rightarrow>
      (case es @ (if m then [] else [NoMetadata]) @ (if h then [] else [NoHeap]) of
         x # _ \<Rightarrow> Inl (CorruptedArchive (show_corruption x)) | [] \<Rightarrow> Inr ())) = Inr ()
    \<longleftrightarrow> list_all (sound_entry lib utf8_error) rs \<and> has_entry METADATA_FILENAME rs \<and> has_entry HEAP_FILENAME rs" for rs
    using check_entries [of lib utf8_error rs False False "[]"]
    by (cases "fold (check_entry lib utf8_error) rs (False, False, [])") (auto split: list.split)
  show ?thesis
    by (auto simp: validate_sliver_integrity_def Let_def io_res_def e split: sum.splits)
qed

end
