(* ===== verification/Sliver_Package.thy ===== *)
theory Sliver_Package
  imports Sliver_Format
begin

text \<open>
  Slivers and the host's file system: extracting the files of a sliver into a temporary directory
  (\<^verbatim>\<open>src/src/sliver/extractor.rs\<close>) and packing a directory into a cold sliver (\<^verbatim>\<open>src/src/sliver/packager.rs\<close>).
  The temporary directory is given by its path, as the tempfile library returns it. The files below
  the source directory are the list that the walkdir library yields, with their relative paths.
  Setting permissions can fail and has no other effect in the model.
\<close>

section \<open>Definitions\<close>

subsection \<open>Extraction\<close>

text \<open>\<^verbatim>\<open>Path::parent\<close> of a path that ends in a file name.\<close>

definition parent_path :: "string \<Rightarrow> string" where
  "parent_path p = (case rfind_char (CHR ''/'') p of Some i \<Rightarrow> take i p | None \<Rightarrow> [])"

text \<open>
  The failure of \<^verbatim>\<open>set_permissions\<close> and the number of parents that a failing \<^verbatim>\<open>create_dir_all\<close> leaves in place, next to the
  calls of the disk backend.
\<close>

record extract_env =
  x_env :: disk_env
  x_chmod :: "io_error option"
  x_cwd :: loc
  x_parents :: nat

definition made_parents :: "extract_env \<Rightarrow> host_tree \<Rightarrow> loc \<Rightarrow> host_tree" where
  "made_parents x t l = (case host_create_dir_all t (take (x_parents x) l) of Inr t' \<Rightarrow> t' | Inl _ \<Rightarrow> t)"

definition write_vfs_entry ::
  "extract_env \<Rightarrow> nat \<Rightarrow> string \<Rightarrow> vfs_path \<Rightarrow> vfs_file \<Rightarrow> host_tree \<Rightarrow> unit sliver_result \<times> host_tree" where
  "write_vfs_entry x now temp_dir path file t =
     (let env = x_env x;
          s = as_str path;
          relative_path = (if starts_with s ''/'' then drop 1 s else s);
          file_path = path_join temp_dir relative_path;
          l = locate (x_cwd x) file_path
      in case (if l = [] then Inr t else attempt env CCreateDir (host_create_dir_all t (butlast l))) of
           Inl e \<Rightarrow> (Inl (VfsRestore (parent_path file_path) (''Failed to create directory: '' @ io_text env e)), made_parents x t (butlast l))
         | Inr t1 \<Rightarrow> (case attempt env CCreate (host_create now t1 l) of
           Inl e \<Rightarrow> (Inl (VfsRestore file_path (''Failed to create file: '' @ io_text env e)), t1)
         | Inr t2 \<Rightarrow> (case io_fault env CWrite of
           Some e \<Rightarrow> (Inl (VfsRestore file_path (''Failed to write file content: '' @ io_text env e)),
             host_write now t2 l (take (io_partial env) (content file)))
         | None \<Rightarrow> (let t3 = host_write now t2 l (content file) in
           case x_chmod x of
             Some e \<Rightarrow> (Inl (VfsRestore file_path (''Failed to set file permissions: '' @ io_text env e)), t3)
           | None \<Rightarrow> (Inr (), t3)))))"

fun write_vfs_entries ::
  "extract_env \<Rightarrow> nat \<Rightarrow> string \<Rightarrow> (vfs_path \<times> vfs_file) list \<Rightarrow> host_tree \<Rightarrow> unit sliver_result \<times> host_tree" where
  "write_vfs_entries x now temp_dir [] t = (Inr (), t)"
| "write_vfs_entries x now temp_dir ((path, file) # es) t = (case write_vfs_entry x now temp_dir path file t of
       (Inl e, t') \<Rightarrow> (Inl e, t')
     | (Inr _, t') \<Rightarrow> write_vfs_entries x now temp_dir es t')"

definition vfs_detect_entrypoint :: "(vfs_path \<times> vfs_file) list \<Rightarrow> string" where
  "vfs_detect_entrypoint es =
     (case List.find (\<lambda>c. list_ex (\<lambda>e. as_str (fst e) = c) es) [''index.js'', ''app.js'', ''main.js'', ''server.js''] of
        Some c \<Rightarrow> c | None \<Rightarrow> ''index.js'')"

definition path_is_there :: "extract_env \<Rightarrow> host_tree \<Rightarrow> string \<Rightarrow> bool" where
  "path_is_there x t p = is_ok (attempt (x_env x) CMetadata (host_stat t (locate (x_cwd x) p)))"

record temp_vfs_manager =
  tv_temp_dir :: string
  tv_entrypoint :: string

definition ends_with :: "string \<Rightarrow> string \<Rightarrow> bool" where
  "ends_with s suf = (length suf \<le> length s \<and> drop (length s - length suf) s = suf)"

definition sliver_extract ::
  "extract_env \<Rightarrow> nat \<Rightarrow> string + string \<Rightarrow> unpacked_sliver \<Rightarrow> host_tree \<Rightarrow> temp_vfs_manager sliver_result \<times> host_tree" where
  "sliver_extract x now tempdir u t = (case tempdir of
       Inl e \<Rightarrow> (Inl (VfsRestore ''temp_dir'' (''Failed to create temp directory: '' @ e)), t)
     | Inr temp_dir \<Rightarrow> (case x_chmod x of
         Some e \<Rightarrow> (Inl (VfsRestore temp_dir (''Failed to set temp directory permissions: '' @ io_text (x_env x) e)), t)
       | None \<Rightarrow> (case write_vfs_entries x now temp_dir (u_vfs_entries u) t of
         (Inl e, t') \<Rightarrow> (Inl e, t')
       | (Inr _, t') \<Rightarrow>
           (let entrypoint = vfs_detect_entrypoint (u_vfs_entries u);
                entrypoint_path = path_join temp_dir entrypoint
            in if path_is_there x t' entrypoint_path
               then (Inr \<lparr>tv_temp_dir = temp_dir, tv_entrypoint = entrypoint_path\<rparr>, t')
               else (case List.find (\<lambda>e. ends_with (as_str (fst e)) ''.js'') (u_vfs_entries u) of
                   Some e \<Rightarrow> (Inr \<lparr>tv_temp_dir = temp_dir, tv_entrypoint = path_join temp_dir (as_str (fst e))\<rparr>, t')
                 | None \<Rightarrow> (Inl (VfsRestore entrypoint ''Entrypoint file not found in VFS entries''), t'))))))"

definition temp_verify :: "extract_env \<Rightarrow> host_tree \<Rightarrow> temp_vfs_manager \<Rightarrow> unit sliver_result" where
  "temp_verify x t tv =
     (if \<not> path_is_there x t (tv_temp_dir tv)
      then Inl (VfsRestore (tv_temp_dir tv) ''Temp directory does not exist'')
      else case attempt (x_env x) CMetadata (host_stat t (locate (x_cwd x) (tv_entrypoint tv))) of
          Inl _ \<Rightarrow> Inl (VfsRestore (tv_entrypoint tv) ''Entrypoint file does not exist'')
        | Inr NDir \<Rightarrow> Inl (VfsRestore (tv_entrypoint tv) ''Entrypoint is not a file'')
        | Inr (NFile _ _ _) \<Rightarrow> Inr ())"

subsection \<open>Packing a directory\<close>

definition create_cold_sliver_marker :: "string \<Rightarrow> bytes" where
  "create_cold_sliver_marker entrypoint = str_bytes (''NANO-DIR-v1'' @ [CHR 0x00] @ entrypoint)"

definition dir_detect_entrypoint :: "(string \<Rightarrow> bool) \<Rightarrow> string" where
  "dir_detect_entrypoint exists_in_dir =
     (case List.find exists_in_dir [''index.js'', ''index.mjs'', ''main.js'', ''worker.js'', ''index.html''] of
        Some c \<Rightarrow> c | None \<Rightarrow> ''index.html'')"

text \<open>
  A file that the walk yields: its path below the directory, what reading it gives, and what its metadata
  gives: the times where the platform has them, and the length.
\<close>

record walked_file =
  wf_path :: string
  wf_content :: "string + bytes"
  wf_metadata :: "string + nat option \<times> nat option \<times> nat"

definition skipped :: "string \<Rightarrow> bool" where
  "skipped p = (let name = last (split_on (CHR ''/'') p) in starts_with name ''.'' \<or> ends_with name ''.sliver'')"

fun load_directory_files :: "nat \<Rightarrow> string \<Rightarrow> walked_file list \<Rightarrow> string + (vfs_path \<times> vfs_file) list" where
  "load_directory_files now dir [] = Inr []"
| "load_directory_files now dir (w # ws) =
     (if skipped (wf_path w) then load_directory_files now dir ws
      else case wf_content w of
        Inl e \<Rightarrow> Inl (''Failed to read file: '' @ path_join dir (wf_path w))
      | Inr c \<Rightarrow> (case wf_metadata w of
          Inl e \<Rightarrow> Inl (''Failed to get metadata: '' @ path_join dir (wf_path w))
        | Inr (modified, created, len) \<Rightarrow> (case vfs_path_new (''/'' @ wf_path w) of
          Inl e \<Rightarrow> Inl (''Invalid VFS path: /'' @ wf_path w)
        | Inr p \<Rightarrow> bind_res (load_directory_files now dir ws) (\<lambda>es. Inr
            ((p, \<lparr>content = c, created_at = (case created of Some t \<Rightarrow> t | None \<Rightarrow> now),
                 modified_at = (case modified of Some t \<Rightarrow> t | None \<Rightarrow> now), fsize = len\<rparr>) # es)))))"

text \<open>The host as the packager sees it: the source path, the output path, the walk and the final write.\<close>

record pack_host =
  ph_exists :: "string \<Rightarrow> bool"
  ph_is_dir :: "string \<Rightarrow> bool"
  ph_walk :: "string \<Rightarrow> walked_file list"
  ph_write :: "string \<Rightarrow> string option"
  ph_version :: string

definition sliver_res :: "'a sliver_result \<Rightarrow> (sliver_error \<Rightarrow> string) \<Rightarrow> string + 'a" where
  "sliver_res r show_e = (case r of Inl e \<Rightarrow> Inl (show_e e) | Inr x \<Rightarrow> Inr x)"

definition directory_metadata ::
  "pack_host \<Rightarrow> nat \<Rightarrow> string \<Rightarrow> string \<Rightarrow> string option \<Rightarrow> string option \<Rightarrow> string \<Rightarrow> sliver_metadata" where
  "directory_metadata ph now source_dir name tag h entrypoint =
     (let sliver_hostname = (case h of Some h \<Rightarrow> h | None \<Rightarrow> name);
          sliver_tag = (case tag of Some t \<Rightarrow> t | None \<Rightarrow> ''latest'');
          m = (metadata_new now sliver_hostname (ph_version ph))\<lparr>m_name := Some name,
            m_description := Some (''Created from directory: '' @ source_dir @ '' | Entrypoint: '' @ entrypoint @ '' | Tag: '' @ sliver_tag)\<rparr>
      in metadata_with_custom (metadata_with_custom (metadata_with_custom (metadata_with_custom m
           ''entrypoint'' entrypoint) ''source_dir'' source_dir) ''tag'' sliver_tag) ''sliver_type'' ''directory'')"

text \<open>The result is the output path with the data written to it.\<close>

definition create_sliver_from_directory ::
  "'d sliver_lib \<Rightarrow> pack_host \<Rightarrow> (sliver_error \<Rightarrow> string) \<Rightarrow> nat \<Rightarrow> string \<Rightarrow> string \<Rightarrow> string option \<Rightarrow> string option \<Rightarrow> string option
     \<Rightarrow> string + string \<times> 'd" where
  "create_sliver_from_directory lib ph show_e now source_dir name tag output h =
     (if \<not> ph_exists ph source_dir then Inl (''Source directory does not exist: '' @ source_dir)
      else if \<not> ph_is_dir ph source_dir then Inl (''Source path is not a directory: '' @ source_dir)
      else let output_path = (case output of Some p \<Rightarrow> p | None \<Rightarrow> name @ ''.sliver'') in
      if ph_exists ph output_path
      then Inl (''Sliver file already exists: '' @ output_path @ ''. Use --output to specify a different path.'')
      else let entrypoint = dir_detect_entrypoint (\<lambda>c. ph_exists ph (path_join source_dir c));
               m = directory_metadata ph now source_dir name tag h entrypoint in
        bind_res (sliver_res (add_metadata lib m packer_new) show_e) (\<lambda>pk.
        bind_res (sliver_res (add_heap lib (create_cold_sliver_marker entrypoint) pk) show_e) (\<lambda>pk.
        bind_res (load_directory_files now source_dir (ph_walk ph source_dir)) (\<lambda>es.
        bind_res (sliver_res (if es = [] then Inr pk else add_vfs_entries lib es pk) show_e) (\<lambda>pk.
        bind_res (sliver_res (packer_finalize lib pk) show_e) (\<lambda>data.
        case ph_write ph output_path of
          Some e \<Rightarrow> Inl (''Failed to write sliver to '' @ output_path)
        | None \<Rightarrow> Inr (output_path, data)))))))"

subsection \<open>Specification vocabulary\<close>

definition entry_loc :: "loc \<Rightarrow> string \<Rightarrow> vfs_path \<Rightarrow> loc" where
  "entry_loc cwd dir p = locate cwd dir @ filter (\<lambda>c. c \<noteq> ''.'') (split_on (CHR ''/'') (as_str p))"

definition visible_files :: "walked_file list \<Rightarrow> walked_file list" where
  "visible_files ws = filter (\<lambda>w. \<not> skipped (wf_path w)) ws"

definition sample_extract :: extract_env where
  "sample_extract = \<lparr>x_env = quiet_env, x_chmod = None, x_cwd = [], x_parents = 0\<rparr>"

definition sample_walk :: "walked_file list" where
  "sample_walk = [\<lparr>wf_path = ''index.html'', wf_content = Inr [60], wf_metadata = Inr (Some 1, None, 1)\<rparr>,
     \<lparr>wf_path = ''css/.cache'', wf_content = Inr [0], wf_metadata = Inr (Some 1, None, 1)\<rparr>,
     \<lparr>wf_path = ''css/main.css'', wf_content = Inr [61], wf_metadata = Inr (Some 2, None, 1)\<rparr>]"

definition sample_pack_host :: pack_host where
  "sample_pack_host = \<lparr>ph_exists = (\<lambda>p. p = ''dist''), ph_is_dir = (\<lambda>p. p = ''dist''), ph_walk = (\<lambda>_. sample_walk),
     ph_write = (\<lambda>_. None), ph_version = ''1.0.0''\<rparr>"

section \<open>Extraction\<close>

lemma entry_loc_locate:
  assumes "vfs_path_wf p"
  shows "locate cwd (path_join dir (if starts_with (as_str p) ''/'' then drop 1 (as_str p) else as_str p)) = entry_loc cwd dir p"
proof -
  have s: "as_str p \<noteq> []" "\<not> path_is_absolute (as_str p)" "''..'' \<notin> set (split_on (CHR ''/'') (as_str p))"
    "[] \<notin> set (split_on (CHR ''/'') (as_str p))"
    using assms vfs_path_wf_no_empty [OF assms]
    by (auto simp: vfs_path_wf_def Let_def path_is_absolute_def starts_with_def neq_Nil_conv)
  moreover from s(4) have "filter (\<lambda>c. c \<noteq> [] \<and> c \<noteq> ''.'') (split_on (CHR ''/'') (as_str p))
      = filter (\<lambda>c. c \<noteq> ''.'') (split_on (CHR ''/'') (as_str p))" by (intro filter_cong) auto
  ultimately show ?thesis by (simp add: locate_join walk_plain entry_loc_def path_is_absolute_def)
qed

lemma write_vfs_entry_ok:
  assumes "tree_wf t" "node_at t (locate (x_cwd x) dir) = Some NDir" "vfs_path_wf p"
    "write_vfs_entry x now dir p f t = (Inr (), t')"
  shows "tree_wf t' \<and> node_at t' (locate (x_cwd x) dir) = Some NDir \<and> entry_loc (x_cwd x) dir p \<noteq> locate (x_cwd x) dir
     \<and> file_at t' = (file_at t)(entry_loc (x_cwd x) dir p \<mapsto> content f)"
proof -
  let ?l = "entry_loc (x_cwd x) dir p" and ?D = "locate (x_cwd x) dir"
  obtain t1 t2 where t: "(if ?l = [] then Inr t else attempt (x_env x) CCreateDir (host_create_dir_all t (butlast ?l))) = Inr t1"
    "attempt (x_env x) CCreate (host_create now t1 ?l) = Inr t2" "t' = host_write now t2 ?l (content f)"
    using assms(4) entry_loc_locate [OF assms(3), of "x_cwd x" dir]
    by (auto simp: write_vfs_entry_def Let_def split: sum.splits option.splits if_splits)
  have c: "host_create now t1 ?l = Inr t2" using t(2) by (auto simp: attempt_def split: option.splits)
  then have l: "?l \<noteq> []" by (auto simp: host_create_def)
  then have d: "host_create_dir_all t (butlast ?l) = Inr t1" using t(1) by (auto simp: attempt_def split: option.splits)
  note d = host_create_dir_all_ok [OF assms(1) d]
  obtain a where t2: "t2 = AList.update ?l (NFile [] a now) t1" "tree_wf t2" by (rule host_create_Inr [OF d(1) c])
  have n1: "node_at t1 ?D = Some NDir" using d(4) [of ?D] assms(2) by simp
  have n2: "node_at t2 ?l = Some (NFile [] a now)" "node_at t1 ?l \<noteq> Some NDir"
    using host_create_not_dir [OF c] by (simp_all add: t2(1) node_at_update l)
  then have ne: "?l \<noteq> ?D" using n1 by auto
  have t': "t' = AList.update ?l (NFile (content f) a now) t1"
    using t(3) host_write_file [OF n2(1)] by (simp add: t2(1) update_last)
  then have "tree_wf t'" using tree_wf_update [OF d(1) l] d(3) n2(2) by blast
  moreover have "file_at t' = (file_at t)(?l \<mapsto> content f)" using file_at_update_file [OF l] d(2) by (simp add: t')
  moreover have "node_at t' ?D = Some NDir" using n1 ne l by (simp add: t' node_at_update)
  ultimately show ?thesis using ne by blast
qed

lemma write_vfs_entries_ok:
  "\<lbrakk>tree_wf t; node_at t (locate (x_cwd x) dir) = Some NDir; \<forall>e \<in> set es. vfs_path_wf (fst e);
     write_vfs_entries x now dir es t = (Inr (), t')\<rbrakk>
   \<Longrightarrow> tree_wf t' \<and> (\<forall>l. \<not> strict_prefix (locate (x_cwd x) dir) l \<longrightarrow> file_at t' l = file_at t l)
     \<and> (\<forall>l. l \<notin> (\<lambda>e. entry_loc (x_cwd x) dir (fst e)) ` set es \<longrightarrow> file_at t' l = file_at t l)
     \<and> (distinct (map (\<lambda>e. entry_loc (x_cwd x) dir (fst e)) es) \<longrightarrow>
          (\<forall>e \<in> set es. file_at t' (entry_loc (x_cwd x) dir (fst e)) = Some (content (snd e))))"
proof (induction es arbitrary: t)
  case (Cons e es)
  let ?L = "\<lambda>e. entry_loc (x_cwd x) dir (fst e)" and ?D = "locate (x_cwd x) dir"
  obtain t1 where t1: "write_vfs_entry x now dir (fst e) (snd e) t = (Inr (), t1)" "write_vfs_entries x now dir es t1 = (Inr (), t')"
    using Cons.prems(4) by (cases e) (auto split: prod.splits sum.splits)
  have w: "tree_wf t1" "node_at t1 ?D = Some NDir" "?L e \<noteq> ?D" "file_at t1 = (file_at t)(?L e \<mapsto> content (snd e))"
    using write_vfs_entry_ok [OF Cons.prems(1,2) _ t1(1)] Cons.prems(3) by auto
  have below: "strict_prefix ?D (?L e)" using w(3) by (auto simp: entry_loc_def strict_prefix_def)
  note ih = Cons.IH [OF w(1,2) _ t1(2)]
  then show ?case using Cons.prems(3) w(4) below by (auto split: if_splits)
qed simp

text \<open>The packer's calls composed by hand are \<open>pack_sliver\<close>.\<close>

lemma create_sliver_packs:
  assumes "create_sliver_from_directory lib ph show_e now source_dir name tag output h = Inr (out, d)"
  defines "e \<equiv> dir_detect_entrypoint (\<lambda>c. ph_exists ph (path_join source_dir c))"
  shows "\<exists>es. load_directory_files now source_dir (ph_walk ph source_dir) = Inr es
     \<and> pack_sliver lib (directory_metadata ph now source_dir name tag h e) (create_cold_sliver_marker e) (Some es) = Inr d"
proof -
  have s: "sliver_res r show_e = Inr y \<longleftrightarrow> r = Inr y" for r :: "'b sliver_result" and y
    by (cases r) (auto simp: sliver_res_def)
  have s': "sliver_res r show_e = Inr y \<longleftrightarrow> r = Inr y" for r :: "'a sliver_result" and y
    by (cases r) (auto simp: sliver_res_def)
  have v: "(if es = [] then Inr pk else add_vfs_entries lib es pk) = add_vfs_entries lib es pk" for es pk by simp
  obtain pk1 pk2 es pk3 where "add_metadata lib (directory_metadata ph now source_dir name tag h e) packer_new = Inr pk1"
    "add_heap lib (create_cold_sliver_marker e) pk1 = Inr pk2" "load_directory_files now source_dir (ph_walk ph source_dir) = Inr es"
    "add_vfs_entries lib es pk2 = Inr pk3" "packer_finalize lib pk3 = Inr d"
    using assms(1) unfolding e_def create_sliver_from_directory_def Let_def
    by (auto simp: bind_res_Inr s s' v split: if_split_asm option.splits)
  then show ?thesis by (simp add: pack_sliver_def)
qed

lemma create_sliver_ok:
  assumes "ph_exists ph source_dir" "ph_is_dir ph source_dir" "\<not> ph_exists ph (name @ ''.sliver'')"
    "dir_detect_entrypoint (\<lambda>c. ph_exists ph (path_join source_dir c)) = e"
    "add_metadata lib (directory_metadata ph now source_dir name tag h e) packer_new = Inr pk1"
    "add_heap lib (create_cold_sliver_marker e) pk1 = Inr pk2" "load_directory_files now source_dir (ph_walk ph source_dir) = Inr es"
    "add_vfs_entries lib es pk2 = Inr pk3" "packer_finalize lib pk3 = Inr d" "ph_write ph (name @ ''.sliver'') = None"
  shows "create_sliver_from_directory lib ph show_e now source_dir name tag None h = Inr (name @ ''.sliver'', d)"
proof -
  have "(if es = [] then Inr pk2 else add_vfs_entries lib es pk2) = Inr pk3" using assms(8) by (cases es) simp_all
  then show ?thesis using assms by (simp add: create_sliver_from_directory_def Let_def sliver_res_def)
qed

lemma load_directory_files_visible:
  "load_directory_files now dir ws = Inr es \<Longrightarrow> list_all2 (\<lambda>w e. vfs_path_new (''/'' @ wf_path w) = Inr (fst e)
     \<and> wf_content w = Inr (content (snd e))) (visible_files ws) es"
  by (induction ws arbitrary: es) (auto simp: visible_files_def bind_res_Inr split: if_splits sum.splits)

lemma new_path_no_dot:
  assumes "vfs_path_new (''/'' @ q) = Inr p" "''.'' \<notin> set (split_on (CHR ''/'') q)"
  shows "vfs_path_wf p \<and> ''.'' \<notin> set (split_on (CHR ''/'') (as_str p))"
  using assms split_normalize [of "''/'' @ q"] vfs_path_new_wf_rule [OF assms(1)]
  by (auto simp: vfs_path_new_Inr segments_def split: if_splits)

lemma load_directory_paths:
  "\<lbrakk>load_directory_files now dir ws = Inr es; \<forall>w \<in> set ws. ''.'' \<notin> set (split_on (CHR ''/'') (wf_path w))\<rbrakk>
   \<Longrightarrow> \<forall>e \<in> set es. vfs_path_wf (fst e) \<and> ''.'' \<notin> set (split_on (CHR ''/'') (as_str (fst e)))"
proof (induction ws arbitrary: es)
  case (Cons w ws)
  show ?case
  proof (cases "skipped (wf_path w)")
    case False
    then obtain c p fs where "vfs_path_new (''/'' @ wf_path w) = Inr p" "load_directory_files now dir ws = Inr fs" "set es = insert (p, c) (set fs)"
      using Cons.prems(1) by (auto simp: bind_res_Inr split: sum.splits)
    with Cons.IH [of fs] Cons.prems(2) new_path_no_dot [of "wf_path w" p] show ?thesis by auto
  qed (use Cons in simp)
qed simp

section \<open>Properties\<close>

text \<open>
  C39. Extraction stays in the temporary directory: whatever paths the archive has, when it succeeds no
  file outside changes, and when the entries lead to distinct locations each holds its contents.
\<close>

theorem sliver_extract_confined:
  assumes "tree_wf t" "node_at t (locate (x_cwd x) dir) = Some NDir" "\<forall>e \<in> set (u_vfs_entries u). vfs_path_wf (fst e)"
    "sliver_extract x now (Inr dir) u t = (Inr tv, t')"
  shows "tv_temp_dir tv = dir \<and> tree_wf t'
     \<and> (\<forall>l. \<not> strict_prefix (locate (x_cwd x) dir) l \<longrightarrow> file_at t' l = file_at t l)
     \<and> (distinct (map (\<lambda>e. entry_loc (x_cwd x) dir (fst e)) (u_vfs_entries u)) \<longrightarrow>
          (\<forall>e \<in> set (u_vfs_entries u). file_at t' (entry_loc (x_cwd x) dir (fst e)) = Some (content (snd e))))"
proof -
  have "write_vfs_entries x now dir (u_vfs_entries u) t = (Inr (), t')" "tv_temp_dir tv = dir"
    using assms(4) by (auto simp: sliver_extract_def Let_def split: option.splits prod.splits sum.splits if_splits)
  then show ?thesis using write_vfs_entries_ok [OF assms(1-3), of now t'] by simp
qed

theorem sliver_extract_confined_witness:
  "\<exists>tv t'. sliver_extract sample_extract 9 (Inr ''/tmp'') \<lparr>u_metadata = sample_meta, u_heap_data = [1], u_vfs_entries = sample_files\<rparr>
       [([''tmp''], NDir), ([''index.js''], NFile [7] 1 1)] = (Inr tv, t')
     \<and> file_at t' [''tmp'', ''index.js''] = Some [1, 2] \<and> file_at t' [''index.js''] = Some [7]"
proof -
  let ?t = "[([''tmp''], NDir), ([''index.js''], NFile [7] 1 1)] :: host_tree"
  let ?u = "\<lparr>u_metadata = sample_meta, u_heap_data = [1], u_vfs_entries = sample_files\<rparr>"
  let ?r = "sliver_extract sample_extract 9 (Inr ''/tmp'') ?u ?t"
  have "is_ok (fst ?r)" by code_simp
  then obtain tv t' where r: "?r = (Inr tv, t')" by (metis is_ok_iff prod.collapse)
  have t: "tree_wf ?t" "node_at ?t (locate (x_cwd sample_extract) ''/tmp'') = Some NDir"
    "\<forall>e \<in> set (u_vfs_entries ?u). vfs_path_wf (fst e)" by code_simp+
  have d: "distinct (map (\<lambda>e. entry_loc (x_cwd sample_extract) ''/tmp'' (fst e)) (u_vfs_entries ?u))" by code_simp
  have e: "(VfsPath ''index.js'', vfs_file_new 3 [1, 2]) \<in> set (u_vfs_entries ?u)"
    "entry_loc (x_cwd sample_extract) ''/tmp'' (VfsPath ''index.js'') = [''tmp'', ''index.js'']"
    "content (vfs_file_new 3 [1, 2]) = [1, 2]" by code_simp+
  have o: "\<not> strict_prefix (locate (x_cwd sample_extract) ''/tmp'') [''index.js'']" "file_at ?t [''index.js''] = Some [7]"
    by code_simp+
  from sliver_extract_confined [OF t r] d e o
  have "file_at t' [''tmp'', ''index.js''] = Some [1, 2]" "file_at t' [''index.js''] = Some [7]" by (force, simp)
  then show ?thesis using r by blast
qed

text \<open>
  A directory packed into a cold sliver unpacks to its visible files, in the order of the walk, with
  their contents; the heap is the marker followed by the entry point, which the metadata names too.
\<close>

theorem directory_sliver_contents:
  assumes "sliver_codec lib" "create_sliver_from_directory lib ph show_e now source_dir name tag output h = Inr (out, d)"
    "\<forall>w \<in> set (ph_walk ph source_dir). ''.'' \<notin> set (split_on (CHR ''/'') (wf_path w))"
  shows "\<exists>u e. sliver_unpack lib now' d = Inr u \<and> e = dir_detect_entrypoint (\<lambda>c. ph_exists ph (path_join source_dir c))
     \<and> u_heap_data u = create_cold_sliver_marker e \<and> map_of (m_custom (u_metadata u)) ''entrypoint'' = Some e
     \<and> list_all2 (\<lambda>w f. vfs_path_new (''/'' @ wf_path w) = Inr (fst f) \<and> wf_content w = Inr (content (snd f)))
          (visible_files (ph_walk ph source_dir)) (u_vfs_entries u)"
proof -
  let ?e = "dir_detect_entrypoint (\<lambda>c. ph_exists ph (path_join source_dir c))"
  let ?m = "directory_metadata ph now source_dir name tag h ?e"
  obtain es where es: "load_directory_files now source_dir (ph_walk ph source_dir) = Inr es"
    "pack_sliver lib ?m (create_cold_sliver_marker ?e) (Some es) = Inr d" using create_sliver_packs [OF assms(2)] by blast
  have m: "m_format_version ?m = FORMAT_VERSION" "map_of (m_custom ?m) ''entrypoint'' = Some ?e"
    by (simp_all add: directory_metadata_def Let_def metadata_with_custom_def metadata_new_def)
  have v: "list_all2 (\<lambda>w f. vfs_path_new (''/'' @ wf_path w) = Inr (fst f) \<and> wf_content w = Inr (content (snd f)))
      (visible_files (ph_walk ph source_dir)) (map (\<lambda>(p, f). (p, stamped now' f)) es)"
    using load_directory_files_visible [OF es(1)] by (auto simp: list_all2_conv_all_nth case_prod_beta stamped_def)
  from sliver_codec.unpack_packed(1) [OF assms(1) load_directory_paths [OF es(1) assms(3)] es(2) m(1), of now'] m(2) v
  show ?thesis by auto
qed

theorem directory_sliver_contents_witness:
  "let lib = plain_lib (directory_metadata sample_pack_host 5 ''dist'' ''site'' None None ''index.html'')
   in \<exists>d u. create_sliver_from_directory lib sample_pack_host (\<lambda>_. ''error'') 5 ''dist'' ''site'' None None None = Inr (''site.sliver'', d)
     \<and> sliver_unpack lib 6 d = Inr u \<and> u_heap_data u = create_cold_sliver_marker ''index.html'' \<and> length (u_vfs_entries u) = 2"
proof -
  let ?m = "directory_metadata sample_pack_host 5 ''dist'' ''site'' None None ''index.html''"
  let ?c = "create_sliver_from_directory (plain_lib ?m) sample_pack_host (\<lambda>_. ''error'') 5 ''dist'' ''site'' None None None"
  have e: "dir_detect_entrypoint (\<lambda>c. ph_exists sample_pack_host (path_join ''dist'' c)) = ''index.html''" by code_simp
  have "is_ok (load_directory_files 5 ''dist'' sample_walk)" by code_simp
  then obtain es where es: "load_directory_files 5 ''dist'' (ph_walk sample_pack_host ''dist'') = Inr es"
    by (auto simp: is_ok_iff sample_pack_host_def)
  have h: "ph_exists sample_pack_host ''dist''" "ph_is_dir sample_pack_host ''dist''"
    "\<not> ph_exists sample_pack_host ''site.sliver''" "ph_write sample_pack_host ''site.sliver'' = None"
    by (simp_all add: sample_pack_host_def)
  have v: "\<exists>pk'. add_vfs_entries (plain_lib ?m) es pk = Inr pk'" for pk
    by (induction "plain_lib ?m" es pk rule: add_vfs_entries.induct)
      (simp_all add: add_vfs_entry_def tar_append_def plain_lib_def Let_def)
  have p: "\<exists>pk. add_metadata (plain_lib ?m) ?m packer_new = Inr pk"
    "\<exists>pk'. add_heap (plain_lib ?m) c pk = Inr pk'" "\<exists>d. packer_finalize (plain_lib ?m) pk = Inr d" for c pk
    by (simp_all add: add_metadata_def add_heap_def packer_finalize_def add_manifest_def tar_append_def plain_lib_def)
  obtain pk1 where 1: "add_metadata (plain_lib ?m) ?m packer_new = Inr pk1" using p(1) by blast
  obtain pk2 where 2: "add_heap (plain_lib ?m) (create_cold_sliver_marker ''index.html'') pk1 = Inr pk2" using p(2) by blast
  obtain pk3 where 3: "add_vfs_entries (plain_lib ?m) es pk2 = Inr pk3" using v by blast
  obtain d where 4: "packer_finalize (plain_lib ?m) pk3 = Inr d" using p(3) by blast
  have d: "?c = Inr (''site'' @ ''.sliver'', d)"
    by (rule create_sliver_ok [OF h(1,2) _ e 1 2 es 3 4]) (simp_all add: h)
  have w: "\<forall>w \<in> set (ph_walk sample_pack_host ''dist''). ''.'' \<notin> set (split_on (CHR ''/'') (wf_path w))"
    "length (visible_files (ph_walk sample_pack_host ''dist'')) = 2" by code_simp+
  have "\<exists>u. sliver_unpack (plain_lib ?m) 6 d = Inr u \<and> u_heap_data u = create_cold_sliver_marker ''index.html''
      \<and> length (visible_files (ph_walk sample_pack_host ''dist'')) = length (u_vfs_entries u)"
    using directory_sliver_contents [OF plain.sliver_codec_axioms d w(1), of 6] unfolding e
    by (blast dest: list_all2_lengthD)
  then obtain u where "sliver_unpack (plain_lib ?m) 6 d = Inr u" "u_heap_data u = create_cold_sliver_marker ''index.html''"
    "length (u_vfs_entries u) = 2" unfolding w(2) by auto
  with d show ?thesis unfolding Let_def by auto
qed

end
