(* ===== verification/Worker_Eviction.thy ===== *)
theory Worker_Eviction
  imports Nano_Prelude "HOL-Library.Multiset"
begin

text \<open>
  Isolate eviction (\<^verbatim>\<open>src/src/worker/eviction.rs\<close>) with the pressure levels of
  \<^verbatim>\<open>src/src/worker/memory_monitor.rs\<close>. The manager keeps two hash maps, the metadata and the
  eviction state of each isolate; \<open>ev_inv\<close> says they have the same keys. Instants are
  nanoseconds, passed as \<open>now\<close>; the hash that drives the random policy is the argument \<open>rank\<close>.
  An isolate is \<open>Active\<close>, \<open>Draining\<close> or \<open>Evicted\<close>: the step relation \<open>state_step\<close> is the
  contract of that state machine and every operation of the manager refines it.
\<close>

section \<open>Definitions\<close>

subsection \<open>Pressure levels\<close>

datatype memory_pressure_level = Normal | Warning | Critical | Emergency

definition requires_eviction :: "memory_pressure_level \<Rightarrow> bool" where
  "requires_eviction l = (l = Critical \<or> l = Emergency)"

definition requires_hard_eviction :: "memory_pressure_level \<Rightarrow> bool" where
  "requires_hard_eviction l = (l = Emergency)"

definition level_description :: "memory_pressure_level \<Rightarrow> string" where
  "level_description l = (case l of
       Normal \<Rightarrow> ''Normal memory usage''
     | Warning \<Rightarrow> ''Elevated memory usage - monitoring''
     | Critical \<Rightarrow> ''Critical memory pressure - soft eviction''
     | Emergency \<Rightarrow> ''Emergency memory pressure - hard eviction'')"

subsection \<open>Isolates\<close>

type_synonym isolate_id = string

datatype eviction_policy = Lru | Lfu | Random | LargestFirst

definition policy_description :: "eviction_policy \<Rightarrow> string" where
  "policy_description p = (case p of
       Lru \<Rightarrow> ''Least Recently Used'' | Lfu \<Rightarrow> ''Least Frequently Used''
     | Random \<Rightarrow> ''Random Selection'' | LargestFirst \<Rightarrow> ''Largest Memory First'')"

record isolate_metadata =
  im_hostname :: string
  im_worker_id :: u32
  last_used :: nat
  use_count :: u64
  memory_footprint :: usize
  is_stateless :: bool
  im_active_requests :: nat
  im_created_at :: nat

definition metadata_new :: "nat \<Rightarrow> string \<Rightarrow> u32 \<Rightarrow> isolate_metadata" where
  "metadata_new now h w = \<lparr>im_hostname = h, im_worker_id = w, last_used = now, use_count = 0,
     memory_footprint = 0, is_stateless = True, im_active_requests = 0, im_created_at = now\<rparr>"

definition meta_record_usage :: "nat \<Rightarrow> isolate_metadata \<Rightarrow> isolate_metadata" where
  "meta_record_usage now m = m\<lparr>last_used := now, use_count := use_count m + 1\<rparr>"

definition update_memory :: "usize \<Rightarrow> isolate_metadata \<Rightarrow> isolate_metadata" where
  "update_memory b m = m\<lparr>memory_footprint := b\<rparr>"

definition mark_stateful :: "isolate_metadata \<Rightarrow> isolate_metadata" where
  "mark_stateful m = m\<lparr>is_stateless := False\<rparr>"

definition mark_stateless :: "isolate_metadata \<Rightarrow> isolate_metadata" where
  "mark_stateless m = m\<lparr>is_stateless := True\<rparr>"

definition increment_active :: "isolate_metadata \<Rightarrow> isolate_metadata" where
  "increment_active m = m\<lparr>im_active_requests := im_active_requests m + 1\<rparr>"

definition decrement_active :: "isolate_metadata \<Rightarrow> isolate_metadata" where
  "decrement_active m = (if im_active_requests m > 0
     then m\<lparr>im_active_requests := im_active_requests m - 1\<rparr> else m)"

definition is_idle :: "isolate_metadata \<Rightarrow> bool" where
  "is_idle m = (im_active_requests m = 0)"

text \<open>\<^verbatim>\<open>Instant::elapsed\<close> saturates at zero.\<close>

definition idle_duration :: "nat \<Rightarrow> isolate_metadata \<Rightarrow> nat" where
  "idle_duration now m = now - last_used m"

definition age_formatted :: "nat \<Rightarrow> isolate_metadata \<Rightarrow> string" where
  "age_formatted now m = (let secs = (now - im_created_at m) div 1000000000 in
     if secs < 60 then show_nat secs @ ''s''
     else if secs < 3600 then show_nat (secs div 60) @ ''m '' @ show_nat (secs mod 60) @ ''s''
     else show_nat (secs div 3600) @ ''h '' @ show_nat ((secs mod 3600) div 60) @ ''m'')"

datatype eviction_action =
  Allow | Throttle | SoftEvict "isolate_id list" | HardEvict "isolate_id list"

definition is_eviction :: "eviction_action \<Rightarrow> bool" where
  "is_eviction a = (case a of SoftEvict _ \<Rightarrow> True | HardEvict _ \<Rightarrow> True | _ \<Rightarrow> False)"

definition is_hard :: "eviction_action \<Rightarrow> bool" where
  "is_hard a = (case a of HardEvict _ \<Rightarrow> True | _ \<Rightarrow> False)"

definition action_eviction_count :: "eviction_action \<Rightarrow> nat" where
  "action_eviction_count a = (case a of SoftEvict ids \<Rightarrow> length ids | HardEvict ids \<Rightarrow> length ids | _ \<Rightarrow> 0)"

definition eviction_ids :: "eviction_action \<Rightarrow> isolate_id list option" where
  "eviction_ids a = (case a of SoftEvict ids \<Rightarrow> Some ids | HardEvict ids \<Rightarrow> Some ids | _ \<Rightarrow> None)"

datatype isolate_eviction_state = Active | Draining nat | Evicted

definition is_draining_state :: "isolate_eviction_state \<Rightarrow> bool" where
  "is_draining_state s = (case s of Draining _ \<Rightarrow> True | _ \<Rightarrow> False)"

record eviction_config =
  policy :: eviction_policy
  target_eviction_count :: nat
  cooldown_secs :: nat
  prefer_stateless :: bool
  min_idle_secs :: nat

definition default_eviction_config :: eviction_config where
  "default_eviction_config = \<lparr>policy = Lru, target_eviction_count = 1, cooldown_secs = 5,
     prefer_stateless = True, min_idle_secs = 0\<rparr>"

subsection \<open>The manager\<close>

record eviction_manager =
  ev_config :: eviction_config
  isolates :: "(isolate_id \<times> isolate_metadata) list"
  eviction_states :: "(isolate_id \<times> isolate_eviction_state) list"
  total_memory :: usize
  evictions_total :: usize
  last_eviction :: "nat option"

definition manager_with_config :: "eviction_config \<Rightarrow> eviction_manager" where
  "manager_with_config c = \<lparr>ev_config = c, isolates = [], eviction_states = [], total_memory = 0,
     evictions_total = 0, last_eviction = None\<rparr>"

definition manager_new :: eviction_manager where
  "manager_new = manager_with_config default_eviction_config"

definition register_isolate :: "isolate_id \<Rightarrow> isolate_metadata \<Rightarrow> eviction_manager \<Rightarrow> eviction_manager" where
  "register_isolate i m em = em\<lparr>isolates := AList.update i m (isolates em),
     eviction_states := AList.update i Active (eviction_states em)\<rparr>"

definition unregister_isolate :: "isolate_id \<Rightarrow> eviction_manager \<Rightarrow> eviction_manager" where
  "unregister_isolate i em = em\<lparr>isolates := AList.delete i (isolates em),
     eviction_states := AList.delete i (eviction_states em)\<rparr>"

definition record_usage :: "nat \<Rightarrow> isolate_id \<Rightarrow> usize \<Rightarrow> eviction_manager \<Rightarrow> eviction_manager" where
  "record_usage now i memory_bytes em = (case map_of (isolates em) i of
       None \<Rightarrow> em
     | Some meta \<Rightarrow>
         let isos = AList.update i (update_memory memory_bytes (meta_record_usage now meta)) (isolates em)
         in em\<lparr>isolates := isos, total_memory := sum_list (map (memory_footprint \<circ> snd) isos)\<rparr>)"

definition mark_active :: "isolate_id \<Rightarrow> eviction_manager \<Rightarrow> eviction_manager" where
  "mark_active i em = (case map_of (isolates em) i of
       None \<Rightarrow> em
     | Some meta \<Rightarrow> em\<lparr>isolates := AList.update i (increment_active meta) (isolates em)\<rparr>)"

definition check_draining_complete :: "isolate_id \<Rightarrow> eviction_manager \<Rightarrow> eviction_manager" where
  "check_draining_complete i em = (case map_of (isolates em) i of
       None \<Rightarrow> em
     | Some meta \<Rightarrow>
         if is_idle meta then (case map_of (eviction_states em) i of
             Some (Draining _) \<Rightarrow> em\<lparr>eviction_states := AList.update i Evicted (eviction_states em),
               evictions_total := evictions_total em + 1\<rparr>
           | _ \<Rightarrow> em)
         else em)"

definition mark_complete :: "isolate_id \<Rightarrow> eviction_manager \<Rightarrow> eviction_manager" where
  "mark_complete i em =
     (let em1 = (case map_of (isolates em) i of
            None \<Rightarrow> em
          | Some meta \<Rightarrow> em\<lparr>isolates := AList.update i (decrement_active meta) (isolates em)\<rparr>)
      in check_draining_complete i em1)"

definition is_draining :: "eviction_manager \<Rightarrow> isolate_id \<Rightarrow> bool" where
  "is_draining em i = (case map_of (eviction_states em) i of Some (Draining _) \<Rightarrow> True | _ \<Rightarrow> False)"

definition is_evicted :: "eviction_manager \<Rightarrow> isolate_id \<Rightarrow> bool" where
  "is_evicted em i = (map_of (eviction_states em) i = Some Evicted)"

definition can_accept_requests :: "eviction_manager \<Rightarrow> isolate_id \<Rightarrow> bool" where
  "can_accept_requests em i = (map_of (eviction_states em) i = Some Active)"

definition victim_ok :: "nat \<Rightarrow> bool \<Rightarrow> eviction_manager \<Rightarrow> isolate_id \<times> isolate_metadata \<Rightarrow> bool" where
  "victim_ok now stateless_only em im = (let (i, meta) = im in
     (case map_of (eviction_states em) i of Some s \<Rightarrow> s = Active | None \<Rightarrow> True)
     \<and> is_idle meta
     \<and> \<not> idle_duration now meta < min_idle_secs (ev_config em) * 1000000000
     \<and> \<not> (stateless_only \<and> prefer_stateless (ev_config em) \<and> \<not> is_stateless meta))"

text \<open>The sort key of each policy; \<^verbatim>\<open>sort_by_key\<close> is stable.\<close>

definition victim_key :: "(isolate_id \<Rightarrow> u64) \<Rightarrow> eviction_policy \<Rightarrow> isolate_id \<times> isolate_metadata \<Rightarrow> int" where
  "victim_key rank p im = (case p of
       Lru \<Rightarrow> int (last_used (snd im))
     | Lfu \<Rightarrow> uint (use_count (snd im))
     | LargestFirst \<Rightarrow> - uint (memory_footprint (snd im))
     | Random \<Rightarrow> uint (rank (fst im)))"

definition select_victims ::
  "(isolate_id \<Rightarrow> u64) \<Rightarrow> nat \<Rightarrow> nat \<Rightarrow> bool \<Rightarrow> eviction_manager \<Rightarrow> isolate_id list" where
  "select_victims rank now n stateless_only em =
     (let candidates = filter (victim_ok now stateless_only em) (isolates em) in
      if candidates = [] then []
      else map fst (take n (sort_key (victim_key rank (policy (ev_config em))) candidates)))"

definition evaluate_pressure ::
  "(isolate_id \<Rightarrow> u64) \<Rightarrow> nat \<Rightarrow> memory_pressure_level \<Rightarrow> eviction_manager \<Rightarrow> eviction_action" where
  "evaluate_pressure rank now level em =
     (let in_cooldown = (case last_eviction em of
            Some t \<Rightarrow> (now - t) div 1000000000 < cooldown_secs (ev_config em) | None \<Rightarrow> False)
      in if in_cooldown then if requires_eviction level then Throttle else Allow
      else case level of
          Normal \<Rightarrow> Allow
        | Warning \<Rightarrow> Throttle
        | Critical \<Rightarrow>
            let victims = select_victims rank now (target_eviction_count (ev_config em)) True em
            in if victims = [] then Throttle else SoftEvict victims
        | Emergency \<Rightarrow>
            let victims = select_victims rank now (target_eviction_count (ev_config em) * 2) False em
            in if victims = [] then SoftEvict [] else HardEvict victims)"

definition initiate_soft_eviction :: "nat \<Rightarrow> isolate_id \<Rightarrow> eviction_manager \<Rightarrow> bool \<times> eviction_manager" where
  "initiate_soft_eviction now i em = (case map_of (isolates em) i of
       None \<Rightarrow> (False, em)
     | Some meta \<Rightarrow> (case map_of (eviction_states em) i of
           Some Active \<Rightarrow> (True, em\<lparr>eviction_states :=
               AList.update i (Draining (im_active_requests meta)) (eviction_states em),
               last_eviction := Some now\<rparr>)
         | _ \<Rightarrow> (False, em)))"

definition complete_soft_eviction :: "isolate_id \<Rightarrow> eviction_manager \<Rightarrow> bool \<times> eviction_manager" where
  "complete_soft_eviction i em = (case map_of (eviction_states em) i of
       Some (Draining _) \<Rightarrow> (True, em\<lparr>eviction_states := AList.update i Evicted (eviction_states em),
          evictions_total := evictions_total em + 1\<rparr>)
     | _ \<Rightarrow> (False, em))"

definition hard_evict :: "nat \<Rightarrow> isolate_id \<Rightarrow> eviction_manager \<Rightarrow> eviction_manager" where
  "hard_evict now i em = (case map_of (eviction_states em) i of
       Some _ \<Rightarrow> em\<lparr>eviction_states := AList.update i Evicted (eviction_states em),
          evictions_total := evictions_total em + 1, last_eviction := Some now\<rparr>
     | None \<Rightarrow> em)"

definition reactivate_isolate ::
  "isolate_id \<Rightarrow> isolate_metadata \<Rightarrow> eviction_manager \<Rightarrow> eviction_manager" where
  "reactivate_isolate i m em = em\<lparr>isolates := AList.update i m (isolates em),
     eviction_states := AList.update i Active (eviction_states em)\<rparr>"

definition isolate_count :: "eviction_manager \<Rightarrow> nat" where
  "isolate_count em = length (isolates em)"

definition state_counts :: "eviction_manager \<Rightarrow> nat \<times> nat \<times> nat" where
  "state_counts em = (let ss = map snd (eviction_states em) in
     (length (filter (\<lambda>s. s = Active) ss), length (filter is_draining_state ss),
      length (filter (\<lambda>s. s = Evicted) ss)))"

definition manager_clear :: "eviction_manager \<Rightarrow> eviction_manager" where
  "manager_clear em = em\<lparr>isolates := [], eviction_states := [], total_memory := 0\<rparr>"

subsection \<open>The state machine\<close>

datatype ev_op =
    Register isolate_id isolate_metadata
  | Unregister isolate_id
  | RecordUsage nat isolate_id usize
  | MarkActive isolate_id
  | MarkComplete isolate_id
  | InitiateSoft nat isolate_id
  | CompleteSoft isolate_id
  | HardEvictOp nat isolate_id
  | Reactivate isolate_id isolate_metadata
  | Clear

definition ev_step :: "ev_op \<Rightarrow> eviction_manager \<Rightarrow> eviction_manager" where
  "ev_step x em = (case x of
       Register i m \<Rightarrow> register_isolate i m em
     | Unregister i \<Rightarrow> unregister_isolate i em
     | RecordUsage now i b \<Rightarrow> record_usage now i b em
     | MarkActive i \<Rightarrow> mark_active i em
     | MarkComplete i \<Rightarrow> mark_complete i em
     | InitiateSoft now i \<Rightarrow> snd (initiate_soft_eviction now i em)
     | CompleteSoft i \<Rightarrow> snd (complete_soft_eviction i em)
     | HardEvictOp now i \<Rightarrow> hard_evict now i em
     | Reactivate i m \<Rightarrow> reactivate_isolate i m em
     | Clear \<Rightarrow> manager_clear em)"

text \<open>
  The contract for one isolate: \<open>state_step i x s s'\<close> holds when operation \<open>x\<close> may take the
  isolate \<open>i\<close> from state \<open>s\<close> to \<open>s'\<close> (\<open>None\<close> for an isolate that is not registered).
\<close>

inductive state_step ::
  "isolate_id \<Rightarrow> ev_op \<Rightarrow> isolate_eviction_state option \<Rightarrow> isolate_eviction_state option \<Rightarrow> bool"
  for i where
  keep: "state_step i x s s"
| activate: "x \<in> {Register i m, Reactivate i m} \<Longrightarrow> state_step i x s (Some Active)"
| remove: "x \<in> {Unregister i, Clear} \<Longrightarrow> state_step i x s None"
| drain: "state_step i (InitiateSoft now i) (Some Active) (Some (Draining n))"
| finish: "x \<in> {MarkComplete i, CompleteSoft i} \<Longrightarrow> state_step i x (Some (Draining n)) (Some Evicted)"
| kill: "state_step i (HardEvictOp now i) (Some s) (Some Evicted)"

definition reintroduces :: "isolate_id \<Rightarrow> ev_op \<Rightarrow> bool" where
  "reintroduces i x = (case x of Register j _ \<Rightarrow> j = i | Reactivate j _ \<Rightarrow> j = i | _ \<Rightarrow> False)"

definition ev_inv :: "eviction_manager \<Rightarrow> bool" where
  "ev_inv em = (distinct (map fst (isolates em)) \<and> distinct (map fst (eviction_states em))
     \<and> fst ` set (isolates em) = fst ` set (eviction_states em))"

text \<open>A manager with three isolates, one of them busy, for the witnesses.\<close>

definition sample_manager :: eviction_manager where
  "sample_manager = fold ev_step
     [Register ''a'' (metadata_new 3 ''h'' 0), Register ''b'' (metadata_new 1 ''h'' 1),
      Register ''c'' (metadata_new 2 ''h'' 2), MarkActive ''c''] manager_new"

section \<open>The invariant\<close>

lemma keys_update: "fst ` set (AList.update k v m) = insert k (fst ` set m)"
  by (induction m) auto

lemma keys_delete: "fst ` set (AList.delete k m) = fst ` set m - {k}"
  by (auto simp: AList.delete_eq image_iff)

lemma keys_present: "map_of m k = Some v \<Longrightarrow> k \<in> fst ` set m"
  by (metis domI dom_map_of_conv_image_fst)

lemma ev_inv_iso_update:
  "\<lbrakk>ev_inv em; map_of (isolates em) i = Some m; isolates em' = AList.update i m' (isolates em);
    eviction_states em' = eviction_states em\<rbrakk> \<Longrightarrow> ev_inv em'"
  using keys_present [of "isolates em" i m]
  by (simp add: ev_inv_def keys_update AList.distinct_update insert_absorb)

lemma ev_inv_state_update:
  "\<lbrakk>ev_inv em; map_of (eviction_states em) i = Some s; isolates em' = isolates em;
    eviction_states em' = AList.update i s' (eviction_states em)\<rbrakk> \<Longrightarrow> ev_inv em'"
  using keys_present [of "eviction_states em" i s]
  by (simp add: ev_inv_def keys_update AList.distinct_update insert_absorb)

lemma ev_inv_init: "ev_inv (manager_with_config c)"
  by (simp add: ev_inv_def manager_with_config_def)

lemma ev_inv_both:
  "ev_inv em \<Longrightarrow> ev_inv (em\<lparr>isolates := AList.update i m (isolates em),
     eviction_states := AList.update i s (eviction_states em)\<rparr>)"
  "ev_inv em \<Longrightarrow> ev_inv (em\<lparr>isolates := AList.delete i (isolates em),
     eviction_states := AList.delete i (eviction_states em)\<rparr>)"
  "ev_inv (em\<lparr>isolates := [], eviction_states := [], total_memory := t\<rparr>)"
  by (auto simp: ev_inv_def keys_update keys_delete AList.distinct_update AList.distinct_delete)

lemma check_draining_complete_inv: "ev_inv em \<Longrightarrow> ev_inv (check_draining_complete i em)"
  by (auto simp: check_draining_complete_def intro: ev_inv_state_update
      split: option.split isolate_eviction_state.split)

lemma ev_step_inv: "ev_inv em \<Longrightarrow> ev_inv (ev_step x em)"
proof (cases x)
  case (MarkComplete i)
  assume e: "ev_inv em"
  have "ev_inv (case map_of (isolates em) i of None \<Rightarrow> em
      | Some meta \<Rightarrow> em\<lparr>isolates := AList.update i (decrement_active meta) (isolates em)\<rparr>)"
    using e by (auto intro: ev_inv_iso_update split: option.split)
  then show ?thesis by (simp add: ev_step_def MarkComplete mark_complete_def check_draining_complete_inv)
qed (auto simp: ev_step_def register_isolate_def unregister_isolate_def record_usage_def
    mark_active_def initiate_soft_eviction_def complete_soft_eviction_def hard_evict_def
    reactivate_isolate_def manager_clear_def Let_def ev_inv_both
    split: option.split isolate_eviction_state.split
    intro: ev_inv_iso_update ev_inv_state_update)

lemma ev_run_inv: "ev_inv em \<Longrightarrow> ev_inv (fold ev_step xs em)"
  by (induction xs arbitrary: em) (simp_all add: ev_step_inv)

section \<open>The operations refine the state machine\<close>

lemma check_draining_state:
  "map_of (eviction_states (check_draining_complete j em)) i =
     (if i = j \<and> is_draining em j \<and> (\<exists>m. map_of (isolates em) j = Some m \<and> is_idle m)
      then Some Evicted else map_of (eviction_states em) i)"
  by (auto simp: check_draining_complete_def is_draining_def
      split: option.split isolate_eviction_state.split)

lemma mark_complete_states:
  "map_of (eviction_states (mark_complete j em)) i =
     (if i = j \<and> is_draining em j
         \<and> (\<exists>m. map_of (isolates em) j = Some m \<and> is_idle (decrement_active m))
      then Some Evicted else map_of (eviction_states em) i)"
  by (auto simp: mark_complete_def Let_def check_draining_state is_draining_def split: option.split)

lemma ev_step_refines:
  "state_step i x (map_of (eviction_states em) i) (map_of (eviction_states (ev_step x em)) i)"
proof (cases x)
  case (MarkComplete j)
  then show ?thesis
    by (auto simp: ev_step_def mark_complete_states is_draining_def
        intro: state_step.intros split: option.splits isolate_eviction_state.splits)
next
  case (InitiateSoft now j)
  then show ?thesis
    by (auto simp: ev_step_def initiate_soft_eviction_def intro: state_step.intros
        split: option.split isolate_eviction_state.split)
next
  case (CompleteSoft j)
  then show ?thesis
    by (auto simp: ev_step_def complete_soft_eviction_def intro: state_step.intros
        split: option.split isolate_eviction_state.split)
next
  case (HardEvictOp now j)
  then show ?thesis
    by (auto simp: ev_step_def hard_evict_def intro: state_step.intros split: option.split)
next
  case (Register j m)
  then show ?thesis by (auto simp: ev_step_def register_isolate_def intro: state_step.intros)
next
  case (Reactivate j m)
  then show ?thesis by (auto simp: ev_step_def reactivate_isolate_def intro: state_step.intros)
qed (auto simp: ev_step_def unregister_isolate_def record_usage_def mark_active_def
    manager_clear_def Let_def intro: state_step.intros split: option.split)

lemma closed_step:
  assumes "state_step i x s s'" "s \<noteq> Some Active" "\<not> reintroduces i x"
  shows "s' \<noteq> Some Active"
  using assms by (cases rule: state_step.cases) (auto simp: reintroduces_def)

lemma closed_run:
  assumes "map_of (eviction_states em) i \<noteq> Some Active" "list_all (\<lambda>x. \<not> reintroduces i x) xs"
  shows "map_of (eviction_states (fold ev_step xs em)) i \<noteq> Some Active"
  using assms
proof (induction xs arbitrary: em)
  case (Cons x xs)
  have "map_of (eviction_states (ev_step x em)) i \<noteq> Some Active"
    by (rule closed_step [OF ev_step_refines]) (use Cons.prems in auto)
  with Cons show ?case by simp
qed simp

lemma mark_complete_isolates:
  "map_of (isolates (mark_complete i em)) i = map_option decrement_active (map_of (isolates em) i)"
  by (auto simp: mark_complete_def Let_def check_draining_complete_def
      split: option.split isolate_eviction_state.split)

lemma mark_complete_total:
  "evictions_total (mark_complete i em) = evictions_total em +
     (if is_draining em i \<and> (\<exists>m. map_of (isolates em) i = Some m \<and> is_idle (decrement_active m))
      then 1 else 0)"
  by (auto simp: mark_complete_def Let_def check_draining_complete_def is_draining_def
      split: option.split isolate_eviction_state.split)

lemma draining_completes:
  "\<lbrakk>map_of (isolates em) i = Some m; is_draining em i; im_active_requests m = Suc n\<rbrakk> \<Longrightarrow>
     is_evicted ((mark_complete i ^^ Suc n) em) i
     \<and> evictions_total ((mark_complete i ^^ Suc n) em) = evictions_total em + 1"
proof (induction n arbitrary: em m)
  case 0
  then show ?case
    by (auto simp: is_evicted_def mark_complete_states mark_complete_total is_idle_def decrement_active_def)
next
  case (Suc n)
  let ?em = "mark_complete i em"
  have m: "map_of (isolates ?em) i = Some (decrement_active m)" "im_active_requests (decrement_active m) = Suc n"
    using Suc.prems by (simp_all add: mark_complete_isolates decrement_active_def)
  have d: "is_draining ?em i" "evictions_total ?em = evictions_total em"
    using Suc.prems m
    by (auto simp: is_draining_def mark_complete_states mark_complete_total is_idle_def)
  from Suc.IH [OF m(1) d(1) m(2)] d(2) show ?case by (simp add: funpow_swap1)
qed

section \<open>Victims\<close>

lemma select_victims_eq:
  "select_victims rank now n so em =
     map fst (take n (sort_key (victim_key rank (policy (ev_config em)))
       (filter (victim_ok now so em) (isolates em))))"
  by (simp add: select_victims_def Let_def)

lemma take_sorted_least:
  assumes "x \<in> set (take n (sort_key f xs))" "y \<in> set xs" "y \<notin> set (take n (sort_key f xs))"
  shows "f x \<le> f y"
proof -
  have "y \<in> set (sort_key f xs)" using assms(2) by simp
  then have "y \<in> set (drop n (sort_key f xs))"
    using assms(3) by (metis Un_iff append_take_drop_id set_append)
  moreover have "sorted (map f (take n (sort_key f xs) @ drop n (sort_key f xs)))" by simp
  ultimately show ?thesis using assms(1) unfolding map_append sorted_append by auto
qed

lemma victims_map_of:
  assumes "ev_inv em" "v \<in> set (select_victims rank now n so em)"
  obtains m where "map_of (isolates em) v = Some m" "can_accept_requests em v" "is_idle m"
    "min_idle_secs (ev_config em) * 1000000000 \<le> idle_duration now m"
    "so \<and> prefer_stateless (ev_config em) \<longrightarrow> is_stateless m"
    "(v, m) \<in> set (take n (sort_key (victim_key rank (policy (ev_config em)))
       (filter (victim_ok now so em) (isolates em))))"
proof -
  let ?s = "take n (sort_key (victim_key rank (policy (ev_config em)))
       (filter (victim_ok now so em) (isolates em)))"
  from assms(2) obtain m where vm: "(v, m) \<in> set ?s" by (auto simp: select_victims_eq)
  then have in_f: "(v, m) \<in> set (filter (victim_ok now so em) (isolates em))"
    by (metis in_set_takeD set_sort)
  then have iso: "map_of (isolates em) v = Some m"
    using assms(1) by (auto simp: ev_inv_def)
  then have "v \<in> fst ` set (eviction_states em)"
    using assms(1) keys_present [OF iso] by (simp add: ev_inv_def)
  then obtain st where "map_of (eviction_states em) v = Some st"
    by (metis dom_map_of_conv_image_fst domD)
  with in_f iso vm show ?thesis
    by (intro that [of m]) (auto simp: victim_ok_def can_accept_requests_def not_less)
qed

lemma length_victims:
  "length (select_victims rank now n so em) = min n (length (filter (victim_ok now so em) (isolates em)))"
  by (simp add: select_victims_eq)

lemma sample_manager_inv: "ev_inv sample_manager"
  unfolding sample_manager_def manager_new_def by (rule ev_run_inv [OF ev_inv_init])

lemma sample_victims:
  "select_victims (\<lambda>_. 0) 10 1 True sample_manager = [''b'']"
  "select_victims (\<lambda>_. 0) 10 2 False sample_manager = [''b'', ''a'']"
  by (simp_all add: select_victims_eq sample_manager_def manager_new_def manager_with_config_def
      default_eviction_config_def ev_step_def register_isolate_def mark_active_def increment_active_def
      metadata_new_def victim_ok_def is_idle_def idle_duration_def victim_key_def)

section \<open>Properties\<close>

text \<open>
  C14. The manager is a faithful implementation of the eviction state machine: after any
  sequence of operations the metadata and the state map have the same keys, and every further
  operation moves every isolate along an edge of the machine: only draining isolates finish
  softly, only active ones start draining, and only registration makes an isolate active.
\<close>

theorem eviction_refines_state_machine:
  "let em = fold ev_step xs (manager_with_config c) in
     fst ` set (isolates em) = fst ` set (eviction_states em)
     \<and> distinct (map fst (isolates em))
     \<and> state_step i x (map_of (eviction_states em) i) (map_of (eviction_states (ev_step x em)) i)"
  using ev_run_inv [OF ev_inv_init, of xs c] by (simp add: Let_def ev_inv_def ev_step_refines)

text \<open>
  C15. An isolate that is draining or evicted never accepts a request again, whatever happens,
  until it is registered or reactivated anew.
\<close>

theorem eviction_is_final:
  assumes "is_draining em i \<or> is_evicted em i" "list_all (\<lambda>x. \<not> reintroduces i x) xs"
  shows "\<not> can_accept_requests (fold ev_step xs em) i"
proof -
  have "map_of (eviction_states em) i \<noteq> Some Active"
    using assms(1) by (auto simp: is_draining_def is_evicted_def)
  then show ?thesis using closed_run [OF _ assms(2)] by (simp add: can_accept_requests_def)
qed

theorem eviction_is_final_witness:
  "let em = fold ev_step [Register ''a'' (metadata_new 0 ''h'' 0), MarkActive ''a'', InitiateSoft 5 ''a''] manager_new in
     is_draining em ''a''
     \<and> \<not> can_accept_requests (fold ev_step [MarkComplete ''a'', Register ''b'' (metadata_new 6 ''h'' 1), MarkActive ''a''] em) ''a''"
proof -
  let ?em = "fold ev_step [Register ''a'' (metadata_new 0 ''h'' 0), MarkActive ''a'', InitiateSoft 5 ''a''] manager_new"
  have d: "is_draining ?em ''a''" by code_simp
  have r: "list_all (\<lambda>x. \<not> reintroduces ''a'' x) [MarkComplete ''a'', Register ''b'' (metadata_new 6 ''h'' 1), MarkActive ''a'']"
    by code_simp
  from d eviction_is_final [OF disjI1 [OF d] r] show ?thesis unfolding Let_def by blast
qed

text \<open>
  Victim selection is sound and optimal for the policy: the victims are distinct, as many
  as asked for or as there are candidates, each accepts requests, is idle for the minimum time
  and is stateless when that is required, and no passed-over candidate comes before a victim in
  the order of the policy (least recently used, least frequently used, largest first).
\<close>

theorem select_victims_sound:
  assumes "ev_inv em"
  shows "let vs = select_victims rank now n stateless_only em;
             cs = filter (victim_ok now stateless_only em) (isolates em);
             k = victim_key rank (policy (ev_config em)) in
     distinct vs \<and> length vs = min n (length cs)
     \<and> (\<forall>v \<in> set vs. \<exists>m. map_of (isolates em) v = Some m \<and> can_accept_requests em v \<and> is_idle m
          \<and> min_idle_secs (ev_config em) * 1000000000 \<le> idle_duration now m
          \<and> (stateless_only \<and> prefer_stateless (ev_config em) \<longrightarrow> is_stateless m)
          \<and> (\<forall>c \<in> set cs. fst c \<notin> set vs \<longrightarrow> k (v, m) \<le> k c))"
proof -
  let ?k = "victim_key rank (policy (ev_config em))"
  let ?cs = "filter (victim_ok now stateless_only em) (isolates em)"
  let ?s = "take n (sort_key ?k ?cs)"
  let ?vs = "select_victims rank now n stateless_only em"
  have "distinct (map fst (sort_key ?k ?cs))"
    using assms by (auto simp: ev_inv_def distinct_map inj_on_def)
  then have "distinct ?vs" unfolding select_victims_eq take_map [symmetric] by (rule distinct_take)
  moreover have "\<exists>m. map_of (isolates em) v = Some m \<and> can_accept_requests em v \<and> is_idle m
          \<and> min_idle_secs (ev_config em) * 1000000000 \<le> idle_duration now m
          \<and> (stateless_only \<and> prefer_stateless (ev_config em) \<longrightarrow> is_stateless m)
          \<and> (\<forall>c \<in> set ?cs. fst c \<notin> set ?vs \<longrightarrow> ?k (v, m) \<le> ?k c)" if v: "v \<in> set ?vs" for v
  proof -
    obtain m where m: "map_of (isolates em) v = Some m" "can_accept_requests em v" "is_idle m"
      "min_idle_secs (ev_config em) * 1000000000 \<le> idle_duration now m"
      "stateless_only \<and> prefer_stateless (ev_config em) \<longrightarrow> is_stateless m" "(v, m) \<in> set ?s"
      by (rule victims_map_of [OF assms v])
    have "?k (v, m) \<le> ?k c" if c: "c \<in> set ?cs" "fst c \<notin> set ?vs" for c
    proof (rule take_sorted_least [OF m(6) c(1)])
      show "c \<notin> set ?s" using c(2) by (auto simp: select_victims_eq)
    qed
    with m show ?thesis by blast
  qed
  ultimately show ?thesis by (simp add: Let_def length_victims)
qed

theorem select_victims_sound_witness:
  "select_victims (\<lambda>_. 0) 10 1 True sample_manager = [''b'']
   \<and> can_accept_requests sample_manager ''b''"
proof -
  have "\<forall>v \<in> set (select_victims (\<lambda>_. 0) 10 1 True sample_manager). can_accept_requests sample_manager v"
    using select_victims_sound [OF sample_manager_inv, of "\<lambda>_. 0" 10 1 True] unfolding Let_def by blast
  with sample_victims(1) show ?thesis by simp
qed

text \<open>
  Pressure decisions: within the cooldown nothing is evicted; a soft eviction takes at most
  the configured number of idle isolates and only happens under critical pressure or as the
  empty list under emergency pressure; a hard eviction only happens under emergency pressure,
  takes at most twice that number, and never names an isolate with a request in flight.
\<close>

theorem evaluate_pressure_decides:
  assumes "ev_inv em"
  shows "case evaluate_pressure rank now level em of
     Allow \<Rightarrow> \<not> requires_eviction level
   | Throttle \<Rightarrow> level \<noteq> Normal
   | SoftEvict vs \<Rightarrow> (level = Critical \<or> level = Emergency \<and> vs = [])
       \<and> length vs \<le> target_eviction_count (ev_config em)
       \<and> list_all (\<lambda>v. \<exists>m. map_of (isolates em) v = Some m \<and> is_idle m) vs
   | HardEvict vs \<Rightarrow> requires_hard_eviction level \<and> vs \<noteq> []
       \<and> length vs \<le> 2 * target_eviction_count (ev_config em)
       \<and> list_all (\<lambda>v. \<exists>m. map_of (isolates em) v = Some m \<and> is_idle m) vs"
proof -
  have idle: "list_all (\<lambda>v. \<exists>m. map_of (isolates em) v = Some m \<and> is_idle m)
      (select_victims rank now n so em)" for n so
    by (auto simp: list_all_iff elim: victims_map_of [OF assms])
  have len: "length (select_victims rank now n so em) \<le> n" for n so by (simp add: length_victims)
  show ?thesis
    using idle [of "target_eviction_count (ev_config em)" True]
      idle [of "target_eviction_count (ev_config em) * 2" False]
      len [of "target_eviction_count (ev_config em)" True]
      len [of "target_eviction_count (ev_config em) * 2" False]
    by (auto simp: evaluate_pressure_def Let_def requires_eviction_def requires_hard_eviction_def
        split: memory_pressure_level.split)
qed

theorem evaluate_pressure_decides_witness:
  "evaluate_pressure (\<lambda>_. 0) 10 Emergency sample_manager = HardEvict [''b'', ''a'']
   \<and> requires_hard_eviction Emergency
   \<and> list_all (\<lambda>v. \<exists>m. map_of (isolates sample_manager) v = Some m \<and> is_idle m) [''b'', ''a'']"
proof -
  have "last_eviction sample_manager = None" "target_eviction_count (ev_config sample_manager) = 1"
    by code_simp+
  then have e: "evaluate_pressure (\<lambda>_. 0) 10 Emergency sample_manager = HardEvict [''b'', ''a'']"
    by (simp add: evaluate_pressure_def sample_victims)
  from evaluate_pressure_decides [OF sample_manager_inv, where rank = "\<lambda>_. 0" and now = 10 and level = Emergency] e show ?thesis by simp
qed

text \<open>
  Draining makes progress: a draining isolate with \<open>n + 1\<close> requests in flight is evicted by
  the completion of exactly those requests, and is counted once.
\<close>

theorem draining_isolate_evicts:
  assumes "map_of (isolates em) i = Some m" "is_draining em i" "im_active_requests m = Suc n"
  shows "is_evicted ((mark_complete i ^^ Suc n) em) i
     \<and> evictions_total ((mark_complete i ^^ Suc n) em) = evictions_total em + 1"
  by (rule draining_completes [OF assms])

theorem draining_isolate_evicts_witness:
  "let em = fold ev_step [Register ''a'' (metadata_new 0 ''h'' 0), MarkActive ''a'', MarkActive ''a'', InitiateSoft 5 ''a''] manager_new
   in is_draining em ''a'' \<and> is_evicted ((mark_complete ''a'' ^^ Suc 1) em) ''a''"
proof -
  let ?em = "fold ev_step [Register ''a'' (metadata_new 0 ''h'' 0), MarkActive ''a'', MarkActive ''a'', InitiateSoft 5 ''a''] manager_new"
  have d: "is_draining ?em ''a''" by code_simp
  have m: "map_of (isolates ?em) ''a'' = Some ((metadata_new 0 ''h'' 0)\<lparr>im_active_requests := 2\<rparr>)"
    by code_simp
  have n: "im_active_requests ((metadata_new 0 ''h'' 0)\<lparr>im_active_requests := 2\<rparr>) = Suc 1" by simp
  from d draining_isolate_evicts [OF m d n] show ?thesis unfolding Let_def by blast
qed

end
