(* ===== verification/Memory_Monitor.thy ===== *)
theory Memory_Monitor
  imports Nano_Float Worker_Eviction
begin

text \<open>
  The memory monitor (\<^verbatim>\<open>src/src/worker/memory_monitor.rs\<close>), which classifies the memory of an isolate after
  every execution. The heap statistics are V8's: the three numbers are an argument of the check. Instants
  are nanoseconds. The pressure levels themselves are in \<open>Worker_Eviction\<close>.
\<close>

section \<open>Definitions\<close>

definition from_percent :: "f64 \<Rightarrow> memory_pressure_level" where
  "from_percent p =
     (if f_lt p (round_f64 (70 / 100)) then Normal
      else if f_lt p (round_f64 (85 / 100)) then Warning
      else if f_lt p (round_f64 (95 / 100)) then Critical
      else Emergency)"

definition threshold_percent :: "memory_pressure_level \<Rightarrow> f64" where
  "threshold_percent l = (case l of
       Normal \<Rightarrow> round_f64 (70 / 100) | Warning \<Rightarrow> round_f64 (85 / 100) | Critical \<Rightarrow> round_f64 (95 / 100) | Emergency \<Rightarrow> Fin 1)"

datatype memory_trend = Growing f64 | Stable | Shrinking f64

definition is_potential_leak :: "memory_trend \<Rightarrow> bool" where
  "is_potential_leak t = (case t of Growing rate \<Rightarrow> f_lt (Fin 1) rate | _ \<Rightarrow> False)"

definition trend_description :: "(f64 \<Rightarrow> string) \<Rightarrow> memory_trend \<Rightarrow> string" where
  "trend_description fixed2 t = (case t of
       Growing rate \<Rightarrow> ''Growing at '' @ fixed2 rate @ '' MB/s''
     | Stable \<Rightarrow> ''Stable''
     | Shrinking rate \<Rightarrow> ''Shrinking at '' @ fixed2 rate @ '' MB/s'')"

definition saturating_add :: "usize \<Rightarrow> usize \<Rightarrow> usize" where
  "saturating_add a b = (if unat a + unat b < 2 ^ 64 then a + b else - 1)"

record memory_snapshot =
  ms_timestamp :: nat
  ms_heap_used :: usize
  ms_heap_total :: usize
  ms_external :: usize
  ms_pressure_level :: memory_pressure_level
  ms_trend :: memory_trend

definition ratio :: "usize \<Rightarrow> usize \<Rightarrow> f64" where
  "ratio a b = f_div (f_of_nat (unat a)) (f_of_nat (unat b))"

definition snapshot_new :: "nat \<Rightarrow> usize \<Rightarrow> usize \<Rightarrow> usize \<Rightarrow> usize \<Rightarrow> memory_snapshot" where
  "snapshot_new now heap_used heap_total external limit_bytes =
     (let tot = saturating_add heap_used external;
          percent = (if limit_bytes > 0 then ratio tot limit_bytes else Fin 0)
      in \<lparr>ms_timestamp = now, ms_heap_used = heap_used, ms_heap_total = heap_total, ms_external = external,
          ms_pressure_level = from_percent percent, ms_trend = Stable\<rparr>)"

definition total_memory_bytes :: "memory_snapshot \<Rightarrow> usize" where
  "total_memory_bytes s = saturating_add (ms_heap_used s) (ms_external s)"

definition in_mb :: "usize \<Rightarrow> f64" where
  "in_mb n = f_div (f_of_nat (unat n)) (Fin 1048576)"

definition total_memory_mb :: "memory_snapshot \<Rightarrow> f64" where
  "total_memory_mb s = in_mb (total_memory_bytes s)"

definition heap_used_mb :: "memory_snapshot \<Rightarrow> f64" where
  "heap_used_mb s = in_mb (ms_heap_used s)"

definition external_mb :: "memory_snapshot \<Rightarrow> f64" where
  "external_mb s = in_mb (ms_external s)"

definition percent_of_limit :: "memory_snapshot \<Rightarrow> usize \<Rightarrow> f64" where
  "percent_of_limit s limit_bytes = (if limit_bytes = 0 then Fin 0 else ratio (total_memory_bytes s) limit_bytes)"

definition empty_snapshot :: "nat \<Rightarrow> memory_snapshot" where
  "empty_snapshot now = \<lparr>ms_timestamp = now, ms_heap_used = 0, ms_heap_total = 0, ms_external = 0,
     ms_pressure_level = Normal, ms_trend = Stable\<rparr>"

record memory_monitor_config =
  mc_soft_limit_percent :: f64
  mc_critical_limit_percent :: f64
  mc_max_history :: nat
  mc_trend_stability_threshold_mb :: f64

definition default_monitor_config :: memory_monitor_config where
  "default_monitor_config = \<lparr>mc_soft_limit_percent = round_f64 (80 / 100), mc_critical_limit_percent = round_f64 (95 / 100),
     mc_max_history = 10, mc_trend_stability_threshold_mb = Fin (1 / 2)\<rparr>"

record memory_monitor =
  mm_config :: memory_monitor_config
  mm_limit_bytes :: usize
  mm_history :: "memory_snapshot list"
  mm_last_check :: "nat option"

definition monitor_with_config :: "u32 \<Rightarrow> memory_monitor_config \<Rightarrow> memory_monitor" where
  "monitor_with_config limit_mb config =
     \<lparr>mm_config = config, mm_limit_bytes = ucast limit_mb * 1024 * 1024, mm_history = [], mm_last_check = None\<rparr>"

definition monitor_new :: "u32 \<Rightarrow> memory_monitor" where
  "monitor_new limit_mb = monitor_with_config limit_mb default_monitor_config"

definition as_secs_f64 :: "nat \<Rightarrow> f64" where
  "as_secs_f64 ns = f_add (f_of_nat (ns div 1000000000)) (f_div (f_of_nat (ns mod 1000000000)) (Fin 1000000000))"

definition calculate_trend :: "memory_monitor \<Rightarrow> memory_snapshot \<Rightarrow> memory_trend" where
  "calculate_trend m current =
     (if mm_history m = [] then Stable
      else let prev = last (mm_history m);
               memory_delta = f_sub (f_of_nat (unat (total_memory_bytes current))) (f_of_nat (unat (total_memory_bytes prev)));
               time_delta = as_secs_f64 (ms_timestamp current - ms_timestamp prev)
           in if f_lt time_delta (round_f64 (1 / 1000)) then Stable
              else let rate = f_div (f_div memory_delta (Fin 1048576)) time_delta;
                       threshold = mc_trend_stability_threshold_mb (mm_config m)
                   in if f_lt threshold rate then Growing rate
                      else if f_lt rate (f_neg threshold) then Shrinking (f_abs rate)
                      else Stable)"

definition add_to_history :: "memory_snapshot \<Rightarrow> memory_monitor \<Rightarrow> memory_monitor" where
  "add_to_history s m =
     (let h = (if length (mm_history m) \<ge> mc_max_history (mm_config m) then drop 1 (mm_history m) else mm_history m)
      in m\<lparr>mm_history := h @ [s]\<rparr>)"

text \<open>The heap statistics and the two instants that the check reads.\<close>

record heap_reading =
  hr_used :: usize
  hr_total :: usize
  hr_external :: usize
  hr_taken :: nat
  hr_checked :: nat

definition check_after :: "heap_reading \<Rightarrow> memory_monitor \<Rightarrow> memory_snapshot \<times> memory_monitor" where
  "check_after hr m =
     (let s = snapshot_new (hr_taken hr) (hr_used hr) (hr_total hr) (hr_external hr) (mm_limit_bytes m);
          s' = s\<lparr>ms_trend := calculate_trend m s\<rparr>
      in (s', (add_to_history s' m)\<lparr>mm_last_check := Some (hr_checked hr)\<rparr>))"

definition pressure_level :: "memory_monitor \<Rightarrow> memory_pressure_level" where
  "pressure_level m = (if mm_history m = [] then Normal else ms_pressure_level (last (mm_history m)))"

definition should_trigger_soft_eviction :: "memory_monitor \<Rightarrow> bool" where
  "should_trigger_soft_eviction m = requires_eviction (pressure_level m)"

definition should_trigger_hard_eviction :: "memory_monitor \<Rightarrow> bool" where
  "should_trigger_hard_eviction m = requires_hard_eviction (pressure_level m)"

definition latest_snapshot :: "memory_monitor \<Rightarrow> memory_snapshot option" where
  "latest_snapshot m = (if mm_history m = [] then None else Some (last (mm_history m)))"

definition clear_history :: "memory_monitor \<Rightarrow> memory_monitor" where
  "clear_history m = m\<lparr>mm_history := []\<rparr>"

definition is_trending_to_leak :: "memory_monitor \<Rightarrow> bool" where
  "is_trending_to_leak m =
     (if length (mm_history m) < 3 then False
      else list_all (\<lambda>s. is_potential_leak (ms_trend s)) (take 3 (rev (mm_history m))))"

definition time_since_last_check :: "nat \<Rightarrow> memory_monitor \<Rightarrow> nat option" where
  "time_since_last_check now m = map_option (\<lambda>t. now - t) (mm_last_check m)"

definition soft_limit_bytes :: "memory_monitor \<Rightarrow> usize" where
  "soft_limit_bytes m = f_to_u64 (f_mul (f_of_nat (unat (mm_limit_bytes m))) (mc_soft_limit_percent (mm_config m)))"

definition critical_limit_bytes :: "memory_monitor \<Rightarrow> usize" where
  "critical_limit_bytes m = f_to_u64 (f_mul (f_of_nat (unat (mm_limit_bytes m))) (mc_critical_limit_percent (mm_config m)))"

definition monitor_limit_mb :: "memory_monitor \<Rightarrow> usize" where
  "monitor_limit_mb m = mm_limit_bytes m div (1024 * 1024)"

subsection \<open>Specification vocabulary\<close>

text \<open>The level by exact arithmetic on the byte counts.\<close>

definition exact_level :: "nat \<Rightarrow> nat \<Rightarrow> memory_pressure_level" where
  "exact_level used limit =
     (if 10 * used < 7 * limit then Normal else if 20 * used < 17 * limit then Warning
      else if 20 * used < 19 * limit then Critical else Emergency)"

definition used_bytes :: "heap_reading \<Rightarrow> nat" where
  "used_bytes hr = min (unat (hr_used hr) + unat (hr_external hr)) (2 ^ 64 - 1)"

primrec run_checks :: "heap_reading list \<Rightarrow> memory_monitor \<Rightarrow> memory_snapshot list \<times> memory_monitor" where
  "run_checks [] m = ([], m)"
| "run_checks (hr # hrs) m = (let (s, m1) = check_after hr m; (ss, m2) = run_checks hrs m1 in (s # ss, m2))"

section \<open>Lemmas\<close>

lemma saturating_add_value: "unat (saturating_add a b) = min (unat a + unat b) (2 ^ 64 - 1)"
proof (cases "unat a + unat b < 2 ^ 64")
  case True
  then have "unat (a + b) = unat a + unat b" by (simp add: unat_word_ariths)
  with True show ?thesis by (simp add: saturating_add_def)
next
  case False
  moreover have "unat (- 1 :: usize) = 2 ^ 64 - 1" by (simp add: unsigned_minus_1_eq_mask mask_eq_exp_minus_1)
  ultimately show ?thesis by (simp only: saturating_add_def if_False min_def) simp
qed

text \<open>Comparing the rounded ratio with a rounded threshold decides as the exact comparison does.\<close>

lemma ratio_below:
  assumes lp: "0 < l" and l: "l \<le> 2 ^ 48" and u: "u < 2 ^ 64" and k: "k < 20"
  shows "f_lt (f_div (f_of_nat u) (f_of_nat l)) (round_f64 (of_nat k / 20)) \<longleftrightarrow> 20 * u < k * l"
proof -
  let ?L = "of_nat l :: rat" and ?r = "f_div (f_of_nat u) (f_of_nat l)"
  have L: "f_of_nat l = Fin ?L" using l by (intro f_of_nat_exact) simp
  have t: "round_f64 (of_nat k / 20) = Fin (nearest (of_nat k / 20))"
  proof (rule nearest_range)
    have "(of_nat k :: rat) \<le> 20" using k of_nat_le_iff [of k 20, where 'a = rat] by simp
    then show "of_nat k / 20 \<le> (2 ^ 64 :: rat)" by simp
  qed simp
  have k1: "of_nat k / 20 < (1 :: rat)" using k by simp
  show ?thesis
  proof (cases "20 * u < k * l")
    case True
    then have "20 * u < 20 * l" using k lp by (meson less_trans mult_less_mono1)
    then have ul: "u < l" by simp
    then have U: "f_of_nat u = Fin (of_nat u)" using l by (intro f_of_nat_exact) simp
    let ?p = "of_nat u / ?L :: rat"
    have p: "0 \<le> ?p" "?p < 1" using ul lp by (simp_all add: divide_less_eq_1)
    have "of_nat (20 * u + 1) \<le> (of_nat (k * l) :: rat)" using True of_nat_le_iff Suc_leI by (metis Suc_eq_plus1)
    then have gap: "1 / (20 * ?L) \<le> of_nat k / 20 - ?p" using lp by (simp add: field_simps)
    have "20 * ?L < 2 ^ 53"
    proof -
      have "?L \<le> of_nat (2 ^ 48)" using l of_nat_le_iff by blast
      then show ?thesis by simp
    qed
    then have "1 / 2 ^ 53 < (1 / (20 * ?L))" using lp by (intro divide_strict_left_mono) simp_all
    with gap have g: "1 / 2 ^ 53 < of_nat k / 20 - ?p" by linarith
    have "(0 :: rat) < 1 / 2 ^ 53" by simp
    with g have "?p < of_nat k / 20" by linarith
    from nearest_strict [OF p(1) this k1 g] have "nearest ?p < nearest (of_nat k / 20)" .
    moreover have "?r = Fin (nearest ?p)"
    proof -
      have "?p \<le> 2 ^ 64" using p(2) by simp
      from nearest_range [OF p(1) this] show ?thesis using lp by (simp add: U L f_div_def)
    qed
    ultimately show ?thesis using True by (simp add: f_lt_def t)
  next
    case False
    obtain U where U: "f_of_nat u = Fin U" "of_nat k / 20 \<le> U / ?L"
    proof -
      have "(of_nat u :: rat) \<le> of_nat (2 ^ 64)" using u of_nat_le_iff less_imp_le by blast
      then have r: "f_of_nat u = Fin (nearest (of_nat u))" unfolding f_of_nat_def by (intro nearest_range) simp_all
      show thesis
      proof (cases "u < 2 ^ 53")
        case True
        then have "nearest (of_nat u) = of_nat u" by (rule nearest_of_nat)
        moreover have "of_nat (k * l) \<le> (of_nat (20 * u) :: rat)" using False of_nat_le_iff not_less by blast
        ultimately show thesis using r lp that [of "of_nat u"] by (simp add: field_simps)
      next
        case big: False
        have "l \<le> u" using big l by simp
        then have "nearest (of_nat l) \<le> nearest (of_nat u)" by (intro nearest_mono) simp_all
        moreover have "nearest (of_nat l) = of_nat l" using l by (intro nearest_of_nat) simp
        ultimately have "1 \<le> nearest (of_nat u) / ?L" using lp by simp
        with k1 that [OF r] show thesis by linarith
      qed
    qed
    have "f_le (round_f64 (of_nat k / 20)) (round_f64 (U / ?L))" using U(2) by (intro round_f64_mono) simp_all
    moreover have "?r = round_f64 (U / ?L)" using lp by (simp add: U(1) L f_div_def)
    ultimately show ?thesis using False by (simp add: f_lt_def)
  qed
qed

lemma level_exact:
  assumes "0 < limit" "unat (limit :: usize) \<le> 2 ^ 48"
  shows "from_percent (ratio tot limit) = exact_level (unat tot) (unat limit)"
proof -
  have p: "0 < unat limit" "unat tot < 2 ^ 64" using assms(1) unsigned_less [of tot] by (simp_all add: word_gt_0 unat_gt_0)
  have b: "f_lt (ratio tot limit) (round_f64 (of_nat k / 20)) \<longleftrightarrow> 20 * unat tot < k * unat limit" if "k < 20" for k
    unfolding ratio_def by (rule ratio_below [OF p(1) assms(2) p(2) that])
  from b [of 14] b [of 17] b [of 19] show ?thesis by (simp add: from_percent_def exact_level_def)
qed

lemma run_checks_append:
  "run_checks (xs @ ys) m = (let (ss, m1) = run_checks xs m; (ts, m2) = run_checks ys m1 in (ss @ ts, m2))"
  by (induction xs arbitrary: m) (simp_all add: Let_def case_prod_beta)

text \<open>The history is the end of the sequence of snapshots, and the snapshots are those of the readings.\<close>

lemma run_checks_history:
  assumes "run_checks hrs (monitor_with_config mb config) = (ss, m)" and n: "n = max 1 (mc_max_history config)"
  shows "mm_config m = config \<and> mm_limit_bytes m = mm_limit_bytes (monitor_with_config mb config)
     \<and> mm_history m = drop (length ss - n) ss
     \<and> list_all2 (\<lambda>hr s. ms_pressure_level s = ms_pressure_level
          (snapshot_new (hr_taken hr) (hr_used hr) (hr_total hr) (hr_external hr) (mm_limit_bytes m))) hrs ss"
  using assms(1)
proof (induction hrs arbitrary: ss m rule: rev_induct)
  case (snoc hr hrs)
  obtain ss1 m1 where r: "run_checks hrs (monitor_with_config mb config) = (ss1, m1)" by force
  obtain s m2 where c: "check_after hr m1 = (s, m2)" by force
  have e: "ss = ss1 @ [s]" "m = m2" using snoc.prems r c by (auto simp: run_checks_append)
  have IH: "mm_config m1 = config" "mm_limit_bytes m1 = mm_limit_bytes (monitor_with_config mb config)"
    "mm_history m1 = drop (length ss1 - n) ss1"
    "list_all2 (\<lambda>hr s. ms_pressure_level s = ms_pressure_level
          (snapshot_new (hr_taken hr) (hr_used hr) (hr_total hr) (hr_external hr) (mm_limit_bytes m1))) hrs ss1"
    using snoc.IH [OF r] by auto
  have m2: "mm_config m2 = mm_config m1" "mm_limit_bytes m2 = mm_limit_bytes m1"
    "mm_history m2 = (if length (mm_history m1) \<ge> mc_max_history (mm_config m1) then drop 1 (mm_history m1) else mm_history m1) @ [s]"
    "ms_pressure_level s = ms_pressure_level (snapshot_new (hr_taken hr) (hr_used hr) (hr_total hr) (hr_external hr) (mm_limit_bytes m1))"
    using c by (auto simp: check_after_def Let_def add_to_history_def)
  have "mm_history m2 = drop (length ss - n) ss"
  proof (cases "n \<le> length ss1")
    case True
    then show ?thesis using m2(3) IH(1,3) n e(1) by (simp add: Suc_diff_le)
  next
    case False
    then show ?thesis using m2(3) IH(1,3) n e(1) by (auto simp: max_def Suc_le_eq split: if_splits)
  qed
  then show ?case using m2 IH e by (auto intro: list_all2_appendI)
qed (simp add: monitor_with_config_def)

section \<open>Properties\<close>

text \<open>
  The monitor decides as exact arithmetic would. For a limit of at least one and at most \<open>2 ^ 28\<close> megabytes, after any
  sequence of checks the level is that of the last reading, by comparing the used bytes with 70, 85 and 95 percent of
  the limit without rounding; a soft eviction is due from 85 and a hard one from 95 percent on. The history has the
  last readings, as many as configured and at least one.
\<close>

theorem monitor_triggers_exact:
  assumes "0 < mb" "unat mb \<le> 2 ^ 28" "run_checks (hrs @ [hr]) (monitor_with_config mb config) = (ss, m)"
  shows "pressure_level m = exact_level (used_bytes hr) (unat mb * 1048576)
     \<and> (should_trigger_soft_eviction m \<longleftrightarrow> 17 * (unat mb * 1048576) \<le> 20 * used_bytes hr)
     \<and> (should_trigger_hard_eviction m \<longleftrightarrow> 19 * (unat mb * 1048576) \<le> 20 * used_bytes hr)
     \<and> mm_history m = drop (length ss - max 1 (mc_max_history config)) ss
     \<and> length (mm_history m) \<le> max 1 (mc_max_history config)"
proof -
  let ?lim = "mm_limit_bytes m"
  note H = run_checks_history [OF assms(3) refl]
  have h: "?lim = ucast mb * 1024 * 1024" "mm_history m = drop (length ss - max 1 (mc_max_history config)) ss"
    "list_all2 (\<lambda>hr s. ms_pressure_level s = ms_pressure_level
          (snapshot_new (hr_taken hr) (hr_used hr) (hr_total hr) (hr_external hr) ?lim)) (hrs @ [hr]) ss"
    using H by (simp add: monitor_with_config_def, blast, blast)
  have m: "unat mb * 1048576 < 2 ^ 64" using assms(2) by simp
  have lim: "unat ?lim = unat mb * 1048576"
  proof -
    have "?lim = of_nat (unat mb * 1048576)" unfolding h(1) by simp
    then show ?thesis using usize_of_nat [OF m] by simp
  qed
  have l: "0 < ?lim" "unat ?lim \<le> 2 ^ 48" using lim assms(1,2) by (simp_all add: word_gt_0 unat_gt_0 flip: unat_gt_0)
  obtain ts s where s: "ss = ts @ [s]" "ms_pressure_level s = ms_pressure_level
      (snapshot_new (hr_taken hr) (hr_used hr) (hr_total hr) (hr_external hr) ?lim)"
    using h(3) by (auto simp: list_all2_append1 list_all2_Cons1)
  have "mm_history m \<noteq> []" "last (mm_history m) = s" using h(2) s(1) by auto
  then have "pressure_level m = from_percent (ratio (saturating_add (hr_used hr) (hr_external hr)) ?lim)"
    using s(2) l by (simp add: pressure_level_def snapshot_new_def Let_def)
  then have p: "pressure_level m = exact_level (used_bytes hr) (unat mb * 1048576)"
    using level_exact [OF l] lim by (simp add: saturating_add_value used_bytes_def)
  then show ?thesis using h(2)
    by (auto simp: should_trigger_soft_eviction_def should_trigger_hard_eviction_def requires_eviction_def
      requires_hard_eviction_def exact_level_def)
qed

theorem monitor_triggers_exact_witness:
  "let hr = \<lparr>hr_used = 100663296, hr_total = 110000000, hr_external = 15728640, hr_taken = 5, hr_checked = 6\<rparr>;
       m = snd (run_checks ([] @ [hr]) (monitor_with_config 128 default_monitor_config))
   in pressure_level m = Critical \<and> should_trigger_soft_eviction m \<and> \<not> should_trigger_hard_eviction m"
proof -
  let ?hr = "\<lparr>hr_used = 100663296, hr_total = 110000000, hr_external = 15728640, hr_taken = 5, hr_checked = 6\<rparr>"
  let ?r = "run_checks ([] @ [?hr]) (monitor_with_config 128 default_monitor_config)"
  have u: "used_bytes ?hr = 116391936" "unat (128 :: u32) = 128" by (simp_all add: used_bytes_def)
  have c: "(0 :: u32) < 128" "unat (128 :: u32) \<le> 2 ^ 28" by simp_all
  from monitor_triggers_exact [OF c prod.collapse [of ?r, symmetric]] u show ?thesis by (simp add: Let_def exact_level_def)
qed

end
