(* ===== verification/Worker_Limits.thy ===== *)
theory Worker_Limits
  imports Memory_Monitor Http_Types
begin

text \<open>
  Memory limits of an application (\<^verbatim>\<open>src/src/worker/limits.rs\<close>) and the out-of-memory monitor
  (\<^verbatim>\<open>src/src/worker/oom.rs\<close>). The heap statistics that V8 reports at a check are its argument. Emitting a log
  record has no effect in the model, except that a warning is part of the result of the pressure check.
\<close>

section \<open>Definitions\<close>

subsection \<open>Errors and statistics\<close>

datatype oom_error = OomLimitExceeded usize usize string | V8HeapLimitTriggered

definition MB :: usize where
  "MB = 1024 * 1024"

definition oom_used_mb :: "oom_error \<Rightarrow> usize" where
  "oom_used_mb e = (case e of OomLimitExceeded used limit h \<Rightarrow> used div MB | V8HeapLimitTriggered \<Rightarrow> 0)"

definition oom_limit_mb :: "oom_error \<Rightarrow> usize" where
  "oom_limit_mb e = (case e of OomLimitExceeded used limit h \<Rightarrow> limit div MB | V8HeapLimitTriggered \<Rightarrow> 0)"

definition oom_app_hostname :: "oom_error \<Rightarrow> string option" where
  "oom_app_hostname e = (case e of OomLimitExceeded used limit h \<Rightarrow> Some h | V8HeapLimitTriggered \<Rightarrow> None)"

record heap_statistics =
  hs_used_heap_size :: usize
  hs_total_heap_size :: usize
  hs_heap_size_limit :: usize
  hs_external_memory :: usize
  hs_number_of_native_contexts :: usize
  hs_number_of_detached_contexts :: usize

definition empty_heap_statistics :: heap_statistics where
  "empty_heap_statistics = \<lparr>hs_used_heap_size = 0, hs_total_heap_size = 0, hs_heap_size_limit = 0, hs_external_memory = 0,
     hs_number_of_native_contexts = 0, hs_number_of_detached_contexts = 0\<rparr>"

definition hs_used_mb :: "heap_statistics \<Rightarrow> usize" where
  "hs_used_mb s = hs_used_heap_size s div MB"

definition hs_total_mb :: "heap_statistics \<Rightarrow> usize" where
  "hs_total_mb s = hs_total_heap_size s div MB"

definition hs_external_mb :: "heap_statistics \<Rightarrow> usize" where
  "hs_external_mb s = hs_external_memory s div MB"

definition hs_total_memory_bytes :: "heap_statistics \<Rightarrow> usize" where
  "hs_total_memory_bytes s = saturating_add (hs_used_heap_size s) (hs_external_memory s)"

definition exceeds_limit :: "heap_statistics \<Rightarrow> usize \<Rightarrow> bool" where
  "exceeds_limit s limit_bytes = (hs_total_memory_bytes s > limit_bytes)"

definition hs_percent_of_limit :: "heap_statistics \<Rightarrow> usize \<Rightarrow> f64" where
  "hs_percent_of_limit s limit_bytes =
     (if limit_bytes = 0 then Fin 0 else f_mul (ratio (hs_total_memory_bytes s) limit_bytes) (Fin 100))"

subsection \<open>The limiter\<close>

record memory_limiter =
  ml_limit_bytes :: usize
  ml_current_bytes :: usize
  ml_oom_triggered :: bool
  ml_app_hostname :: string
  ml_oom_threshold :: f64

definition mb_to_bytes :: "u32 \<Rightarrow> usize" where
  "mb_to_bytes limit_mb = ucast limit_mb * 1024 * 1024"

definition limiter_for :: "u32 \<Rightarrow> string \<Rightarrow> memory_limiter" where
  "limiter_for limit_mb h = \<lparr>ml_limit_bytes = mb_to_bytes limit_mb, ml_current_bytes = 0, ml_oom_triggered = False,
     ml_app_hostname = h, ml_oom_threshold = Fin 1\<rparr>"

text \<open>\<^verbatim>\<open>f64::clamp(0.0, 1.0)\<close>, which keeps NaN.\<close>

definition clamp01 :: "f64 \<Rightarrow> f64" where
  "clamp01 x = (let x = (if f_lt x (Fin 0) then Fin 0 else x) in if f_lt (Fin 1) x then Fin 1 else x)"

definition limiter_with_threshold :: "u32 \<Rightarrow> string \<Rightarrow> f64 \<Rightarrow> memory_limiter" where
  "limiter_with_threshold limit_mb h threshold = (limiter_for limit_mb h)\<lparr>ml_oom_threshold := clamp01 threshold\<rparr>"

definition limiter_limit_mb :: "memory_limiter \<Rightarrow> usize" where
  "limiter_limit_mb l = ml_limit_bytes l div MB"

definition is_oom :: "memory_limiter \<Rightarrow> bool" where
  "is_oom l = ml_oom_triggered l"

definition limiter_reset :: "memory_limiter \<Rightarrow> memory_limiter" where
  "limiter_reset l = l\<lparr>ml_oom_triggered := False, ml_current_bytes := 0\<rparr>"

definition check_heap :: "heap_statistics \<Rightarrow> memory_limiter \<Rightarrow> (oom_error + heap_statistics) \<times> memory_limiter" where
  "check_heap stats l =
     (if exceeds_limit stats (ml_limit_bytes l)
      then (Inl (OomLimitExceeded (hs_total_memory_bytes stats) (ml_limit_bytes l) (ml_app_hostname l)), l\<lparr>ml_oom_triggered := True\<rparr>)
      else (Inr stats, l\<lparr>ml_current_bytes := hs_total_memory_bytes stats\<rparr>))"

definition trigger_oom :: "memory_limiter \<Rightarrow> memory_limiter" where
  "trigger_oom l = l\<lparr>ml_oom_triggered := True\<rparr>"

definition peek_memory :: "heap_statistics \<Rightarrow> memory_limiter \<Rightarrow> heap_statistics \<times> bool" where
  "peek_memory stats l = (stats, exceeds_limit stats (ml_limit_bytes l))"

definition set_oom_threshold :: "f64 \<Rightarrow> memory_limiter \<Rightarrow> memory_limiter" where
  "set_oom_threshold threshold l = l\<lparr>ml_oom_threshold := clamp01 threshold\<rparr>"

definition effective_oom_limit_bytes :: "memory_limiter \<Rightarrow> usize" where
  "effective_oom_limit_bytes l = f_to_u64 (f_mul (f_of_nat (unat (ml_limit_bytes l))) (ml_oom_threshold l))"

definition effective_oom_limit_mb :: "memory_limiter \<Rightarrow> usize" where
  "effective_oom_limit_mb l = effective_oom_limit_bytes l div MB"

definition check_oom :: "heap_statistics \<Rightarrow> memory_limiter \<Rightarrow> (oom_error + heap_statistics) \<times> memory_limiter" where
  "check_oom stats l =
     (let effective_limit = f_to_u64 (f_mul (f_of_nat (unat (ml_limit_bytes l))) (ml_oom_threshold l))
      in if hs_total_memory_bytes stats > effective_limit
         then (Inl (OomLimitExceeded (hs_total_memory_bytes stats) (ml_limit_bytes l) (ml_app_hostname l)), l\<lparr>ml_oom_triggered := True\<rparr>)
         else (Inr stats, l\<lparr>ml_current_bytes := hs_total_memory_bytes stats\<rparr>))"

subsection \<open>Memory growth of a request\<close>

record request_memory_tracker =
  rt_start_stats :: "heap_statistics option"
  rt_limit_bytes :: usize
  rt_hostname :: string

definition DEFAULT_LIMIT_MB :: u32 where
  "DEFAULT_LIMIT_MB = 16"

definition tracker_new :: "u32 \<Rightarrow> string \<Rightarrow> request_memory_tracker" where
  "tracker_new limit_mb h =
     (let limit = (if limit_mb = 0 then DEFAULT_LIMIT_MB else limit_mb)
      in \<lparr>rt_start_stats = None, rt_limit_bytes = mb_to_bytes limit, rt_hostname = h\<rparr>)"

definition tracker_start :: "heap_statistics \<Rightarrow> request_memory_tracker \<Rightarrow> request_memory_tracker" where
  "tracker_start stats t = t\<lparr>rt_start_stats := Some stats\<rparr>"

definition current_growth_bytes :: "heap_statistics \<Rightarrow> request_memory_tracker \<Rightarrow> usize" where
  "current_growth_bytes stats t = (case rt_start_stats t of
       None \<Rightarrow> 0
     | Some start \<Rightarrow> if hs_used_heap_size stats > hs_used_heap_size start
                    then hs_used_heap_size stats - hs_used_heap_size start else 0)"

definition current_growth_mb :: "heap_statistics \<Rightarrow> request_memory_tracker \<Rightarrow> usize" where
  "current_growth_mb stats t = current_growth_bytes stats t div MB"

definition check_limit :: "heap_statistics \<Rightarrow> request_memory_tracker \<Rightarrow> oom_error + usize" where
  "check_limit stats t =
     (let growth = current_growth_bytes stats t
      in if rt_limit_bytes t > 0 \<and> growth > rt_limit_bytes t then Inl (OomLimitExceeded growth (rt_limit_bytes t) (rt_hostname t))
         else Inr growth)"

definition tracker_reset :: "request_memory_tracker \<Rightarrow> request_memory_tracker" where
  "tracker_reset t = t\<lparr>rt_start_stats := None\<rparr>"

definition check_memory :: "heap_statistics \<Rightarrow> request_memory_tracker \<Rightarrow> string + unit" where
  "check_memory stats t =
     (let growth = current_growth_bytes stats t
      in if rt_limit_bytes t > 0 \<and> growth > rt_limit_bytes t
         then Inl (''Memory growth '' @ show_nat (unat (growth div MB)) @ ''MB exceeds limit '' @ show_nat (unat (rt_limit_bytes t div MB))
           @ ''MB for '' @ rt_hostname t)
         else Inr ())"

subsection \<open>The monitor\<close>

record oom_monitor =
  om_limiter :: memory_limiter
  om_monitor_id :: string
  om_check_count :: u64
  om_oom_count :: u64

definition oom_monitor_new :: "memory_limiter \<Rightarrow> string \<Rightarrow> oom_monitor" where
  "oom_monitor_new l i = \<lparr>om_limiter = l, om_monitor_id = i, om_check_count = 0, om_oom_count = 0\<rparr>"

definition oom_check :: "heap_statistics \<Rightarrow> oom_monitor \<Rightarrow> (oom_error + heap_statistics) \<times> oom_monitor" where
  "oom_check stats m =
     (let m1 = m\<lparr>om_check_count := om_check_count m + 1\<rparr> in
      case check_oom stats (om_limiter m1) of
        (Inr s, l) \<Rightarrow> (Inr s, m1\<lparr>om_limiter := l\<rparr>)
      | (Inl e, l) \<Rightarrow> (Inl e, m1\<lparr>om_limiter := l, om_oom_count := om_oom_count m1 + 1\<rparr>))"

definition line_end :: string where
  "line_end = [CHR 0x0A]"

definition create_oom_response :: "oom_error \<Rightarrow> oom_monitor \<Rightarrow> nano_response" where
  "create_oom_response e m =
     (let body = (case e of
          OomLimitExceeded used limit h \<Rightarrow>
            ''Service Unavailable: Resource limit exceeded'' @ line_end @ line_end @ ''Application: '' @ h @ line_end
            @ ''Memory used: '' @ show_nat (unat (used div MB)) @ '' MB'' @ line_end
            @ ''Memory limit: '' @ show_nat (unat (limit div MB)) @ '' MB'' @ line_end
            @ ''Isolate: '' @ om_monitor_id m @ line_end
        | V8HeapLimitTriggered \<Rightarrow>
            ''Service Unavailable: Resource limit exceeded'' @ line_end @ line_end
            @ ''V8 heap limit callback triggered'' @ line_end @ ''Isolate: '' @ om_monitor_id m @ line_end)
      in with_body body (with_header ''Retry-After'' ''0'' (with_header ''Content-Type'' ''text/plain'' (with_status 503))))"

definition oom_reset :: "oom_monitor \<Rightarrow> oom_monitor" where
  "oom_reset m = m\<lparr>om_limiter := limiter_reset (om_limiter m)\<rparr>"

text \<open>The statistics, and whether the warning is logged.\<close>

definition check_memory_pressure :: "heap_statistics \<Rightarrow> f64 \<Rightarrow> oom_monitor \<Rightarrow> heap_statistics option \<times> bool" where
  "check_memory_pressure stats warning_threshold m =
     (case peek_memory stats (om_limiter m) of (s, exceeded) \<Rightarrow>
        if exceeded then (Some s, False)
        else let usage_ratio = f_div (hs_percent_of_limit s (ml_limit_bytes (om_limiter m))) (Fin 100)
             in (Some s, f_le warning_threshold usage_ratio))"

record oom_monitor_builder =
  ob_monitor_id :: string
  ob_limit_mb :: u32
  ob_oom_threshold :: f64
  ob_hostname :: string

definition builder_new :: "string \<Rightarrow> oom_monitor_builder" where
  "builder_new i = \<lparr>ob_monitor_id = i, ob_limit_mb = 128, ob_oom_threshold = Fin 1, ob_hostname = ''unknown''\<rparr>"

definition with_limit_mb :: "u32 \<Rightarrow> oom_monitor_builder \<Rightarrow> oom_monitor_builder" where
  "with_limit_mb n b = b\<lparr>ob_limit_mb := n\<rparr>"

definition with_oom_threshold :: "f64 \<Rightarrow> oom_monitor_builder \<Rightarrow> oom_monitor_builder" where
  "with_oom_threshold x b = b\<lparr>ob_oom_threshold := clamp01 x\<rparr>"

definition for_hostname :: "string \<Rightarrow> oom_monitor_builder \<Rightarrow> oom_monitor_builder" where
  "for_hostname h b = b\<lparr>ob_hostname := h\<rparr>"

definition builder_build :: "oom_monitor_builder \<Rightarrow> oom_monitor" where
  "builder_build b =
     (let limiter = (if ob_oom_threshold b \<noteq> Fin 1 then limiter_with_threshold (ob_limit_mb b) (ob_hostname b) (ob_oom_threshold b)
          else limiter_for (ob_limit_mb b) (ob_hostname b))
      in oom_monitor_new limiter (ob_monitor_id b))"

subsection \<open>Specification vocabulary\<close>

primrec run_oom :: "heap_statistics list \<Rightarrow> oom_monitor \<Rightarrow> (oom_error + heap_statistics) list \<times> oom_monitor" where
  "run_oom [] m = ([], m)"
| "run_oom (s # ss) m = (let (r, m1) = oom_check s m; (rs, m2) = run_oom ss m1 in (r # rs, m2))"

definition too_much :: "oom_monitor \<Rightarrow> heap_statistics \<Rightarrow> bool" where
  "too_much m s = (hs_total_memory_bytes s > effective_oom_limit_bytes (om_limiter m))"

section \<open>Lemmas\<close>

lemma mb_to_bytes_value: "unat (mb_to_bytes n) = unat n * 1048576" "unat (mb_to_bytes n) < 2 ^ 52"
proof -
  have n: "unat n < 2 ^ 32" by (rule u32_bound)
  then have b: "unat n * 1048576 < 2 ^ 52" by simp
  have "mb_to_bytes n = of_nat (unat n * 1048576)" by (simp add: mb_to_bytes_def)
  then show v: "unat (mb_to_bytes n) = unat n * 1048576" using b usize_of_nat [of "unat n * 1048576"] by simp
  show "unat (mb_to_bytes n) < 2 ^ 52" using v b by simp
qed

lemma clamp01_cases: "clamp01 x = NaN \<or> (\<exists>q. clamp01 x = Fin q \<and> 0 \<le> q \<and> q \<le> 1)"
  by (cases x) (auto simp: clamp01_def Let_def f_lt_def f_le_def)

text \<open>A threshold between zero and one never raises the limit, and one keeps it.\<close>

lemma effective_limit:
  assumes "unat (ml_limit_bytes l) < 2 ^ 52"
  shows "ml_oom_threshold l = Fin 1 \<Longrightarrow> effective_oom_limit_bytes l = ml_limit_bytes l"
    "ml_oom_threshold l = clamp01 x \<Longrightarrow> effective_oom_limit_bytes l \<le> ml_limit_bytes l"
proof -
  let ?n = "unat (ml_limit_bytes l)"
  have n: "?n < 2 ^ 53" using assms by simp
  have e: "f_of_nat ?n = Fin (of_nat ?n)" by (rule f_of_nat_exact [OF n])
  show "effective_oom_limit_bytes l = ml_limit_bytes l" if "ml_oom_threshold l = Fin 1"
    using f_to_u64_of_nat [OF n] that by (simp add: effective_oom_limit_bytes_def f_mul_one [OF n])
  show "effective_oom_limit_bytes l \<le> ml_limit_bytes l" if t: "ml_oom_threshold l = clamp01 x"
  proof (cases "clamp01 x = NaN")
    case True
    have "f_mul (Fin a) NaN = NaN" for a by (simp add: f_mul_def)
    then show ?thesis using t True by (simp add: effective_oom_limit_bytes_def e f_to_u64_def)
  next
    case False
    then obtain q where q: "clamp01 x = Fin q" "0 \<le> q" "q \<le> 1" using clamp01_cases by blast
    have "unat (f_to_u64 (round_f64 (of_nat ?n * q))) \<le> ?n"
    proof (rule f_to_u64_le [OF _ _ n])
      show "0 \<le> of_nat ?n * q" by (intro mult_nonneg_nonneg of_nat_0_le_iff q(2))
      show "of_nat ?n * q \<le> of_nat ?n" by (intro mult_left_le q(3) of_nat_0_le_iff)
    qed
    moreover have "f_mul (Fin a) (Fin q) = round_f64 (a * q)" for a by (simp add: f_mul_def)
    ultimately show ?thesis using t q(1) unfolding effective_oom_limit_bytes_def e by (simp add: word_le_nat_alt)
  qed
qed

lemma oom_check_cases:
  "oom_check s m = (if too_much m s
     then (Inl (OomLimitExceeded (hs_total_memory_bytes s) (ml_limit_bytes (om_limiter m)) (ml_app_hostname (om_limiter m))),
       m\<lparr>om_check_count := om_check_count m + 1, om_limiter := (om_limiter m)\<lparr>ml_oom_triggered := True\<rparr>, om_oom_count := om_oom_count m + 1\<rparr>)
     else (Inr s, m\<lparr>om_check_count := om_check_count m + 1,
       om_limiter := (om_limiter m)\<lparr>ml_current_bytes := hs_total_memory_bytes s\<rparr>\<rparr>))"
  by (simp add: oom_check_def check_oom_def too_much_def effective_oom_limit_bytes_def Let_def)

lemma run_oom_exact:
  "run_oom ss m = (rs, m') \<Longrightarrow>
     list_all2 (\<lambda>s r. r = (if too_much m s
        then Inl (OomLimitExceeded (hs_total_memory_bytes s) (ml_limit_bytes (om_limiter m)) (ml_app_hostname (om_limiter m))) else Inr s)) ss rs
     \<and> (is_oom (om_limiter m') \<longleftrightarrow> is_oom (om_limiter m) \<or> list_ex (too_much m) ss)
     \<and> om_check_count m' = om_check_count m + of_nat (length ss)
     \<and> om_oom_count m' = om_oom_count m + of_nat (length (filter (too_much m) ss))"
proof (induction ss arbitrary: m rs m')
  case (Cons s ss)
  obtain r m1 where c: "oom_check s m = (r, m1)" by force
  obtain rs1 m2 where d: "run_oom ss m1 = (rs1, m2)" by force
  have e: "rs = r # rs1" "m' = m2" using Cons.prems c d by simp_all
  have f: "ml_limit_bytes (om_limiter m1) = ml_limit_bytes (om_limiter m)" "ml_app_hostname (om_limiter m1) = ml_app_hostname (om_limiter m)"
    "too_much m1 = too_much m"
    using c by (auto simp: oom_check_cases too_much_def fun_eq_iff effective_oom_limit_bytes_def split: if_splits)
  show ?case using Cons.IH [OF d] c unfolding e f
    by (auto simp: oom_check_cases is_oom_def split: if_splits)
qed simp

section \<open>Properties\<close>

text \<open>
  C20. The out-of-memory monitor is exact. Built with any limit in megabytes and any threshold, after any sequence of checks
  each check failed exactly when the heap and external memory exceeded the effective limit, with that usage, the
  configured limit and the host in its error; the flag is set exactly when one failed; both counters are exact. The effective
  limit never exceeds the configured one and is that number of megabytes, without rounding, for the threshold one.
\<close>

theorem oom_monitor_exact:
  assumes "b = for_hostname h (with_oom_threshold t (with_limit_mb n (builder_new i)))" "run_oom ss (builder_build b) = (rs, m)"
    "eff = unat (effective_oom_limit_bytes (om_limiter (builder_build b)))"
  shows "eff \<le> unat n * 1048576 \<and> (t = Fin 1 \<longrightarrow> eff = unat n * 1048576)
     \<and> list_all2 (\<lambda>s r. r = (if min (unat (hs_used_heap_size s) + unat (hs_external_memory s)) (2 ^ 64 - 1) > eff
          then Inl (OomLimitExceeded (hs_total_memory_bytes s) (mb_to_bytes n) h) else Inr s)) ss rs
     \<and> (is_oom (om_limiter m) \<longleftrightarrow> list_ex (\<lambda>r. \<not> is_ok r) rs)
     \<and> om_check_count m = of_nat (length ss) \<and> om_oom_count m = of_nat (length (filter (\<lambda>r. \<not> is_ok r) rs))"
proof -
  let ?m = "builder_build b"
  have b: "om_limiter ?m = (if clamp01 t = Fin 1 then limiter_for n h else limiter_with_threshold n h (clamp01 t))"
    "om_check_count ?m = 0" "om_oom_count ?m = 0"
    using assms(1) by (simp_all add: builder_build_def oom_monitor_new_def for_hostname_def with_oom_threshold_def with_limit_mb_def
      builder_new_def Let_def)
  have l: "ml_limit_bytes (om_limiter ?m) = mb_to_bytes n" "ml_app_hostname (om_limiter ?m) = h" "\<not> is_oom (om_limiter ?m)"
    by (simp_all add: b(1) limiter_for_def limiter_with_threshold_def is_oom_def)
  have one: "clamp01 (Fin 1) = Fin 1" by (simp add: clamp01_def Let_def f_lt_def)
  have th: "\<exists>x. ml_oom_threshold (om_limiter ?m) = clamp01 x"
    using one by (auto simp: b(1) limiter_for_def limiter_with_threshold_def intro: exI [of _ "Fin 1"])
  have small: "unat (ml_limit_bytes (om_limiter ?m)) < 2 ^ 52" using l(1) mb_to_bytes_value by simp
  have le: "eff \<le> unat n * 1048576"
    using th effective_limit(2) [OF small] assms(3) l(1) mb_to_bytes_value(1) [of n] by (auto simp: word_le_nat_alt)
  have eq: "t = Fin 1 \<longrightarrow> eff = unat n * 1048576"
    using effective_limit(1) [OF small] assms(3) l(1) mb_to_bytes_value(1) [of n] one by (auto simp: b(1) limiter_for_def)
  have tm: "too_much ?m s \<longleftrightarrow> min (unat (hs_used_heap_size s) + unat (hs_external_memory s)) (2 ^ 64 - 1) > eff" for s
    by (simp only: too_much_def hs_total_memory_bytes_def word_less_nat_alt saturating_add_value assms(3))
  note R = run_oom_exact [OF assms(2)]
  have res: "list_all2 (\<lambda>s r. r = (if too_much ?m s then Inl (OomLimitExceeded (hs_total_memory_bytes s) (mb_to_bytes n) h) else Inr s)) ss rs"
    using R unfolding l(1,2) by blast
  then have ok: "filter (\<lambda>r. \<not> is_ok r) rs = map (\<lambda>s. Inl (OomLimitExceeded (hs_total_memory_bytes s) (mb_to_bytes n) h)) (filter (too_much ?m) ss)"
    by (induction ss rs rule: list_all2_induct) auto
  then have ex: "list_ex (\<lambda>r. \<not> is_ok r) rs \<longleftrightarrow> list_ex (too_much ?m) ss"
    by (metis (no_types, lifting) filter_empty_conv list_ex_iff map_is_Nil_conv)
  from le eq res R ok ex show ?thesis unfolding tm using l(3) b(2,3) by simp
qed

theorem oom_monitor_exact_witness:
  "let s = empty_heap_statistics\<lparr>hs_used_heap_size := 2097153\<rparr>; m = builder_build (for_hostname ''a'' (with_oom_threshold (Fin 1) (with_limit_mb 2 (builder_new ''i''))))
   in fst (run_oom [s] m) = [Inl (OomLimitExceeded 2097153 2097152 ''a'')] \<and> is_oom (om_limiter (snd (run_oom [s] m)))"
proof -
  let ?s = "empty_heap_statistics\<lparr>hs_used_heap_size := 2097153\<rparr>"
  let ?b = "for_hostname ''a'' (with_oom_threshold (Fin 1) (with_limit_mb 2 (builder_new ''i'')))"
  obtain rs m where r: "run_oom [?s] (builder_build ?b) = (rs, m)" by force
  have e: "hs_total_memory_bytes ?s = 2097153" "mb_to_bytes 2 = 2097152" by (simp_all add: hs_total_memory_bytes_def saturating_add_def empty_heap_statistics_def mb_to_bytes_def)
  from oom_monitor_exact [OF refl r refl] e have "rs = [Inl (OomLimitExceeded 2097153 2097152 ''a'')]" "is_oom (om_limiter m)"
    by (auto simp: empty_heap_statistics_def list_all2_Cons1)
  then show ?thesis using r by (simp add: Let_def)
qed

end
