(* ===== verification/Worker_Timeouts.thy ===== *)
theory Worker_Timeouts
  imports Nano_Float Config_App
begin

text \<open>
  CPU time tracking (\<^verbatim>\<open>src/src/worker/cpu_tracker.rs\<close>), the execution timer (\<^verbatim>\<open>src/src/worker/timeout.rs\<close>) and the
  request watchdog (\<^verbatim>\<open>src/src/app/timeout.rs\<close>). What the system clocks answer at a call is its argument; a future
  or closure is the value it gives, with the instant at which it is ready. Terminating an isolate sets a flag.
  Instants and durations are nanoseconds unless a name says otherwise.
\<close>

section \<open>Definitions\<close>

subsection \<open>CPU time\<close>

datatype cpu_time_error = CpuLimitExceeded u64 u64 | TrackingFailed string

definition cpu_used_us :: "cpu_time_error \<Rightarrow> u64" where
  "cpu_used_us e = (case e of CpuLimitExceeded used limit \<Rightarrow> used | TrackingFailed _ \<Rightarrow> 0)"

definition cpu_limit_us :: "cpu_time_error \<Rightarrow> u64" where
  "cpu_limit_us e = (case e of CpuLimitExceeded used limit \<Rightarrow> limit | TrackingFailed _ \<Rightarrow> 0)"

definition cpu_used_ms :: "cpu_time_error \<Rightarrow> u64" where
  "cpu_used_ms e = (case e of CpuLimitExceeded used limit \<Rightarrow> used div 1000 | TrackingFailed _ \<Rightarrow> 0)"

definition cpu_limit_ms :: "cpu_time_error \<Rightarrow> u64" where
  "cpu_limit_ms e = (case e of CpuLimitExceeded used limit \<Rightarrow> limit div 1000 | TrackingFailed _ \<Rightarrow> 0)"

definition show_cpu_error :: "cpu_time_error \<Rightarrow> string" where
  "show_cpu_error e = (case e of
       CpuLimitExceeded used limit \<Rightarrow>
         ''CPU time limit exceeded: used '' @ show_nat (unat used) @ ''us, limit '' @ show_nat (unat limit) @ ''us''
     | TrackingFailed m \<Rightarrow> ''CPU time tracking failed: '' @ m)"

record cpu_snapshot =
  cs_cpu_micros :: u64
  cs_wall_micros :: u64

definition saturating_sub :: "u64 \<Rightarrow> u64 \<Rightarrow> u64" where
  "saturating_sub a b = (if b \<le> a then a - b else 0)"

definition elapsed_cpu_us :: "cpu_snapshot \<Rightarrow> cpu_snapshot \<Rightarrow> u64" where
  "elapsed_cpu_us start now = saturating_sub (cs_cpu_micros now) (cs_cpu_micros start)"

definition elapsed_wall_us :: "cpu_snapshot \<Rightarrow> cpu_snapshot \<Rightarrow> u64" where
  "elapsed_wall_us start now = saturating_sub (cs_wall_micros now) (cs_wall_micros start)"

definition cpu_ratio :: "cpu_snapshot \<Rightarrow> cpu_snapshot \<Rightarrow> f64" where
  "cpu_ratio start now =
     (let wall_us = elapsed_wall_us start now
      in if wall_us = 0 then Fin 0 else f_div (f_of_nat (unat (elapsed_cpu_us start now))) (f_of_nat (unat wall_us)))"

text \<open>What the clocks answer: microseconds since the epoch, unless the time is before it, and the seconds and
  nanoseconds of the thread's CPU clock, unless the call fails.\<close>

record clock =
  ck_wall :: "u64 option"
  ck_thread :: "(u64 \<times> u64) option"

definition get_thread_cpu_time_us :: "clock \<Rightarrow> u64 option" where
  "get_thread_cpu_time_us ck = map_option (\<lambda>(tv_sec, tv_nsec). tv_sec * 1000000 + tv_nsec div 1000) (ck_thread ck)"

record cpu_tracker =
  ct_limit_us :: u64
  ct_enabled :: bool
  ct_limit_exceeded :: bool

definition with_limit_us :: "u64 \<Rightarrow> cpu_tracker" where
  "with_limit_us n = \<lparr>ct_limit_us = n, ct_enabled = True, ct_limit_exceeded = False\<rparr>"

definition cpu_tracker_new :: "u32 \<Rightarrow> cpu_tracker" where
  "cpu_tracker_new limit_ms = with_limit_us (ucast limit_ms * 1000)"

definition cpu_tracker_disabled :: cpu_tracker where
  "cpu_tracker_disabled = \<lparr>ct_limit_us = - 1, ct_enabled = False, ct_limit_exceeded = False\<rparr>"

definition tracker_limit_ms :: "cpu_tracker \<Rightarrow> u64" where
  "tracker_limit_ms t = ct_limit_us t div 1000"

definition set_enabled :: "bool \<Rightarrow> cpu_tracker \<Rightarrow> cpu_tracker" where
  "set_enabled b t = t\<lparr>ct_enabled := b\<rparr>"

definition set_limit_ms :: "u32 \<Rightarrow> cpu_tracker \<Rightarrow> cpu_tracker" where
  "set_limit_ms n t = t\<lparr>ct_limit_us := ucast n * 1000\<rparr>"

definition set_limit_us :: "u64 \<Rightarrow> cpu_tracker \<Rightarrow> cpu_tracker" where
  "set_limit_us n t = t\<lparr>ct_limit_us := n\<rparr>"

definition cpu_reset :: "cpu_tracker \<Rightarrow> cpu_tracker" where
  "cpu_reset t = t\<lparr>ct_limit_exceeded := False\<rparr>"

definition cpu_snapshot_of :: "clock \<Rightarrow> cpu_tracker \<Rightarrow> cpu_snapshot option" where
  "cpu_snapshot_of ck t =
     (if \<not> ct_enabled t then None
      else case ck_wall ck of
          None \<Rightarrow> None
        | Some wall \<Rightarrow> (case get_thread_cpu_time_us ck of
            Some cpu \<Rightarrow> Some \<lparr>cs_cpu_micros = cpu, cs_wall_micros = wall\<rparr>
          | None \<Rightarrow> Some \<lparr>cs_cpu_micros = wall, cs_wall_micros = wall\<rparr>))"

definition dummy_snapshot :: "clock \<Rightarrow> cpu_snapshot" where
  "dummy_snapshot ck = (let now = (case ck_wall ck of Some w \<Rightarrow> w | None \<Rightarrow> 0) in \<lparr>cs_cpu_micros = now, cs_wall_micros = now\<rparr>)"

definition check_cpu :: "clock \<Rightarrow> cpu_snapshot \<Rightarrow> cpu_tracker \<Rightarrow> (cpu_time_error + cpu_snapshot) \<times> cpu_tracker" where
  "check_cpu ck start t =
     (if \<not> ct_enabled t then (Inr (dummy_snapshot ck), t)
      else case cpu_snapshot_of ck t of
          None \<Rightarrow> (Inl (TrackingFailed ''Failed to capture CPU time snapshot''), t)
        | Some now \<Rightarrow>
            (let elapsed_us = elapsed_cpu_us start now
             in if elapsed_us > ct_limit_us t
                then (Inl (CpuLimitExceeded elapsed_us (ct_limit_us t)), t\<lparr>ct_limit_exceeded := True\<rparr>)
                else (Inr now, t)))"

definition peek_cpu :: "clock \<Rightarrow> cpu_snapshot \<Rightarrow> cpu_tracker \<Rightarrow> cpu_snapshot \<times> u64" where
  "peek_cpu ck start t = (case cpu_snapshot_of ck t of
       Some now \<Rightarrow> (now, elapsed_cpu_us start now)
     | None \<Rightarrow> (dummy_snapshot ck, 0))"

definition cpu_start :: "clock \<Rightarrow> cpu_tracker \<Rightarrow> cpu_time_error + cpu_snapshot" where
  "cpu_start ck t = (case cpu_snapshot_of ck t of
       Some s \<Rightarrow> Inr s
     | None \<Rightarrow> Inl (TrackingFailed ''Failed to start CPU tracking - platform not supported''))"

subsection \<open>The execution timer\<close>

datatype exec_timeout_error =
    CpuTimeExceeded u64 u64
  | WallClockExceeded u64
  | ExecutionTerminated
  | ConfigError string
  | TimerError string

definition is_cpu_timeout :: "exec_timeout_error \<Rightarrow> bool" where
  "is_cpu_timeout e = (case e of CpuTimeExceeded _ _ \<Rightarrow> True | _ \<Rightarrow> False)"

definition is_wall_clock_timeout :: "exec_timeout_error \<Rightarrow> bool" where
  "is_wall_clock_timeout e = (case e of WallClockExceeded _ \<Rightarrow> True | _ \<Rightarrow> False)"

definition timeout_limit_ms :: "exec_timeout_error \<Rightarrow> u64 option" where
  "timeout_limit_ms e = (case e of CpuTimeExceeded _ l \<Rightarrow> Some l | WallClockExceeded l \<Rightarrow> Some l | _ \<Rightarrow> None)"

record execution_timer =
  et_config :: timeout_config
  et_cpu_tracker :: cpu_tracker
  et_active :: bool

definition timer_with_config :: "timeout_config \<Rightarrow> execution_timer" where
  "timer_with_config config =
     (let config = (case validate_timeout config of Inr _ \<Rightarrow> config | Inl _ \<Rightarrow> default_timeout_config)
      in \<lparr>et_config = config, et_cpu_tracker = cpu_tracker_new (cpu_time_limit_ms config), et_active = False\<rparr>)"

definition timer_new :: execution_timer where
  "timer_new = timer_with_config default_timeout_config"

definition timer_with_cpu_limit :: "u32 \<Rightarrow> execution_timer" where
  "timer_with_cpu_limit n = timer_with_config (with_cpu_limit n)"

text \<open>The timer, the process-wide timeout flag, and whether the isolate was told to terminate.\<close>

record timer_state =
  ts_timer :: execution_timer
  ts_signaled :: bool
  ts_terminated :: bool

definition set_active :: "bool \<Rightarrow> timer_state \<Rightarrow> timer_state" where
  "set_active b s = s\<lparr>ts_timer := (ts_timer s)\<lparr>et_active := b\<rparr>\<rparr>"

definition set_tracker :: "cpu_tracker \<Rightarrow> timer_state \<Rightarrow> timer_state" where
  "set_tracker t s = s\<lparr>ts_timer := (ts_timer s)\<lparr>et_cpu_tracker := t\<rparr>\<rparr>"

definition start_error :: "cpu_time_error \<Rightarrow> exec_timeout_error" where
  "start_error e = ConfigError (''Failed to start CPU tracking: '' @ show_cpu_error e)"

definition exceeded_error :: "u64 \<Rightarrow> u64 \<Rightarrow> exec_timeout_error" where
  "exceeded_error used_us limit_us = CpuTimeExceeded (used_us div 1000) (limit_us div 1000)"

text \<open>\<open>v\<close> is the value of the closure, \<open>ck0\<close> and \<open>ck1\<close> the clocks before and after it.\<close>

definition execute_and_check :: "clock \<Rightarrow> 'a \<Rightarrow> clock \<Rightarrow> timer_state \<Rightarrow> (exec_timeout_error + 'a) \<times> timer_state" where
  "execute_and_check ck0 v ck1 s = (case cpu_start ck0 (et_cpu_tracker (ts_timer s)) of
       Inl e \<Rightarrow> (Inl (start_error e), s)
     | Inr start \<Rightarrow>
         (let s1 = (set_active True s)\<lparr>ts_signaled := False\<rparr>;
              (cpu_result, t) = check_cpu ck1 start (et_cpu_tracker (ts_timer s1));
              s2 = set_active False (set_tracker t s1)
          in case cpu_result of
               Inr _ \<Rightarrow> (Inr v, s2)
             | Inl (CpuLimitExceeded used_us limit_us) \<Rightarrow> (Inl (exceeded_error used_us limit_us), s2\<lparr>ts_terminated := True\<rparr>)
             | Inl _ \<Rightarrow> (Inr v, s2)))"

text \<open>
  A wake-up of the task that waits in \<^verbatim>\<open>select!\<close>: the instant, the clocks, the timeout flag as it is then, and
  what polling the future would give. The three branches of a wake-up are polled one after the other; the model takes one
  instant for the three, as the time between two polls is far below the shortest of the sleeps.
\<close>

record 'a wake =
  wk_now :: nat
  wk_clock :: clock
  wk_signaled :: bool
  wk_poll :: "'a option"

text \<open>
  The loop. \<open>fires d t\<close> says that a sleep until \<open>d\<close> is over at \<open>t\<close>. The branches are tried in order, as
  \<^verbatim>\<open>biased\<close> demands; both short sleeps are created anew in every iteration, which starts at \<open>iter\<close>. No result means that
  the task still waits after the given wake-ups.
\<close>

fun timer_loop ::
  "(nat \<Rightarrow> nat \<Rightarrow> bool) \<Rightarrow> cpu_snapshot \<Rightarrow> nat \<Rightarrow> nat \<Rightarrow> nat \<Rightarrow> 'a wake list \<Rightarrow> timer_state
     \<Rightarrow> ((exec_timeout_error + 'a) \<times> timer_state) option" where
  "timer_loop fires start wall_deadline start_time iter [] s = None"
| "timer_loop fires start wall_deadline start_time iter (w # ws) s =
     (let now = wk_now w;
          config = et_config (ts_timer s);
          next = (if now - start_time > grace_duration config
            then (case check_cpu (wk_clock w) start (et_cpu_tracker (ts_timer s)) of
                (Inl (CpuLimitExceeded used_us limit_us), t) \<Rightarrow>
                  Some (Inl (exceeded_error used_us limit_us), set_active False ((set_tracker t s)\<lparr>ts_terminated := True\<rparr>))
              | (_, t) \<Rightarrow> timer_loop fires start wall_deadline start_time now ws (set_tracker t s))
            else timer_loop fires start wall_deadline start_time now ws s)
      in if fires wall_deadline now
         then Some (Inl (WallClockExceeded (ucast (wall_clock_limit_ms config))), set_active False s)
         else if fires (iter + 100000) now
         then if wk_signaled w
              then Some (Inl ExecutionTerminated, set_active False (s\<lparr>ts_signaled := False, ts_terminated := True\<rparr>))
              else next
         else if fires (iter + 5000000) now
         then (case wk_poll w of
             Some v \<Rightarrow> (case check_cpu (wk_clock w) start (et_cpu_tracker (ts_timer s)) of
                 (Inl (CpuLimitExceeded used_us limit_us), t) \<Rightarrow>
                   Some (Inl (exceeded_error used_us limit_us), set_active False ((set_tracker t s)\<lparr>ts_terminated := True\<rparr>))
               | (_, t) \<Rightarrow> Some (Inr v, set_active False (set_tracker t s)))
           | None \<Rightarrow> next)
         else timer_loop fires start wall_deadline start_time iter ws s)"

definition run_with_timeout ::
  "(nat \<Rightarrow> nat \<Rightarrow> bool) \<Rightarrow> clock \<Rightarrow> nat \<Rightarrow> 'a wake list \<Rightarrow> timer_state \<Rightarrow> ((exec_timeout_error + 'a) \<times> timer_state) option" where
  "run_with_timeout fires ck now ws s = (case cpu_start ck (et_cpu_tracker (ts_timer s)) of
       Inl e \<Rightarrow> Some (Inl (start_error e), s)
     | Inr start \<Rightarrow> timer_loop fires start (now + wall_clock_duration (et_config (ts_timer s))) now now ws
         ((set_active True s)\<lparr>ts_signaled := False\<rparr>))"

subsection \<open>The request watchdog\<close>

datatype request_timeout_error = RequestTimeout u32 u64 string | Cancelled | Internal string

definition rt_is_timeout :: "request_timeout_error \<Rightarrow> bool" where
  "rt_is_timeout e = (case e of RequestTimeout _ _ _ \<Rightarrow> True | _ \<Rightarrow> False)"

record request_timeout_config =
  rc_timeout_secs :: u32
  rc_enabled :: bool
  rc_grace_period_ms :: u64

definition request_timeout_new :: "u32 \<Rightarrow> request_timeout_config" where
  "request_timeout_new secs = \<lparr>rc_timeout_secs = secs, rc_enabled = True, rc_grace_period_ms = 100\<rparr>"

definition request_timeout_disabled :: request_timeout_config where
  "request_timeout_disabled = \<lparr>rc_timeout_secs = 0, rc_enabled = False, rc_grace_period_ms = 0\<rparr>"

definition request_timeout_valid :: "request_timeout_config \<Rightarrow> bool" where
  "request_timeout_valid c = (rc_enabled c \<and> rc_timeout_secs c > 0)"

record timeout_watchdog =
  wd_deadline :: nat
  wd_timeout_duration :: nat
  wd_app_hostname :: string
  wd_expired :: bool

definition watchdog_new :: "nat \<Rightarrow> u32 \<Rightarrow> string \<Rightarrow> timeout_watchdog" where
  "watchdog_new now secs h =
     (let d = unat secs * 1000000000
      in \<lparr>wd_deadline = now + d, wd_timeout_duration = d, wd_app_hostname = h, wd_expired = False\<rparr>)"

definition watchdog_from_config :: "nat \<Rightarrow> request_timeout_config \<Rightarrow> string \<Rightarrow> timeout_watchdog option" where
  "watchdog_from_config now c h = (if \<not> request_timeout_valid c then None else Some (watchdog_new now (rc_timeout_secs c) h))"

definition check_expired :: "nat \<Rightarrow> timeout_watchdog \<Rightarrow> bool \<times> timeout_watchdog" where
  "check_expired now w = (let expired = now > wd_deadline w in (expired, if expired then w\<lparr>wd_expired := True\<rparr> else w))"

definition remaining_ms :: "nat \<Rightarrow> timeout_watchdog \<Rightarrow> u64" where
  "remaining_ms now w = (if now \<ge> wd_deadline w then 0 else of_nat ((wd_deadline w - now) div 1000000))"

definition wd_elapsed_ms :: "nat \<Rightarrow> timeout_watchdog \<Rightarrow> u64" where
  "wd_elapsed_ms now w = of_nat ((wd_timeout_duration w - unat (remaining_ms now w) * 1000000) div 1000000)"

definition wd_cancel :: "timeout_watchdog \<Rightarrow> timeout_watchdog" where
  "wd_cancel w = w\<lparr>wd_expired := True\<rparr>"

definition timeout_error :: "nat \<Rightarrow> timeout_watchdog \<Rightarrow> request_timeout_error" where
  "timeout_error now w = RequestTimeout (of_nat (wd_timeout_duration w div 1000000000)) (wd_elapsed_ms now w) (wd_app_hostname w)"

text \<open>
  The future is ready at an instant with a value, or never. The sleep ends at its deadline. Where both are ready,
  \<^verbatim>\<open>select!\<close> picks a branch at random: \<open>pick\<close>.
\<close>

definition run_future ::
  "bool \<Rightarrow> nat \<Rightarrow> (nat \<times> 'a) option \<Rightarrow> timeout_watchdog \<Rightarrow> (request_timeout_error + 'a) \<times> timeout_watchdog" where
  "run_future pick now f w =
     (let remaining = remaining_ms now w in
      if remaining = 0 then (Inl (timeout_error now w), w)
      else let sleep_end = now + unat remaining * 1000000 in
        case f of
          Some (t, v) \<Rightarrow> if t < sleep_end \<or> t = sleep_end \<and> pick then (Inr v, w)
            else (Inl (timeout_error sleep_end w), w\<lparr>wd_expired := True\<rparr>)
        | None \<Rightarrow> (Inl (timeout_error sleep_end w), w\<lparr>wd_expired := True\<rparr>))"

text \<open>The same for a closure on another thread; a closure that panics closes the channel without a value.\<close>

definition run_blocking ::
  "bool \<Rightarrow> nat \<Rightarrow> (nat \<times> 'a option) option \<Rightarrow> timeout_watchdog \<Rightarrow> (request_timeout_error + 'a) \<times> timeout_watchdog" where
  "run_blocking pick now f w = (case run_future pick now f w of
       (Inl e, w') \<Rightarrow> (Inl e, w')
     | (Inr (Some v), w') \<Rightarrow> (Inr v, w')
     | (Inr None, w') \<Rightarrow> (Inl (Internal ''Result channel closed''), w'))"

definition with_timeout :: "bool \<Rightarrow> nat \<Rightarrow> u32 \<Rightarrow> string \<Rightarrow> (nat \<times> 'a) option \<Rightarrow> request_timeout_error + 'a" where
  "with_timeout pick now secs h f = fst (run_future pick now f (watchdog_new now secs h))"

definition with_blocking_timeout :: "bool \<Rightarrow> nat \<Rightarrow> u32 \<Rightarrow> string \<Rightarrow> (nat \<times> 'a option) option \<Rightarrow> request_timeout_error + 'a" where
  "with_blocking_timeout pick now secs h f = fst (run_blocking pick now f (watchdog_new now secs h))"

text \<open>The guard: whether it still has the handle of the isolate, and whether the isolate was told to terminate.\<close>

record termination_guard =
  tg_handle :: bool
  tg_watchdog :: timeout_watchdog
  tg_terminated :: bool

definition guard_new :: "nat \<Rightarrow> u32 \<Rightarrow> string \<Rightarrow> termination_guard" where
  "guard_new now secs h = \<lparr>tg_handle = True, tg_watchdog = watchdog_new now secs h, tg_terminated = False\<rparr>"

definition check_and_terminate :: "nat \<Rightarrow> termination_guard \<Rightarrow> bool \<times> termination_guard" where
  "check_and_terminate now g = (case check_expired now (tg_watchdog g) of
       (expired, w) \<Rightarrow> (expired, g\<lparr>tg_watchdog := w, tg_terminated := tg_terminated g \<or> expired \<and> tg_handle g\<rparr>))"

definition guard_drop :: "nat \<Rightarrow> termination_guard \<Rightarrow> termination_guard" where
  "guard_drop now g = (case check_expired now (tg_watchdog g) of
       (expired, w) \<Rightarrow> if expired then g\<lparr>tg_watchdog := w, tg_terminated := tg_terminated g \<or> tg_handle g, tg_handle := False\<rparr>
         else g\<lparr>tg_watchdog := w\<rparr>)"

subsection \<open>Specification vocabulary\<close>

definition quiet_clock :: clock where
  "quiet_clock = \<lparr>ck_wall = Some 0, ck_thread = Some (0, 0)\<rparr>"

text \<open>CPU microseconds between two readings of the thread's clock.\<close>

definition cpu_spent :: "clock \<Rightarrow> clock \<Rightarrow> u64" where
  "cpu_spent a b = saturating_sub (case get_thread_cpu_time_us b of Some x \<Rightarrow> x | None \<Rightarrow> 0) (case get_thread_cpu_time_us a of Some x \<Rightarrow> x | None \<Rightarrow> 0)"

section \<open>Lemmas\<close>

lemma check_cpu_cases:
  assumes "ct_enabled t" "ck_wall ck = Some wall" "ck_thread ck = Some (sec, ns)"
  shows "check_cpu ck start t =
    (let now = \<lparr>cs_cpu_micros = sec * 1000000 + ns div 1000, cs_wall_micros = wall\<rparr>; used = elapsed_cpu_us start now
     in if used > ct_limit_us t then (Inl (CpuLimitExceeded used (ct_limit_us t)), t\<lparr>ct_limit_exceeded := True\<rparr>) else (Inr now, t))"
  using assms by (simp add: check_cpu_def cpu_snapshot_of_def get_thread_cpu_time_us_def Let_def)

lemma timer_with_config_limits:
  "let t = timer_with_config c in validate_timeout (et_config t) = Inr () \<and> ct_enabled (et_cpu_tracker t)
     \<and> \<not> ct_limit_exceeded (et_cpu_tracker t) \<and> unat (ct_limit_us (et_cpu_tracker t)) = unat (cpu_time_limit_ms (et_config t)) * 1000
     \<and> 1 \<le> unat (cpu_time_limit_ms (et_config t)) \<and> unat (cpu_time_limit_ms (et_config t)) \<le> 1000"
proof -
  define d where "d = (case validate_timeout c of Inr _ \<Rightarrow> c | Inl _ \<Rightarrow> default_timeout_config)"
  have t: "timer_with_config c = \<lparr>et_config = d, et_cpu_tracker = cpu_tracker_new (cpu_time_limit_ms d), et_active = False\<rparr>"
    by (simp add: timer_with_config_def d_def Let_def)
  have "validate_timeout default_timeout_config = Inr ()" by (simp add: validate_timeout_def default_timeout_config_def)
  then have v: "validate_timeout d = Inr ()" by (simp add: d_def split: sum.split)
  then have r: "1 \<le> unat (cpu_time_limit_ms d)" "unat (cpu_time_limit_ms d) \<le> 1000"
    by (auto simp: validate_timeout_def word_less_nat_alt split: if_splits)
  have "unat ((ucast (cpu_time_limit_ms d) :: u64) * 1000) = unat (cpu_time_limit_ms d) * 1000"
    using r(2) usize_of_nat [of "unat (cpu_time_limit_ms d) * 1000"] by simp
  then show ?thesis using v r by (simp add: t cpu_tracker_new_def with_limit_us_def Let_def)
qed

lemma check_cpu_result:
  "check_cpu ck start t = (r, t') \<Longrightarrow> t' = t \<or> t' = t\<lparr>ct_limit_exceeded := True\<rparr> \<and> (\<exists>a b. r = Inl (CpuLimitExceeded a b))"
  by (auto simp: check_cpu_def Let_def split: if_splits option.splits)

text \<open>
  A sleep that ends later is over only if one that ends earlier is; then the branch that polls the future is never taken.
\<close>

lemma timer_loop_never_ok:
  assumes mono: "\<forall>d d' t. d \<le> d' \<longrightarrow> fires d' t \<longrightarrow> fires d t"
  shows "case timer_loop fires start dl began iter ws s of
      None \<Rightarrow> list_all (\<lambda>w. \<not> fires dl (wk_now w)) ws
    | Some (r, s') \<Rightarrow> \<not> is_ok r \<and> \<not> et_active (ts_timer s')
        \<and> (is_wall_clock_timeout (projl r) \<longrightarrow> projl r = WallClockExceeded (ucast (wall_clock_limit_ms (et_config (ts_timer s))))
              \<and> list_ex (\<lambda>w. fires dl (wk_now w)) ws)
        \<and> (\<not> is_wall_clock_timeout (projl r) \<longrightarrow> ts_terminated s' \<and> (is_cpu_timeout (projl r) \<or> projl r = ExecutionTerminated))"
proof (induction ws arbitrary: iter s)
  case (Cons w ws)
  let ?ts = "et_cpu_tracker (ts_timer s)"
  obtain r t where c: "check_cpu (wk_clock w) start ?ts = (r, t)" by force
  have no: "fires (iter + 5000000) n \<Longrightarrow> fires (iter + 100000) n" for n using mono [rule_format, of "iter + 100000" "iter + 5000000"] by simp
  have cfg: "et_config (ts_timer (set_tracker t s)) = et_config (ts_timer s)" by (simp add: set_tracker_def)
  note IH = Cons.IH [where iter = iter and s = s] Cons.IH [where iter = "wk_now w" and s = s]
    Cons.IH [where iter = "wk_now w" and s = "set_tracker t s", unfolded cfg]
  have ex: "P \<Longrightarrow> list_ex P' (w # ws) \<longleftrightarrow> P' w \<or> list_ex P' ws" for P P' by simp
  consider (wall) "fires dl (wk_now w)" | (signal) "\<not> fires dl (wk_now w)" "fires (iter + 100000) (wk_now w)" "wk_signaled w"
    | (grace) "\<not> fires dl (wk_now w)" "fires (iter + 100000) (wk_now w)" "\<not> wk_signaled w" "\<not> wk_now w - began > grace_duration (et_config (ts_timer s))"
    | (check) "\<not> fires dl (wk_now w)" "fires (iter + 100000) (wk_now w)" "\<not> wk_signaled w" "wk_now w - began > grace_duration (et_config (ts_timer s))"
    | (idle) "\<not> fires dl (wk_now w)" "\<not> fires (iter + 100000) (wk_now w)" by blast
  then show ?case
  proof cases
    case wall then show ?thesis by (simp add: is_wall_clock_timeout_def is_cpu_timeout_def set_active_def Let_def)
  next
    case signal then show ?thesis by (simp add: is_wall_clock_timeout_def is_cpu_timeout_def set_active_def Let_def)
  next
    case grace then show ?thesis using IH(2) by (auto simp: Let_def split: option.splits)
  next
    case check
    show ?thesis
    proof (cases "\<exists>a b. r = Inl (CpuLimitExceeded a b)")
      case True
      then obtain a b where "r = Inl (CpuLimitExceeded a b)" by blast
      then show ?thesis using check c by (simp add: is_wall_clock_timeout_def is_cpu_timeout_def exceeded_error_def set_active_def Let_def)
    next
      case False
      then have "timer_loop fires start dl began iter (w # ws) s = timer_loop fires start dl began (wk_now w) ws (set_tracker t s)"
        using check c by (auto simp: Let_def split: sum.split cpu_time_error.split)
      then show ?thesis using IH(3) check(1) by (auto split: option.splits simp del: timer_loop.simps)
    qed
  next
    case idle
    then have "\<not> fires (iter + 5000000) (wk_now w)" using no by blast
    then show ?thesis using IH(1) idle by (auto simp: Let_def split: option.splits)
  qed
qed simp

section \<open>Properties\<close>

text \<open>
  C21. \<^verbatim>\<open>run_with_timeout\<close> never returns the value of its future, whatever the future, the clocks and the wake-ups are. It either
  waits, and then the wall-clock limit is not over, or it fails: at the wall-clock limit, after termination of the
  isolate for CPU time or a signal, or because CPU tracking cannot start. The 100-microsecond sleep stands before the
  5-millisecond one, both start anew in each iteration, and the future is polled only when the second wins.
\<close>

theorem run_with_timeout_never_ok:
  assumes "\<forall>d d' t. d \<le> d' \<longrightarrow> fires d' t \<longrightarrow> fires d t"
    "c = et_config (ts_timer s)"
  shows "case run_with_timeout fires ck now ws s of
      None \<Rightarrow> list_all (\<lambda>w. \<not> fires (now + wall_clock_duration c) (wk_now w)) ws
    | Some (Inr v, s') \<Rightarrow> False
    | Some (Inl (WallClockExceeded l), s') \<Rightarrow> l = ucast (wall_clock_limit_ms c) \<and> list_ex (\<lambda>w. fires (now + wall_clock_duration c) (wk_now w)) ws
    | Some (Inl (ConfigError m), s') \<Rightarrow> \<not> is_ok (cpu_start ck (et_cpu_tracker (ts_timer s))) \<and> s' = s
    | Some (Inl (TimerError m), s') \<Rightarrow> False
    | Some (Inl e, s') \<Rightarrow> ts_terminated s' \<and> \<not> et_active (ts_timer s')"
proof (cases "cpu_start ck (et_cpu_tracker (ts_timer s))")
  case (Inl e) then show ?thesis by (simp add: run_with_timeout_def start_error_def)
next
  case (Inr start)
  let ?s = "(set_active True s)\<lparr>ts_signaled := False\<rparr>"
  have c: "et_config (ts_timer ?s) = c" by (simp add: assms(2) set_active_def)
  have r: "run_with_timeout fires ck now ws s = timer_loop fires start (now + wall_clock_duration c) now now ws ?s"
    by (simp add: run_with_timeout_def Inr assms(2))
  show ?thesis unfolding r
    using timer_loop_never_ok [OF assms(1), where start = start and dl = "now + wall_clock_duration c" and began = now and iter = now and ws = ws and s = ?s]
    unfolding c
    by (auto simp: is_wall_clock_timeout_def is_cpu_timeout_def split: option.splits sum.splits exec_timeout_error.splits)
qed

text \<open>A future that is ready from the start, under a wall-clock limit of two milliseconds.\<close>

theorem run_with_timeout_never_ok_witness:
  "let s = \<lparr>ts_timer = timer_with_config \<lparr>cpu_time_limit_ms = 1, wall_clock_limit_ms = 2, termination_grace_us = 100\<rparr>,
         ts_signaled = False, ts_terminated = False\<rparr>;
       w = (\<lambda>t. \<lparr>wk_now = t * 1000000, wk_clock = quiet_clock, wk_signaled = False, wk_poll = Some ''value''\<rparr>)
   in map_option fst (run_with_timeout (\<le>) quiet_clock 0 [w 1] s) = None
      \<and> map_option fst (run_with_timeout (\<le>) quiet_clock 0 [w 1, w 2] s) = Some (Inl (WallClockExceeded 2))"
proof -
  let ?s = "\<lparr>ts_timer = timer_with_config \<lparr>cpu_time_limit_ms = 1, wall_clock_limit_ms = 2, termination_grace_us = 100\<rparr>,
         ts_signaled = False, ts_terminated = False\<rparr>"
  let ?w = "\<lambda>t. \<lparr>wk_now = t * 1000000, wk_clock = quiet_clock, wk_signaled = False, wk_poll = Some ''value''\<rparr>"
  have m: "\<forall>d d' t. d \<le> d' \<longrightarrow> d' \<le> t \<longrightarrow> d \<le> (t :: nat)" by simp
  note P = run_with_timeout_never_ok [OF m refl, where ck = quiet_clock and now = 0 and s = ?s]
  have t: "timer_with_config \<lparr>cpu_time_limit_ms = 1, wall_clock_limit_ms = 2, termination_grace_us = 100\<rparr>
      = \<lparr>et_config = \<lparr>cpu_time_limit_ms = 1, wall_clock_limit_ms = 2, termination_grace_us = 100\<rparr>,
         et_cpu_tracker = with_limit_us 1000, et_active = False\<rparr>"
    by (simp add: timer_with_config_def validate_timeout_def cpu_tracker_new_def)
  note run = t run_with_timeout_def cpu_start_def cpu_snapshot_of_def get_thread_cpu_time_us_def quiet_clock_def with_limit_us_def
    set_active_def set_tracker_def check_cpu_def elapsed_cpu_us_def saturating_sub_def wall_clock_duration_def grace_duration_def
  have a: "run_with_timeout (\<le>) quiet_clock 0 [?w 1] ?s = None" by (simp add: run)
  have "map_option fst (run_with_timeout (\<le>) quiet_clock 0 [?w 1, ?w 2] ?s) = Some (Inl (WallClockExceeded 2))" by (simp add: run)
  with a P [where ws = "[?w 1]"] show ?thesis by (simp add: Let_def)
qed

text \<open>
  The synchronous timer is exact. A timer built from any configuration, however invalid, has a CPU limit between one millisecond
  and one second. With readable clocks, the closure's value is returned exactly when it used at most that CPU time;
  otherwise the isolate is told to terminate, the exceeded flag is set and the error tells the use and the limit in
  milliseconds. The timer is inactive and the signal cleared afterwards either way.
\<close>

theorem execute_and_check_exact:
  assumes "s = \<lparr>ts_timer = timer_with_config c, ts_signaled = b, ts_terminated = False\<rparr>"
    "ck_wall ck0 \<noteq> None" "ck_thread ck0 \<noteq> None" "ck_wall ck1 \<noteq> None" "ck_thread ck1 \<noteq> None"
    "execute_and_check ck0 v ck1 s = (r, s')" "limit = unat (cpu_time_limit_ms (et_config (ts_timer s)))"
  shows "1 \<le> limit \<and> limit \<le> 1000
    \<and> (if unat (cpu_spent ck0 ck1) \<le> limit * 1000 then r = Inr v \<and> \<not> ts_terminated s' \<and> \<not> ct_limit_exceeded (et_cpu_tracker (ts_timer s'))
       else r = Inl (CpuTimeExceeded (cpu_spent ck0 ck1 div 1000) (of_nat limit)) \<and> ts_terminated s' \<and> ct_limit_exceeded (et_cpu_tracker (ts_timer s')))
    \<and> \<not> et_active (ts_timer s') \<and> \<not> ts_signaled s' \<and> et_config (ts_timer s') = et_config (ts_timer s)"
proof -
  let ?t = "et_cpu_tracker (timer_with_config c)"
  note T = timer_with_config_limits [of c, unfolded Let_def]
  have l: "limit = unat (cpu_time_limit_ms (et_config (timer_with_config c)))" by (simp add: assms(7,1))
  have lim: "unat (ct_limit_us ?t) = limit * 1000" "1 \<le> limit" "limit \<le> 1000" "ct_enabled ?t" "\<not> ct_limit_exceeded ?t" using T l by auto
  obtain w0 a0 n0 w1 a1 n1 where ck: "ck_wall ck0 = Some w0" "ck_thread ck0 = Some (a0, n0)" "ck_wall ck1 = Some w1" "ck_thread ck1 = Some (a1, n1)"
    using assms(2-5) by force
  have d: "ct_limit_us ?t div 1000 = of_nat limit"
  proof -
    have "unat (ct_limit_us ?t div 1000) = limit" using lim(1) by (simp add: unat_div)
    then show ?thesis by (metis of_nat_unat ucast_id)
  qed
  have start: "cpu_start ck0 ?t = Inr \<lparr>cs_cpu_micros = a0 * 1000000 + n0 div 1000, cs_wall_micros = w0\<rparr>"
    using lim(4) ck by (simp add: cpu_start_def cpu_snapshot_of_def get_thread_cpu_time_us_def)
  have e: "elapsed_cpu_us \<lparr>cs_cpu_micros = a0 * 1000000 + n0 div 1000, cs_wall_micros = w0\<rparr> \<lparr>cs_cpu_micros = a1 * 1000000 + n1 div 1000, cs_wall_micros = w1\<rparr>
      = cpu_spent ck0 ck1"
    by (simp add: elapsed_cpu_us_def cpu_spent_def get_thread_cpu_time_us_def ck)
  have le: "ct_limit_us ?t < cpu_spent ck0 ck1 \<longleftrightarrow> \<not> unat (cpu_spent ck0 ck1) \<le> limit * 1000" using lim(1) by (simp add: word_less_nat_alt not_le)
  from assms(6) show ?thesis
    using lim(2,3,5) d le
    by (auto simp: execute_and_check_def assms(1) start set_active_def set_tracker_def check_cpu_cases [OF lim(4) ck(3,4)] Let_def e exceeded_error_def
      split: if_splits)
qed

theorem execute_and_check_exact_witness:
  "let s = \<lparr>ts_timer = timer_with_cpu_limit 0, ts_signaled = True, ts_terminated = False\<rparr>;
       late = \<lparr>ck_wall = Some 9, ck_thread = Some (0, 51000000)\<rparr>
   in fst (execute_and_check quiet_clock ''v'' late s) = Inl (CpuTimeExceeded 51 50)
      \<and> ts_terminated (snd (execute_and_check quiet_clock ''v'' late s))"
proof -
  let ?s = "\<lparr>ts_timer = timer_with_config (with_cpu_limit 0), ts_signaled = True, ts_terminated = False\<rparr>"
  let ?late = "\<lparr>ck_wall = Some 9, ck_thread = Some (0, 51000000)\<rparr>"
  obtain r s' where e: "execute_and_check quiet_clock ''v'' ?late ?s = (r, s')" by force
  have l: "cpu_time_limit_ms (et_config (ts_timer ?s)) = 50" by code_simp
  have u: "cpu_spent quiet_clock ?late = 51000" by code_simp
  have "r = Inl (CpuTimeExceeded 51 50)" "ts_terminated s'"
    using execute_and_check_exact [OF refl _ _ _ _ e refl] unfolding l u by (simp_all add: quiet_clock_def)
  then show ?thesis using e by (simp add: Let_def timer_with_cpu_limit_def)
qed

text \<open>
  A request runs under the watchdog for its whole timeout and no longer. The value of the future is returned when it is ready
  before the deadline and the timeout error when it is not; the error tells the configured seconds, the same time in
  milliseconds as elapsed, and the host. At the deadline itself either may happen. A timeout of zero seconds fails every
  request at once.
\<close>

theorem with_timeout_exact:
  "with_timeout pick now secs h f = (case f of
       Some (t, v) \<Rightarrow> if secs \<noteq> 0 \<and> (t < now + unat secs * 1000000000 \<or> t = now + unat secs * 1000000000 \<and> pick) then Inr v
         else Inl (RequestTimeout secs (ucast secs * 1000) h)
     | None \<Rightarrow> Inl (RequestTimeout secs (ucast secs * 1000) h))"
proof -
  have b: "unat secs * 1000 < 2 ^ 64" using u32_bound [of secs] by simp
  have u: "unat (ucast secs * 1000 :: u64) = unat secs * 1000"
    using usize_of_nat [OF b] by simp
  have r: "remaining_ms now (watchdog_new now secs h) = ucast secs * 1000"
    by (auto simp: remaining_ms_def watchdog_new_def Let_def unat_eq_zero)
  have z: "(ucast secs * 1000 :: u64) = 0 \<longleftrightarrow> secs = 0" 
    using u unat_eq_zero [of secs] unat_eq_zero [of "ucast secs * 1000 :: u64"] by simp
  have e: "timeout_error (now + unat secs * 1000000000) (watchdog_new now secs h) = RequestTimeout secs (ucast secs * 1000) h"
    by (simp add: timeout_error_def wd_elapsed_ms_def remaining_ms_def watchdog_new_def Let_def)
  show ?thesis using e
    by (auto simp: with_timeout_def run_future_def r z u mult.assoc split: option.split)
qed

end
