(* ===== verification/Metrics_Types.thy ===== *)
theory Metrics_Types
  imports Nano_Float
begin

text \<open>
  The metric types (\<^verbatim>\<open>src/src/metrics/types.rs\<close>): counters, gauges and histograms over 64-bit atomics that
  wrap around, and their vectors, one instance per combination of label values. Every operation is one
  atomic step. A hash map is an association list; its iteration order is the order of the list. Sorting
  the bounds of a histogram unwraps the comparison and panics on NaN.
\<close>

section \<open>Definitions\<close>

definition bind_out :: "'a outcome \<Rightarrow> ('a \<Rightarrow> 'b outcome) \<Rightarrow> 'b outcome" where
  "bind_out r f = (case r of Panic \<Rightarrow> Panic | Ret x \<Rightarrow> f x)"

primrec run_all :: "('x \<Rightarrow> 's \<Rightarrow> 's outcome) \<Rightarrow> 'x list \<Rightarrow> 's \<Rightarrow> 's outcome" where
  "run_all f [] s = Ret s"
| "run_all f (x # xs) s = bind_out (f x s) (run_all f xs)"

subsection \<open>Counters and gauges\<close>

type_synonym counter = u64
type_synonym gauge = u64

definition counter_new :: counter where
  "counter_new = 0"

definition counter_inc_by :: "u64 \<Rightarrow> counter \<Rightarrow> counter" where
  "counter_inc_by v c = c + v"

definition counter_inc :: "counter \<Rightarrow> counter" where
  "counter_inc c = counter_inc_by 1 c"

definition counter_reset :: "counter \<Rightarrow> counter" where
  "counter_reset c = 0"

definition gauge_new :: gauge where
  "gauge_new = 0"

definition gauge_set :: "u64 \<Rightarrow> gauge \<Rightarrow> gauge" where
  "gauge_set v g = v"

definition gauge_inc_by :: "u64 \<Rightarrow> gauge \<Rightarrow> gauge" where
  "gauge_inc_by v g = g + v"

definition gauge_inc :: "gauge \<Rightarrow> gauge" where
  "gauge_inc g = gauge_inc_by 1 g"

definition gauge_dec_by :: "u64 \<Rightarrow> gauge \<Rightarrow> gauge" where
  "gauge_dec_by v g = g - v"

definition gauge_dec :: "gauge \<Rightarrow> gauge" where
  "gauge_dec g = gauge_dec_by 1 g"

subsection \<open>Histograms\<close>

record histogram =
  h_buckets :: "f64 list"
  h_bucket_counts :: "u64 list"
  h_sum :: u64
  h_count :: u64

definition histogram_new :: "f64 list \<Rightarrow> histogram outcome" where
  "histogram_new buckets =
     (if length buckets > 1 \<and> NaN \<in> set buckets then Panic
      else Ret \<lparr>h_buckets = sort buckets, h_bucket_counts = replicate (length buckets) 0, h_sum = 0, h_count = 0\<rparr>)"

text \<open>The loop over the bounds: the first bound that is not exceeded is counted.\<close>

fun bump_bucket :: "f64 \<Rightarrow> f64 list \<Rightarrow> u64 list \<Rightarrow> u64 list" where
  "bump_bucket v (b # bs) (c # cs) = (if f_le v b then (c + 1) # cs else c # bump_bucket v bs cs)"
| "bump_bucket v bs cs = cs"

definition histogram_observe :: "f64 \<Rightarrow> histogram \<Rightarrow> histogram" where
  "histogram_observe v h =
     (let scaled = f_to_u64 (f_mul v (Fin 1000))
      in h\<lparr>h_bucket_counts := bump_bucket v (h_buckets h) (h_bucket_counts h), h_sum := h_sum h + scaled,
           h_count := h_count h + 1\<rparr>)"

definition histogram_get :: "histogram \<Rightarrow> u64 list \<times> f64 \<times> u64" where
  "histogram_get h = (h_bucket_counts h, f_div (f_of_nat (unat (h_sum h))) (Fin 1000), h_count h)"

subsection \<open>Labelled vectors\<close>

type_synonym label_values = "string list"

record counter_vec =
  cv_label_names :: "string list"
  cv_counters :: "(label_values \<times> counter) list"

definition counter_vec_new :: "string list \<Rightarrow> counter_vec" where
  "counter_vec_new names = \<lparr>cv_label_names = names, cv_counters = []\<rparr>"

definition counter_vec_inc_by :: "label_values \<Rightarrow> u64 \<Rightarrow> counter_vec \<Rightarrow> counter_vec" where
  "counter_vec_inc_by key v cv =
     (case map_of (cv_counters cv) key of
        Some c \<Rightarrow> cv\<lparr>cv_counters := AList.update key (counter_inc_by v c) (cv_counters cv)\<rparr>
      | None \<Rightarrow> cv\<lparr>cv_counters := AList.update key (counter_inc_by v counter_new) (cv_counters cv)\<rparr>)"

definition counter_vec_inc :: "label_values \<Rightarrow> counter_vec \<Rightarrow> counter_vec" where
  "counter_vec_inc key cv = counter_vec_inc_by key 1 cv"

definition counter_vec_get_all :: "counter_vec \<Rightarrow> (label_values \<times> u64) list" where
  "counter_vec_get_all cv = cv_counters cv"

record gauge_vec =
  gv_label_names :: "string list"
  gv_gauges :: "(label_values \<times> gauge) list"

definition gauge_vec_new :: "string list \<Rightarrow> gauge_vec" where
  "gauge_vec_new names = \<lparr>gv_label_names = names, gv_gauges = []\<rparr>"

definition gauge_vec_set :: "label_values \<Rightarrow> u64 \<Rightarrow> gauge_vec \<Rightarrow> gauge_vec" where
  "gauge_vec_set key v gv =
     (case map_of (gv_gauges gv) key of
        Some g \<Rightarrow> gv\<lparr>gv_gauges := AList.update key (gauge_set v g) (gv_gauges gv)\<rparr>
      | None \<Rightarrow> gv\<lparr>gv_gauges := AList.update key (gauge_set v gauge_new) (gv_gauges gv)\<rparr>)"

definition gauge_vec_get_all :: "gauge_vec \<Rightarrow> (label_values \<times> u64) list" where
  "gauge_vec_get_all gv = gv_gauges gv"

record histogram_vec =
  hv_label_names :: "string list"
  hv_buckets :: "f64 list"
  hv_histograms :: "(label_values \<times> histogram) list"

definition histogram_vec_new :: "string list \<Rightarrow> f64 list \<Rightarrow> histogram_vec" where
  "histogram_vec_new names buckets = \<lparr>hv_label_names = names, hv_buckets = buckets, hv_histograms = []\<rparr>"

definition histogram_vec_observe :: "label_values \<Rightarrow> f64 \<Rightarrow> histogram_vec \<Rightarrow> histogram_vec outcome" where
  "histogram_vec_observe key v hv =
     (case map_of (hv_histograms hv) key of
        Some h \<Rightarrow> Ret (hv\<lparr>hv_histograms := AList.update key (histogram_observe v h) (hv_histograms hv)\<rparr>)
      | None \<Rightarrow> bind_out (histogram_new (hv_buckets hv)) (\<lambda>h.
          Ret (hv\<lparr>hv_histograms := AList.update key (histogram_observe v h) (hv_histograms hv)\<rparr>)))"

definition histogram_vec_get_all :: "histogram_vec \<Rightarrow> (label_values \<times> u64 list \<times> f64 \<times> u64) list" where
  "histogram_vec_get_all hv = map (\<lambda>(k, h). (k, histogram_get h)) (hv_histograms hv)"

subsection \<open>Specification vocabulary\<close>

text \<open>The observations that a bound covers.\<close>

definition at_most :: "f64 \<Rightarrow> f64 list \<Rightarrow> nat" where
  "at_most b vs = length (filter (\<lambda>v. f_le v b) vs)"

definition bounds_ok :: "f64 list \<Rightarrow> bool" where
  "bounds_ok bs = (NaN \<notin> set bs)"

text \<open>A histogram over the sorted bounds \<open>bs\<close> that has seen exactly the observations \<open>vs\<close>.\<close>

definition records :: "f64 list \<Rightarrow> f64 list \<Rightarrow> histogram \<Rightarrow> bool" where
  "records bs vs h \<longleftrightarrow> h_buckets h = sort bs \<and> length (h_bucket_counts h) = length bs
     \<and> (\<forall>i < length bs. sum_list (take (Suc i) (h_bucket_counts h)) = of_nat (at_most (sort bs ! i) vs))
     \<and> h_count h = of_nat (length vs)
     \<and> h_sum h = sum_list (map (\<lambda>v. f_to_u64 (f_mul v (Fin 1000))) vs)"

section \<open>Lemmas\<close>

lemma bind_out_simps [simp]: "bind_out Panic f = Panic" "bind_out (Ret x) f = f x"
  by (simp_all add: bind_out_def)

lemma bind_out_Ret: "bind_out r f = Ret y \<longleftrightarrow> (\<exists>x. r = Ret x \<and> f x = Ret y)"
  by (cases r) simp_all

lemma run_all_append: "run_all f (xs @ ys) s = bind_out (run_all f xs s) (run_all f ys)"
  by (induction xs arbitrary: s) (simp_all add: bind_out_def split: outcome.split)

text \<open>An invariant with a history that every step extends.\<close>

lemma run_all_invariant:
  assumes "I [] s" and "\<And>xs x s. I xs s \<Longrightarrow> \<exists>s'. f x s = Ret s' \<and> I (xs @ [x]) s'"
  shows "\<exists>s'. run_all f xs s = Ret s' \<and> I xs s'"
proof (induction xs rule: rev_induct)
  case (snoc x xs)
  then obtain s1 where s1: "run_all f xs s = Ret s1" "I xs s1" by blast
  from assms(2) [OF s1(2), of x] s1(1) show ?case by (auto simp: run_all_append)
qed (use assms(1) in simp)

lemma length_bump_bucket [simp]: "length (bump_bucket v bs cs) = length cs"
  by (induction v bs cs rule: bump_bucket.induct) auto

lemma bump_bucket_sum:
  "\<lbrakk>sorted bs; NaN \<notin> set bs; length cs = length bs; i < length bs\<rbrakk> \<Longrightarrow>
   sum_list (take (Suc i) (bump_bucket v bs cs)) = sum_list (take (Suc i) cs) + (if f_le v (bs ! i) then 1 else 0)"
proof (induction v bs cs arbitrary: i rule: bump_bucket.induct)
  case (1 v b bs c cs)
  show ?case
  proof (cases "f_le v b")
    case True
    have "b \<le> (b # bs) ! i" using 1(2-) by (cases i) auto
    moreover have "(b # bs) ! i \<noteq> NaN" "b \<noteq> NaN" using 1(3,5) nth_mem [of i "b # bs"] by force+
    ultimately have "f_le b ((b # bs) ! i)" by (simp add: f_le_order)
    with True f_le_trans have "f_le v ((b # bs) ! i)" by blast
    then show ?thesis using True by simp
  next
    case False
    then show ?thesis using 1 by (cases i) simp_all
  qed
qed auto

lemma records_new: "bounds_ok bs \<Longrightarrow> \<exists>h. histogram_new bs = Ret h \<and> records bs [] h"
  by (auto simp: histogram_new_def records_def bounds_ok_def at_most_def sum_list_replicate)

lemma records_observe:
  assumes "bounds_ok bs" "records bs vs h"
  shows "records bs (vs @ [v]) (histogram_observe v h)"
  using assms bump_bucket_sum [of "sort bs" "h_bucket_counts h" _ v]
  by (auto simp: records_def histogram_observe_def Let_def bounds_ok_def at_most_def algebra_simps)

text \<open>With an infinite last bound the buckets together hold every observation that is a number.\<close>

lemma records_total:
  assumes "records bs vs h" "bounds_ok bs" "PInf \<in> set bs" "NaN \<notin> set vs"
  shows "sum_list (h_bucket_counts h) = h_count h"
proof -
  let ?n = "length bs"
  have n: "?n > 0" using assms(3) by auto
  then obtain i where i: "i < ?n" "sort bs ! i = PInf" using assms(3) by (metis in_set_conv_nth length_sort set_sort)
  have s: "sorted (sort bs)" by simp
  have "sort bs ! i \<le> sort bs ! (?n - 1)" using i n by (intro sorted_nth_mono [OF s]) auto
  moreover have "sort bs ! (?n - 1) \<noteq> NaN" using assms(2) n nth_mem [of "?n - 1" "sort bs"] by (auto simp: bounds_ok_def)
  ultimately have "f_le PInf (sort bs ! (?n - 1))" using i by (simp add: less_eq_f64_def)
  then have "f_le v (sort bs ! (?n - 1))" if "v \<in> set vs" for v using that assms(4) f_le_PInf f_le_trans by metis
  then have "at_most (sort bs ! (?n - 1)) vs = length vs" by (simp add: at_most_def)
  moreover have "take (Suc (?n - 1)) (h_bucket_counts h) = h_bucket_counts h" using assms(1) n by (simp add: records_def)
  ultimately show ?thesis using assms(1) n unfolding records_def by (metis diff_less zero_less_one)
qed

subsection \<open>Labelled vectors\<close>

text \<open>
  What the three kinds of vectors share: an update of one combination of labels steps that instance, created
  on its first use, and leaves the others alone.
\<close>

locale metric_vec =
  fixes upd :: "label_values \<Rightarrow> 'x \<Rightarrow> 'v \<Rightarrow> 'v outcome"
    and entries :: "'v \<Rightarrow> (label_values \<times> 'm) list"
    and good :: "'v \<Rightarrow> bool"
    and fresh :: "'v \<Rightarrow> 'm"
    and step :: "'x \<Rightarrow> 'm \<Rightarrow> 'm"
  assumes upd_ok: "good v \<Longrightarrow> \<exists>v'. upd k x v = Ret v' \<and> good v' \<and> fresh v' = fresh v
      \<and> entries v' = AList.update k (step x (case map_of (entries v) k of Some m \<Rightarrow> m | None \<Rightarrow> fresh v)) (entries v)"
begin

lemma run_entries:
  assumes "good v" "entries v = []"
  shows "\<exists>v'. run_all (\<lambda>(k, x). upd k x) xs v = Ret v' \<and> good v' \<and> fresh v' = fresh v \<and> distinct (map fst (entries v'))
     \<and> (\<forall>k. map_of (entries v') k =
          (let mine = map snd (filter (\<lambda>(k', x). k' = k) xs) in if mine = [] then None else Some (fold step mine (fresh v))))"
proof -
  let ?mine = "\<lambda>(xs :: (label_values \<times> 'x) list) k. map snd (filter (\<lambda>(k', x). k' = k) xs)"
  let ?I = "\<lambda>xs v'. good v' \<and> fresh v' = fresh v \<and> distinct (map fst (entries v'))
     \<and> (\<forall>k. map_of (entries v') k = (if ?mine xs k = [] then None else Some (fold step (?mine xs k) (fresh v))))"
  have "\<exists>v'. run_all (\<lambda>(k, x). upd k x) xs v = Ret v' \<and> ?I xs v'"
  proof (rule run_all_invariant)
    fix xs :: "(label_values \<times> 'x) list" and y :: "label_values \<times> 'x" and v'
    assume I: "?I xs v'"
    obtain k x where y: "y = (k, x)" by force
    obtain v2 where v2: "upd k x v' = Ret v2" "good v2" "fresh v2 = fresh v"
      "entries v2 = AList.update k (step x (case map_of (entries v') k of Some m \<Rightarrow> m | None \<Rightarrow> fresh v)) (entries v')"
      using upd_ok [of v' k x] I by auto
    have "?I (xs @ [y]) v2" using I v2 y by (simp add: distinct_update)
    then show "\<exists>s'. (case y of (k, x) \<Rightarrow> upd k x) v' = Ret s' \<and> ?I (xs @ [y]) s'" using v2(1) y by auto
  qed (use assms in simp)
  then show ?thesis by (simp add: Let_def)
qed

end

interpretation cvec: metric_vec "\<lambda>k x v. Ret (counter_vec_inc_by k x v)" cv_counters "\<lambda>_. True" "\<lambda>_. counter_new" counter_inc_by
  by unfold_locales (auto simp: counter_vec_inc_by_def split: option.split)

interpretation gvec: metric_vec "\<lambda>k x v. Ret (gauge_vec_set k x v)" gv_gauges "\<lambda>_. True" "\<lambda>_. gauge_new" gauge_set
  by unfold_locales (auto simp: gauge_vec_set_def split: option.split)

text \<open>The histogram that a vector creates for new labels.\<close>

definition fresh_histogram :: "histogram_vec \<Rightarrow> histogram" where
  "fresh_histogram hv = \<lparr>h_buckets = sort (hv_buckets hv), h_bucket_counts = replicate (length (hv_buckets hv)) 0, h_sum = 0, h_count = 0\<rparr>"

interpretation hvec: metric_vec histogram_vec_observe hv_histograms "\<lambda>hv. bounds_ok (hv_buckets hv)" fresh_histogram histogram_observe
  by unfold_locales (auto simp: histogram_vec_observe_def histogram_new_def fresh_histogram_def bounds_ok_def split: option.split)

lemma fold_counter_inc [simp]: "fold counter_inc_by xs c = c + sum_list xs"
  by (induction xs arbitrary: c) (simp_all add: counter_inc_by_def algebra_simps)

lemma fold_gauge_set: "fold gauge_set xs g = (if xs = [] then g else last xs)"
  by (induction xs arbitrary: g) (simp_all add: gauge_set_def)

lemma records_fresh: "bounds_ok (hv_buckets hv) \<Longrightarrow> records (hv_buckets hv) [] (fresh_histogram hv)"
  using records_new [of "hv_buckets hv"] by (auto simp: histogram_new_def fresh_histogram_def split: if_splits)

lemma records_fold: "\<lbrakk>bounds_ok bs; records bs us h\<rbrakk> \<Longrightarrow> records bs (us @ vs) (fold histogram_observe vs h)"
proof (induction vs arbitrary: us h)
  case (Cons v vs)
  from Cons.IH [OF Cons.prems(1) records_observe [OF Cons.prems], of v] show ?case by simp
qed simp

end
