(* ===== verification/Metrics_Export.thy ===== *)
theory Metrics_Export
  imports Metrics_Types
begin

text \<open>
  The registry of the runtime's metrics (\<^verbatim>\<open>src/src/metrics/collector.rs\<close>), its Prometheus text
  (\<^verbatim>\<open>src/src/metrics/exporter.rs\<close>) and the endpoint that serves it (\<^verbatim>\<open>src/src/admin/metrics.rs\<close>). The decimal
  text of a floating-point number is the formatting library's: a parameter with the two formats that the
  exporter asks for.
\<close>

section \<open>Definitions\<close>

subsection \<open>The registry\<close>

definition REQUEST_DURATION_BUCKETS :: "f64 list" where
  "REQUEST_DURATION_BUCKETS = [Fin 1, Fin 5, Fin 10, Fin 25, Fin 50, Fin 100, Fin 250, Fin 500, Fin 1000, PInf]"

record metrics_registry =
  mr_requests_total :: counter_vec
  mr_request_duration :: histogram_vec
  mr_errors_total :: counter_vec
  mr_isolates_active :: gauge_vec
  mr_memory_bytes :: gauge_vec
  mr_worker_utilization :: gauge_vec
  mr_heap_limit_hits_total :: counter
  mr_cpu_timeout_total :: counter
  mr_uptime_seconds :: u64
  mr_start_time :: nat

definition registry_metrics_new :: "nat \<Rightarrow> metrics_registry" where
  "registry_metrics_new now = \<lparr>mr_requests_total = counter_vec_new [''hostname'', ''status''],
     mr_request_duration = histogram_vec_new [''hostname''] REQUEST_DURATION_BUCKETS,
     mr_errors_total = counter_vec_new [''hostname'', ''code''],
     mr_isolates_active = gauge_vec_new [''hostname'', ''worker_id''],
     mr_memory_bytes = gauge_vec_new [''hostname'', ''isolate_id''],
     mr_worker_utilization = gauge_vec_new [''hostname'', ''worker_id''],
     mr_heap_limit_hits_total = counter_new, mr_cpu_timeout_total = counter_new, mr_uptime_seconds = 0, mr_start_time = now\<rparr>"

definition metrics_record_request :: "string \<Rightarrow> string \<Rightarrow> f64 \<Rightarrow> metrics_registry \<Rightarrow> metrics_registry outcome" where
  "metrics_record_request h status duration_ms r =
     (let r1 = r\<lparr>mr_requests_total := counter_vec_inc [h, status] (mr_requests_total r)\<rparr> in
      bind_out (histogram_vec_observe [h] duration_ms (mr_request_duration r1)) (\<lambda>hv.
        let r2 = r1\<lparr>mr_request_duration := hv\<rparr> in
        Ret (if starts_with status ''5'' \<or> starts_with status ''4''
          then r2\<lparr>mr_errors_total := counter_vec_inc [h, status] (mr_errors_total r2)\<rparr> else r2)))"

definition metrics_record_error :: "string \<Rightarrow> string \<Rightarrow> metrics_registry \<Rightarrow> metrics_registry" where
  "metrics_record_error h code r = r\<lparr>mr_errors_total := counter_vec_inc [h, code] (mr_errors_total r)\<rparr>"

definition set_isolates_active :: "string \<Rightarrow> string \<Rightarrow> u64 \<Rightarrow> metrics_registry \<Rightarrow> metrics_registry" where
  "set_isolates_active h worker_id n r = r\<lparr>mr_isolates_active := gauge_vec_set [h, worker_id] n (mr_isolates_active r)\<rparr>"

definition set_memory_bytes :: "string \<Rightarrow> string \<Rightarrow> u64 \<Rightarrow> metrics_registry \<Rightarrow> metrics_registry" where
  "set_memory_bytes h isolate_id n r = r\<lparr>mr_memory_bytes := gauge_vec_set [h, isolate_id] n (mr_memory_bytes r)\<rparr>"

definition set_worker_utilization :: "string \<Rightarrow> string \<Rightarrow> u64 \<Rightarrow> metrics_registry \<Rightarrow> metrics_registry" where
  "set_worker_utilization h worker_id percent r =
     (let clamped = min percent 100
      in r\<lparr>mr_worker_utilization := gauge_vec_set [h, worker_id] clamped (mr_worker_utilization r)\<rparr>)"

definition record_heap_limit_hit :: "metrics_registry \<Rightarrow> metrics_registry" where
  "record_heap_limit_hit r = r\<lparr>mr_heap_limit_hits_total := counter_inc (mr_heap_limit_hits_total r)\<rparr>"

definition record_cpu_timeout :: "metrics_registry \<Rightarrow> metrics_registry" where
  "record_cpu_timeout r = r\<lparr>mr_cpu_timeout_total := counter_inc (mr_cpu_timeout_total r)\<rparr>"

text \<open>Instants are seconds.\<close>

definition update_uptime :: "nat \<Rightarrow> metrics_registry \<Rightarrow> metrics_registry" where
  "update_uptime now r = r\<lparr>mr_uptime_seconds := of_nat (now - mr_start_time r)\<rparr>"

subsection \<open>The Prometheus text\<close>

record f64_format =
  ff_display :: "f64 \<Rightarrow> string"
  ff_fixed3 :: "f64 \<Rightarrow> string"

definition nl :: string where
  "nl = [CHR 0x0A]"

definition quoted :: "string \<Rightarrow> string" where
  "quoted s = [CHR 0x22] @ s @ [CHR 0x22]"

definition help_type :: "string \<Rightarrow> string \<Rightarrow> string \<Rightarrow> string" where
  "help_type name help kind = ''# HELP '' @ name @ '' '' @ help @ nl @ ''# TYPE '' @ name @ '' '' @ kind @ nl"

definition escape_label :: "string \<Rightarrow> string" where
  "escape_label v =
     replace_sub [CHR 0x0A] [CHR 0x5C, CHR ''n''] (replace_sub [CHR 0x22] [CHR 0x5C, CHR 0x22]
       (replace_sub [CHR 0x5C] [CHR 0x5C, CHR 0x5C] v))"

definition format_labels :: "string list \<Rightarrow> string list \<Rightarrow> string" where
  "format_labels names values =
     (if names = [] \<or> values = [] then []
      else ''{'' @ join_with '','' (map (\<lambda>(name, v). name @ ''='' @ quoted (escape_label v)) (zip names values)) @ ''}'')"

definition format_bucket_label :: "f64_format \<Rightarrow> f64 \<Rightarrow> string" where
  "format_bucket_label ff b = (if f_is_infinite b then ''+Inf'' else ff_fixed3 ff b)"

definition show_u64 :: "u64 \<Rightarrow> string" where
  "show_u64 v = show_nat (unat v)"

definition export_counter :: "string \<Rightarrow> string \<Rightarrow> u64 \<Rightarrow> string" where
  "export_counter name help v = help_type name help ''counter'' @ name @ '' '' @ show_u64 v @ nl @ nl"

definition export_entries :: "string \<Rightarrow> string \<Rightarrow> string \<Rightarrow> string list \<Rightarrow> (label_values \<times> u64) list \<Rightarrow> string" where
  "export_entries name help kind names es = help_type name help kind
     @ (if es = [] then name @ '' 0'' @ nl
        else concat (map (\<lambda>(labels, v). name @ format_labels names labels @ '' '' @ show_u64 v @ nl) es)) @ nl"

definition export_counter_vec :: "string \<Rightarrow> string \<Rightarrow> counter_vec \<Rightarrow> string" where
  "export_counter_vec name help cv = export_entries name help ''counter'' (cv_label_names cv) (counter_vec_get_all cv)"

definition export_gauge_vec :: "string \<Rightarrow> string \<Rightarrow> gauge_vec \<Rightarrow> string" where
  "export_gauge_vec name help gv = export_entries name help ''gauge'' (gv_label_names gv) (gauge_vec_get_all gv)"

definition bucket_line :: "f64_format \<Rightarrow> string \<Rightarrow> string \<Rightarrow> f64 \<Rightarrow> u64 \<Rightarrow> string" where
  "bucket_line ff name base_labels b n =
     (let bucket_label = format_bucket_label ff b in
      if base_labels = [] then name @ ''_bucket{le='' @ quoted bucket_label @ ''} '' @ show_u64 n @ nl
      else name @ ''_bucket'' @ butlast base_labels @ (if length base_labels > 2 then '','' else []) @ ''le='' @ quoted bucket_label
        @ ''} '' @ show_u64 n @ nl)"

text \<open>The loop over the counts of a histogram, with the running total.\<close>

primrec bucket_lines :: "f64_format \<Rightarrow> string \<Rightarrow> string \<Rightarrow> f64 list \<Rightarrow> u64 list \<Rightarrow> nat \<Rightarrow> u64 \<Rightarrow> string" where
  "bucket_lines ff name base_labels buckets [] i cumulative = []"
| "bucket_lines ff name base_labels buckets (c # cs) i cumulative =
     bucket_line ff name base_labels (if i < length buckets then buckets ! i else PInf) (cumulative + c)
     @ bucket_lines ff name base_labels buckets cs (Suc i) (cumulative + c)"

definition export_histogram_entry ::
  "f64_format \<Rightarrow> string \<Rightarrow> string list \<Rightarrow> f64 list \<Rightarrow> label_values \<times> u64 list \<times> f64 \<times> u64 \<Rightarrow> string" where
  "export_histogram_entry ff name names buckets e =
     (case e of (labels, counts, hsum, n) \<Rightarrow>
        let base_labels = format_labels names labels in
        bucket_lines ff name base_labels buckets counts 0 0
        @ name @ ''_sum'' @ base_labels @ '' '' @ ff_display ff hsum @ nl
        @ name @ ''_count'' @ base_labels @ '' '' @ show_u64 n @ nl)"

definition export_histogram_vec :: "f64_format \<Rightarrow> string \<Rightarrow> string \<Rightarrow> histogram_vec \<Rightarrow> string" where
  "export_histogram_vec ff name help hv = help_type name help ''histogram''
     @ (let es = histogram_vec_get_all hv in
        if es = [] then concat (map (\<lambda>b. name @ ''_bucket{le='' @ quoted (format_bucket_label ff b) @ ''} 0'' @ nl) (hv_buckets hv))
          @ name @ ''_sum 0'' @ nl @ name @ ''_count 0'' @ nl
        else concat (map (export_histogram_entry ff name (hv_label_names hv) (hv_buckets hv)) es)) @ nl"

definition export_uptime :: "metrics_registry \<Rightarrow> string" where
  "export_uptime r = help_type ''nano_uptime_seconds'' ''Runtime uptime in seconds'' ''gauge''
     @ ''nano_uptime_seconds '' @ show_u64 (mr_uptime_seconds r) @ nl @ nl"

definition prometheus_export :: "f64_format \<Rightarrow> metrics_registry \<Rightarrow> string" where
  "prometheus_export ff r =
     export_counter_vec ''nano_requests_total'' ''Total HTTP requests'' (mr_requests_total r)
     @ export_histogram_vec ff ''nano_request_duration_ms'' ''Request latency in milliseconds'' (mr_request_duration r)
     @ export_counter_vec ''nano_errors_total'' ''Total errors by status code'' (mr_errors_total r)
     @ export_gauge_vec ''nano_isolates_active'' ''Number of active isolates'' (mr_isolates_active r)
     @ export_gauge_vec ''nano_memory_bytes'' ''Memory usage in bytes'' (mr_memory_bytes r)
     @ export_gauge_vec ''nano_worker_utilization'' ''Worker utilization percentage'' (mr_worker_utilization r)
     @ export_uptime r
     @ export_counter ''nano_heap_limit_hits_total'' ''Total heap limit enforcement events'' (mr_heap_limit_hits_total r)
     @ export_counter ''nano_cpu_timeout_total'' ''Total CPU timeout enforcement events'' (mr_cpu_timeout_total r)"

definition prometheus_content_type :: string where
  "prometheus_content_type = ''text/plain; version=0.0.4; charset=utf-8''"

text \<open>The status, the content type and the body of the answer, and the registry with its uptime brought up to date.\<close>

definition metrics_handler :: "f64_format \<Rightarrow> nat \<Rightarrow> metrics_registry \<Rightarrow> (nat \<times> string \<times> string) \<times> metrics_registry" where
  "metrics_handler ff now r =
     (let r' = update_uptime now r in ((200, prometheus_content_type, prometheus_export ff r'), r'))"

subsection \<open>Specification vocabulary\<close>

text \<open>The calls of the registry, as a sequence of events.\<close>

datatype metric_event =
    MRequest string string f64
  | MError string string
  | MIsolates string string u64
  | MMemory string string u64
  | MUtilization string string u64
  | MHeapLimit
  | MCpuTimeout
  | MUptime nat

fun apply_metric :: "metric_event \<Rightarrow> metrics_registry \<Rightarrow> metrics_registry outcome" where
  "apply_metric (MRequest h s d) r = metrics_record_request h s d r"
| "apply_metric (MError h c) r = Ret (metrics_record_error h c r)"
| "apply_metric (MIsolates h w n) r = Ret (set_isolates_active h w n r)"
| "apply_metric (MMemory h i n) r = Ret (set_memory_bytes h i n r)"
| "apply_metric (MUtilization h w n) r = Ret (set_worker_utilization h w n r)"
| "apply_metric MHeapLimit r = Ret (record_heap_limit_hit r)"
| "apply_metric MCpuTimeout r = Ret (record_cpu_timeout r)"
| "apply_metric (MUptime now) r = Ret (update_uptime now r)"

definition tally :: "nat \<Rightarrow> u64 option" where
  "tally n = (if n = 0 then None else Some (of_nat n))"

fun request_keys :: "metric_event \<Rightarrow> (label_values \<times> u64) list" where
  "request_keys (MRequest h s d) = [([h, s], 1)]"
| "request_keys e = []"

fun error_keys :: "metric_event \<Rightarrow> (label_values \<times> u64) list" where
  "error_keys (MRequest h s d) = (if starts_with s ''5'' \<or> starts_with s ''4'' then [([h, s], 1)] else [])"
| "error_keys (MError h c) = [([h, c], 1)]"
| "error_keys e = []"

fun duration_keys :: "metric_event \<Rightarrow> (label_values \<times> f64) list" where
  "duration_keys (MRequest h s d) = [([h], d)]"
| "duration_keys e = []"

text \<open>The last value that a function finds in a list, and the values that the calls give a gauge and the clock.\<close>

definition latest :: "('a \<Rightarrow> 'b option) \<Rightarrow> 'a list \<Rightarrow> 'b option" where
  "latest f xs = (case rev (List.map_filter f xs) of [] \<Rightarrow> None | y # _ \<Rightarrow> Some y)"

fun isolates_set :: "label_values \<Rightarrow> metric_event \<Rightarrow> u64 option" where
  "isolates_set k (MIsolates h w n) = (if k = [h, w] then Some n else None)"
| "isolates_set k e = None"

fun memory_set :: "label_values \<Rightarrow> metric_event \<Rightarrow> u64 option" where
  "memory_set k (MMemory h i n) = (if k = [h, i] then Some n else None)"
| "memory_set k e = None"

fun utilization_set :: "label_values \<Rightarrow> metric_event \<Rightarrow> u64 option" where
  "utilization_set k (MUtilization h w n) = (if k = [h, w] then Some (if n > 100 then 100 else n) else None)"
| "utilization_set k e = None"

fun uptime_set :: "nat \<Rightarrow> metric_event \<Rightarrow> u64 option" where
  "uptime_set started (MUptime now) = Some (of_nat (now - started))"
| "uptime_set started e = None"

text \<open>The durations of a host's requests, in order.\<close>

fun durations :: "string \<Rightarrow> metric_event list \<Rightarrow> f64 list" where
  "durations h [] = []"
| "durations h (e # es) = (case e of MRequest h' s d \<Rightarrow> if h' = h then [d] else [] | _ \<Rightarrow> []) @ durations h es"

text \<open>A reader of label lists, as the text format defines them: the value ends at the first bare quote.\<close>

fun read_value :: "string \<Rightarrow> (string \<times> string) option" where
  "read_value [] = None"
| "read_value (c # s) =
     (if c = CHR 0x22 then Some ([], s)
      else if c = CHR 0x5C then (case s of
          [] \<Rightarrow> None
        | d # s' \<Rightarrow> map_option (\<lambda>(v, r). ((if d = CHR ''n'' then CHR 0x0A else d) # v, r)) (read_value s'))
      else map_option (\<lambda>(v, r). (c # v, r)) (read_value s))"

primrec read_labels :: "nat \<Rightarrow> string \<Rightarrow> ((string \<times> string) list \<times> string) option" where
  "read_labels 0 s = None"
| "read_labels (Suc fuel) s =
     (let name = takeWhile (\<lambda>c. c \<noteq> CHR ''='') s; s1 = drop (length name) s in
      if \<not> starts_with s1 (''='' @ [CHR 0x22]) then None
      else case read_value (drop 2 s1) of
          Some (v, c # s2) \<Rightarrow>
            (if c = CHR ''}'' then Some ([(name, v)], s2)
             else if c = CHR '','' then map_option (\<lambda>(ps, r). ((name, v) # ps, r)) (read_labels fuel s2) else None)
        | _ \<Rightarrow> None)"

section \<open>Lemmas\<close>

lemma replace_sub_char: "replace_sub [c] r s = concat (map (\<lambda>x. if x = c then r else [x]) s)"
  by (induction s) (simp_all add: starts_with_def)

definition escape_char :: "char \<Rightarrow> string" where
  "escape_char c = (if c = CHR 0x5C then [CHR 0x5C, CHR 0x5C] else if c = CHR 0x22 then [CHR 0x5C, CHR 0x22]
     else if c = CHR 0x0A then [CHR 0x5C, CHR ''n''] else [c])"

lemma escape_label_chars: "escape_label v = concat (map escape_char v)"
  unfolding escape_label_def replace_sub_char by (induction v) (simp_all add: escape_char_def)

lemma read_value_escape: "read_value (escape_label v @ CHR 0x22 # r) = Some (v, r)"
proof (induction v)
  case (Cons c v)
  then show ?case by (simp add: escape_label_chars escape_char_def)
qed (simp add: escape_label_chars)

lemma read_labels_step:
  assumes "CHR ''='' \<notin> set n"
  shows "read_labels (Suc fuel) (n @ ''='' @ quoted (escape_label v) @ c # s) =
     (if c = CHR ''}'' then Some ([(n, v)], s)
      else if c = CHR '','' then map_option (\<lambda>(ps, r). ((n, v) # ps, r)) (read_labels fuel s) else None)"
proof -
  have "takeWhile (\<lambda>c. c \<noteq> CHR ''='') (n @ CHR ''='' # t) = n" for t
    using assms by (subst takeWhile_append2) auto
  then show ?thesis by (simp add: quoted_def starts_with_def Let_def read_value_escape)
qed

lemma read_labels_format:
  assumes "length names = length vals" "names \<noteq> []" "\<forall>n \<in> set names. CHR ''='' \<notin> set n"
  shows "read_labels (length names)
     (join_with '','' (map (\<lambda>(name, v). name @ ''='' @ quoted (escape_label v)) (zip names vals)) @ ''}'' @ r)
     = Some (zip names vals, r)"
  using assms
proof (induction names vals rule: list_induct2)
  case (Cons n ns v vs)
  have n: "CHR ''='' \<notin> set n" using Cons.prems by simp
  show ?case
  proof (cases "ns = []")
    case True
    then show ?thesis using Cons.hyps read_labels_step [OF n, of 0 v "CHR ''}''" r] by simp
  next
    case False
    let ?j = "join_with '','' (map (\<lambda>(name, v). name @ ''='' @ quoted (escape_label v)) (zip ns vs))"
    have "join_with '','' (map (\<lambda>(name, v). name @ ''='' @ quoted (escape_label v)) (zip (n # ns) (v # vs)))
        = (n @ ''='' @ quoted (escape_label v)) @ '','' @ ?j"
      using False Cons.hyps by (cases ns; cases vs) simp_all
    then show ?thesis using Cons.IH [OF False] Cons.prems(2) read_labels_step [OF n, of "length ns" v "CHR '',''" "?j @ ''}'' @ r"]
      by simp
  qed
qed simp

lemma duration_bounds_ok: "bounds_ok REQUEST_DURATION_BUCKETS" "sort REQUEST_DURATION_BUCKETS = REQUEST_DURATION_BUCKETS"
  by (simp_all add: bounds_ok_def REQUEST_DURATION_BUCKETS_def less_eq_f64_def f_le_def)

lemma bucket_lines_exact:
  assumes "\<forall>j < length cs. cumulative + sum_list (take (Suc j) cs) = f (i + j)" "i + length cs = length bs"
  shows "bucket_lines ff name base bs cs i cumulative
     = concat (map (\<lambda>j. bucket_line ff name base (bs ! j) (f j)) [i..<length bs])"
  using assms
proof (induction cs arbitrary: i cumulative)
  case (Cons c cs)
  have "bucket_lines ff name base bs cs (Suc i) (cumulative + c)
      = concat (map (\<lambda>j. bucket_line ff name base (bs ! j) (f j)) [Suc i..<length bs])"
  proof (rule Cons.IH)
    show "\<forall>j < length cs. cumulative + c + sum_list (take (Suc j) cs) = f (Suc i + j)"
    proof (intro allI impI)
      fix j assume "j < length cs"
      with Cons.prems(1) [rule_format, of "Suc j"] show "cumulative + c + sum_list (take (Suc j) cs) = f (Suc i + j)"
        by (simp add: add.assoc)
    qed
  qed (use Cons.prems(2) in simp)
  moreover have "cumulative + c = f i" using Cons.prems(1) [rule_format, of 0] by simp
  moreover have "[i..<length bs] = i # [Suc i..<length bs]" using Cons.prems(2) by (simp add: upt_conv_Cons)
  ultimately show ?case using Cons.prems(2) by simp
qed simp

subsection \<open>The calls as updates of the vectors\<close>

lemma registry_run:
  "\<exists>r. run_all apply_metric xs (registry_metrics_new now) = Ret r
     \<and> run_all (\<lambda>(k, x) v. Ret (counter_vec_inc_by k x v)) (concat (map request_keys xs)) (counter_vec_new [''hostname'', ''status''])
         = Ret (mr_requests_total r)
     \<and> run_all (\<lambda>(k, x) v. Ret (counter_vec_inc_by k x v)) (concat (map error_keys xs)) (counter_vec_new [''hostname'', ''code''])
         = Ret (mr_errors_total r)
     \<and> run_all (\<lambda>(k, x). histogram_vec_observe k x) (concat (map duration_keys xs)) (histogram_vec_new [''hostname''] REQUEST_DURATION_BUCKETS)
         = Ret (mr_request_duration r)
     \<and> bounds_ok (hv_buckets (mr_request_duration r))"
proof (rule run_all_invariant)
  fix xs e and r :: metrics_registry
  let ?I = "\<lambda>xs r. run_all (\<lambda>(k, x) v. Ret (counter_vec_inc_by k x v)) (concat (map request_keys xs)) (counter_vec_new [''hostname'', ''status''])
         = Ret (mr_requests_total r)
     \<and> run_all (\<lambda>(k, x) v. Ret (counter_vec_inc_by k x v)) (concat (map error_keys xs)) (counter_vec_new [''hostname'', ''code''])
         = Ret (mr_errors_total r)
     \<and> run_all (\<lambda>(k, x). histogram_vec_observe k x) (concat (map duration_keys xs)) (histogram_vec_new [''hostname''] REQUEST_DURATION_BUCKETS)
         = Ret (mr_request_duration r)
     \<and> bounds_ok (hv_buckets (mr_request_duration r))"
  assume I: "?I xs r"
  show "\<exists>s'. apply_metric e r = Ret s' \<and> ?I (xs @ [e]) s'"
  proof (cases e)
    case (MRequest h s d)
    obtain hv where hv: "histogram_vec_observe [h] d (mr_request_duration r) = Ret hv" "bounds_ok (hv_buckets hv)"
      using hvec.upd_ok [of "mr_request_duration r" "[h]" d] I by auto
    with I MRequest show ?thesis
      by (auto simp: metrics_record_request_def Let_def run_all_append counter_vec_inc_def)
  qed (use I in \<open>auto simp: metrics_record_error_def set_isolates_active_def set_memory_bytes_def set_worker_utilization_def
      record_heap_limit_hit_def record_cpu_timeout_def update_uptime_def run_all_append counter_vec_inc_def Let_def\<close>)
qed (auto simp: registry_metrics_new_def histogram_vec_new_def duration_bounds_ok)


text \<open>The entry of a vector of counters after increments by one.\<close>

lemma counted:
  assumes "run_all (\<lambda>(k, x) v. Ret (counter_vec_inc_by k x v)) ys (counter_vec_new names) = Ret cv"
    "map snd (filter (\<lambda>(k', x). k' = k) ys) = replicate n 1"
  shows "map_of (cv_counters cv) k = tally n"
proof -
  have "\<forall>k. map_of (cv_counters cv) k = (let mine = map snd (filter (\<lambda>(k', x). k' = k) ys)
      in if mine = [] then None else Some (fold counter_inc_by mine counter_new))"
    using cvec.run_entries [of "counter_vec_new names" ys] assms(1) by (auto simp: counter_vec_new_def)
  then have "map_of (cv_counters cv) k = (if replicate n (1 :: u64) = [] then None else Some (counter_new + sum_list (replicate n 1)))"
    unfolding assms(2) [symmetric] Let_def fold_counter_inc by blast
  then show ?thesis by (simp add: tally_def counter_new_def sum_list_replicate)
qed

lemma request_keys_of:
  "map snd (filter (\<lambda>(k', x). k' = [h, s]) (concat (map request_keys xs)))
   = replicate (length (filter (\<lambda>e. \<exists>d. e = MRequest h s d) xs)) 1"
proof (induction xs)
  case (Cons e xs)
  then show ?case by (cases e) auto
qed simp

fun is_error_of :: "string \<Rightarrow> string \<Rightarrow> metric_event \<Rightarrow> bool" where
  "is_error_of h c (MRequest h' s d) = (h' = h \<and> s = c \<and> (starts_with s ''4'' \<or> starts_with s ''5''))"
| "is_error_of h c (MError h' c') = (h' = h \<and> c' = c)"
| "is_error_of h c e = False"

lemma error_keys_of:
  "map snd (filter (\<lambda>(k', x). k' = [h, c]) (concat (map error_keys xs))) = replicate (length (filter (is_error_of h c) xs)) 1"
proof (induction xs)
  case (Cons e xs)
  then show ?case by (cases e) auto
qed simp

lemma duration_keys_of: "map snd (filter (\<lambda>(k', x). k' = [h]) (concat (map duration_keys xs))) = durations h xs"
proof (induction xs)
  case (Cons e xs)
  then show ?case by (cases e) auto
qed simp

lemma latest_simps [simp]:
  "latest f [] = None" "latest f (xs @ [x]) = (case f x of Some y \<Rightarrow> Some y | None \<Rightarrow> latest f xs)"
  by (simp_all add: latest_def List.map_filter_def split: option.split)

lemma gauge_vec_set_lookup [simp]:
  "map_of (gv_gauges (gauge_vec_set k n gv)) k' = (if k' = k then Some n else map_of (gv_gauges gv) k')"
  by (auto simp: gauge_vec_set_def gauge_set_def update_conv' split: option.split)

lemma registry_gauges:
  "\<exists>r. run_all apply_metric xs (registry_metrics_new now) = Ret r
     \<and> (bounds_ok (hv_buckets (mr_request_duration r)) \<and> mr_start_time r = now)
     \<and> (\<forall>k. map_of (gv_gauges (mr_isolates_active r)) k = latest (isolates_set k) xs)
     \<and> (\<forall>k. map_of (gv_gauges (mr_memory_bytes r)) k = latest (memory_set k) xs)
     \<and> (\<forall>k. map_of (gv_gauges (mr_worker_utilization r)) k = latest (utilization_set k) xs)
     \<and> mr_heap_limit_hits_total r = of_nat (count_list xs MHeapLimit) \<and> mr_cpu_timeout_total r = of_nat (count_list xs MCpuTimeout)
     \<and> mr_uptime_seconds r = (case latest (uptime_set now) xs of Some n \<Rightarrow> n | None \<Rightarrow> 0)"
proof (rule run_all_invariant)
  fix xs e and r :: metrics_registry
  let ?I = "\<lambda>xs r. (bounds_ok (hv_buckets (mr_request_duration r)) \<and> mr_start_time r = now)
     \<and> (\<forall>k. map_of (gv_gauges (mr_isolates_active r)) k = latest (isolates_set k) xs)
     \<and> (\<forall>k. map_of (gv_gauges (mr_memory_bytes r)) k = latest (memory_set k) xs)
     \<and> (\<forall>k. map_of (gv_gauges (mr_worker_utilization r)) k = latest (utilization_set k) xs)
     \<and> mr_heap_limit_hits_total r = of_nat (count_list xs MHeapLimit) \<and> mr_cpu_timeout_total r = of_nat (count_list xs MCpuTimeout)
     \<and> mr_uptime_seconds r = (case latest (uptime_set now) xs of Some n \<Rightarrow> n | None \<Rightarrow> 0)"
  assume I: "?I xs r"
  show "\<exists>s'. apply_metric e r = Ret s' \<and> ?I (xs @ [e]) s'"
  proof (cases e)
    case (MRequest h s d)
    obtain hv where hv: "histogram_vec_observe [h] d (mr_request_duration r) = Ret hv" "bounds_ok (hv_buckets hv)"
      using hvec.upd_ok [of "mr_request_duration r" "[h]" d] I by auto
    with I MRequest show ?thesis by (simp add: metrics_record_request_def Let_def)
  qed (use I in \<open>auto simp: metrics_record_error_def set_isolates_active_def set_memory_bytes_def set_worker_utilization_def
      record_heap_limit_hit_def record_cpu_timeout_def update_uptime_def Let_def counter_inc_def counter_inc_by_def min_def not_less\<close>)
qed (simp add: registry_metrics_new_def histogram_vec_new_def duration_bounds_ok gauge_vec_new_def counter_new_def)

section \<open>Properties\<close>

text \<open>
  C19. The registry counts exactly. Whatever calls arrive, none panics; the counter of a host and a status is the
  number of such requests and exists only if there is one; the error counter has the failed requests and the
  recorded errors; the latency histogram of a host has seen exactly the durations of its requests, in every bucket,
  in its sum and its count; the two counters without labels are the numbers of heap limit hits and of CPU timeouts; every
  gauge has the value it was set to last, a worker utilization limited to 100; and the uptime is the one that was
  measured last. Counters are modulo \<open>2 ^ 64\<close>.
\<close>

theorem registry_counts_exact:
  "\<exists>r. run_all apply_metric xs (registry_metrics_new now) = Ret r
     \<and> (\<forall>h s. map_of (cv_counters (mr_requests_total r)) [h, s] = tally (length (filter (\<lambda>e. \<exists>d. e = MRequest h s d) xs)))
     \<and> (\<forall>h c. map_of (cv_counters (mr_errors_total r)) [h, c] = tally (length (filter (is_error_of h c) xs)))
     \<and> (\<forall>h. if durations h xs = [] then map_of (hv_histograms (mr_request_duration r)) [h] = None
           else \<exists>hg. map_of (hv_histograms (mr_request_duration r)) [h] = Some hg \<and> records REQUEST_DURATION_BUCKETS (durations h xs) hg)
     \<and> (mr_heap_limit_hits_total r = of_nat (count_list xs MHeapLimit) \<and> mr_cpu_timeout_total r = of_nat (count_list xs MCpuTimeout))
     \<and> (\<forall>k. map_of (gv_gauges (mr_isolates_active r)) k = latest (isolates_set k) xs
           \<and> map_of (gv_gauges (mr_memory_bytes r)) k = latest (memory_set k) xs
           \<and> map_of (gv_gauges (mr_worker_utilization r)) k = latest (utilization_set k) xs)
     \<and> mr_uptime_seconds r = (case latest (uptime_set now) xs of Some n \<Rightarrow> n | None \<Rightarrow> 0)"
proof -
  let ?hv = "histogram_vec_new [''hostname''] REQUEST_DURATION_BUCKETS"
  have b: "bounds_ok (hv_buckets ?hv)" by (simp add: histogram_vec_new_def duration_bounds_ok)
  obtain r where r: "run_all apply_metric xs (registry_metrics_new now) = Ret r"
    and v: "run_all (\<lambda>(k, x) v. Ret (counter_vec_inc_by k x v)) (concat (map request_keys xs)) (counter_vec_new [''hostname'', ''status''])
         = Ret (mr_requests_total r)"
      "run_all (\<lambda>(k, x) v. Ret (counter_vec_inc_by k x v)) (concat (map error_keys xs)) (counter_vec_new [''hostname'', ''code''])
         = Ret (mr_errors_total r)"
      "run_all (\<lambda>(k, x). histogram_vec_observe k x) (concat (map duration_keys xs)) ?hv = Ret (mr_request_duration r)"
    using registry_run [of xs now] by blast
  have q: "map_of (cv_counters (mr_requests_total r)) [h, s] = tally (length (filter (\<lambda>e. \<exists>d. e = MRequest h s d) xs))" for h s
    by (rule counted [OF v(1) request_keys_of])
  have e: "map_of (cv_counters (mr_errors_total r)) [h, c] = tally (length (filter (is_error_of h c) xs))" for h c
    by (rule counted [OF v(2) error_keys_of])
  have d: "if durations h xs = [] then map_of (hv_histograms (mr_request_duration r)) [h] = None
           else \<exists>hg. map_of (hv_histograms (mr_request_duration r)) [h] = Some hg \<and> records REQUEST_DURATION_BUCKETS (durations h xs) hg" for h
  proof -
    have "map_of (hv_histograms (mr_request_duration r)) [h] =
        (if durations h xs = [] then None else Some (fold histogram_observe (durations h xs) (fresh_histogram ?hv)))"
      using hvec.run_entries [OF b, of "concat (map duration_keys xs)"] v(3)
      unfolding duration_keys_of [symmetric] Let_def by (auto simp: histogram_vec_new_def)
    then show ?thesis using records_fold [OF b records_fresh [OF b], of "durations h xs"] by (simp add: histogram_vec_new_def)
  qed
  show ?thesis using r q e d registry_gauges [of xs now] by auto
qed

text \<open>
  What a scraper reads of a histogram is the distribution of the observations: the line of each bound has the
  number of observations that do not exceed it, the sum line the sum of the scaled observations and the count line
  their number. This needs bounds in ascending order, as the text uses the bounds in the order they were given.
\<close>

theorem prometheus_buckets_exact:
  assumes "bounds_ok bs" "sort bs = bs" "histogram_new bs = Ret h0"
  shows "export_histogram_entry ff name names bs (labels, histogram_get (fold histogram_observe vs h0))
    = concat (map (\<lambda>b. bucket_line ff name (format_labels names labels) b (of_nat (at_most b vs))) bs)
      @ name @ ''_sum'' @ format_labels names labels @ '' ''
        @ ff_display ff (f_div (f_of_nat (unat (sum_list (map (\<lambda>v. f_to_u64 (f_mul v (Fin 1000))) vs)))) (Fin 1000)) @ nl
      @ name @ ''_count'' @ format_labels names labels @ '' '' @ show_u64 (of_nat (length vs)) @ nl"
proof -
  let ?h = "fold histogram_observe vs h0"
  have r: "records bs vs ?h" using records_new [OF assms(1)] assms(3) records_fold [OF assms(1), of "[]" h0 vs] by auto
  have "bucket_lines ff name (format_labels names labels) bs (h_bucket_counts ?h) 0 0
      = concat (map (\<lambda>j. bucket_line ff name (format_labels names labels) (bs ! j) (of_nat (at_most (bs ! j) vs))) [0..<length bs])"
    using r assms(2) by (intro bucket_lines_exact) (auto simp: records_def)
  also have "\<dots> = concat (map (\<lambda>b. bucket_line ff name (format_labels names labels) b (of_nat (at_most b vs))) bs)"
    by (rule arg_cong [where f = concat]) (auto intro: nth_equalityI)
  finally show ?thesis using r by (simp add: export_histogram_entry_def histogram_get_def Let_def records_def)
qed

theorem prometheus_buckets_exact_witness:
  "let h0 = \<lparr>h_buckets = [Fin 1, PInf], h_bucket_counts = [0, 0], h_sum = 0, h_count = 0\<rparr>;
       ff = \<lparr>ff_display = (\<lambda>_. ''n''), ff_fixed3 = (\<lambda>_. ''1.000'')\<rparr>
   in histogram_new [Fin 1, PInf] = Ret h0
     \<and> export_histogram_entry ff ''x'' [''hostname''] [Fin 1, PInf] ([''a''], histogram_get (fold histogram_observe [Fin 3, Fin (1 / 2), Fin 7] h0))
       = ''x_bucket{hostname='' @ quoted ''a'' @ '',le='' @ quoted ''1.000'' @ ''} 1'' @ nl
       @ ''x_bucket{hostname='' @ quoted ''a'' @ '',le='' @ quoted ''+Inf'' @ ''} 3'' @ nl
       @ ''x_sum{hostname='' @ quoted ''a'' @ ''} n'' @ nl @ ''x_count{hostname='' @ quoted ''a'' @ ''} 3'' @ nl"
proof -
  have b: "bounds_ok [Fin 1, PInf]" "sort [Fin 1, PInf] = [Fin 1, PInf]"
    by (simp_all add: bounds_ok_def less_eq_f64_def f_le_def)
  have h: "histogram_new [Fin 1, PInf] = Ret \<lparr>h_buckets = [Fin 1, PInf], h_bucket_counts = [0, 0], h_sum = 0, h_count = 0\<rparr>"
    using b by (simp add: histogram_new_def numeral_2_eq_2)
  let ?vs = "[Fin 3, Fin (1 / 2), Fin 7]" and ?ff = "\<lparr>ff_display = (\<lambda>_. ''n''), ff_fixed3 = (\<lambda>_. ''1.000'')\<rparr>"
  let ?l = "''{hostname='' @ quoted ''a'' @ ''}''"
  have l: "format_labels [''hostname''] [''a''] = ?l" by code_simp
  have a: "at_most (Fin 1) ?vs = 1" "at_most PInf ?vs = 3" "length ?vs = 3" "show_u64 (of_nat 1) = ''1''" "show_u64 (of_nat 3) = ''3''"
    by code_simp+
  have b1: "bucket_line ?ff ''x'' ?l (Fin 1) (of_nat 1) = ''x_bucket{hostname='' @ quoted ''a'' @ '',le='' @ quoted ''1.000'' @ ''} 1'' @ nl"
    by code_simp
  have b2: "bucket_line ?ff ''x'' ?l PInf (of_nat 3) = ''x_bucket{hostname='' @ quoted ''a'' @ '',le='' @ quoted ''+Inf'' @ ''} 3'' @ nl"
    by code_simp
  show ?thesis unfolding Let_def prometheus_buckets_exact [OF b h] l a list.map concat.simps b1 b2 using h by simp
qed

text \<open>
  Labels survive the text format: reading the label list that the exporter prints gives back every name with
  its value, whatever quotes, backslashes or line ends the value has, so the values of one metric cannot
  be confused with each other and cannot forge further labels or lines.
\<close>

theorem prometheus_labels_roundtrip:
  assumes "length names = length vals" "names \<noteq> []" "\<forall>n \<in> set names. CHR ''='' \<notin> set n"
  shows "\<exists>s. format_labels names vals @ rest = CHR ''{'' # s \<and> read_labels (length names) s = Some (zip names vals, rest)"
  using read_labels_format [OF assms, of rest] assms by (cases vals) (simp_all add: format_labels_def)

theorem prometheus_labels_roundtrip_witness:
  "\<exists>s. format_labels [''hostname''] [[CHR ''a'', CHR 0x22, CHR 0x0A]] @ '' 1'' = CHR ''{'' # s
     \<and> read_labels 1 s = Some ([(''hostname'', [CHR ''a'', CHR 0x22, CHR 0x0A])], '' 1'')"
  using prometheus_labels_roundtrip [of "[''hostname'']" "[[CHR ''a'', CHR 0x22, CHR 0x0A]]" "'' 1''"] by simp

end
