(* ===== verification/Metrics_Tenant.thy ===== *)
theory Metrics_Tenant
  imports Metrics_Export Worker_Eviction
begin

text \<open>
  Metrics per tenant (\<^verbatim>\<open>src/src/metrics/tenant.rs\<close>): counters, gauges, peak memory and histograms of one host,
  the global sums, the collector that creates the entry of a host on its first use, the rankings, the
  snapshot and the Prometheus text. Building a histogram can panic in general, so building an entry is an
  outcome; with the bounds of this file it never does. The compare-and-exchange of the peak has no
  competitor within one step and succeeds.
\<close>

section \<open>Definitions\<close>

definition CPU_TIME_BUCKETS :: "f64 list" where
  "CPU_TIME_BUCKETS = map round_f64 [1 / 1000, 5 / 1000, 10 / 1000, 25 / 1000, 50 / 1000, 100 / 1000, 250 / 1000, 500 / 1000, 1] @ [PInf]"

definition MEMORY_BUCKETS :: "f64 list" where
  "MEMORY_BUCKETS = [Fin 1024, Fin 10240, Fin 102400, Fin 1048576, Fin 10485760, Fin 52428800, Fin 104857600, PInf]"

datatype request_result = RSuccess | RError | RTimeout

definition result_as_str :: "request_result \<Rightarrow> string" where
  "result_as_str r = (case r of RSuccess \<Rightarrow> ''success'' | RError \<Rightarrow> ''error'' | RTimeout \<Rightarrow> ''timeout'')"

record tenant_metrics =
  tm_hostname :: string
  tm_requests_total :: counter
  tm_requests_success :: counter
  tm_requests_error :: counter
  tm_requests_timeout :: counter
  tm_cpu_seconds_total :: counter
  tm_context_resets_total :: counter
  tm_pressure_events :: "(memory_pressure_level \<times> counter) list"
  tm_memory_used_bytes :: gauge
  tm_memory_external_bytes :: gauge
  tm_requests_active :: gauge
  tm_isolates_active :: gauge
  tm_memory_peak_bytes :: u64
  tm_request_duration_seconds :: histogram
  tm_cpu_time_per_request_seconds :: histogram
  tm_memory_per_request_bytes :: histogram

definition new_pressure_events :: "(memory_pressure_level \<times> counter) list" where
  "new_pressure_events = [(Warning, counter_new), (Critical, counter_new), (Emergency, counter_new)]"

definition tenant_metrics_new :: "string \<Rightarrow> tenant_metrics outcome" where
  "tenant_metrics_new h =
     bind_out (histogram_new REQUEST_DURATION_BUCKETS) (\<lambda>duration.
     bind_out (histogram_new CPU_TIME_BUCKETS) (\<lambda>cpu.
     bind_out (histogram_new MEMORY_BUCKETS) (\<lambda>memory.
     Ret \<lparr>tm_hostname = h, tm_requests_total = counter_new, tm_requests_success = counter_new, tm_requests_error = counter_new,
       tm_requests_timeout = counter_new, tm_cpu_seconds_total = counter_new, tm_context_resets_total = counter_new,
       tm_pressure_events = new_pressure_events, tm_memory_used_bytes = gauge_new, tm_memory_external_bytes = gauge_new,
       tm_requests_active = gauge_new, tm_isolates_active = gauge_new, tm_memory_peak_bytes = 0,
       tm_request_duration_seconds = duration, tm_cpu_time_per_request_seconds = cpu, tm_memory_per_request_bytes = memory\<rparr>)))"

definition raise_peak :: "u64 \<Rightarrow> tenant_metrics \<Rightarrow> tenant_metrics" where
  "raise_peak n m = (if n > tm_memory_peak_bytes m then m\<lparr>tm_memory_peak_bytes := n\<rparr> else m)"

definition count_result :: "request_result \<Rightarrow> tenant_metrics \<Rightarrow> tenant_metrics" where
  "count_result r m = (case r of
       RSuccess \<Rightarrow> m\<lparr>tm_requests_success := counter_inc (tm_requests_success m)\<rparr>
     | RError \<Rightarrow> m\<lparr>tm_requests_error := counter_inc (tm_requests_error m)\<rparr>
     | RTimeout \<Rightarrow> m\<lparr>tm_requests_timeout := counter_inc (tm_requests_timeout m)\<rparr>)"

definition cpu_seconds_of :: "u64 \<Rightarrow> f64" where
  "cpu_seconds_of us = f_div (f_of_nat (unat us)) (Fin 1000000)"

definition tenant_record_request :: "request_result \<Rightarrow> u64 \<Rightarrow> usize \<Rightarrow> u64 \<Rightarrow> tenant_metrics \<Rightarrow> tenant_metrics" where
  "tenant_record_request r cpu_time_us memory_bytes duration_ms m =
     (let m = m\<lparr>tm_requests_total := counter_inc (tm_requests_total m)\<rparr>;
          m = count_result r m;
          cpu_seconds = cpu_seconds_of cpu_time_us;
          m = m\<lparr>tm_cpu_seconds_total := counter_inc_by (f_to_u64 cpu_seconds) (tm_cpu_seconds_total m)\<rparr>;
          m = m\<lparr>tm_request_duration_seconds :=
                 histogram_observe (f_div (f_of_nat (unat duration_ms)) (Fin 1000)) (tm_request_duration_seconds m)\<rparr>;
          m = m\<lparr>tm_cpu_time_per_request_seconds := histogram_observe cpu_seconds (tm_cpu_time_per_request_seconds m)\<rparr>;
          m = m\<lparr>tm_memory_per_request_bytes := histogram_observe (f_of_nat (unat memory_bytes)) (tm_memory_per_request_bytes m)\<rparr>
      in raise_peak memory_bytes m)"

definition tenant_update_memory :: "usize \<Rightarrow> usize \<Rightarrow> tenant_metrics \<Rightarrow> tenant_metrics" where
  "tenant_update_memory heap_bytes external_bytes m =
     raise_peak (heap_bytes + external_bytes)
       (m\<lparr>tm_memory_used_bytes := gauge_set heap_bytes (tm_memory_used_bytes m),
          tm_memory_external_bytes := gauge_set external_bytes (tm_memory_external_bytes m)\<rparr>)"

definition tenant_record_context_reset :: "tenant_metrics \<Rightarrow> tenant_metrics" where
  "tenant_record_context_reset m = m\<lparr>tm_context_resets_total := counter_inc (tm_context_resets_total m)\<rparr>"

definition inc_pressure ::
  "memory_pressure_level \<Rightarrow> (memory_pressure_level \<times> counter) list \<Rightarrow> (memory_pressure_level \<times> counter) list" where
  "inc_pressure l es = (case map_of es l of Some c \<Rightarrow> AList.update l (counter_inc c) es | None \<Rightarrow> es)"

definition tenant_record_pressure_event :: "memory_pressure_level \<Rightarrow> tenant_metrics \<Rightarrow> tenant_metrics" where
  "tenant_record_pressure_event l m = m\<lparr>tm_pressure_events := inc_pressure l (tm_pressure_events m)\<rparr>"

definition inc_active_requests :: "tenant_metrics \<Rightarrow> tenant_metrics" where
  "inc_active_requests m = m\<lparr>tm_requests_active := gauge_inc (tm_requests_active m)\<rparr>"

definition dec_active_requests :: "tenant_metrics \<Rightarrow> tenant_metrics" where
  "dec_active_requests m = m\<lparr>tm_requests_active := gauge_dec (tm_requests_active m)\<rparr>"

definition calculate_rps :: "f64 \<Rightarrow> tenant_metrics \<Rightarrow> f64" where
  "calculate_rps elapsed_seconds m =
     (if f_lt (Fin 0) elapsed_seconds then f_div (f_of_nat (unat (tm_requests_total m))) elapsed_seconds else Fin 0)"

text \<open>The loop over the counts, from the bucket with number \<open>i\<close> on.\<close>

primrec p99_loop :: "u64 \<Rightarrow> nat \<Rightarrow> u64 \<Rightarrow> u64 list \<Rightarrow> f64" where
  "p99_loop target i cumulative [] = PInf"
| "p99_loop target i cumulative (c # cs) =
     (if cumulative + c \<ge> target
      then if i < length REQUEST_DURATION_BUCKETS then REQUEST_DURATION_BUCKETS ! i else PInf
      else p99_loop target (Suc i) (cumulative + c) cs)"

definition request_duration_p99 :: "tenant_metrics \<Rightarrow> f64" where
  "request_duration_p99 m =
     (case histogram_get (tm_request_duration_seconds m) of (buckets, _, n) \<Rightarrow>
        if n = 0 then Fin 0
        else p99_loop (f_to_u64 (f_mul (f_of_nat (unat n)) (round_f64 (99 / 100)))) 0 0 buckets)"

subsection \<open>The collector\<close>

record global_metrics =
  gm_total_requests :: counter
  gm_total_cpu_seconds :: counter
  gm_total_memory_bytes :: gauge
  gm_active_isolates :: gauge
  gm_pressure_events :: "(memory_pressure_level \<times> counter) list"

definition global_metrics_new :: global_metrics where
  "global_metrics_new = \<lparr>gm_total_requests = counter_new, gm_total_cpu_seconds = counter_new, gm_total_memory_bytes = gauge_new,
     gm_active_isolates = gauge_new, gm_pressure_events = new_pressure_events\<rparr>"

definition global_record_request :: "f64 \<Rightarrow> global_metrics \<Rightarrow> global_metrics" where
  "global_record_request cpu_seconds g = g\<lparr>gm_total_requests := counter_inc (gm_total_requests g),
     gm_total_cpu_seconds := counter_inc_by (f_to_u64 cpu_seconds) (gm_total_cpu_seconds g)\<rparr>"

definition global_record_pressure_event :: "memory_pressure_level \<Rightarrow> global_metrics \<Rightarrow> global_metrics" where
  "global_record_pressure_event l g = g\<lparr>gm_pressure_events := inc_pressure l (gm_pressure_events g)\<rparr>"

record tenant_collector =
  tc_tenants :: "(string \<times> tenant_metrics) list"
  tc_global :: global_metrics

definition tenant_collector_new :: tenant_collector where
  "tenant_collector_new = \<lparr>tc_tenants = [], tc_global = global_metrics_new\<rparr>"

definition get_or_create :: "string \<Rightarrow> tenant_collector \<Rightarrow> (tenant_metrics \<times> tenant_collector) outcome" where
  "get_or_create h tc = (case map_of (tc_tenants tc) h of
       Some m \<Rightarrow> Ret (m, tc)
     | None \<Rightarrow> bind_out (tenant_metrics_new h) (\<lambda>m. Ret (m, tc\<lparr>tc_tenants := AList.update h m (tc_tenants tc)\<rparr>)))"

text \<open>Changing the shared entry of a host, which the collector refers to.\<close>

definition with_tenant :: "string \<Rightarrow> (tenant_metrics \<Rightarrow> tenant_metrics) \<Rightarrow> tenant_collector \<Rightarrow> tenant_collector outcome" where
  "with_tenant h f tc = bind_out (get_or_create h tc) (\<lambda>(m, tc'). Ret (tc'\<lparr>tc_tenants := AList.update h (f m) (tc_tenants tc')\<rparr>))"

definition collector_record_request ::
  "string \<Rightarrow> request_result \<Rightarrow> u64 \<Rightarrow> usize \<Rightarrow> u64 \<Rightarrow> tenant_collector \<Rightarrow> tenant_collector outcome" where
  "collector_record_request h r cpu_time_us memory_bytes duration_ms tc =
     bind_out (with_tenant h (tenant_record_request r cpu_time_us memory_bytes duration_ms) tc) (\<lambda>tc'.
       Ret (tc'\<lparr>tc_global := global_record_request (cpu_seconds_of cpu_time_us) (tc_global tc')\<rparr>))"

definition collector_update_memory :: "string \<Rightarrow> usize \<Rightarrow> usize \<Rightarrow> tenant_collector \<Rightarrow> tenant_collector outcome" where
  "collector_update_memory h heap_bytes external_bytes tc = with_tenant h (tenant_update_memory heap_bytes external_bytes) tc"

definition collector_record_context_reset :: "string \<Rightarrow> tenant_collector \<Rightarrow> tenant_collector outcome" where
  "collector_record_context_reset h tc = with_tenant h tenant_record_context_reset tc"

definition collector_record_pressure_event :: "string \<Rightarrow> memory_pressure_level \<Rightarrow> tenant_collector \<Rightarrow> tenant_collector outcome" where
  "collector_record_pressure_event h l tc =
     bind_out (with_tenant h (tenant_record_pressure_event l) tc) (\<lambda>tc'.
       Ret (tc'\<lparr>tc_global := global_record_pressure_event l (tc_global tc')\<rparr>))"

definition get_tenant :: "string \<Rightarrow> tenant_collector \<Rightarrow> tenant_metrics option" where
  "get_tenant h tc = map_of (tc_tenants tc) h"

definition tenant_count :: "tenant_collector \<Rightarrow> nat" where
  "tenant_count tc = length (tc_tenants tc)"

definition tenant_hostnames :: "tenant_collector \<Rightarrow> string list" where
  "tenant_hostnames tc = map fst (tc_tenants tc)"

text \<open>A stable sort by descending value, cut to \<open>n\<close> entries.\<close>

definition top_n :: "nat \<Rightarrow> (string \<times> u64) list \<Rightarrow> (string \<times> u64) list" where
  "top_n n ts = take n (sort_key (\<lambda>t. - int (unat (snd t))) ts)"

definition top_tenants_by_requests :: "nat \<Rightarrow> tenant_collector \<Rightarrow> (string \<times> u64) list" where
  "top_tenants_by_requests n tc = top_n n (map (\<lambda>(h, m). (h, tm_requests_total m)) (tc_tenants tc))"

definition top_tenants_by_cpu :: "nat \<Rightarrow> tenant_collector \<Rightarrow> (string \<times> u64) list" where
  "top_tenants_by_cpu n tc = top_n n (map (\<lambda>(h, m). (h, tm_cpu_seconds_total m)) (tc_tenants tc))"

definition metric_line :: "string \<Rightarrow> string \<Rightarrow> u64 \<Rightarrow> string" where
  "metric_line name h v = name @ ''{hostname='' @ quoted h @ ''} '' @ show_u64 v @ nl"

definition tenant_lines :: "(string \<times> tenant_metrics) list \<Rightarrow> (string \<times> (tenant_metrics \<Rightarrow> u64)) list \<Rightarrow> string" where
  "tenant_lines ts cols = concat (map (\<lambda>(h, m). concat (map (\<lambda>(name, f). metric_line name h (f m)) cols)) ts)"

definition to_prometheus :: "tenant_collector \<Rightarrow> string" where
  "to_prometheus tc = (let ts = tc_tenants tc in
     help_type ''nano_tenant_requests_total'' ''Total requests per tenant'' ''counter''
     @ tenant_lines ts [(''nano_tenant_requests_total'', tm_requests_total), (''nano_tenant_requests_success'', tm_requests_success),
         (''nano_tenant_requests_error'', tm_requests_error), (''nano_tenant_requests_timeout'', tm_requests_timeout)] @ nl
     @ help_type ''nano_tenant_cpu_seconds_total'' ''Total CPU seconds per tenant'' ''counter''
     @ tenant_lines ts [(''nano_tenant_cpu_seconds_total'', tm_cpu_seconds_total)] @ nl
     @ help_type ''nano_tenant_memory_used_bytes'' ''Current memory usage per tenant'' ''gauge''
     @ tenant_lines ts [(''nano_tenant_memory_used_bytes'', tm_memory_used_bytes),
         (''nano_tenant_memory_external_bytes'', tm_memory_external_bytes)] @ nl
     @ help_type ''nano_tenant_requests_active'' ''Active requests per tenant'' ''gauge''
     @ tenant_lines ts [(''nano_tenant_requests_active'', tm_requests_active)] @ nl
     @ help_type ''nano_tenant_context_resets_total'' ''Total context resets per tenant'' ''counter''
     @ tenant_lines ts [(''nano_tenant_context_resets_total'', tm_context_resets_total)])"

record tenant_metrics_snapshot =
  ts_hostname :: string
  ts_requests_total :: u64
  ts_requests_success :: u64
  ts_requests_error :: u64
  ts_requests_timeout :: u64
  ts_requests_active :: u64
  ts_cpu_seconds_total :: u64
  ts_cpu_avg_ms :: f64
  ts_memory_used_bytes :: u64
  ts_memory_external_bytes :: u64
  ts_memory_peak_bytes :: u64
  ts_context_resets_total :: u64
  ts_latency_p50_ms :: f64
  ts_latency_p95_ms :: f64
  ts_latency_p99_ms :: f64
  ts_isolates_active :: u64

record metrics_snapshot =
  sn_tenants :: "tenant_metrics_snapshot list"
  sn_total_requests :: u64
  sn_total_cpu_seconds :: u64

definition tenant_snapshot :: "string \<Rightarrow> tenant_metrics \<Rightarrow> tenant_metrics_snapshot" where
  "tenant_snapshot h m =
     (case histogram_get (tm_cpu_time_per_request_seconds m) of (_, cpu_sum, cpu_count) \<Rightarrow>
       \<lparr>ts_hostname = h, ts_requests_total = tm_requests_total m, ts_requests_success = tm_requests_success m,
        ts_requests_error = tm_requests_error m, ts_requests_timeout = tm_requests_timeout m, ts_requests_active = tm_requests_active m,
        ts_cpu_seconds_total = tm_cpu_seconds_total m,
        ts_cpu_avg_ms = (if cpu_count > 0 then f_div (f_mul cpu_sum (Fin 1000)) (f_of_nat (unat cpu_count)) else Fin 0),
        ts_memory_used_bytes = tm_memory_used_bytes m, ts_memory_external_bytes = tm_memory_external_bytes m,
        ts_memory_peak_bytes = tm_memory_peak_bytes m, ts_context_resets_total = tm_context_resets_total m,
        ts_latency_p50_ms = Fin 0, ts_latency_p95_ms = Fin 0, ts_latency_p99_ms = f_mul (request_duration_p99 m) (Fin 1000),
        ts_isolates_active = tm_isolates_active m\<rparr>)"

definition collector_snapshot :: "tenant_collector \<Rightarrow> metrics_snapshot" where
  "collector_snapshot tc =
     (let tenants = map (\<lambda>(h, m). tenant_snapshot h m) (tc_tenants tc)
      in \<lparr>sn_tenants = tenants, sn_total_requests = sum_list (map ts_requests_total tenants),
          sn_total_cpu_seconds = sum_list (map ts_cpu_seconds_total tenants)\<rparr>)"

subsection \<open>Specification vocabulary\<close>

datatype tenant_event =
    TRequest string request_result u64 usize u64
  | TMemory string usize usize
  | TReset string
  | TPressure string memory_pressure_level

fun apply_tenant :: "tenant_event \<Rightarrow> tenant_collector \<Rightarrow> tenant_collector outcome" where
  "apply_tenant (TRequest h r cpu mem dur) tc = collector_record_request h r cpu mem dur tc"
| "apply_tenant (TMemory h heap ext) tc = collector_update_memory h heap ext tc"
| "apply_tenant (TReset h) tc = collector_record_context_reset h tc"
| "apply_tenant (TPressure h l) tc = collector_record_pressure_event h l tc"

fun event_host :: "tenant_event \<Rightarrow> string" where
  "event_host (TRequest h r cpu mem dur) = h"
| "event_host (TMemory h heap ext) = h"
| "event_host (TReset h) = h"
| "event_host (TPressure h l) = h"

fun event_update :: "tenant_event \<Rightarrow> tenant_metrics \<Rightarrow> tenant_metrics" where
  "event_update (TRequest h r cpu mem dur) m = tenant_record_request r cpu mem dur m"
| "event_update (TMemory h heap ext) m = tenant_update_memory heap ext m"
| "event_update (TReset h) m = tenant_record_context_reset m"
| "event_update (TPressure h l) m = tenant_record_pressure_event l m"

text \<open>The number of requests of a host with a given result.\<close>

fun is_request :: "string \<Rightarrow> (request_result \<Rightarrow> bool) \<Rightarrow> tenant_event \<Rightarrow> bool" where
  "is_request h p (TRequest h' r cpu mem dur) = (h' = h \<and> p r)"
| "is_request h p e = False"

definition requests :: "string \<Rightarrow> (request_result \<Rightarrow> bool) \<Rightarrow> tenant_event list \<Rightarrow> nat" where
  "requests h p xs = length (filter (is_request h p) xs)"

text \<open>Requests whose CPU time is below a second and that last at most a second.\<close>

fun quick :: "tenant_event \<Rightarrow> bool" where
  "quick (TRequest h r cpu mem dur) = (unat cpu < 1000000 \<and> unat dur \<le> 1000)"
| "quick e = True"

text \<open>The entry that a host starts with, and the entry it has.\<close>

definition fresh_tenant :: "string \<Rightarrow> tenant_metrics" where
  "fresh_tenant h = (case tenant_metrics_new h of Ret m \<Rightarrow> m | Panic \<Rightarrow> undefined)"

definition entry :: "string \<Rightarrow> tenant_collector \<Rightarrow> tenant_metrics" where
  "entry h tc = (case map_of (tc_tenants tc) h of Some m \<Rightarrow> m | None \<Rightarrow> fresh_tenant h)"

fun event_global :: "tenant_event \<Rightarrow> global_metrics \<Rightarrow> global_metrics" where
  "event_global (TRequest h r cpu mem dur) g = global_record_request (cpu_seconds_of cpu) g"
| "event_global (TPressure h l) g = global_record_pressure_event l g"
| "event_global e g = g"

fun tenant_duration :: "tenant_event \<Rightarrow> f64 list" where
  "tenant_duration (TRequest h r cpu mem dur) = [f_div (f_of_nat (unat dur)) (Fin 1000)]"
| "tenant_duration e = []"

section \<open>Lemmas\<close>

lemma tenant_bounds_ok: "bounds_ok REQUEST_DURATION_BUCKETS" "bounds_ok CPU_TIME_BUCKETS" "bounds_ok MEMORY_BUCKETS"
  by (auto simp: bounds_ok_def REQUEST_DURATION_BUCKETS_def CPU_TIME_BUCKETS_def MEMORY_BUCKETS_def dest: sym)

lemma tenant_metrics_new_ok:
  "tenant_metrics_new h = Ret (fresh_tenant h) \<and> tm_hostname (fresh_tenant h) = h
   \<and> tm_requests_total (fresh_tenant h) = 0 \<and> tm_requests_success (fresh_tenant h) = 0 \<and> tm_requests_error (fresh_tenant h) = 0
   \<and> tm_requests_timeout (fresh_tenant h) = 0 \<and> tm_cpu_seconds_total (fresh_tenant h) = 0
   \<and> records REQUEST_DURATION_BUCKETS [] (tm_request_duration_seconds (fresh_tenant h))"
proof -
  obtain d c m where "histogram_new REQUEST_DURATION_BUCKETS = Ret d" "records REQUEST_DURATION_BUCKETS [] d"
    "histogram_new CPU_TIME_BUCKETS = Ret c" "histogram_new MEMORY_BUCKETS = Ret m"
    using records_new tenant_bounds_ok by metis
  then show ?thesis by (simp add: fresh_tenant_def tenant_metrics_new_def counter_new_def)
qed

lemma with_tenant_ok: "with_tenant h f tc = Ret (tc\<lparr>tc_tenants := AList.update h (f (entry h tc)) (tc_tenants tc)\<rparr>)"
  by (simp add: with_tenant_def get_or_create_def entry_def tenant_metrics_new_ok update_last split: option.split)

lemma apply_tenant_ok:
  "apply_tenant e tc = Ret (tc\<lparr>tc_tenants := AList.update (event_host e) (event_update e (entry (event_host e) tc)) (tc_tenants tc),
      tc_global := event_global e (tc_global tc)\<rparr>)"
  by (cases e) (simp_all add: collector_record_request_def collector_update_memory_def collector_record_context_reset_def
      collector_record_pressure_event_def with_tenant_ok)

lemma event_global_requests:
  "gm_total_requests (event_global e g) = gm_total_requests g + (if is_request (event_host e) (\<lambda>_. True) e then 1 else 0)"
  by (cases e) (simp_all add: global_record_request_def global_record_pressure_event_def counter_inc_def counter_inc_by_def)

lemmas tenant_event_defs = tenant_record_request_def tenant_update_memory_def tenant_record_context_reset_def
  tenant_record_pressure_event_def count_result_def raise_peak_def Let_def counter_inc_def counter_inc_by_def

lemma event_update_counts:
  "tm_hostname (event_update e m) = tm_hostname m"
  "tm_requests_total (event_update e m) = tm_requests_total m + of_nat (requests (event_host e) (\<lambda>_. True) [e])"
  "tm_requests_success (event_update e m) = tm_requests_success m + of_nat (requests (event_host e) (\<lambda>r. r = RSuccess) [e])"
  "tm_requests_error (event_update e m) = tm_requests_error m + of_nat (requests (event_host e) (\<lambda>r. r = RError) [e])"
  "tm_requests_timeout (event_update e m) = tm_requests_timeout m + of_nat (requests (event_host e) (\<lambda>r. r = RTimeout) [e])"
  "tm_request_duration_seconds (event_update e m) = fold histogram_observe (tenant_duration e) (tm_request_duration_seconds m)"
  by (cases e; simp add: tenant_event_defs requests_def split: request_result.split)+

lemma requests_Cons: "requests h p (e # xs) = requests h p [e] + requests h p xs"
  by (simp add: requests_def)

lemma fold_event_counts:
  assumes "\<forall>e \<in> set es. event_host e = h"
  shows "tm_hostname (fold event_update es m) = tm_hostname m
     \<and> tm_requests_total (fold event_update es m) = tm_requests_total m + of_nat (requests h (\<lambda>_. True) es)
     \<and> tm_requests_success (fold event_update es m) = tm_requests_success m + of_nat (requests h (\<lambda>r. r = RSuccess) es)
     \<and> tm_requests_error (fold event_update es m) = tm_requests_error m + of_nat (requests h (\<lambda>r. r = RError) es)
     \<and> tm_requests_timeout (fold event_update es m) = tm_requests_timeout m + of_nat (requests h (\<lambda>r. r = RTimeout) es)
     \<and> tm_request_duration_seconds (fold event_update es m)
         = fold histogram_observe (concat (map tenant_duration es)) (tm_request_duration_seconds m)"
  using assms
proof (induction es arbitrary: m)
  case (Cons e es)
  then have h: "event_host e = h" by simp
  show ?case using Cons.IH [of "event_update e m"] Cons.prems event_update_counts [of e m] unfolding h requests_Cons [of h _ e es]
    by (simp add: algebra_simps)
qed (simp add: requests_def)

lemma requests_own: "requests h p (filter (\<lambda>e. event_host e = h) xs) = requests h p xs"
proof -
  have "is_request h p e \<Longrightarrow> event_host e = h" for e by (cases e) simp_all
  then show ?thesis unfolding requests_def filter_filter by (metis (mono_tags, lifting) filter_cong)
qed

lemma requests_results:
  "requests h (\<lambda>_. True) xs = requests h (\<lambda>r. r = RSuccess) xs + requests h (\<lambda>r. r = RError) xs + requests h (\<lambda>r. r = RTimeout) xs"
proof (induction xs)
  case (Cons e xs)
  have "requests h (\<lambda>_. True) [e] = requests h (\<lambda>r. r = RSuccess) [e] + requests h (\<lambda>r. r = RError) [e] + requests h (\<lambda>r. r = RTimeout) [e]"
  proof (cases e)
    case (TRequest h' r cpu mem dur)
    then show ?thesis by (cases r) (simp_all add: requests_def)
  qed (simp_all add: requests_def)
  with Cons show ?case by (simp add: requests_Cons [of h _ e xs])
qed (simp add: requests_def)

lemma sum_alist_update:
  fixes f :: "'b \<Rightarrow> 'c :: ab_group_add"
  shows "distinct (map fst ts) \<Longrightarrow> sum_list (map (\<lambda>t. f (snd t)) (AList.update k v ts))
    = sum_list (map (\<lambda>t. f (snd t)) ts) + f v - (case map_of ts k of Some m \<Rightarrow> f m | None \<Rightarrow> 0)"
proof (induction ts)
  case (Cons t ts)
  show ?case
  proof (cases "fst t = k")
    case True
    then have "map_of ts k = None" using Cons.prems by (auto simp: map_of_eq_None_iff)
    with True show ?thesis by (cases t) (simp add: algebra_simps)
  next
    case False
    with Cons show ?thesis by (cases t) (simp add: algebra_simps)
  qed
qed simp

text \<open>The entries after a sequence of events: each host has seen its own events in order.\<close>

lemma tenant_run:
  "\<exists>tc. run_all apply_tenant xs tenant_collector_new = Ret tc \<and> distinct (map fst (tc_tenants tc))
     \<and> (\<forall>h. map_of (tc_tenants tc) h = (if filter (\<lambda>e. event_host e = h) xs = [] then None
           else Some (fold event_update (filter (\<lambda>e. event_host e = h) xs) (fresh_tenant h))))
     \<and> gm_total_requests (tc_global tc) = of_nat (length (filter (\<lambda>e. is_request (event_host e) (\<lambda>_. True) e) xs))
     \<and> sum_list (map (\<lambda>t. tm_requests_total (snd t)) (tc_tenants tc)) = gm_total_requests (tc_global tc)"
proof (rule run_all_invariant)
  fix xs e and tc :: tenant_collector
  let ?I = "\<lambda>xs tc. distinct (map fst (tc_tenants tc))
     \<and> (\<forall>h. map_of (tc_tenants tc) h = (if filter (\<lambda>e. event_host e = h) xs = [] then None
           else Some (fold event_update (filter (\<lambda>e. event_host e = h) xs) (fresh_tenant h))))
     \<and> gm_total_requests (tc_global tc) = of_nat (length (filter (\<lambda>e. is_request (event_host e) (\<lambda>_. True) e) xs))
     \<and> sum_list (map (\<lambda>t. tm_requests_total (snd t)) (tc_tenants tc)) = gm_total_requests (tc_global tc)"
  assume I: "?I xs tc"
  let ?h = "event_host e"
  let ?m = "entry ?h tc"
  have z: "tm_requests_total ?m = (case map_of (tc_tenants tc) ?h of Some m \<Rightarrow> tm_requests_total m | None \<Rightarrow> 0)"
    by (simp add: entry_def tenant_metrics_new_ok split: option.split)
  have "sum_list (map (\<lambda>t. tm_requests_total (snd t)) (AList.update ?h (event_update e ?m) (tc_tenants tc)))
      = gm_total_requests (event_global e (tc_global tc))"
    using I z sum_alist_update [of "tc_tenants tc" tm_requests_total ?h "event_update e ?m"]
    by (simp add: event_update_counts(2) requests_def event_global_requests)
  moreover have "map_of (AList.update ?h (event_update e ?m) (tc_tenants tc)) h = (if filter (\<lambda>e. event_host e = h) (xs @ [e]) = [] then None
      else Some (fold event_update (filter (\<lambda>e. event_host e = h) (xs @ [e])) (fresh_tenant h)))" for h
    using I by (simp add: entry_def)
  ultimately show "\<exists>s'. apply_tenant e tc = Ret s' \<and> ?I (xs @ [e]) s'"
    using I by (simp add: apply_tenant_ok event_global_requests distinct_update)
qed (simp add: tenant_collector_new_def global_metrics_new_def counter_new_def)

subsection \<open>Units\<close>

lemma cpu_below_second: "unat us < 1000000 \<Longrightarrow> f_to_u64 (cpu_seconds_of us) = 0"
proof -
  have "f_to_u64 (f_div (f_of_nat n) (Fin 1000000)) = 0" if "n < 1000000" for n
  proof -
    have e: "f_of_nat n = Fin (of_nat n)" using that by (intro f_of_nat_exact) simp
    have "n \<le> 999999" using that by simp
    then have "of_nat n \<le> (of_nat 999999 :: rat)" by (simp only: of_nat_le_iff)
    then have "of_nat n / 1000000 \<le> (1 - 1 / 2 ^ 53 :: rat)" by simp
    then have "f_to_u64 (round_f64 (of_nat n / 1000000)) = 0" by (intro f_to_u64_below_one) simp_all
    then show ?thesis unfolding e by (simp add: f_div_def)
  qed
  then show "unat us < 1000000 \<Longrightarrow> ?thesis" by (simp add: cpu_seconds_of_def)
qed

lemma round_one: "round_f64 1 = Fin 1"
  using f_of_nat_exact [of 1] by (simp add: f_of_nat_def)

lemma duration_below_second: "n \<le> 1000 \<Longrightarrow> f_le (f_div (f_of_nat n) (Fin 1000)) (Fin 1)"
proof -
  assume n: "n \<le> 1000"
  then have e: "f_of_nat n = Fin (of_nat n)" by (intro f_of_nat_exact) simp
  have "of_nat n \<le> (of_nat 1000 :: rat)" using n by (simp only: of_nat_le_iff)
  then have "f_le (round_f64 (of_nat n / 1000)) (round_f64 1)" by (intro round_f64_mono) simp_all
  then show ?thesis unfolding e round_one by (simp add: f_div_def)
qed

lemma event_update_cpu: "quick e \<Longrightarrow> tm_cpu_seconds_total (event_update e m) = tm_cpu_seconds_total m"
  by (cases e) (simp_all add: tenant_event_defs cpu_below_second split: request_result.split)

lemma fold_event_cpu: "list_all quick es \<Longrightarrow> tm_cpu_seconds_total (fold event_update es m) = tm_cpu_seconds_total m"
  by (induction es arbitrary: m) (simp_all add: event_update_cpu)

lemma quick_durations: "list_all quick es \<Longrightarrow> at_most (Fin 1) (concat (map tenant_duration es)) = length (concat (map tenant_duration es))"
proof (induction es)
  case (Cons e es)
  then show ?case by (cases e) (simp_all add: at_most_def duration_below_second)
qed (simp add: at_most_def)

lemma durations_requests: "\<forall>e \<in> set es. event_host e = h \<Longrightarrow> length (concat (map tenant_duration es)) = requests h (\<lambda>_. True) es"
proof (induction es)
  case (Cons e es)
  then show ?case by (cases e) (simp_all add: requests_def)
qed (simp add: requests_def)

text \<open>The rank of the percentile does not exceed the number of observations.\<close>

lemma p99_target_le:
  assumes "n < 2 ^ 53"
  shows "unat (f_to_u64 (f_mul (f_of_nat n) (round_f64 (99 / 100)))) \<le> n"
proof -
  have t: "round_f64 (99 / 100) = Fin (nearest (99 / 100))" by (rule nearest_range) simp_all
  have "nearest (99 / 100) < 1" by (rule nearest_below_one) simp_all
  then have n1: "0 \<le> nearest (99 / 100)" "nearest (99 / 100) \<le> 1" using nearest_nonneg [of "99 / 100"] by simp_all
  let ?q = "of_nat n * nearest (99 / 100) :: rat"
  have q: "0 \<le> ?q" "?q \<le> of_nat n" using n1 by (simp_all add: mult_left_le)
  show ?thesis using f_to_u64_le [OF q assms] by (simp add: f_of_nat_exact [OF assms] t f_mul_def)
qed

section \<open>Properties\<close>

text \<open>
  The collector never panics and counts every tenant exactly: a host has an entry as soon as an event names it,
  its entry has seen its own requests only, their total is the sum of successes, errors and timeouts, and the global
  total, the sum of the snapshot and the number of requests agree. Counters are modulo \<open>2 ^ 64\<close>.
\<close>

theorem tenant_metrics_exact:
  "\<exists>tc. run_all apply_tenant xs tenant_collector_new = Ret tc
     \<and> (\<forall>h. get_tenant h tc = None \<longleftrightarrow> h \<notin> event_host ` set xs)
     \<and> (\<forall>h. case get_tenant h tc of None \<Rightarrow> True
          | Some m \<Rightarrow> tm_hostname m = h \<and> tm_requests_total m = of_nat (requests h (\<lambda>_. True) xs)
              \<and> tm_requests_success m = of_nat (requests h (\<lambda>r. r = RSuccess) xs)
              \<and> tm_requests_error m = of_nat (requests h (\<lambda>r. r = RError) xs)
              \<and> tm_requests_timeout m = of_nat (requests h (\<lambda>r. r = RTimeout) xs)
              \<and> tm_requests_total m = tm_requests_success m + tm_requests_error m + tm_requests_timeout m)
     \<and> gm_total_requests (tc_global tc) = of_nat (length (filter (\<lambda>e. is_request (event_host e) (\<lambda>_. True) e) xs))
     \<and> sn_total_requests (collector_snapshot tc) = gm_total_requests (tc_global tc)"
proof -
  obtain tc where tc: "run_all apply_tenant xs tenant_collector_new = Ret tc"
    and e: "\<forall>h. map_of (tc_tenants tc) h = (if filter (\<lambda>e. event_host e = h) xs = [] then None
           else Some (fold event_update (filter (\<lambda>e. event_host e = h) xs) (fresh_tenant h)))"
    and g: "gm_total_requests (tc_global tc) = of_nat (length (filter (\<lambda>e. is_request (event_host e) (\<lambda>_. True) e) xs))"
      "sum_list (map (\<lambda>t. tm_requests_total (snd t)) (tc_tenants tc)) = gm_total_requests (tc_global tc)"
    using tenant_run [of xs] by blast
  have "get_tenant h tc = None \<longleftrightarrow> h \<notin> event_host ` set xs" for h
    by (auto simp: get_tenant_def e filter_empty_conv)
  moreover have "case get_tenant h tc of None \<Rightarrow> True
      | Some m \<Rightarrow> tm_hostname m = h \<and> tm_requests_total m = of_nat (requests h (\<lambda>_. True) xs)
          \<and> tm_requests_success m = of_nat (requests h (\<lambda>r. r = RSuccess) xs)
          \<and> tm_requests_error m = of_nat (requests h (\<lambda>r. r = RError) xs)
          \<and> tm_requests_timeout m = of_nat (requests h (\<lambda>r. r = RTimeout) xs)
          \<and> tm_requests_total m = tm_requests_success m + tm_requests_error m + tm_requests_timeout m" for h
    using fold_event_counts [of "filter (\<lambda>e. event_host e = h) xs" h "fresh_tenant h"] tenant_metrics_new_ok [of h]
    by (auto simp: get_tenant_def e requests_own requests_results [of h xs])
  moreover have "sn_total_requests (collector_snapshot tc) = gm_total_requests (tc_global tc)"
    using g(2) by (simp add: collector_snapshot_def Let_def comp_def case_prod_beta tenant_snapshot_def histogram_get_def)
  ultimately show ?thesis using tc g(1) by blast
qed

text \<open>
  The units of the tenant metrics do not fit. If every request uses less than a second of CPU time and lasts at most
  a second, then the CPU seconds of every tenant stay zero, because each request is truncated to whole seconds on its
  own, and the latency percentile is reported as 1000 ms however fast the requests were, because durations in
  seconds are put into buckets of milliseconds.
\<close>

theorem tenant_units_lost:
  assumes "list_all quick xs" "run_all apply_tenant xs tenant_collector_new = Ret tc" "get_tenant h tc = Some m"
    "requests h (\<lambda>_. True) xs > 0" "length xs < 2 ^ 53"
  shows "tm_cpu_seconds_total m = 0 \<and> request_duration_p99 m = Fin 1 \<and> ts_latency_p99_ms (tenant_snapshot h m) = Fin 1000"
proof -
  let ?es = "filter (\<lambda>e. event_host e = h) xs"
  let ?ds = "concat (map tenant_duration ?es)" and ?n = "requests h (\<lambda>_. True) xs"
  have m: "m = fold event_update ?es (fresh_tenant h)"
    using tenant_run [of xs] assms(2,3) by (auto simp: get_tenant_def split: if_splits)
  have q: "list_all quick ?es" using assms(1) by (auto simp: list_all_iff)
  have cpu: "tm_cpu_seconds_total m = 0" using fold_event_cpu [OF q, of "fresh_tenant h"] m tenant_metrics_new_ok [of h] by simp
  have hist: "records REQUEST_DURATION_BUCKETS ?ds (tm_request_duration_seconds m)"
    using fold_event_counts [of ?es h "fresh_tenant h"] tenant_metrics_new_ok [of h] m
      records_fold [OF tenant_bounds_ok(1), of "[]" _ ?ds] by simp
  have n: "length ?ds = ?n" using durations_requests [of ?es h] requests_own [of h _ xs] by simp
  have nb: "?n < 2 ^ 53" using assms(5) unfolding requests_def by (meson le_less_trans length_filter_le)
  have cnt: "h_count (tm_request_duration_seconds m) = of_nat ?n" using hist n by (simp add: records_def)
  obtain c cs where cc: "h_bucket_counts (tm_request_duration_seconds m) = c # cs"
    using hist by (cases "h_bucket_counts (tm_request_duration_seconds m)") (auto simp: records_def REQUEST_DURATION_BUCKETS_def)
  have "sum_list (take (Suc 0) (h_bucket_counts (tm_request_duration_seconds m)))
      = of_nat (at_most (sort REQUEST_DURATION_BUCKETS ! 0) ?ds)"
    using hist unfolding records_def by (auto simp: REQUEST_DURATION_BUCKETS_def)
  then have c: "c = of_nat ?n"
    unfolding duration_bounds_ok(2) using cc quick_durations [OF q] n by (simp add: REQUEST_DURATION_BUCKETS_def)
  have un: "unat (of_nat ?n :: u64) = ?n" using nb by (intro usize_of_nat) simp
  then have "f_to_u64 (f_mul (f_of_nat ?n) (round_f64 (99 / 100))) \<le> of_nat ?n"
    using p99_target_le [OF nb] by (simp add: word_le_nat_alt)
  then have p: "request_duration_p99 m = Fin 1"
    using un assms(4) by (simp add: request_duration_p99_def histogram_get_def cnt cc c REQUEST_DURATION_BUCKETS_def flip: unat_eq_0)
  have "round_f64 1000 = Fin 1000" using f_of_nat_exact [of 1000] by (simp add: f_of_nat_def)
  then show ?thesis using cpu p by (simp add: tenant_snapshot_def histogram_get_def f_mul_def)
qed

theorem tenant_units_lost_witness:
  "\<exists>tc m. run_all apply_tenant [TRequest ''a'' RSuccess 900000 0 3] tenant_collector_new = Ret tc
     \<and> get_tenant ''a'' tc = Some m \<and> tm_cpu_seconds_total m = 0 \<and> ts_latency_p99_ms (tenant_snapshot ''a'' m) = Fin 1000"
proof -
  let ?xs = "[TRequest ''a'' RSuccess 900000 0 3]"
  obtain tc m where t: "run_all apply_tenant ?xs tenant_collector_new = Ret tc" "get_tenant ''a'' tc = Some m"
    using tenant_run [of ?xs] by (auto simp: get_tenant_def)
  have q: "list_all quick ?xs" "requests ''a'' (\<lambda>_. True) ?xs > 0" "length ?xs < 2 ^ 53" by (simp_all add: requests_def)
  from tenant_units_lost [OF q(1) t q(2,3)] t show ?thesis by blast
qed

end
