(* ===== verification/Runtime_Stream.thy ===== *)
theory Runtime_Stream
  imports Nano_Prelude "HOL-Library.Multiset" "HOL-Library.Sublist"
begin

text \<open>
  The Rust side of streams (\<^verbatim>\<open>src/src/runtime/stream.rs\<close>): the table of stream resources and \<open>WritableStream\<close>, whose writers
  pass commands through a bounded channel to a task that owns a sink. The sink is any implementation of the trait,
  a record of operations over its own state. Writers and the task run concurrently: the step relation interleaves
  their accesses to the lock, the flags and the channel.
\<close>

section \<open>Definitions\<close>

subsection \<open>The table of resources\<close>

record stream_resource =
  sr_rid :: u32
  sr_closed :: bool

record stream_resource_table =
  st_resources :: "u32 \<rightharpoonup> stream_resource"
  st_next_rid :: u32

definition resource_table_new :: stream_resource_table where
  "resource_table_new = \<lparr>st_resources = Map.empty, st_next_rid = 1\<rparr>"

definition resource_add :: "stream_resource_table \<Rightarrow> u32 \<times> stream_resource_table" where
  "resource_add t =
     (let rid = st_next_rid t
      in (rid, t\<lparr>st_next_rid := rid + 1, st_resources := (st_resources t)(rid \<mapsto> \<lparr>sr_rid = rid, sr_closed = False\<rparr>)\<rparr>))"

definition resource_close :: "u32 \<Rightarrow> stream_resource_table \<Rightarrow> bool \<times> stream_resource_table" where
  "resource_close rid t = (case st_resources t rid of
       Some r \<Rightarrow> (True, t\<lparr>st_resources := (st_resources t)(rid \<mapsto> r\<lparr>sr_closed := True\<rparr>)\<rparr>)
     | None \<Rightarrow> (False, t))"

definition resource_has :: "u32 \<Rightarrow> stream_resource_table \<Rightarrow> bool" where
  "resource_has rid t = (st_resources t rid \<noteq> None)"

subsection \<open>Streams\<close>

record 's underlying_sink =
  sk_start :: "'s \<Rightarrow> (string + unit) \<times> 's"
  sk_write :: "bytes \<Rightarrow> 's \<Rightarrow> (string + unit) \<times> 's"
  sk_close :: "'s \<Rightarrow> (string + unit) \<times> 's"
  sk_abort :: "string option \<Rightarrow> 's \<Rightarrow> (string + unit) \<times> 's"

datatype stream_command = SWrite bytes | SClose | SAbort "string option"

datatype write_error = WriteClosed | WriteAborted "string option" | WriteInternal string

text \<open>The task starts the sink, waits for a command, is busy with one, or has ended; then its receiver is gone.\<close>

datatype task_phase = Starting | Idle | Busy stream_command | Finished

record 's writable_stream =
  ws_sender :: bool
  ws_locked :: bool
  ws_high_water_mark :: usize
  ws_closed :: bool
  ws_aborted :: bool
  ws_abort_reason :: "string option"
  ws_queue :: "stream_command list"
  ws_task :: task_phase
  ws_sink :: 's

text \<open>A channel needs a capacity between one and the largest number of permits.\<close>

definition writable_stream_new :: "'s \<Rightarrow> usize option \<Rightarrow> 's writable_stream outcome" where
  "writable_stream_new sink high_water_mark =
     (let hwm = (case high_water_mark of Some n \<Rightarrow> n | None \<Rightarrow> 4)
      in if hwm = 0 \<or> hwm > - 1 div 8 then Panic
         else Ret \<lparr>ws_sender = True, ws_locked = False, ws_high_water_mark = hwm, ws_closed = False, ws_aborted = False,
           ws_abort_reason = None, ws_queue = [], ws_task = Starting, ws_sink = sink\<rparr>)"

definition receiver_alive :: "'s writable_stream \<Rightarrow> bool" where
  "receiver_alive s = (ws_task s \<noteq> Finished)"

definition finish_task :: "'s writable_stream \<Rightarrow> 's writable_stream" where
  "finish_task s = s\<lparr>ws_task := Finished, ws_queue := []\<rparr>"

definition task_step :: "'s underlying_sink \<Rightarrow> 's writable_stream \<Rightarrow> 's writable_stream" where
  "task_step k s = (case ws_task s of
       Starting \<Rightarrow> (case sk_start k (ws_sink s) of
           (Inl e, x) \<Rightarrow> finish_task (s\<lparr>ws_sink := x\<rparr>)
         | (Inr _, x) \<Rightarrow> s\<lparr>ws_sink := x, ws_task := Idle\<rparr>)
     | Idle \<Rightarrow> (case ws_queue s of
           c # cs \<Rightarrow> s\<lparr>ws_queue := cs, ws_task := Busy c\<rparr>
         | [] \<Rightarrow> if ws_sender s then s else finish_task s)
     | Busy (SWrite chunk) \<Rightarrow> (case sk_write k chunk (ws_sink s) of
           (Inl e, x) \<Rightarrow> finish_task (s\<lparr>ws_sink := x\<rparr>)
         | (Inr _, x) \<Rightarrow> s\<lparr>ws_sink := x, ws_task := Idle\<rparr>)
     | Busy SClose \<Rightarrow> finish_task (s\<lparr>ws_sink := snd (sk_close k (ws_sink s))\<rparr>)
     | Busy (SAbort reason) \<Rightarrow> finish_task (s\<lparr>ws_sink := snd (sk_abort k reason (ws_sink s))\<rparr>)
     | Finished \<Rightarrow> s)"

text \<open>The sink of \<^verbatim>\<open>in_memory_buffer\<close>, with the trait's default for what it does not define.\<close>

definition buffer_sink :: "bytes underlying_sink" where
  "buffer_sink = \<lparr>sk_start = (\<lambda>b. (Inr (), b)), sk_write = (\<lambda>chunk b. (Inr (), b @ chunk)),
     sk_close = (\<lambda>b. (Inr (), b)), sk_abort = (\<lambda>r b. (Inr (), b))\<rparr>"

definition in_memory_buffer :: "bytes writable_stream outcome" where
  "in_memory_buffer = writable_stream_new [] (Some 4)"

definition mark_closed :: "'s writable_stream \<Rightarrow> 's writable_stream" where
  "mark_closed s = s\<lparr>ws_closed := True, ws_locked := False\<rparr>"

definition mark_aborted :: "string option \<Rightarrow> 's writable_stream \<Rightarrow> 's writable_stream" where
  "mark_aborted r s = s\<lparr>ws_aborted := True, ws_abort_reason := r, ws_locked := False\<rparr>"

definition release_lock :: "'s writable_stream \<Rightarrow> 's writable_stream" where
  "release_lock s = s\<lparr>ws_locked := False\<rparr>"

definition get_writer :: "'s writable_stream \<Rightarrow> bool \<times> 's writable_stream" where
  "get_writer s =
     (if ws_locked s then (False, s)
      else let s1 = s\<lparr>ws_locked := True\<rparr>
           in if ws_closed s1 \<or> ws_aborted s1 then (False, s1\<lparr>ws_locked := False\<rparr>) else (True, s1))"

subsection \<open>Writers\<close>

text \<open>Sending waits (\<open>None\<close>) while the channel is full and fails when the receiver is gone; the second form never waits.\<close>

definition push_command :: "stream_command \<Rightarrow> 's writable_stream \<Rightarrow> 's writable_stream" where
  "push_command c s = s\<lparr>ws_queue := ws_queue s @ [c]\<rparr>"

definition has_room :: "'s writable_stream \<Rightarrow> bool" where
  "has_room s = (length (ws_queue s) < unat (ws_high_water_mark s))"

definition send_command :: "stream_command \<Rightarrow> 's writable_stream \<Rightarrow> ((write_error + unit) \<times> 's writable_stream) option" where
  "send_command c s =
     (if \<not> receiver_alive s then Some (Inl WriteClosed, s)
      else if has_room s then Some (Inr (), push_command c s) else None)"

definition try_send_command :: "stream_command \<Rightarrow> 's writable_stream \<Rightarrow> bool \<times> 's writable_stream" where
  "try_send_command c s = (if receiver_alive s \<and> has_room s then (True, push_command c s) else (False, s))"

definition DROPPED :: stream_command where
  "DROPPED = SAbort (Some ''Writer dropped without close'')"

text \<open>The operations of a writer. Its flag \<open>closed\<close> is false in a writer that can be used, since closing and aborting consume it.\<close>

definition writer_write :: "bool \<Rightarrow> bytes \<Rightarrow> 's writable_stream \<Rightarrow> ((write_error + unit) \<times> 's writable_stream) option" where
  "writer_write closed chunk s = (if closed then Some (Inl WriteClosed, s) else send_command (SWrite chunk) s)"

definition writer_drop :: "bool \<Rightarrow> 's writable_stream \<Rightarrow> 's writable_stream" where
  "writer_drop closed s = release_lock (if closed then s else snd (try_send_command DROPPED s))"

definition writer_close :: "bool \<Rightarrow> 's writable_stream \<Rightarrow> ((write_error + unit) \<times> 's writable_stream) option" where
  "writer_close closed s =
     (if closed then Some (Inl WriteClosed, writer_drop closed s)
      else case send_command SClose s of
          None \<Rightarrow> None
        | Some (Inl e, s1) \<Rightarrow> Some (Inl WriteClosed, writer_drop False s1)
        | Some (Inr _, s1) \<Rightarrow> Some (Inr (), writer_drop True (mark_closed s1)))"

definition writer_abort :: "bool \<Rightarrow> string option \<Rightarrow> 's writable_stream \<Rightarrow> ((write_error + unit) \<times> 's writable_stream) option" where
  "writer_abort closed r s =
     (if closed then Some (Inl WriteClosed, writer_drop closed s)
      else case send_command (SAbort r) s of
          None \<Rightarrow> None
        | Some (Inl e, s1) \<Rightarrow> Some (Inl WriteClosed, writer_drop False s1)
        | Some (Inr _, s1) \<Rightarrow> Some (Inr (), writer_drop True (mark_aborted r s1)))"

definition desired_size :: "bool \<Rightarrow> 's writable_stream \<Rightarrow> usize" where
  "desired_size closed s =
     (if closed then 0
      else if ws_sender s then (if ws_high_water_mark s = 0 then 0 else ws_high_water_mark s - 1) else 0)"

definition writer_ready :: "bool \<Rightarrow> write_error + unit" where
  "writer_ready closed = (if closed then Inl WriteClosed else Inr ())"

subsection \<open>Interleaving\<close>

text \<open>
  Where a writer stands: it has taken the lock and not yet read the flags; it can be used; its last command was accepted;
  the aborted flag is stored and the reason not yet; the flags are stored and the lock not yet given back; only the
  release in \<^verbatim>\<open>drop\<close> is left.
\<close>

datatype writer_phase = Acquired | Live | Sent stream_command | AbortStored "string option" | Marked | Dropping

text \<open>The stream, its writers, and the history: the commands accepted by the channel and those given to the sink.\<close>

record 's stream_sys =
  sy_stream :: "'s writable_stream"
  sy_writers :: "writer_phase multiset"
  sy_accepted :: "stream_command list"
  sy_handled :: "stream_command list"

definition stream_sys_new :: "'s writable_stream \<Rightarrow> 's stream_sys" where
  "stream_sys_new s = \<lparr>sy_stream = s, sy_writers = {#}, sy_accepted = [], sy_handled = []\<rparr>"

definition busy_with :: "'s writable_stream \<Rightarrow> stream_command list" where
  "busy_with s = (case ws_task s of Busy c \<Rightarrow> [c] | _ \<Rightarrow> [])"

definition moves :: "writer_phase \<Rightarrow> writer_phase multiset \<Rightarrow> 's writable_stream \<Rightarrow> stream_command list \<Rightarrow> 's stream_sys \<Rightarrow> 's stream_sys" where
  "moves p qs s cs y = y\<lparr>sy_stream := s, sy_writers := sy_writers y - {#p#} + qs, sy_accepted := sy_accepted y @ cs\<rparr>"

inductive stream_step :: "'s underlying_sink \<Rightarrow> 's stream_sys \<Rightarrow> 's stream_sys \<Rightarrow> bool" for k where
  task: "y' = y\<lparr>sy_stream := task_step k (sy_stream y), sy_handled := sy_handled y @ busy_with (sy_stream y)\<rparr> \<Longrightarrow> stream_step k y y'"
| acquire: "ws_sender (sy_stream y) \<Longrightarrow> \<not> ws_locked (sy_stream y)
    \<Longrightarrow> y' = y\<lparr>sy_stream := (sy_stream y)\<lparr>ws_locked := True\<rparr>, sy_writers := sy_writers y + {#Acquired#}\<rparr> \<Longrightarrow> stream_step k y y'"
| check_open: "Acquired \<in># sy_writers y \<Longrightarrow> \<not> ws_closed (sy_stream y) \<Longrightarrow> \<not> ws_aborted (sy_stream y)
    \<Longrightarrow> stream_step k y (moves Acquired {#Live#} (sy_stream y) [] y)"
| check_shut: "Acquired \<in># sy_writers y \<Longrightarrow> ws_closed (sy_stream y) \<or> ws_aborted (sy_stream y)
    \<Longrightarrow> stream_step k y (moves Acquired {#} (release_lock (sy_stream y)) [] y)"
| write_chunk: "Live \<in># sy_writers y \<Longrightarrow> send_command (SWrite chunk) (sy_stream y) = Some (Inr (), s)
    \<Longrightarrow> stream_step k y (moves Live {#Live#} s [SWrite chunk] y)"
| finish: "Live \<in># sy_writers y \<Longrightarrow> c = SClose \<or> c = SAbort r \<Longrightarrow> send_command c (sy_stream y) = Some (Inr (), s)
    \<Longrightarrow> stream_step k y (moves Live {#Sent c#} s [c] y)"
| drop_sent: "Live \<in># sy_writers y \<Longrightarrow> try_send_command DROPPED (sy_stream y) = (True, s)
    \<Longrightarrow> stream_step k y (moves Live {#Dropping#} s [DROPPED] y)"
| drop_lost: "Live \<in># sy_writers y \<Longrightarrow> try_send_command DROPPED (sy_stream y) = (False, s)
    \<Longrightarrow> stream_step k y (moves Live {#Dropping#} s [] y)"
| store_closed: "Sent SClose \<in># sy_writers y
    \<Longrightarrow> stream_step k y (moves (Sent SClose) {#Marked#} ((sy_stream y)\<lparr>ws_closed := True\<rparr>) [] y)"
| store_aborted: "Sent (SAbort r) \<in># sy_writers y
    \<Longrightarrow> stream_step k y (moves (Sent (SAbort r)) {#AbortStored r#} ((sy_stream y)\<lparr>ws_aborted := True\<rparr>) [] y)"
| store_reason: "AbortStored r \<in># sy_writers y
    \<Longrightarrow> stream_step k y (moves (AbortStored r) {#Marked#} ((sy_stream y)\<lparr>ws_abort_reason := r\<rparr>) [] y)"
| unlock: "Marked \<in># sy_writers y \<Longrightarrow> stream_step k y (moves Marked {#Dropping#} (release_lock (sy_stream y)) [] y)"
| dropped: "Dropping \<in># sy_writers y \<Longrightarrow> stream_step k y (moves Dropping {#} (release_lock (sy_stream y)) [] y)"
| drop_stream: "sy_writers y = {#} \<Longrightarrow> stream_step k y (y\<lparr>sy_stream := (sy_stream y)\<lparr>ws_sender := False\<rparr>\<rparr>)"

definition stream_reachable :: "'s underlying_sink \<Rightarrow> 's writable_stream \<Rightarrow> 's stream_sys \<Rightarrow> bool" where
  "stream_reachable k s y = (stream_step k)\<^sup>*\<^sup>* (stream_sys_new s) y"

text \<open>The task alone, for a number of steps.\<close>

definition run_task :: "'s underlying_sink \<Rightarrow> nat \<Rightarrow> 's writable_stream \<Rightarrow> 's writable_stream" where
  "run_task k n s = (task_step k ^^ n) s"

subsection \<open>Specification vocabulary\<close>

definition on_the_way_out :: "writer_phase \<Rightarrow> bool" where
  "on_the_way_out p = (p = Acquired \<or> p = Marked \<or> p = Dropping \<or> (\<exists>r. p = AbortStored r))"

definition one_writer :: "'s stream_sys \<Rightarrow> bool" where
  "one_writer y =
     (if ws_closed (sy_stream y) \<or> ws_aborted (sy_stream y) then \<forall>p \<in># sy_writers y. on_the_way_out p
      else (\<exists>p. sy_writers y = {#p#} \<and> (p = Acquired \<or> p = Live \<or> p = Dropping \<or> p = Sent SClose \<or> (\<exists>r. p = Sent (SAbort r))) \<and> ws_locked (sy_stream y))
        \<or> sy_writers y = {#} \<and> \<not> ws_locked (sy_stream y))"

text \<open>What a sink has become after it was started and given some commands.\<close>

primrec sink_given :: "'s underlying_sink \<Rightarrow> stream_command \<Rightarrow> 's \<Rightarrow> 's" where
  "sink_given k (SWrite chunk) x = snd (sk_write k chunk x)"
| "sink_given k SClose x = snd (sk_close k x)"
| "sink_given k (SAbort r) x = snd (sk_abort k r x)"

definition sink_after :: "'s underlying_sink \<Rightarrow> 's \<Rightarrow> stream_command list \<Rightarrow> 's" where
  "sink_after k x cs = fold (sink_given k) cs (snd (sk_start k x))"

definition in_order :: "'s underlying_sink \<Rightarrow> usize \<Rightarrow> 's \<Rightarrow> 's stream_sys \<Rightarrow> bool" where
  "in_order k hwm x y = (let s = sy_stream y in
     ws_high_water_mark s = hwm \<and> length (ws_queue s) \<le> unat hwm
     \<and> (if ws_task s = Finished then prefix (sy_handled y) (sy_accepted y) else sy_accepted y = sy_handled y @ busy_with s @ ws_queue s)
     \<and> (ws_task s \<noteq> Finished \<longrightarrow> (\<exists>cs. sy_handled y = map SWrite cs))
     \<and> (if ws_task s = Starting then sy_handled y = [] \<and> ws_sink s = x else ws_sink s = sink_after k x (sy_handled y)))"

definition example_stream :: "bytes writable_stream" where
  "example_stream = (case in_memory_buffer of Ret s \<Rightarrow> s)"

definition written :: "bytes stream_sys" where
  "written = \<lparr>sy_stream = push_command (SWrite [7]) (snd (get_writer example_stream)), sy_writers = {#Live#}, sy_accepted = [SWrite [7]], sy_handled = []\<rparr>"

definition closed_stream :: "bytes stream_sys" where
  "closed_stream = written\<lparr>sy_stream := (case writer_close False (sy_stream written) of Some (_, s) \<Rightarrow> s), sy_writers := {#}, sy_accepted := [SWrite [7], SClose]\<rparr>"

section \<open>Lemmas\<close>

inductive_cases stream_stepE: "stream_step k y y'"

lemmas stream_defs = moves_def release_lock_def push_command_def finish_task_def receiver_alive_def

lemma send_command_ok:
  "send_command c s = Some (Inr (), s') \<longleftrightarrow> receiver_alive s \<and> has_room s \<and> s' = push_command c s"
  by (auto simp: send_command_def)

lemma try_send_ok: "try_send_command c s = (True, s') \<longleftrightarrow> receiver_alive s \<and> has_room s \<and> s' = push_command c s"
  by (auto simp: try_send_command_def)

lemma try_send_lost: "try_send_command c s = (False, s') \<longleftrightarrow> \<not> (receiver_alive s \<and> has_room s) \<and> s' = s"
  by (auto simp: try_send_command_def)

lemma task_step_keeps:
  "ws_closed (task_step k s) = ws_closed s" "ws_aborted (task_step k s) = ws_aborted s" "ws_locked (task_step k s) = ws_locked s"
  "ws_high_water_mark (task_step k s) = ws_high_water_mark s" "ws_sender (task_step k s) = ws_sender s"
  "ws_abort_reason (task_step k s) = ws_abort_reason s"
  by (auto simp: task_step_def finish_task_def split: task_phase.split stream_command.split list.split prod.split sum.split)

text \<open>
  While neither flag is stored, at most one writer exists, and it holds the lock. Afterwards there are only writers that
  have yet to see a flag and those that are on their way out.
\<close>

lemma one_writer_step: "stream_step k y y' \<Longrightarrow> one_writer y \<Longrightarrow> one_writer y'"
  by (induction rule: stream_step.induct)
    (auto simp: one_writer_def on_the_way_out_def stream_defs task_step_keeps send_command_ok try_send_ok try_send_lost
      dest: in_diffD split: if_splits)

text \<open>The operations of a single thread are sequences of these steps.\<close>

lemma get_writer_steps:
  assumes "get_writer (sy_stream y) = (True, s)" "ws_sender (sy_stream y)"
  shows "(stream_step k)\<^sup>*\<^sup>* y (y\<lparr>sy_stream := s, sy_writers := sy_writers y + {#Live#}\<rparr>)"
proof -
  let ?a = "y\<lparr>sy_stream := (sy_stream y)\<lparr>ws_locked := True\<rparr>, sy_writers := sy_writers y + {#Acquired#}\<rparr>"
  have g: "\<not> ws_locked (sy_stream y)" "\<not> ws_closed (sy_stream y)" "\<not> ws_aborted (sy_stream y)" "s = (sy_stream y)\<lparr>ws_locked := True\<rparr>"
    using assms(1) by (auto simp: get_writer_def Let_def split: if_splits)
  have "stream_step k y ?a" by (rule acquire [OF assms(2) g(1) refl])
  moreover have "stream_step k ?a (moves Acquired {#Live#} (sy_stream ?a) [] ?a)" by (rule check_open) (simp_all add: g)
  ultimately show ?thesis by (simp add: moves_def g(4))
qed

lemma writer_close_steps:
  assumes "writer_close False (sy_stream y) = Some (Inr (), s)" "Live \<in># sy_writers y"
  shows "(stream_step k)\<^sup>*\<^sup>* y (y\<lparr>sy_stream := s, sy_writers := sy_writers y - {#Live#}, sy_accepted := sy_accepted y @ [SClose]\<rparr>)"
proof -
  have c: "send_command SClose (sy_stream y) = Some (Inr (), push_command SClose (sy_stream y))"
    "s = release_lock (mark_closed (push_command SClose (sy_stream y)))"
    using assms(1) by (auto simp: writer_close_def writer_drop_def send_command_def split: if_splits)
  define a where "a = moves Live {#Sent SClose#} (push_command SClose (sy_stream y)) [SClose] y"
  define b where "b = moves (Sent SClose) {#Marked#} ((sy_stream a)\<lparr>ws_closed := True\<rparr>) [] a"
  define d where "d = moves Marked {#Dropping#} (release_lock (sy_stream b)) [] b"
  have "stream_step k y a" unfolding a_def by (rule finish [OF assms(2) _ c(1)]) simp
  moreover have "stream_step k a b" unfolding b_def by (rule store_closed) (simp add: a_def moves_def)
  moreover have "stream_step k b d" unfolding d_def by (rule unlock) (simp add: b_def moves_def)
  moreover have "stream_step k d (moves Dropping {#} (release_lock (sy_stream d)) [] d)" by (rule dropped) (simp add: d_def moves_def)
  ultimately have "(stream_step k)\<^sup>*\<^sup>* y (moves Dropping {#} (release_lock (sy_stream d)) [] d)"
    by (meson converse_rtranclp_into_rtranclp rtranclp.rtrancl_refl)
  moreover have "moves Dropping {#} (release_lock (sy_stream d)) [] d
      = y\<lparr>sy_stream := s, sy_writers := sy_writers y - {#Live#}, sy_accepted := sy_accepted y @ [SClose]\<rparr>"
    by (simp add: a_def b_def d_def c(2) stream_defs mark_closed_def)
  ultimately show ?thesis by simp
qed

lemma writer_drop_steps:
  assumes "Live \<in># sy_writers y"
  shows "\<exists>cs. (stream_step k)\<^sup>*\<^sup>* y (y\<lparr>sy_stream := writer_drop False (sy_stream y), sy_writers := sy_writers y - {#Live#}, sy_accepted := sy_accepted y @ cs\<rparr>)"
proof -
  obtain b s where t: "try_send_command DROPPED (sy_stream y) = (b, s)" by force
  define a where "a = moves Live {#Dropping#} s (if b then [DROPPED] else []) y"
  have "stream_step k y a"
    using drop_sent [OF assms, of s k] drop_lost [OF assms, of s k] t by (cases b) (simp_all add: a_def)
  moreover have "stream_step k a (moves Dropping {#} (release_lock (sy_stream a)) [] a)" by (rule dropped) (simp add: a_def moves_def)
  ultimately have "(stream_step k)\<^sup>*\<^sup>* y (moves Dropping {#} (release_lock (sy_stream a)) [] a)" by (meson r_into_rtranclp rtranclp.rtrancl_into_rtrancl)
  then show ?thesis using t by (auto simp: a_def moves_def writer_drop_def intro!: exI [of _ "if b then [DROPPED] else []"])
qed

subsection \<open>Delivery\<close>

lemma in_order_task:
  assumes "in_order k hwm x y"
  shows "in_order k hwm x (y\<lparr>sy_stream := task_step k (sy_stream y), sy_handled := sy_handled y @ busy_with (sy_stream y)\<rparr>)"
proof (cases "ws_task (sy_stream y)")
  case (Busy c)
  have "\<exists>cs'. map SWrite cs @ [SWrite b] = map SWrite cs'" for cs b by (rule exI [of _ "cs @ [b]"]) simp
  then show ?thesis using assms Busy
    by (cases c) (auto simp: in_order_def Let_def task_step_def busy_with_def finish_task_def sink_after_def prefix_def split: prod.split sum.split)
qed (use assms in \<open>auto simp: in_order_def Let_def task_step_def busy_with_def finish_task_def sink_after_def prefix_def
    split: prod.split sum.split list.split\<close>)

lemma in_order_push:
  assumes "in_order k hwm x y" "receiver_alive (sy_stream y)" "has_room (sy_stream y)"
  shows "in_order k hwm x (moves p q (push_command c (sy_stream y)) [c] y)"
  using assms by (auto simp: in_order_def Let_def moves_def push_command_def receiver_alive_def has_room_def busy_with_def split: task_phase.split)

lemma in_order_same:
  assumes "in_order k hwm x y" "ws_high_water_mark s = ws_high_water_mark (sy_stream y)" "ws_queue s = ws_queue (sy_stream y)"
    "ws_task s = ws_task (sy_stream y)" "ws_sink s = ws_sink (sy_stream y)"
  shows "in_order k hwm x (moves p q s [] y)" "in_order k hwm x (y\<lparr>sy_stream := s, sy_writers := w\<rparr>)"
    "in_order k hwm x (y\<lparr>sy_stream := s\<rparr>)"
  using assms by (auto simp: in_order_def Let_def moves_def busy_with_def)

lemma in_order_step: "stream_step k y y' \<Longrightarrow> in_order k hwm x y \<Longrightarrow> in_order k hwm x y'"
proof (induction rule: stream_step.induct)
  case (task y' y) then show ?case by (simp add: in_order_task)
next
  case (acquire y y') then show ?case by (auto intro!: in_order_same(2))
next
  case (drop_stream y)
  then show ?case by (auto intro!: in_order_same(3))
qed (auto simp: send_command_ok try_send_ok try_send_lost release_lock_def intro!: in_order_push in_order_same(1))

lemma stream_reachable_inv:
  assumes "writable_stream_new x hwm = Ret s" "stream_reachable k s y"
  shows "one_writer y \<and> in_order k (case hwm of Some n \<Rightarrow> n | None \<Rightarrow> 4) x y"
  using assms(2) unfolding stream_reachable_def
proof (induction rule: rtranclp_induct)
  case base
  show ?case using assms(1)
    by (auto simp: writable_stream_new_def one_writer_def in_order_def stream_sys_new_def busy_with_def Let_def split: if_splits)
qed (blast intro: one_writer_step in_order_step)

lemma run_task_finished: "ws_task s = Finished \<Longrightarrow> run_task k n s = s"
  by (induction n) (simp_all add: run_task_def task_step_def)

lemma run_task_add: "run_task k (m + n) s = run_task k n (run_task k m s)"
  by (simp add: run_task_def funpow_add add.commute [of m n])

lemma run_task_split: "m \<le> n \<Longrightarrow> run_task k n s = run_task k (n - m) (run_task k m s)"
  by (metis le_add_diff_inverse run_task_add)

lemma run_buffer:
  assumes "ws_task s = Idle" "ws_queue s = map SWrite cs @ [SClose]" "n \<ge> 2 * length (ws_queue s)"
  shows "ws_task (run_task buffer_sink n s) = Finished \<and> ws_sink (run_task buffer_sink n s) = ws_sink s @ concat cs"
  using assms
proof (induction cs arbitrary: s n)
  case Nil
  have "run_task buffer_sink 2 s = finish_task s"
    using Nil.prems by (simp add: run_task_def numeral_2_eq_2 task_step_def buffer_sink_def finish_task_def)
  moreover have "run_task buffer_sink n s = run_task buffer_sink (n - 2) (run_task buffer_sink 2 s)"
    using Nil.prems(2,3) by (intro run_task_split) simp
  ultimately show ?case by (simp add: run_task_finished finish_task_def)
next
  case (Cons c cs)
  let ?s = "s\<lparr>ws_queue := map SWrite cs @ [SClose], ws_sink := ws_sink s @ c\<rparr>"
  have "run_task buffer_sink 2 s = ?s"
    using Cons.prems(1,2) by (simp add: run_task_def numeral_2_eq_2 task_step_def buffer_sink_def)
  moreover have "run_task buffer_sink n s = run_task buffer_sink (n - 2) (run_task buffer_sink 2 s)"
    using Cons.prems(2,3) by (intro run_task_split) simp
  moreover have "ws_task (run_task buffer_sink (n - 2) ?s) = Finished \<and> ws_sink (run_task buffer_sink (n - 2) ?s) = ws_sink ?s @ concat cs"
    by (rule Cons.IH) (use Cons.prems in auto)
  ultimately show ?case by simp
qed

lemma writes_then_close:
  "map SWrite as @ q = map SWrite cs @ [SClose] \<Longrightarrow> \<exists>ds. cs = as @ ds \<and> q = map SWrite ds @ [SClose]"
proof (induction as arbitrary: cs)
  case (Cons a as) then show ?case by (cases cs) auto
qed simp

lemma resource_add_run:
  assumes "n < 2 ^ 32"
  shows "let t = ((\<lambda>t. snd (resource_add t)) ^^ n) resource_table_new
    in unat (st_next_rid t) = (Suc n) mod 2 ^ 32 \<and> dom (st_resources t) = of_nat ` {1..n} \<and> (Suc n < 2 ^ 32 \<longrightarrow> \<not> resource_has (st_next_rid t) t)"
  using assms
proof (induction n)
  case 0 then show ?case by (simp add: resource_table_new_def resource_has_def)
next
  case (Suc n)
  let ?t = "((\<lambda>t. snd (resource_add t)) ^^ n) resource_table_new"
  have i: "unat (st_next_rid ?t) = Suc n" "dom (st_resources ?t) = of_nat ` {1..n}" using Suc by (simp_all add: Let_def)
  then have w: "st_next_rid ?t = of_nat (Suc n)" by (metis of_nat_unat ucast_id)
  have u: "unat (st_next_rid ?t + 1) = Suc (Suc n) mod 2 ^ 32" using i(1) by (simp add: unat_word_ariths)
  have d: "dom (st_resources (snd (resource_add ?t))) = of_nat ` {1..Suc n}"
    using i(2) w by (simp add: resource_add_def Let_def atLeastAtMostSuc_conv)
  have "st_next_rid ?t + 1 \<notin> of_nat ` {1..Suc n}" if "Suc (Suc n) < 2 ^ 32"
  proof
    assume "st_next_rid ?t + 1 \<in> of_nat ` {1..Suc n}"
    then obtain j where j: "st_next_rid ?t + 1 = of_nat j" "1 \<le> j" "j \<le> Suc n" by auto
    then have "unat (st_next_rid ?t + 1) = j" using that by (simp add: unat_of_nat)
    then show False using u j(3) that by simp
  qed
  moreover have "st_next_rid (snd (resource_add ?t)) = st_next_rid ?t + 1" by (simp add: resource_add_def Let_def)
  ultimately show ?case using u d unfolding Let_def funpow.simps comp_apply by (auto simp: resource_has_def simp flip: domIff)
qed

section \<open>Properties\<close>

text \<open>
  C36. In every reachable state of a stream, whatever the sink and however writers and the task interleave: the channel never holds
  more than the high-water mark, the sink was given a prefix of the accepted commands in their order, and as long as the task
  runs every accepted command was given to it, is being given to it, or waits in the channel.
\<close>

theorem stream_delivers_in_order:
  assumes "writable_stream_new x hwm = Ret s" "stream_reachable k s y" "n = (case hwm of Some n \<Rightarrow> n | None \<Rightarrow> 4)"
  shows "length (ws_queue (sy_stream y)) \<le> unat n
    \<and> prefix (sy_handled y) (sy_accepted y)
    \<and> (receiver_alive (sy_stream y) \<longrightarrow> sy_accepted y = sy_handled y @ busy_with (sy_stream y) @ ws_queue (sy_stream y))
    \<and> (ws_task (sy_stream y) \<noteq> Starting \<longrightarrow> ws_sink (sy_stream y) = sink_after k x (sy_handled y))"
  using stream_reachable_inv [OF assms(1,2)] assms(3) by (auto simp: in_order_def Let_def receiver_alive_def split: if_splits)

lemma example_stream_new: "writable_stream_new [] (Some 4) = Ret example_stream"
  by (simp add: example_stream_def in_memory_buffer_def writable_stream_new_def Let_def)

lemma example_fields:
  "\<not> ws_locked example_stream" "\<not> ws_closed example_stream" "\<not> ws_aborted example_stream" "ws_sender example_stream"
  "ws_queue example_stream = []" "ws_task example_stream = Starting" "ws_sink example_stream = []" "ws_high_water_mark example_stream = 4"
  by (simp_all add: example_stream_def in_memory_buffer_def writable_stream_new_def Let_def)

lemma written_reachable: "stream_reachable buffer_sink example_stream written"
proof -
  let ?y = "stream_sys_new example_stream"
  let ?z = "?y\<lparr>sy_stream := snd (get_writer example_stream), sy_writers := sy_writers ?y + {#Live#}\<rparr>"
  have g: "get_writer example_stream = (True, example_stream\<lparr>ws_locked := True\<rparr>)" by (simp add: get_writer_def Let_def example_fields)
  then have "(stream_step buffer_sink)\<^sup>*\<^sup>* ?y ?z" using get_writer_steps [of ?y "snd (get_writer example_stream)"] by (simp add: stream_sys_new_def example_fields)
  moreover have "stream_step buffer_sink ?z (moves Live {#Live#} (push_command (SWrite [7]) (sy_stream ?z)) [SWrite [7]] ?z)"
    by (rule write_chunk) (simp_all add: send_command_ok receiver_alive_def has_room_def g example_fields)
  moreover have "moves Live {#Live#} (push_command (SWrite [7]) (sy_stream ?z)) [SWrite [7]] ?z = written"
    by (simp add: written_def moves_def stream_sys_new_def)
  ultimately show ?thesis unfolding stream_reachable_def by (metis rtranclp.rtrancl_into_rtrancl)
qed

theorem stream_delivers_in_order_witness:
  "stream_reachable buffer_sink example_stream written \<and> sy_accepted written = sy_handled written @ [SWrite [7]]
   \<and> prefix (sy_handled written) (sy_accepted written)"
  using stream_delivers_in_order [OF example_stream_new written_reachable refl] written_reachable by (simp add: written_def)

text \<open>
  C37. A stream never has two usable writers, and none once it is closed or aborted, in any interleaving: the lock excludes them,
  although it is released twice at the end of a writer and the flags are only read after it was taken.
\<close>

theorem stream_single_writer:
  assumes "writable_stream_new x hwm = Ret s" "stream_reachable k s y"
  shows "count (sy_writers y) Live \<le> 1 \<and> (ws_closed (sy_stream y) \<or> ws_aborted (sy_stream y) \<longrightarrow> Live \<notin># sy_writers y)"
  using stream_reachable_inv [OF assms] by (auto simp: one_writer_def on_the_way_out_def not_in_iff split: if_splits)

theorem stream_single_writer_witness:
  "stream_reachable buffer_sink example_stream written \<and> count (sy_writers written) Live \<le> 1 \<and> Live \<in># sy_writers written"
  using stream_single_writer [OF example_stream_new written_reachable] written_reachable by (simp add: written_def)

text \<open>
  C38. Closing a stream flushes it. If the writers of an in-memory stream had some chunks and then the close accepted, and the task still
  runs, then two steps of the task per waiting command and one more end the task with exactly the chunks in the buffer.
\<close>

theorem stream_close_flushes:
  assumes "in_memory_buffer = Ret s" "stream_reachable buffer_sink s y" "receiver_alive (sy_stream y)"
    "sy_accepted y = map SWrite cs @ [SClose]" "n \<ge> 2 * length (ws_queue (sy_stream y)) + 1"
  shows "ws_task (run_task buffer_sink n (sy_stream y)) = Finished \<and> ws_sink (run_task buffer_sink n (sy_stream y)) = concat cs"
proof -
  let ?s = "sy_stream y"
  have inv: "in_order buffer_sink 4 [] y" using stream_reachable_inv [OF assms(1) [unfolded in_memory_buffer_def] assms(2)] by simp
  obtain as where acc: "map SWrite as @ busy_with ?s @ ws_queue ?s = map SWrite cs @ [SClose]" and h: "sy_handled y = map SWrite as"
    using inv assms(3,4) by (auto simp: in_order_def Let_def receiver_alive_def split: if_splits)
  have given: "sink_after buffer_sink [] (map SWrite ds) = concat ds" for ds
    by (induction ds rule: rev_induct) (simp_all add: sink_after_def buffer_sink_def)
  then have sink: "ws_task ?s \<noteq> Starting \<Longrightarrow> ws_sink ?s = concat as" "ws_task ?s = Starting \<Longrightarrow> ws_sink ?s = [] \<and> as = []"
    using inv h by (auto simp: in_order_def Let_def)
  obtain ds where ds: "cs = as @ ds" "busy_with ?s @ ws_queue ?s = map SWrite ds @ [SClose]" using writes_then_close [OF acc] by blast
  have sp: "run_task buffer_sink n ?s = run_task buffer_sink (n - 1) (task_step buffer_sink ?s)"
    using run_task_split [of 1 n buffer_sink ?s] assms(5) by (simp add: run_task_def)
  show ?thesis
  proof (cases "ws_task ?s")
    case Starting
    then have t: "task_step buffer_sink ?s = ?s\<lparr>ws_task := Idle\<rparr>" by (simp add: task_step_def buffer_sink_def)
    show ?thesis unfolding sp t
      using run_buffer [of "?s\<lparr>ws_task := Idle\<rparr>" ds "n - 1"] ds sink(2) Starting assms(5) by (simp add: busy_with_def)
  next
    case Idle
    then show ?thesis using run_buffer [of ?s ds n] ds sink(1) assms(5) by (simp add: busy_with_def)
  next
    case (Busy c)
    show ?thesis
    proof (cases ds)
      case Nil
      then have "c = SClose" using Busy ds(2) by (simp add: busy_with_def)
      then have "task_step buffer_sink ?s = finish_task ?s" using Busy by (simp add: task_step_def buffer_sink_def)
      then show ?thesis unfolding sp using Nil ds(1) sink(1) Busy by (simp add: run_task_finished finish_task_def)
    next
      case (Cons d ds')
      then have "c = SWrite d" "ws_queue ?s = map SWrite ds' @ [SClose]" using Busy ds(2) by (simp_all add: busy_with_def)
      moreover have "task_step buffer_sink ?s = ?s\<lparr>ws_sink := ws_sink ?s @ d, ws_task := Idle\<rparr>"
        using Busy calculation(1) by (simp add: task_step_def buffer_sink_def)
      ultimately show ?thesis unfolding sp
        using run_buffer [of "?s\<lparr>ws_sink := ws_sink ?s @ d, ws_task := Idle\<rparr>" ds' "n - 1"] Cons ds(1) sink(1) Busy assms(5) by simp
    qed
  next
    case Finished then show ?thesis using assms(3) by (simp add: receiver_alive_def)
  qed
qed

theorem stream_close_flushes_witness:
  "stream_reachable buffer_sink example_stream closed_stream \<and> ws_sink (run_task buffer_sink 5 (sy_stream closed_stream)) = [7]"
proof -
  have w: "sy_stream written = push_command (SWrite [7]) (example_stream\<lparr>ws_locked := True\<rparr>)"
    by (simp add: written_def get_writer_def Let_def example_fields)
  obtain s where c: "writer_close False (sy_stream written) = Some (Inr (), s)" and q: "length (ws_queue s) = 2" "receiver_alive s"
    by (simp add: w writer_close_def send_command_def receiver_alive_def has_room_def push_command_def example_fields writer_drop_def
      mark_closed_def release_lock_def)
  have "stream_reachable buffer_sink example_stream closed_stream"
    using written_reachable writer_close_steps [OF c, of buffer_sink] c unfolding stream_reachable_def
    by (simp add: closed_stream_def written_def)
  moreover from stream_close_flushes [OF _ calculation, of "[[7]]" 5] have "ws_sink (run_task buffer_sink 5 (sy_stream closed_stream)) = [7]"
    using example_stream_new c q by (simp add: closed_stream_def in_memory_buffer_def)
  ultimately show ?thesis by blast
qed

text \<open>
  A writer that is dropped without closing leaves the stream open, and what the next writer writes is lost: the stream is neither
  closed nor aborted, a second writer is given out and its write succeeds, but the sink is never given the chunk, because the
  task ends at the abort that stands before it in the channel.
\<close>

theorem stream_drop_loses_writes:
  "\<exists>s1 s3 s4. get_writer example_stream = (True, s1) \<and> get_writer (writer_drop False s1) = (True, s3)
     \<and> writer_write False chunk s3 = Some (Inr (), s4) \<and> \<not> ws_closed s4 \<and> \<not> ws_aborted s4
     \<and> (\<forall>n. ws_sink (run_task buffer_sink n s4) = []) \<and> ws_task (run_task buffer_sink 3 s4) = Finished"
proof -
  define s4 where "s4 = example_stream\<lparr>ws_locked := True, ws_queue := [DROPPED, SWrite chunk]\<rparr>"
  let ?run = "\<lambda>n. run_task buffer_sink n s4"
  have r: "?run 0 = s4" "?run 1 = s4\<lparr>ws_task := Idle\<rparr>" "?run 2 = s4\<lparr>ws_queue := [SWrite chunk], ws_task := Busy DROPPED\<rparr>"
    "?run 3 = finish_task s4"
    by (simp_all add: run_task_def numeral_2_eq_2 numeral_3_eq_3 task_step_def s4_def example_fields buffer_sink_def DROPPED_def finish_task_def)
  have f: "?run (3 + n) = finish_task s4" for n unfolding run_task_add r(4) by (rule run_task_finished) (simp add: finish_task_def)
  have "ws_sink (?run n) = []" for n
  proof -
    have "n = 0 \<or> n = 1 \<or> n = 2 \<or> n = 3 + (n - 3)" by linarith
    then consider "n = 0" | "n = 1" | "n = 2" | m where "n = 3 + m" by blast
    then show ?thesis using r f by cases (simp_all add: s4_def example_fields finish_task_def)
  qed
  moreover have "get_writer example_stream = (True, example_stream\<lparr>ws_locked := True\<rparr>)" by (simp add: get_writer_def Let_def example_fields)
  moreover have "get_writer (writer_drop False (example_stream\<lparr>ws_locked := True\<rparr>)) = (True, example_stream\<lparr>ws_locked := True, ws_queue := [DROPPED]\<rparr>)"
    by (simp add: writer_drop_def try_send_command_def receiver_alive_def has_room_def push_command_def release_lock_def get_writer_def Let_def example_fields)
  moreover have "writer_write False chunk (example_stream\<lparr>ws_locked := True, ws_queue := [DROPPED]\<rparr>) = Some (Inr (), s4)"
    by (simp add: writer_write_def send_command_ok receiver_alive_def has_room_def push_command_def s4_def example_fields)
  moreover have "\<not> ws_closed s4 \<and> \<not> ws_aborted s4 \<and> ws_task (?run 3) = Finished" unfolding r(4) by (simp add: s4_def example_fields finish_task_def)
  ultimately show ?thesis by blast
qed

end
