(* ===== verification/Config_Mod.thy ===== *)
theory Config_Mod
  imports Config_App
begin

text \<open>
  The configuration that the running server uses (\<^verbatim>\<open>src/src/config/mod.rs\<close>). This file repeats the types and
  validators of \<^verbatim>\<open>config/app.rs\<close> with differences: its limits have no WebSocket fields, its validator demands an
  entry point, does not look at the sliver and does not check \<^verbatim>\<open>cpu_time_ms\<close>. \<^verbatim>\<open>main.rs\<close>, the loader and the
  administration use this copy. The records of \<open>Config_App\<close> stand for both; in a configuration of this file the
  two WebSocket fields are \<open>None\<close>. Checks with the same text in both files are shared.
\<close>

section \<open>Definitions\<close>

definition mod_default_app_limits :: app_limits where
  "mod_default_app_limits = \<lparr>memory_mb = 128, timeout_secs = 30, workers = 4, cpu_time_ms = 50, cpu_time_enabled = True,
     max_ws_connections = None, ws_idle_timeout_ms = None\<rparr>"

definition mod_default_app_config :: app_config where
  "mod_default_app_config = \<lparr>hostname = [], entrypoint = [], sliver = None, env_vars = [],
     app_limits_of = mod_default_app_limits, vfs_backend_of = Memory, vfs_disk = None, vfs_s3 = None\<rparr>"

definition mod_default_server_config :: server_config_section where
  "mod_default_server_config = \<lparr>port = 8080, host = ''0.0.0.0''\<rparr>"

record global_settings =
  workers_per_app :: u32
  bind_address :: string
  gs_port :: u16

text \<open>The derived default is the default of every field, not the functions that serde uses for missing fields.\<close>

definition default_global_settings :: global_settings where
  "default_global_settings = \<lparr>workers_per_app = 0, bind_address = [], gs_port = 0\<rparr>"

text \<open>\<^verbatim>\<open>NanoConfig::new\<close>.\<close>

definition nano_config_new :: nano_config where
  "nano_config_new = \<lparr>apps = [], server = mod_default_server_config\<rparr>"

text \<open>The \<^verbatim>\<open>Display\<close> of \<^verbatim>\<open>ValidationErrors\<close>.\<close>

definition show_errors :: "string list \<Rightarrow> string" where
  "show_errors es = join_with [CHR 0x0A] (map (\<lambda>e. ''- '' @ e) es)"

definition mod_entrypoint_errors :: "host_fs \<Rightarrow> string option \<Rightarrow> app_config \<Rightarrow> string list" where
  "mod_entrypoint_errors fs base c =
     (if entrypoint c = [] then [''entrypoint cannot be empty'']
      else if contains_sub (entrypoint c) ''..''
      then [''entrypoint '' @ quoted (entrypoint c) @ '' contains '..' which is not allowed for security'']
      else check_host_path fs base ''entrypoint'' (entrypoint c))"

definition mod_limits_errors :: "app_limits \<Rightarrow> string list" where
  "mod_limits_errors l =
     range_error ''memory_mb'' 16 (HEAP_SIZE_BYTES_MAX div (1024 * 1024)) (memory_mb l)
     @ range_error ''timeout_secs'' 1 (TIMEOUT_MS div 1000) (timeout_secs l)
     @ range_error ''workers'' 1 WORKERS_PER_APP_MAX (workers l)"

definition mod_validate_config :: "host_fs \<Rightarrow> string option \<Rightarrow> app_config \<Rightarrow> string list + unit" where
  "mod_validate_config fs base c = errors_result
     (hostname_errors (hostname c) @ mod_entrypoint_errors fs base c @ mod_limits_errors (app_limits_of c)
      @ concat (map env_var_errors (env_vars c)) @ vfs_errors c)"

definition mod_app_errors :: "host_fs \<Rightarrow> string option \<Rightarrow> nat \<times> app_config \<Rightarrow> string list" where
  "mod_app_errors fs base ia = (case mod_validate_config fs base (snd ia) of
       Inr _ \<Rightarrow> []
     | Inl es \<Rightarrow> map (\<lambda>e. ''app['' @ show_nat (fst ia) @ ''] ('' @ hostname (snd ia) @ ''): '' @ e) es)"

definition mod_validate_nano_config :: "host_fs \<Rightarrow> string option \<Rightarrow> nano_config \<Rightarrow> string list + unit" where
  "mod_validate_nano_config fs base c = errors_result
     ((if apps c = [] then [''configuration must define at least one application'']
       else if length (apps c) > 1000
       then [''too many applications: '' @ show_nat (length (apps c)) @ '' (max 1000)'']
       else [])
      @ duplicate_errors {} (apps c)
      @ concat (map (mod_app_errors fs base) (List.enumerate 0 (apps c)))
      @ (if port (server c) = 0 then [''server port cannot be 0''] else [])
      @ (if host (server c) = [] then [''server host cannot be empty''] else []))"

text \<open>\<^verbatim>\<open>NanoConfig::validate\<close>: no base directory, so no file is looked at.\<close>

definition nano_config_validate :: "host_fs \<Rightarrow> nano_config \<Rightarrow> string + unit" where
  "nano_config_validate fs c = (case mod_validate_nano_config fs None c of
       Inl es \<Rightarrow> Inl (show_errors es) | Inr u \<Rightarrow> Inr u)"

text \<open>
  The loader that \<^verbatim>\<open>main.rs\<close> calls at the start: what reading the file answered, and the JSON parser with its
  error text.
\<close>

definition mod_load_config_from_str :: "host_fs \<Rightarrow> (string \<Rightarrow> string + nano_config) \<Rightarrow> string \<Rightarrow> string + nano_config" where
  "mod_load_config_from_str fs from_str raw = (case from_str raw of
       Inl e \<Rightarrow> Inl (''Failed to parse config JSON: '' @ e)
     | Inr config \<Rightarrow> (case nano_config_validate fs config of Inl e \<Rightarrow> Inl e | Inr _ \<Rightarrow> Inr config))"

definition mod_load_config :: "host_fs \<Rightarrow> (string \<Rightarrow> string + nano_config) \<Rightarrow> string + string \<Rightarrow> string + nano_config" where
  "mod_load_config fs from_str read = (case read of
       Inl e \<Rightarrow> Inl (''Failed to read config file: '' @ e)
     | Inr raw \<Rightarrow> mod_load_config_from_str fs from_str raw)"

section \<open>What validation guarantees\<close>

lemma mod_limits_errors_Nil:
  "mod_limits_errors l = [] \<longleftrightarrow> unat (memory_mb l) \<in> {16..256} \<and> unat (timeout_secs l) \<in> {1..30} \<and> unat (workers l) \<in> {1..64}"
  by (auto simp: mod_limits_errors_def limit_defs word_le_nat_alt)

lemma mod_entrypoint_errors_Nil:
  "mod_entrypoint_errors fs base c = [] \<longleftrightarrow>
     entrypoint c \<noteq> [] \<and> no_traversal (entrypoint c) \<and> path_present fs base (entrypoint c)"
  by (auto simp: mod_entrypoint_errors_def check_host_path_Nil no_traversal_def)

lemma mod_app_errors_Nil: "mod_app_errors fs base ia = [] \<longleftrightarrow> mod_validate_config fs base (snd ia) = Inr ()"
  by (auto simp: mod_app_errors_def errors_result_def mod_validate_config_def split: sum.splits if_splits)

lemma mod_app_errors_enumerate:
  "(\<forall>ia \<in> set (List.enumerate 0 as). mod_app_errors fs base ia = []) \<longleftrightarrow>
     list_all (\<lambda>a. mod_validate_config fs base a = Inr ()) as"
  unfolding mod_app_errors_Nil list_all_iff
  by (metis (no_types, lifting) list.set_map map_snd_enumerate image_iff)

lemma mod_validate_nano_config_iff:
  "mod_validate_nano_config fs base c = Inr () \<longleftrightarrow>
     length (apps c) \<in> {1..1000}
     \<and> distinct (map (\<lambda>a. to_lowercase (hostname a)) (apps c))
     \<and> list_all (\<lambda>a. mod_validate_config fs base a = Inr ()) (apps c)
     \<and> port (server c) \<noteq> 0 \<and> host (server c) \<noteq> []"
  using mod_app_errors_enumerate [of "apps c" fs base]
  by (auto simp: mod_validate_nano_config_def duplicate_errors_Nil Suc_le_eq)

lemma mod_validate_config_iff:
  "mod_validate_config fs base c = Inr () \<longleftrightarrow>
     is_valid_hostname (hostname c)
     \<and> entrypoint c \<noteq> [] \<and> no_traversal (entrypoint c) \<and> path_present fs base (entrypoint c)
     \<and> unat (memory_mb (app_limits_of c)) \<in> {16..256} \<and> unat (timeout_secs (app_limits_of c)) \<in> {1..30}
     \<and> unat (workers (app_limits_of c)) \<in> {1..64}
     \<and> (\<forall>kv \<in> set (env_vars c). env_var_errors kv = []) \<and> backend_configured c"
  unfolding mod_validate_config_def errors_result_ok
  by (simp add: hostname_errors_Nil mod_entrypoint_errors_Nil mod_limits_errors_Nil vfs_errors_Nil)

lemma backend_configured_update:
  "backend_configured (c\<lparr>sliver := s\<rparr>) = backend_configured c" "backend_configured (c\<lparr>app_limits_of := l\<rparr>) = backend_configured c"
  by (simp_all add: backend_configured_def split: vfs_backend_type.split)

lemma mod_validate_any_cpu:
  "mod_validate_config fs base (a\<lparr>app_limits_of := (app_limits_of a)\<lparr>cpu_time_ms := n\<rparr>\<rparr>) = Inr () \<longleftrightarrow>
   mod_validate_config fs base a = Inr ()"
  by (simp add: mod_validate_config_iff backend_configured_update)

lemma mod_validate_nano_any_cpu:
  "mod_validate_nano_config fs base (c\<lparr>apps := map (\<lambda>a. a\<lparr>app_limits_of := (app_limits_of a)\<lparr>cpu_time_ms := n\<rparr>\<rparr>) (apps c)\<rparr>) = Inr ()
   \<longleftrightarrow> mod_validate_nano_config fs base c = Inr ()"
  by (simp add: mod_validate_nano_config_iff mod_validate_any_cpu list_all_iff o_def)

section \<open>Properties\<close>

text \<open>
  C11. The two validators of the program do not agree. With an entry point, the one of \<^verbatim>\<open>config/app.rs\<close> accepts exactly
  what the one of \<^verbatim>\<open>config/mod.rs\<close> accepts and whose CPU limit is between 1 and 1000 ms and whose sliver path, if any, is
  fit for use; without an entry point the second rejects everything, the first admits an application that has a
  sliver. So whatever CPU limit an accepted application has, any other CPU limit and any sliver path is accepted
  in its place by the validator that the server runs.
\<close>

theorem validators_disagree:
  "(entrypoint c \<noteq> [] \<longrightarrow>
      (validate_config fs base c = Inr () \<longleftrightarrow>
         mod_validate_config fs base c = Inr () \<and> unat (cpu_time_ms (app_limits_of c)) \<in> {1..1000}
         \<and> (\<forall>s. sliver c = Some s \<longrightarrow> s \<noteq> [] \<and> no_traversal s \<and> path_present fs base s)))
   \<and> (entrypoint c = [] \<longrightarrow> mod_validate_config fs base c \<noteq> Inr ())
   \<and> (mod_validate_config fs base c = Inr () \<longrightarrow>
        mod_validate_config fs base (c\<lparr>sliver := s', app_limits_of := (app_limits_of c)\<lparr>cpu_time_ms := n\<rparr>\<rparr>) = Inr ())"
proof -
  have "(validate_config fs base c = Inr () \<longleftrightarrow>
         mod_validate_config fs base c = Inr () \<and> unat (cpu_time_ms (app_limits_of c)) \<in> {1..1000}
         \<and> (\<forall>s. sliver c = Some s \<longrightarrow> s \<noteq> [] \<and> no_traversal s \<and> path_present fs base s))" if "entrypoint c \<noteq> []"
    unfolding validate_config_ok mod_validate_config_iff hostname_errors_Nil limits_errors_range vfs_errors_Nil
      limits_in_range_def entrypoint_errors_def sliver_errors_def no_traversal_def [symmetric]
    using that by (auto simp: check_host_path_Nil no_traversal_def split: option.split)
  then show ?thesis by (simp add: mod_validate_config_iff backend_configured_update)
qed

theorem validators_disagree_witness:
  "let c = default_app_config\<lparr>hostname := ''a.com'', entrypoint := ''/app.js''\<rparr>;
       d = c\<lparr>sliver := Some ''..'', app_limits_of := (app_limits_of c)\<lparr>cpu_time_ms := 60000\<rparr>\<rparr>
   in mod_validate_config \<lparr>path_exists = (\<lambda>_. False), path_is_file = (\<lambda>_. False)\<rparr> None d = Inr ()
      \<and> validate_config \<lparr>path_exists = (\<lambda>_. False), path_is_file = (\<lambda>_. False)\<rparr> None d \<noteq> Inr ()"
proof -
  let ?fs = "\<lparr>path_exists = (\<lambda>_. False), path_is_file = (\<lambda>_. False)\<rparr>"
  let ?c = "default_app_config\<lparr>hostname := ''a.com'', entrypoint := ''/app.js''\<rparr>"
  have "mod_validate_config ?fs None ?c = Inr ()" by code_simp
  then show ?thesis
    using validators_disagree [where c = ?c and fs = ?fs and base = None and s' = "Some ''..''" and n = 60000]
      validators_disagree [where c = "?c\<lparr>sliver := Some ''..'', app_limits_of := (app_limits_of ?c)\<lparr>cpu_time_ms := 60000\<rparr>\<rparr>" and fs = ?fs and base = None]
    by (simp add: Let_def)
qed

text \<open>
  The start-up loader returns a configuration only after it passed validation, and validation there never
  depends on the file system. A configuration it returns is the parser's result for the whole text of the file.
\<close>

theorem mod_load_config_validated:
  "mod_load_config fs from_str read = Inr c \<longleftrightarrow>
     (\<exists>raw. read = Inr raw \<and> from_str raw = Inr c \<and> mod_validate_nano_config fs None c = Inr ())"
  by (auto simp: mod_load_config_def mod_load_config_from_str_def nano_config_validate_def split: sum.splits)

end
