(* ===== verification/App_Lifecycle.thy ===== *)
theory App_Lifecycle
  imports Config_Mod
begin

text \<open>
  The life cycle of hosted applications: the registry (\<^verbatim>\<open>src/src/app/registry.rs\<close>), request
  draining (\<^verbatim>\<open>src/src/app/drain.rs\<close>), hot reload (\<^verbatim>\<open>src/src/app/reload.rs\<close>) and graceful shutdown
  (\<^verbatim>\<open>src/src/signal.rs\<close>). Hash maps are association lists. Waiting is modelled over the events
  that happen while the caller waits: \<open>await_complete\<close> takes the list of request events before
  its timeout, the polling variant takes the drain's state as a function of time.
\<close>

section \<open>Definitions\<close>

subsection \<open>The registry\<close>

text \<open>\<open>'s\<close> is the type of unpacked slivers.\<close>

record 's app_registry =
  reg_apps :: "(string \<times> app_config) list"
  reg_sliver_data :: "(string \<times> 's) list"

definition registry_new :: "(string \<times> app_config) list \<Rightarrow> 's app_registry" where
  "registry_new as = \<lparr>reg_apps = as, reg_sliver_data = []\<rparr>"

definition from_config :: "nano_config \<Rightarrow> 's app_registry" where
  "from_config c = registry_new (fold (\<lambda>app. AList.update (hostname app) app) (apps c) [])"

definition with_sliver_data ::
  "(string \<times> app_config) list \<Rightarrow> (string \<times> 's) list \<Rightarrow> 's app_registry" where
  "with_sliver_data as ss = \<lparr>reg_apps = as, reg_sliver_data = ss\<rparr>"

text \<open>
  Registration from a sliver file: \<open>file\<close> is what reading the file returned, \<open>unpack\<close> the
  unpacker and \<open>sliver_hostname\<close> the hostname in the unpacked metadata.
\<close>

definition register_from_sliver ::
  "(bytes \<Rightarrow> string + 's) \<Rightarrow> ('s \<Rightarrow> string) \<Rightarrow> string + bytes \<Rightarrow> string \<Rightarrow> app_config option
     \<Rightarrow> 's app_registry \<Rightarrow> (string + string) \<times> 's app_registry" where
  "register_from_sliver unpack sliver_hostname file sliver_path config_base r = (case file of
       Inl e \<Rightarrow> (Inl (''Failed to read sliver file: '' @ sliver_path), r)
     | Inr data \<Rightarrow> (case unpack data of
           Inl e \<Rightarrow> (Inl (''Failed to unpack sliver: '' @ sliver_path), r)
         | Inr unpacked \<Rightarrow>
             let h = sliver_hostname unpacked;
                 base = (case config_base of Some c \<Rightarrow> c | None \<Rightarrow> mod_default_app_config);
                 c = base\<lparr>hostname := h, sliver := Some sliver_path\<rparr>
             in (Inr h, r\<lparr>reg_apps := AList.update h c (reg_apps r),
                   reg_sliver_data := AList.update h unpacked (reg_sliver_data r)\<rparr>)))"

definition get_sliver_data :: "'s app_registry \<Rightarrow> string \<Rightarrow> 's option" where
  "get_sliver_data r h = map_of (reg_sliver_data r) h"

definition is_sliver_app :: "'s app_registry \<Rightarrow> string \<Rightarrow> bool" where
  "is_sliver_app r h = (map_of (reg_sliver_data r) h \<noteq> None)"

definition registry_get :: "'s app_registry \<Rightarrow> string \<Rightarrow> app_config option" where
  "registry_get r h = map_of (reg_apps r) h"

definition registry_contains :: "'s app_registry \<Rightarrow> string \<Rightarrow> bool" where
  "registry_contains r h = (map_of (reg_apps r) h \<noteq> None)"

definition all_hostnames :: "'s app_registry \<Rightarrow> string list" where
  "all_hostnames r = map fst (reg_apps r)"

definition registry_count :: "'s app_registry \<Rightarrow> nat" where
  "registry_count r = length (reg_apps r)"

subsection \<open>Draining\<close>

record request_drain =
  active_requests :: usize
  drain_permits :: nat

definition drain_new :: request_drain where
  "drain_new = \<lparr>active_requests = 0, drain_permits = 0\<rparr>"

definition request_started :: "request_drain \<Rightarrow> request_drain" where
  "request_started d = d\<lparr>active_requests := active_requests d + 1\<rparr>"

definition request_completed :: "request_drain \<Rightarrow> request_drain" where
  "request_completed d =
     (let count = active_requests d; d1 = d\<lparr>active_requests := count - 1\<rparr> in
      if count = 1 then d1\<lparr>drain_permits := drain_permits d1 + 1\<rparr> else d1)"

datatype drain_event = Started | Completed

definition drain_step :: "drain_event \<Rightarrow> request_drain \<Rightarrow> request_drain" where
  "drain_step e d = (case e of Started \<Rightarrow> request_started d | Completed \<Rightarrow> request_completed d)"

text \<open>
  Acquiring the semaphore succeeds as soon as a permit is available; the permit is dropped on
  return and goes back to the semaphore. The result is paired with the state at that moment.
\<close>

fun wait_permit :: "request_drain \<Rightarrow> drain_event list \<Rightarrow> bool \<times> request_drain" where
  "wait_permit d [] = (drain_permits d > 0, d)"
| "wait_permit d (e # es) = (if drain_permits d > 0 then (True, d) else wait_permit (drain_step e d) es)"

definition await_complete :: "request_drain \<Rightarrow> drain_event list \<Rightarrow> bool \<times> request_drain" where
  "await_complete d during =
     (if active_requests d = 0 then (True, d) else wait_permit d during)"

text \<open>
  The polling loop: \<open>d t\<close> is the drain at time \<open>t\<close> since the start; a sleep takes at least one
  tick of the clock.
\<close>

function poll_loop :: "nat \<Rightarrow> nat \<Rightarrow> (nat \<Rightarrow> request_drain) \<Rightarrow> nat \<Rightarrow> bool" where
  "poll_loop timeout poll_interval d t =
     (if t < timeout
      then if active_requests (d t) = 0 then True
           else poll_loop timeout poll_interval d (t + max 1 poll_interval)
      else active_requests (d t) = 0)"
  by pat_completeness auto
termination
  by (relation "measure (\<lambda>(timeout, p, d, t). timeout - t)") auto

declare poll_loop.simps [simp del]

definition await_complete_polling :: "nat \<Rightarrow> nat \<Rightarrow> (nat \<Rightarrow> request_drain) \<Rightarrow> bool" where
  "await_complete_polling timeout poll_interval d = poll_loop timeout poll_interval d 0"

subsection \<open>Reloading\<close>

record config_diff =
  added :: "string list"
  removed :: "string list"
  modified :: "string list"

definition diff_new :: config_diff where
  "diff_new = \<lparr>added = [], removed = [], modified = []\<rparr>"

definition has_changes :: "config_diff \<Rightarrow> bool" where
  "has_changes d = (added d \<noteq> [] \<or> removed d \<noteq> [] \<or> modified d \<noteq> [])"

text \<open>Equality of configurations: the environment is a hash map, compared without order.\<close>

definition app_config_eq :: "app_config \<Rightarrow> app_config \<Rightarrow> bool" where
  "app_config_eq a b =
     (a\<lparr>env_vars := []\<rparr> = b\<lparr>env_vars := []\<rparr> \<and> set (env_vars a) = set (env_vars b))"

definition opt_config_eq :: "app_config option \<Rightarrow> app_config option \<Rightarrow> bool" where
  "opt_config_eq x y = (case (x, y) of
       (Some a, Some b) \<Rightarrow> app_config_eq a b | (None, None) \<Rightarrow> True | _ \<Rightarrow> False)"

definition calculate_diff :: "'s app_registry \<Rightarrow> 's app_registry \<Rightarrow> config_diff" where
  "calculate_diff current new =
     (let current_hostnames = all_hostnames current; new_hostnames = all_hostnames new
      in \<lparr>added = filter (\<lambda>h. h \<notin> set current_hostnames) new_hostnames,
          removed = filter (\<lambda>h. h \<notin> set new_hostnames) current_hostnames,
          modified = filter (\<lambda>h. h \<in> set current_hostnames
             \<and> \<not> opt_config_eq (registry_get current h) (registry_get new h)) new_hostnames\<rparr>)"

datatype reload_error = ConfigLoadError string | DrainTimeout

definition show_reload_error :: "reload_error \<Rightarrow> string" where
  "show_reload_error e = (case e of
       ConfigLoadError m \<Rightarrow> ''Config load error: '' @ m
     | DrainTimeout \<Rightarrow> ''Drain timeout'')"

text \<open>
  \<open>loaded\<close> is what the loader returned, \<open>during\<close> the request events before the drain timeout.
  A timeout of the drain is only logged: the registry is replaced either way.
\<close>

definition reload_config ::
  "string + nano_config \<Rightarrow> 's app_registry \<Rightarrow> request_drain \<Rightarrow> drain_event list
     \<Rightarrow> reload_error + 's app_registry \<times> config_diff \<times> request_drain" where
  "reload_config loaded current drain during = (case loaded of
       Inl e \<Rightarrow> Inl (ConfigLoadError e)
     | Inr new_config \<Rightarrow>
         let new_registry = from_config new_config;
             diff = calculate_diff current new_registry
         in if \<not> has_changes diff then Inr (current, diff, drain)
            else let (drained, drain') = await_complete drain during
                 in Inr (new_registry, diff, drain'))"

subsection \<open>Graceful shutdown\<close>

record shutdown_config =
  drain_timeout_secs :: u64

definition default_shutdown_config :: shutdown_config where
  "default_shutdown_config = \<lparr>drain_timeout_secs = 30\<rparr>"

definition shutdown_config_new :: "u64 \<Rightarrow> shutdown_config" where
  "shutdown_config_new n = \<lparr>drain_timeout_secs = min (max n 5) 300\<rparr>"

record shutdown_state =
  shutting_down :: bool
  sd_drain :: request_drain

definition shutdown_state_new :: "request_drain \<Rightarrow> shutdown_state" where
  "shutdown_state_new d = \<lparr>shutting_down = False, sd_drain = d\<rparr>"

definition mark_shutting_down :: "shutdown_state \<Rightarrow> shutdown_state" where
  "mark_shutting_down s = s\<lparr>shutting_down := True\<rparr>"

text \<open>The result says whether the log line reports a complete drain.\<close>

definition shutdown :: "shutdown_state \<Rightarrow> drain_event list \<Rightarrow> bool \<times> shutdown_state" where
  "shutdown s during =
     (let s1 = mark_shutting_down s; (drained, d) = await_complete (sd_drain s1) during
      in (drained, s1\<lparr>sd_drain := d\<rparr>))"

section \<open>The registry as a map\<close>

lemma from_config_get:
  "registry_get (from_config c) h = map_of (rev (map (\<lambda>a. (hostname a, a)) (apps c))) h"
proof -
  have "map_of (fold (\<lambda>app. AList.update (hostname app) app) as st) h =
      (case map_of (rev (map (\<lambda>a. (hostname a, a)) as)) h of Some a \<Rightarrow> Some a | None \<Rightarrow> map_of st h)"
    for as and st :: "(string \<times> app_config) list"
    by (induction as arbitrary: st) (auto simp: map_add_def split: option.splits)
  from this [of "apps c" "[]"] show ?thesis
    by (simp add: registry_get_def from_config_def registry_new_def split: option.splits)
qed

lemma from_config_distinct: "distinct (all_hostnames (from_config c))"
proof -
  have "distinct (map fst st) \<Longrightarrow> distinct (map fst (fold (\<lambda>app. AList.update (hostname app) app) as st))"
    for as and st :: "(string \<times> app_config) list"
    by (induction as arbitrary: st) (simp_all add: AList.distinct_update)
  then show ?thesis by (simp add: all_hostnames_def from_config_def registry_new_def)
qed

lemma all_hostnames_dom: "set (all_hostnames r) = {h. registry_get r h \<noteq> None}"
  by (auto simp: all_hostnames_def registry_get_def map_of_eq_None_iff)

lemma app_config_eq_refl [simp]: "app_config_eq a a"
  by (simp add: app_config_eq_def)

lemma opt_config_eq_refl [simp]: "opt_config_eq x x"
  by (simp add: opt_config_eq_def split: option.split)

section \<open>Drain counters\<close>

lemma drain_step_simps [simp]:
  "drain_step Started d = request_started d" "drain_step Completed d = request_completed d"
  by (simp_all add: drain_step_def)

lemma request_completed_active [simp]:
  "active_requests (request_completed d) = active_requests d - 1"
  by (simp add: request_completed_def Let_def)

lemma request_started_simps [simp]:
  "active_requests (request_started d) = active_requests d + 1"
  "drain_permits (request_started d) = drain_permits d"
  by (simp_all add: request_started_def)

lemma request_completed_permits:
  "drain_permits (request_completed d) =
     (if active_requests d = 1 then drain_permits d + 1 else drain_permits d)"
  by (simp add: request_completed_def Let_def)

lemma drain_permits_mono: "drain_permits d \<le> drain_permits (drain_step e d)"
  by (cases e) (simp_all add: request_completed_permits)

lemma fold_drain_permits_mono: "drain_permits d \<le> drain_permits (fold drain_step es d)"
  by (induction es arbitrary: d) (auto intro: order_trans [OF drain_permits_mono])

lemma wait_permit_sound:
  "\<lbrakk>wait_permit d es = (True, d'); drain_permits d = 0\<rbrakk> \<Longrightarrow> active_requests d' = 0"
proof (induction d es rule: wait_permit.induct)
  case (2 d e es)
  show ?case
  proof (cases "drain_permits (drain_step e d) = 0")
    case True
    with 2 show ?thesis by simp
  next
    case False
    with 2 have e: "e = Completed" "active_requests d = 1"
      by (cases e; simp add: request_completed_permits split: if_splits)+
    from False 2 have "d' = drain_step e d"
      by (cases es) (simp_all add: split: if_splits)
    with e show ?thesis by simp
  qed
qed simp

lemma wait_permit_complete:
  "\<lbrakk>drain_permits (fold drain_step (take n es) d) > 0; n \<le> length es\<rbrakk> \<Longrightarrow> fst (wait_permit d es)"
proof (induction d es arbitrary: n rule: wait_permit.induct)
  case (2 d e es)
  then show ?case by (cases n) auto
qed simp

lemma first_zero_gives_permit:
  "\<lbrakk>active_requests d \<noteq> 0; unat (active_requests d) + length es < 2 ^ 64;
    active_requests (fold drain_step es d) = 0\<rbrakk> \<Longrightarrow> drain_permits (fold drain_step es d) > 0"
proof (induction es arbitrary: d)
  case (Cons e es)
  show ?case
  proof (cases "active_requests (drain_step e d) = 0")
    case True
    have "e \<noteq> Started"
    proof
      assume "e = Started"
      then have "unat (active_requests d + 1) = 0" using True by simp
      moreover have "unat (active_requests d + 1) = unat (active_requests d) + 1"
        using Cons.prems(2) by (intro usize_Suc) simp
      ultimately show False by simp
    qed
    then have "e = Completed" by (cases e) auto
    moreover from this True have "active_requests d = 1" by simp
    ultimately have "drain_permits (drain_step e d) > 0" by (simp add: request_completed_permits)
    then show ?thesis using fold_drain_permits_mono [of "drain_step e d" es] by simp
  next
    case False
    have "unat (active_requests (drain_step e d)) + length es < 2 ^ 64"
      using Cons.prems(1,2) usize_Suc [of "active_requests d"] by (cases e) (auto simp: usize_pred)
    with False Cons show ?thesis by simp
  qed
qed simp

lemma await_complete_iff:
  assumes "drain_permits d = 0" "unat (active_requests d) + length es < 2 ^ 64"
  shows "fst (await_complete d es) \<longleftrightarrow>
     (\<exists>n \<le> length es. active_requests (fold drain_step (take n es) d) = 0)"
proof (cases "active_requests d = 0")
  case True
  then show ?thesis by (auto simp: await_complete_def intro: exI [of _ 0])
next
  case False
  have "\<exists>n \<le> length es. active_requests (fold drain_step (take n es) d) = 0" if "fst (wait_permit d es)"
  proof -
    have w: "wait_permit d es = (True, snd (wait_permit d es))" using that by (simp add: prod_eq_iff)
    have "\<exists>n \<le> length es. snd (wait_permit d es) = fold drain_step (take n es) d"
    proof (induction d es rule: wait_permit.induct)
      case (2 d e es)
      show ?case
      proof (cases "drain_permits d > 0")
        case True
        then show ?thesis by (auto intro: exI [of _ 0])
      next
        case False
        then obtain n where "n \<le> length es"
          "snd (wait_permit (drain_step e d) es) = fold drain_step (take n es) (drain_step e d)"
          using 2 by auto
        with False show ?thesis by (auto intro: exI [of _ "Suc n"])
      qed
    qed simp
    with wait_permit_sound [OF w assms(1)] show ?thesis by auto
  qed
  moreover have "fst (wait_permit d es)"
    if n: "n \<le> length es" "active_requests (fold drain_step (take n es) d) = 0" for n
    using n False assms(2) first_zero_gives_permit [of d "take n es"] wait_permit_complete [of n es d]
    by simp
  ultimately show ?thesis using False by (auto simp: await_complete_def)
qed

lemma poll_loop_iff:
  "poll_loop timeout p d t \<longleftrightarrow>
     (\<exists>k. (k = 0 \<or> t + (k - 1) * max 1 p < timeout) \<and> active_requests (d (t + k * max 1 p)) = 0)"
proof (induction timeout p d t rule: poll_loop.induct)
  case (1 timeout p d t)
  show ?case
  proof (cases "active_requests (d t) = 0")
    case True
    then show ?thesis by (subst poll_loop.simps) (auto intro: exI [of _ 0])
  next
    case False
    show ?thesis
    proof (cases "t < timeout")
      case True
      have step: "poll_loop timeout p d t = poll_loop timeout p d (t + max 1 p)"
        using True False by (subst poll_loop.simps) simp
      show ?thesis unfolding step 1 [OF True False]
      proof (intro iffI; elim exE conjE)
        fix k assume k: "k = 0 \<or> t + max 1 p + (k - 1) * max 1 p < timeout"
          "active_requests (d (t + max 1 p + k * max 1 p)) = 0"
        then have "t + (Suc k - 1) * max 1 p < timeout" using True by (cases k) (auto simp: add_ac)
        moreover have "active_requests (d (t + Suc k * max 1 p)) = 0" using k(2) by (simp add: add_ac)
        ultimately show "\<exists>k. (k = 0 \<or> t + (k - 1) * max 1 p < timeout)
            \<and> active_requests (d (t + k * max 1 p)) = 0" by blast
      next
        fix k assume k: "k = 0 \<or> t + (k - 1) * max 1 p < timeout"
          "active_requests (d (t + k * max 1 p)) = 0"
        with False obtain j where j: "k = Suc j" by (cases k) auto
        with k have "j = 0 \<or> t + max 1 p + (j - 1) * max 1 p < timeout"
          by (cases j) (auto simp: add_ac)
        moreover have "active_requests (d (t + max 1 p + j * max 1 p)) = 0"
          using k(2) j by (simp add: add_ac)
        ultimately show "\<exists>k. (k = 0 \<or> t + max 1 p + (k - 1) * max 1 p < timeout)
            \<and> active_requests (d (t + max 1 p + k * max 1 p)) = 0" by blast
      qed
    next
      case gt: False
      then have "\<not> poll_loop timeout p d t" using False by (subst poll_loop.simps) simp
      moreover have "k = 0" if "k = 0 \<or> t + (k - 1) * max 1 p < timeout" for k
        using that gt by (metis add_lessD1)
      moreover have "t + 0 * max 1 p = t" by simp
      ultimately show ?thesis using False by metis
    qed
  qed
qed

lemma diff_sets:
  "set (added (calculate_diff cur new)) = {h. registry_get cur h = None \<and> registry_get new h \<noteq> None}"
  "set (removed (calculate_diff cur new)) = {h. registry_get cur h \<noteq> None \<and> registry_get new h = None}"
  "set (modified (calculate_diff cur new)) = {h. registry_get cur h \<noteq> None \<and> registry_get new h \<noteq> None
     \<and> \<not> opt_config_eq (registry_get cur h) (registry_get new h)}"
  by (auto simp: calculate_diff_def Let_def all_hostnames_dom)

lemma has_changes_iff:
  "has_changes (calculate_diff cur new) \<longleftrightarrow>
     (\<exists>h. \<not> opt_config_eq (registry_get cur h) (registry_get new h))"
proof -
  let ?d = "calculate_diff cur new"
  have ne: "(x = None \<and> (\<exists>b. y = Some b)) \<or> ((\<exists>a. x = Some a) \<and> y = None)
      \<or> ((\<exists>a. x = Some a) \<and> (\<exists>b. y = Some b) \<and> \<not> opt_config_eq x y) \<longleftrightarrow> \<not> opt_config_eq x y" for x y
    by (cases x; cases y) (simp_all add: opt_config_eq_def)
  have "has_changes ?d \<longleftrightarrow> set (added ?d) \<union> set (removed ?d) \<union> set (modified ?d) \<noteq> {}"
    by (simp add: has_changes_def)
  also have "\<dots> \<longleftrightarrow> (\<exists>h. \<not> opt_config_eq (registry_get cur h) (registry_get new h))"
    unfolding diff_sets ex_in_conv [symmetric] by (simp add: ne)
  finally show ?thesis .
qed

section \<open>Properties\<close>

text \<open>
  The computed difference is exact: the three lists name the hostnames only in the new
  registry, only in the current one, and in both with different configurations; there are no
  changes iff the two registries agree on every hostname.
\<close>

theorem calculate_diff_exact:
  "let d = calculate_diff cur new in
     set (added d) = {h. registry_get cur h = None \<and> registry_get new h \<noteq> None}
     \<and> set (removed d) = {h. registry_get cur h \<noteq> None \<and> registry_get new h = None}
     \<and> set (modified d) = {h. registry_get cur h \<noteq> None \<and> registry_get new h \<noteq> None
          \<and> \<not> opt_config_eq (registry_get cur h) (registry_get new h)}
     \<and> (has_changes d \<longleftrightarrow> (\<exists>h. \<not> opt_config_eq (registry_get cur h) (registry_get new h)))"
  unfolding Let_def using diff_sets [of cur new] has_changes_iff [of cur new] by blast

text \<open>
  A reload keeps the running registry when the file fails to load or nothing changed, and
  otherwise installs exactly the new configuration, whether or not the drain completed; the
  installed registry has no sliver data left.
\<close>

theorem reload_installs_config:
  "case reload_config loaded (cur :: 's app_registry) d during of
     Inl e \<Rightarrow> (\<exists>m. loaded = Inl m \<and> e = ConfigLoadError m)
   | Inr (r, diff, d') \<Rightarrow> (\<exists>c. loaded = Inr c
        \<and> (\<forall>h. opt_config_eq (registry_get r h) (registry_get (from_config c :: 's app_registry) h))
        \<and> (if has_changes diff then \<forall>h. \<not> is_sliver_app r h else r = cur))"
proof (cases loaded)
  case (Inr c)
  have "\<not> is_sliver_app (from_config c :: 's app_registry) h" for h
    by (simp add: is_sliver_app_def from_config_def registry_new_def)
  with Inr show ?thesis
    by (auto simp: reload_config_def Let_def has_changes_iff split: prod.split)
qed (simp add: reload_config_def)

text \<open>
  Waiting for the drain is exact when no permit is left over: it succeeds iff the number
  of active requests reaches zero at some point before the timeout.
\<close>

theorem await_complete_exact:
  assumes "drain_permits d = 0" "unat (active_requests d) + length during < 2 ^ 64"
  shows "fst (await_complete d during) \<longleftrightarrow>
     (\<exists>n \<le> length during. active_requests (fold drain_step (take n during) d) = 0)"
  by (rule await_complete_iff [OF assms])

theorem await_complete_exact_witness:
  "let d = fold drain_step [Started, Started] drain_new in
     fst (await_complete d [Completed, Started, Completed, Completed])
     \<and> \<not> fst (await_complete d [Completed, Started, Completed])"
proof -
  let ?d = "fold drain_step [Started, Started] drain_new"
  have p: "drain_permits ?d = 0" by code_simp
  have l: "unat (active_requests ?d) + length [Completed, Started, Completed, Completed] < 2 ^ 64"
    "unat (active_requests ?d) + length [Completed, Started, Completed] < 2 ^ 64"
    by (simp_all add: drain_new_def)
  have "active_requests (fold drain_step (take 4 [Completed, Started, Completed, Completed]) ?d) = 0"
    by code_simp
  then have "fst (await_complete ?d [Completed, Started, Completed, Completed])"
    unfolding await_complete_exact [OF p l(1)] by (intro exI [of _ 4]) simp
  moreover have none: "\<not> (\<exists>n \<in> set [0..<4].
      active_requests (fold drain_step (take n [Completed, Started, Completed]) ?d) = 0)"
    by code_simp
  have "\<not> fst (await_complete ?d [Completed, Started, Completed])"
    unfolding await_complete_exact [OF p l(2)]
  proof
    assume "\<exists>n \<le> length [Completed, Started, Completed].
      active_requests (fold drain_step (take n [Completed, Started, Completed]) ?d) = 0"
    then obtain n where "n \<le> length [Completed, Started, Completed]"
      "active_requests (fold drain_step (take n [Completed, Started, Completed]) ?d) = 0"
      by blast
    moreover from this have "n \<in> set [0..<4]" by simp
    ultimately show False using none by blast
  qed
  ultimately show ?thesis by (simp add: Let_def)
qed

text \<open>
  Permits are never taken back: once the number of requests has dropped to zero, every
  later wait returns success at once, however many requests are then in flight.
\<close>

theorem drain_stale_permit:
  assumes "active_requests d = 1"
  shows "fst (await_complete (fold drain_step es (drain_step Completed d)) during)
     \<and> snd (await_complete (fold drain_step es (drain_step Completed d)) during) =
         fold drain_step es (drain_step Completed d)"
proof -
  have "0 < drain_permits (drain_step Completed d)" using assms by (simp add: request_completed_permits)
  then have "0 < drain_permits (fold drain_step es (drain_step Completed d))"
    using fold_drain_permits_mono by (rule less_le_trans)
  then show ?thesis by (cases during) (simp_all add: await_complete_def)
qed

theorem drain_stale_permit_witness:
  "active_requests (fold drain_step [Started, Completed, Started, Started] drain_new) = 2
   \<and> fst (await_complete (fold drain_step [Started, Completed, Started, Started] drain_new) [])"
proof -
  have a: "active_requests (drain_step Started drain_new) = 1" by code_simp
  have "active_requests (fold drain_step [Started, Completed, Started, Started] drain_new) = 2"
    by code_simp
  with drain_stale_permit [OF a, of "[Started, Started]" "[]"] show ?thesis by simp
qed

text \<open>
  The polling wait is exact: it returns true iff one of its observations, taken every
  poll interval from the start and a last time when the timeout has passed, saw no active
  request. A true result therefore always comes from a moment with no request in flight.
\<close>

theorem await_polling_exact:
  "await_complete_polling timeout p d \<longleftrightarrow>
     (\<exists>k. (k = 0 \<or> (k - 1) * max 1 p < timeout) \<and> active_requests (d (k * max 1 p)) = 0)"
  using poll_loop_iff [of timeout p d 0] by (simp add: await_complete_polling_def)

text \<open>
  Graceful shutdown always marks the process as shutting down; with a drain that was never
  idle before it reports a complete drain only when no request is in flight, and the
  configured timeout is between 5 and 300 seconds.
\<close>

theorem shutdown_drains:
  assumes "drain_permits (sd_drain s) = 0" "shutdown s during = (drained, s')"
  shows "shutting_down s' \<and> (drained \<longrightarrow> active_requests (sd_drain s') = 0)
     \<and> drain_timeout_secs (shutdown_config_new n) \<in> {5..300}"
proof -
  have "shutting_down s'" "drained \<longrightarrow> active_requests (sd_drain s') = 0"
    using assms wait_permit_sound [of "sd_drain s" during]
    by (auto simp: shutdown_def mark_shutting_down_def await_complete_def Let_def
        split: prod.splits if_splits)
  moreover have "drain_timeout_secs (shutdown_config_new n) \<in> {5..300}"
    by (auto simp: shutdown_config_new_def min_def max_def)
  ultimately show ?thesis by blast
qed

theorem shutdown_drains_witness:
  "\<exists>s'. shutdown (shutdown_state_new (request_started drain_new)) [Completed] = (True, s')
     \<and> shutting_down s' \<and> active_requests (sd_drain s') = 0
     \<and> drain_timeout_secs (shutdown_config_new 3) \<in> {5..300}"
proof -
  let ?s = "shutdown_state_new (request_started drain_new)"
  have p: "drain_permits (sd_drain ?s) = 0" by code_simp
  have "fst (shutdown ?s [Completed])" by code_simp
  then have s: "shutdown ?s [Completed] = (True, snd (shutdown ?s [Completed]))"
    by (simp add: prod_eq_iff)
  from s shutdown_drains [OF p s, of 3] show ?thesis by blast
qed

end
