(* ===== verification/Http_Client.thy ===== *)
theory Http_Client
  imports Config_App
begin

unbundle bit_operations_syntax

text \<open>
  Outbound requests: the client of \<^verbatim>\<open>src/src/http/client.rs\<close> with its checks against requests to private addresses,
  the JavaScript \<^verbatim>\<open>fetch\<close> of \<^verbatim>\<open>src/src/runtime/fetch.rs\<close> behind the conversion of its arguments, and the listener
  configuration of \<^verbatim>\<open>src/src/http/config.rs\<close>. The text of IP addresses is read as the Rust library does. Parsing
  of URIs and the network are the libraries' and parameters of the definitions.
\<close>

section \<open>Definitions\<close>

subsection \<open>IP addresses\<close>

text \<open>Readers take a value from the front of the text and return the rest.\<close>

datatype ip_addr = V4 nat nat nat nat | V6 "u16 list"

definition digit_value :: "nat \<Rightarrow> char \<Rightarrow> nat option" where
  "digit_value radix ch =
     (let n = of_char ch :: nat;
          v = (if 48 \<le> n \<and> n \<le> 57 then n - 48 else if 97 \<le> n \<and> n \<le> 122 then n - 87 else if 65 \<le> n \<and> n \<le> 90 then n - 55 else 99)
      in if v < radix then Some v else None)"

fun read_digits :: "nat \<Rightarrow> nat option \<Rightarrow> nat \<Rightarrow> nat \<Rightarrow> nat \<Rightarrow> string \<Rightarrow> (nat \<times> nat \<times> string) option" where
  "read_digits radix max_digits bound n acc [] = Some (n, acc, [])"
| "read_digits radix max_digits bound n acc (c # cs) = (case digit_value radix c of
       None \<Rightarrow> Some (n, acc, c # cs)
     | Some d \<Rightarrow> if acc * radix + d \<ge> bound \<or> (case max_digits of Some m \<Rightarrow> Suc n > m | None \<Rightarrow> False) then None
                else read_digits radix max_digits bound (Suc n) (acc * radix + d) cs)"

definition read_number :: "nat \<Rightarrow> nat option \<Rightarrow> nat \<Rightarrow> bool \<Rightarrow> string \<Rightarrow> (nat \<times> string) option" where
  "read_number radix max_digits bound allow_zero_prefix s = (case read_digits radix max_digits bound 0 0 s of
       None \<Rightarrow> None
     | Some (n, v, rest) \<Rightarrow>
         if n = 0 then None
         else if \<not> allow_zero_prefix \<and> take 1 s = ''0'' \<and> n > 1 then None
         else Some (v, rest))"

definition read_given_char :: "char \<Rightarrow> string \<Rightarrow> string option" where
  "read_given_char c s = (case s of [] \<Rightarrow> None | x # xs \<Rightarrow> if x = c then Some xs else None)"

definition read_separator :: "char \<Rightarrow> nat \<Rightarrow> (string \<Rightarrow> 'a option) \<Rightarrow> string \<Rightarrow> 'a option" where
  "read_separator sep i inner s = (if i > 0 then (case read_given_char sep s of None \<Rightarrow> None | Some r \<Rightarrow> inner r) else inner s)"

definition read_octet :: "nat \<Rightarrow> string \<Rightarrow> (nat \<times> string) option" where
  "read_octet i s = read_separator (CHR ''.'') i (read_number 10 (Some 3) 256 False) s"

definition read_ipv4 :: "string \<Rightarrow> ((nat \<times> nat \<times> nat \<times> nat) \<times> string) option" where
  "read_ipv4 s =
     (case read_octet 0 s of None \<Rightarrow> None | Some (a, s) \<Rightarrow>
      (case read_octet 1 s of None \<Rightarrow> None | Some (b, s) \<Rightarrow>
       (case read_octet 2 s of None \<Rightarrow> None | Some (c, s) \<Rightarrow>
        (case read_octet 3 s of None \<Rightarrow> None | Some (d, s) \<Rightarrow> Some ((a, b, c, d), s)))))"

text \<open>At most \<open>r\<close> groups of an IPv6 address, from the one with number \<open>i\<close> on, and whether they end with an IPv4 address.\<close>

primrec read_groups :: "nat \<Rightarrow> nat \<Rightarrow> string \<Rightarrow> u16 list \<times> bool \<times> string" where
  "read_groups 0 i s = ([], False, s)"
| "read_groups (Suc r) i s = (case (if r > 0 then read_separator (CHR '':'') i read_ipv4 s else None) of
       Some ((a, b, c, d), s') \<Rightarrow> ([of_nat (a * 256 + b), of_nat (c * 256 + d)], True, s')
     | None \<Rightarrow> (case read_separator (CHR '':'') i (read_number 16 (Some 4) 65536 True) s of
           None \<Rightarrow> ([], False, s)
         | Some (g, s') \<Rightarrow> (case read_groups r (Suc i) s' of (gs, v4, s'') \<Rightarrow> (of_nat g # gs, v4, s''))))"

definition read_ipv6 :: "string \<Rightarrow> (u16 list \<times> string) option" where
  "read_ipv6 s = (case read_groups 8 0 s of (hd_groups, hd_ipv4, s1) \<Rightarrow>
     if length hd_groups = 8 then Some (hd_groups, s1)
     else if hd_ipv4 then None
     else case read_given_char (CHR '':'') s1 of None \<Rightarrow> None | Some s2 \<Rightarrow>
       (case read_given_char (CHR '':'') s2 of None \<Rightarrow> None | Some s3 \<Rightarrow>
         (case read_groups (8 - (length hd_groups + 1)) 0 s3 of (tl_groups, _, s4) \<Rightarrow>
            Some (hd_groups @ replicate (8 - length hd_groups - length tl_groups) 0 @ tl_groups, s4))))"

definition parse_ip :: "string \<Rightarrow> ip_addr option" where
  "parse_ip s = (case read_ipv4 s of
       Some ((a, b, c, d), rest) \<Rightarrow> if rest = [] then Some (V4 a b c d) else None
     | None \<Rightarrow> (case read_ipv6 s of
           Some (gs, rest) \<Rightarrow> if rest = [] then Some (V6 gs) else None
         | None \<Rightarrow> None))"

definition private_addr :: "ip_addr \<Rightarrow> bool" where
  "private_addr ip = (case ip of
       V4 a b c d \<Rightarrow> a = 10 \<or> a = 172 \<and> 16 \<le> b \<and> b \<le> 31 \<or> a = 192 \<and> b = 168 \<or> a = 127 \<or> a = 169 \<and> b = 254
     | V6 gs \<Rightarrow> gs = [0, 0, 0, 0, 0, 0, 0, 1] \<or> hd gs AND 0xffc0 = 0xfe80)"

definition strip_brackets :: "string \<Rightarrow> string" where
  "strip_brackets h = (if starts_with h ''['' \<and> ends_with_char h (CHR '']'') then take (length h - 2) (drop 1 h) else h)"

definition is_private_ip :: "string \<Rightarrow> bool" where
  "is_private_ip h = (let host_clean = strip_brackets h in
     (case parse_ip host_clean of Some ip \<Rightarrow> private_addr ip | None \<Rightarrow> False) \<or> to_lowercase host_clean = ''localhost'')"

definition is_dangerous_header :: "string \<Rightarrow> bool" where
  "is_dangerous_header name = (to_lowercase name \<in> {''host'', ''content-length'', ''transfer-encoding''})"

subsection \<open>The client\<close>

datatype http_client_error =
    InvalidUrl string | PrivateIpBlocked | Network string | HcTimeout nat | TooManyRedirects usize | BlockedHeader string
  | ResponseTooLarge usize | Tls string

datatype request_body = NoBody | FixedBody bytes | StreamingBody "string option"

definition is_streaming :: "request_body \<Rightarrow> bool" where
  "is_streaming b = (case b of StreamingBody _ \<Rightarrow> True | _ \<Rightarrow> False)"

definition rb_content_length :: "request_body \<Rightarrow> nat option" where
  "rb_content_length b = (case b of FixedBody bs \<Rightarrow> Some (length bs) | _ \<Rightarrow> None)"

definition rb_content_type :: "request_body \<Rightarrow> string option" where
  "rb_content_type b = (case b of StreamingBody t \<Rightarrow> t | _ \<Rightarrow> None)"

record streaming_config =
  sc_max_size :: usize
  sc_timeout_secs :: nat
  sc_max_concurrent :: usize
  sc_chunk_buffer_size :: usize

definition default_streaming_config :: streaming_config where
  "default_streaming_config = \<lparr>sc_max_size = 100 * 1024 * 1024, sc_timeout_secs = 30, sc_max_concurrent = 10, sc_chunk_buffer_size = 4\<rparr>"

record uri =
  uri_scheme :: "string option"
  uri_host :: "string option"

record http_call =
  hc_method :: string
  hc_url :: string
  hc_headers :: "(string \<times> string) list"
  hc_body :: "bytes option"

datatype network_error = NetTimeout string | NetOther string

text \<open>What the network answers; a header value is text or not, the body can be read or not.\<close>

record net_response =
  nr_status :: u16
  nr_url :: string
  nr_headers :: "(string \<times> string option) list"
  nr_content_length :: "u64 option"
  nr_body :: "string + bytes"

text \<open>The libraries: URIs, methods, requests that can be built, and sending one.\<close>

record http_lib =
  lib_parse_uri :: "string \<Rightarrow> string + uri"
  lib_method :: "string \<Rightarrow> string + unit"
  lib_build :: "http_call \<Rightarrow> string + unit"
  lib_execute :: "http_call \<Rightarrow> network_error + net_response"

record http_client =
  cl_timeout_secs :: nat
  cl_max_response_size :: usize

definition http_client_new :: http_client where
  "http_client_new = \<lparr>cl_timeout_secs = 30, cl_max_response_size = 100 * 1024 * 1024\<rparr>"

definition http_client_with_timeout :: "nat \<Rightarrow> http_client" where
  "http_client_with_timeout n = http_client_new\<lparr>cl_timeout_secs := n\<rparr>"

record http_client_response =
  hr_status :: u16
  hr_headers :: "(string \<times> string) list"
  hr_body :: "bytes option"
  hr_url :: string

definition readable_headers :: "(string \<times> string option) list \<Rightarrow> (string \<times> string) list" where
  "readable_headers hs = List.map_filter (\<lambda>(n, v). map_option (Pair n) v) hs"

text \<open>The checks before anything is sent.\<close>

definition check_request :: "http_lib \<Rightarrow> string \<Rightarrow> (string \<times> string) list option \<Rightarrow> http_client_error + unit" where
  "check_request lib target headers = (case lib_parse_uri lib target of
       Inl e \<Rightarrow> Inl (InvalidUrl e)
     | Inr u \<Rightarrow>
         (let scheme = (case uri_scheme u of Some s \<Rightarrow> s | None \<Rightarrow> ''http'')
          in if scheme \<notin> {''http'', ''https''}
             then Inl (InvalidUrl (''Unsupported scheme: '' @ scheme @ '' (only http/https allowed)''))
             else if (case uri_host u of Some h \<Rightarrow> is_private_ip h | None \<Rightarrow> False) then Inl PrivateIpBlocked
             else case List.find (\<lambda>(n, _). is_dangerous_header n) (case headers of Some hs \<Rightarrow> hs | None \<Rightarrow> []) of
                 Some (n, _) \<Rightarrow> Inl (BlockedHeader n)
               | None \<Rightarrow> Inr ()))"

definition read_body :: "http_client \<Rightarrow> net_response \<Rightarrow> http_client_error + bytes" where
  "read_body c r = (case nr_content_length r of
       Some n \<Rightarrow> if n > cl_max_response_size c then Inl (ResponseTooLarge (cl_max_response_size c))
         else (case nr_body r of Inl e \<Rightarrow> Inl (Network (''Failed to read body: '' @ e)) | Inr bs \<Rightarrow> Inr bs)
     | None \<Rightarrow> (case nr_body r of
           Inl e \<Rightarrow> Inl (Network (''Failed to read body: '' @ e))
         | Inr bs \<Rightarrow> if length bs > unat (cl_max_response_size c) then Inl (ResponseTooLarge (cl_max_response_size c)) else Inr bs))"

definition receive_response :: "http_client \<Rightarrow> net_response \<Rightarrow> http_client_error + http_client_response" where
  "receive_response c r = bind_res (read_body c r) (\<lambda>body.
     Inr \<lparr>hr_status = nr_status r, hr_headers = readable_headers (nr_headers r), hr_body = Some body, hr_url = nr_url r\<rparr>)"

text \<open>The result, and the calls that were sent.\<close>

definition client_request ::
  "http_lib \<Rightarrow> http_client \<Rightarrow> string \<Rightarrow> string \<Rightarrow> (string \<times> string) list option \<Rightarrow> bytes option
     \<Rightarrow> (http_client_error + http_client_response) \<times> http_call list" where
  "client_request lib c meth target headers body = (case check_request lib target headers of
       Inl e \<Rightarrow> (Inl e, [])
     | Inr _ \<Rightarrow> (case lib_method lib meth of
         Inl e \<Rightarrow> (Inl (InvalidUrl (''Invalid method: '' @ e)), [])
       | Inr _ \<Rightarrow>
           (let call = \<lparr>hc_method = meth, hc_url = target, hc_headers = (case headers of Some hs \<Rightarrow> hs | None \<Rightarrow> []), hc_body = body\<rparr>
            in case lib_build lib call of
                 Inl e \<Rightarrow> (Inl (Network (''Failed to build request: '' @ e)), [])
               | Inr _ \<Rightarrow> (case lib_execute lib call of
                     Inl (NetTimeout _) \<Rightarrow> (Inl (HcTimeout (cl_timeout_secs c)), [call])
                   | Inl (NetOther e) \<Rightarrow> (Inl (Network (''Request failed: '' @ e)), [call])
                   | Inr r \<Rightarrow> (receive_response c r, [call])))))"

definition client_get :: "http_lib \<Rightarrow> http_client \<Rightarrow> string \<Rightarrow> (http_client_error + http_client_response) \<times> http_call list" where
  "client_get lib c target = client_request lib c ''GET'' target None None"

definition client_post ::
  "http_lib \<Rightarrow> http_client \<Rightarrow> string \<Rightarrow> (string \<times> string) list option \<Rightarrow> bytes option
     \<Rightarrow> (http_client_error + http_client_response) \<times> http_call list" where
  "client_post lib c target headers body = client_request lib c ''POST'' target headers body"

subsection \<open>Fetch\<close>

record fetch_state =
  fs_abort_signals :: "u64 \<rightharpoonup> bool"
  fs_next_abort_id :: u64

definition fetch_state_new :: fetch_state where
  "fetch_state_new = \<lparr>fs_abort_signals = Map.empty, fs_next_abort_id = 1\<rparr>"

definition register_abort_signal :: "fetch_state \<Rightarrow> u64 \<times> fetch_state" where
  "register_abort_signal s =
     (let i = fs_next_abort_id s in (i, s\<lparr>fs_next_abort_id := i + 1, fs_abort_signals := (fs_abort_signals s)(i \<mapsto> False)\<rparr>))"

definition fetch_abort :: "u64 \<Rightarrow> fetch_state \<Rightarrow> fetch_state" where
  "fetch_abort i s = (case fs_abort_signals s i of Some _ \<Rightarrow> s\<lparr>fs_abort_signals := (fs_abort_signals s)(i \<mapsto> True)\<rparr> | None \<Rightarrow> s)"

definition fetch_is_aborted :: "u64 \<Rightarrow> fetch_state \<Rightarrow> bool" where
  "fetch_is_aborted i s = (case fs_abort_signals s i of Some b \<Rightarrow> b | None \<Rightarrow> True)"

text \<open>The arguments of a call as text: the address, if there is one, and the options. The method is in upper case.\<close>

record fetch_options =
  fo_method :: string
  fo_headers :: "(string \<times> string) list"
  fo_body :: "bytes option"

definition default_fetch_options :: fetch_options where
  "default_fetch_options = \<lparr>fo_method = ''GET'', fo_headers = [], fo_body = None\<rparr>"

definition scheme_not_allowed :: "string \<Rightarrow> bool" where
  "scheme_not_allowed target = (starts_with target ''file://'' \<or> starts_with target ''ftp://'' \<or> starts_with target ''javascript:'')"

record fetch_response =
  fr_status :: u16
  fr_ok :: bool
  fr_status_text :: string
  fr_url :: string
  fr_headers :: "(string \<times> string) list"
  fr_body :: bytes

definition fetch_send :: "http_lib \<Rightarrow> http_call \<Rightarrow> (string + net_response) \<times> http_call list" where
  "fetch_send lib call = (case lib_build lib call of
       Inl e \<Rightarrow> (Inl (''Request failed: '' @ e), [])
     | Inr _ \<Rightarrow> (case lib_execute lib call of
           Inl (NetTimeout e) \<Rightarrow> (Inl (''Request failed: '' @ e), [call])
         | Inl (NetOther e) \<Rightarrow> (Inl (''Request failed: '' @ e), [call])
         | Inr r \<Rightarrow> (Inr r, [call])))"

definition fetch_object :: "net_response \<Rightarrow> bytes \<Rightarrow> fetch_response" where
  "fetch_object r body =
     (let ok = 200 \<le> nr_status r \<and> nr_status r < 300
      in \<lparr>fr_status = nr_status r, fr_ok = ok, fr_status_text = (if ok then ''OK'' else ''Error''), fr_url = nr_url r,
          fr_headers = readable_headers (nr_headers r), fr_body = body\<rparr>)"

definition fetch ::
  "http_lib \<Rightarrow> bool \<Rightarrow> bool \<Rightarrow> string option \<Rightarrow> fetch_options \<Rightarrow> (string + fetch_response) \<times> http_call list" where
  "fetch lib has_runtime has_state arg opts = (case arg of
       None \<Rightarrow> (Inl ''fetch() requires at least 1 argument'', [])
     | Some target \<Rightarrow>
         if scheme_not_allowed target then (Inl (''URL scheme not allowed: '' @ (case find_sub ''://'' target of Some i \<Rightarrow> take i target | None \<Rightarrow> target)), [])
         else if \<not> has_runtime then (Inl ''No Tokio runtime available. fetch() must be called from a worker thread.'', [])
         else if \<not> has_state then (Inl ''Fetch state not initialized'', [])
         else let meth = (if is_ok (lib_method lib (fo_method opts)) then fo_method opts else ''GET'') in
           case fetch_send lib \<lparr>hc_method = meth, hc_url = target, hc_headers = fo_headers opts, hc_body = fo_body opts\<rparr> of
             (Inl e, sent) \<Rightarrow> (Inl e, sent)
           | (Inr r, sent) \<Rightarrow> (case nr_body r of
                 Inl e \<Rightarrow> (Inl (''Failed to read response body: '' @ e), sent)
               | Inr body \<Rightarrow> (Inr (fetch_object r body), sent)))"

subsection \<open>The listener's address\<close>

record server_config =
  sv_port :: u16
  sv_host :: string
  sv_routes :: "(string \<times> string) list"

definition example_routes :: "(string \<times> string) list" where
  "example_routes = [(''api.example.com'', ''api''), (''blog.example.com'', ''blog'')]"

definition server_config_default :: server_config where
  "server_config_default = \<lparr>sv_port = 8080, sv_host = ''0.0.0.0'', sv_routes = example_routes\<rparr>"

definition read_port :: "string \<Rightarrow> (nat \<times> string) option" where
  "read_port s = (case read_given_char (CHR '':'') s of None \<Rightarrow> None | Some r \<Rightarrow> read_number 10 None 65536 True r)"

definition read_scope_id :: "string \<Rightarrow> (nat \<times> string) option" where
  "read_scope_id s = (case read_given_char (CHR ''%'') s of None \<Rightarrow> None | Some r \<Rightarrow> read_number 10 None (2 ^ 32) True r)"

datatype socket_address = SocketV4 nat nat nat nat nat | SocketV6 "u16 list" nat nat

definition read_socket_v4 :: "string \<Rightarrow> (socket_address \<times> string) option" where
  "read_socket_v4 s = (case read_ipv4 s of None \<Rightarrow> None | Some ((a, b, c, d), r) \<Rightarrow>
     (case read_port r of None \<Rightarrow> None | Some (n, r') \<Rightarrow> Some (SocketV4 a b c d n, r')))"

definition read_socket_v6 :: "string \<Rightarrow> (socket_address \<times> string) option" where
  "read_socket_v6 s = (case read_given_char (CHR ''['') s of None \<Rightarrow> None | Some s1 \<Rightarrow>
     (case read_ipv6 s1 of None \<Rightarrow> None | Some (gs, s2) \<Rightarrow>
       (case (case read_scope_id s2 of Some (i, s') \<Rightarrow> (i, s') | None \<Rightarrow> (0, s2)) of (scope_id, s3) \<Rightarrow>
         (case read_given_char (CHR '']'') s3 of None \<Rightarrow> None | Some s4 \<Rightarrow>
           (case read_port s4 of None \<Rightarrow> None | Some (n, s5) \<Rightarrow> Some (SocketV6 gs scope_id n, s5))))))"

definition parse_socket_addr :: "string \<Rightarrow> socket_address option" where
  "parse_socket_addr s = (case (case read_socket_v4 s of Some r \<Rightarrow> Some r | None \<Rightarrow> read_socket_v6 s) of
       Some (a, rest) \<Rightarrow> if rest = [] then Some a else None
     | None \<Rightarrow> None)"

definition socket_addr_text :: "server_config \<Rightarrow> string" where
  "socket_addr_text c =
     (if CHR '':'' \<in> set (sv_host c) then ''['' @ sv_host c @ '']:'' @ show_nat (unat (sv_port c))
      else sv_host c @ '':'' @ show_nat (unat (sv_port c)))"

definition socket_addr :: "server_config \<Rightarrow> string + socket_address" where
  "socket_addr c = (case parse_socket_addr (socket_addr_text c) of
       Some a \<Rightarrow> Inr a
     | None \<Rightarrow> Inl (''Failed to parse socket address: '' @ socket_addr_text c))"

text \<open>\<^verbatim>\<open>str::parse::<u16>\<close>: decimal digits after an optional sign.\<close>

definition parse_u16 :: "string \<Rightarrow> u16 option" where
  "parse_u16 s =
     (let digits = (if starts_with s ''+'' then drop 1 s else s)
      in case read_number 10 None 65536 True digits of Some (n, []) \<Rightarrow> Some (of_nat n) | _ \<Rightarrow> None)"

text \<open>The two variables of the environment, where they are set to text.\<close>

definition server_config_from_env :: "string option \<Rightarrow> string option \<Rightarrow> string + server_config" where
  "server_config_from_env nano_port nano_host =
     bind_res (case nano_port of
         None \<Rightarrow> Inr 8080
       | Some s \<Rightarrow> (case parse_u16 s of Some n \<Rightarrow> Inr n | None \<Rightarrow> Inl (''NANO_PORT must be a valid port number, got: '' @ s)))
       (\<lambda>n. Inr \<lparr>sv_port = n, sv_host = (case nano_host of Some h \<Rightarrow> h | None \<Rightarrow> ''0.0.0.0''), sv_routes = example_routes\<rparr>)"

definition server_config_of_section :: "server_config_section \<Rightarrow> server_config" where
  "server_config_of_section x = \<lparr>sv_port = port x, sv_host = host x, sv_routes = []\<rparr>"

subsection \<open>Specification vocabulary\<close>

text \<open>A text that does not go on with a digit.\<close>

definition no_digit :: "string \<Rightarrow> bool" where
  "no_digit r = (case r of [] \<Rightarrow> True | c # _ \<Rightarrow> digit_value 10 c = None)"

definition show_ipv4 :: "nat \<Rightarrow> nat \<Rightarrow> nat \<Rightarrow> nat \<Rightarrow> string" where
  "show_ipv4 a b c d = show_nat a @ ''.'' @ show_nat b @ ''.'' @ show_nat c @ ''.'' @ show_nat d"

definition example_lib :: http_lib where
  "example_lib = \<lparr>lib_parse_uri = (\<lambda>u. Inr \<lparr>uri_scheme = Some ''http'', uri_host = Some (takeWhile (\<lambda>c. c \<noteq> CHR ''/'') (drop 7 u))\<rparr>),
     lib_method = (\<lambda>_. Inr ()), lib_build = (\<lambda>_. Inr ()),
     lib_execute = (\<lambda>c. Inr \<lparr>nr_status = 200, nr_url = hc_url c, nr_headers = [], nr_content_length = Some 2, nr_body = Inr [1, 2]\<rparr>)\<rparr>"

section \<open>Lemmas\<close>

lemma digit_value_digit: "d < 10 \<Longrightarrow> digit_value 10 (char_of (48 + d)) = Some d"
  by (simp add: digit_value_def Let_def)

lemma read_digits_show_nat:
  assumes "n < bound" "case m of Some j \<Rightarrow> k + length (show_nat n) \<le> j | None \<Rightarrow> True"
  shows "read_digits 10 m bound k 0 (show_nat n @ r) = read_digits 10 m bound (k + length (show_nat n)) n r"
  using assms
proof (induction n arbitrary: r rule: show_nat.induct)
  case (1 n)
  show ?case
  proof (cases "n < 10")
    case True
    then show ?thesis using 1(2,3) digit_value_digit [of n] by (auto simp: show_nat.simps [of n] split: option.split option.splits)
  next
    case False
    let ?q = "n div 10" and ?d = "n mod 10"
    have s: "show_nat n = show_nat ?q @ [char_of (48 + ?d)]" using False by (simp add: show_nat.simps [of n])
    have "read_digits 10 m bound k 0 (show_nat n @ r) = read_digits 10 m bound (k + length (show_nat ?q)) ?q (char_of (48 + ?d) # r)"
      unfolding s using 1(1) [OF False, of "char_of (48 + ?d) # r"] 1(2,3) s by (auto split: option.splits)
    moreover have "?q * 10 + ?d = n" by simp
    ultimately show ?thesis using digit_value_digit [of ?d] 1(2,3) s by (auto split: option.splits)
  qed
qed

lemma show_nat_nonempty: "show_nat n \<noteq> []"
  by (subst show_nat.simps) simp

lemma show_nat_zero: "take 1 (show_nat n) = ''0'' \<Longrightarrow> n = 0"
proof (induction n rule: show_nat.induct)
  case (1 n)
  show ?case
  proof (cases "n < 10")
    case True
    then have "char_of (48 + n) = CHR ''0''" using 1(2) by (simp add: show_nat.simps [of n])
    then have "(of_char (char_of (48 + n) :: char) :: nat) = 48" by simp
    then show ?thesis using True by simp
  next
    case False
    then have "take 1 (show_nat (n div 10)) = ''0''" using 1(2) show_nat_nonempty [of "n div 10"]
      by (cases "show_nat (n div 10)") (simp_all add: show_nat.simps [of n])
    then show ?thesis using 1(1) [OF False] False by simp
  qed
qed

lemma show_nat_length: "n < 10 ^ Suc k \<Longrightarrow> length (show_nat n) \<le> Suc k"
proof (induction k arbitrary: n)
  case 0 then show ?case by (subst show_nat.simps) simp
next
  case (Suc k)
  show ?case
  proof (cases "n < 10")
    case True then show ?thesis by (subst show_nat.simps) simp
  next
    case False
    have "length (show_nat (n div 10)) \<le> Suc k" using Suc.prems by (intro Suc.IH) (simp add: less_mult_imp_div_less)
    then show ?thesis using False by (subst show_nat.simps) simp
  qed
qed

lemma read_digits_stop: "no_digit r \<Longrightarrow> read_digits 10 m bound k n r = Some (k, n, r)"
  by (cases r) (simp_all add: no_digit_def)

lemma read_number_show_nat:
  assumes "n < bound" "case m of Some j \<Rightarrow> length (show_nat n) \<le> j | None \<Rightarrow> True" "no_digit r"
  shows "read_number 10 m bound z (show_nat n @ r) = Some (n, r)"
proof -
  have t: "take 1 (show_nat n @ r) = take 1 (show_nat n)" using show_nat_nonempty [of n] by (cases "show_nat n") simp_all
  have z: "n = 0 \<Longrightarrow> length (show_nat n) = 1" by (simp add: show_nat.simps)
  have "read_digits 10 m bound 0 0 (show_nat n @ r) = Some (length (show_nat n), n, r)"
    using read_digits_show_nat [where n = n and bound = bound and m = m and k = 0 and r = r] assms(1,2) read_digits_stop [OF assms(3)] by (cases m) simp_all
  then show ?thesis unfolding read_number_def t using show_nat_nonempty [of n] show_nat_zero [of n] z by auto
qed

lemma read_octet_show:
  assumes "n < 256" "no_digit r"
  shows "read_octet 0 (show_nat n @ r) = Some (n, r)" "read_octet (Suc i) (''.'' @ show_nat n @ r) = Some (n, r)"
  using read_number_show_nat [of n 256 "Some 3" r False] assms show_nat_length [of n 2]
  by (simp_all add: read_octet_def read_separator_def read_given_char_def)

lemma no_digit_dot [simp]: "no_digit (CHR ''.'' # r)" "no_digit (CHR '':'' # r)" "no_digit []"
  by (simp_all add: no_digit_def digit_value_def Let_def)

lemma read_ipv4_show:
  assumes "a < 256" "b < 256" "c < 256" "d < 256" "no_digit r"
  shows "read_ipv4 (show_ipv4 a b c d @ r) = Some ((a, b, c, d), r)"
proof -
  note o = read_octet_show(1) [OF assms(1), of "''.'' @ show_nat b @ ''.'' @ show_nat c @ ''.'' @ show_nat d @ r"]
    read_octet_show(2) [OF assms(2), of "''.'' @ show_nat c @ ''.'' @ show_nat d @ r" 0]
    read_octet_show(2) [OF assms(3), of "''.'' @ show_nat d @ r" 1] read_octet_show(2) [OF assms(4) assms(5), of 2]
  show ?thesis using o by (simp add: read_ipv4_def show_ipv4_def numeral_2_eq_2 numeral_3_eq_3)
qed

lemma show_nat_chars: "c \<in> set (show_nat n) \<Longrightarrow> \<exists>d < (10 :: nat). c = char_of (48 + d)"
proof (induction n rule: show_nat.induct)
  case (1 n)
  then show ?case by (cases "n < 10") (auto simp: show_nat.simps [of n] intro: exI [of _ n] exI [of _ "n mod 10"])
qed

lemma show_nat_no_bracket: "CHR ''['' \<notin> set (show_nat n)"
proof
  assume "CHR ''['' \<in> set (show_nat n)"
  then obtain d :: nat where d: "d < 10" "CHR ''['' = char_of (48 + d)" using show_nat_chars by blast
  then have "(of_char (CHR ''['') :: nat) = of_char (char_of (48 + d) :: char)" by simp
  then show False using d(1) by simp
qed

lemma parse_ip_show:
  assumes "a < 256" "b < 256" "c < 256" "d < 256"
  shows "parse_ip (show_ipv4 a b c d) = Some (V4 a b c d)"
  using read_ipv4_show [OF assms no_digit_dot(3)] by (simp add: parse_ip_def)

lemma strip_show_ipv4:
  "strip_brackets (show_ipv4 a b c d) = show_ipv4 a b c d" "strip_brackets (''['' @ show_ipv4 a b c d @ '']'') = show_ipv4 a b c d"
proof -
  have "CHR ''['' \<notin> set (show_ipv4 a b c d)" using show_nat_no_bracket by (simp add: show_ipv4_def)
  then show "strip_brackets (show_ipv4 a b c d) = show_ipv4 a b c d"
    by (cases "show_ipv4 a b c d") (auto simp: strip_brackets_def starts_with_def)
  show "strip_brackets (''['' @ show_ipv4 a b c d @ '']'') = show_ipv4 a b c d"
    by (simp add: strip_brackets_def starts_with_def ends_with_char_def)
qed

text \<open>Evaluation of the readers on concrete text.\<close>

lemmas read_groups_eval = read_groups.simps(2) [of 0, simplified] read_groups.simps(2) [of 1, simplified] read_groups.simps(2) [of 2, simplified]
  read_groups.simps(2) [of 3, simplified] read_groups.simps(2) [of 4, simplified] read_groups.simps(2) [of 5, simplified]
  read_groups.simps(2) [of 6, simplified] read_groups.simps(2) [of 7, simplified]

lemmas parse_eval = parse_ip_def read_ipv4_def read_octet_def read_ipv6_def read_groups_eval read_separator_def read_given_char_def
  read_number_def digit_value_def private_addr_def

lemma find_member: "List.find P xs = Some x \<Longrightarrow> x \<in> set xs \<and> P x"
  by (induction xs) (auto split: if_splits)

lemma check_request_ok:
  "check_request lib u hs = Inr () \<longleftrightarrow>
     (\<exists>x. lib_parse_uri lib u = Inr x \<and> uri_scheme x \<in> {None, Some ''http'', Some ''https''}
        \<and> (\<forall>h. uri_host x = Some h \<longrightarrow> \<not> is_private_ip h)
        \<and> (\<forall>l n v. hs = Some l \<and> (n, v) \<in> set l \<longrightarrow> \<not> is_dangerous_header n))"
  by (auto simp: check_request_def Let_def find_None_iff dest!: find_member split: sum.splits option.splits if_splits)

section \<open>Properties\<close>

text \<open>
  The check for private hosts is exact on IPv4 addresses in the usual notation, plain or in brackets: it blocks exactly the
  networks 10/8, 172.16/12, 192.168/16, 127/8 and 169.254/16.
\<close>

theorem private_ipv4_exact:
  assumes "a < 256" "b < 256" "c < 256" "d < 256" "h = show_ipv4 a b c d \<or> h = ''['' @ show_ipv4 a b c d @ '']''"
  shows "is_private_ip h \<longleftrightarrow>
    a = 10 \<or> a = 127 \<or> a = 172 \<and> b div 16 = 1 \<or> a = 192 \<and> b = 168 \<or> a = 169 \<and> b = 254"
proof -
  have "CHR ''.'' \<in> set (show_ipv4 a b c d)" by (simp add: show_ipv4_def)
  then have "lower_char (CHR ''.'') \<in> set (to_lowercase (show_ipv4 a b c d))" unfolding to_lowercase_def set_map by (rule imageI)
  then have "to_lowercase (show_ipv4 a b c d) \<noteq> ''localhost''" by (auto simp: lower_char_def)
  moreover have "strip_brackets h = show_ipv4 a b c d" using assms(5) strip_show_ipv4 by blast
  ultimately have "is_private_ip h \<longleftrightarrow> private_addr (V4 a b c d)" by (simp add: is_private_ip_def parse_ip_show [OF assms(1-4)])
  moreover have "16 \<le> b \<and> b \<le> 31 \<longleftrightarrow> b div 16 = 1" by presburger
  ultimately show ?thesis by (auto simp: private_addr_def)
qed

theorem private_ipv4_exact_witness:
  "is_private_ip (show_ipv4 172 31 0 255) \<and> \<not> is_private_ip (''['' @ show_ipv4 172 32 0 1 @ '']'')"
  using private_ipv4_exact [of 172 31 0 255 "show_ipv4 172 31 0 255"] private_ipv4_exact [of 172 32 0 1 "''['' @ show_ipv4 172 32 0 1 @ '']''"] by simp

text \<open>
  The client sends nothing that fails its checks. A call goes out only if its address parses with scheme http, https or none, its host
  is not private and no header is one the client must control; it then goes out once, as given. A response is returned
  only if its body is within the limit, given that a declared length is the length of the body.
\<close>

theorem client_request_guarded:
  assumes "client_request lib c m u hs b = (r, sent)"
    "\<And>call x n bs. lib_execute lib call = Inr x \<Longrightarrow> nr_content_length x = Some n \<Longrightarrow> nr_body x = Inr bs \<Longrightarrow> length bs = unat n"
  shows "(sent \<noteq> [] \<longrightarrow> sent = [\<lparr>hc_method = m, hc_url = u, hc_headers = (case hs of Some l \<Rightarrow> l | None \<Rightarrow> []), hc_body = b\<rparr>]
      \<and> (\<exists>x. lib_parse_uri lib u = Inr x \<and> uri_scheme x \<in> {None, Some ''http'', Some ''https''} \<and> (\<forall>h. uri_host x = Some h \<longrightarrow> \<not> is_private_ip h))
      \<and> (\<forall>l n v. hs = Some l \<and> (n, v) \<in> set l \<longrightarrow> to_lowercase n \<notin> {''host'', ''content-length'', ''transfer-encoding''}))
    \<and> (sent = [] \<longrightarrow> \<not> is_ok r)
    \<and> (\<forall>x. r = Inr x \<longrightarrow> (\<exists>bs. hr_body x = Some bs \<and> length bs \<le> unat (cl_max_response_size c)))"
proof -
  have lim: "length bs \<le> unat (cl_max_response_size c)"
    if "lib_execute lib call = Inr x" "receive_response c x = Inr y" "hr_body y = Some bs" for call x y bs
    using that assms(2) [OF that(1)]
    by (auto simp: receive_response_def read_body_def bind_res_def word_less_nat_alt not_less split: option.splits sum.splits if_splits)
  have some: "\<exists>bs. hr_body y = Some bs" if "receive_response c x = Inr y" for x y
    using that by (auto simp: receive_response_def bind_res_def split: sum.splits)
  show ?thesis
  proof (cases "check_request lib u hs")
    case (Inl e) then show ?thesis using assms(1) by (auto simp: client_request_def)
  next
    case (Inr v)
    then have ok: "check_request lib u hs = Inr ()" by simp
    from ok check_request_ok [of lib u hs] assms(1) show ?thesis
      by (auto simp: client_request_def Let_def is_dangerous_header_def dest: lim some split: sum.splits network_error.splits) (use lim some in blast)+
  qed
qed

theorem client_request_guarded_witness:
  "snd (client_request example_lib http_client_new ''GET'' ''http://93.184.216.34/'' None None)
     = [\<lparr>hc_method = ''GET'', hc_url = ''http://93.184.216.34/'', hc_headers = [], hc_body = None\<rparr>]
   \<and> fst (client_request example_lib http_client_new ''GET'' ''http://127.0.0.1/'' None None) = Inl PrivateIpBlocked"
proof -
  obtain r sent where q: "client_request example_lib http_client_new ''GET'' ''http://93.184.216.34/'' None None = (r, sent)" by force
  have law: "\<And>call x n bs. lib_execute example_lib call = Inr x \<Longrightarrow> nr_content_length x = Some n \<Longrightarrow> nr_body x = Inr bs \<Longrightarrow> length bs = unat n"
    by (auto simp: example_lib_def)
  have "check_request example_lib ''http://93.184.216.34/'' None = Inr ()" by code_simp
  then have "sent \<noteq> []" using q by (auto simp: client_request_def example_lib_def)
  moreover have "fst (client_request example_lib http_client_new ''GET'' ''http://127.0.0.1/'' None None) = Inl PrivateIpBlocked" by code_simp
  ultimately show ?thesis using client_request_guarded [OF q law] q by simp
qed

text \<open>
  The check is a list of networks and misses the others that are local: the unspecified address, IPv4 addresses inside
  IPv6, unique local IPv6 addresses, IPv4 addresses in the shorter notations that URLs allow, and localhost as a full name.
\<close>

theorem private_ip_missed:
  "\<not> list_ex is_private_ip [''0.0.0.0'', ''[::ffff:127.0.0.1]'', ''[::]'', ''[fc00::1]'', ''2130706433'', ''0x7f.1'', ''127.1'', ''localhost.'']
   \<and> list_all is_private_ip [''[::1]'', ''[fe80::1]'', ''127.0.0.1'', ''localhost'']"
proof -
  note e = is_private_ip_def strip_brackets_def starts_with_def ends_with_char_def parse_eval to_lowercase_def lower_char_def Let_def
  have "\<not> is_private_ip ''0.0.0.0''" by (simp add: e)
  moreover have "\<not> is_private_ip ''[::ffff:127.0.0.1]''" by (simp add: e)
  moreover have "\<not> is_private_ip ''[::]''" by (simp add: e, simp add: numeral_eq_Suc)
  moreover have "\<not> is_private_ip ''[fc00::1]''" by (simp add: e)
  moreover have "\<not> is_private_ip ''2130706433''" by (simp add: e)
  moreover have "\<not> is_private_ip ''0x7f.1''" by (simp add: e)
  moreover have "\<not> is_private_ip ''127.1''" by (simp add: e)
  moreover have "\<not> is_private_ip ''localhost.''" by (simp add: e)
  moreover have "is_private_ip ''[::1]''" by (simp add: e, simp add: numeral_eq_Suc)
  moreover have "is_private_ip ''[fe80::1]''" by (simp add: e)
  moreover have "is_private_ip ''127.0.0.1''" by (simp add: e)
  moreover have "is_private_ip ''localhost''" by (simp add: e)
  ultimately show ?thesis by simp
qed

text \<open>
  The \<^verbatim>\<open>fetch\<close> of JavaScript has none of the client's checks. Whatever the host and the headers are, a call whose address does not start
  with one of three schemes goes out as it is, if the library can build it; and the body that comes back is returned
  whatever its size.
\<close>

theorem fetch_unguarded:
  assumes "\<not> scheme_not_allowed u" "lib_method lib (fo_method opts) = Inr ()"
    "call = \<lparr>hc_method = fo_method opts, hc_url = u, hc_headers = fo_headers opts, hc_body = fo_body opts\<rparr>" "lib_build lib call = Inr ()"
  shows "snd (fetch lib True True (Some u) opts) = [call]
    \<and> (\<forall>x bs. lib_execute lib call = Inr x \<and> nr_body x = Inr bs \<longrightarrow> fst (fetch lib True True (Some u) opts) = Inr (fetch_object x bs))"
  using assms by (auto simp: fetch_def fetch_send_def is_ok_def Let_def split: sum.split network_error.split)

theorem fetch_unguarded_witness:
  "snd (fetch example_lib True True (Some ''http://127.0.0.1/'') (default_fetch_options\<lparr>fo_headers := [(''Host'', ''admin'')]\<rparr>))
     = [\<lparr>hc_method = ''GET'', hc_url = ''http://127.0.0.1/'', hc_headers = [(''Host'', ''admin'')], hc_body = None\<rparr>]"
proof -
  have "\<not> scheme_not_allowed ''http://127.0.0.1/''" by code_simp
  then show ?thesis
    using fetch_unguarded [of "''http://127.0.0.1/''" example_lib "default_fetch_options\<lparr>fo_headers := [(''Host'', ''admin'')]\<rparr>"]
    by (simp add: example_lib_def default_fetch_options_def)
qed

text \<open>
  The listener binds to an IPv4 host with any port; a host that is a name cannot be bound.
\<close>

theorem socket_addr_ipv4:
  assumes "a < 256" "b < 256" "c < 256" "d < 256" "sv_host s = show_ipv4 a b c d"
  shows "socket_addr s = Inr (SocketV4 a b c d (unat (sv_port s)))"
proof -
  have nc: "CHR '':'' \<notin> set (show_nat n)" for n
  proof
    assume "CHR '':'' \<in> set (show_nat n)"
    then obtain e :: nat where e: "e < 10" "CHR '':'' = char_of (48 + e)" using show_nat_chars by blast
    then have "(of_char (CHR '':'') :: nat) = of_char (char_of (48 + e) :: char)" by simp
    then show False using e(1) by simp
  qed
  then have t: "socket_addr_text s = show_ipv4 a b c d @ '':'' @ show_nat (unat (sv_port s))"
    using assms(5) by (simp add: socket_addr_text_def show_ipv4_def)
  have "unat (sv_port s) < 65536" using unsigned_less [of "sv_port s"] by simp
  then have "read_port ('':'' @ show_nat (unat (sv_port s))) = Some (unat (sv_port s), [])"
    using read_number_show_nat [of "unat (sv_port s)" 65536 None "[]" True] by (simp add: read_port_def read_given_char_def)
  then have "parse_socket_addr (socket_addr_text s) = Some (SocketV4 a b c d (unat (sv_port s)))"
    using read_ipv4_show [OF assms(1-4), of "'':'' @ show_nat (unat (sv_port s))"] unfolding t by (simp add: parse_socket_addr_def read_socket_v4_def)
  then show ?thesis by (simp add: socket_addr_def)
qed

end
