(* ===== verification/Admin_Api.thy ===== *)
theory Admin_Api
  imports App_Lifecycle Metrics_Tenant Http_Client
begin

text \<open>
  The administration API (\<^verbatim>\<open>src/src/admin/\<close>): authentication, the router with its public and protected routes, the handlers
  for applications, health, isolates and metrics, and the diagnostics. A request is its method, the decoded segments
  of its path, the key header where it is text, and the decoded body. Times are arguments: seconds and nanoseconds since
  the epoch for the clock, seconds for uptimes.
\<close>

section \<open>Definitions\<close>

subsection \<open>Authentication and configuration\<close>

record admin_auth =
  aa_api_key :: string

definition auth_validate :: "admin_auth \<Rightarrow> string \<Rightarrow> bool" where
  "auth_validate a key = (if key = [] \<or> aa_api_key a = [] then False else key = aa_api_key a)"

definition auth_is_configured :: "admin_auth \<Rightarrow> bool" where
  "auth_is_configured a = (aa_api_key a \<noteq> [])"

record auth_error =
  ae_error :: string
  ae_message :: string
  ae_code :: nat

definition auth_error_new :: "string \<Rightarrow> auth_error" where
  "auth_error_new m = \<lparr>ae_error = ''Unauthorized'', ae_message = m, ae_code = 401\<rparr>"

text \<open>The rest of the chain runs only where the result is \<open>None\<close>.\<close>

definition api_key_middleware :: "admin_auth \<Rightarrow> string option \<Rightarrow> auth_error option" where
  "api_key_middleware a key =
     (if \<not> auth_is_configured a then None
      else case key of
          Some k \<Rightarrow> if auth_validate a k then None else Some (auth_error_new ''Invalid API key'')
        | None \<Rightarrow> Some (auth_error_new ''Missing X-Admin-Key header''))"

definition api_key_middleware_forbidden :: "admin_auth \<Rightarrow> string option \<Rightarrow> auth_error option" where
  "api_key_middleware_forbidden a key = (case key of
       Some k \<Rightarrow> if auth_validate a k then None
         else Some \<lparr>ae_error = ''Forbidden'', ae_message = ''Access denied'', ae_code = 403\<rparr>
     | None \<Rightarrow> Some \<lparr>ae_error = ''Forbidden'', ae_message = ''Access denied'', ae_code = 403\<rparr>)"

record admin_config =
  ac_port :: u16
  ac_host :: string
  ac_api_key :: string
  ac_tls_cert_path :: "string option"
  ac_tls_key_path :: "string option"
  ac_unix_socket_path :: "string option"

definition admin_config_default :: admin_config where
  "admin_config_default = \<lparr>ac_port = 8889, ac_host = ''0.0.0.0'', ac_api_key = [], ac_tls_cert_path = None, ac_tls_key_path = None,
     ac_unix_socket_path = None\<rparr>"

definition admin_config_new :: "string \<Rightarrow> admin_config" where
  "admin_config_new key = admin_config_default\<lparr>ac_api_key := key\<rparr>"

definition admin_with_port :: "u16 \<Rightarrow> admin_config \<Rightarrow> admin_config" where
  "admin_with_port n c = c\<lparr>ac_port := n\<rparr>"

definition admin_with_host :: "string \<Rightarrow> admin_config \<Rightarrow> admin_config" where
  "admin_with_host h c = c\<lparr>ac_host := h\<rparr>"

definition admin_validate :: "admin_config \<Rightarrow> string + unit" where
  "admin_validate c = (if ac_api_key c = [] then Inl ''Admin API key is required'' else Inr ())"

definition admin_socket_addr :: "admin_config \<Rightarrow> string + socket_address" where
  "admin_socket_addr c = (case parse_socket_addr (ac_host c @ '':'' @ show_nat (unat (ac_port c))) of
       Some a \<Rightarrow> Inr a
     | None \<Rightarrow> Inl ''Failed to parse admin socket address: invalid socket address syntax'')"

text \<open>Starting the server up to its router: the listener that binds the address is a parameter.\<close>

definition start_admin_server :: "(socket_address \<Rightarrow> string + unit) \<Rightarrow> admin_config \<Rightarrow> string + admin_auth" where
  "start_admin_server listen c =
     bind_res (admin_validate c) (\<lambda>_.
     bind_res (admin_socket_addr c) (\<lambda>addr.
     bind_res (listen addr) (\<lambda>_. Inr \<lparr>aa_api_key = ac_api_key c\<rparr>)))"

subsection \<open>Time stamps\<close>

definition pad_zero :: "nat \<Rightarrow> nat \<Rightarrow> string" where
  "pad_zero w n = replicate (w - length (show_nat n)) (CHR ''0'') @ show_nat n"

definition stamp_month :: "nat \<Rightarrow> nat" where
  "stamp_month secs = (secs mod 31536000) div 2592000 + 1"

definition current_timestamp :: "nat \<Rightarrow> nat \<Rightarrow> string" where
  "current_timestamp secs nanos =
     show_nat (1970 + secs div 31536000) @ ''-'' @ pad_zero 2 (stamp_month secs) @ ''-''
     @ pad_zero 2 ((secs mod 2592000) div 86400 + 1) @ ''T'' @ pad_zero 2 ((secs mod 86400) div 3600) @ '':''
     @ pad_zero 2 ((secs mod 3600) div 60) @ '':'' @ pad_zero 2 (secs mod 60) @ ''.'' @ pad_zero 3 (nanos div 1000000) @ ''Z''"

definition format_duration :: "nat \<Rightarrow> string" where
  "format_duration secs =
     (if secs < 60 then show_nat secs @ ''s''
      else if secs < 3600 then show_nat (secs div 60) @ ''m '' @ show_nat (secs mod 60) @ ''s''
      else show_nat (secs div 3600) @ ''h '' @ show_nat ((secs mod 3600) div 60) @ ''m'')"

subsection \<open>Applications\<close>

datatype app_status = Pending | Active | Disabled

record app_info =
  ai_hostname :: string
  ai_entrypoint :: string
  ai_env_vars :: "(string \<times> string) list"
  ai_limits :: app_limits
  ai_status :: app_status
  ai_created_at :: string
  ai_is_active :: bool

definition config_to_info :: "app_config \<Rightarrow> app_status \<Rightarrow> string \<Rightarrow> app_info" where
  "config_to_info c st ts = \<lparr>ai_hostname = hostname c, ai_entrypoint = entrypoint c, ai_env_vars = env_vars c, ai_limits = app_limits_of c,
     ai_status = st, ai_created_at = ts, ai_is_active = (st = Active)\<rparr>"

record create_app_request =
  ca_hostname :: string
  ca_entrypoint :: string
  ca_env_vars :: "(string \<times> string) list"
  ca_limits :: app_limits
  ca_activate :: bool

record update_app_request =
  ua_entrypoint :: "string option"
  ua_env_vars :: "(string \<times> string) list option"
  ua_limits :: "app_limits option"

record app_action_response =
  ar_hostname :: string
  ar_action :: string
  ar_message :: string
  ar_status :: app_status

record app_error =
  pe_error :: string
  pe_message :: string
  pe_code :: nat

definition app_not_found :: "string \<Rightarrow> app_error" where
  "app_not_found h = \<lparr>pe_error = ''NotFound'', pe_message = ''App '' @ [CHR 0x27] @ h @ [CHR 0x27] @ '' not found'', pe_code = 404\<rparr>"

definition app_validation :: "string \<Rightarrow> app_error" where
  "app_validation m = \<lparr>pe_error = ''ValidationError'', pe_message = m, pe_code = 400\<rparr>"

definition app_conflict :: "string \<Rightarrow> app_error" where
  "app_conflict m = \<lparr>pe_error = ''Conflict'', pe_message = m, pe_code = 409\<rparr>"

definition app_named :: "string \<Rightarrow> string" where
  "app_named h = ''App '' @ [CHR 0x27] @ h @ [CHR 0x27]"

definition list_apps :: "string \<Rightarrow> 's app_registry \<Rightarrow> app_info list" where
  "list_apps ts r = List.map_filter (\<lambda>h. map_option (\<lambda>c. config_to_info c Active ts) (registry_get r h)) (all_hostnames r)"

definition get_app :: "string \<Rightarrow> string \<Rightarrow> 's app_registry \<Rightarrow> app_error + app_info" where
  "get_app ts h r = (case registry_get r h of
       Some c \<Rightarrow> Inr (config_to_info c Active ts)
     | None \<Rightarrow> Inl (app_not_found h))"

definition create_config :: "create_app_request \<Rightarrow> app_config" where
  "create_config q = \<lparr>hostname = ca_hostname q, entrypoint = ca_entrypoint q, sliver = None, env_vars = ca_env_vars q,
     app_limits_of = ca_limits q, vfs_backend_of = Memory, vfs_disk = None, vfs_s3 = None\<rparr>"

definition create_app :: "host_fs \<Rightarrow> string \<Rightarrow> create_app_request \<Rightarrow> 's app_registry \<Rightarrow> app_error + (app_info \<times> string)" where
  "create_app fs ts q r =
     (if registry_contains r (ca_hostname q) then Inl (app_conflict (app_named (ca_hostname q) @ '' already exists''))
      else case mod_validate_config fs None (create_config q) of
          Inl es \<Rightarrow> Inl (app_validation (''Configuration validation failed: '' @ show_errors es))
        | Inr _ \<Rightarrow> Inr (config_to_info (create_config q) (if ca_activate q then Active else Pending) ts,
            if ca_activate q then app_named (ca_hostname q) @ '' created and activated''
            else app_named (ca_hostname q) @ '' created in pending status. Use POST /admin/apps/'' @ ca_hostname q @ ''/activate to activate.''))"

definition updated_config :: "update_app_request \<Rightarrow> app_config \<Rightarrow> app_config" where
  "updated_config q c =
     (let c = (case ua_entrypoint q of Some e \<Rightarrow> c\<lparr>entrypoint := e\<rparr> | None \<Rightarrow> c);
          c = (case ua_env_vars q of Some e \<Rightarrow> c\<lparr>env_vars := e\<rparr> | None \<Rightarrow> c)
      in case ua_limits q of Some l \<Rightarrow> c\<lparr>app_limits_of := l\<rparr> | None \<Rightarrow> c)"

definition update_app :: "host_fs \<Rightarrow> string \<Rightarrow> string \<Rightarrow> update_app_request \<Rightarrow> 's app_registry \<Rightarrow> app_error + (app_info \<times> string)" where
  "update_app fs ts h q r = (case registry_get r h of
       None \<Rightarrow> Inl (app_not_found h)
     | Some c \<Rightarrow> (case mod_validate_config fs None (updated_config q c) of
           Inl es \<Rightarrow> Inl (app_validation (''Updated configuration is invalid: '' @ show_errors es))
         | Inr _ \<Rightarrow> Inr (config_to_info (updated_config q c) Active ts, app_named h @ '' updated successfully'')))"

definition app_action :: "string \<Rightarrow> string \<Rightarrow> string \<Rightarrow> app_status \<Rightarrow> app_action_response" where
  "app_action h action m st = \<lparr>ar_hostname = h, ar_action = action, ar_message = m, ar_status = st\<rparr>"

definition delete_app :: "string \<Rightarrow> 's app_registry \<Rightarrow> app_error + app_action_response" where
  "delete_app h r = (case registry_get r h of
       None \<Rightarrow> Inl (app_not_found h)
     | Some _ \<Rightarrow> Inr (app_action h ''delete'' ''App deleted successfully'' Active))"

definition activate_app :: "string \<Rightarrow> app_action_response" where
  "activate_app h = app_action h ''activate'' ''App activated successfully'' Active"

definition disable_app :: "string \<Rightarrow> app_action_response" where
  "disable_app h = app_action h ''disable'' ''App disabled successfully'' Disabled"

definition enable_app :: "string \<Rightarrow> app_action_response" where
  "enable_app h = app_action h ''enable'' ''App enabled successfully'' Active"

definition reload_app :: "string \<Rightarrow> app_action_response" where
  "reload_app h = app_action h ''reload'' ''App reloaded successfully'' Active"

definition scale_app :: "string \<Rightarrow> usize \<Rightarrow> app_error + app_action_response" where
  "scale_app h n =
     (if n < 1 \<or> n > 32 then Inl (app_validation ''Workers must be between 1 and 32'')
      else Inr (app_action h ''scale'' (''App scaled to '' @ show_nat (unat n) @ '' workers'') Active))"

definition drain_app :: "string \<Rightarrow> app_action_response" where
  "drain_app h = app_action h ''drain'' ''App drained and disabled'' Disabled"

subsection \<open>Health and diagnostics\<close>

record ready_response =
  rr_ready :: bool
  rr_message :: string

definition ready_handler :: "nat \<times> ready_response" where
  "ready_handler = (200, \<lparr>rr_ready = True, rr_message = ''Admin API is ready''\<rparr>)"

definition ready_handler_with_state :: "bool \<Rightarrow> nat \<times> ready_response" where
  "ready_handler_with_state is_shutting_down =
     (if is_shutting_down then (503, \<lparr>rr_ready = False, rr_message = ''Server is shutting down''\<rparr>)
      else (200, \<lparr>rr_ready = True, rr_message = ''Admin API is ready''\<rparr>))"

text \<open>The time of creation as seconds before now.\<close>

record isolate_info =
  ii_hostname :: string
  ii_worker_id :: u32
  ii_age_secs :: nat
  ii_request_count :: u64
  ii_memory_bytes :: "usize option"
  ii_busy :: bool
  ii_env_keys :: "string list"

definition isolate_uptime :: "isolate_info \<Rightarrow> string" where
  "isolate_uptime i = format_duration (ii_age_secs i)"

record app_stats =
  as_hostname :: string
  as_worker_count :: u32
  as_total_requests :: u64
  as_avg_memory_mb :: f64
  as_uptime :: string
  as_memory_limit_mb :: u32
  as_timeout_secs :: u32
  as_workers :: u32

record system_diagnostics =
  sd_isolates :: "isolate_info list"
  sd_app_stats :: "app_stats list"
  sd_total_isolates :: nat
  sd_total_requests :: u64

definition worker_isolate :: "string \<Rightarrow> app_config \<Rightarrow> nat \<Rightarrow> isolate_info" where
  "worker_isolate h c w = \<lparr>ii_hostname = h, ii_worker_id = of_nat w, ii_age_secs = 60, ii_request_count = 42 + of_nat w * 10,
     ii_memory_bytes = Some (ucast (memory_mb (app_limits_of c)) * 1024 * 1024 div 4), ii_busy = (w mod 2 = 0),
     ii_env_keys = map fst (env_vars c)\<rparr>"

definition host_requests :: "string \<Rightarrow> isolate_info list \<Rightarrow> u64" where
  "host_requests h is = sum_list (map ii_request_count (filter (\<lambda>i. ii_hostname i = h) is))"

definition collect_app :: "string \<Rightarrow> app_config \<Rightarrow> isolate_info list \<times> app_stats list \<Rightarrow> isolate_info list \<times> app_stats list" where
  "collect_app h c acc = (case acc of (is, stats) \<Rightarrow>
     let l = app_limits_of c;
         is = is @ map (worker_isolate h c) [0..<unat (workers l)]
     in (is, stats @ [\<lparr>as_hostname = h, as_worker_count = workers l, as_total_requests = host_requests h is,
          as_avg_memory_mb = f_mul (f_of_nat (unat (memory_mb l))) (Fin (1 / 4)), as_uptime = format_duration 60,
          as_memory_limit_mb = memory_mb l, as_timeout_secs = timeout_secs l, as_workers = workers l\<rparr>]))"

definition diagnostics_collect :: "'s app_registry \<Rightarrow> system_diagnostics" where
  "diagnostics_collect r =
     (case fold (\<lambda>h acc. case registry_get r h of Some c \<Rightarrow> collect_app h c acc | None \<Rightarrow> acc) (all_hostnames r) ([], []) of (is, stats) \<Rightarrow>
        \<lparr>sd_isolates = is, sd_app_stats = stats, sd_total_isolates = length is, sd_total_requests = sum_list (map as_total_requests stats)\<rparr>)"

definition json_app :: "bool \<Rightarrow> app_stats \<Rightarrow> string" where
  "json_app is_last a =
     ''    {'' @ nl @ ''      '' @ quoted ''hostname'' @ '': '' @ quoted (as_hostname a) @ '','' @ nl
     @ ''      '' @ quoted ''workers'' @ '': '' @ show_nat (unat (as_worker_count a)) @ '','' @ nl
     @ ''      '' @ quoted ''total_requests'' @ '': '' @ show_nat (unat (as_total_requests a)) @ '','' @ nl
     @ ''      '' @ quoted ''memory_limit_mb'' @ '': '' @ show_nat (unat (as_memory_limit_mb a)) @ '','' @ nl
     @ ''      '' @ quoted ''timeout_secs'' @ '': '' @ show_nat (unat (as_timeout_secs a)) @ '','' @ nl
     @ ''      '' @ quoted ''uptime'' @ '': '' @ quoted (as_uptime a) @ nl
     @ (if is_last then ''    }'' else ''    },'') @ nl"

fun json_apps :: "app_stats list \<Rightarrow> string" where
  "json_apps [] = []"
| "json_apps [a] = json_app True a"
| "json_apps (a # as) = json_app False a @ json_apps as"

definition diagnostics_json :: "system_diagnostics \<Rightarrow> string" where
  "diagnostics_json d =
     ''{'' @ nl @ ''  '' @ quoted ''total_isolates'' @ '': '' @ show_nat (sd_total_isolates d) @ '','' @ nl
     @ ''  '' @ quoted ''total_requests'' @ '': '' @ show_nat (unat (sd_total_requests d)) @ '','' @ nl
     @ ''  '' @ quoted ''app_count'' @ '': '' @ show_nat (length (sd_app_stats d)) @ '','' @ nl
     @ ''  '' @ quoted ''apps'' @ '': ['' @ nl @ json_apps (sd_app_stats d) @ ''  ]'' @ nl @ ''}''"

text \<open>The cut of a byte string panics inside of a character; a continuation byte starts with the bits 10.\<close>

definition continuation_byte :: "char \<Rightarrow> bool" where
  "continuation_byte ch = (let n = of_char ch :: nat in 128 \<le> n \<and> n < 192)"

definition truncate_text :: "string \<Rightarrow> nat \<Rightarrow> string outcome" where
  "truncate_text s max_len =
     (if length s > max_len
      then if continuation_byte (s ! (max_len - 3)) then Panic else Ret (take (max_len - 3) s @ ''...'')
      else Ret s)"

record isolate_response =
  ir_hostname :: string
  ir_worker_id :: u32
  ir_created_at :: string
  ir_uptime :: string
  ir_request_count :: u64
  ir_memory_bytes :: "usize option"
  ir_busy :: bool
  ir_env_keys :: "string list"

record isolates_list_response =
  il_total_isolates :: nat
  il_total_requests :: u64
  il_app_count :: nat
  il_isolates :: "isolate_response list"
  il_apps :: "app_stats list"
  il_timestamp :: string

definition format_instant :: "nat \<Rightarrow> nat \<Rightarrow> nat \<Rightarrow> string" where
  "format_instant secs nanos age = (if age \<le> secs then current_timestamp (secs - age) nanos else ''unknown'')"

definition convert_isolate :: "nat \<Rightarrow> nat \<Rightarrow> isolate_info \<Rightarrow> isolate_response" where
  "convert_isolate secs nanos i = \<lparr>ir_hostname = ii_hostname i, ir_worker_id = ii_worker_id i,
     ir_created_at = format_instant secs nanos (ii_age_secs i), ir_uptime = isolate_uptime i, ir_request_count = ii_request_count i,
     ir_memory_bytes = ii_memory_bytes i, ir_busy = ii_busy i, ir_env_keys = ii_env_keys i\<rparr>"

definition list_isolates :: "nat \<Rightarrow> nat \<Rightarrow> 's app_registry \<Rightarrow> isolates_list_response" where
  "list_isolates secs nanos r =
     (let d = diagnostics_collect r
      in \<lparr>il_total_isolates = sd_total_isolates d, il_total_requests = sd_total_requests d, il_app_count = length (sd_app_stats d),
          il_isolates = map (convert_isolate secs nanos) (sd_isolates d), il_apps = sd_app_stats d, il_timestamp = current_timestamp secs nanos\<rparr>)"

definition get_isolates_by_hostname :: "nat \<Rightarrow> nat \<Rightarrow> string \<Rightarrow> 's app_registry \<Rightarrow> isolates_list_response" where
  "get_isolates_by_hostname secs nanos h r =
     (let d = diagnostics_collect r;
          is = map (convert_isolate secs nanos) (filter (\<lambda>i. ii_hostname i = h) (sd_isolates d));
          stats = filter (\<lambda>a. as_hostname a = h) (sd_app_stats d)
      in \<lparr>il_total_isolates = length is, il_total_requests = sum_list (map as_total_requests stats), il_app_count = length stats,
          il_isolates = is, il_apps = stats, il_timestamp = current_timestamp secs nanos\<rparr>)"

subsection \<open>Metrics\<close>

definition prometheus_metrics_handler ::
  "f64_format \<Rightarrow> nat \<Rightarrow> tenant_collector \<Rightarrow> metrics_registry \<Rightarrow> string \<times> metrics_registry" where
  "prometheus_metrics_handler ff now tc m =
     (let m' = update_uptime now m in (prometheus_export ff m' @ nl @ to_prometheus tc, m'))"

record metrics_summary_response =
  ms_total_requests :: u64
  ms_requests_per_second :: f64
  ms_uptime_seconds :: u64
  ms_tenant_count :: nat
  ms_hostnames :: "string list"
  ms_top_by_requests :: "(string \<times> u64) list"
  ms_top_by_cpu :: "(string \<times> u64) list"

definition metrics_summary :: "tenant_collector \<Rightarrow> metrics_registry \<Rightarrow> metrics_summary_response" where
  "metrics_summary tc m =
     (let uptime_secs = mr_uptime_seconds m;
          global_requests = sum_list (map snd (counter_vec_get_all (mr_requests_total m)))
      in \<lparr>ms_total_requests = global_requests,
          ms_requests_per_second = (if uptime_secs > 0 then f_div (f_of_nat (unat global_requests)) (f_of_nat (unat uptime_secs)) else Fin 0),
          ms_uptime_seconds = uptime_secs, ms_tenant_count = tenant_count tc, ms_hostnames = tenant_hostnames tc,
          ms_top_by_requests = top_tenants_by_requests 10 tc, ms_top_by_cpu = top_tenants_by_cpu 10 tc\<rparr>)"

record app_metrics_response =
  am_hostname :: string
  am_requests_total :: u64
  am_requests_success :: u64
  am_requests_error :: u64
  am_requests_timeout :: u64
  am_requests_active :: u64
  am_cpu_seconds_total :: u64
  am_memory_used_bytes :: u64
  am_memory_external_bytes :: u64
  am_memory_peak_bytes :: u64
  am_context_resets_total :: u64
  am_request_duration_p99_ms :: f64
  am_isolates_active :: u64

definition app_metrics_handler :: "string \<Rightarrow> tenant_collector \<Rightarrow> app_metrics_response option" where
  "app_metrics_handler h tc = map_option (\<lambda>m. \<lparr>am_hostname = h, am_requests_total = tm_requests_total m,
     am_requests_success = tm_requests_success m, am_requests_error = tm_requests_error m, am_requests_timeout = tm_requests_timeout m,
     am_requests_active = tm_requests_active m, am_cpu_seconds_total = tm_cpu_seconds_total m, am_memory_used_bytes = tm_memory_used_bytes m,
     am_memory_external_bytes = tm_memory_external_bytes m, am_memory_peak_bytes = tm_memory_peak_bytes m,
     am_context_resets_total = tm_context_resets_total m, am_request_duration_p99_ms = f_mul (request_duration_p99 m) (Fin 1000),
     am_isolates_active = tm_isolates_active m\<rparr>) (get_tenant h tc)"

subsection \<open>The router\<close>

datatype http_method = GET | HEAD | POST | PATCH | DELETE | OtherMethod string

datatype admin_body = NoJson | CreateBody create_app_request | UpdateBody update_app_request | ScaleBody usize

record admin_request =
  aq_method :: http_method
  aq_path :: "string list"
  aq_key :: "string option"
  aq_body :: admin_body

text \<open>The state behind the handlers: the registry of applications and the metrics of the process.\<close>

record 's admin_world =
  aw_registry :: "'s app_registry"
  aw_metrics :: metrics_registry
  aw_tenants :: tenant_collector

datatype admin_response =
    AHealth
  | AReady "nat \<times> ready_response"
  | AIsolates isolates_list_response
  | AApps "app_info list"
  | AAppInfo app_info
  | ACreated "app_info \<times> string"
  | AUpdated "app_info \<times> string"
  | AAction app_action_response
  | AFailed app_error
  | AMetrics string
  | ATenants metrics_snapshot
  | ASummary metrics_summary_response
  | AAppMetrics app_metrics_response
  | AUnauthorized auth_error
  | AStatus nat
  | ARejectedBody

definition of_result :: "('a \<Rightarrow> admin_response) \<Rightarrow> app_error + 'a \<Rightarrow> admin_response" where
  "of_result f x = (case x of Inl e \<Rightarrow> AFailed e | Inr v \<Rightarrow> f v)"

text \<open>What the handlers need besides: the host's files, the text of floating-point numbers, the time.\<close>

record admin_env =
  ev_fs :: host_fs
  ev_format :: f64_format
  ev_secs :: nat
  ev_nanos :: nat

definition stamp :: "admin_env \<Rightarrow> string" where
  "stamp e = current_timestamp (ev_secs e) (ev_nanos e)"

definition is_public :: "string list \<Rightarrow> bool" where
  "is_public path = (path = [''admin'', ''health''] \<or> path = [''admin'', ''ready''])"

text \<open>
  The handlers of one path, by method; a path without handlers is \<open>None\<close>. A parameter of a path is a segment that is not empty.
  The routes that axum's \<^verbatim>\<open>get\<close> makes also serve \<open>HEAD\<close>: the handler runs and its response is sent without the body, which the answer
  of the model still shows.
\<close>

definition apps_handler :: "admin_env \<Rightarrow> admin_request \<Rightarrow> 's admin_world \<Rightarrow> admin_response" where
  "apps_handler e q w = (case aq_method q of
       GET \<Rightarrow> AApps (list_apps (stamp e) (aw_registry w))
     | HEAD \<Rightarrow> AApps (list_apps (stamp e) (aw_registry w))
     | POST \<Rightarrow> (case aq_body q of
           CreateBody b \<Rightarrow> of_result ACreated (create_app (ev_fs e) (stamp e) b (aw_registry w))
         | _ \<Rightarrow> ARejectedBody)
     | _ \<Rightarrow> AStatus 405)"

definition app_handler :: "admin_env \<Rightarrow> string \<Rightarrow> admin_request \<Rightarrow> 's admin_world \<Rightarrow> admin_response" where
  "app_handler e h q w = (case aq_method q of
       GET \<Rightarrow> of_result AAppInfo (get_app (stamp e) h (aw_registry w))
     | HEAD \<Rightarrow> of_result AAppInfo (get_app (stamp e) h (aw_registry w))
     | PATCH \<Rightarrow> (case aq_body q of
           UpdateBody b \<Rightarrow> of_result AUpdated (update_app (ev_fs e) (stamp e) h b (aw_registry w))
         | _ \<Rightarrow> ARejectedBody)
     | DELETE \<Rightarrow> of_result AAction (delete_app h (aw_registry w))
     | _ \<Rightarrow> AStatus 405)"

definition action_handler :: "string \<Rightarrow> string \<Rightarrow> admin_request \<Rightarrow> admin_response option" where
  "action_handler h action q =
     (if action \<notin> {''activate'', ''disable'', ''enable'', ''reload'', ''scale'', ''drain''} then None
      else if aq_method q \<noteq> POST then Some (AStatus 405)
      else if action = ''activate'' then Some (AAction (activate_app h))
      else if action = ''disable'' then Some (AAction (disable_app h))
      else if action = ''enable'' then Some (AAction (enable_app h))
      else if action = ''reload'' then Some (AAction (reload_app h))
      else if action = ''drain'' then Some (AAction (drain_app h))
      else case aq_body q of ScaleBody n \<Rightarrow> Some (of_result AAction (scale_app h n)) | _ \<Rightarrow> Some ARejectedBody)"

definition serves_get :: "admin_request \<Rightarrow> bool" where
  "serves_get q = (aq_method q = GET \<or> aq_method q = HEAD)"

definition get_only :: "admin_request \<Rightarrow> admin_response \<times> 's admin_world \<Rightarrow> 's admin_world \<Rightarrow> admin_response \<times> 's admin_world" where
  "get_only q x w = (if serves_get q then x else (AStatus 405, w))"

definition metrics_route :: "admin_env \<Rightarrow> string list \<Rightarrow> admin_request \<Rightarrow> 's admin_world \<Rightarrow> (admin_response \<times> 's admin_world) option" where
  "metrics_route e rest q w =
     (if rest = [] then
        (case prometheus_metrics_handler (ev_format e) (ev_secs e) (aw_tenants w) (aw_metrics w) of
           (text, m) \<Rightarrow> Some (get_only q (AMetrics text, w\<lparr>aw_metrics := m\<rparr>) w))
      else if rest = [''tenants''] then Some (get_only q (ATenants (collector_snapshot (aw_tenants w)), w) w)
      else if rest = [''summary''] then Some (get_only q (ASummary (metrics_summary (aw_tenants w) (aw_metrics w)), w) w)
      else case rest of
          [a, h] \<Rightarrow> if a = ''apps'' \<and> h \<noteq> [] then Some (get_only q
              (case app_metrics_handler h (aw_tenants w) of Some m \<Rightarrow> AAppMetrics m | None \<Rightarrow> AStatus 404, w) w)
            else None
        | _ \<Rightarrow> None)"

definition protected_route :: "admin_env \<Rightarrow> admin_request \<Rightarrow> 's admin_world \<Rightarrow> (admin_response \<times> 's admin_world) option" where
  "protected_route e q w = (case aq_path q of
       seg # kind # rest \<Rightarrow>
         if seg \<noteq> ''admin'' then None
         else if kind = ''isolates'' \<and> rest = [] then
           Some (get_only q (AIsolates (list_isolates (ev_secs e) (ev_nanos e) (aw_registry w)), w) w)
         else if kind = ''apps'' then
           (case rest of
              [] \<Rightarrow> Some (apps_handler e q w, w)
            | [h] \<Rightarrow> if h = [] then None else Some (app_handler e h q w, w)
            | [h, action] \<Rightarrow> if h = [] then None else map_option (\<lambda>a. (a, w)) (action_handler h action q)
            | _ \<Rightarrow> None)
         else if kind = ''metrics'' then metrics_route e rest q w
         else None
     | _ \<Rightarrow> None)"

definition public_route :: "admin_request \<Rightarrow> admin_response option" where
  "public_route q =
     (if aq_path q = [''admin'', ''health''] then Some (if serves_get q then AHealth else AStatus 405)
      else if aq_path q = [''admin'', ''ready''] then Some (if serves_get q then AReady ready_handler else AStatus 405)
      else None)"

text \<open>
  The whole router. The key is checked before a protected handler, and before its answer to a method it does not know. What
  an unknown path is answered is not part of the model: \<open>None\<close>.
\<close>

definition admin_router :: "admin_auth \<Rightarrow> admin_env \<Rightarrow> admin_request \<Rightarrow> 's admin_world \<Rightarrow> (admin_response \<times> 's admin_world) option" where
  "admin_router a e q w = (case public_route q of
       Some x \<Rightarrow> Some (x, w)
     | None \<Rightarrow> (case protected_route e q w of
           None \<Rightarrow> None
         | Some x \<Rightarrow> (case api_key_middleware a (aq_key q) of
               Some err \<Rightarrow> Some (AUnauthorized err, w)
             | None \<Rightarrow> Some x)))"

subsection \<open>Specification vocabulary\<close>

text \<open>Several requests, each with its environment; those without a route change nothing.\<close>

primrec run_admin :: "admin_auth \<Rightarrow> (admin_env \<times> admin_request) list \<Rightarrow> 's admin_world \<Rightarrow> 's admin_world" where
  "run_admin a [] w = w"
| "run_admin a (x # xs) w = run_admin a xs (case admin_router a (fst x) (snd x) w of Some (_, w') \<Rightarrow> w' | None \<Rightarrow> w)"

text \<open>What the workers of an application are reported to have served.\<close>

definition simulated_requests :: "nat \<Rightarrow> nat" where
  "simulated_requests w = 42 * w + 5 * w * (w - 1)"

definition reported :: "string \<times> app_config \<Rightarrow> string \<times> u32 \<times> u64" where
  "reported x = (fst x, workers (app_limits_of (snd x)), of_nat (simulated_requests (unat (workers (app_limits_of (snd x))))))"

definition isolates_of :: "string \<times> app_config \<Rightarrow> isolate_info list" where
  "isolates_of x = map (worker_isolate (fst x) (snd x)) [0..<unat (workers (app_limits_of (snd x)))]"

definition example_world :: "unit admin_world" where
  "example_world = \<lparr>aw_registry = registry_new [(''a'', default_app_config\<lparr>hostname := ''a''\<rparr>)], aw_metrics = registry_metrics_new 0,
     aw_tenants = tenant_collector_new\<rparr>"

definition example_delete :: "string option \<Rightarrow> admin_request" where
  "example_delete key = \<lparr>aq_method = DELETE, aq_path = [''admin'', ''apps'', ''a''], aq_key = key, aq_body = NoJson\<rparr>"

section \<open>Lemmas\<close>

lemma admin_router_cases:
  assumes "admin_router a e q w = Some (resp, w')"
  obtains (public) "public_route q = Some resp" "w' = w"
  | (denied) err where "public_route q = None" "api_key_middleware a (aq_key q) = Some err" "resp = AUnauthorized err" "w' = w"
  | (protected) "public_route q = None" "api_key_middleware a (aq_key q) = None" "protected_route e q w = Some (resp, w')"
  using assms by (auto simp: admin_router_def split: option.splits)

lemma public_route_iff: "public_route q \<noteq> None \<longleftrightarrow> is_public (aq_path q)"
  by (simp add: public_route_def is_public_def)

lemma handlers_authorized:
  "apps_handler e q w \<noteq> AUnauthorized err" "app_handler e h q w \<noteq> AUnauthorized err" "action_handler h action q \<noteq> Some (AUnauthorized err)"
  by (simp_all add: apps_handler_def app_handler_def action_handler_def of_result_def split: http_method.split admin_body.split sum.split)

lemma get_only_cases: "get_only q x w = (resp, w') \<Longrightarrow> x = (resp, w') \<or> resp = AStatus 405 \<and> w' = w"
  by (simp add: get_only_def split: if_splits)

lemma metrics_route_keeps:
  assumes "metrics_route e rest q w = Some (resp, w')"
  shows "aw_registry w' = aw_registry w \<and> aw_tenants w' = aw_tenants w \<and> resp \<noteq> AUnauthorized err"
  using assms
  by (auto simp: metrics_route_def prometheus_metrics_handler_def Let_def split: if_splits list.splits option.splits dest!: get_only_cases)

lemma protected_route_keeps:
  assumes "protected_route e q w = Some (resp, w')"
  shows "aw_registry w' = aw_registry w \<and> aw_tenants w' = aw_tenants w \<and> resp \<noteq> AUnauthorized err"
proof -
  obtain seg kind rest where p: "aq_path q = seg # kind # rest" using assms by (auto simp: protected_route_def split: list.splits)
  show ?thesis
  proof (cases "kind = ''metrics''")
    case True then show ?thesis using assms metrics_route_keeps p by (simp add: protected_route_def split: if_splits)
  next
    case False
    then show ?thesis using assms p
      by (auto simp: protected_route_def handlers_authorized split: if_splits list.splits dest!: get_only_cases)
  qed
qed

lemma admin_router_keeps:
  assumes "admin_router a e q w = Some (resp, w')"
  shows "aw_registry w' = aw_registry w"
  using assms
proof (cases rule: admin_router_cases)
  case protected then show ?thesis using protected_route_keeps [OF protected(3)] by simp
qed simp_all

lemma run_admin_registry: "aw_registry (run_admin a xs w) = aw_registry w"
proof (induction xs arbitrary: w)
  case (Cons x xs)
  show ?case
  proof (cases "admin_router a (fst x) (snd x) w")
    case None then show ?thesis using Cons.IH by simp
  next
    case (Some y)
    then show ?thesis using Cons.IH admin_router_keeps [of a "fst x" "snd x" w "fst y" "snd y"] by (cases y) simp
  qed
qed simp

lemma worker_requests: "sum_list (map (\<lambda>w. ii_request_count (worker_isolate h c w)) [0..<n]) = of_nat (simulated_requests n)"
proof (induction n)
  case (Suc n)
  have "simulated_requests (Suc n) = simulated_requests n + (42 + n * 10)" by (cases n) (simp_all add: simulated_requests_def algebra_simps)
  then show ?case using Suc by (simp add: worker_isolate_def)
qed (simp add: simulated_requests_def)

lemma host_requests_new:
  assumes "h \<notin> ii_hostname ` set is"
  shows "host_requests h (is @ isolates_of (h, c)) = of_nat (simulated_requests (unat (workers (app_limits_of c))))"
proof -
  have "filter (\<lambda>i. ii_hostname i = h) is = []" using assms by (auto simp: filter_empty_conv)
  moreover have "filter (\<lambda>i. ii_hostname i = h) (isolates_of (h, c)) = isolates_of (h, c)"
    by (auto simp: isolates_of_def worker_isolate_def filter_id_conv)
  ultimately show ?thesis using worker_requests [of h c] by (simp add: host_requests_def isolates_of_def comp_def)
qed

lemma collect_fold:
  assumes "distinct (map fst xs)" "\<forall>x \<in> set xs. map_of m (fst x) = Some (snd x)" "fst ` set xs \<inter> ii_hostname ` set is = {}"
  shows "\<exists>stats'. fold (\<lambda>h acc. case map_of m h of Some c \<Rightarrow> collect_app h c acc | None \<Rightarrow> acc) (map fst xs) (is, stats)
      = (is @ concat (map isolates_of xs), stats @ stats')
    \<and> map (\<lambda>a. (as_hostname a, as_worker_count a, as_total_requests a)) stats' = map reported xs"
  using assms
proof (induction xs arbitrary: "is" stats)
  case (Cons x xs)
  obtain h c where x: "x = (h, c)" by force
  define st where "st = \<lparr>as_hostname = h, as_worker_count = workers (app_limits_of c), as_total_requests = host_requests h (is @ isolates_of (h, c)),
    as_avg_memory_mb = f_mul (f_of_nat (unat (memory_mb (app_limits_of c)))) (Fin (1 / 4)), as_uptime = format_duration 60,
    as_memory_limit_mb = memory_mb (app_limits_of c), as_timeout_secs = timeout_secs (app_limits_of c), as_workers = workers (app_limits_of c)\<rparr>"
  have step: "collect_app h c (is, stats) = (is @ isolates_of (h, c), stats @ [st])"
    by (simp add: collect_app_def st_def isolates_of_def Let_def)
  have "ii_hostname ` set (isolates_of (h, c)) \<subseteq> {h}" by (auto simp: isolates_of_def worker_isolate_def)
  then have dis: "fst ` set xs \<inter> ii_hostname ` set (is @ isolates_of (h, c)) = {}" using Cons.prems(1,3) x by auto
  have m: "map_of m h = Some c" using Cons.prems(2) x by simp
  obtain stats' where IH: "fold (\<lambda>h acc. case map_of m h of Some c \<Rightarrow> collect_app h c acc | None \<Rightarrow> acc) (map fst xs)
      (is @ isolates_of (h, c), stats @ [st]) = ((is @ isolates_of (h, c)) @ concat (map isolates_of xs), (stats @ [st]) @ stats')"
    "map (\<lambda>a. (as_hostname a, as_worker_count a, as_total_requests a)) stats' = map reported xs"
    using Cons.IH [OF _ _ dis, of "stats @ [st]"] Cons.prems(1,2) by auto
  have "h \<notin> ii_hostname ` set is" using Cons.prems(3) x by auto
  then have "as_total_requests st = of_nat (simulated_requests (unat (workers (app_limits_of c))))"
    using host_requests_new by (simp add: st_def)
  then have "(as_hostname st, as_worker_count st, as_total_requests st) = reported x" by (simp add: reported_def x st_def)
  then show ?case using IH step m x by (intro exI [of _ "st # stats'"]) simp
qed simp

lemma router_created:
  assumes "admin_router a e q w = Some (ACreated x, w')"
  shows "\<exists>b. create_app (ev_fs e) (stamp e) b (aw_registry w) = Inr x"
  using assms
proof (cases rule: admin_router_cases)
  case public then show ?thesis by (auto simp: public_route_def split: if_splits)
next
  case protected
  obtain seg kind rest where p: "aq_path q = seg # kind # rest" using protected(3) by (auto simp: protected_route_def split: list.splits)
  have a: "apps_handler e q w = ACreated x"
  proof (cases "kind = ''metrics''")
    case True
    then show ?thesis using protected(3) p
      by (auto simp: protected_route_def metrics_route_def prometheus_metrics_handler_def Let_def split: if_splits list.splits option.splits dest!: get_only_cases)
  next
    case False
    have n: "app_handler e h q w \<noteq> ACreated x" "action_handler h action q \<noteq> Some (ACreated x)" for h action
      by (simp_all add: app_handler_def action_handler_def of_result_def split: http_method.split admin_body.split sum.split)
    show ?thesis using False protected(3) p by (auto simp: protected_route_def n split: if_splits list.splits dest!: get_only_cases)
  qed
  then show ?thesis by (cases "aq_method q"; cases "aq_body q") (auto simp: apps_handler_def of_result_def split: sum.splits)
qed simp_all

lemma router_deleted:
  assumes "admin_router a e q w = Some (AAction x, w')" "ar_action x = ''delete''"
  shows "\<exists>h. delete_app h (aw_registry w) = Inr x"
  using assms(1)
proof (cases rule: admin_router_cases)
  case public then show ?thesis by (auto simp: public_route_def split: if_splits)
next
  case protected
  obtain seg kind rest where p: "aq_path q = seg # kind # rest" using protected(3) by (auto simp: protected_route_def split: list.splits)
  have ex: "\<exists>h. app_handler e h q w = AAction x"
  proof (cases "kind = ''metrics''")
    case True
    then show ?thesis using protected(3) p
      by (auto simp: protected_route_def metrics_route_def prometheus_metrics_handler_def Let_def split: if_splits list.splits option.splits dest!: get_only_cases)
  next
    case False
    have n: "apps_handler e q w \<noteq> AAction x"
      by (simp add: apps_handler_def of_result_def split: http_method.split admin_body.split sum.split)
    have k: "action_handler h action q \<noteq> Some (AAction x)" for h action
      using assms(2) by (auto simp: action_handler_def of_result_def scale_app_def activate_app_def disable_app_def enable_app_def reload_app_def drain_app_def
        app_action_def split: admin_body.splits sum.splits if_splits)
    show ?thesis using False protected(3) p by (auto simp: protected_route_def n k split: if_splits list.splits dest!: get_only_cases)
  qed
  from ex obtain h where h: "app_handler e h q w = AAction x" by blast
  have "delete_app h (aw_registry w) = Inr x" using h
    by (cases "aq_method q"; cases "aq_body q") (simp_all add: app_handler_def of_result_def split: sum.splits)
  then show ?thesis by blast
qed simp_all

lemma example_routes_to_delete:
  "protected_route e (example_delete k) example_world = Some (AAction (app_action ''a'' ''delete'' ''App deleted successfully'' Active), example_world)"
  "public_route (example_delete k) = None"
  by (simp_all add: protected_route_def public_route_def example_delete_def app_handler_def delete_app_def example_world_def registry_new_def
    registry_get_def of_result_def)

section \<open>Properties\<close>

text \<open>
  C17. The administration server cannot be used without its key. Once it has started, every request to a route other than the two health
  checks that does not carry exactly the configured key is answered 401 and changes nothing; with the key no request
  is answered so.
\<close>

theorem admin_requires_key:
  assumes "start_admin_server listen c = Inr a" "admin_router a e q w = Some (resp, w')"
  shows "(\<not> is_public (aq_path q) \<and> aq_key q \<noteq> Some (ac_api_key c) \<longrightarrow> (\<exists>err. resp = AUnauthorized err \<and> ae_code err = 401) \<and> w' = w)
    \<and> (aq_key q = Some (ac_api_key c) \<longrightarrow> (\<forall>err. resp \<noteq> AUnauthorized err))"
proof -
  have key: "aa_api_key a = ac_api_key c" "ac_api_key c \<noteq> []"
    using assms(1) by (auto simp: start_admin_server_def admin_validate_def bind_res_def split: sum.splits if_splits)
  have ok: "api_key_middleware a (aq_key q) = None \<longleftrightarrow> aq_key q = Some (ac_api_key c)"
    using key by (auto simp: api_key_middleware_def auth_is_configured_def auth_validate_def split: option.splits)
  have code: "ae_code err = 401" if "api_key_middleware a (aq_key q) = Some err" for err
    using that by (auto simp: api_key_middleware_def auth_error_new_def split: option.splits if_splits)
  have pub: "resp \<noteq> AUnauthorized err" if "public_route q = Some resp" for err using that by (auto simp: public_route_def split: if_splits)
  from assms(2) show ?thesis
  proof (cases rule: admin_router_cases)
    case public
    then have "is_public (aq_path q)" using public_route_iff [of q] by simp
    then show ?thesis using pub public by simp
  next
    case (denied err) then show ?thesis using ok code by auto
  next
    case protected then show ?thesis using ok protected_route_keeps [OF protected(3)] by simp
  qed
qed

theorem admin_requires_key_witness:
  "start_admin_server (\<lambda>_. Inr ()) (admin_config_new ''secret'') = Inr \<lparr>aa_api_key = ''secret''\<rparr>
   \<and> (\<forall>e. \<exists>err. admin_router \<lparr>aa_api_key = ''secret''\<rparr> e (example_delete (Some ''guess'')) example_world = Some (AUnauthorized err, example_world) \<and> ae_code err = 401)"
proof -
  have "show_ipv4 0 0 0 0 = ''0.0.0.0''" by code_simp
  then have "socket_addr \<lparr>sv_port = 8889, sv_host = ''0.0.0.0'', sv_routes = []\<rparr> = Inr (SocketV4 0 0 0 0 8889)"
    using socket_addr_ipv4 [of 0 0 0 0 "\<lparr>sv_port = 8889, sv_host = ''0.0.0.0'', sv_routes = []\<rparr>"] by simp
  then have "admin_socket_addr (admin_config_new ''secret'') = Inr (SocketV4 0 0 0 0 8889)"
    by (auto simp: socket_addr_def socket_addr_text_def admin_socket_addr_def admin_config_new_def admin_config_default_def split: option.splits)
  then have s: "start_admin_server (\<lambda>_. Inr ()) (admin_config_new ''secret'') = Inr \<lparr>aa_api_key = ''secret''\<rparr>"
    by (simp add: start_admin_server_def admin_validate_def admin_config_new_def admin_config_default_def bind_res_def)
  have "\<exists>err. admin_router \<lparr>aa_api_key = ''secret''\<rparr> e (example_delete (Some ''guess'')) example_world = Some (AUnauthorized err, example_world) \<and> ae_code err = 401" for e
  proof -
    obtain resp w' where r: "admin_router \<lparr>aa_api_key = ''secret''\<rparr> e (example_delete (Some ''guess'')) example_world = Some (resp, w')"
      by (cases "api_key_middleware \<lparr>aa_api_key = ''secret''\<rparr> (aq_key (example_delete (Some ''guess'')))")
        (simp_all add: admin_router_def example_routes_to_delete)
    have "\<not> is_public (aq_path (example_delete (Some ''guess'')))" "aq_key (example_delete (Some ''guess'')) \<noteq> Some (ac_api_key (admin_config_new ''secret''))"
      by (simp_all add: is_public_def example_delete_def admin_config_new_def)
    with admin_requires_key [OF s r] r show ?thesis by blast
  qed
  with s show ?thesis by blast
qed

text \<open>
  Administration has no effect on applications. No sequence of requests changes the registry: an application whose creation was
  answered with success is not found afterwards, and one whose deletion was answered with success is still there.
\<close>

theorem admin_never_changes_apps:
  assumes "admin_router a e q w = Some (resp, w1)" "w2 = run_admin a xs w1"
  shows "aw_registry w2 = aw_registry w
    \<and> (\<forall>x. resp = ACreated x \<longrightarrow> (\<forall>ts. get_app ts (ai_hostname (fst x)) (aw_registry w2) = Inl (app_not_found (ai_hostname (fst x)))))
    \<and> (\<forall>x. resp = AAction x \<and> ar_action x = ''delete'' \<longrightarrow> (\<forall>ts. is_ok (get_app ts (ar_hostname x) (aw_registry w2))))"
proof -
  have r: "aw_registry w2 = aw_registry w" using assms(2) run_admin_registry [of a xs w1] admin_router_keeps [OF assms(1)] by simp
  have "get_app ts (ai_hostname (fst x)) (aw_registry w) = Inl (app_not_found (ai_hostname (fst x)))" if c: "resp = ACreated x" for x ts
  proof -
    obtain b where "create_app (ev_fs e) (stamp e) b (aw_registry w) = Inr x" using router_created [OF assms(1) [unfolded c]] by blast
    then show ?thesis
      by (auto simp: create_app_def config_to_info_def create_config_def registry_contains_def get_app_def registry_get_def split: if_splits sum.splits)
  qed
  moreover have "is_ok (get_app ts (ar_hostname x) (aw_registry w))" if c: "resp = AAction x" "ar_action x = ''delete''" for x ts
  proof -
    obtain h where "delete_app h (aw_registry w) = Inr x" using router_deleted [OF assms(1) [unfolded c(1)] c(2)] by blast
    then show ?thesis by (auto simp: delete_app_def get_app_def app_action_def split: option.splits)
  qed
  ultimately show ?thesis using r by simp
qed

theorem admin_never_changes_apps_witness:
  "\<forall>e ts. \<exists>x w1. admin_router \<lparr>aa_api_key = []\<rparr> e (example_delete None) example_world = Some (AAction x, w1) \<and> ar_message x = ''App deleted successfully''
     \<and> is_ok (get_app ts ''a'' (aw_registry (run_admin \<lparr>aa_api_key = []\<rparr> [] w1)))"
proof (intro allI)
  fix e ts
  let ?x = "app_action ''a'' ''delete'' ''App deleted successfully'' Active"
  have r: "admin_router \<lparr>aa_api_key = []\<rparr> e (example_delete None) example_world = Some (AAction ?x, example_world)"
    by (simp add: admin_router_def example_routes_to_delete api_key_middleware_def auth_is_configured_def)
  have "is_ok (get_app ts ''a'' (aw_registry (run_admin \<lparr>aa_api_key = []\<rparr> [] example_world)))"
    using admin_never_changes_apps [OF r refl, of "[]"] by (simp add: app_action_def)
  then show "\<exists>x w1. admin_router \<lparr>aa_api_key = []\<rparr> e (example_delete None) example_world = Some (AAction x, w1) \<and> ar_message x = ''App deleted successfully''
     \<and> is_ok (get_app ts ''a'' (aw_registry (run_admin \<lparr>aa_api_key = []\<rparr> [] w1)))"
    using r by (intro exI [of _ ?x] exI [of _ example_world]) (simp add: app_action_def)
qed

text \<open>
  The diagnostics report made-up numbers. Isolates, workers and requests are computed from the configuration alone: each
  application has its configured number of isolates, and \<open>w\<close> workers have served \<open>42 w + 5 w (w - 1)\<close> requests.
\<close>

theorem diagnostics_simulated:
  assumes "distinct (map fst (reg_apps r))"
  shows "map (\<lambda>a. (as_hostname a, as_worker_count a, as_total_requests a)) (sd_app_stats (diagnostics_collect r)) = map reported (reg_apps r)
    \<and> sd_isolates (diagnostics_collect r) = concat (map isolates_of (reg_apps r))
    \<and> sd_total_isolates (diagnostics_collect r) = sum_list (map (\<lambda>x. unat (workers (app_limits_of (snd x)))) (reg_apps r))"
proof -
  have m: "\<forall>x \<in> set (reg_apps r). map_of (reg_apps r) (fst x) = Some (snd x)" using assms by simp
  obtain st where f: "fold (\<lambda>h acc. case map_of (reg_apps r) h of Some c \<Rightarrow> collect_app h c acc | None \<Rightarrow> acc) (map fst (reg_apps r)) ([], [])
      = (concat (map isolates_of (reg_apps r)), st)"
    "map (\<lambda>a. (as_hostname a, as_worker_count a, as_total_requests a)) st = map reported (reg_apps r)"
    using collect_fold [OF assms m, of "[]" "[]"] by auto
  have "length (concat (map isolates_of xs)) = sum_list (map (\<lambda>x. unat (workers (app_limits_of (snd x)))) xs)" for xs
    by (induction xs) (simp_all add: isolates_of_def)
  then show ?thesis using f by (simp add: diagnostics_collect_def registry_get_def all_hostnames_def)
qed

theorem diagnostics_simulated_witness:
  "sd_total_isolates (diagnostics_collect (aw_registry example_world)) = 4"
  using diagnostics_simulated [of "aw_registry example_world"]
  by (simp add: example_world_def registry_new_def default_app_config_def default_app_limits_def default_workers_def)

text \<open>
  The time stamps of the API are not dates: years have 365 days and months 30, so a year has a thirteenth month in its last
  five days.
\<close>

theorem timestamp_months:
  "1 \<le> stamp_month secs \<and> stamp_month secs \<le> 13 \<and> (stamp_month secs = 13 \<longleftrightarrow> 360 * 86400 \<le> secs mod (365 * 86400))"
proof -
  have b: "secs mod 31536000 < 31536000" by simp
  then have "secs mod 31536000 div 2592000 < 13" by (simp add: less_mult_imp_div_less)
  then show ?thesis using b unfolding stamp_month_def by (simp add: le_div_geq) linarith
qed

end
