(* ===== verification/Data_Plane.thy ===== *)
theory Data_Plane
  imports Nano_Prelude
begin

text \<open>
  The data plane shared by the worker threads (\<^verbatim>\<open>src/src/data_plane.rs\<close>): the cache of entry point code and the CPU timeout
  guard. What the file system answers during a call is an argument. The guards of all threads share two process-wide
  variables, so they are a step relation over the atomic accesses of the threads and their timer threads.
\<close>

section \<open>Definitions\<close>

subsection \<open>The code cache\<close>

record code_cache_entry =
  ce_code :: string
  ce_modified :: nat

type_synonym code_cache = "(string \<rightharpoonup> code_cache_entry) option"

definition init_code_cache :: "code_cache \<Rightarrow> code_cache" where
  "init_code_cache c = (case c of None \<Rightarrow> Some Map.empty | Some m \<Rightarrow> Some m)"

text \<open>The answers of the file system: the time stamp before, the content, the time stamp after, and the clock.\<close>

record file_answers =
  fa_before :: "nat option"
  fa_content :: "string + string"
  fa_after :: "nat option"
  fa_now :: nat

definition cache_hit :: "string \<Rightarrow> file_answers \<Rightarrow> code_cache \<Rightarrow> string option" where
  "cache_hit path f c = (case c of
       None \<Rightarrow> None
     | Some m \<Rightarrow> (case m path of
           None \<Rightarrow> None
         | Some e \<Rightarrow> if fa_before f = Some (ce_modified e) then Some (ce_code e) else None))"

definition read_code_cached :: "string \<Rightarrow> file_answers \<Rightarrow> code_cache \<Rightarrow> (string + string) \<times> code_cache" where
  "read_code_cached path f c = (case cache_hit path f c of
       Some code \<Rightarrow> (Inr code, c)
     | None \<Rightarrow> (case fa_content f of
           Inl e \<Rightarrow> (Inl (''Failed to read entrypoint '' @ [CHR 0x27] @ path @ [CHR 0x27] @ '': '' @ e), c)
         | Inr code \<Rightarrow>
             (let modified = (case fa_after f of Some t \<Rightarrow> t | None \<Rightarrow> fa_now f);
                  m = (case c of Some m \<Rightarrow> m | None \<Rightarrow> Map.empty)
              in (Inr code, Some (m(path \<mapsto> \<lparr>ce_code = code, ce_modified = modified\<rparr>))))))"

subsection \<open>The CPU timeout guard\<close>

text \<open>
  The timer thread: not yet spawned, asleep, after storing the request, after loading the pointer, at its end. The thread with the
  guard: the pointer is stored; the guard protects the code; it is being dropped; the timer is joined; the
  termination is cancelled; the pointer is cleared.
\<close>

datatype timer_phase = NotSpawned | Sleeping nat | Requested | Loaded "nat option" | TimerDone
datatype guard_phase = Stored | Guarding | DropJoin | Joined | Cancelled | PtrCleared

record cpu_guard =
  cg_isolate :: nat
  cg_limit_ms :: nat
  cg_start :: nat
  cg_phase :: guard_phase
  cg_timer :: timer_phase

text \<open>The two variables, the clock in milliseconds, the guards by thread, the isolates told to terminate, the metric, and as history the number of guards so far.\<close>

record guard_state =
  gs_requested :: bool
  gs_isolate_ptr :: "nat option"
  gs_clock :: nat
  gs_guards :: "nat \<rightharpoonup> cpu_guard"
  gs_terminating :: "nat set"
  gs_timeouts :: nat
  gs_created :: nat

definition guard_state_new :: guard_state where
  "guard_state_new = \<lparr>gs_requested = False, gs_isolate_ptr = None, gs_clock = 0, gs_guards = Map.empty, gs_terminating = {}, gs_timeouts = 0, gs_created = 0\<rparr>"

definition set_guard :: "nat \<Rightarrow> cpu_guard \<Rightarrow> guard_state \<Rightarrow> guard_state" where
  "set_guard t g s = s\<lparr>gs_guards := (gs_guards s)(t \<mapsto> g)\<rparr>"

definition terminate_isolate :: "nat option \<Rightarrow> guard_state \<Rightarrow> guard_state" where
  "terminate_isolate p s = (case p of
       None \<Rightarrow> s
     | Some i \<Rightarrow> s\<lparr>gs_terminating := insert i (gs_terminating s), gs_timeouts := gs_timeouts s + 1\<rparr>)"

definition cancel_termination :: "guard_state \<Rightarrow> guard_state" where
  "cancel_termination s =
     (if gs_requested s then (case gs_isolate_ptr s of None \<Rightarrow> s | Some i \<Rightarrow> s\<lparr>gs_terminating := gs_terminating s - {i}\<rparr>) else s)"

text \<open>With the flag \<open>alone\<close>, a guard is only created while no other exists.\<close>

inductive guard_step :: "bool \<Rightarrow> guard_state \<Rightarrow> guard_state \<Rightarrow> bool" for alone where
  tick: "guard_step alone s (s\<lparr>gs_clock := gs_clock s + 1\<rparr>)"
| store_ptr: "gs_guards s t = None \<Longrightarrow> alone \<longrightarrow> gs_guards s = Map.empty
    \<Longrightarrow> g = \<lparr>cg_isolate = i, cg_limit_ms = l, cg_start = gs_clock s, cg_phase = Stored, cg_timer = NotSpawned\<rparr>
    \<Longrightarrow> guard_step alone s (set_guard t g (s\<lparr>gs_isolate_ptr := Some i, gs_created := gs_created s + 1\<rparr>))"
| spawn: "gs_guards s t = Some g \<Longrightarrow> cg_phase g = Stored
    \<Longrightarrow> guard_step alone s (set_guard t (g\<lparr>cg_phase := Guarding, cg_timer := Sleeping (gs_clock s + cg_limit_ms g)\<rparr>) (s\<lparr>gs_requested := False\<rparr>))"
| request: "gs_guards s t = Some g \<Longrightarrow> cg_timer g = Sleeping w \<Longrightarrow> w \<le> gs_clock s
    \<Longrightarrow> guard_step alone s (set_guard t (g\<lparr>cg_timer := Requested\<rparr>) (s\<lparr>gs_requested := True\<rparr>))"
| load: "gs_guards s t = Some g \<Longrightarrow> cg_timer g = Requested
    \<Longrightarrow> guard_step alone s (set_guard t (g\<lparr>cg_timer := Loaded (gs_isolate_ptr s)\<rparr>) s)"
| terminate: "gs_guards s t = Some g \<Longrightarrow> cg_timer g = Loaded p
    \<Longrightarrow> guard_step alone s (set_guard t (g\<lparr>cg_timer := TimerDone\<rparr>) (terminate_isolate p s))"
| leave: "gs_guards s t = Some g \<Longrightarrow> cg_phase g = Guarding \<Longrightarrow> guard_step alone s (set_guard t (g\<lparr>cg_phase := DropJoin\<rparr>) s)"
| join: "gs_guards s t = Some g \<Longrightarrow> cg_phase g = DropJoin \<Longrightarrow> cg_timer g = TimerDone
    \<Longrightarrow> guard_step alone s (set_guard t (g\<lparr>cg_phase := Joined\<rparr>) s)"
| cancel: "gs_guards s t = Some g \<Longrightarrow> cg_phase g = Joined
    \<Longrightarrow> guard_step alone s (set_guard t (g\<lparr>cg_phase := Cancelled\<rparr>) (cancel_termination s))"
| clear_ptr: "gs_guards s t = Some g \<Longrightarrow> cg_phase g = Cancelled
    \<Longrightarrow> guard_step alone s (set_guard t (g\<lparr>cg_phase := PtrCleared\<rparr>) (s\<lparr>gs_isolate_ptr := None\<rparr>))"
| clear_request: "gs_guards s t = Some g \<Longrightarrow> cg_phase g = PtrCleared
    \<Longrightarrow> guard_step alone s (s\<lparr>gs_requested := False, gs_guards := (gs_guards s)(t := None)\<rparr>)"

definition guard_reachable :: "bool \<Rightarrow> guard_state \<Rightarrow> bool" where
  "guard_reachable alone s = (guard_step alone)\<^sup>*\<^sup>* guard_state_new s"

subsection \<open>Specification vocabulary\<close>

text \<open>A file that does not change during a call.\<close>

definition steady :: "file_answers \<Rightarrow> bool" where
  "steady f = (fa_before f = fa_after f \<and> fa_before f \<noteq> None \<and> is_ok (fa_content f))"

primrec run_reads :: "(string \<times> file_answers) list \<Rightarrow> code_cache \<Rightarrow> (string + string) list \<times> code_cache" where
  "run_reads [] c = ([], c)"
| "run_reads (x # xs) c = (let (r, c1) = read_code_cached (fst x) (snd x) c; (rs, c2) = run_reads xs c1 in (r # rs, c2))"

text \<open>The timer of a guard never fires early, and a guard does not end before its timer.\<close>

definition on_time :: "guard_state \<Rightarrow> bool" where
  "on_time s = (\<forall>t g. gs_guards s t = Some g \<longrightarrow>
     (cg_phase g = Stored \<longleftrightarrow> cg_timer g = NotSpawned) \<and> cg_start g \<le> gs_clock s
     \<and> (\<forall>w. cg_timer g = Sleeping w \<longrightarrow> cg_start g + cg_limit_ms g \<le> w)
     \<and> ((cg_timer g = Requested \<or> cg_timer g = TimerDone \<or> (\<exists>p. cg_timer g = Loaded p)) \<longrightarrow> cg_start g + cg_limit_ms g \<le> gs_clock s)
     \<and> (cg_phase g \<in> {Joined, Cancelled, PtrCleared} \<longrightarrow> cg_timer g = TimerDone))"

text \<open>A guard that is alone owns the pointer, and only its isolate is ever told to terminate.\<close>

definition owned :: "cpu_guard \<Rightarrow> guard_state \<Rightarrow> bool" where
  "owned g s = ((cg_phase g \<noteq> PtrCleared \<longrightarrow> gs_isolate_ptr s = Some (cg_isolate g))
     \<and> (\<forall>p. cg_timer g = Loaded p \<longrightarrow> p = Some (cg_isolate g))
     \<and> (cg_phase g \<in> {Joined, Cancelled, PtrCleared} \<longrightarrow> cg_timer g = TimerDone)
     \<and> (cg_phase g = Stored \<longrightarrow> cg_timer g = NotSpawned)
     \<and> (cg_timer g = Requested \<or> cg_timer g = TimerDone \<or> (\<exists>p. cg_timer g = Loaded p) \<longrightarrow> gs_requested s)
     \<and> gs_terminating s \<subseteq> {cg_isolate g} \<and> (gs_terminating s \<noteq> {} \<longrightarrow> cg_timer g = TimerDone)
     \<and> (cg_phase g \<in> {Cancelled, PtrCleared} \<longrightarrow> gs_terminating s = {})
     \<and> gs_created s = gs_timeouts s + (if cg_timer g = TimerDone then 0 else 1))"

definition owns :: "guard_state \<Rightarrow> bool" where
  "owns s = (gs_guards s = Map.empty \<and> gs_terminating s = {} \<and> gs_timeouts s = gs_created s
     \<or> (\<exists>t g. gs_guards s = [t \<mapsto> g] \<and> owned g s))"

text \<open>The guards whose timer is not done yet; each timer that is done counted at most one timeout.\<close>

definition pending_guards :: "guard_state \<Rightarrow> nat set" where
  "pending_guards s = {t. \<exists>g. gs_guards s t = Some g \<and> cg_timer g \<noteq> TimerDone}"

definition counts_once :: "guard_state \<Rightarrow> bool" where
  "counts_once s = (finite (dom (gs_guards s)) \<and> gs_timeouts s + card (pending_guards s) \<le> gs_created s)"

text \<open>The steps as a function, for runs: a step that is not possible changes nothing.\<close>

datatype guard_event =
    Tick | StorePtr nat nat nat | Spawn nat | RequestIt nat | LoadPtr nat | TerminateIt nat | Leave nat | Join nat | Cancel nat
  | ClearPtr nat | ClearRequest nat

fun guard_do :: "guard_event \<Rightarrow> guard_state \<Rightarrow> guard_state" where
  "guard_do Tick s = s\<lparr>gs_clock := gs_clock s + 1\<rparr>"
| "guard_do (StorePtr t i l) s = (case gs_guards s t of
     None \<Rightarrow> set_guard t \<lparr>cg_isolate = i, cg_limit_ms = l, cg_start = gs_clock s, cg_phase = Stored, cg_timer = NotSpawned\<rparr>
       (s\<lparr>gs_isolate_ptr := Some i, gs_created := gs_created s + 1\<rparr>)
   | Some g \<Rightarrow> s)"
| "guard_do (Spawn t) s = (case gs_guards s t of
     Some g \<Rightarrow> if cg_phase g = Stored
       then set_guard t (g\<lparr>cg_phase := Guarding, cg_timer := Sleeping (gs_clock s + cg_limit_ms g)\<rparr>) (s\<lparr>gs_requested := False\<rparr>) else s
   | None \<Rightarrow> s)"
| "guard_do (RequestIt t) s = (case gs_guards s t of
     Some g \<Rightarrow> (case cg_timer g of
         Sleeping w \<Rightarrow> if w \<le> gs_clock s then set_guard t (g\<lparr>cg_timer := Requested\<rparr>) (s\<lparr>gs_requested := True\<rparr>) else s
       | _ \<Rightarrow> s)
   | None \<Rightarrow> s)"
| "guard_do (LoadPtr t) s = (case gs_guards s t of
     Some g \<Rightarrow> if cg_timer g = Requested then set_guard t (g\<lparr>cg_timer := Loaded (gs_isolate_ptr s)\<rparr>) s else s
   | None \<Rightarrow> s)"
| "guard_do (TerminateIt t) s = (case gs_guards s t of
     Some g \<Rightarrow> (case cg_timer g of
         Loaded p \<Rightarrow> set_guard t (g\<lparr>cg_timer := TimerDone\<rparr>) (terminate_isolate p s)
       | _ \<Rightarrow> s)
   | None \<Rightarrow> s)"
| "guard_do (Leave t) s = (case gs_guards s t of
     Some g \<Rightarrow> if cg_phase g = Guarding then set_guard t (g\<lparr>cg_phase := DropJoin\<rparr>) s else s
   | None \<Rightarrow> s)"
| "guard_do (Join t) s = (case gs_guards s t of
     Some g \<Rightarrow> if cg_phase g = DropJoin \<and> cg_timer g = TimerDone then set_guard t (g\<lparr>cg_phase := Joined\<rparr>) s else s
   | None \<Rightarrow> s)"
| "guard_do (Cancel t) s = (case gs_guards s t of
     Some g \<Rightarrow> if cg_phase g = Joined then set_guard t (g\<lparr>cg_phase := Cancelled\<rparr>) (cancel_termination s) else s
   | None \<Rightarrow> s)"
| "guard_do (ClearPtr t) s = (case gs_guards s t of
     Some g \<Rightarrow> if cg_phase g = Cancelled then set_guard t (g\<lparr>cg_phase := PtrCleared\<rparr>) (s\<lparr>gs_isolate_ptr := None\<rparr>) else s
   | None \<Rightarrow> s)"
| "guard_do (ClearRequest t) s = (case gs_guards s t of
     Some g \<Rightarrow> if cg_phase g = PtrCleared then s\<lparr>gs_requested := False, gs_guards := (gs_guards s)(t := None)\<rparr> else s
   | None \<Rightarrow> s)"

text \<open>Two guards with a limit of one millisecond; the second timer looks for the isolate after the first guard has ended.\<close>

definition uncounted_run :: "guard_event list" where
  "uncounted_run = [StorePtr 0 7 1, Spawn 0, StorePtr 1 8 1, Spawn 1, Tick, RequestIt 0, LoadPtr 0, TerminateIt 0, Leave 0, Join 0, Cancel 0,
     ClearPtr 0, ClearRequest 0, RequestIt 1, LoadPtr 1, TerminateIt 1, Leave 1, Join 1, Cancel 1, ClearPtr 1, ClearRequest 1]"

definition one_guard :: "guard_phase \<Rightarrow> timer_phase \<Rightarrow> bool \<Rightarrow> nat \<Rightarrow> nat set \<Rightarrow> nat \<Rightarrow> guard_state" where
  "one_guard ph tm r c ts n = \<lparr>gs_requested = r, gs_isolate_ptr = Some 7, gs_clock = c,
     gs_guards = [0 \<mapsto> \<lparr>cg_isolate = 7, cg_limit_ms = 1, cg_start = 0, cg_phase = ph, cg_timer = tm\<rparr>], gs_terminating = ts, gs_timeouts = n, gs_created = 1\<rparr>"

definition two_guards :: "guard_phase \<Rightarrow> timer_phase \<Rightarrow> bool \<Rightarrow> nat \<Rightarrow> nat set \<Rightarrow> nat \<Rightarrow> guard_state" where
  "two_guards ph tm r c ts n = \<lparr>gs_requested = r, gs_isolate_ptr = Some 8, gs_clock = c,
     gs_guards = [0 \<mapsto> \<lparr>cg_isolate = 7, cg_limit_ms = 1, cg_start = 0, cg_phase = Guarding, cg_timer = tm\<rparr>,
       1 \<mapsto> \<lparr>cg_isolate = 8, cg_limit_ms = 1000, cg_start = 0, cg_phase = ph, cg_timer = (if ph = Stored then NotSpawned else Sleeping 1000)\<rparr>],
     gs_terminating = ts, gs_timeouts = n, gs_created = 2\<rparr>"

section \<open>Lemmas\<close>

lemmas guard_defs = set_guard_def terminate_isolate_def cancel_termination_def

subsection \<open>Code\<close>

text \<open>Every entry of the cache was read together with its time stamp.\<close>

lemma run_reads_transparent:
  assumes "list_all (\<lambda>x. steady (snd x)) xs"
    "\<And>p f g. (p, f) \<in> set xs \<Longrightarrow> (p, g) \<in> set xs \<Longrightarrow> fa_before f = fa_before g \<Longrightarrow> fa_content f = fa_content g"
    "\<And>m p e. c = Some m \<Longrightarrow> m p = Some e \<Longrightarrow> \<forall>f. (p, f) \<in> set xs \<and> fa_before f = Some (ce_modified e) \<longrightarrow> fa_content f = Inr (ce_code e)"
  shows "fst (run_reads xs c) = map (\<lambda>x. fa_content (snd x)) xs"
  using assms
proof (induction xs arbitrary: c)
  case (Cons x xs)
  obtain p f where x: "x = (p, f)" by force
  obtain code t where f: "fa_content f = Inr code" "fa_before f = Some t" "fa_after f = Some t"
  proof -
    have "steady f" using Cons.prems(1) by (simp add: x)
    then show ?thesis using that by (cases "fa_content f"; cases "fa_after f") (auto simp: steady_def)
  qed
  have r: "fst (read_code_cached p f c) = Inr code"
    using Cons.prems(3) f by (auto simp: read_code_cached_def cache_hit_def Let_def x split: option.splits if_splits)
  have "fst (run_reads xs (snd (read_code_cached p f c))) = map (\<lambda>x. fa_content (snd x)) xs"
  proof (rule Cons.IH)
    show "list_all (\<lambda>x. steady (snd x)) xs" using Cons.prems(1) by simp
    show "fa_content f = fa_content g" if "(p, f) \<in> set xs" "(p, g) \<in> set xs" "fa_before f = fa_before g" for p f g
      using Cons.prems(2) that by (meson list.set_intros(2))
    show "\<forall>f'. (p', f') \<in> set xs \<and> fa_before f' = Some (ce_modified e) \<longrightarrow> fa_content f' = Inr (ce_code e)"
      if "snd (read_code_cached p f c) = Some m" "m p' = Some e" for m p' e
    proof -
      have "(\<exists>m0. c = Some m0 \<and> m0 p' = Some e) \<or> p' = p \<and> e = \<lparr>ce_code = code, ce_modified = t\<rparr>"
        using that f by (auto simp: read_code_cached_def Let_def split: option.splits if_splits)
      then show ?thesis
      proof
        assume "\<exists>m0. c = Some m0 \<and> m0 p' = Some e"
        then obtain m0 where "c = Some m0" "m0 p' = Some e" by blast
        from Cons.prems(3) [OF this] show ?thesis by simp
      next
        assume e: "p' = p \<and> e = \<lparr>ce_code = code, ce_modified = t\<rparr>"
        have "fa_content f' = Inr code" if "(p, f') \<in> set xs" "fa_before f' = Some t" for f'
          using Cons.prems(2) [of p f f'] that f by (simp add: x)
        then show ?thesis using e by simp
      qed
    qed
  qed
  then show ?case using r f x by (simp add: case_prod_beta Let_def)
qed simp

subsection \<open>Guards\<close>

lemma on_time_step: "guard_step alone s s' \<Longrightarrow> on_time s \<Longrightarrow> on_time s'"
proof (induction rule: guard_step.induct)
  case (tick s) then show ?case unfolding on_time_def by fastforce
next
  case (terminate s t g p)
  then show ?case by (cases p) (fastforce simp: on_time_def guard_defs split: if_splits)+
next
  case (cancel s t g)
  then show ?case by (cases "gs_isolate_ptr s") (fastforce simp: on_time_def guard_defs split: if_splits)+
qed (fastforce simp: on_time_def guard_defs split: if_splits)+

lemma ownsE:
  assumes "owns s" "gs_guards s t = Some g"
  shows "gs_guards s = [t \<mapsto> g]" "owned g s"
  using assms by (auto simp: owns_def split: if_splits)

lemma owns_set_guard:
  assumes "owns s" "gs_guards s t = Some g" "gs_guards s' = gs_guards s" "owned g s \<Longrightarrow> owned g' s'"
  shows "owns (set_guard t g' s')"
proof -
  have "gs_guards (set_guard t g' s') = [t \<mapsto> g']" using ownsE(1) [OF assms(1,2)] assms(3) by (simp add: set_guard_def)
  moreover have "owned g' (set_guard t g' s')" using assms(4) ownsE(2) [OF assms(1,2)] by (simp add: set_guard_def owned_def)
  ultimately show ?thesis by (auto simp: owns_def)
qed

lemma owns_step: "guard_step True s s' \<Longrightarrow> owns s \<Longrightarrow> owns s'"
proof (induction rule: guard_step.induct)
  case (tick s) then show ?case by (auto simp: owns_def owned_def)
next
  case (store_ptr s t g i l)
  have e: "gs_guards s = Map.empty" using store_ptr(2) by simp
  then have "gs_terminating s = {}" "gs_timeouts s = gs_created s" using store_ptr(4) by (auto simp: owns_def fun_eq_iff split: if_splits)
  then have "owned g (set_guard t g (s\<lparr>gs_isolate_ptr := Some i, gs_created := gs_created s + 1\<rparr>))"
    unfolding store_ptr(3) by (simp add: owned_def set_guard_def)
  moreover have "gs_guards (set_guard t g (s\<lparr>gs_isolate_ptr := Some i, gs_created := gs_created s + 1\<rparr>)) = [t \<mapsto> g]" using e by (simp add: set_guard_def)
  ultimately show ?case unfolding owns_def by blast
next
  case (terminate s t g p)
  show ?case
  proof (rule owns_set_guard [OF terminate(3,1)])
    show "owned g s \<Longrightarrow> owned (g\<lparr>cg_timer := TimerDone\<rparr>) (terminate_isolate p s)" using terminate(2) by (auto simp: owned_def terminate_isolate_def)
  qed (simp add: terminate_isolate_def split: option.split)
next
  case (cancel s t g)
  show ?case
  proof (rule owns_set_guard [OF cancel(3,1)])
    show "owned g s \<Longrightarrow> owned (g\<lparr>cg_phase := Cancelled\<rparr>) (cancel_termination s)" using cancel(2) by (auto simp: owned_def cancel_termination_def)
  qed (simp add: cancel_termination_def split: option.split)
next
  case (clear_request s t g)
  then show ?case using ownsE [OF clear_request(3,1)] by (auto simp: owns_def owned_def)
qed (rule owns_set_guard, assumption, assumption, simp, auto simp: owned_def)+

lemma counts_once_update:
  assumes "counts_once s" "gs_guards s t = Some g" "gs_guards s' = gs_guards s" "gs_created s' = gs_created s"
    "gs_timeouts s' + (if cg_timer g' = TimerDone then 0 else 1) \<le> gs_timeouts s + (if cg_timer g = TimerDone then 0 else 1)"
  shows "counts_once (set_guard t g' s')"
proof -
  let ?P = "pending_guards s"
  have fin: "finite ?P" using assms(1) by (auto simp: counts_once_def pending_guards_def dom_def elim!: rev_finite_subset)
  have mem: "t \<in> ?P \<longleftrightarrow> cg_timer g \<noteq> TimerDone" using assms(2) by (auto simp: pending_guards_def)
  have "pending_guards (set_guard t g' s') = (if cg_timer g' = TimerDone then ?P - {t} else insert t ?P)"
    using assms(3) by (auto simp: pending_guards_def set_guard_def)
  moreover have "t \<in> ?P \<Longrightarrow> card ?P > 0" using fin by (auto simp: card_gt_0_iff)
  ultimately show ?thesis using assms fin mem
    by (auto simp: counts_once_def set_guard_def card_insert_if split: if_splits)
qed

lemma counts_once_step: "guard_step alone s s' \<Longrightarrow> on_time s \<Longrightarrow> counts_once s \<Longrightarrow> counts_once s'"
proof (induction rule: guard_step.induct)
  case (tick s)
  then show ?case by (simp add: counts_once_def pending_guards_def)
next
  case (store_ptr s t g i l)
  let ?s = "set_guard t g (s\<lparr>gs_isolate_ptr := Some i, gs_created := gs_created s + 1\<rparr>)"
  have "pending_guards ?s = insert t (pending_guards s)" "finite (pending_guards s)"
    using store_ptr by (auto simp: pending_guards_def set_guard_def counts_once_def dom_def elim!: rev_finite_subset)
  then show ?case using store_ptr(5) card_insert_le_m1 [of "Suc (card (pending_guards s))" "pending_guards s" t]
    by (auto simp: counts_once_def set_guard_def)
next
  case (clear_request s t g)
  have "pending_guards (s\<lparr>gs_requested := False, gs_guards := (gs_guards s)(t := None)\<rparr>) \<subseteq> pending_guards s" "finite (pending_guards s)"
    using clear_request by (auto simp: pending_guards_def counts_once_def dom_def elim!: rev_finite_subset split: if_splits)
  from card_mono [OF this(2,1)] clear_request(4) show ?case by (auto simp: counts_once_def)
next
  case (terminate s t g p)
  show ?case by (rule counts_once_update [OF terminate(4,1)]) (use terminate(2) in \<open>auto simp: terminate_isolate_def split: option.split\<close>)
next
  case (cancel s t g)
  show ?case by (rule counts_once_update [OF cancel(4,1)]) (auto simp: cancel_termination_def split: option.split)
next
  case (spawn s t g)
  then have "cg_timer g \<noteq> TimerDone" by (auto simp: on_time_def)
  then show ?case by (intro counts_once_update [OF spawn(4,1)]) auto
qed (rule counts_once_update, assumption, assumption, auto)+

lemma guard_reachable_inv:
  "guard_reachable alone s \<Longrightarrow> on_time s" "guard_reachable True s \<Longrightarrow> owns s"
proof -
  have "on_time guard_state_new" "owns guard_state_new" by (simp_all add: on_time_def owns_def guard_state_new_def)
  then show "guard_reachable alone s \<Longrightarrow> on_time s" "guard_reachable True s \<Longrightarrow> owns s" unfolding guard_reachable_def
    by - (induction rule: rtranclp_induct, simp_all add: on_time_step owns_step; fail)+
qed

lemma guard_reachable_counts: "guard_reachable alone s \<Longrightarrow> counts_once s"
  unfolding guard_reachable_def
proof (induction rule: rtranclp_induct)
  case base
  then show ?case by (simp add: counts_once_def pending_guards_def guard_state_new_def)
next
  case (step s s')
  then show ?case using counts_once_step guard_reachable_inv(1) [of alone s] by (simp add: guard_reachable_def)
qed

lemma guard_reachable_step: "guard_reachable alone s \<Longrightarrow> guard_step alone s s' \<Longrightarrow> guard_reachable alone s'"
  by (simp add: guard_reachable_def)

lemma guard_do_reachable: "guard_reachable False s \<Longrightarrow> guard_reachable False (guard_do e s)"
proof (rule guard_do.cases [of "(e, s)"], goal_cases)
  case 1
  then show ?case using guard_reachable_step [OF _ guard_step.tick] by simp
next
  case (2 t i l)
  then show ?case using guard_reachable_step [OF _ guard_step.store_ptr [OF _ _ refl]] by (simp split: option.split)
qed (auto intro: guard_reachable_step guard_step.intros split: option.split timer_phase.split)

lemma guard_run_reachable: "guard_reachable False (fold guard_do es guard_state_new)"
proof -
  have "guard_reachable False (fold guard_do es s)" if "guard_reachable False s" for s
    using that by (induction es arbitrary: s) (simp_all add: guard_do_reachable)
  then show ?thesis by (simp add: guard_reachable_def)
qed

lemma uncounted_run_result:
  "gs_guards (fold guard_do uncounted_run guard_state_new) = Map.empty"
  "gs_timeouts (fold guard_do uncounted_run guard_state_new) = 1" "gs_created (fold guard_do uncounted_run guard_state_new) = 2"
  by (simp_all add: uncounted_run_def guard_state_new_def guard_defs fun_eq_iff)

lemma one_guard_reachable:
  "guard_reachable alone (one_guard Guarding (Sleeping 1) False 0 {} 0)" "guard_reachable alone (one_guard Joined TimerDone True 1 {7} 1)"
proof -
  note S = guard_reachable_step
  have "guard_reachable alone guard_state_new" by (simp add: guard_reachable_def)
  then have "guard_reachable alone (one_guard Stored NotSpawned False 0 {} 0)"
    by (rule S) (use store_ptr [of guard_state_new 0 alone _ 7 1, OF _ _ refl] in \<open>simp add: set_guard_def one_guard_def guard_state_new_def\<close>)
  then show a: "guard_reachable alone (one_guard Guarding (Sleeping 1) False 0 {} 0)"
    by (rule S) (use spawn [of "one_guard Stored NotSpawned False 0 {} 0" 0 _ alone] in \<open>simp add: set_guard_def one_guard_def\<close>)
  then have "guard_reachable alone (one_guard DropJoin (Sleeping 1) False 0 {} 0)"
    by (rule S) (use leave [of "one_guard Guarding (Sleeping 1) False 0 {} 0" 0 _ alone] in \<open>simp add: set_guard_def one_guard_def\<close>)
  then have "guard_reachable alone (one_guard DropJoin (Sleeping 1) False 1 {} 0)"
    by (rule S) (use tick [of alone "one_guard DropJoin (Sleeping 1) False 0 {} 0"] in \<open>simp add: one_guard_def\<close>)
  then have "guard_reachable alone (one_guard DropJoin Requested True 1 {} 0)"
    by (rule S) (use request [of "one_guard DropJoin (Sleeping 1) False 1 {} 0" 0 _ 1 alone] in \<open>simp add: set_guard_def one_guard_def\<close>)
  then have "guard_reachable alone (one_guard DropJoin (Loaded (Some 7)) True 1 {} 0)"
    by (rule S) (use load [of "one_guard DropJoin Requested True 1 {} 0" 0 _ alone] in \<open>simp add: set_guard_def one_guard_def\<close>)
  then have "guard_reachable alone (one_guard DropJoin TimerDone True 1 {7} 1)"
    by (rule S) (use terminate [of "one_guard DropJoin (Loaded (Some 7)) True 1 {} 0" 0 _ "Some 7" alone] in \<open>simp add: guard_defs one_guard_def\<close>)
  then show "guard_reachable alone (one_guard Joined TimerDone True 1 {7} 1)"
    by (rule S) (use join [of "one_guard DropJoin TimerDone True 1 {7} 1" 0 _ alone] in \<open>simp add: set_guard_def one_guard_def\<close>)
qed

lemma two_guards_reachable: "guard_reachable False (two_guards Guarding TimerDone True 1 {8} 1)"
proof -
  note S = guard_reachable_step
  have "guard_reachable False (two_guards Stored (Sleeping 1) False 0 {} 0)"
    by (rule S [OF one_guard_reachable(1)])
      (use store_ptr [of "one_guard Guarding (Sleeping 1) False 0 {} 0" 1 False _ 8 1000, OF _ _ refl] in \<open>simp add: set_guard_def one_guard_def two_guards_def numeral_2_eq_2\<close>)
  then have "guard_reachable False (two_guards Guarding (Sleeping 1) False 0 {} 0)"
    by (rule S) (use spawn [of "two_guards Stored (Sleeping 1) False 0 {} 0" 1 _ False] in \<open>simp add: set_guard_def two_guards_def\<close>)
  then have "guard_reachable False (two_guards Guarding (Sleeping 1) False 1 {} 0)"
    by (rule S) (use tick [of False "two_guards Guarding (Sleeping 1) False 0 {} 0"] in \<open>simp add: two_guards_def\<close>)
  then have "guard_reachable False (two_guards Guarding Requested True 1 {} 0)"
    by (rule S) (use request [of "two_guards Guarding (Sleeping 1) False 1 {} 0" 0 _ 1 False] in \<open>simp add: set_guard_def two_guards_def fun_upd_twist\<close>)
  then have "guard_reachable False (two_guards Guarding (Loaded (Some 8)) True 1 {} 0)"
    by (rule S) (use load [of "two_guards Guarding Requested True 1 {} 0" 0 _ False] in \<open>simp add: set_guard_def two_guards_def fun_upd_twist\<close>)
  then show ?thesis
    by (rule S) (use terminate [of "two_guards Guarding (Loaded (Some 8)) True 1 {} 0" 0 _ "Some 8" False] in \<open>simp add: guard_defs two_guards_def fun_upd_twist\<close>)
qed

section \<open>Properties\<close>

text \<open>
  The code cache is transparent for files that do not change while they are read and whose time stamp changes with their
  content: every call returns the content that the file has at that moment, whatever was read before.
\<close>

theorem code_cache_transparent:
  assumes "list_all (\<lambda>x. steady (snd x)) xs"
    "\<And>p f g. (p, f) \<in> set xs \<Longrightarrow> (p, g) \<in> set xs \<Longrightarrow> fa_before f = fa_before g \<Longrightarrow> fa_content f = fa_content g"
  shows "fst (run_reads xs (init_code_cache None)) = map (\<lambda>x. fa_content (snd x)) xs"
  by (rule run_reads_transparent [OF assms]) (auto simp: init_code_cache_def)

theorem code_cache_transparent_witness:
  "let f = (\<lambda>c t. \<lparr>fa_before = Some t, fa_content = Inr c, fa_after = Some t, fa_now = 9\<rparr>)
   in fst (run_reads [(''p'', f ''old'' 1), (''p'', f ''old'' 1), (''p'', f ''new'' 2)] (init_code_cache None)) = [Inr ''old'', Inr ''old'', Inr ''new'']"
proof -
  let ?f = "\<lambda>c t. \<lparr>fa_before = Some t, fa_content = Inr c, fa_after = Some t, fa_now = 9\<rparr> :: file_answers"
  let ?xs = "[(''p'', ?f ''old'' 1), (''p'', ?f ''old'' 1), (''p'', ?f ''new'' 2)]"
  have "fst (run_reads ?xs (init_code_cache None)) = map (\<lambda>x. fa_content (snd x)) ?xs"
    by (rule code_cache_transparent) (auto simp: steady_def)
  then show ?thesis by (simp add: Let_def)
qed

text \<open>
  A file that changes between the read of its content and the read of its time stamp is served stale from then on: the old content
  is stored with the new time stamp.
\<close>

theorem code_cache_race:
  assumes "fa_content f = Inr old" "fa_after f = Some t" "cache_hit p f c = None" "fa_before g = Some t"
  shows "fst (read_code_cached p g (snd (read_code_cached p f c))) = Inr old"
  using assms by (auto simp: read_code_cached_def cache_hit_def Let_def split: option.split)

theorem code_cache_race_witness:
  "let f = \<lparr>fa_before = Some 1, fa_content = Inr ''old'', fa_after = Some 2, fa_now = 9\<rparr>;
       g = \<lparr>fa_before = Some 2, fa_content = Inr ''new'', fa_after = Some 2, fa_now = 9\<rparr>
   in fst (read_code_cached ''p'' g (snd (read_code_cached ''p'' f None))) = Inr ''old''"
  using code_cache_race [of "\<lparr>fa_before = Some 1, fa_content = Inr ''old'', fa_after = Some 2, fa_now = 9\<rparr>" "''old''" 2 "''p''" None
    "\<lparr>fa_before = Some 2, fa_content = Inr ''new'', fa_after = Some 2, fa_now = 9\<rparr>"]
  by (simp add: cache_hit_def Let_def)

text \<open>
  C22. A CPU guard holds its request until the limit, and counts at most one timeout. In every interleaving of any number of guards, when the
  timer of a guard is joined at least the limit has passed since the guard was created, however early the guarded code was done, and there
  are never more counted timeouts than guards. While no other guard exists, a guard terminates only its own
  isolate, not before its limit, withdraws the termination at its end, and counts as exactly one timeout. With two guards at once the
  count can be too low: there is a run after which both have ended and one of them was not counted.
\<close>

theorem cpu_guard_timing:
  "(guard_reachable alone s \<and> gs_guards s t = Some g \<and> cg_phase g \<in> {Joined, Cancelled, PtrCleared} \<longrightarrow> cg_start g + cg_limit_ms g \<le> gs_clock s)
   \<and> (guard_reachable alone s \<longrightarrow> gs_timeouts s \<le> gs_created s)
   \<and> (guard_reachable True s \<longrightarrow>
        (\<forall>i \<in> gs_terminating s. \<exists>t g. gs_guards s = [t \<mapsto> g] \<and> cg_isolate g = i \<and> cg_start g + cg_limit_ms g \<le> gs_clock s)
        \<and> (gs_guards s = Map.empty \<longrightarrow> gs_terminating s = {} \<and> gs_timeouts s = gs_created s))
   \<and> (\<exists>s. guard_reachable False s \<and> gs_guards s = Map.empty \<and> gs_timeouts s < gs_created s)"
proof -
  have "cg_start g + cg_limit_ms g \<le> gs_clock s"
    if "guard_reachable alone s" "gs_guards s t = Some g" "cg_phase g \<in> {Joined, Cancelled, PtrCleared}"
    using guard_reachable_inv(1) [OF that(1)] that(2,3) unfolding on_time_def by blast
  moreover have "\<exists>t g. gs_guards s = [t \<mapsto> g] \<and> cg_isolate g = i \<and> cg_start g + cg_limit_ms g \<le> gs_clock s"
    if r: "guard_reachable True s" and i: "i \<in> gs_terminating s" for i
  proof -
    obtain t g where g: "gs_guards s = [t \<mapsto> g]" "owned g s" using guard_reachable_inv(2) [OF r] i by (auto simp: owns_def)
    then have "cg_isolate g = i" "cg_timer g = TimerDone" using i by (auto simp: owned_def)
    moreover have "cg_start g + cg_limit_ms g \<le> gs_clock s"
      using guard_reachable_inv(1) [OF r] g(1) calculation(2) unfolding on_time_def by (metis map_upd_Some_unfold)
    ultimately show ?thesis using g(1) by blast
  qed
  moreover have "gs_terminating s = {} \<and> gs_timeouts s = gs_created s" if "guard_reachable True s" "gs_guards s = Map.empty"
    using guard_reachable_inv(2) [OF that(1)] that(2) by (auto simp: owns_def fun_eq_iff split: if_splits)
  moreover have "gs_timeouts s \<le> gs_created s" if "guard_reachable alone s"
    using guard_reachable_counts [OF that] by (simp add: counts_once_def)
  moreover have "\<exists>s. guard_reachable False s \<and> gs_guards s = Map.empty \<and> gs_timeouts s < gs_created s"
    using guard_run_reachable [of uncounted_run] uncounted_run_result by (intro exI [of _ "fold guard_do uncounted_run guard_state_new"]) simp
  ultimately show ?thesis by (intro conjI) (blast | assumption)+
qed

theorem cpu_guard_timing_witness:
  "guard_reachable True (one_guard Joined TimerDone True 1 {7} 1)
   \<and> gs_terminating (one_guard Joined TimerDone True 1 {7} 1) \<subseteq> {7}"
proof -
  let ?s = "one_guard Joined TimerDone True 1 {7} 1"
  have "\<exists>t g. gs_guards ?s = [t \<mapsto> g] \<and> cg_isolate g = i \<and> cg_start g + cg_limit_ms g \<le> gs_clock ?s" if "i \<in> gs_terminating ?s" for i
    using cpu_guard_timing [of True ?s] one_guard_reachable(2) [of True] that by blast
  then show ?thesis using one_guard_reachable(2) [of True] by (auto simp: one_guard_def)
qed

text \<open>
  Two guards at once terminate the wrong isolate. The pointer to the isolate is one variable of the process: the timer of the first
  guard loads the isolate of the second, which is told to terminate long before its limit, while the first isolate
  runs on after its timer is done.
\<close>

theorem cpu_guards_interfere:
  "\<exists>s g h. guard_reachable False s \<and> gs_guards s 0 = Some g \<and> gs_guards s 1 = Some h \<and> cg_isolate g = 7 \<and> cg_isolate h = 8
     \<and> cg_timer g = TimerDone \<and> cg_phase g = Guarding \<and> 7 \<notin> gs_terminating s
     \<and> 8 \<in> gs_terminating s \<and> gs_clock s < cg_start h + cg_limit_ms h"
  using two_guards_reachable by (intro exI [of _ "two_guards Guarding TimerDone True 1 {8} 1"]) (simp add: two_guards_def)

end
