(* ===== verification/Control_Plane.thy ===== *)
theory Control_Plane
  imports Http_Types Nano_Limits
begin

text \<open>
  The control plane (\<^verbatim>\<open>src/src/control_plane.rs\<close>): tenant registry, request validation, and the
  batch queue. The assertion macros of \<^verbatim>\<open>src/src/assertions.rs\<close> abort with a panic; a panic is the
  outcome \<open>Panic\<close>. A panic while a mutex guard is alive poisons the mutex, and every later
  \<^verbatim>\<open>lock().unwrap()\<close> panics: the flag \<open>bq_poisoned\<close>. Instants are milliseconds. A task carries
  everything but its response channel.
\<close>

section \<open>Definitions\<close>

definition BATCH_SIZE_MAX :: nat where "BATCH_SIZE_MAX = 64"
definition BATCH_WAIT_MS :: u32 where "BATCH_WAIT_MS = 10"
definition MAX_PENDING_BATCHES :: nat where "MAX_PENDING_BATCHES = 10000"
definition MAX_ENTRYPOINT_PATH_LEN :: nat where "MAX_ENTRYPOINT_PATH_LEN = 4096"
definition MAX_REQUEST_ID_LEN :: nat where "MAX_REQUEST_ID_LEN = 64"

datatype control_error =
    ValidationError string
  | TenantNotFound string
  | LimitExceeded string
  | NotInitialized
  | QueueFull
  | DispatchError string

definition show_control_error :: "control_error \<Rightarrow> string" where
  "show_control_error e = (case e of
       ValidationError m \<Rightarrow> ''Validation error: '' @ m
     | TenantNotFound t \<Rightarrow> ''Tenant not found: '' @ t
     | LimitExceeded l \<Rightarrow> ''Limit exceeded: '' @ l
     | NotInitialized \<Rightarrow> ''Control plane not initialized''
     | QueueFull \<Rightarrow> ''Batch queue full''
     | DispatchError m \<Rightarrow> ''Dispatch error: '' @ m)"

record handler_task =
  task_entrypoint :: string
  task_request :: nano_request
  task_hostname :: string
  task_cpu_time_limit_ms :: u32
  task_request_id :: string
  task_memory_limit_mb :: u32
  task_ws :: bool

record validated_request =
  vr_task :: handler_task
  vr_script_size :: u32
  vr_timeout_ms :: u32
  vr_priority :: u32
  vr_validated_at :: nat

record request_batch =
  rb_tenant_id :: string
  rb_requests :: "validated_request list"
  rb_created_at :: nat

record tenant_limits =
  max_script_size :: u32
  max_timeout_ms :: u32
  tl_max_batch_size :: u32
  allowed_methods :: "string list"

definition default_tenant_limits :: tenant_limits where
  "default_tenant_limits = \<lparr>max_script_size = SCRIPT_SIZE_BYTES_MAX, max_timeout_ms = TIMEOUT_MS,
     tl_max_batch_size = of_nat BATCH_SIZE_MAX,
     allowed_methods = [''GET'', ''POST'', ''PUT'', ''DELETE'', ''PATCH'', ''HEAD'', ''OPTIONS'']\<rparr>"

record control_metrics =
  requests_submitted :: u64
  requests_validated :: u64
  requests_rejected :: u64
  batches_created :: u64
  batches_flushed :: u64
  batches_timeout_flushed :: u64
  batches_size_flushed :: u64
  total_validation_time_us :: u64

definition default_control_metrics :: control_metrics where
  "default_control_metrics = \<lparr>requests_submitted = 0, requests_validated = 0, requests_rejected = 0,
     batches_created = 0, batches_flushed = 0, batches_timeout_flushed = 0,
     batches_size_flushed = 0, total_validation_time_us = 0\<rparr>"

record pending_batch =
  pb_requests :: "validated_request list"
  pb_created_at :: nat

record batch_queue =
  pending :: "(string \<times> pending_batch) list"
  max_batch_size :: nat
  max_batch_wait_ms :: u32

record control_plane =
  is_initialized :: bool
  cp_queue :: batch_queue
  bq_poisoned :: bool
  cp_metrics :: control_metrics
  next_id :: u64
  tenant_registry :: "(string \<times> tenant_limits) list"

subsection \<open>The batch queue\<close>

definition batch_queue_new :: "nat \<Rightarrow> u32 \<Rightarrow> batch_queue outcome" where
  "batch_queue_new sz wait =
     (if sz > 0 \<and> wait > 0 \<and> (1 \<le> sz \<and> sz \<le> 1000) \<and> (1 \<le> wait \<and> wait \<le> 1000)
      then Ret \<lparr>pending = [], max_batch_size = sz, max_batch_wait_ms = wait\<rparr> else Panic)"

definition pending_count :: "batch_queue \<Rightarrow> nat" where
  "pending_count q = length (pending q)"

definition flush_batch :: "string \<Rightarrow> batch_queue \<Rightarrow> u64 outcome \<times> batch_queue" where
  "flush_batch tenant q = (case map_of (pending q) tenant of
       Some batch \<Rightarrow>
         (if pb_requests batch \<noteq> [] then Ret (of_nat (length (pb_requests batch))) else Panic,
          q\<lparr>pending := AList.delete tenant (pending q)\<rparr>)
     | None \<Rightarrow> (Ret 0, q))"

definition add_to_batch :: "nat \<Rightarrow> validated_request \<Rightarrow> batch_queue \<Rightarrow> u64 outcome \<times> batch_queue" where
  "add_to_batch now request q =
     (let tenant = task_hostname (vr_task request) in
      if tenant = [] then (Panic, q)
      else
        let batch = (case map_of (pending q) tenant of
              Some b \<Rightarrow> b | None \<Rightarrow> \<lparr>pb_requests = [], pb_created_at = now\<rparr>) in
        if \<not> length (pb_requests batch) < max_batch_size q
        then (Panic, q\<lparr>pending := AList.update tenant batch (pending q)\<rparr>)
        else
          let batch' = batch\<lparr>pb_requests := pb_requests batch @ [request]\<rparr>;
              q' = q\<lparr>pending := AList.update tenant batch' (pending q)\<rparr>;
              current_size = length (pb_requests batch') in
          if current_size \<ge> max_batch_size q then flush_batch tenant q'
          else (Ret (of_nat current_size), q'))"

text \<open>The age of a batch in milliseconds is cast to 32 bits; the comparison doubles the wait.\<close>

definition batch_age :: "nat \<Rightarrow> pending_batch \<Rightarrow> u32" where
  "batch_age now b = of_nat (now - pb_created_at b)"

definition batch_due :: "nat \<Rightarrow> batch_queue \<Rightarrow> pending_batch \<Rightarrow> bool" where
  "batch_due now q b =
     (length (pb_requests b) \<ge> max_batch_size q \<or> batch_age now b \<ge> max_batch_wait_ms q)"

definition drain_ready_batches :: "nat \<Rightarrow> batch_queue \<Rightarrow> request_batch list outcome \<times> batch_queue" where
  "drain_ready_batches now q =
     (if \<not> list_all (\<lambda>tb. batch_age now (snd tb) \<le> max_batch_wait_ms q * 2) (pending q)
      then (Panic, q)
      else
        let due = filter (\<lambda>tb. batch_due now q (snd tb)) (pending q)
        in (Ret (map (\<lambda>tb. \<lparr>rb_tenant_id = fst tb, rb_requests = pb_requests (snd tb),
                  rb_created_at = now\<rparr>) due),
            q\<lparr>pending := fold (\<lambda>tb. AList.delete (fst tb)) due (pending q)\<rparr>))"

definition drain_all_batches :: "batch_queue \<Rightarrow> request_batch list \<times> batch_queue" where
  "drain_all_batches q =
     (map (\<lambda>tb. \<lparr>rb_tenant_id = fst tb, rb_requests = pb_requests (snd tb),
          rb_created_at = pb_created_at (snd tb)\<rparr>)
        (filter (\<lambda>tb. pb_requests (snd tb) \<noteq> []) (pending q)),
      q\<lparr>pending := []\<rparr>)"

subsection \<open>The control plane\<close>

definition control_plane_new :: control_plane where
  "control_plane_new = \<lparr>is_initialized = True,
     cp_queue = (case batch_queue_new BATCH_SIZE_MAX BATCH_WAIT_MS of Ret q \<Rightarrow> q
       | Panic \<Rightarrow> \<lparr>pending = [], max_batch_size = 0, max_batch_wait_ms = 0\<rparr>),
     bq_poisoned = False, cp_metrics = default_control_metrics, next_id = 0,
     tenant_registry = [(''default'', default_tenant_limits)]\<rparr>"

definition tenant_exists :: "control_plane \<Rightarrow> string \<Rightarrow> bool" where
  "tenant_exists cp tenant =
     (if tenant = [] then True
      else map_of (tenant_registry cp) tenant \<noteq> None \<or> tenant = ''default'' \<or> tenant = ''localhost'')"

definition task_body_size :: "handler_task \<Rightarrow> nat" where
  "task_body_size t = (case req_body (task_request t) of Some b \<Rightarrow> length b | None \<Rightarrow> 0)"

definition task_timeout_ms :: "handler_task \<Rightarrow> u32" where
  "task_timeout_ms t = (if task_cpu_time_limit_ms t > 0 then task_cpu_time_limit_ms t else TIMEOUT_MS)"

definition validate_request_ref :: "control_plane \<Rightarrow> handler_task \<Rightarrow> (control_error + unit) outcome" where
  "validate_request_ref cp task =
     (let script_size = of_nat (length (task_entrypoint task)) :: u32;
          timeout_ms = task_timeout_ms task in
      if \<not> script_size > 0 then Panic
      else if script_size > SCRIPT_SIZE_BYTES_MAX then Panic
      else if \<not> (1 \<le> unat timeout_ms \<and> unat timeout_ms \<le> unat TIMEOUT_MS) then Panic
      else if \<not> tenant_exists cp (task_hostname task) then Panic
      else if \<not> task_body_size task \<le> unat REQUEST_SIZE_BYTES_MAX then Panic
      else if \<not> timeout_ms > 0 then Panic
      else Ret (Inr ()))"

definition validate_request ::
  "nat \<Rightarrow> control_plane \<Rightarrow> handler_task \<Rightarrow> (control_error + validated_request) outcome" where
  "validate_request now cp task =
     (let script_size = of_nat (length (task_entrypoint task)) :: u32;
          timeout_ms = task_timeout_ms task in
      if \<not> script_size > 0 then Panic
      else if script_size > SCRIPT_SIZE_BYTES_MAX then Panic
      else if \<not> (1 \<le> unat timeout_ms \<and> unat timeout_ms \<le> unat TIMEOUT_MS) then Panic
      else if \<not> tenant_exists cp (task_hostname task) then Panic
      else if (case map_of (tenant_registry cp) (task_hostname task) of
                 Some l \<Rightarrow> \<not> tl_max_batch_size l \<le> of_nat BATCH_SIZE_MAX | None \<Rightarrow> False) then Panic
      else if \<not> timeout_ms > 0 then Panic
      else Ret (Inr \<lparr>vr_task = task, vr_script_size = script_size, vr_timeout_ms = timeout_ms,
             vr_priority = 5, vr_validated_at = now\<rparr>))"

text \<open>The assertions of \<^verbatim>\<open>submit_request\<close> before validation, in order.\<close>

definition submit_checks :: "control_plane \<Rightarrow> handler_task \<Rightarrow> bool" where
  "submit_checks cp task =
     (is_initialized cp
      \<and> task_entrypoint task \<noteq> []
      \<and> \<not> length (task_entrypoint task) > MAX_ENTRYPOINT_PATH_LEN
      \<and> (1 \<le> length (task_entrypoint task) \<and> length (task_entrypoint task) \<le> MAX_ENTRYPOINT_PATH_LEN)
      \<and> task_hostname task \<noteq> []
      \<and> \<not> CHR 0x00 \<in> set (task_hostname task)
      \<and> req_method (task_request task) \<noteq> []
      \<and> task_body_size task \<le> unat REQUEST_SIZE_BYTES_MAX
      \<and> \<not> task_body_size task > unat BODY_SIZE_BYTES_MAX
      \<and> unat (task_cpu_time_limit_ms task) \<le> unat TIMEOUT_MS
      \<and> task_request_id task \<noteq> []
      \<and> length (task_request_id task) \<le> MAX_REQUEST_ID_LEN
      \<and> tenant_exists cp (task_hostname task))"

text \<open>\<open>elapsed\<close> is the time the code measures for the metrics, in microseconds.\<close>

definition submit_request ::
  "nat \<Rightarrow> u64 \<Rightarrow> handler_task \<Rightarrow> control_plane \<Rightarrow> (control_error + u64) outcome \<times> control_plane" where
  "submit_request now elapsed task cp =
     (if \<not> submit_checks cp task then (Panic, cp)
      else case validate_request now cp task of
        Panic \<Rightarrow> (Panic, cp)
      | Ret (Inl e) \<Rightarrow> (Ret (Inl e), cp)
      | Ret (Inr validated) \<Rightarrow>
          if \<not> vr_script_size validated > 0 then (Panic, cp)
          else if bq_poisoned cp then (Panic, cp)
          else (case add_to_batch now validated (cp_queue cp) of
              (Panic, q) \<Rightarrow> (Panic, cp\<lparr>cp_queue := q, bq_poisoned := True\<rparr>)
            | (Ret _, q) \<Rightarrow>
                let cp1 = cp\<lparr>cp_queue := q\<rparr> in
                if \<not> pending_count q \<le> MAX_PENDING_BATCHES
                then (Panic, cp1\<lparr>bq_poisoned := True\<rparr>)
                else
                  let m = cp_metrics cp1;
                      m' = m\<lparr>requests_submitted := requests_submitted m + 1,
                        requests_validated := requests_validated m + 1,
                        total_validation_time_us := total_validation_time_us m + elapsed\<rparr>
                  in (Ret (Inr (next_id cp1)), cp1\<lparr>cp_metrics := m', next_id := next_id cp1 + 1\<rparr>)))"

definition batch_checks :: "request_batch \<Rightarrow> bool" where
  "batch_checks b = (rb_requests b \<noteq> []
     \<and> (1 \<le> length (rb_requests b) \<and> length (rb_requests b) \<le> BATCH_SIZE_MAX)
     \<and> rb_tenant_id b \<noteq> [])"

definition count_flushed :: "nat \<Rightarrow> control_plane \<Rightarrow> control_plane" where
  "count_flushed n cp = cp\<lparr>cp_metrics := (cp_metrics cp)
     \<lparr>batches_flushed := batches_flushed (cp_metrics cp) + of_nat n\<rparr>\<rparr>"

definition process_batches :: "nat \<Rightarrow> control_plane \<Rightarrow> request_batch list outcome \<times> control_plane" where
  "process_batches now cp =
     (if \<not> is_initialized cp \<or> bq_poisoned cp then (Panic, cp)
      else case drain_ready_batches now (cp_queue cp) of
        (Panic, q) \<Rightarrow> (Panic, cp\<lparr>cp_queue := q, bq_poisoned := True\<rparr>)
      | (Ret batches, q) \<Rightarrow>
          if list_all batch_checks batches \<and> length batches \<le> MAX_PENDING_BATCHES
          then (Ret batches, count_flushed (length batches) (cp\<lparr>cp_queue := q\<rparr>))
          else (Panic, cp\<lparr>cp_queue := q, bq_poisoned := True\<rparr>))"

definition flush_all :: "control_plane \<Rightarrow> request_batch list outcome \<times> control_plane" where
  "flush_all cp =
     (if \<not> is_initialized cp \<or> bq_poisoned cp then (Panic, cp)
      else let (batches, q) = drain_all_batches (cp_queue cp)
           in (Ret batches, count_flushed (length batches) (cp\<lparr>cp_queue := q\<rparr>)))"

definition register_tenant :: "string \<Rightarrow> tenant_limits \<Rightarrow> control_plane \<Rightarrow> unit outcome \<times> control_plane" where
  "register_tenant tenant l cp =
     (if tenant \<noteq> [] \<and> CHR 0x00 \<notin> set tenant
         \<and> (1 \<le> max_script_size l \<and> max_script_size l \<le> SCRIPT_SIZE_BYTES_MAX)
         \<and> (100 \<le> max_timeout_ms l \<and> max_timeout_ms l \<le> TIMEOUT_MS)
      then (Ret (), cp\<lparr>tenant_registry := AList.update tenant l (tenant_registry cp)\<rparr>)
      else (Panic, cp))"

definition pending_batch_count :: "control_plane \<Rightarrow> nat outcome" where
  "pending_batch_count cp = (if bq_poisoned cp then Panic else Ret (pending_count (cp_queue cp)))"

text \<open>
  The limits the work queue registers (\<^verbatim>\<open>WorkQueue::with_vfs_config\<close>, \<^verbatim>\<open>ensure_tenant\<close> in
  \<^verbatim>\<open>src/src/worker/queue.rs\<close>).
\<close>

definition queue_tenant_limits :: tenant_limits where
  "queue_tenant_limits = \<lparr>max_script_size = 10 * 1024 * 1024, max_timeout_ms = 30000,
     tl_max_batch_size = 100, allowed_methods = [''GET'', ''POST'', ''PUT'', ''DELETE'']\<rparr>"

definition ensure_tenant :: "string \<Rightarrow> control_plane \<Rightarrow> unit outcome \<times> control_plane" where
  "ensure_tenant h cp =
     (if \<not> tenant_exists cp h then register_tenant h queue_tenant_limits cp else (Ret (), cp))"

text \<open>The batch a request of tenant \<open>t\<close> joins.\<close>

definition batch_of :: "nat \<Rightarrow> string \<Rightarrow> batch_queue \<Rightarrow> pending_batch" where
  "batch_of now t q = (case map_of (pending q) t of
     Some b \<Rightarrow> b | None \<Rightarrow> \<lparr>pb_requests = [], pb_created_at = now\<rparr>)"

text \<open>The invariant of the batch queue.\<close>

definition bq_inv :: "batch_queue \<Rightarrow> bool" where
  "bq_inv q = (max_batch_size q = BATCH_SIZE_MAX \<and> max_batch_wait_ms q = BATCH_WAIT_MS
     \<and> distinct (map fst (pending q))
     \<and> (\<forall>(t, b) \<in> set (pending q). t \<noteq> [] \<and> pb_requests b \<noteq> []
          \<and> length (pb_requests b) < BATCH_SIZE_MAX
          \<and> (\<forall>r \<in> set (pb_requests b). task_hostname (vr_task r) = t)))"

text \<open>A task of the tenant \<^verbatim>\<open>default\<close> for the witnesses.\<close>

definition sample_task :: "string \<Rightarrow> handler_task" where
  "sample_task h = \<lparr>task_entrypoint = ''app.js'',
     task_request = \<lparr>req_method = ''GET'', url = \<lparr>href = ''http://h/'', pathname = ''/'',
       url_search_params = \<lparr>params = []\<rparr>\<rparr>, req_headers = headers_new, req_body = None\<rparr>,
     task_hostname = h, task_cpu_time_limit_ms = 50, task_request_id = ''req_1'',
     task_memory_limit_mb = 0, task_ws = False\<rparr>"

datatype cp_op =
    Submit nat u64 handler_task
  | Process nat
  | FlushAll
  | RegisterTenant string tenant_limits
  | EnsureTenant string

definition cp_step :: "cp_op \<Rightarrow> control_plane \<Rightarrow> control_plane" where
  "cp_step x cp = (case x of
       Submit now el t \<Rightarrow> snd (submit_request now el t cp)
     | Process now \<Rightarrow> snd (process_batches now cp)
     | FlushAll \<Rightarrow> snd (flush_all cp)
     | RegisterTenant t l \<Rightarrow> snd (register_tenant t l cp)
     | EnsureTenant h \<Rightarrow> snd (ensure_tenant h cp))"

section \<open>The invariant of the batch queue\<close>

lemma bq_inv_entry:
  "\<lbrakk>bq_inv q; map_of (pending q) t = Some b\<rbrakk> \<Longrightarrow>
     t \<noteq> [] \<and> pb_requests b \<noteq> [] \<and> length (pb_requests b) < 64
     \<and> (\<forall>r \<in> set (pb_requests b). task_hostname (vr_task r) = t)"
  by (auto simp: bq_inv_def BATCH_SIZE_MAX_def dest!: map_of_SomeD)

lemma bq_inv_delete: "bq_inv q \<Longrightarrow> bq_inv (q\<lparr>pending := AList.delete t (pending q)\<rparr>)"
  using set_alist_delete [of t "pending q"] AList.distinct_delete [of "pending q" t]
  by (simp add: bq_inv_def) blast

lemma bq_inv_fold_delete:
  "bq_inv q \<Longrightarrow> bq_inv (q\<lparr>pending := fold (\<lambda>tb. AList.delete (fst tb)) due (pending q)\<rparr>)"
proof (induction due arbitrary: q)
  case (Cons tb due)
  from Cons.IH [OF bq_inv_delete [OF Cons.prems, of "fst tb"]] show ?case by simp
qed simp

lemma bq_inv_update:
  assumes "bq_inv q" "t \<noteq> []" "pb_requests b \<noteq> []" "length (pb_requests b) < 64"
    "\<forall>r \<in> set (pb_requests b). task_hostname (vr_task r) = t"
  shows "bq_inv (q\<lparr>pending := AList.update t b (pending q)\<rparr>)"
  using assms set_alist_update [of t b "pending q"] AList.distinct_update [of "pending q" t b]
  by (fastforce simp: bq_inv_def BATCH_SIZE_MAX_def)

lemma batch_of_size:
  "bq_inv q \<Longrightarrow> length (pb_requests (batch_of now t q)) < 64
     \<and> (\<forall>r \<in> set (pb_requests (batch_of now t q)). task_hostname (vr_task r) = t)"
  using bq_inv_entry [of q t] by (auto simp: batch_of_def split: option.split)

lemma add_to_batch_eq:
  assumes "bq_inv q" "task_hostname (vr_task r) \<noteq> []"
  shows "add_to_batch now r q =
     (let t = task_hostname (vr_task r);
          b = batch_of now t q; n = length (pb_requests b) + 1 in
      (Ret (of_nat n),
       if n = 64 then q\<lparr>pending := AList.delete t (pending q)\<rparr>
       else q\<lparr>pending := AList.update t (b\<lparr>pb_requests := pb_requests b @ [r]\<rparr>) (pending q)\<rparr>))"
proof -
  let ?t = "task_hostname (vr_task r)"
  have m: "max_batch_size q = 64" using assms(1) by (simp add: bq_inv_def BATCH_SIZE_MAX_def)
  have "AList.delete ?t (AList.update ?t b (pending q)) = AList.delete ?t (pending q)" for b
    by (rule delete_after_update)
  then show ?thesis
    using m assms(2) batch_of_size [OF assms(1), of now ?t]
    by (auto simp: add_to_batch_def flush_batch_def Let_def batch_of_def [symmetric])
qed

lemma add_to_batch_inv:
  assumes "bq_inv q" "task_hostname (vr_task r) \<noteq> []"
  shows "bq_inv (snd (add_to_batch now r q))"
  using batch_of_size [OF assms(1), of now "task_hostname (vr_task r)"] assms
  by (auto simp: add_to_batch_eq Let_def intro!: bq_inv_delete bq_inv_update)

lemma drain_ready_inv: "bq_inv q \<Longrightarrow> bq_inv (snd (drain_ready_batches now q))"
  by (simp add: drain_ready_batches_def Let_def bq_inv_fold_delete)

lemma validate_request_task:
  "validate_request now cp t = Ret (Inr v) \<Longrightarrow> vr_task v = t \<and> vr_script_size v > 0"
  by (auto simp: validate_request_def Let_def split: if_splits)

lemma submit_request_inv:
  assumes "bq_inv (cp_queue cp)"
  shows "bq_inv (cp_queue (snd (submit_request now el t cp)))"
proof (cases "submit_checks cp t")
  case True
  then have h: "task_hostname t \<noteq> []" by (simp add: submit_checks_def)
  show ?thesis
  proof (cases "validate_request now cp t")
    case (Ret x)
    show ?thesis
    proof (cases x)
      case (Inr v)
      have "bq_inv (snd (add_to_batch now v (cp_queue cp)))"
        using add_to_batch_inv [OF assms, of v now] validate_request_task [of now cp t v] Ret Inr h by simp
      then show ?thesis
        using True Ret Inr assms
        by (cases "add_to_batch now v (cp_queue cp)"; cases "fst (add_to_batch now v (cp_queue cp))")
          (auto simp: submit_request_def Let_def)
    qed (use True Ret assms in \<open>simp add: submit_request_def\<close>)
  qed (use True assms in \<open>simp add: submit_request_def\<close>)
qed (use assms in \<open>simp add: submit_request_def\<close>)

lemma process_batches_inv:
  "bq_inv (cp_queue cp) \<Longrightarrow> bq_inv (cp_queue (snd (process_batches now cp)))"
  using drain_ready_inv [of "cp_queue cp" now]
  by (auto simp: process_batches_def count_flushed_def split: prod.splits outcome.splits)

lemma cp_step_inv: "bq_inv (cp_queue cp) \<Longrightarrow> bq_inv (cp_queue (cp_step x cp))"
proof (cases x)
  case FlushAll
  assume "bq_inv (cp_queue cp)"
  then show ?thesis
    by (simp add: cp_step_def FlushAll flush_all_def drain_all_batches_def count_flushed_def bq_inv_def)
qed (simp_all add: cp_step_def submit_request_inv process_batches_inv register_tenant_def ensure_tenant_def)

lemma control_plane_new_inv: "bq_inv (cp_queue control_plane_new)"
  by (simp add: control_plane_new_def batch_queue_new_def bq_inv_def BATCH_SIZE_MAX_def BATCH_WAIT_MS_def)

lemma cp_run_inv: "bq_inv (cp_queue cp) \<Longrightarrow> bq_inv (cp_queue (fold cp_step xs cp))"
  by (induction xs arbitrary: cp) (simp_all add: cp_step_inv)

lemma submit_accepts:
  assumes "bq_inv (cp_queue cp)" "submit_checks cp t" "validate_request now cp t = Ret (Inr v)"
    "\<not> bq_poisoned cp" "pending_count (snd (add_to_batch now v (cp_queue cp))) \<le> MAX_PENDING_BATCHES"
  shows "fst (submit_request now el t cp) = Ret (Inr (next_id cp))
     \<and> cp_queue (snd (submit_request now el t cp)) = snd (add_to_batch now v (cp_queue cp))"
proof -
  have v: "vr_task v = t" "vr_script_size v > 0" using validate_request_task [OF assms(3)] by auto
  moreover have "task_hostname (vr_task v) \<noteq> []" using assms(2) v by (simp add: submit_checks_def)
  then obtain n q where "add_to_batch now v (cp_queue cp) = (Ret n, q)"
    using add_to_batch_eq [OF assms(1)] by (auto simp: Let_def)
  ultimately show ?thesis
    using assms by (simp add: submit_request_def Let_def not_le)
qed

lemma delete_length: "length (AList.delete k m) \<le> length m"
  by (simp add: AList.delete_eq)

section \<open>Properties\<close>

text \<open>
  C18. In every reachable state each pending batch belongs to a named tenant, holds between 1
  and 63 requests, all of that tenant, and no tenant has two batches. Hence the assertion that
  guards the batch size never fires, and every batch that the queue hands out passes the
  checks that \<^verbatim>\<open>process_batches\<close> asserts.
\<close>

theorem batches_well_formed:
  "let q = cp_queue (fold cp_step xs control_plane_new) in
     distinct (map fst (pending q))
     \<and> list_all (\<lambda>(t, b). t \<noteq> [] \<and> length (pb_requests b) \<in> {1..63}
          \<and> list_all (\<lambda>r. task_hostname (vr_task r) = t) (pb_requests b)) (pending q)
     \<and> (task_hostname (vr_task r) \<noteq> [] \<longrightarrow> fst (add_to_batch now r q) \<noteq> Panic)
     \<and> (case fst (drain_ready_batches now q) of Panic \<Rightarrow> True | Ret bs \<Rightarrow> list_all batch_checks bs)"
proof -
  let ?q = "cp_queue (fold cp_step xs control_plane_new)"
  have i: "bq_inv ?q" by (rule cp_run_inv [OF control_plane_new_inv])
  then have e: "\<forall>(t, b) \<in> set (pending ?q). t \<noteq> [] \<and> pb_requests b \<noteq> []
      \<and> length (pb_requests b) < 64 \<and> (\<forall>r \<in> set (pb_requests b). task_hostname (vr_task r) = t)"
    by (simp add: bq_inv_def BATCH_SIZE_MAX_def)
  have "list_all (\<lambda>(t, b). t \<noteq> [] \<and> length (pb_requests b) \<in> {1..63}
      \<and> list_all (\<lambda>r. task_hostname (vr_task r) = t) (pb_requests b)) (pending ?q)"
    unfolding list_all_iff using e by (fastforce simp: Suc_le_eq)
  moreover have "list_all batch_checks (map (\<lambda>tb. \<lparr>rb_tenant_id = fst tb,
      rb_requests = pb_requests (snd tb), rb_created_at = now\<rparr>)
      (filter (\<lambda>tb. batch_due now ?q (snd tb)) (pending ?q)))"
    using e by (fastforce simp: list_all_iff batch_checks_def BATCH_SIZE_MAX_def Suc_le_eq)
  ultimately show ?thesis
    using i add_to_batch_eq [OF i, of r now]
    by (auto simp: Let_def bq_inv_def drain_ready_batches_def)
qed

theorem batches_well_formed_witness:
  "fst (add_to_batch 0 \<lparr>vr_task = sample_task ''default'', vr_script_size = 6, vr_timeout_ms = 50,
      vr_priority = 5, vr_validated_at = 0\<rparr>
      (cp_queue (fold cp_step [Submit 0 1 (sample_task ''default'')] control_plane_new))) \<noteq> Panic"
proof -
  let ?r = "\<lparr>vr_task = sample_task ''default'', vr_script_size = 6, vr_timeout_ms = 50,
      vr_priority = 5, vr_validated_at = 0\<rparr>"
  have "task_hostname (vr_task ?r) \<noteq> []" by (simp add: sample_task_def)
  with batches_well_formed [of "[Submit 0 1 (sample_task ''default'')]" ?r 0]
  show ?thesis unfolding Let_def by blast
qed

text \<open>
  A batch that fills up is lost: when a tenant has 63 pending requests, the next accepted
  request is answered with a submission number, but the batch of 64 is removed from the queue
  and handed to nobody. No later drain can return these requests.
\<close>

theorem full_batch_dropped:
  assumes "bq_inv (cp_queue cp)" "submit_checks cp t" "validate_request now cp t = Ret (Inr v)"
    "\<not> bq_poisoned cp" "pending_count (cp_queue cp) \<le> MAX_PENDING_BATCHES"
    "map_of (pending (cp_queue cp)) (task_hostname t) = Some b" "length (pb_requests b) = 63"
  shows "fst (submit_request now el t cp) = Ret (Inr (next_id cp))
     \<and> pending (cp_queue (snd (submit_request now el t cp))) =
         AList.delete (task_hostname t) (pending (cp_queue cp))"
proof -
  have v: "vr_task v = t" using validate_request_task [OF assms(3)] by simp
  have "task_hostname (vr_task v) \<noteq> []" using assms(2) v by (simp add: submit_checks_def)
  then have q: "snd (add_to_batch now v (cp_queue cp)) =
      (cp_queue cp)\<lparr>pending := AList.delete (task_hostname t) (pending (cp_queue cp))\<rparr>"
    using add_to_batch_eq [OF assms(1)] assms(6,7) v by (simp add: Let_def batch_of_def)
  have "pending_count (snd (add_to_batch now v (cp_queue cp))) \<le> MAX_PENDING_BATCHES"
    using assms(5) delete_length [of "task_hostname t" "pending (cp_queue cp)"]
    by (simp add: q pending_count_def)
  from submit_accepts [OF assms(1-4) this, of el] q show ?thesis by simp
qed

theorem full_batch_dropped_witness:
  "let r = \<lparr>vr_task = sample_task ''default'', vr_script_size = 6, vr_timeout_ms = 50,
         vr_priority = 5, vr_validated_at = 0\<rparr>;
       cp = control_plane_new\<lparr>cp_queue := \<lparr>pending =
         [(''default'', \<lparr>pb_requests = replicate 63 r, pb_created_at = 0\<rparr>)],
         max_batch_size = 64, max_batch_wait_ms = 10\<rparr>\<rparr>
   in fst (submit_request 0 1 (sample_task ''default'') cp) = Ret (Inr 0)
      \<and> pending (cp_queue (snd (submit_request 0 1 (sample_task ''default'') cp))) = []"
proof -
  let ?t = "sample_task ''default''"
  let ?r = "\<lparr>vr_task = ?t, vr_script_size = 6, vr_timeout_ms = 50, vr_priority = 5, vr_validated_at = 0\<rparr>"
  let ?b = "\<lparr>pb_requests = replicate 63 ?r, pb_created_at = 0\<rparr>"
  let ?cp = "control_plane_new\<lparr>cp_queue := \<lparr>pending = [(''default'', ?b)],
         max_batch_size = 64, max_batch_wait_ms = 10\<rparr>\<rparr>"
  have h: "task_hostname ?t = ''default''" by (simp add: sample_task_def)
  have i: "bq_inv (cp_queue ?cp)" by (simp add: bq_inv_def BATCH_SIZE_MAX_def BATCH_WAIT_MS_def h)
  have c: "submit_checks ?cp ?t"
    by (simp add: submit_checks_def sample_task_def control_plane_new_def tenant_exists_def
        task_body_size_def MAX_ENTRYPOINT_PATH_LEN_def MAX_REQUEST_ID_LEN_def TIMEOUT_MS_def)
  have v: "validate_request 0 ?cp ?t = Ret (Inr ?r)"
    by (simp add: validate_request_def sample_task_def control_plane_new_def tenant_exists_def
        task_timeout_ms_def SCRIPT_SIZE_BYTES_MAX_def TIMEOUT_MS_def default_tenant_limits_def)
  have p: "\<not> bq_poisoned ?cp" "pending_count (cp_queue ?cp) \<le> MAX_PENDING_BATCHES"
    by (simp_all add: control_plane_new_def pending_count_def MAX_PENDING_BATCHES_def)
  have b: "map_of (pending (cp_queue ?cp)) (task_hostname ?t) = Some ?b" "length (pb_requests ?b) = 63"
    by (simp_all add: h)
  have n: "next_id ?cp = 0" by (simp add: control_plane_new_def)
  from full_batch_dropped [OF i c v p b, of 1] n h show ?thesis by (simp add: Let_def AList.delete_eq)
qed

text \<open>
  Tenants that the work queue provisions cannot submit: \<^verbatim>\<open>ensure_tenant\<close> registers them with a
  batch size of 100, and validation asserts that it is at most 64, so submitting any task of
  such a tenant panics.
\<close>

theorem provisioned_tenant_submit_panics:
  assumes "\<not> tenant_exists cp h" "CHR 0x00 \<notin> set h" "task_hostname t = h"
  shows "fst (ensure_tenant h cp) = Ret ()
     \<and> fst (submit_request now el t (snd (ensure_tenant h cp))) = Panic"
proof -
  have h: "h \<noteq> []" using assms(1) by (auto simp: tenant_exists_def)
  have e: "ensure_tenant h cp =
      (Ret (), cp\<lparr>tenant_registry := AList.update h queue_tenant_limits (tenant_registry cp)\<rparr>)"
    using assms h by (simp add: ensure_tenant_def register_tenant_def queue_tenant_limits_def
        SCRIPT_SIZE_BYTES_MAX_def TIMEOUT_MS_def)
  have "validate_request now (snd (ensure_tenant h cp)) t = Panic"
    using assms(3) by (simp add: e validate_request_def Let_def queue_tenant_limits_def BATCH_SIZE_MAX_def)
  then show ?thesis by (simp add: e submit_request_def)
qed

theorem provisioned_tenant_submit_panics_witness:
  "fst (submit_request 0 1 (sample_task ''my.app'') (snd (ensure_tenant ''my.app'' control_plane_new))) = Panic"
proof -
  have a: "\<not> tenant_exists control_plane_new ''my.app''"
    by (simp add: tenant_exists_def control_plane_new_def)
  have n: "CHR 0x00 \<notin> set ''my.app''" by simp
  have h: "task_hostname (sample_task ''my.app'') = ''my.app''" by (simp add: sample_task_def)
  from provisioned_tenant_submit_panics [OF a n h, of 0 1] show ?thesis by simp
qed

end
