(* ===== verification/Worker_Pool.thy ===== *)
theory Worker_Pool
  imports Control_Plane Config_App
begin

text \<open>
  Worker pools: the unified pool of \<^verbatim>\<open>src/src/worker/pool.rs\<close> and the tenant pool of
  \<^verbatim>\<open>src/src/worker/tenant_pool.rs\<close>. A worker thread appears through its channel: the tasks that
  were sent and not received yet, and whether the receiving end still exists. What a worker does
  with a task is JavaScript; it appears as the events \<open>wh_receive\<close> and \<open>wh_exit\<close>.
  Both pools hand out tasks through an atomic ticket that wraps; the locale \<open>task_pool\<close> states
  this contract once and is interpreted for both.
\<close>

section \<open>Definitions\<close>

subsection \<open>Worker handles\<close>

record worker_handle =
  wh_id :: u32
  wh_open :: bool
  wh_tasks :: "handler_task list"

definition handle_send :: "handler_task \<Rightarrow> worker_handle \<Rightarrow> (string + unit) \<times> worker_handle" where
  "handle_send t w = (if wh_open w then (Inr (), w\<lparr>wh_tasks := wh_tasks w @ [t]\<rparr>)
     else (Inl (''Worker '' @ show_nat (unat (wh_id w)) @ '' channel closed''), w))"

definition spawn_handle :: "nat \<Rightarrow> worker_handle" where
  "spawn_handle i = \<lparr>wh_id = of_nat i, wh_open = True, wh_tasks = []\<rparr>"

text \<open>Steps of the worker thread: it receives the oldest task, or exits and drops its channel.\<close>

definition wh_receive :: "worker_handle \<Rightarrow> worker_handle" where
  "wh_receive w = w\<lparr>wh_tasks := tl (wh_tasks w)\<rparr>"

definition wh_exit :: "worker_handle \<Rightarrow> worker_handle" where
  "wh_exit w = w\<lparr>wh_open := False, wh_tasks := []\<rparr>"

subsection \<open>The unified pool\<close>

text \<open>Which backend a pool's isolates use.\<close>

datatype store_choice = MemoryStore | DiskStore string

record worker_pool =
  wp_workers :: "worker_handle list"
  wp_worker_count :: u32
  wp_hostname :: string
  wp_next :: u32
  wp_backend :: store_choice
  wp_memory_limit_mb :: u32

definition with_source_and_backend ::
  "string \<Rightarrow> u32 \<Rightarrow> u32 \<Rightarrow> store_choice \<Rightarrow> worker_pool outcome" where
  "with_source_and_backend h n mem backend =
     (if n > 0 then Ret \<lparr>wp_workers = map spawn_handle [0..<unat n], wp_worker_count = n,
        wp_hostname = h, wp_next = 0, wp_backend = backend, wp_memory_limit_mb = mem\<rparr>
      else Panic)"

definition send_to :: "nat \<Rightarrow> handler_task \<Rightarrow> worker_handle list
    \<Rightarrow> (string + unit) outcome \<times> worker_handle list" where
  "send_to i t ws = (if i < length ws
     then (case handle_send t (ws ! i) of
         (Inr _, w) \<Rightarrow> (Ret (Inr ()), ws[i := w])
       | (Inl e, w) \<Rightarrow> (Ret (Inl (''Failed to dispatch to worker '' @ show_nat i @ '': '' @ e)), ws[i := w]))
     else (Panic, ws))"

definition pool_dispatch :: "worker_pool \<Rightarrow> handler_task \<Rightarrow> (string + unit) outcome \<times> worker_pool" where
  "pool_dispatch p t =
     (let ticket = wp_next p; p1 = p\<lparr>wp_next := wp_next p + 1\<rparr> in
      if wp_worker_count p = 0 then (Panic, p1)
      else let worker_idx = unat (ticket mod wp_worker_count p);
               (r, ws) = send_to worker_idx t (wp_workers p1)
           in (r, p1\<lparr>wp_workers := ws\<rparr>))"

definition pool_dispatch_to ::
  "worker_pool \<Rightarrow> u32 \<Rightarrow> handler_task \<Rightarrow> (string + unit) outcome \<times> worker_pool" where
  "pool_dispatch_to p worker_idx t =
     (if worker_idx \<ge> wp_worker_count p
      then (Ret (Inl (''Worker index '' @ show_nat (unat worker_idx) @ '' out of bounds (max ''
              @ show_nat (unat (wp_worker_count p - 1)) @ '')'')), p)
      else let (r, ws) = send_to (unat worker_idx) t (wp_workers p)
           in (r, p\<lparr>wp_workers := ws\<rparr>))"

subsection \<open>The tenant pool\<close>

text \<open>
  A WebSocket worker: waiting for its task, serving the connection, idle again, or finished. The
  thread counts itself in \<open>tp_ws_busy\<close> only when it receives its task.
\<close>

datatype ws_phase = WsStarting | WsServing | WsIdle | WsFinished

record tenant_pool =
  tp_hostname :: string
  tp_workers :: "worker_handle list"
  tp_next :: u64
  tp_ws_workers :: "ws_phase list"
  tp_ws_busy :: usize
  tp_max_ws_connections :: u32
  tp_ws_idle_timeout_ms :: u64

definition tenant_pool_new :: "string \<Rightarrow> u32 \<Rightarrow> app_limits \<Rightarrow> tenant_pool" where
  "tenant_pool_new h n l = \<lparr>tp_hostname = h, tp_workers = map spawn_handle [0..<unat n], tp_next = 0,
     tp_ws_workers = [], tp_ws_busy = 0,
     tp_max_ws_connections = effective_max_ws_connections l,
     tp_ws_idle_timeout_ms = effective_ws_idle_timeout_ms l\<rparr>"

definition tenant_dispatch :: "tenant_pool \<Rightarrow> handler_task \<Rightarrow> (string + unit) outcome \<times> tenant_pool" where
  "tenant_dispatch p t =
     (let ticket = tp_next p; p1 = p\<lparr>tp_next := tp_next p + 1\<rparr> in
      if tp_workers p = [] then (Panic, p1)
      else let worker_idx = unat ticket mod length (tp_workers p)
           in (case handle_send t (tp_workers p ! worker_idx) of
                 (Inr _, w) \<Rightarrow> (Ret (Inr ()), p1\<lparr>tp_workers := (tp_workers p)[worker_idx := w]\<rparr>)
               | (Inl _, _) \<Rightarrow> (Ret (Inl ''Worker channel closed''), p1)))"

definition dispatch_ws :: "tenant_pool \<Rightarrow> (string + unit) \<times> tenant_pool" where
  "dispatch_ws p =
     (if unat (tp_ws_busy p) \<ge> unat (tp_max_ws_connections p)
      then (Inl (''WebSocket connection limit reached ('' @ show_nat (unat (tp_ws_busy p)) @ ''/''
              @ show_nat (unat (tp_max_ws_connections p)) @ '')''), p)
      else (Inr (), p\<lparr>tp_ws_workers :=
              filter (\<lambda>w. w \<noteq> WsFinished) (tp_ws_workers p) @ [WsStarting]\<rparr>))"

text \<open>Steps of the WebSocket worker \<open>i\<close>: it receives its task, the connection ends.\<close>

definition ws_start :: "nat \<Rightarrow> tenant_pool \<Rightarrow> tenant_pool" where
  "ws_start i p = (if i < length (tp_ws_workers p) \<and> tp_ws_workers p ! i = WsStarting
     then p\<lparr>tp_ws_workers := (tp_ws_workers p)[i := WsServing], tp_ws_busy := tp_ws_busy p + 1\<rparr>
     else p)"

definition ws_end :: "nat \<Rightarrow> tenant_pool \<Rightarrow> tenant_pool" where
  "ws_end i p = (if i < length (tp_ws_workers p) \<and> tp_ws_workers p ! i = WsServing
     then p\<lparr>tp_ws_workers := (tp_ws_workers p)[i := WsIdle], tp_ws_busy := tp_ws_busy p - 1\<rparr>
     else p)"

subsection \<open>Specification vocabulary\<close>

text \<open>The tasks of \<open>ts\<close> that worker \<open>i\<close> of \<open>n\<close> receives when the first ticket is \<open>k\<close>.\<close>

definition share :: "nat \<Rightarrow> nat \<Rightarrow> nat \<Rightarrow> 't list \<Rightarrow> 't list" where
  "share n i k ts = map snd (filter (\<lambda>(j, t). j mod n = i) (enumerate k ts))"

definition wp_inv :: "worker_pool \<Rightarrow> bool" where
  "wp_inv p = (wp_worker_count p > 0 \<and> length (wp_workers p) = unat (wp_worker_count p))"

definition tp_inv :: "tenant_pool \<Rightarrow> bool" where
  "tp_inv p = (tp_workers p \<noteq> [])"

definition ws_inv :: "tenant_pool \<Rightarrow> bool" where
  "ws_inv p = (tp_ws_busy p = of_nat (length (filter (\<lambda>w. w = WsServing) (tp_ws_workers p))))"

datatype ws_op = WsDispatch | WsStart nat | WsEnd nat

definition ws_step :: "ws_op \<Rightarrow> tenant_pool \<Rightarrow> tenant_pool" where
  "ws_step x p = (case x of WsDispatch \<Rightarrow> snd (dispatch_ws p) | WsStart i \<Rightarrow> ws_start i p | WsEnd i \<Rightarrow> ws_end i p)"

section \<open>Residues in an interval\<close>

lemma residues_window:
  assumes "i < n"
  shows "length (filter (\<lambda>j. j mod n = i) [k..<k + n]) = 1"
proof (induction k)
  case 0
  have "filter (\<lambda>j. j mod n = i) [0..<n] = filter (\<lambda>j. j = i) [0..<n]"
    by (rule filter_cong) auto
  also have "length \<dots> = card ({j. j = i} \<inter> set [0..<n])"
    by (rule distinct_length_filter) simp
  also have "{j. j = i} \<inter> set [0..<n] = {i}" using assms by auto
  finally show ?case by simp
next
  case (Suc k)
  have "n > 0" using assms by simp
  then have a: "[k..<k + n] = k # [Suc k..<k + n]" by (simp add: upt_conv_Cons)
  have b: "[Suc k..<Suc k + n] = [Suc k..<k + n] @ [k + n]" using \<open>n > 0\<close> by (simp add: upt_Suc)
  show ?case using Suc.IH unfolding a b by (simp split: if_splits)
qed

lemma residues_interval:
  assumes "i < n"
  shows "m div n \<le> length (filter (\<lambda>j. j mod n = i) [k..<k + m])
       \<and> length (filter (\<lambda>j. j mod n = i) [k..<k + m]) \<le> Suc (m div n)"
proof (induction m arbitrary: k rule: less_induct)
  case (less m)
  show ?case
  proof (cases "m < n")
    case True
    have "[k..<k + n] = [k..<k + m] @ [k + m..<k + n]"
      using upt_add_eq_append [of k "k + m" "n - m"] True by simp
    then have "length (filter (\<lambda>j. j mod n = i) [k..<k + m]) \<le> 1"
      using residues_window [OF assms, of k] by (simp only: filter_append length_append)
    with True show ?thesis by simp
  next
    case False
    have n: "n > 0" using assms by simp
    have "[k..<k + m] = [k..<k + n] @ [k + n..<k + n + (m - n)]"
      using upt_add_eq_append [of k "k + n" "m - n"] False by simp
    then have "length (filter (\<lambda>j. j mod n = i) [k..<k + m])
        = Suc (length (filter (\<lambda>j. j mod n = i) [k + n..<k + n + (m - n)]))"
      using residues_window [OF assms, of k] by (simp only: filter_append length_append plus_1_eq_Suc)
    moreover have "m div n = Suc ((m - n) div n)" using False n by (simp add: le_div_geq)
    ultimately show ?thesis using less.IH [of "m - n" "k + n"] False n by simp
  qed
qed

lemma share_simps:
  "share n i k [] = []"
  "share n i k (t # ts) = (if k mod n = i then t # share n i (Suc k) ts else share n i (Suc k) ts)"
  by (simp_all add: share_def)

lemma length_share: "length (share n i k ts) = length (filter (\<lambda>j. j mod n = i) [k..<k + length ts])"
proof (induction ts arbitrary: k)
  case (Cons t ts)
  have "[k..<k + length (t # ts)] = k # [Suc k..<Suc k + length ts]"
    by (subst upt_conv_Cons) (simp_all del: upt_Suc)
  then show ?case using Cons.IH [of "Suc k"] by (simp only: share_simps filter.simps length_Cons split: if_split) simp
qed (simp add: share_simps)

lemma share_fair:
  assumes "i < n"
  shows "length ts div n \<le> length (share n i k ts)" "length (share n i k ts) \<le> Suc (length ts div n)"
  using residues_interval [OF assms, of "length ts" k] by (simp_all add: length_share)

section \<open>The contract of a task pool\<close>

locale task_pool =
  fixes disp :: "'p \<Rightarrow> handler_task \<Rightarrow> (string + unit) outcome \<times> 'p"
    and workers_of :: "'p \<Rightarrow> worker_handle list"
    and ticket :: "'p \<Rightarrow> nat"
    and bound :: nat
    and inv :: "'p \<Rightarrow> bool"
  assumes inv_workers: "inv p \<Longrightarrow> workers_of p \<noteq> []"
    and disp_open: "\<lbrakk>inv p; i = ticket p mod length (workers_of p); w = workers_of p ! i; wh_open w\<rbrakk> \<Longrightarrow>
      fst (disp p t) = Ret (Inr ())
      \<and> workers_of (snd (disp p t)) = (workers_of p)[i := w\<lparr>wh_tasks := wh_tasks w @ [t]\<rparr>]"
    and disp_closed: "\<lbrakk>inv p; \<not> wh_open (workers_of p ! (ticket p mod length (workers_of p)))\<rbrakk> \<Longrightarrow>
      (\<exists>e. fst (disp p t) = Ret (Inl e)) \<and> workers_of (snd (disp p t)) = workers_of p"
    and disp_ticket: "inv p \<Longrightarrow> ticket (snd (disp p t)) = Suc (ticket p) mod bound"
    and disp_inv: "inv p \<Longrightarrow> inv (snd (disp p t))"
begin

definition all_open :: "'p \<Rightarrow> bool" where
  "all_open p = (\<forall>w \<in> set (workers_of p). wh_open w)"

definition disp_all :: "handler_task list \<Rightarrow> 'p \<Rightarrow> 'p" where
  "disp_all ts p = fold (\<lambda>t p. snd (disp p t)) ts p"

lemma cursor_less: "inv p \<Longrightarrow> ticket p mod length (workers_of p) < length (workers_of p)"
  using inv_workers by simp

lemma disp_no_panic: "inv p \<Longrightarrow> fst (disp p t) \<noteq> Panic"
  using disp_open [of p _ _ t] disp_closed [of p t] by (cases "wh_open (workers_of p ! (ticket p mod length (workers_of p)))") auto

lemma disp_step_open:
  assumes "inv p" "all_open p"
  shows "length (workers_of (snd (disp p t))) = length (workers_of p)"
    and "all_open (snd (disp p t))"
    and "i < length (workers_of p) \<Longrightarrow> wh_tasks (workers_of (snd (disp p t)) ! i) =
       (if ticket p mod length (workers_of p) = i then wh_tasks (workers_of p ! i) @ [t]
        else wh_tasks (workers_of p ! i))"
proof -
  let ?i = "ticket p mod length (workers_of p)"
  have "wh_open (workers_of p ! ?i)"
    using assms cursor_less [OF assms(1)] by (simp add: all_open_def)
  note d = disp_open [OF assms(1) refl refl this, where t = t]
  then show "length (workers_of (snd (disp p t))) = length (workers_of p)" by simp
  show "all_open (snd (disp p t))"
    using d assms(2) \<open>wh_open (workers_of p ! ?i)\<close> unfolding all_open_def
    by (auto dest!: set_update_subset_insert [THEN subsetD])
  show "i < length (workers_of p) \<Longrightarrow> wh_tasks (workers_of (snd (disp p t)) ! i) =
       (if ?i = i then wh_tasks (workers_of p ! i) @ [t] else wh_tasks (workers_of p ! i))"
    using d by (auto simp: nth_list_update)
qed

lemma disp_all_shares:
  assumes "inv p" "all_open p" "ticket p + length ts \<le> bound" "i < length (workers_of p)"
  shows "length (workers_of (disp_all ts p)) = length (workers_of p)
       \<and> wh_tasks (workers_of (disp_all ts p) ! i)
           = wh_tasks (workers_of p ! i) @ share (length (workers_of p)) i (ticket p) ts"
  using assms
proof (induction ts arbitrary: p)
  case Nil
  then show ?case by (simp add: disp_all_def share_simps)
next
  case (Cons t ts)
  let ?q = "snd (disp p t)"
  note s = disp_step_open [OF Cons.prems(1,2), where t = t]
  have tk: "ts = [] \<or> ticket ?q = Suc (ticket p)" "ticket ?q + length ts \<le> bound"
    using disp_ticket [OF Cons.prems(1), of t] Cons.prems(3) by (cases ts; simp; fail)+
  have ih: "length (workers_of (disp_all ts ?q)) = length (workers_of p)
      \<and> wh_tasks (workers_of (disp_all ts ?q) ! i)
          = wh_tasks (workers_of ?q ! i) @ share (length (workers_of p)) i (ticket ?q) ts"
    using Cons.IH [of ?q] disp_inv [OF Cons.prems(1), of t] s(1,2) tk(2) Cons.prems(4) by simp
  moreover have "share (length (workers_of p)) i (ticket ?q) ts
      = share (length (workers_of p)) i (Suc (ticket p)) ts"
    using tk(1) by (auto simp: share_simps)
  moreover have "disp_all (t # ts) p = disp_all ts ?q" by (simp add: disp_all_def)
  ultimately show ?case using s(3) [OF Cons.prems(4)] by (simp add: share_simps)
qed

end

section \<open>Both pools meet the contract\<close>

lemma handle_send_simps [simp]:
  "wh_open w \<Longrightarrow> handle_send t w = (Inr (), w\<lparr>wh_tasks := wh_tasks w @ [t]\<rparr>)"
  "\<not> wh_open w \<Longrightarrow> handle_send t w =
     (Inl (''Worker '' @ show_nat (unat (wh_id w)) @ '' channel closed''), w)"
  by (simp_all add: handle_send_def)

lemma u32_ticket: "unat (x + 1 :: u32) = Suc (unat x) mod 2 ^ 32"
  by (simp add: unat_word_ariths)

lemma u64_ticket: "unat (x + 1 :: u64) = Suc (unat x) mod 2 ^ 64"
  by (simp add: unat_word_ariths)

interpretation wp: task_pool pool_dispatch wp_workers "\<lambda>p. unat (wp_next p)" "2 ^ 32" wp_inv
proof unfold_locales
  fix p :: worker_pool and i w t
  assume inv: "wp_inv p"
  then show "wp_workers p \<noteq> []" by (auto simp: wp_inv_def unat_eq_zero)
  have c: "unat (wp_next p mod wp_worker_count p) = unat (wp_next p) mod length (wp_workers p)"
    "wp_worker_count p \<noteq> 0" using inv by (auto simp: wp_inv_def unat_mod)
  have less: "unat (wp_next p) mod length (wp_workers p) < length (wp_workers p)"
    using \<open>wp_workers p \<noteq> []\<close> by simp
  show "unat (wp_next (snd (pool_dispatch p t))) = Suc (unat (wp_next p)) mod 2 ^ 32"
    by (simp add: pool_dispatch_def Let_def u32_ticket split: prod.split)
  show "wp_inv (snd (pool_dispatch p t))"
    using inv by (auto simp: pool_dispatch_def Let_def wp_inv_def send_to_def split: prod.split sum.split)
  show "fst (pool_dispatch p t) = Ret (Inr ()) \<and>
      wp_workers (snd (pool_dispatch p t)) = (wp_workers p)[i := w\<lparr>wh_tasks := wh_tasks w @ [t]\<rparr>]"
    if "i = unat (wp_next p) mod length (wp_workers p)" "w = wp_workers p ! i" "wh_open w"
    using that c less by (simp add: pool_dispatch_def Let_def send_to_def)
  show "(\<exists>e. fst (pool_dispatch p t) = Ret (Inl e)) \<and>
      wp_workers (snd (pool_dispatch p t)) = wp_workers p"
    if "\<not> wh_open (wp_workers p ! (unat (wp_next p) mod length (wp_workers p)))"
    using that c less by (simp add: pool_dispatch_def Let_def send_to_def)
qed

interpretation tp: task_pool tenant_dispatch tp_workers "\<lambda>p. unat (tp_next p)" "2 ^ 64" tp_inv
  by unfold_locales
    (auto simp: tp_inv_def tenant_dispatch_def Let_def u64_ticket split: prod.split sum.split)

section \<open>The WebSocket counter\<close>

lemma length_filter_update:
  "i < length l \<Longrightarrow> length (filter P (l[i := x])) + (if P (l ! i) then 1 else 0)
     = length (filter P l) + (if P x then 1 else 0)"
proof (induction l arbitrary: i)
  case (Cons y l)
  then show ?case using Cons.IH [of "i - 1"] by (cases i) auto
qed simp

lemma ws_step_inv: "ws_inv p \<Longrightarrow> ws_inv (ws_step x p)"
proof (cases x)
  case WsDispatch
  have "filter (\<lambda>w. w = WsServing) (filter (\<lambda>w. w \<noteq> WsFinished) ws) = filter (\<lambda>w. w = WsServing) ws" for ws
    by (induction ws) auto
  then show "ws_inv p \<Longrightarrow> ws_inv (ws_step x p)"
    using WsDispatch by (auto simp: ws_step_def dispatch_ws_def ws_inv_def)
next
  case (WsStart i)
  then show "ws_inv p \<Longrightarrow> ws_inv (ws_step x p)"
    using length_filter_update [of i "tp_ws_workers p" "\<lambda>w. w = WsServing" WsServing]
    by (auto simp: ws_step_def ws_start_def ws_inv_def)
next
  case (WsEnd i)
  then show "ws_inv p \<Longrightarrow> ws_inv (ws_step x p)"
    using length_filter_update [of i "tp_ws_workers p" "\<lambda>w. w = WsServing" WsIdle]
    by (auto simp: ws_step_def ws_end_def ws_inv_def dest!: sym [of _ "length _"])
qed

lemma ws_step_length: "length (tp_ws_workers (ws_step x p)) \<le> Suc (length (tp_ws_workers p))"
  by (cases x) (auto simp: ws_step_def dispatch_ws_def ws_start_def ws_end_def)

lemma ws_step_max [simp]: "tp_max_ws_connections (ws_step x p) = tp_max_ws_connections p"
  by (cases x) (auto simp: ws_step_def dispatch_ws_def ws_start_def ws_end_def)

lemma ws_run:
  "ws_inv p \<Longrightarrow> ws_inv (fold ws_step xs p)
     \<and> length (tp_ws_workers (fold ws_step xs p)) \<le> length (tp_ws_workers p) + length xs
     \<and> tp_max_ws_connections (fold ws_step xs p) = tp_max_ws_connections p"
proof (induction xs arbitrary: p)
  case (Cons x xs)
  show ?case using Cons.IH [OF ws_step_inv [OF Cons.prems, of x]] ws_step_length [of x p] by simp
qed simp

lemma ws_inv_busy:
  assumes "ws_inv p" "length (tp_ws_workers p) < 2 ^ 64"
  shows "unat (tp_ws_busy p) = length (filter (\<lambda>w. w = WsServing) (tp_ws_workers p))"
proof -
  have "length (filter (\<lambda>w. w = WsServing) (tp_ws_workers p)) < 2 ^ 64"
    using assms(2) length_filter_le [of "\<lambda>w. w = WsServing" "tp_ws_workers p"] by linarith
  with assms(1) show ?thesis by (simp add: ws_inv_def usize_of_nat)
qed

lemma ws_dispatch_burst:
  assumes "tp_max_ws_connections p > 0" "tp_ws_busy p = 0" "tp_ws_workers p = replicate m WsStarting"
  shows "fold ws_step (replicate k WsDispatch) p = p\<lparr>tp_ws_workers := replicate (m + k) WsStarting\<rparr>"
  using assms
proof (induction k arbitrary: p m)
  case (Suc k)
  have f: "filter (\<lambda>w. w \<noteq> WsFinished) (replicate m WsStarting) @ [WsStarting] = replicate (Suc m) WsStarting"
    by (simp add: replicate_append_same)
  have "ws_step WsDispatch p = p\<lparr>tp_ws_workers := replicate (Suc m) WsStarting\<rparr>"
    using Suc.prems f by (simp add: ws_step_def dispatch_ws_def unat_eq_zero word_gt_0)
  then show ?case using Suc.IH [of "p\<lparr>tp_ws_workers := replicate (Suc m) WsStarting\<rparr>" "Suc m"] Suc.prems
    by simp
qed simp

lemma ws_start_burst:
  assumes "tp_ws_workers p = replicate k WsStarting" "tp_ws_busy p = 0" "j \<le> k"
  shows "fold ws_step (map WsStart [0..<j]) p =
     p\<lparr>tp_ws_workers := replicate j WsServing @ replicate (k - j) WsStarting, tp_ws_busy := of_nat j\<rparr>"
  using assms(3)
proof (induction j)
  case 0
  then show ?case using assms by simp
next
  case (Suc j)
  have "replicate (k - j) WsStarting = WsStarting # replicate (k - Suc j) WsStarting"
    using Suc.prems by (metis Suc_diff_Suc Suc_le_lessD replicate_Suc)
  moreover have "replicate j WsServing @ WsServing # xs = replicate (Suc j) WsServing @ xs" for xs
    by (simp add: replicate_app_Cons_same)
  ultimately show ?case using Suc by (simp add: ws_step_def ws_start_def list_update_append nth_append algebra_simps)
qed

section \<open>Properties\<close>

text \<open>
  A worker pool is fair and first-in first-out: of any sequence of up to \<open>2^32\<close> tasks sent to
  a new pool of \<open>n\<close> workers, worker \<open>i\<close> holds exactly the tasks number \<open>i\<close>, \<open>i + n\<close>, \<open>i + 2n\<close> and so
  on, in order, so the lengths of the queues differ by at most one. No task is lost, and no send
  panics. In particular two consecutive tasks go to different workers when there are several.
\<close>

theorem pool_round_robin:
  assumes "with_source_and_backend h n mem b = Ret p" "length ts \<le> 2 ^ 32" "i < unat n"
  shows "let ws = wp_workers (fold (\<lambda>t p. snd (pool_dispatch p t)) ts p) in
     length ws = unat n \<and> wh_tasks (ws ! i) = share (unat n) i 0 ts
     \<and> length ts div unat n \<le> length (wh_tasks (ws ! i))
     \<and> length (wh_tasks (ws ! i)) \<le> Suc (length ts div unat n)"
proof -
  have p: "p = \<lparr>wp_workers = map spawn_handle [0..<unat n], wp_worker_count = n,
        wp_hostname = h, wp_next = 0, wp_backend = b, wp_memory_limit_mb = mem\<rparr>" "n > 0"
    using assms(1) by (auto simp: with_source_and_backend_def split: if_splits)
  then have "wp_inv p" "wp.all_open p" "length (wp_workers p) = unat n" "unat (wp_next p) = 0"
    "wh_tasks (wp_workers p ! i) = []"
    using assms(3) by (auto simp: wp_inv_def wp.all_open_def spawn_handle_def)
  then have "length (wp_workers (wp.disp_all ts p)) = unat n
      \<and> wh_tasks (wp_workers (wp.disp_all ts p) ! i) = share (unat n) i 0 ts"
    using wp.disp_all_shares [of p ts i] assms(2,3) by simp
  then show ?thesis using share_fair [OF assms(3), where ts = ts and k = 0] by (simp add: wp.disp_all_def Let_def)
qed

theorem pool_round_robin_witness:
  "\<exists>p. with_source_and_backend ''a'' 2 0 MemoryStore = Ret p
     \<and> map wh_tasks (wp_workers (fold (\<lambda>t p. snd (pool_dispatch p t))
          [sample_task ''x'', sample_task ''y'', sample_task ''z''] p))
        = [[sample_task ''x'', sample_task ''z''], [sample_task ''y'']]"
proof -
  obtain p where p: "with_source_and_backend ''a'' 2 0 MemoryStore = Ret p"
    by (simp add: with_source_and_backend_def)
  let ?ts = "[sample_task ''x'', sample_task ''y'', sample_task ''z'']"
  let ?ws = "wp_workers (fold (\<lambda>t p. snd (pool_dispatch p t)) ?ts p)"
  have s: "share 2 0 0 ?ts = [sample_task ''x'', sample_task ''z'']" "share 2 1 0 ?ts = [sample_task ''y'']"
    by (simp_all add: share_def)
  have "length ?ws = 2" "wh_tasks (?ws ! 0) = share 2 0 0 ?ts" "wh_tasks (?ws ! 1) = share 2 1 0 ?ts"
    using pool_round_robin [OF p, of ?ts 0] pool_round_robin [OF p, of ?ts 1] by (simp_all add: Let_def)
  moreover have "map wh_tasks l = [wh_tasks (l ! 0), wh_tasks (l ! 1)]" if "length l = 2" for l
    using that by (auto simp: length_Suc_conv numeral_2_eq_2)
  ultimately have "map wh_tasks ?ws = [[sample_task ''x'', sample_task ''z''], [sample_task ''y'']]"
    unfolding s by metis
  with p show ?thesis by (intro exI [of _ p] conjI)
qed

text \<open>
  The limit on WebSocket connections: in every reachable state the counter is the number of
  connections being served, and a new connection is accepted iff that number is below the limit.
  The counter only moves when a worker has received its task, so \<open>k\<close> connections that arrive
  before the first worker starts are all accepted and then served together, for every \<open>k\<close>,
  whatever the positive limit is.
\<close>

theorem ws_limit_race:
  assumes "length xs < 2 ^ 64" "k < 2 ^ 64" "0 < effective_max_ws_connections l"
  shows "let p = fold ws_step xs (tenant_pool_new h n l);
             serving = length (filter (\<lambda>w. w = WsServing) (tp_ws_workers p)) in
     unat (tp_ws_busy p) = serving
     \<and> (fst (dispatch_ws p) = Inr ()) = (serving < unat (effective_max_ws_connections l))
     \<and> unat (tp_ws_busy (fold ws_step (replicate k WsDispatch @ map WsStart [0..<k])
         (tenant_pool_new h n l))) = k"
proof -
  let ?new = "tenant_pool_new h n l" and ?p = "fold ws_step xs (tenant_pool_new h n l)"
  have new: "ws_inv ?new" "tp_ws_workers ?new = replicate 0 WsStarting" "tp_ws_busy ?new = 0"
    "tp_max_ws_connections ?new = effective_max_ws_connections l"
    by (simp_all add: ws_inv_def tenant_pool_new_def)
  note r = ws_run [OF new(1), of xs]
  then have "unat (tp_ws_busy ?p) = length (filter (\<lambda>w. w = WsServing) (tp_ws_workers ?p))"
    using ws_inv_busy [of ?p] assms(1) new(2) by simp
  moreover have "(fst (dispatch_ws ?p) = Inr ()) = (unat (tp_ws_busy ?p) < unat (effective_max_ws_connections l))"
    using r new(4) by (auto simp: dispatch_ws_def)
  moreover have "unat (tp_ws_busy (fold ws_step (replicate k WsDispatch @ map WsStart [0..<k]) ?new)) = k"
    using ws_dispatch_burst [of ?new 0 k] new assms(2,3)
      ws_start_burst [of "?new\<lparr>tp_ws_workers := replicate k WsStarting\<rparr>" k k]
    by (simp add: usize_of_nat)
  ultimately show ?thesis by (simp add: Let_def)
qed

theorem ws_limit_race_witness:
  "unat (tp_ws_busy (fold ws_step (replicate 2 WsDispatch @ map WsStart [0..<2])
     (tenant_pool_new ''h'' 1 (default_app_limits\<lparr>max_ws_connections := Some 1\<rparr>)))) = 2"
  using ws_limit_race [of "[]" 2 "default_app_limits\<lparr>max_ws_connections := Some 1\<rparr>" "''h''" 1]
  by (simp add: Let_def effective_max_ws_connections_def)

end
