(* ===== verification/Http_Router.thy ===== *)
theory Http_Router
  imports Http_Types App_Lifecycle
begin

text \<open>
  Virtual-host routing and static serving (\<^verbatim>\<open>src/src/http/router.rs\<close>). What a handler asks of its
  surroundings is the record \<open>http_env\<close>: whether a host path is a directory, the contents of
  host files, and the outcome of running an entry point in a fresh V8 isolate. Everything else
  (lookup order, status codes, headers, the traversal guard, host matching) is the code's.
\<close>

section \<open>Definitions\<close>

datatype js_outcome = JsOk nano_response | JsErr string | JsTaskFailed

record http_env =
  env_is_dir :: "string \<Rightarrow> bool"
  env_read_text :: "string \<Rightarrow> string option"
  env_read :: "string \<Rightarrow> bytes option"
  env_exec_js :: "string \<Rightarrow> nano_request \<Rightarrow> js_outcome"

subsection \<open>Entry points\<close>

text \<open>\<^verbatim>\<open>Path::extension\<close>: after the last dot of the last component, if the dot is not its start.\<close>

definition path_file_name :: "string \<Rightarrow> string option" where
  "path_file_name p = (let comps = filter (\<lambda>c. c \<noteq> [] \<and> c \<noteq> ''.'') (split_on (CHR ''/'') p) in
     if comps = [] \<or> last comps = ''..'' then None else Some (last comps))"

definition path_extension :: "string \<Rightarrow> string option" where
  "path_extension p = (case path_file_name p of
       None \<Rightarrow> None
     | Some name \<Rightarrow> (case rfind_char (CHR ''.'') name of
           None \<Rightarrow> None
         | Some i \<Rightarrow> if i = 0 then None else Some (drop (i + 1) name)))"

datatype entrypoint_type = JavaScript string | EntryStaticFile string | EntryStaticDir string

definition detect_entrypoint_type :: "http_env \<Rightarrow> string \<Rightarrow> entrypoint_type" where
  "detect_entrypoint_type env path =
     (if env_is_dir env path then EntryStaticDir path
      else let ext = to_lowercase (case path_extension path of Some e \<Rightarrow> e | None \<Rightarrow> []) in
        if ext = ''js'' \<or> ext = ''mjs'' \<or> ext = ''ts'' then JavaScript path
        else EntryStaticFile path)"

subsection \<open>Handlers\<close>

type_synonym vfs_files = "(string \<times> bytes \<times> string) list"

datatype handler_type =
    StaticResponse string
  | WinterTCHandler string
  | WinterTCSliverHandler string string
  | VfsStaticFiles vfs_files "string option"
  | StaticFile string string
  | StaticDir string string

record route_target =
  target_hostname :: string
  target_handler :: handler_type

text \<open>The JSON error body; a double quote is byte 0x22 and the message is not escaped.\<close>

definition json_error :: "string \<Rightarrow> string \<Rightarrow> string \<Rightarrow> string" where
  "json_error kind msg code = (let q = [CHR 0x22] in
     ''{'' @ q @ ''error'' @ q @ '':'' @ q @ kind @ q @ '','' @ q @ ''message'' @ q @ '':''
     @ q @ msg @ q @ '','' @ q @ ''code'' @ q @ '':'' @ code @ ''}'')"

definition execute_js_standalone :: "http_env \<Rightarrow> string \<Rightarrow> nano_request \<Rightarrow> nano_response" where
  "execute_js_standalone env entry request = (case env_exec_js env entry request of
       JsOk response \<Rightarrow> response
     | JsErr err_msg \<Rightarrow> with_body
         (json_error ''InternalServerError'' err_msg ''500'')
         (with_header ''Content-Type'' ''application/json'' (with_status 500))
     | JsTaskFailed \<Rightarrow> with_body
         (json_error ''InternalServerError'' ''Task execution failed'' ''500'')
         (with_header ''Content-Type'' ''application/json'' (with_status 500)))"

definition serve_file :: "bytes \<Rightarrow> string \<Rightarrow> nano_response" where
  "serve_file c content_type =
     with_body_bytes c (with_header ''Content-Type'' content_type response_ok)"

definition strip_leading_slash :: "string \<Rightarrow> string" where
  "strip_leading_slash p = (if starts_with p ''/'' then drop 1 p else p)"

definition root_entry_points :: "string list" where
  "root_entry_points = [''index.js'', ''app.js'', ''main.js'', ''server.js'', ''index.html'', ''index.htm'']"

fun first_file :: "vfs_files \<Rightarrow> string list \<Rightarrow> (bytes \<times> string) option" where
  "first_file files [] = None"
| "first_file files (p # ps) =
     (case map_of files p of Some x \<Rightarrow> Some x | None \<Rightarrow> first_file files ps)"

definition handle_vfs_static :: "vfs_files \<Rightarrow> string option \<Rightarrow> string \<Rightarrow> nano_response" where
  "handle_vfs_static files default_file path =
     (let is_root = (path = ''/'' \<or> path = []);
          default = (case default_file of Some d \<Rightarrow> d | None \<Rightarrow> ''index.html'');
          lookup_path = (if is_root then default else strip_leading_slash path)
      in case map_of files lookup_path of
           Some (c, content_type) \<Rightarrow> serve_file c content_type
         | None \<Rightarrow>
      (case (if is_root then first_file files root_entry_points else None) of
           Some (c, content_type) \<Rightarrow> serve_file c content_type
         | None \<Rightarrow>
      (case map_of files (lookup_path @ ''/index.html'') of
           Some (c, content_type) \<Rightarrow> serve_file c content_type
         | None \<Rightarrow>
      (case map_of files (lookup_path @ ''.html'') of
           Some (c, content_type) \<Rightarrow> serve_file c content_type
         | None \<Rightarrow> not_found))))"

definition handle_static_dir :: "http_env \<Rightarrow> string \<Rightarrow> string \<Rightarrow> string \<Rightarrow> nano_response" where
  "handle_static_dir env root default_file path =
     (let target = (if path = ''/'' \<or> path = [] then Some (root @ ''/'' @ default_file)
            else let clean_path = strip_leading_slash path in
              if contains_sub clean_path ''..'' then None else Some (root @ ''/'' @ clean_path))
      in case target of
           None \<Rightarrow> not_found
         | Some file_path \<Rightarrow>
             let content_type = content_type_from_ext
                   (case path_extension file_path of Some e \<Rightarrow> e | None \<Rightarrow> [])
             in (case env_read env file_path of
                   Some bs \<Rightarrow> serve_file bs content_type
                 | None \<Rightarrow> not_found))"

definition handle :: "http_env \<Rightarrow> route_target \<Rightarrow> nano_request \<Rightarrow> nano_response" where
  "handle env t request = (case target_handler t of
       StaticResponse response \<Rightarrow>
         if response = []
         then with_body ''Not Found'' (with_header ''Content-Type'' ''text/plain'' not_found)
         else with_body response (with_header ''Content-Type'' ''text/plain'' response_ok)
     | WinterTCHandler path \<Rightarrow> execute_js_standalone env path request
     | WinterTCSliverHandler entry _ \<Rightarrow> execute_js_standalone env entry request
     | VfsStaticFiles files default_file \<Rightarrow>
         handle_vfs_static files default_file (pathname (url request))
     | StaticFile path content_type \<Rightarrow> (case env_read_text env path of
           Some c \<Rightarrow> with_body c (with_header ''Content-Type'' content_type response_ok)
         | None \<Rightarrow> not_found)
     | StaticDir root default_file \<Rightarrow> handle_static_dir env root default_file (pathname (url request)))"

subsection \<open>The router\<close>

record virtual_host_router =
  routes :: "(string \<times> route_target) list"
  default_target :: route_target

definition router_new :: "route_target \<Rightarrow> virtual_host_router" where
  "router_new d = \<lparr>routes = [], default_target = d\<rparr>"

definition default_router :: virtual_host_router where
  "default_router =
     router_new \<lparr>target_hostname = ''default'', target_handler = StaticResponse ''NANO Runtime''\<rparr>"

definition route_count :: "virtual_host_router \<Rightarrow> nat" where
  "route_count r = length (routes r)"

definition register :: "string \<Rightarrow> route_target \<Rightarrow> virtual_host_router \<Rightarrow> virtual_host_router" where
  "register h target r =
     (let lowercase_host = to_lowercase h
      in r\<lparr>routes := AList.update lowercase_host target (routes r)\<rparr>)"

definition resolve :: "virtual_host_router \<Rightarrow> string \<Rightarrow> route_target" where
  "resolve r h = (let lowercase_host = to_lowercase h in
     case map_of (routes r) lowercase_host of Some t \<Rightarrow> t | None \<Rightarrow> default_target r)"

record 's app_state =
  router :: virtual_host_router
  app_registry :: "'s app_registry option"

definition get_cpu_time_limit_ms :: "'s app_state \<Rightarrow> string \<Rightarrow> u32" where
  "get_cpu_time_limit_ms s h = (case app_registry s of
       None \<Rightarrow> 0
     | Some registry \<Rightarrow> (case registry_get registry h of
           None \<Rightarrow> 0
         | Some c \<Rightarrow> if cpu_time_enabled (app_limits_of c) then cpu_time_ms (app_limits_of c) else 0))"

text \<open>
  The host a request is for: the \<^verbatim>\<open>Host\<close> header (\<open>None\<close> when missing or not printable) up to its
  first colon.
\<close>

definition request_host :: "string option \<Rightarrow> string" where
  "request_host host_header = (case host_header of
       Some s \<Rightarrow> (case split_on (CHR '':'') s of x # _ \<Rightarrow> x | [] \<Rightarrow> s)
     | None \<Rightarrow> ''default'')"

text \<open>
  \<^verbatim>\<open>virtual_host_handler\<close> from the decoded request to the response that is sent: \<open>parsed_url\<close>
  and \<open>body\<close> are what URL parsing and reading the body (at most 1 MB) returned.
\<close>

definition bad_request :: "string \<Rightarrow> nano_response" where
  "bad_request msg = with_body (json_error ''BadRequest'' msg ''400'')
     (with_header ''content-type'' ''application/json'' (with_status 400))"

definition virtual_host_handler ::
  "http_env \<Rightarrow> virtual_host_router \<Rightarrow> string option \<Rightarrow> string \<Rightarrow> nano_url option
     \<Rightarrow> nano_headers \<Rightarrow> bytes option \<Rightarrow> nano_response" where
  "virtual_host_handler env r host_header m parsed_url hs body = (case parsed_url of
       None \<Rightarrow> bad_request ''Invalid URL''
     | Some u \<Rightarrow> (case body of
           None \<Rightarrow> bad_request ''Failed to read body''
         | Some body_bytes \<Rightarrow>
             let nano_body = (if body_bytes = [] then None else Some body_bytes);
                 request = \<lparr>req_method = m, url = u, req_headers = hs, req_body = nano_body\<rparr>
             in handle env (resolve r (request_host host_header)) request))"

text \<open>The candidates of a static lookup, in the order they are tried.\<close>

definition vfs_candidates :: "string option \<Rightarrow> string \<Rightarrow> string list" where
  "vfs_candidates default_file path =
     (if path = ''/'' \<or> path = []
      then let d = (case default_file of Some d \<Rightarrow> d | None \<Rightarrow> ''index.html'')
           in d # root_entry_points @ [d @ ''/index.html'', d @ ''.html'']
      else let l = strip_leading_slash path in [l, l @ ''/index.html'', l @ ''.html''])"

text \<open>A configuration with one application, and a host without files, for the witnesses.\<close>

definition sample_config :: nano_config where
  "sample_config = \<lparr>apps = [default_app_config\<lparr>hostname := ''api.example.com'', entrypoint := ''/app.js''\<rparr>],
     server = default_server_config\<rparr>"

definition no_files :: host_fs where
  "no_files = \<lparr>path_exists = (\<lambda>_. False), path_is_file = (\<lambda>_. False)\<rparr>"

section \<open>Lemmas\<close>

lemma first_file_append:
  "first_file files (ps @ qs) =
     (case first_file files ps of Some x \<Rightarrow> Some x | None \<Rightarrow> first_file files qs)"
  by (induction files ps rule: first_file.induct) (auto split: option.split)

lemma first_file_filter:
  "first_file files ps =
     (case filter (\<lambda>p. map_of files p \<noteq> None) ps of [] \<Rightarrow> None | p # _ \<Rightarrow> map_of files p)"
  by (induction files ps rule: first_file.induct) (auto split: option.split)

lemma handle_vfs_static_eq:
  "handle_vfs_static files default_file path =
     (case first_file files (vfs_candidates default_file path) of
        Some (c, content_type) \<Rightarrow> serve_file c content_type | None \<Rightarrow> not_found)"
proof (cases "path = ''/'' \<or> path = []")
  case True
  let ?d = "case default_file of Some d \<Rightarrow> d | None \<Rightarrow> ''index.html''"
  have "vfs_candidates default_file path = ?d # root_entry_points @ [?d @ ''/index.html'', ?d @ ''.html'']"
    using True by (simp add: vfs_candidates_def Let_def)
  moreover have "handle_vfs_static files default_file path =
      (case map_of files ?d of Some (c, t) \<Rightarrow> serve_file c t | None \<Rightarrow>
       (case first_file files root_entry_points of Some (c, t) \<Rightarrow> serve_file c t | None \<Rightarrow>
       (case map_of files (?d @ ''/index.html'') of Some (c, t) \<Rightarrow> serve_file c t | None \<Rightarrow>
       (case map_of files (?d @ ''.html'') of Some (c, t) \<Rightarrow> serve_file c t | None \<Rightarrow> not_found))))"
    using True unfolding handle_vfs_static_def Let_def by (simp only: if_True)
  ultimately show ?thesis
    by (simp add: first_file_append del: append_Cons split: option.split)
next
  case False
  then show ?thesis
    by (simp add: handle_vfs_static_def vfs_candidates_def Let_def split: option.split)
qed

lemma resolve_register:
  "resolve (register h t r) h' = (if to_lowercase h = to_lowercase h' then t else resolve r h')"
  by (simp add: resolve_def register_def Let_def split: option.split)

lemma resolve_register_all:
  "resolve (fold (\<lambda>(h, t). register h t) regs r) h' =
     (case map_of (rev (map (\<lambda>(h, t). (to_lowercase h, t)) regs)) (to_lowercase h') of
        Some t \<Rightarrow> t | None \<Rightarrow> resolve r h')"
  by (induction regs arbitrary: r)
    (auto simp: resolve_register map_add_def split: option.split prod.split)

lemma map_of_lowered:
  "map_of (map (\<lambda>(h, t). (to_lowercase h, t)) xs) k =
     (case filter (\<lambda>ht. to_lowercase (fst ht) = k) xs of [] \<Rightarrow> None | (h, t) # _ \<Rightarrow> Some t)"
  by (induction xs) (auto split: list.split)

lemma serve_file_simps [simp]:
  "status (serve_file c t) = 200" "resp_body (serve_file c t) = Some c"
  "header_get (resp_headers (serve_file c t)) ''Content-Type'' = Some t"
  "status not_found = 404" "resp_body not_found = None"
proof -
  have "to_lowercase ''Content-Type'' = ''content-type''" by code_simp
  then show "header_get (resp_headers (serve_file c t)) ''Content-Type'' = Some t"
    by (simp add: serve_file_def with_body_bytes_def with_header_def response_ok_def
        response_new_def header_get_def header_set_def headers_new_def combined_value_def)
qed (simp_all add: serve_file_def with_body_bytes_def with_header_def response_ok_def response_new_def
    not_found_def)

lemma handle_static_dir_served:
  "status (handle_static_dir env root default_file path) = 200 \<Longrightarrow>
     \<exists>rel c. env_read env (root @ ''/'' @ rel) = Some c
       \<and> (rel = default_file \<or> \<not> contains_sub rel ''..'')
       \<and> handle_static_dir env root default_file path = serve_file c (content_type_from_ext
           (case path_extension (root @ ''/'' @ rel) of Some e \<Rightarrow> e | None \<Rightarrow> []))"
proof -
  assume ok: "status (handle_static_dir env root default_file path) = 200"
  define rel where "rel = (if path = ''/'' \<or> path = [] then default_file else strip_leading_slash path)"
  define ct where "ct = content_type_from_ext
    (case path_extension (root @ ''/'' @ rel) of Some e \<Rightarrow> e | None \<Rightarrow> [])"
  have guard: "(path = ''/'' \<or> path = []) \<or> \<not> contains_sub (strip_leading_slash path) ''..''"
    using ok by (auto simp: handle_static_dir_def Let_def)
  then have "handle_static_dir env root default_file path =
      (case env_read env (root @ ''/'' @ rel) of Some bs \<Rightarrow> serve_file bs ct | None \<Rightarrow> not_found)"
    unfolding handle_static_dir_def Let_def rel_def ct_def by (auto cong: option.case_cong)
  with ok obtain c where "env_read env (root @ ''/'' @ rel) = Some c"
    "handle_static_dir env root default_file path = serve_file c ct"
    by (cases "env_read env (root @ ''/'' @ rel)") auto
  with guard show ?thesis unfolding ct_def by (intro exI [of _ rel] exI [of _ c]) (auto simp: rel_def)
qed

section \<open>Properties\<close>

text \<open>
  Routing is case-insensitive and the last registration wins: after any sequence of
  registrations a host resolves to the target of the last one whose name equals it up to case,
  and to the default target when there is none.
\<close>

theorem router_resolves:
  "resolve (fold (\<lambda>(h, t). register h t) regs (router_new d)) x =
     (case filter (\<lambda>ht. to_lowercase (fst ht) = to_lowercase x) (rev regs) of
        [] \<Rightarrow> d | (h, t) # _ \<Rightarrow> t)"
proof -
  have "map_of (rev (map (\<lambda>(h, t). (to_lowercase h, t)) regs)) k =
      (case filter (\<lambda>ht. to_lowercase (fst ht) = k) (rev regs) of [] \<Rightarrow> None | (h, t) # _ \<Rightarrow> Some t)" for k
    unfolding rev_map by (rule map_of_lowered)
  then show ?thesis
    unfolding resolve_register_all
    by (simp add: resolve_def router_new_def Let_def split: list.split option.split prod.split)
qed

text \<open>
  Static sites: the response is the first candidate that exists, in the documented order
  (the path itself, for the root the entry points of the frameworks, then \<^verbatim>\<open>/index.html\<close> and
  \<^verbatim>\<open>.html\<close>), with its content type, and 404 exactly when none exists.
\<close>

theorem vfs_static_first_match:
  "let r = handle env \<lparr>target_hostname = h, target_handler = VfsStaticFiles files default_file\<rparr> req in
   (case filter (\<lambda>p. map_of files p \<noteq> None) (vfs_candidates default_file (pathname (url req))) of
      [] \<Rightarrow> status r = 404
    | p # _ \<Rightarrow> status r = 200 \<and> map_of files p = Some (the (resp_body r),
        the (header_get (resp_headers r) ''Content-Type'')))"
  by (auto simp: handle_def handle_vfs_static_eq first_file_filter Let_def
      split: list.split option.split dest!: filter_eq_ConsD)

text \<open>
  Directory serving is confined: whenever a request is answered with 200, the body is a
  file under the root directory, named by the default file or by a relative path without
  \<^verbatim>\<open>..\<close>, and its content type follows the extension; a path with \<^verbatim>\<open>..\<close> is always 404.
\<close>

theorem static_dir_confined:
  "(status (handle_static_dir env root default_file path) = 200 \<longrightarrow>
     (\<exists>rel c. env_read env (root @ ''/'' @ rel) = Some c
       \<and> (rel = default_file \<or> \<not> contains_sub rel ''..'')
       \<and> resp_body (handle_static_dir env root default_file path) = Some c
       \<and> header_get (resp_headers (handle_static_dir env root default_file path)) ''Content-Type'' =
           Some (content_type_from_ext
             (case path_extension (root @ ''/'' @ rel) of Some e \<Rightarrow> e | None \<Rightarrow> []))))
   \<and> (contains_sub (strip_leading_slash path) ''..'' \<longrightarrow>
        status (handle_static_dir env root default_file path) = 404)"
proof (intro conjI impI)
  assume "status (handle_static_dir env root default_file path) = 200"
  then obtain rel c where rc: "env_read env (root @ ''/'' @ rel) = Some c"
    "rel = default_file \<or> \<not> contains_sub rel ''..''"
    "handle_static_dir env root default_file path = serve_file c (content_type_from_ext
       (case path_extension (root @ ''/'' @ rel) of Some e \<Rightarrow> e | None \<Rightarrow> []))"
    using handle_static_dir_served by blast
  then show "\<exists>rel c. env_read env (root @ ''/'' @ rel) = Some c
       \<and> (rel = default_file \<or> \<not> contains_sub rel ''..'')
       \<and> resp_body (handle_static_dir env root default_file path) = Some c
       \<and> header_get (resp_headers (handle_static_dir env root default_file path)) ''Content-Type'' =
           Some (content_type_from_ext
             (case path_extension (root @ ''/'' @ rel) of Some e \<Rightarrow> e | None \<Rightarrow> []))"
    by (metis serve_file_simps(2,3))
next
  assume c: "contains_sub (strip_leading_slash path) ''..''"
  then have "path \<noteq> ''/'' \<and> path \<noteq> []"
    by (auto simp: strip_leading_slash_def contains_sub_def starts_with_def)
  with c show "status (handle_static_dir env root default_file path) = 404"
    by (simp add: handle_static_dir_def Let_def)
qed

theorem static_dir_confined_witness:
  "let env = \<lparr>env_is_dir = (\<lambda>_. False), env_read_text = (\<lambda>_. None),
        env_read = (\<lambda>p. if p = ''dist/a.css'' then Some [1] else None), env_exec_js = (\<lambda>_ _. JsTaskFailed)\<rparr>
   in status (handle_static_dir env ''dist'' ''index.html'' ''/a.css'') = 200
     \<and> resp_body (handle_static_dir env ''dist'' ''index.html'' ''/a.css'') = Some [1]
     \<and> status (handle_static_dir env ''dist'' ''index.html'' ''/../etc'') = 404"
proof -
  let ?env = "\<lparr>env_is_dir = (\<lambda>_. False), env_read_text = (\<lambda>_. None),
        env_read = (\<lambda>p. if p = ''dist/a.css'' then Some [1] else None), env_exec_js = (\<lambda>_ _. JsTaskFailed)\<rparr>"
  have s: "status (handle_static_dir ?env ''dist'' ''index.html'' ''/a.css'') = 200" by code_simp
  have c: "contains_sub (strip_leading_slash ''/../etc'') ''..''" by code_simp
  from s static_dir_confined [of ?env "''dist''" "''index.html''" "''/a.css''"]
    static_dir_confined [of ?env "''dist''" "''index.html''" "''/../etc''"] c
  show ?thesis by (auto simp: Let_def split: if_splits)
qed

lemma configured_app_get:
  assumes "mod_validate_nano_config fs base c = Inr ()" "a \<in> set (apps c)"
  shows "registry_get (from_config c :: 's app_registry) (hostname a) = Some a"
proof -
  let ?kvs = "rev (map (\<lambda>a. (hostname a, a)) (apps c))"
  have "distinct (map to_lowercase (map hostname (apps c)))" using assms(1) by (simp add: o_def mod_validate_nano_config_iff)
  then have "distinct (map hostname (apps c))" by (auto simp: distinct_map intro: inj_on_imageI2)
  then have "distinct (map fst ?kvs)" by (simp add: rev_map [symmetric] o_def)
  then have "map_of ?kvs (hostname a) = Some a" using assms(2) by (intro map_of_is_SomeI) auto
  then show ?thesis by (simp add: from_config_get)
qed

text \<open>
  The CPU limit of a request is the one configured for its application when the host is
  spelled as in the configuration. The lookup is case-sensitive while routing is not: the same
  host in another spelling reaches the same application with the limit 0, which means none.
\<close>

theorem cpu_limit_lookup:
  assumes "mod_validate_nano_config fs base c = Inr ()" "a \<in> set (apps c)"
    "app_registry (s :: 's app_state) = Some (from_config c)"
  shows "get_cpu_time_limit_ms s (hostname a) =
       (if cpu_time_enabled (app_limits_of a) then cpu_time_ms (app_limits_of a) else 0)
     \<and> (\<forall>h. to_lowercase h = to_lowercase (hostname a) \<and> h \<noteq> hostname a \<longrightarrow>
          get_cpu_time_limit_ms s h = 0 \<and> resolve (router s) h = resolve (router s) (hostname a))"
proof -
  let ?kvs = "rev (map (\<lambda>a. (hostname a, a)) (apps c))"
  have lower: "distinct (map (\<lambda>a. to_lowercase (hostname a)) (apps c))"
    using assms(1) by (simp add: mod_validate_nano_config_iff)
  have get: "registry_get (from_config c :: 's app_registry) (hostname a) = Some a" by (rule configured_app_get [OF assms(1,2)])
  have other: "registry_get (from_config c :: 's app_registry) h = None"
    if h: "to_lowercase h = to_lowercase (hostname a)" "h \<noteq> hostname a" for h
  proof -
    have "hostname b \<noteq> h" if "b \<in> set (apps c)" for b
      using that h assms(2) lower by (auto simp: distinct_map dest!: inj_onD)
    then have "h \<notin> fst ` set ?kvs" by force
    then show ?thesis by (simp add: from_config_get map_of_eq_None_iff del: map_of_map)
  qed
  show ?thesis
    using get other assms(3) by (auto simp: get_cpu_time_limit_ms_def resolve_def)
qed

theorem cpu_limit_lookup_witness:
  "let s = \<lparr>router = default_router, app_registry = Some (from_config sample_config :: unit app_registry)\<rparr> in
     get_cpu_time_limit_ms s ''api.example.com'' = 50 \<and> get_cpu_time_limit_ms s ''API.example.com'' = 0"
proof -
  let ?s = "\<lparr>router = default_router, app_registry = Some (from_config sample_config :: unit app_registry)\<rparr>"
  let ?a = "default_app_config\<lparr>hostname := ''api.example.com'', entrypoint := ''/app.js''\<rparr>"
  have v: "mod_validate_nano_config no_files None sample_config = Inr ()" by code_simp
  have a: "?a \<in> set (apps sample_config)" by (simp add: sample_config_def)
  have r: "app_registry ?s = Some (from_config sample_config)" by simp
  have l: "to_lowercase ''API.example.com'' = to_lowercase (hostname ?a)" by code_simp
  have lim: "cpu_time_enabled (app_limits_of ?a)" "cpu_time_ms (app_limits_of ?a) = 50" by code_simp+
  have "get_cpu_time_limit_ms ?s (hostname ?a) = 50"
    using cpu_limit_lookup [OF v a r, THEN conjunct1] lim by simp
  moreover have "get_cpu_time_limit_ms ?s ''API.example.com'' = 0"
    using cpu_limit_lookup [OF v a r, THEN conjunct2, rule_format, of "''API.example.com''"] l by simp
  ultimately show ?thesis by (simp add: Let_def)
qed

end
