(* ===== verification/Work_Queue.thy ===== *)
theory Work_Queue
  imports Worker_Pool Http_Router
begin

text \<open>
  The work queue (\<^verbatim>\<open>src/src/worker/queue.rs\<close>) and the request path that uses it
  (\<^verbatim>\<open>dispatch_to_worker_pool\<close> and \<^verbatim>\<open>handle_ws_upgrade\<close> in \<^verbatim>\<open>src/src/http/router.rs\<close>): routing, tenant provisioning, validation by
  the control plane, the pool of the host, the reply. The record \<open>queue_env\<close> holds what is not the
  program's: the hasher of the standard library, whose algorithm is unspecified, whether a host path
  is a directory, and whether a disk backend can be opened there. The process-wide table of
  environment variables is a field of the queue, the only component that writes it.
\<close>

section \<open>Definitions\<close>

record queue_env =
  qe_hash :: "string \<Rightarrow> u64"
  qe_is_dir :: "string \<Rightarrow> bool"
  qe_open_disk :: "string \<Rightarrow> bool"

subsection \<open>Paths of the host\<close>

text \<open>
  \<^verbatim>\<open>Path\<close> compares by components: the root, a leading dot, and the non-empty segments other than a
  dot. A path is represented by its components joined with slashes.
\<close>

definition path_comps :: "string \<Rightarrow> string list" where
  "path_comps p = (let parts = split_on (CHR ''/'') p;
       cs = filter (\<lambda>c. c \<noteq> [] \<and> c \<noteq> ''.'') parts in
     if path_is_absolute p then ''/'' # cs
     else if hd parts = ''.'' then ''.'' # cs
     else cs)"

definition comps_text :: "string list \<Rightarrow> string" where
  "comps_text cs = (case cs of [] \<Rightarrow> []
     | c # r \<Rightarrow> if c = ''/'' then ''/'' @ join_with ''/'' r else join_with ''/'' cs)"

definition path_parent :: "string \<Rightarrow> string option" where
  "path_parent p = (let cs = path_comps p in
     if cs = [] \<or> cs = [''/''] then None else Some (comps_text (butlast cs)))"

definition path_file_stem :: "string \<Rightarrow> string option" where
  "path_file_stem p = (case path_file_name p of
       None \<Rightarrow> None
     | Some name \<Rightarrow> (case rfind_char (CHR ''.'') name of
           None \<Rightarrow> Some name
         | Some i \<Rightarrow> Some (if i = 0 then name else take i name)))"

subsection \<open>The queue\<close>

datatype queue_error =
    ChannelFull | WorkerNotFound | PoolNotFound | SendError string | Other string

definition show_queue_error :: "queue_error \<Rightarrow> string" where
  "show_queue_error e = (case e of
       ChannelFull \<Rightarrow> ''WorkQueue channel is full''
     | WorkerNotFound \<Rightarrow> ''Worker thread not found''
     | PoolNotFound \<Rightarrow> ''Pool not found for hostname''
     | SendError m \<Rightarrow> ''Send error: '' @ m
     | Other m \<Rightarrow> ''Queue error: '' @ m)"

record queue_stats =
  tasks_submitted :: u64
  tasks_completed :: u64
  tasks_dropped :: u64
  active_pools :: u32
  active_workers :: u32

definition default_queue_stats :: queue_stats where
  "default_queue_stats = \<lparr>tasks_submitted = 0, tasks_completed = 0, tasks_dropped = 0,
     active_pools = 0, active_workers = 0\<rparr>"

record 's work_queue =
  wq_pools :: "(u64 \<times> worker_pool) list"
  workers_per_pool :: u32
  channel_capacity :: nat
  wq_stats :: queue_stats
  wq_vfs_disk_config :: "vfs_disk_config option"
  wq_registry :: "'s app_registry option"
  wq_control_plane :: "control_plane option"
  hostname_env :: "(string \<times> (string \<times> string) list) list"

fun register_hosts :: "string list \<Rightarrow> control_plane \<Rightarrow> control_plane outcome" where
  "register_hosts [] cp = Ret cp"
| "register_hosts (h # hs) cp = (case register_tenant h queue_tenant_limits cp of
       (Panic, _) \<Rightarrow> Panic
     | (Ret _, cp') \<Rightarrow> register_hosts hs cp')"

definition with_vfs_config ::
  "u32 \<Rightarrow> vfs_disk_config option \<Rightarrow> 's app_registry option \<Rightarrow> 's work_queue outcome" where
  "with_vfs_config n disk reg =
     (case register_hosts (case reg of Some r \<Rightarrow> all_hostnames r | None \<Rightarrow> []) control_plane_new of
        Panic \<Rightarrow> Panic
      | Ret cp \<Rightarrow> Ret \<lparr>wq_pools = [], workers_per_pool = n, channel_capacity = 256,
          wq_stats = default_queue_stats, wq_vfs_disk_config = disk, wq_registry = reg,
          wq_control_plane = Some cp, hostname_env = []\<rparr>)"

definition with_registry :: "'s app_registry \<Rightarrow> 's work_queue \<Rightarrow> 's work_queue" where
  "with_registry r q = q\<lparr>wq_registry := Some r\<rparr>"

definition hash_hostname :: "queue_env \<Rightarrow> string \<Rightarrow> u64" where
  "hash_hostname env h = qe_hash env (to_lowercase h)"

definition queue_ensure_tenant :: "string \<Rightarrow> 's work_queue \<Rightarrow> unit outcome \<times> 's work_queue" where
  "queue_ensure_tenant h q = (case wq_control_plane q of
       None \<Rightarrow> (Ret (), q)
     | Some cp \<Rightarrow> (let (r, cp') = ensure_tenant h cp in (r, q\<lparr>wq_control_plane := Some cp'\<rparr>)))"

text \<open>The backend of a new pool: a disk backend at \<open>base\<close>, or memory when it cannot be opened.\<close>

definition disk_or_memory :: "queue_env \<Rightarrow> string \<Rightarrow> store_choice" where
  "disk_or_memory env base = (if qe_open_disk env base then DiskStore base else MemoryStore)"

definition fallback_store :: "queue_env \<Rightarrow> 's work_queue \<Rightarrow> store_choice" where
  "fallback_store env q = (case wq_vfs_disk_config q of
       Some disk_config \<Rightarrow> disk_or_memory env (base_path disk_config)
     | None \<Rightarrow> MemoryStore)"

definition entrypoint_store :: "queue_env \<Rightarrow> string \<Rightarrow> store_choice" where
  "entrypoint_store env entry =
     (if entry = [] then MemoryStore
      else case path_parent entry of
          None \<Rightarrow> MemoryStore
        | Some parent \<Rightarrow>
            let stem = (case path_file_stem entry of Some s \<Rightarrow> s | None \<Rightarrow> []);
                subdir = path_join parent stem
            in disk_or_memory env (if qe_is_dir env subdir then subdir else parent))"

definition app_store :: "queue_env \<Rightarrow> app_config \<Rightarrow> store_choice" where
  "app_store env c = (case vfs_backend_of c of
       Disk \<Rightarrow> (case vfs_disk c of
           Some disk_config \<Rightarrow> disk_or_memory env (base_path disk_config)
         | None \<Rightarrow> MemoryStore)
     | Memory \<Rightarrow> entrypoint_store env (entrypoint c)
     | S3 \<Rightarrow> MemoryStore)"

definition get_or_create_pool :: "queue_env \<Rightarrow> string \<Rightarrow> 's work_queue \<Rightarrow> unit outcome \<times> 's work_queue" where
  "get_or_create_pool env h q =
     (let k = hash_hostname env h in
      if map_of (wq_pools q) k \<noteq> None then (Ret (), q)
      else case queue_ensure_tenant h q of
          (Panic, q1) \<Rightarrow> (Panic, q1)
        | (Ret _, q1) \<Rightarrow>
            let app = (case wq_registry q1 of Some r \<Rightarrow> registry_get r h | None \<Rightarrow> None);
                q2 = (case app of
                    Some c \<Rightarrow> q1\<lparr>hostname_env := AList.update h (env_vars c) (hostname_env q1)\<rparr>
                  | None \<Rightarrow> q1);
                store = (case app of Some c \<Rightarrow> app_store env c | None \<Rightarrow> fallback_store env q2)
            in (case with_source_and_backend h (workers_per_pool q2) 0 store of
                  Panic \<Rightarrow> (Panic, q2)
                | Ret pool \<Rightarrow> (Ret (), q2\<lparr>wq_pools := AList.update k pool (wq_pools q2),
                    wq_stats := (wq_stats q2)\<lparr>active_pools := active_pools (wq_stats q2) + 1,
                      active_workers := active_workers (wq_stats q2) + workers_per_pool q2\<rparr>\<rparr>)))"

definition try_dispatch :: "worker_pool \<Rightarrow> handler_task \<Rightarrow> (queue_error + unit) outcome \<times> worker_pool" where
  "try_dispatch p t = (case pool_dispatch p t of
       (Panic, p') \<Rightarrow> (Panic, p')
     | (Ret (Inr _), p') \<Rightarrow> (Ret (Inr ()), p')
     | (Ret (Inl e), p') \<Rightarrow> (Ret (Inl (SendError e)), p'))"

definition queue_dispatch ::
  "queue_env \<Rightarrow> string \<Rightarrow> handler_task \<Rightarrow> 's work_queue \<Rightarrow> (queue_error + unit) outcome \<times> 's work_queue" where
  "queue_dispatch env h task q = (case get_or_create_pool env h q of
       (Panic, q1) \<Rightarrow> (Panic, q1)
     | (Ret _, q1) \<Rightarrow>
         (case map_of (wq_pools q1) (hash_hostname env h) of
            None \<Rightarrow> (Panic, q1)
          | Some pool \<Rightarrow>
              if wp_worker_count pool = 0 then (Panic, q1)
              else let (r, pool') = try_dispatch pool task;
                       q2 = q1\<lparr>wq_pools := AList.update (hash_hostname env h) pool' (wq_pools q1)\<rparr>;
                       q3 = q2\<lparr>wq_stats := (wq_stats q2)\<lparr>tasks_submitted := tasks_submitted (wq_stats q2) + 1\<rparr>\<rparr>;
                       dropped = q3\<lparr>wq_stats := (wq_stats q3)\<lparr>tasks_dropped := tasks_dropped (wq_stats q3) + 1\<rparr>\<rparr>
                   in (case r of
                         Panic \<Rightarrow> (Panic, q2)
                       | Ret (Inr _) \<Rightarrow> (Ret (Inr ()), q3)
                       | Ret (Inl e) \<Rightarrow> (Ret (Inl e), dropped))))"

definition get_pool :: "queue_env \<Rightarrow> 's work_queue \<Rightarrow> string \<Rightarrow> worker_pool option" where
  "get_pool env q h = map_of (wq_pools q) (hash_hostname env h)"

subsection \<open>The request path\<close>

definition text_error :: "u16 \<Rightarrow> string \<Rightarrow> nano_response" where
  "text_error code msg = with_body msg (with_header ''content-type'' ''text/plain'' (with_status code))"

definition queue_full_response :: nano_response where
  "queue_full_response = with_body ''Service Unavailable - Queue Full''
     (with_header ''content-type'' ''text/plain'' (with_header ''Retry-After'' ''1'' (with_status 503)))"

definition route_entrypoint :: "handler_type \<Rightarrow> string option" where
  "route_entrypoint t = (case t of
       WinterTCHandler path \<Rightarrow> Some path
     | WinterTCSliverHandler path _ \<Rightarrow> Some path
     | _ \<Rightarrow> None)"

text \<open>
  A request without a WebSocket upgrade, from its decoded parts to the response before its
  conversion to the server's type. \<open>reply\<close> is the worker's answer to the task: a response, a
  handler error, or no answer because the response channel was closed.
\<close>

definition dispatch_to_worker_pool ::
  "http_env \<Rightarrow> queue_env \<Rightarrow> (handler_task \<Rightarrow> (string + nano_response) option) \<Rightarrow> 's app_state
     \<Rightarrow> string \<Rightarrow> string option \<Rightarrow> string \<Rightarrow> nano_url option \<Rightarrow> nano_headers \<Rightarrow> bytes option
     \<Rightarrow> 's work_queue \<Rightarrow> nano_response outcome \<times> 's work_queue" where
  "dispatch_to_worker_pool env qe reply s request_id host_header m parsed_url hs body q =
     (let h = request_host host_header in
      case parsed_url of None \<Rightarrow> (Ret (bad_request ''Invalid URL''), q)
      | Some u \<Rightarrow> (case body of None \<Rightarrow> (Ret (bad_request ''Failed to read body''), q)
      | Some body_bytes \<Rightarrow>
          let nano_body = (if body_bytes = [] then None else Some body_bytes);
              request = \<lparr>req_method = m, url = u, req_headers = hs, req_body = nano_body\<rparr>;
              target = resolve (router s) h
          in (case route_entrypoint (target_handler target) of
              None \<Rightarrow> (Ret (handle env target request), q)
            | Some entry \<Rightarrow>
                let task = \<lparr>task_entrypoint = entry, task_request = request, task_hostname = h,
                      task_cpu_time_limit_ms = get_cpu_time_limit_ms s h,
                      task_request_id = request_id, task_memory_limit_mb = 0, task_ws = False\<rparr>
                in (case queue_ensure_tenant h q of
                    (Panic, q1) \<Rightarrow> (Panic, q1)
                  | (Ret _, q1) \<Rightarrow>
                (case (case wq_control_plane q1 of None \<Rightarrow> Ret (Inr ())
                       | Some cp \<Rightarrow> validate_request_ref cp task) of
                    Panic \<Rightarrow> (Panic, q1)
                  | Ret (Inl e) \<Rightarrow> (Ret (text_error 400 (''Validation error: '' @ show_control_error e)), q1)
                  | Ret (Inr _) \<Rightarrow>
                (case queue_dispatch qe h task q1 of
                    (Panic, q2) \<Rightarrow> (Panic, q2)
                  | (Ret (Inr _), q2) \<Rightarrow> (case reply task of
                        Some (Inr response) \<Rightarrow> (Ret response, q2)
                      | Some (Inl e) \<Rightarrow> (Ret (text_error 500 ''Internal Server Error''), q2)
                      | None \<Rightarrow> (Ret (text_error 500 ''Internal Server Error''), q2))
                  | (Ret (Inl ChannelFull), q2) \<Rightarrow> (Ret queue_full_response, q2)
                  | (Ret (Inl e), q2) \<Rightarrow> (Ret (text_error 500 ''Internal Server Error''), q2)))))))"

text \<open>
  A request for an upgrade. \<open>upgrade\<close> is what the HTTP library makes of it: the response that accepts it, or nothing when it
  is malformed. The task is not validated by the control plane.
\<close>

definition handle_ws_upgrade ::
  "queue_env \<Rightarrow> 's app_state \<Rightarrow> string \<Rightarrow> string \<Rightarrow> string \<Rightarrow> nano_response option \<Rightarrow> nano_url option \<Rightarrow> nano_headers
     \<Rightarrow> 's work_queue \<Rightarrow> nano_response outcome \<times> 's work_queue" where
  "handle_ws_upgrade qe s request_id h m upgrade parsed_url hs q =
     (case route_entrypoint (target_handler (resolve (router s) h)) of
        None \<Rightarrow> (Ret (text_error 403 ''WebSocket not supported for static handlers''), q)
      | Some entry \<Rightarrow> (case upgrade of None \<Rightarrow> (Ret (text_error 400 ''WebSocket upgrade failed''), q)
      | Some accepted \<Rightarrow> (case parsed_url of None \<Rightarrow> (Ret (text_error 400 ''Bad Request''), q)
      | Some u \<Rightarrow>
          let task = \<lparr>task_entrypoint = entry,
                task_request = \<lparr>req_method = m, url = u, req_headers = hs, req_body = None\<rparr>, task_hostname = h,
                task_cpu_time_limit_ms = get_cpu_time_limit_ms s h,
                task_request_id = request_id, task_memory_limit_mb = 0, task_ws = True\<rparr>
          in (case queue_dispatch qe h task q of
                (Panic, q1) \<Rightarrow> (Panic, q1)
              | (Ret (Inr _), q1) \<Rightarrow> (Ret accepted, q1)
              | (Ret (Inl ChannelFull), q1) \<Rightarrow> (Ret (with_body ''WebSocket connection limit reached''
                  (with_header ''content-type'' ''text/plain'' (with_header ''Retry-After'' ''1'' (with_status 503)))), q1)
              | (Ret (Inl e), q1) \<Rightarrow> (Ret (text_error 500 ''Internal Server Error''), q1)))))"

text \<open>Every request: the value of its header \<^verbatim>\<open>upgrade\<close> as a text decides.\<close>

definition is_ws_upgrade :: "string option \<Rightarrow> bool" where
  "is_ws_upgrade upgrade_header = (case upgrade_header of Some v \<Rightarrow> to_lowercase v = ''websocket'' | None \<Rightarrow> False)"

definition dispatch_request ::
  "http_env \<Rightarrow> queue_env \<Rightarrow> (handler_task \<Rightarrow> (string + nano_response) option) \<Rightarrow> 's app_state
     \<Rightarrow> string \<Rightarrow> string option \<Rightarrow> string option \<Rightarrow> nano_response option \<Rightarrow> string \<Rightarrow> nano_url option \<Rightarrow> nano_headers \<Rightarrow> bytes option
     \<Rightarrow> 's work_queue \<Rightarrow> nano_response outcome \<times> 's work_queue" where
  "dispatch_request env qe reply s request_id host_header upgrade_header upgrade m parsed_url hs body q =
     (if is_ws_upgrade upgrade_header
      then handle_ws_upgrade qe s request_id (request_host host_header) m upgrade parsed_url hs q
      else dispatch_to_worker_pool env qe reply s request_id host_header m parsed_url hs body q)"

subsection \<open>Specification vocabulary\<close>

text \<open>
  What happens to a queue: a request is dispatched, a tenant is provisioned, worker \<open>i\<close> of the
  pool with key \<open>k\<close> takes its next task or exits.
\<close>

datatype queue_op =
    QDispatch string handler_task
  | QEnsure string
  | QReceive u64 nat
  | QExit u64 nat

definition at_worker :: "(worker_handle \<Rightarrow> worker_handle) \<Rightarrow> u64 \<Rightarrow> nat \<Rightarrow> 's work_queue \<Rightarrow> 's work_queue" where
  "at_worker f k i q = (case map_of (wq_pools q) k of
       Some p \<Rightarrow> if i < length (wp_workers p)
         then q\<lparr>wq_pools := AList.update k
                (p\<lparr>wp_workers := (wp_workers p)[i := f (wp_workers p ! i)]\<rparr>) (wq_pools q)\<rparr>
         else q
     | None \<Rightarrow> q)"

definition queue_step :: "queue_env \<Rightarrow> queue_op \<Rightarrow> 's work_queue \<Rightarrow> 's work_queue" where
  "queue_step env x q = (case x of
       QDispatch h t \<Rightarrow> snd (queue_dispatch env h (t\<lparr>task_hostname := h\<rparr>) q)
     | QEnsure h \<Rightarrow> snd (queue_ensure_tenant h q)
     | QReceive k i \<Rightarrow> at_worker wh_receive k i q
     | QExit k i \<Rightarrow> at_worker wh_exit k i q)"

definition op_hosts :: "queue_op \<Rightarrow> string set" where
  "op_hosts x = (case x of QDispatch h _ \<Rightarrow> {h} | _ \<Rightarrow> {})"

definition pool_ok :: "queue_env \<Rightarrow> string set \<Rightarrow> u32 \<Rightarrow> u64 \<Rightarrow> worker_pool \<Rightarrow> bool" where
  "pool_ok env H n k p = (wp_inv p \<and> wp_worker_count p = n
     \<and> wp_hostname p \<in> H \<and> hash_hostname env (wp_hostname p) = k
     \<and> (\<forall>w \<in> set (wp_workers p). \<forall>t \<in> set (wh_tasks w).
          task_hostname t \<in> H \<and> hash_hostname env (task_hostname t) = k))"

text \<open>The tasks that wait in a pool.\<close>

definition waiting :: "worker_pool \<Rightarrow> nat" where
  "waiting p = sum_list (map (\<lambda>w. length (wh_tasks w)) (wp_workers p))"

definition queue_inv :: "queue_env \<Rightarrow> string set \<Rightarrow> 's work_queue \<Rightarrow> bool" where
  "queue_inv env H q = (distinct (map fst (wq_pools q))
     \<and> (\<forall>(k, p) \<in> set (wq_pools q). pool_ok env H (workers_per_pool q) k p)
     \<and> active_pools (wq_stats q) = of_nat (length (wq_pools q))
     \<and> active_workers (wq_stats q) = of_nat (length (wq_pools q)) * workers_per_pool q)"

text \<open>An environment, a new queue and the queue after one request, for the witnesses.\<close>

definition sample_env :: queue_env where
  "sample_env = \<lparr>qe_hash = (\<lambda>s. of_nat (length s)), qe_is_dir = (\<lambda>_. False), qe_open_disk = (\<lambda>_. False)\<rparr>"

definition sample_queue :: "unit work_queue" where
  "sample_queue = (case with_vfs_config 1 None None of Ret q \<Rightarrow> q)"

definition sample_pool :: "handler_task \<Rightarrow> worker_pool" where
  "sample_pool t = \<lparr>wp_workers = [\<lparr>wh_id = 0, wh_open = True, wh_tasks = [t]\<rparr>], wp_worker_count = 1,
     wp_hostname = task_hostname t, wp_next = 1, wp_backend = MemoryStore, wp_memory_limit_mb = 0\<rparr>"

section \<open>The invariant of the queue\<close>

lemma queue_ensure_fields [simp]:
  "wq_pools (snd (queue_ensure_tenant h q)) = wq_pools q"
  "wq_stats (snd (queue_ensure_tenant h q)) = wq_stats q"
  "workers_per_pool (snd (queue_ensure_tenant h q)) = workers_per_pool q"
  "wq_registry (snd (queue_ensure_tenant h q)) = wq_registry q"
  by (auto simp: queue_ensure_tenant_def split: option.split prod.split)

lemma queue_inv_fields:
  assumes "queue_inv env H q" "wq_pools q' = wq_pools q" "workers_per_pool q' = workers_per_pool q"
    "active_pools (wq_stats q') = active_pools (wq_stats q)"
    "active_workers (wq_stats q') = active_workers (wq_stats q)"
  shows "queue_inv env H q'"
  using assms by (simp add: queue_inv_def)

lemma queue_inv_pool:
  "\<lbrakk>queue_inv env H q; map_of (wq_pools q) k = Some p\<rbrakk> \<Longrightarrow> pool_ok env H (workers_per_pool q) k p"
  by (auto simp: queue_inv_def dest!: map_of_SomeD)

lemma queue_inv_update:
  assumes "queue_inv env H q" "map_of (wq_pools q) k = Some p" "pool_ok env H (workers_per_pool q) k p'"
    "wq_pools q' = AList.update k p' (wq_pools q)" "workers_per_pool q' = workers_per_pool q"
    "active_pools (wq_stats q') = active_pools (wq_stats q)"
    "active_workers (wq_stats q') = active_workers (wq_stats q)"
  shows "queue_inv env H q'"
proof -
  have "length (wq_pools q') = length (wq_pools q)"
    using length_update_old [OF assms(2)] assms(4) by simp
  moreover have "distinct (map fst (wq_pools q'))"
    using assms(1,4) by (simp add: queue_inv_def distinct_update)
  moreover have "\<forall>(k, p) \<in> set (wq_pools q'). pool_ok env H (workers_per_pool q') k p"
    using assms(1,3-5) set_alist_update [of k p' "wq_pools q"] unfolding queue_inv_def by auto
  ultimately show ?thesis using assms(1,5-7) by (simp add: queue_inv_def)
qed

lemma queue_inv_insert:
  assumes "queue_inv env H q" "map_of (wq_pools q) k = None" "pool_ok env H (workers_per_pool q) k p'"
    "wq_pools q' = AList.update k p' (wq_pools q)" "workers_per_pool q' = workers_per_pool q"
    "active_pools (wq_stats q') = active_pools (wq_stats q) + 1"
    "active_workers (wq_stats q') = active_workers (wq_stats q) + workers_per_pool q"
  shows "queue_inv env H q'"
proof -
  have "AList.update k p' (wq_pools q) = wq_pools q @ [(k, p')]"
    using assms(2) by (rule alist_update_new)
  then show ?thesis using assms unfolding queue_inv_def
    by (auto simp: map_of_eq_None_iff algebra_simps)
qed

lemma get_or_create_pool_cases:
  obtains (present) p where "map_of (wq_pools q) (hash_hostname env h) = Some p"
      "get_or_create_pool env h q = (Ret (), q)"
  | (panic) q' where "get_or_create_pool env h q = (Panic, q')" "wq_pools q' = wq_pools q"
      "wq_stats q' = wq_stats q" "workers_per_pool q' = workers_per_pool q"
      "fst (queue_ensure_tenant h q) = Panic \<or> workers_per_pool q = 0"
  | (created) q' p where "get_or_create_pool env h q = (Ret (), q')"
      "map_of (wq_pools q) (hash_hostname env h) = None"
      "with_source_and_backend h (workers_per_pool q) 0 (wp_backend p) = Ret p"
      "wq_pools q' = AList.update (hash_hostname env h) p (wq_pools q)"
      "workers_per_pool q' = workers_per_pool q"
      "wq_stats q' = (wq_stats q)\<lparr>active_pools := active_pools (wq_stats q) + 1,
         active_workers := active_workers (wq_stats q) + workers_per_pool q\<rparr>"
      "fst (queue_ensure_tenant h q) = Ret ()"
proof (cases "map_of (wq_pools q) (hash_hostname env h)")
  case (Some p)
  then show thesis by (intro present [of p]) (simp_all add: get_or_create_pool_def)
next
  case None
  obtain r q1 where e: "queue_ensure_tenant h q = (r, q1)" by fastforce
  have f: "wq_pools q1 = wq_pools q" "wq_stats q1 = wq_stats q" "workers_per_pool q1 = workers_per_pool q"
    using queue_ensure_fields [of h q] e by simp_all
  show thesis
  proof (cases r)
    case Panic
    show thesis by (rule panic [of q1]) (use None e f Panic in \<open>simp_all add: get_or_create_pool_def Let_def\<close>)
  next
    case (Ret u)
    define app where "app = (case wq_registry q1 of Some r \<Rightarrow> registry_get r h | None \<Rightarrow> None)"
    define q2 where "q2 = (case app of
        Some c \<Rightarrow> q1\<lparr>hostname_env := AList.update h (env_vars c) (hostname_env q1)\<rparr> | None \<Rightarrow> q1)"
    define store where "store = (case app of Some c \<Rightarrow> app_store env c | None \<Rightarrow> fallback_store env q2)"
    have g: "wq_pools q2 = wq_pools q" "wq_stats q2 = wq_stats q" "workers_per_pool q2 = workers_per_pool q"
      using f by (auto simp: q2_def split: option.split)
    have eq: "get_or_create_pool env h q = (case with_source_and_backend h (workers_per_pool q2) 0 store of
          Panic \<Rightarrow> (Panic, q2)
        | Ret pool \<Rightarrow> (Ret (), q2\<lparr>wq_pools := AList.update (hash_hostname env h) pool (wq_pools q2),
            wq_stats := (wq_stats q2)\<lparr>active_pools := active_pools (wq_stats q2) + 1,
              active_workers := active_workers (wq_stats q2) + workers_per_pool q2\<rparr>\<rparr>))"
      using None e Ret unfolding store_def q2_def app_def by (simp add: get_or_create_pool_def Let_def)
    show thesis
    proof (cases "with_source_and_backend h (workers_per_pool q) 0 store")
      case Panic
      then have "workers_per_pool q = 0"
        by (auto simp: with_source_and_backend_def word_gt_0 split: if_splits)
      with Panic show thesis by (intro panic [of q2]) (simp_all add: eq g)
    next
      case (Ret p)
      then have "wp_backend p = store" by (auto simp: with_source_and_backend_def split: if_splits)
      with Ret None show thesis
        by (intro created [of "snd (get_or_create_pool env h q)" p]) (use e \<open>r = Ret u\<close> in \<open>simp_all add: eq g\<close>)
    qed
  qed
qed

lemma new_pool_ok:
  assumes "with_source_and_backend h n 0 b = Ret p" "h \<in> H"
  shows "pool_ok env H n (hash_hostname env h) p"
  using assms by (auto simp: with_source_and_backend_def pool_ok_def wp_inv_def spawn_handle_def split: if_splits)

lemma get_or_create_inv:
  assumes "queue_inv env H q" "h \<in> H"
  shows "queue_inv env H (snd (get_or_create_pool env h q))"
proof (cases rule: get_or_create_pool_cases [of q env h])
  case present
  then show ?thesis using assms by simp
next
  case (panic q')
  then show ?thesis using queue_inv_fields [OF assms(1), of q'] by simp
next
  case (created q' p)
  then show ?thesis
    using queue_inv_insert [OF assms(1) created(2) new_pool_ok [OF created(3) assms(2)] created(4)] by simp
qed

lemma send_to_workers:
  assumes "send_to i t ws = (r, ws')"
  shows "length ws' = length ws"
    "w \<in> set ws' \<Longrightarrow> x \<in> set (wh_tasks w) \<Longrightarrow> x = t \<or> (\<exists>w0 \<in> set ws. x \<in> set (wh_tasks w0))"
proof -
  show "length ws' = length ws" using assms by (auto simp: send_to_def split: if_splits prod.splits sum.splits)
  have "set ws' \<subseteq> insert (snd (handle_send t (ws ! i))) (set ws)" if "i < length ws"
    using assms that set_update_subset_insert [of ws i "snd (handle_send t (ws ! i))"]
    by (auto simp: send_to_def split: prod.splits sum.splits)
  moreover have "set (wh_tasks (snd (handle_send t v))) \<subseteq> insert t (set (wh_tasks v))" for v
    by (auto simp: handle_send_def)
  ultimately show "w \<in> set ws' \<Longrightarrow> x \<in> set (wh_tasks w) \<Longrightarrow>
      x = t \<or> (\<exists>w0 \<in> set ws. x \<in> set (wh_tasks w0))"
    using assms by (cases "i < length ws") (fastforce simp: send_to_def)+
qed

lemma pool_dispatch_ok:
  assumes "pool_ok env H n k p" "task_hostname t \<in> H" "hash_hostname env (task_hostname t) = k"
  shows "pool_ok env H n k (snd (pool_dispatch p t))"
proof -
  obtain r ws where s: "send_to (unat (wp_next p mod wp_worker_count p)) t (wp_workers p) = (r, ws)"
    by fastforce
  have c: "wp_worker_count p \<noteq> 0" using assms(1) by (auto simp: pool_ok_def wp_inv_def)
  have "snd (pool_dispatch p t) = p\<lparr>wp_next := wp_next p + 1, wp_workers := ws\<rparr>"
    using s c by (simp add: pool_dispatch_def Let_def)
  then show ?thesis using assms send_to_workers [OF s] unfolding pool_ok_def wp_inv_def
    by (simp, blast)
qed

lemma pool_after_create:
  assumes "queue_inv env H q" "h \<in> H" "get_or_create_pool env h q = (Ret u, q1)"
  obtains p where "map_of (wq_pools q1) (hash_hostname env h) = Some p"
    "pool_ok env H (workers_per_pool q1) (hash_hostname env h) p"
proof -
  have inv: "queue_inv env H q1" using get_or_create_inv [OF assms(1,2)] assms(3) by simp
  have "\<exists>p. map_of (wq_pools q1) (hash_hostname env h) = Some p"
    using assms(3) by (cases rule: get_or_create_pool_cases [of q env h]) auto
  then show thesis using that queue_inv_pool [OF inv] by blast
qed

lemma try_dispatch_simps:
  assumes "wp_inv p"
  obtains r where "try_dispatch p t = (Ret r, snd (pool_dispatch p t))" "r \<noteq> Inl ChannelFull"
    "r = Inr () \<longleftrightarrow> fst (pool_dispatch p t) = Ret (Inr ())"
proof -
  obtain o' p' where d: "pool_dispatch p t = (o', p')" by fastforce
  with wp.disp_no_panic [OF assms, of t] obtain x where "o' = Ret x" by (cases o') auto
  with d that [of "case x of Inr _ \<Rightarrow> Inr () | Inl e \<Rightarrow> Inl (SendError e)"] show thesis
    by (cases x) (simp_all add: try_dispatch_def)
qed

lemma queue_dispatch_pool:
  assumes "get_or_create_pool env h q = (Ret u, q1)"
    "map_of (wq_pools q1) (hash_hostname env h) = Some p" "wp_inv p"
  obtains r q2 where "queue_dispatch env h t q = (Ret r, q2)" "r \<noteq> Inl ChannelFull"
    "r = Inr () \<longleftrightarrow> fst (pool_dispatch p t) = Ret (Inr ())"
    "wq_pools q2 = AList.update (hash_hostname env h) (snd (pool_dispatch p t)) (wq_pools q1)"
    "workers_per_pool q2 = workers_per_pool q1"
    "active_pools (wq_stats q2) = active_pools (wq_stats q1)"
    "active_workers (wq_stats q2) = active_workers (wq_stats q1)"
proof -
  obtain r where r: "try_dispatch p t = (Ret r, snd (pool_dispatch p t))" "r \<noteq> Inl ChannelFull"
    "r = Inr () \<longleftrightarrow> fst (pool_dispatch p t) = Ret (Inr ())"
    by (rule try_dispatch_simps [OF assms(3)])
  have n: "wp_worker_count p \<noteq> 0" using assms(3) by (auto simp: wp_inv_def)
  show thesis
    by (rule that [of r "snd (queue_dispatch env h t q)"])
      (use r n assms(1,2) in \<open>cases r; simp add: queue_dispatch_def Let_def\<close>)+
qed

lemma queue_dispatch_panic:
  "get_or_create_pool env h q = (Panic, q1) \<Longrightarrow> queue_dispatch env h t q = (Panic, q1)"
  by (simp add: queue_dispatch_def)

lemma queue_dispatch_inv:
  assumes "queue_inv env H q" "h \<in> H" "task_hostname t = h"
  shows "queue_inv env H (snd (queue_dispatch env h t q))"
proof (cases "get_or_create_pool env h q")
  case (Pair r q1)
  have inv: "queue_inv env H q1" using get_or_create_inv [OF assms(1,2)] Pair by simp
  show ?thesis
  proof (cases r)
    case Panic
    then show ?thesis using inv Pair by (simp add: queue_dispatch_panic)
  next
    case (Ret u)
    note g = Pair [unfolded Ret]
    obtain p where p: "map_of (wq_pools q1) (hash_hostname env h) = Some p"
      "pool_ok env H (workers_per_pool q1) (hash_hostname env h) p"
      by (rule pool_after_create [OF assms(1,2) g])
    then have "wp_inv p" by (simp add: pool_ok_def)
    then obtain r q2 where d: "queue_dispatch env h t q = (Ret r, q2)"
      "wq_pools q2 = AList.update (hash_hostname env h) (snd (pool_dispatch p t)) (wq_pools q1)"
      "workers_per_pool q2 = workers_per_pool q1"
      "active_pools (wq_stats q2) = active_pools (wq_stats q1)"
      "active_workers (wq_stats q2) = active_workers (wq_stats q1)"
      by (rule queue_dispatch_pool [OF g p(1)])
    have "pool_ok env H (workers_per_pool q1) (hash_hostname env h) (snd (pool_dispatch p t))"
      using pool_dispatch_ok [OF p(2)] assms(2,3) by simp
    then show ?thesis using queue_inv_update [OF inv p(1) _ d(2-5)] d(1) by simp
  qed
qed

lemma pool_ok_workers:
  assumes "pool_ok env H n k p" "length ws = length (wp_workers p)"
    "\<And>w t. \<lbrakk>w \<in> set ws; t \<in> set (wh_tasks w)\<rbrakk> \<Longrightarrow> \<exists>v \<in> set (wp_workers p). t \<in> set (wh_tasks v)"
  shows "pool_ok env H n k (p\<lparr>wp_workers := ws\<rparr>)"
proof -
  have "task_hostname t \<in> H \<and> hash_hostname env (task_hostname t) = k"
    if "w \<in> set ws" "t \<in> set (wh_tasks w)" for w t
    using assms(3) [OF that] assms(1) by (auto simp: pool_ok_def)
  then show ?thesis using assms(1,2) by (auto simp: pool_ok_def wp_inv_def)
qed

lemma at_worker_inv:
  assumes "queue_inv env H q" "\<And>w. set (wh_tasks (f w)) \<subseteq> set (wh_tasks w)"
  shows "queue_inv env H (at_worker f k i q)"
proof (cases "map_of (wq_pools q) k")
  case (Some p)
  let ?p = "p\<lparr>wp_workers := (wp_workers p)[i := f (wp_workers p ! i)]\<rparr>"
  note ok = queue_inv_pool [OF assms(1) Some]
  have "pool_ok env H (workers_per_pool q) k ?p" if i: "i < length (wp_workers p)"
  proof -
    have "\<exists>v \<in> set (wp_workers p). t \<in> set (wh_tasks v)"
      if "w \<in> set (wp_workers ?p)" "t \<in> set (wh_tasks w)" for w t
    proof (cases "w = f (wp_workers p ! i)")
      case True
      then show ?thesis using that(2) assms(2) nth_mem [OF i] by blast
    next
      case False
      then show ?thesis
        using that set_update_subset_insert [of "wp_workers p" i "f (wp_workers p ! i)"] by auto
    qed
    then show ?thesis by (intro pool_ok_workers [OF ok]) simp_all
  qed
  then show ?thesis using queue_inv_update [OF assms(1) Some, of ?p "at_worker f k i q"] assms(1) Some
    by (auto simp: at_worker_def)
qed (use assms(1) in \<open>simp add: at_worker_def\<close>)

lemma queue_step_inv:
  assumes "queue_inv env H q" "op_hosts x \<subseteq> H"
  shows "queue_inv env H (queue_step env x q)"
proof (cases x)
  case (QDispatch h t)
  then show ?thesis using assms queue_dispatch_inv [of env H q h "t\<lparr>task_hostname := h\<rparr>"]
    by (simp add: queue_step_def op_hosts_def)
next
  case (QEnsure h)
  then show ?thesis using queue_inv_fields [OF assms(1), of "snd (queue_ensure_tenant h q)"]
    by (simp add: queue_step_def)
next
  case (QReceive k i)
  have "set (wh_tasks (wh_receive w)) \<subseteq> set (wh_tasks w)" for w
    by (cases "wh_tasks w") (auto simp: wh_receive_def)
  then show ?thesis using at_worker_inv [OF assms(1), of wh_receive] QReceive by (simp add: queue_step_def)
next
  case (QExit k i)
  then show ?thesis using at_worker_inv [OF assms(1), of wh_exit] by (simp add: queue_step_def wh_exit_def)
qed

lemma queue_run_inv:
  "\<lbrakk>queue_inv env H q; (\<Union>x \<in> set xs. op_hosts x) \<subseteq> H\<rbrakk> \<Longrightarrow> queue_inv env H (fold (queue_step env) xs q)"
  by (induction xs arbitrary: q) (simp_all add: queue_step_inv)

lemma with_vfs_config_inv: "with_vfs_config n disk reg = Ret q \<Longrightarrow> queue_inv env H q"
  by (auto simp: with_vfs_config_def queue_inv_def default_queue_stats_def split: outcome.splits)

lemma sample_queue_new: "with_vfs_config 1 None None = Ret sample_queue"
  by (simp add: sample_queue_def with_vfs_config_def)

lemma sample_queue_eq: "sample_queue = \<lparr>wq_pools = [], workers_per_pool = 1, channel_capacity = 256,
    wq_stats = default_queue_stats, wq_vfs_disk_config = None, wq_registry = None,
    wq_control_plane = Some control_plane_new, hostname_env = []\<rparr>"
  by (simp add: sample_queue_def with_vfs_config_def)

section \<open>No step panics\<close>

lemma ensure_tenant_ok:
  assumes "CHR 0x00 \<notin> set h"
  obtains cp' where "ensure_tenant h cp = (Ret (), cp')" "tenant_exists cp' h"
proof (cases "tenant_exists cp h")
  case True
  then show thesis using that by (simp add: ensure_tenant_def)
next
  case False
  have "h \<noteq> []" using False by (auto simp: tenant_exists_def)
  then show thesis using that [of "snd (ensure_tenant h cp)"] False assms
    by (simp add: ensure_tenant_def register_tenant_def queue_tenant_limits_def
        SCRIPT_SIZE_BYTES_MAX_def TIMEOUT_MS_def tenant_exists_def)
qed

lemma queue_ensure_ok:
  assumes "CHR 0x00 \<notin> set h"
  shows "fst (queue_ensure_tenant h q) = Ret ()"
    and "wq_control_plane (snd (queue_ensure_tenant h q)) = Some cp \<Longrightarrow> tenant_exists cp h"
proof -
  have "fst (queue_ensure_tenant h q) = Ret ()
      \<and> (wq_control_plane (snd (queue_ensure_tenant h q)) = Some cp \<longrightarrow> tenant_exists cp h)"
  proof (cases "wq_control_plane q")
    case (Some cp0)
    obtain cp' where "ensure_tenant h cp0 = (Ret (), cp')" "tenant_exists cp' h"
      by (rule ensure_tenant_ok [OF assms])
    with Some show ?thesis by (auto simp: queue_ensure_tenant_def)
  qed (simp add: queue_ensure_tenant_def)
  then show "fst (queue_ensure_tenant h q) = Ret ()"
    "wq_control_plane (snd (queue_ensure_tenant h q)) = Some cp \<Longrightarrow> tenant_exists cp h" by simp_all
qed

lemma queue_dispatch_ok:
  assumes "queue_inv env UNIV q" "workers_per_pool q > 0" "CHR 0x00 \<notin> set h"
  obtains r q2 p where "queue_dispatch env h t q = (Ret r, q2)" "r \<noteq> Inl ChannelFull"
    "wp_inv p" "r = Inr () \<longleftrightarrow> fst (pool_dispatch p t) = Ret (Inr ())"
    "map_of (wq_pools q2) (hash_hostname env h) = Some (snd (pool_dispatch p t))"
    "map_of (wq_pools q) (hash_hostname env h) = Some p
     \<or> map_of (wq_pools q) (hash_hostname env h) = None
       \<and> with_source_and_backend h (workers_per_pool q) 0 (wp_backend p) = Ret p"
proof -
  have "\<exists>q1 p. get_or_create_pool env h q = (Ret (), q1) \<and> map_of (wq_pools q1) (hash_hostname env h) = Some p
     \<and> (map_of (wq_pools q) (hash_hostname env h) = Some p
        \<or> map_of (wq_pools q) (hash_hostname env h) = None
          \<and> with_source_and_backend h (workers_per_pool q) 0 (wp_backend p) = Ret p)"
    using queue_ensure_ok(1) [OF assms(3), of q] assms(2)
    by (cases rule: get_or_create_pool_cases [of q env h]) auto
  then obtain q1 p where g: "get_or_create_pool env h q = (Ret (), q1)"
    "map_of (wq_pools q1) (hash_hostname env h) = Some p"
    "map_of (wq_pools q) (hash_hostname env h) = Some p
     \<or> map_of (wq_pools q) (hash_hostname env h) = None
       \<and> with_source_and_backend h (workers_per_pool q) 0 (wp_backend p) = Ret p" by blast
  have "queue_inv env UNIV q1" using get_or_create_inv [OF assms(1), of h] g(1) by simp
  then have p: "wp_inv p" using queue_inv_pool [OF _ g(2)] by (auto simp: pool_ok_def)
  obtain r q2 where "queue_dispatch env h t q = (Ret r, q2)" "r \<noteq> Inl ChannelFull"
    "r = Inr () \<longleftrightarrow> fst (pool_dispatch p t) = Ret (Inr ())"
    "wq_pools q2 = AList.update (hash_hostname env h) (snd (pool_dispatch p t)) (wq_pools q1)"
    by (rule queue_dispatch_pool [OF g(1,2) p])
  then show thesis using that [of r q2 p] p g(3) by simp
qed

lemma registered_app: "registry_get (from_config c) h = Some a \<Longrightarrow> a \<in> set (apps c)"
  by (auto simp: from_config_get dest!: map_of_SomeD)

lemma queue_dispatch_workers: "workers_per_pool (snd (queue_dispatch env h t q)) = workers_per_pool q"
proof -
  have "workers_per_pool (snd (get_or_create_pool env h q)) = workers_per_pool q"
    by (cases rule: get_or_create_pool_cases [of q env h]) simp_all
  then show ?thesis
    by (auto simp: queue_dispatch_def Let_def split: prod.splits outcome.splits option.splits sum.splits)
qed

lemma queue_step_workers: "workers_per_pool (queue_step env x q) = workers_per_pool q"
  by (cases x) (auto simp: queue_step_def queue_dispatch_workers at_worker_def split: option.split)

lemma queue_run_workers: "workers_per_pool (fold (queue_step env) xs q) = workers_per_pool q"
  by (induction xs arbitrary: q) (simp_all add: queue_step_workers)

lemma with_vfs_config_workers: "with_vfs_config n disk reg = Ret q \<Longrightarrow> workers_per_pool q = n \<and> wq_pools q = []"
  by (auto simp: with_vfs_config_def split: outcome.splits)

lemma validate_request_ref_ok:
  assumes "task_entrypoint t \<noteq> []" "length (task_entrypoint t) \<le> 10 * 1024 * 1024"
    "unat (task_cpu_time_limit_ms t) \<le> 30000" "tenant_exists cp (task_hostname t)"
    "task_body_size t \<le> 10 * 1024 * 1024"
  shows "validate_request_ref cp t = Ret (Inr ())"
proof -
  have "unat (of_nat (length (task_entrypoint t)) :: u32) = length (task_entrypoint t)"
    using assms(2) by (simp add: unat_of_nat)
  then have "0 < (of_nat (length (task_entrypoint t)) :: u32)"
    "of_nat (length (task_entrypoint t)) \<le> SCRIPT_SIZE_BYTES_MAX"
    using assms(1,2) by (simp_all add: word_less_nat_alt word_le_nat_alt SCRIPT_SIZE_BYTES_MAX_def)
  moreover have "0 < task_timeout_ms t" "unat (task_timeout_ms t) \<in> {1..unat TIMEOUT_MS}"
    using assms(3) by (auto simp: task_timeout_ms_def TIMEOUT_MS_def word_less_nat_alt)
  moreover have "task_body_size t \<le> unat REQUEST_SIZE_BYTES_MAX"
    using assms(5) by (simp add: REQUEST_SIZE_BYTES_MAX_def)
  ultimately show ?thesis using assms(4) by (simp add: validate_request_ref_def Let_def)
qed

lemma waiting_dispatch:
  assumes "wp_inv p" "wp.all_open p"
  shows "fst (pool_dispatch p t) = Ret (Inr ())" "waiting (snd (pool_dispatch p t)) = Suc (waiting p)"
proof -
  let ?i = "unat (wp_next p) mod length (wp_workers p)"
  have i: "?i < length (wp_workers p)" by (rule wp.cursor_less [OF assms(1)])
  then have "wh_open (wp_workers p ! ?i)" using assms(2) by (simp add: wp.all_open_def)
  note d = wp.disp_open [OF assms(1) refl refl this, of t]
  then show "fst (pool_dispatch p t) = Ret (Inr ())" by simp
  show "waiting (snd (pool_dispatch p t)) = Suc (waiting p)"
    using d i by (simp add: waiting_def map_update sum_list_update)
qed

lemma waiting_new:
  "with_source_and_backend h n mem b = Ret p \<Longrightarrow> waiting p = 0 \<and> wp.all_open p"
  by (auto simp: with_source_and_backend_def waiting_def wp.all_open_def spawn_handle_def sum_list_eq_0_iff
      split: if_splits)

section \<open>Properties\<close>

text \<open>
  C8. Tasks are routed by the hash of their host. In every reachable state of the queue, for every hash function, a waiting task is in the pool whose
  key is the hash of the lowercase name of the task's host, and that is also the hash for the host of the pool. So a task waits in the
  pool of a host in another storage namespace only if the names differ and their hashes collide. And with a collision it does: whatever request of whatever host
  has the hash of the pool is handed to this pool, which keeps its host. Every pool has the configured number
  of workers, and the statistics count the pools.
\<close>

theorem queue_tenant_routing:
  assumes "with_vfs_config n disk reg = Ret q0" "n > 0" "q = fold (queue_step env) xs q0"
    "(k, p) \<in> set (wq_pools q)" "w \<in> set (wp_workers p)" "t \<in> set (wh_tasks w)"
    "qe_hash env (to_lowercase h) = k" "CHR 0x00 \<notin> set h"
  shows "qe_hash env (to_lowercase (task_hostname t)) = k \<and> qe_hash env (to_lowercase (wp_hostname p)) = k
     \<and> (from_hostname (task_hostname t) \<noteq> from_hostname (wp_hostname p) \<longrightarrow>
          to_lowercase (task_hostname t) \<noteq> to_lowercase (wp_hostname p))
     \<and> map_of (wq_pools (snd (queue_dispatch env h t' q))) k = Some (snd (pool_dispatch p t'))
     \<and> wp_hostname (snd (pool_dispatch p t')) = wp_hostname p
     \<and> length (wp_workers p) = unat n
     \<and> active_pools (wq_stats q) = of_nat (length (wq_pools q))"
proof -
  have inv: "queue_inv env UNIV q" unfolding assms(3) by (rule queue_run_inv [OF with_vfs_config_inv [OF assms(1)]]) simp
  then have ok: "pool_ok env UNIV (workers_per_pool q) k p" using assms(4) by (auto simp: queue_inv_def)
  have n: "workers_per_pool q = n"
    using with_vfs_config_workers [OF assms(1)] by (simp add: assms(3) queue_run_workers)
  have hashes: "qe_hash env (to_lowercase (task_hostname t)) = k" "qe_hash env (to_lowercase (wp_hostname p)) = k"
    using ok assms(5,6) by (auto simp: pool_ok_def hash_hostname_def)
  have key: "hash_hostname env h = k" using assms(7) by (simp add: hash_hostname_def)
  have m: "map_of (wq_pools q) k = Some p" using inv assms(4) by (auto simp: queue_inv_def intro: map_of_is_SomeI)
  have pos: "workers_per_pool q > 0" using n assms(2) by simp
  obtain r q2 p2 where q2: "queue_dispatch env h t' q = (Ret r, q2)" "r \<noteq> Inl ChannelFull"
    "wp_inv p2" "r = Inr () \<longleftrightarrow> fst (pool_dispatch p2 t') = Ret (Inr ())"
    "map_of (wq_pools q2) (hash_hostname env h) = Some (snd (pool_dispatch p2 t'))"
    "map_of (wq_pools q) (hash_hostname env h) = Some p2
     \<or> map_of (wq_pools q) (hash_hostname env h) = None
       \<and> with_source_and_backend h (workers_per_pool q) 0 (wp_backend p2) = Ret p2"
    by (rule queue_dispatch_ok [OF inv pos assms(8)])
  have d: "map_of (wq_pools (snd (queue_dispatch env h t' q))) k = Some (snd (pool_dispatch p t'))"
    using q2(1,5,6) m by (simp add: key)
  have "wp_hostname (snd (pool_dispatch p t')) = wp_hostname p"
    by (simp add: pool_dispatch_def Let_def split: prod.split)
  then show ?thesis using hashes d ok inv n by (auto simp: from_hostname_def pool_ok_def wp_inv_def queue_inv_def)
qed

theorem queue_tenant_routing_witness:
  "let q = fold (queue_step sample_env) [QDispatch ''App'' (sample_task ''x'')] sample_queue in
     \<exists>p. get_pool sample_env q ''Xyz'' = Some p \<and> wp_hostname p = ''App''
       \<and> get_pool sample_env (snd (queue_dispatch sample_env ''Xyz'' (sample_task ''y'') q)) ''Xyz'' = Some (snd (pool_dispatch p (sample_task ''y'')))"
proof -
  let ?t = "(sample_task ''x'')\<lparr>task_hostname := ''App''\<rparr>"
  let ?q = "fold (queue_step sample_env) [QDispatch ''App'' (sample_task ''x'')] sample_queue"
  have pools: "wq_pools ?q = [(3, sample_pool ?t)]"
    by (simp add: queue_step_def queue_dispatch_def get_or_create_pool_def sample_queue_eq
        queue_ensure_tenant_def ensure_tenant_def tenant_exists_def register_tenant_def
        queue_tenant_limits_def SCRIPT_SIZE_BYTES_MAX_def TIMEOUT_MS_def hash_hostname_def
        sample_env_def to_lowercase_def lower_char_def with_source_and_backend_def fallback_store_def
        try_dispatch_def pool_dispatch_def send_to_def handle_send_def spawn_handle_def
        sample_pool_def control_plane_new_def default_queue_stats_def Let_def)
  have p: "(3, sample_pool ?t) \<in> set (wq_pools ?q)" by (simp only: pools) simp
  have w: "\<lparr>wh_id = 0, wh_open = True, wh_tasks = [?t]\<rparr> \<in> set (wp_workers (sample_pool ?t))" by (simp add: sample_pool_def)
  have h: "qe_hash sample_env (to_lowercase ''Xyz'') = 3" "CHR 0x00 \<notin> set ''Xyz''" by code_simp+
  have k: "hash_hostname sample_env ''Xyz'' = 3" using h(1) by (simp add: hash_hostname_def)
  have "map_of (wq_pools (snd (queue_dispatch sample_env ''Xyz'' (sample_task ''y'') ?q))) 3
      = Some (snd (pool_dispatch (sample_pool ?t) (sample_task ''y'')))"
    using queue_tenant_routing [OF sample_queue_new _ refl p w _ h, of ?t "sample_task ''y''"] by simp
  then show ?thesis unfolding Let_def get_pool_def k pools by (simp add: sample_pool_def)
qed

text \<open>
  There is no backpressure: sending any number of tasks of one host to a new queue succeeds
  every time, whatever the declared channel capacity of 256, and all of them wait in the pool
  until a worker takes them. The answer 503 for a full queue is never produced.
\<close>

theorem queue_never_full:
  assumes "with_vfs_config n disk reg = Ret q0" "n > 0" "CHR 0x00 \<notin> set h"
  shows "let q = fold (queue_step env) (map (QDispatch h) ts) q0;
             (r, q') = queue_dispatch env h (t\<lparr>task_hostname := h\<rparr>) q in
     r = Ret (Inr ()) \<and> map_option waiting (get_pool env q' h) = Some (Suc (length ts))"
proof -
  define ok where "ok q m = (queue_inv env UNIV q \<and> workers_per_pool q = n
      \<and> (case map_of (wq_pools q) (hash_hostname env h) of None \<Rightarrow> m = 0
         | Some p \<Rightarrow> wp.all_open p \<and> waiting p = m))" for q :: "'a work_queue" and m
  have step: "fst (queue_dispatch env h (t\<lparr>task_hostname := h\<rparr>) q) = Ret (Inr ())
      \<and> ok (queue_step env (QDispatch h t) q) (Suc m)
      \<and> map_option waiting (get_pool env (queue_step env (QDispatch h t) q) h) = Some (Suc m)"
    if o: "ok q m" for t m and q :: "'a work_queue"
  proof -
    let ?t = "t\<lparr>task_hostname := h\<rparr>"
    have inv: "queue_inv env UNIV q" "workers_per_pool q > 0" using o assms(2) by (auto simp: ok_def)
    obtain r q2 p where d: "queue_dispatch env h ?t q = (Ret r, q2)" "wp_inv p"
      "r = Inr () \<longleftrightarrow> fst (pool_dispatch p ?t) = Ret (Inr ())"
      "map_of (wq_pools q2) (hash_hostname env h) = Some (snd (pool_dispatch p ?t))"
      "map_of (wq_pools q) (hash_hostname env h) = Some p
       \<or> map_of (wq_pools q) (hash_hostname env h) = None
         \<and> with_source_and_backend h (workers_per_pool q) 0 (wp_backend p) = Ret p"
      by (rule queue_dispatch_ok [OF inv assms(3)])
    then have p: "wp.all_open p" "waiting p = m"
      using o waiting_new [of h "workers_per_pool q" 0 "wp_backend p" p] by (auto simp: ok_def)
    have "queue_step env (QDispatch h t) q = q2" using d(1) by (simp add: queue_step_def)
    then show ?thesis
      using d waiting_dispatch [OF d(2) p(1), of ?t] wp.disp_step_open(2) [OF d(2) p(1), of ?t] p(2) o
        queue_step_workers [of env "QDispatch h t" q] queue_step_inv [OF inv(1), of "QDispatch h t"]
      by (simp add: ok_def get_pool_def)
  qed
  have "ok (fold (queue_step env) (map (QDispatch h) ts) q0) (length ts)"
  proof (induction ts rule: rev_induct)
    case Nil
    then show ?case using with_vfs_config_workers [OF assms(1)] with_vfs_config_inv [OF assms(1)]
      by (simp add: ok_def)
  qed (use step in simp)
  from step [OF this, of t] show ?thesis
    by (cases "queue_dispatch env h (t\<lparr>task_hostname := h\<rparr>) (fold (queue_step env) (map (QDispatch h) ts) q0)")
      (simp add: Let_def queue_step_def)
qed

theorem queue_never_full_witness:
  "let q = fold (queue_step sample_env) (map (QDispatch ''h'') (replicate 1000 (sample_task ''h''))) sample_queue;
       (r, q') = queue_dispatch sample_env ''h'' ((sample_task ''h'')\<lparr>task_hostname := ''h''\<rparr>) q in
   r = Ret (Inr ()) \<and> map_option waiting (get_pool sample_env q' ''h'') = Some 1001"
  using queue_never_full [OF sample_queue_new, of "''h''" sample_env "replicate 1000 (sample_task ''h'')" "sample_task ''h''"]
  by simp

end
