(* ===== verification/Config_Loader.thy ===== *)
theory Config_Loader
  imports Sliver_Validation Work_Queue
begin

text \<open>
  The loader that a reload uses (\<^verbatim>\<open>src/src/config/loader.rs\<close>) and the watcher of the configuration file
  (\<^verbatim>\<open>src/src/config/watcher.rs\<close>). The environment is a function, the JSON parser a parameter whose error is its text and
  line. What the file system answers is a record per load and one per poll. A text is its UTF-8 bytes; the
  substitution only looks for ASCII characters, so bytes serve where the code has characters, except in the message
  that quotes the offending character.
\<close>

section \<open>Definitions\<close>

subsection \<open>Substitution of environment variables\<close>

definition dollar :: char where "dollar = CHR 0x24"

text \<open>\<open>parse_default\<close> is the inner loop of \<open>parse_var_ref\<close>; both return the rest of the input.\<close>

fun parse_default :: "string \<Rightarrow> string \<Rightarrow> (string \<times> string) option" where
  "parse_default dflt [] = None"
| "parse_default dflt (ch # s) =
     (if ch = CHR ''}'' then Some (dflt, s) else parse_default (dflt @ [ch]) s)"

fun parse_var_ref :: "string \<Rightarrow> string \<Rightarrow> string + (string \<times> string option) \<times> string" where
  "parse_var_ref var_name [] = Inl (''Unclosed variable reference: '' @ [dollar] @ ''{'' @ var_name)"
| "parse_var_ref var_name (ch # s) =
     (if ch = CHR ''}'' then Inr ((var_name, None), s)
      else if ch = CHR '':''
      then (case s of
          c # s' \<Rightarrow>
            if c = CHR ''-''
            then (case parse_default [] s' of
                Some (d, r) \<Rightarrow> Inr ((var_name, Some d), r)
              | None \<Rightarrow> Inl (''Unclosed default value in '' @ [dollar] @ ''{VAR:-...}''))
            else Inl (''Invalid syntax after '' @ quoted '':'' @ '' in variable reference, expected '' @ quoted '':-'')
        | [] \<Rightarrow> Inl (''Invalid syntax after '' @ quoted '':'' @ '' in variable reference, expected '' @ quoted '':-''))
      else if is_ascii_alphanumeric ch \<or> ch = CHR ''_'' then parse_var_ref (var_name @ [ch]) s
      else Inl (''Invalid character '' @ quoted (hd (utf8_chars (ch # s))) @ '' in variable name ''
             @ quoted ([dollar] @ ''{'' @ var_name @ ''}'')))"

lemma parse_default_shorter: "parse_default d s = Some (d', r) \<Longrightarrow> length r < length s"
  by (induction d s rule: parse_default.induct) (auto split: if_splits)

lemma parse_var_ref_shorter: "parse_var_ref n s = Inr (v, r) \<Longrightarrow> length r < length s"
  by (induction n s rule: parse_var_ref.induct)
    (auto split: if_splits list.splits option.splits dest!: parse_default_shorter)

text \<open>\<^verbatim>\<open>std::env::var(..).unwrap_or_else(..)\<close>.\<close>

definition var_value :: "(string \<Rightarrow> string option) \<Rightarrow> string \<times> string option \<Rightarrow> string" where
  "var_value env vd = (case env (fst vd) of
       Some v \<Rightarrow> v
     | None \<Rightarrow> (case snd vd of Some d \<Rightarrow> d | None \<Rightarrow> []))"

function substitute_env_vars :: "(string \<Rightarrow> string option) \<Rightarrow> string \<Rightarrow> string + string" where
  "substitute_env_vars env [] = Inr []"
| "substitute_env_vars env (ch # s) =
     (if ch = dollar \<and> starts_with s ''{''
      then (case parse_var_ref [] (tl s) of
          Inl e \<Rightarrow> Inl e
        | Inr (vd, r) \<Rightarrow> map_sum id (\<lambda>result. var_value env vd @ result) (substitute_env_vars env r))
      else map_sum id (\<lambda>result. ch # result) (substitute_env_vars env s))"
  by pat_completeness auto
termination
  by (relation "measure (length \<circ> snd)") (auto simp: less_Suc_eq_le dest!: parse_var_ref_shorter)

subsection \<open>Reporting a parse error\<close>

text \<open>\<^verbatim>\<open>str::lines\<close>: a line ends with a newline, a carriage return before it belongs to the end.\<close>

definition strip_cr :: "string \<Rightarrow> string" where
  "strip_cr l = (if ends_with_char l (CHR 0x0D) then butlast l else l)"

definition str_lines :: "string \<Rightarrow> string list" where
  "str_lines s = (let ps = split_on (CHR 0x0A) s in
     map strip_cr (butlast ps) @ (if last ps = [] then [] else [last ps]))"

fun context_lines :: "string list \<Rightarrow> nat \<Rightarrow> nat list \<Rightarrow> string outcome" where
  "context_lines lines error_line [] = Ret []"
| "context_lines lines error_line (line_num # rest) =
     (if line_num < 1 \<or> length lines \<le> line_num - 1 then Panic
      else case context_lines lines error_line rest of
          Panic \<Rightarrow> Panic
        | Ret t \<Rightarrow> Ret ((if line_num = error_line then ''>>> '' else ''    '') @ show_nat line_num @ '': ''
                       @ lines ! (line_num - 1) @ [CHR 0x0A] @ t))"

definition format_parse_error :: "string \<Rightarrow> string \<Rightarrow> nat \<Rightarrow> string outcome" where
  "format_parse_error error_msg raw error_line =
     (let lines = str_lines raw;
          start = max (error_line - 2) 1;
          stop = min (error_line + 1) (length lines)
      in case context_lines lines error_line [start..<stop + 1] of
          Panic \<Rightarrow> Panic
        | Ret t \<Rightarrow> Ret (error_msg @ [CHR 0x0A, CHR 0x0A] @ ''Context:'' @ [CHR 0x0A] @ t))"

subsection \<open>Loading\<close>

definition MAX_CONFIG_SIZE :: nat where "MAX_CONFIG_SIZE = 1024 * 1024"

definition default_config_path :: string where "default_config_path = ''nano.json''"

text \<open>What the file system answers: existence, kind, size, and the text (\<open>None\<close> when it cannot be read or is no UTF-8).\<close>

record config_file =
  cf_exists :: bool
  cf_is_file :: bool
  cf_len :: "nat option"
  cf_text :: "string option"

definition validated :: "host_fs \<Rightarrow> string option \<Rightarrow> nano_config \<Rightarrow> string + nano_config" where
  "validated fs base config = (case mod_validate_nano_config fs base config of
       Inl errors \<Rightarrow> Inl (''Config validation failed:'' @ [CHR 0x0A] @ show_errors errors)
     | Inr _ \<Rightarrow> Inr config)"

definition load_config ::
  "host_fs \<Rightarrow> (string \<Rightarrow> string option) \<Rightarrow> (string \<Rightarrow> (string \<times> nat) + nano_config) \<Rightarrow> string \<Rightarrow> config_file
     \<Rightarrow> (string + nano_config) outcome" where
  "load_config fs env from_str path f =
     (if \<not> cf_exists f then Ret (Inl (''Config file not found: '' @ path))
      else if \<not> cf_is_file f then Ret (Inl (''Config path is not a file: '' @ path))
      else case cf_len f of
          None \<Rightarrow> Ret (Inl (''Failed to read metadata for: '' @ path))
        | Some n \<Rightarrow>
      if n > MAX_CONFIG_SIZE
      then Ret (Inl (''Config file exceeds size limit: '' @ show_nat n @ '' bytes (max '' @ show_nat MAX_CONFIG_SIZE @ '' bytes)''))
      else case cf_text f of
          None \<Rightarrow> Ret (Inl (''Failed to read config file: '' @ path))
        | Some raw \<Rightarrow>
      (case substitute_env_vars env raw of
          Inl e \<Rightarrow> Ret (Inl e)
        | Inr substituted \<Rightarrow>
      (case from_str substituted of
          Inl (e, line) \<Rightarrow>
            (case format_parse_error (''Invalid JSON at '' @ path @ '': '' @ e) substituted line of
                Panic \<Rightarrow> Panic | Ret m \<Rightarrow> Ret (Inl m))
        | Inr config \<Rightarrow> Ret (validated fs (path_parent path) config))))"

definition load_config_sync ::
  "host_fs \<Rightarrow> (string \<Rightarrow> string option) \<Rightarrow> (string \<Rightarrow> (string \<times> nat) + nano_config) \<Rightarrow> string \<Rightarrow> string option
     \<Rightarrow> string + nano_config" where
  "load_config_sync fs env from_str raw base =
     bind_res (substitute_env_vars env raw) (\<lambda>substituted.
       case from_str substituted of
          Inl (e, line) \<Rightarrow> Inl (''Invalid JSON: '' @ e @ '' at line '' @ show_nat line)
        | Inr config \<Rightarrow> validated fs base config)"

text \<open>A reload: the loader, then \<^verbatim>\<open>reload_config\<close> of \<^verbatim>\<open>app/reload.rs\<close> on its result.\<close>

definition reload_from_file ::
  "host_fs \<Rightarrow> (string \<Rightarrow> string option) \<Rightarrow> (string \<Rightarrow> (string \<times> nat) + nano_config) \<Rightarrow> string \<Rightarrow> config_file
     \<Rightarrow> 's app_registry \<Rightarrow> request_drain \<Rightarrow> drain_event list
     \<Rightarrow> (reload_error + 's app_registry \<times> config_diff \<times> request_drain) outcome" where
  "reload_from_file fs env from_str path f current drain during = (case load_config fs env from_str path f of
       Panic \<Rightarrow> Panic
     | Ret new_config \<Rightarrow> Ret (reload_config new_config current drain during))"

subsection \<open>The watcher\<close>

datatype config_event = Modified string string | Deleted string | Created string

text \<open>The poll interval in seconds.\<close>

record config_watcher =
  watch_path :: string
  poll_interval :: u64
  last_checksum :: "string option"
  last_modified :: "nat option"
  was_present :: bool

text \<open>What one poll sees: existence, the bytes read and the time of modification.\<close>

record watch_view =
  wv_exists :: bool
  wv_read :: "string option"
  wv_mtime :: "nat option"

text \<open>\<open>sha\<close> is SHA-256 in hexadecimal digits.\<close>

definition compute_checksum :: "(string \<Rightarrow> string) \<Rightarrow> watch_view \<Rightarrow> (string \<times> nat) option" where
  "compute_checksum sha v = (case wv_read v of
       None \<Rightarrow> None
     | Some raw \<Rightarrow> map_option (\<lambda>t. (sha raw, t)) (wv_mtime v))"

definition watcher_new :: "(string \<Rightarrow> string) \<Rightarrow> string \<Rightarrow> watch_view \<Rightarrow> config_watcher" where
  "watcher_new sha path v =
     (let c = (if wv_exists v then compute_checksum sha v else None)
      in \<lparr>watch_path = path, poll_interval = 2, last_checksum = map_option fst c, last_modified = map_option snd c,
          was_present = wv_exists v\<rparr>)"

definition with_interval :: "u64 \<Rightarrow> config_watcher \<Rightarrow> config_watcher" where
  "with_interval secs w = w\<lparr>poll_interval := secs\<rparr>"

definition check_now :: "(string \<Rightarrow> string) \<Rightarrow> watch_view \<Rightarrow> config_watcher \<Rightarrow> config_event option \<times> config_watcher" where
  "check_now sha v w =
     (if wv_exists v \<and> \<not> was_present w
      then (let w = w\<lparr>was_present := True\<rparr> in
            case compute_checksum sha v of
              Some (checksum, mtime) \<Rightarrow>
                (Some (Created (watch_path w)), w\<lparr>last_checksum := Some checksum, last_modified := Some mtime\<rparr>)
            | None \<Rightarrow> (Some (Created (watch_path w)), w))
      else if \<not> wv_exists v \<and> was_present w
      then (Some (Deleted (watch_path w)), w\<lparr>was_present := False, last_checksum := None, last_modified := None\<rparr>)
      else if \<not> wv_exists v then (None, w)
      else case compute_checksum sha v of
          Some (checksum, mtime) \<Rightarrow>
            if last_checksum w \<noteq> Some checksum
            then (Some (Modified (watch_path w) checksum), w\<lparr>last_checksum := Some checksum, last_modified := Some mtime\<rparr>)
            else (None, w)
        | None \<Rightarrow> (None, w))"

text \<open>
  \<^verbatim>\<open>watch\<close> polls until there is an event. Its argument is what the polls see; it returns the event, the number of
  intervals slept and the rest, or \<open>None\<close> when it still waits after the last view.
\<close>

fun watch :: "(string \<Rightarrow> string) \<Rightarrow> watch_view list \<Rightarrow> config_watcher \<Rightarrow> (config_event \<times> nat \<times> watch_view list) option \<times> config_watcher" where
  "watch sha [] w = (None, w)"
| "watch sha (v # vs) w = (case check_now sha v w of
       (Some e, w') \<Rightarrow> (Some (e, 0, vs), w')
     | (None, w') \<Rightarrow> apfst (map_option (\<lambda>(e, n, r). (e, n + 1, r))) (watch sha vs w'))"

subsection \<open>Specification vocabulary\<close>

text \<open>A text as a sequence of characters and references, how it is written and what it stands for.\<close>

datatype piece = Lit char | Ref string "string option"

definition write_piece :: "piece \<Rightarrow> string" where
  "write_piece p = (case p of
       Lit c \<Rightarrow> [c]
     | Ref v None \<Rightarrow> [dollar] @ ''{'' @ v @ ''}''
     | Ref v (Some d) \<Rightarrow> [dollar] @ ''{'' @ v @ '':-'' @ d @ ''}'')"

definition piece_value :: "(string \<Rightarrow> string option) \<Rightarrow> piece \<Rightarrow> string" where
  "piece_value env p = (case p of Lit c \<Rightarrow> [c] | Ref v d \<Rightarrow> var_value env (v, d))"

definition name_ok :: "string \<Rightarrow> bool" where
  "name_ok v = list_all (\<lambda>c. is_ascii_alphanumeric c \<or> c = CHR ''_'') v"

text \<open>Names and defaults are of the right form, and no two characters look like the start of a reference.\<close>

fun pieces_ok :: "piece list \<Rightarrow> bool" where
  "pieces_ok [] = True"
| "pieces_ok (Lit c # ps) = ((c = dollar \<longrightarrow> \<not> starts_with (concat (map write_piece ps)) ''{'') \<and> pieces_ok ps)"
| "pieces_ok (Ref v d # ps) = (name_ok v \<and> (\<forall>x. d = Some x \<longrightarrow> CHR ''}'' \<notin> set x) \<and> pieces_ok ps)"

text \<open>What the watcher should report: the change between two states of the file, and the states that polls see.\<close>

definition view_state :: "watch_view \<Rightarrow> string option" where
  "view_state v = (if wv_exists v then wv_read v else None)"

definition view_complete :: "watch_view \<Rightarrow> bool" where
  "view_complete v = (wv_exists v \<longrightarrow> wv_read v \<noteq> None \<and> wv_mtime v \<noteq> None)"

definition change :: "(string \<Rightarrow> string) \<Rightarrow> string \<Rightarrow> string option \<Rightarrow> string option \<Rightarrow> config_event option" where
  "change sha path old new = (case (old, new) of
       (None, None) \<Rightarrow> None
     | (None, Some _) \<Rightarrow> Some (Created path)
     | (Some _, None) \<Rightarrow> Some (Deleted path)
     | (Some a, Some b) \<Rightarrow> if a = b then None else Some (Modified path (sha b)))"

primrec run_checks :: "(string \<Rightarrow> string) \<Rightarrow> watch_view list \<Rightarrow> config_watcher \<Rightarrow> config_event option list" where
  "run_checks sha [] w = []"
| "run_checks sha (v # vs) w = (let (e, w') = check_now sha v w in e # run_checks sha vs w')"

section \<open>Lemmas\<close>

lemma parse_default_iff:
  "parse_default d s = Some (d', r) \<longleftrightarrow> (\<exists>x. d' = d @ x \<and> s = x @ ''}'' @ r \<and> CHR ''}'' \<notin> set x)"
proof (induction d s rule: parse_default.induct)
  case (2 d ch s)
  then show ?case by (cases "ch = CHR ''}''") (auto simp: Cons_eq_append_conv)
qed simp

lemma parse_default_append [simp]: "CHR ''}'' \<notin> set x \<Longrightarrow> parse_default d (x @ CHR ''}'' # r) = Some (d @ x, r)"
  by (simp add: parse_default_iff)

lemma name_ok_simps [simp]:
  "name_ok []" "name_ok (c # v) \<longleftrightarrow> (is_ascii_alphanumeric c \<or> c = CHR ''_'') \<and> name_ok v"
  by (simp_all add: name_ok_def)

lemma name_char_not_special:
  "is_ascii_alphanumeric c \<or> c = CHR ''_'' \<Longrightarrow> c \<noteq> CHR ''}'' \<and> c \<noteq> CHR '':''"
  by (auto simp: is_ascii_alphanumeric_def)

text \<open>What is left to write of a reference after its name.\<close>

lemma parse_var_ref_iff:
  "parse_var_ref n s = Inr ((v, d), r) \<longleftrightarrow>
     (\<exists>w. v = n @ w \<and> name_ok w \<and> s = w @ (case d of None \<Rightarrow> ''}'' | Some x \<Rightarrow> '':-'' @ x @ ''}'') @ r
        \<and> (\<forall>x. d = Some x \<longrightarrow> CHR ''}'' \<notin> set x))"
proof (induction n s rule: parse_var_ref.induct)
  case (1 n)
  show ?case by (auto split: option.split)
next
  case (2 n ch s)
  consider "ch = CHR ''}''" | "ch = CHR '':''" | "is_ascii_alphanumeric ch \<or> ch = CHR ''_''"
    | "ch \<noteq> CHR ''}''" "ch \<noteq> CHR '':''" "\<not> (is_ascii_alphanumeric ch \<or> ch = CHR ''_'')" by blast
  then show ?case
  proof cases
    case 1
    then show ?thesis using name_char_not_special [of ch]
      by (auto simp: Cons_eq_append_conv split: option.splits)
  next
    case 2
    have "parse_var_ref n (ch # s) = Inr ((v, d), r) \<longleftrightarrow>
        (\<exists>x. v = n \<and> d = Some x \<and> s = CHR ''-'' # x @ CHR ''}'' # r \<and> CHR ''}'' \<notin> set x)"
    proof
      assume "parse_var_ref n (ch # s) = Inr ((v, d), r)"
      then show "\<exists>x. v = n \<and> d = Some x \<and> s = CHR ''-'' # x @ CHR ''}'' # r \<and> CHR ''}'' \<notin> set x"
        using 2 by (auto simp: parse_default_iff split: option.splits list.splits if_splits)
    qed (use 2 in auto)
    then show ?thesis using name_char_not_special [of ch] 2 by (auto simp: Cons_eq_append_conv split: option.splits)
  next
    case 3
    then show ?thesis using name_char_not_special [OF 3] "2.IH"
      by (auto simp: Cons_eq_append_conv split: option.splits)
  next
    case 4
    then show ?thesis by (auto simp: Cons_eq_append_conv split: option.splits)
  qed
qed

text \<open>The text splits into pieces, and the pieces determine the result.\<close>

lemma starts_with_brace: "starts_with s ''{'' \<longleftrightarrow> (\<exists>r. s = CHR ''{'' # r)"
  by (cases s) (auto simp: starts_with_def)

lemma piece_simps [simp]:
  "write_piece (Lit c) = [c]" "piece_value env (Lit c) = [c]" "piece_value env (Ref v d) = var_value env (v, d)"
  "write_piece (Ref v d) = dollar # CHR ''{'' # v @ (case d of None \<Rightarrow> ''}'' | Some x \<Rightarrow> '':-'' @ x @ ''}'')"
  by (auto simp: write_piece_def piece_value_def split: option.split)

lemma map_sum_Inr_iff: "map_sum f g x = Inr y \<longleftrightarrow> (\<exists>z. x = Inr z \<and> y = g z)"
  by (cases x) auto

lemma substitute_pieces:
  "substitute_env_vars env s = Inr r \<Longrightarrow>
   \<exists>ps. pieces_ok ps \<and> concat (map write_piece ps) = s \<and> r = concat (map (piece_value env) ps)"
proof (induction env s arbitrary: r rule: substitute_env_vars.induct)
  case (1 env)
  then show ?case by (intro exI [of _ "[]"]) simp
next
  case (2 env ch s)
  show ?case
  proof (cases "ch = dollar \<and> starts_with s ''{''")
    case True
    then obtain s' where s': "s = CHR ''{'' # s'" by (auto simp: starts_with_brace)
    obtain v d r' t where p: "parse_var_ref [] s' = Inr ((v, d), r')" and t: "substitute_env_vars env r' = Inr t"
      using 2(3) True s' by (auto simp: map_sum_Inr_iff split: sum.splits)
    obtain ps where ps: "pieces_ok ps" "concat (map write_piece ps) = r'" "t = concat (map (piece_value env) ps)"
      using 2(1) [OF True] p t s' by fastforce
    have "r = var_value env (v, d) @ t" using 2(3) True s' p t by simp
    then show ?thesis using ps p s' True
      by (intro exI [of _ "Ref v d # ps"])
        (auto simp: parse_var_ref_iff split: option.splits)
  next
    case False
    then obtain t where t: "substitute_env_vars env s = Inr t" "r = ch # t"
      using 2(3) by (cases "substitute_env_vars env s") auto
    obtain ps where ps: "pieces_ok ps" "concat (map write_piece ps) = s" "t = concat (map (piece_value env) ps)"
      using 2(2) [OF False t(1)] by blast
    then show ?thesis using False t(2) by (intro exI [of _ "Lit ch # ps"]) auto
  qed
qed

lemma pieces_substitute:
  "pieces_ok ps \<Longrightarrow> substitute_env_vars env (concat (map write_piece ps)) = Inr (concat (map (piece_value env) ps))"
proof (induction ps rule: pieces_ok.induct)
  case (2 c ps)
  then show ?case by auto
next
  case (3 v d ps)
  let ?r = "concat (map write_piece ps)"
  have "parse_var_ref [] (v @ (case d of None \<Rightarrow> ''}'' | Some x \<Rightarrow> '':-'' @ x @ ''}'') @ ?r) = Inr ((v, d), ?r)"
    using 3 by (subst parse_var_ref_iff) auto
  then show ?case using 3 by (cases d) (auto simp: starts_with_def)
qed simp

lemma no_reference_pieces:
  "\<not> contains_sub s [dollar, CHR ''{''] \<Longrightarrow> pieces_ok (map Lit s)"
proof (induction s)
  case (Cons c s)
  have w: "concat (map write_piece (map Lit s)) = s" by (induction s) auto
  have "\<not> contains_sub s [dollar, CHR ''{'']" "\<not> (c = dollar \<and> starts_with s ''{'')"
    using Cons.prems by (auto simp: contains_sub_def starts_with_def split: if_splits option.splits)
  then show ?case using Cons.IH w by (auto simp: starts_with_brace)
qed simp

lemma substitute_no_reference: "\<not> contains_sub s [dollar, CHR ''{''] \<Longrightarrow> substitute_env_vars env s = Inr s"
proof -
  assume "\<not> contains_sub s [dollar, CHR ''{'']"
  moreover have "concat (map write_piece (map Lit s)) = s" "concat (map (piece_value env) (map Lit s)) = s"
    by (induction s) auto
  ultimately show ?thesis using pieces_substitute [OF no_reference_pieces, of s env] by simp
qed

lemma context_lines_ok: "\<forall>n \<in> set ns. 1 \<le> n \<and> n \<le> length lines \<Longrightarrow> context_lines lines e ns \<noteq> Panic"
  by (induction ns) (auto split: outcome.split)

lemma format_parse_error_ok: "format_parse_error m raw n \<noteq> Panic"
proof -
  let ?ls = "str_lines raw"
  have "context_lines ?ls n [max (n - 2) 1..<min (n + 1) (length ?ls) + 1] \<noteq> Panic"
    by (rule context_lines_ok) auto
  then show ?thesis by (auto simp: format_parse_error_def Let_def split: outcome.split)
qed

lemma validated_ok [simp]: "validated fs base c = Inr d \<longleftrightarrow> d = c \<and> mod_validate_nano_config fs base c = Inr ()"
  by (auto simp: validated_def split: sum.split)

lemma load_config_ok:
  "load_config fs env from_str path f = Ret (Inr c) \<longleftrightarrow>
     cf_exists f \<and> cf_is_file f \<and> (\<exists>n \<le> MAX_CONFIG_SIZE. cf_len f = Some n)
     \<and> (\<exists>raw t. cf_text f = Some raw \<and> substitute_env_vars env raw = Inr t \<and> from_str t = Inr c)
     \<and> mod_validate_nano_config fs (path_parent path) c = Inr ()"
  by (auto simp: load_config_def split: option.split sum.split outcome.split)

lemma load_config_no_panic: "load_config fs env from_str path f \<noteq> Panic"
  using format_parse_error_ok by (auto simp: load_config_def split: option.split sum.split outcome.split)

lemma mod_validate_config_no_base: "mod_validate_config fs base c = Inr () \<Longrightarrow> mod_validate_config fs' None c = Inr ()"
  by (auto simp: mod_validate_config_iff path_present_def)

lemma mod_validate_nano_no_base: "mod_validate_nano_config fs base c = Inr () \<Longrightarrow> mod_validate_nano_config fs' None c = Inr ()"
  by (auto simp: mod_validate_nano_config_iff list_all_iff dest: mod_validate_config_no_base)

lemma check_now_change:
  assumes "view_complete v" "inj_on sha C" "view_state u \<in> insert None (Some ` C)" "view_state v \<in> insert None (Some ` C)"
    "view_complete u" "was_present w = wv_exists u" "last_checksum w = map_option sha (view_state u)"
  shows "fst (check_now sha v w) = change sha (watch_path w) (view_state u) (view_state v)
    \<and> was_present (snd (check_now sha v w)) = wv_exists v
    \<and> last_checksum (snd (check_now sha v w)) = map_option sha (view_state v)
    \<and> watch_path (snd (check_now sha v w)) = watch_path w"
  using assms
  by (auto simp: check_now_def change_def view_state_def view_complete_def compute_checksum_def Let_def
      split: option.splits if_splits dest: inj_onD)

lemma run_checks_changes:
  assumes "\<forall>v \<in> set (u # vs). view_complete v \<and> view_state v \<in> insert None (Some ` C)" "inj_on sha C"
    "was_present w = wv_exists u" "last_checksum w = map_option sha (view_state u)"
  shows "run_checks sha vs w = map (\<lambda>(a, b). change sha (watch_path w) a b) (zip (map view_state (u # vs)) (map view_state vs))"
  using assms
proof (induction vs arbitrary: u w)
  case (Cons v vs)
  let ?w = "snd (check_now sha v w)"
  have c: "fst (check_now sha v w) = change sha (watch_path w) (view_state u) (view_state v)"
    "was_present ?w = wv_exists v" "last_checksum ?w = map_option sha (view_state v)" "watch_path ?w = watch_path w"
    using check_now_change [of v sha C u w] Cons.prems by auto
  have "run_checks sha vs ?w = map (\<lambda>(a, b). change sha (watch_path w) a b) (zip (map view_state (v # vs)) (map view_state vs))"
    using Cons.IH [of v ?w] Cons.prems(1,2) c by auto
  then show ?case using c(1) by (simp add: prod.case_eq_if)
qed simp

section \<open>Properties\<close>

text \<open>
  C13. Substitution does what the documentation says, and nothing else. A text is accepted exactly when it can be split into
  ordinary characters and references \<^verbatim>\<open>${NAME}\<close> or \<^verbatim>\<open>${NAME:-default}\<close> (letters, digits and underscores in a name, no brace
  in a default); the result is then the concatenation of the characters and the values of the references, where a
  variable that is not set has its default or the empty text. A text without \<^verbatim>\<open>${\<close> is not changed.
\<close>

theorem substitution_exact:
  "(substitute_env_vars env s = Inr r \<longleftrightarrow>
      (\<exists>ps. pieces_ok ps \<and> concat (map write_piece ps) = s \<and> r = concat (map (piece_value env) ps)))
   \<and> (\<not> contains_sub s [dollar, CHR ''{''] \<longrightarrow> substitute_env_vars env s = Inr s)"
  using substitute_pieces [of env s r] pieces_substitute [of _ env] substitute_no_reference [of s env] by auto

theorem substitution_exact_witness:
  "substitute_env_vars (\<lambda>v. if v = ''A'' then Some ''x'' else None) ([dollar] @ ''{A}.'' @ [dollar] @ ''{B:-y}'') = Inr ''x.y''
   \<and> substitute_env_vars (\<lambda>v. None) ''a{b}'' = Inr ''a{b}''"
proof -
  let ?env = "\<lambda>v. if v = ''A'' then Some ''x'' else None :: string option"
  have "substitute_env_vars ?env ([dollar] @ ''{A}.'' @ [dollar] @ ''{B:-y}'') = Inr ''x.y''"
    by (rule substitution_exact [THEN conjunct1, THEN iffD2],
        intro exI [of _ "[Ref ''A'' None, Lit (CHR ''.''), Ref ''B'' (Some ''y'')]"])
      (simp add: var_value_def is_ascii_alphanumeric_def dollar_def)
  moreover have "\<not> contains_sub ''a{b}'' [dollar, CHR ''{'']" by code_simp
  ultimately show ?thesis using substitution_exact [of "\<lambda>v. None" "''a{b}''"] by blast
qed

text \<open>
  The loader of a reload never panics, whatever line the JSON parser reports, and returns a configuration exactly
  when the file exists, is a regular file of at most 1 MB, can be read, its references can be substituted, the result
  parses to that configuration and the configuration passes validation relative to the directory of the file.
\<close>

theorem reload_loader_exact:
  "load_config fs env from_str path f \<noteq> Panic
   \<and> (load_config fs env from_str path f = Ret (Inr c) \<longleftrightarrow>
        cf_exists f \<and> cf_is_file f \<and> (\<exists>n \<le> MAX_CONFIG_SIZE. cf_len f = Some n)
        \<and> (\<exists>raw t. cf_text f = Some raw \<and> substitute_env_vars env raw = Inr t \<and> from_str t = Inr c)
        \<and> mod_validate_nano_config fs (path_parent path) c = Inr ())"
  using load_config_no_panic load_config_ok by blast

text \<open>
  The loader at the start and the loader of a reload read different languages. A file without \<^verbatim>\<open>${\<close> that a reload accepts is
  accepted at the start with the same configuration. In a file with references, what the start parses is the text with the
  references in it, so the two agree only if the parser gives the same answer for both texts.
\<close>

theorem loaders_agree_without_references:
  "load_config fs env from_str path f = Ret (Inr c) \<and> cf_text f = Some raw \<longrightarrow>
     (mod_load_config fs' (\<lambda>s. map_sum fst id (from_str s)) (Inr raw) = Inr c \<longleftrightarrow> from_str raw = Inr c)
     \<and> (\<not> contains_sub raw [dollar, CHR ''{''] \<longrightarrow> mod_load_config fs' (\<lambda>s. map_sum fst id (from_str s)) (Inr raw) = Inr c)"
proof (intro impI)
  assume a: "load_config fs env from_str path f = Ret (Inr c) \<and> cf_text f = Some raw"
  then have v: "mod_validate_nano_config fs' None c = Inr ()" by (auto simp: load_config_ok intro: mod_validate_nano_no_base)
  obtain t where t: "substitute_env_vars env raw = Inr t" "from_str t = Inr c" using a by (auto simp: load_config_ok)
  have "mod_load_config fs' (\<lambda>s. map_sum fst id (from_str s)) (Inr raw) = Inr c \<longleftrightarrow> from_str raw = Inr c"
    using v by (auto simp: mod_load_config_def mod_load_config_from_str_def nano_config_validate_def map_sum_Inr_iff
        split: sum.split sum.split_asm)
  moreover have "from_str raw = Inr c" if "\<not> contains_sub raw [dollar, CHR ''{'']"
    using substitute_no_reference [OF that, of env] t by simp
  ultimately show "(mod_load_config fs' (\<lambda>s. map_sum fst id (from_str s)) (Inr raw) = Inr c \<longleftrightarrow> from_str raw = Inr c)
     \<and> (\<not> contains_sub raw [dollar, CHR ''{''] \<longrightarrow> mod_load_config fs' (\<lambda>s. map_sum fst id (from_str s)) (Inr raw) = Inr c)"
    by blast
qed

text \<open>
  The watcher reports exactly the changes. When every poll that finds the file can read it, and the checksum tells the
  contents apart that occur, the answers of the successive polls are the differences between the successive states of the
  file: created, deleted, modified with the new checksum, or nothing.
\<close>

theorem watcher_reports_changes:
  assumes "\<forall>v \<in> set (u # vs). view_complete v" "inj_on sha {x. Some x \<in> view_state ` set (u # vs)}"
  shows "run_checks sha vs (watcher_new sha path u) =
    map (\<lambda>(a, b). change sha path a b) (zip (map view_state (u # vs)) (map view_state vs))"
proof -
  let ?w = "watcher_new sha path u" and ?C = "{x. Some x \<in> view_state ` set (u # vs)}"
  have "view_state v \<in> insert None (Some ` ?C)" if "v \<in> set (u # vs)" for v
    using that by (cases "view_state v") (auto intro: image_eqI [of _ view_state, OF sym])
  moreover have "was_present ?w = wv_exists u" "last_checksum ?w = map_option sha (view_state u)" "watch_path ?w = path"
    using assms(1) by (auto simp: watcher_new_def Let_def view_state_def view_complete_def compute_checksum_def)
  ultimately show ?thesis using run_checks_changes [of u vs ?C sha ?w] assms by auto
qed

theorem watcher_reports_changes_witness:
  "run_checks id [\<lparr>wv_exists = True, wv_read = Some ''b'', wv_mtime = Some 2\<rparr>, \<lparr>wv_exists = False, wv_read = None, wv_mtime = None\<rparr>]
     (watcher_new id ''p'' \<lparr>wv_exists = True, wv_read = Some ''a'', wv_mtime = Some 1\<rparr>) =
   [Some (Modified ''p'' ''b''), Some (Deleted ''p'')]"
  by (subst watcher_reports_changes) (simp_all add: view_complete_def view_state_def change_def)

text \<open>
  \<^verbatim>\<open>watch\<close> returns at the first poll that has an event, after as many intervals as there were polls without one.
\<close>

theorem watch_first_event:
  "watch sha vs w = (Some (e, n, rest), w') \<Longrightarrow>
     n < length vs \<and> rest = drop (n + 1) vs \<and> run_checks sha vs w ! n = Some e \<and> (\<forall>i < n. run_checks sha vs w ! i = None)"
proof (induction vs arbitrary: w n)
  case (Cons v vs)
  obtain x w1 where c: "check_now sha v w = (x, w1)" by fastforce
  show ?case
  proof (cases x)
    case None
    then obtain m where "watch sha vs w1 = (Some (e, m, rest), w')" "n = m + 1"
      using Cons.prems c by (cases "watch sha vs w1") auto
    then show ?thesis using Cons.IH [of w1 m] c None by (auto simp: nth_Cons split: nat.split)
  qed (use Cons.prems c in auto)
qed simp

end
