(* ===== verification/Spec2Isabelle.thy ===== *)
theory Spec2Isabelle
  imports Crypto_Bindings Web_Crypto Runtime_Web Vfs_Factory Sliver_Validation Sliver_Package Worker_Limits Worker_Timeouts Metrics_Tenant Runtime_Stream Admin_Api Data_Plane Config_Loader Runtime_Timers V8_Modules Vfs_Bindings Nano_Limits Http_Router Worker_Eviction Control_Plane Work_Queue
begin

text \<open>
  A verification of the NANO edge runtime (\<^verbatim>\<open>src/src\<close>), which serves many tenants, one per hostname, from one
  process: a request is routed by its host, validated, queued to a worker of the tenant, and runs in a V8
  isolate that sees its own part of a virtual file system.

  \<^bold>\<open>Conventions.\<close> Integers keep their width (\<open>u32\<close>, \<open>u64\<close>, \<open>usize\<close> are words) where the code can wrap around
  and are natural numbers where it cannot. Strings are their UTF-8 bytes. A \<^verbatim>\<open>Result\<close> is a sum with the error
  on the left; a panic is the outcome \<open>Panic\<close> of \<open>Nano_Prelude\<close> or, for partial functions, \<open>None\<close>. Hash maps
  are association lists with distinct keys, and their order stands for the unspecified order of iteration.
  An operation under a lock or on one atomic is one step, and concurrency is the order of the steps: the
  theorems on reachable states hold for every order. The operations of the storage backends are one step each too, although the
  code does not lock them: calls on one backend that overlap in time are not modelled. Clocks are arguments. Code outside of the repository
  (V8, tokio, axum, tar, serde, the S3 client, the host's system calls) is a parameter of the definitions
  that use it; what the code relies on is stated as the assumptions of a locale, and each locale is
  interpreted on the definitions of the model.

  \<^bold>\<open>Foundations.\<close>
  \<^item> \<open>Nano_Prelude\<close>: names for machine types, the functions of the Rust library that several parts use
    (splitting, joining, searching, replacing, decimal text, association lists), shared lemmas.
  \<^item> \<open>Nano_Float\<close>: \<^verbatim>\<open>f64\<close> with rounding to nearest even, casts and comparisons; rounding is monotone, exact on
    integers of 53 bits, and keeps numbers apart that differ by more than the last place.

  \<^bold>\<open>Virtual file system\<close> (\<^verbatim>\<open>vfs/\<close>).
  \<^item> \<open>Vfs_Types\<close> (\<^verbatim>\<open>types.rs\<close>): paths, files, errors, limits. The constructor decides exactly the documented
    strings, and every path value that can be built is well formed.
  \<^item> \<open>Vfs_Security\<close> (\<^verbatim>\<open>mod.rs\<close>): path validator, resource limiter, the \<open>FileSystem\<close> client.
  \<^item> \<open>Vfs_Backend\<close>: the backend trait as a record of operations and its contract as the locales \<open>vfs_store\<close> and
    \<open>vfs_flat_store\<close>; \<open>namespaced_store\<close> in \<open>Vfs_Isolate\<close> adds namespaces.
  \<^item> \<open>Vfs_Memory\<close> (\<^verbatim>\<open>memory.rs\<close>): the backend in memory; its counters are exact and its quotas hold in every
    reachable state, and writing refines an abstract map with a quota.
  \<^item> \<open>Host_Fs\<close>, \<open>Vfs_Disk\<close> (\<^verbatim>\<open>disk.rs\<close>): the host's directory tree, in which any system call may fail and a failing
    write may store a part, and the disk backend on it: writes are atomic, opening it terminates and counts
    the stored files, paths stay below the directory of their namespace.
  \<^item> \<open>Vfs_S3\<close> (\<^verbatim>\<open>s3.rs\<close>): the S3 backend over any client that meets \<open>s3_service\<close>.
  \<^item> \<open>Vfs_Isolate\<close> (\<^verbatim>\<open>isolate.rs\<close>): the namespace of a tenant over any backend; tenants cannot see or change
    each other's files and read what they wrote.
  \<^item> \<open>Vfs_Factory\<close> (\<^verbatim>\<open>factory.rs\<close>, the enum of \<^verbatim>\<open>mod.rs\<close>): choice of the backend; isolation for whichever is chosen.
  \<^item> \<open>Vfs_Loader\<close> (\<^verbatim>\<open>loader.rs\<close>): loading a host directory terminates and stores exactly its files.

  \<^bold>\<open>Slivers\<close> (\<^verbatim>\<open>sliver/\<close>): portable archives of an application.
  \<^item> \<open>Sliver_Format\<close> (\<^verbatim>\<open>error.rs, format.rs, metadata.rs, packer.rs, unpacker.rs, restore.rs, vfs_capture.rs, mod.rs\<close>):
    packing and unpacking are inverse, restoring reproduces the files; the two captures collect nothing.
    Recursion over the backend's own listing uses fuel, and the results hold for every fuel.
  \<^item> \<open>Sliver_Validation\<close> (\<^verbatim>\<open>validation.rs\<close>): the integrity check is exact; the matrix algorithm for spelling
    suggestions computes the edit distance.
  \<^item> \<open>Sliver_Package\<close> (\<^verbatim>\<open>extractor.rs, packager.rs\<close>): extraction only writes below its temporary directory; a packed
    directory unpacks to its visible files.

  \<^bold>\<open>Applications\<close> (\<^verbatim>\<open>config/, app/, signal.rs, limits.rs\<close>).
  \<^item> \<open>Nano_Limits\<close>, \<open>Config_App\<close>: constants, configuration, both validators, which accept exactly their contracts,
    and the timeouts derived from valid limits.
  \<^item> \<open>Config_Mod\<close> (\<^verbatim>\<open>config/mod.rs\<close>): the second copy of types and validators, which is the one that the server runs, its loader,
    and how the two copies differ.
  \<^item> \<open>Config_Loader\<close> (\<^verbatim>\<open>config/loader.rs, config/watcher.rs\<close>): substitution of variables is exact; the loader of a reload never
    panics; the watcher reports exactly the changes.
  \<^item> \<open>App_Lifecycle\<close>: registry, draining of requests over a sequence of events, reload, shutdown.

  \<^bold>\<open>HTTP\<close> (\<^verbatim>\<open>http/\<close>).
  \<^item> \<open>Http_Types\<close> (\<^verbatim>\<open>headers.rs, url.rs, types.rs\<close>): headers and search parameters share the locale \<open>multimap\<close>.
  \<^item> \<open>Http_Client\<close> (\<^verbatim>\<open>client.rs, config.rs, runtime/fetch.rs\<close>): outbound requests with their checks, over any network; the text of IP
    addresses as the Rust library reads it. The client sends nothing that fails its checks, the JavaScript fetch has none.
  \<^item> \<open>Runtime_Stream\<close> (\<^verbatim>\<open>runtime/stream.rs\<close>): writable streams as a step relation that interleaves writers and the task of
    the sink; order, exclusion of writers and flushing.
  \<^item> \<open>Runtime_Timers\<close> (\<^verbatim>\<open>runtime/apis.rs\<close>, the loop of \<^verbatim>\<open>worker/pool.rs\<close>): timeouts and intervals over any behaviour of the
    JavaScript callbacks; passes fire exactly what is due, cleared intervals stay cleared, waiting ends.
  \<^item> \<open>Vfs_Bindings\<close> (\<^verbatim>\<open>runtime/vfs_bindings.rs, fs_polyfill.rs, node_compat/hooks_fs.rs\<close>): the file systems of scripts stay in their
    tenant; directories of the hooks; which threads have files at all.
  \<^item> \<open>V8_Modules\<close> (\<^verbatim>\<open>v8/module.rs\<close>, \<^verbatim>\<open>worker/pool.rs\<close>): imports stay in the tenant's own file system; how code is run and how both
    versions read the response object.
  \<^item> \<open>Runtime_Web\<close> (\<^verbatim>\<open>runtime/apis.rs\<close>): \<^verbatim>\<open>URLSearchParams\<close> and \<^verbatim>\<open>Headers\<close> share the locale \<open>named_texts\<close>; what a response of a script
    brings to the client; decoding of hexadecimal text.
  \<^item> \<open>Web_Crypto\<close> (\<^verbatim>\<open>runtime/crypto/\<close>): keys, usages, import and export, the operations over crates whose laws are named; which
    keys decrypt, export and import back, and how wrapping reveals keys.
  \<^item> \<open>Crypto_Bindings\<close> (\<^verbatim>\<open>crypto.subtle\<close> in \<^verbatim>\<open>runtime/apis.rs\<close>): the arguments of the callbacks, whose properties and getters may
    be any that the script can build from the pointers it holds; the keys it can come to hold, and the pointer that is taken for a key.
  \<^item> \<open>Http_Router\<close> (\<^verbatim>\<open>router.rs\<close>): entry points, handlers, routing, the direct handler.

  \<^bold>\<open>Workers\<close> (\<^verbatim>\<open>worker/, control_plane.rs\<close>).
  \<^item> \<open>Worker_Eviction\<close> (\<^verbatim>\<open>eviction.rs\<close>): the eviction manager refines a state machine per isolate; victims are
    eligible and optimal for the policy.
  \<^item> \<open>Memory_Monitor\<close> (\<^verbatim>\<open>memory_monitor.rs\<close>): levels by floating-point ratios decide as exact arithmetic would.
  \<^item> \<open>Worker_Limits\<close> (\<^verbatim>\<open>limits.rs, oom.rs\<close>): the memory limiter, the growth of a request, the out-of-memory monitor, whose
    checks and counters are exact.
  \<^item> \<open>Worker_Timeouts\<close> (\<^verbatim>\<open>cpu_tracker.rs, timeout.rs, app/timeout.rs\<close>): CPU tracking, the execution timer and the request
    watchdog over explicit clocks; which of them return the value of the guarded code, and when.
  \<^item> \<open>Data_Plane\<close> (\<^verbatim>\<open>data_plane.rs\<close>): the cache of handler files answers as the file system does, up to a race that is
    exhibited; the CPU guards of several threads, which share one pointer, hold their requests until the limit and may miss a timeout.
  \<^item> \<open>Control_Plane\<close> (\<^verbatim>\<open>control_plane.rs\<close>): validation, tenants and batching, with assertions as panics.
  \<^item> \<open>Worker_Pool\<close> (\<^verbatim>\<open>pool.rs, tenant_pool.rs\<close>): both pools deal tasks in turn (locale \<open>task_pool\<close>).
  \<^item> \<open>Work_Queue\<close> (\<^verbatim>\<open>queue.rs\<close>, dispatch and WebSocket upgrade of \<^verbatim>\<open>router.rs\<close>): provisioning, choice of storage, dispatch.
    Hosts share a pool exactly when the hashes of their names agree.

  \<^bold>\<open>Metrics\<close> (\<^verbatim>\<open>metrics/\<close>).
  \<^item> \<open>Metrics_Types\<close> (\<^verbatim>\<open>types.rs\<close>): wrapping counters, histograms, labelled vectors (locale \<open>metric_vec\<close>).
  \<^item> \<open>Metrics_Export\<close> (\<^verbatim>\<open>collector.rs, exporter.rs\<close>): the registry counts exactly, the Prometheus text is the
    distribution of the observations and its labels can be read back.
  \<^item> \<open>Metrics_Tenant\<close> (\<^verbatim>\<open>tenant.rs\<close>): the metrics of each tenant; its counters are exact, its units are not.

  \<^bold>\<open>Administration\<close> (\<^verbatim>\<open>admin/\<close>).
  \<^item> \<open>Admin_Api\<close>: authentication, router, handlers and diagnostics. Protected routes need the key; no request changes the
    applications, and the diagnostics are computed from the configuration.

  This theory composes the request path, WebSocket upgrades included: within the bounds that the theorem names no request makes it
  panic. One of them is a CPU limit of at most 30 seconds, which the validator of the server does not check.

  \<^bold>\<open>Not modelled.\<close> V8 itself, the creation of its isolates and contexts (\<^verbatim>\<open>v8/isolate.rs, wasm/\<close>), and callbacks that only
  pass values on to V8 or to a system library: the console, random values, \<^verbatim>\<open>structuredClone\<close>, compression and hashing for Node, the
  JavaScript side of streams, the relay of WebSocket messages, the conversion of requests (\<^verbatim>\<open>runtime/handler.rs, websocket.rs, request.rs\<close>, \<^verbatim>\<open>node_compat/\<close>). What
  they rely on is not in the repository. Conversions of script values appear as parameters, and an exception that V8 keeps pending
  after a failed conversion is not modelled. The loops of the worker threads are events. The HTTP server, the administration socket and the command line
  are glue over axum, hyper and the operating system. Log formatting and the benchmarks have no state of their own.
\<close>

section \<open>The request path\<close>

text \<open>A server with one JavaScript application, for the witness.\<close>

definition sample_state :: "unit app_state" where
  "sample_state = \<lparr>router = register ''api.example.com'' \<lparr>target_hostname = ''api.example.com'',
       target_handler = WinterTCHandler ''/app.js''\<rparr> default_router,
     app_registry = Some (from_config sample_config)\<rparr>"

text \<open>The CPU limits that the control plane admits, where CPU tracking is on.\<close>

definition cpu_limits_admitted :: "nano_config \<Rightarrow> bool" where
  "cpu_limits_admitted c = list_all (\<lambda>a. cpu_time_enabled (app_limits_of a) \<longrightarrow>
     unat (cpu_time_ms (app_limits_of a)) \<le> 30000) (apps c)"

lemma request_cpu_limit:
  assumes "cpu_limits_admitted c" "app_registry s = Some (from_config c)"
  shows "unat (get_cpu_time_limit_ms s h) \<le> 30000"
  using assms by (auto simp: get_cpu_time_limit_ms_def cpu_limits_admitted_def list_all_iff
      split: option.split dest: registered_app)

lemma validate_config_admits_cpu:
  "validate_nano_config fs base c = Inr () \<Longrightarrow> cpu_limits_admitted c"
  by (auto simp: cpu_limits_admitted_def list_all_iff validate_config_ok limits_errors_range limits_in_range_def
      dest: validate_nano_config_apps)

text \<open>Requests that are no WebSocket upgrades.\<close>

lemma http_dispatch_total:
  fixes s :: "'s app_state" and q0 :: "'s work_queue"
  assumes h_def: "h = request_host host_header" and target_def: "target = resolve (router s) h"
    and "cpu_limits_admitted c" "app_registry s = Some (from_config c)"
    and "with_vfs_config n disk (Some (from_config c)) = Ret q0" "n > 0" "CHR 0x00 \<notin> set h"
    "\<forall>e. route_entrypoint (target_handler target) = Some e \<longrightarrow> e \<noteq> [] \<and> length e \<le> 10 * 1024 * 1024"
    "\<forall>b. body = Some b \<longrightarrow> length b \<le> 1048576"
  shows "\<exists>r q'. dispatch_to_worker_pool env qe reply s rid host_header m parsed_url hs body
       (fold (queue_step qe) xs q0) = (Ret r, q')
     \<and> (status r = 400 \<and> (parsed_url = None \<or> body = None)
        \<or> route_entrypoint (target_handler target) = None \<and> (\<exists>req. r = handle env target req)
        \<or> (\<exists>task. reply task = Some (Inr r) \<and> task_hostname task = h
             \<and> route_entrypoint (target_handler target) = Some (task_entrypoint task)
             \<and> task_cpu_time_limit_ms task = get_cpu_time_limit_ms s h)
        \<or> r = text_error 500 ''Internal Server Error'')"
proof -
  let ?q = "fold (queue_step qe) xs q0"
  obtain r1 q1 where e: "queue_ensure_tenant h ?q = (r1, q1)" by fastforce
  have r1: "r1 = Ret ()" using queue_ensure_ok(1) [of h ?q] assms(7) e by simp
  have "queue_inv qe UNIV ?q" by (rule queue_run_inv [OF with_vfs_config_inv [OF assms(5)]]) simp
  then have inv: "queue_inv qe UNIV q1"
    using queue_inv_fields [of qe UNIV ?q q1] queue_ensure_fields [of h ?q] e by simp
  have n: "workers_per_pool q1 > 0"
    using queue_ensure_fields(3) [of h ?q] e with_vfs_config_workers [OF assms(5)] assms(6)
    by (simp add: queue_run_workers)
  show ?thesis
  proof (cases "parsed_url = None \<or> body = None \<or> route_entrypoint (target_handler target) = None")
    case True
    then show ?thesis unfolding target_def h_def
      by (auto simp: dispatch_to_worker_pool_def Let_def bad_request_def
          with_body_def with_body_bytes_def with_header_def with_status_def response_new_def
          split: option.split)
  next
    case False
    then obtain u b entry where d: "parsed_url = Some u" "body = Some b"
      "route_entrypoint (target_handler target) = Some entry" by auto
    define task where "task = \<lparr>task_entrypoint = entry, task_request = \<lparr>req_method = m, url = u,
        req_headers = hs, req_body = (if b = [] then None else Some b)\<rparr>, task_hostname = h,
      task_cpu_time_limit_ms = get_cpu_time_limit_ms s h, task_request_id = rid,
      task_memory_limit_mb = 0, task_ws = False\<rparr>"
    have cpu: "unat (task_cpu_time_limit_ms task) \<le> 30000"
      using request_cpu_limit [OF assms(3,4)] by (simp add: task_def)
    have "length b \<le> 1048576" "entry \<noteq> []" "length entry \<le> 10 * 1024 * 1024"
      using assms(8,9) d by auto
    then have v: "(case wq_control_plane q1 of None \<Rightarrow> Ret (Inr ())
        | Some cp \<Rightarrow> validate_request_ref cp task) = Ret (Inr ())"
      using queue_ensure_ok(2) [OF assms(7), of ?q] e cpu
      by (auto simp: task_def task_body_size_def intro!: validate_request_ref_ok split: option.split)
    obtain r q2 where k: "queue_dispatch qe h task q1 = (Ret r, q2)" "r \<noteq> Inl ChannelFull"
      by (rule queue_dispatch_ok [OF inv n assms(7)])
    have eq: "dispatch_to_worker_pool env qe reply s rid host_header m parsed_url hs body ?q =
        (case r of Inl _ \<Rightarrow> (Ret (text_error 500 ''Internal Server Error''), q2)
         | Inr _ \<Rightarrow> (case reply task of
              Some (Inr response) \<Rightarrow> (Ret response, q2)
            | Some (Inl e) \<Rightarrow> (Ret (text_error 500 ''Internal Server Error''), q2)
            | None \<Rightarrow> (Ret (text_error 500 ''Internal Server Error''), q2)))"
      using d(3) e r1 v k unfolding target_def
      by (auto simp: dispatch_to_worker_pool_def Let_def d(1,2) h_def [symmetric] task_def [symmetric]
          split: sum.split queue_error.split)
    show ?thesis unfolding eq using d(3) cpu
      by (auto simp: task_def split: sum.split option.split)
  qed
qed

text \<open>
  C7. The request path is total. Take a server whose configured CPU limits are at most 30 seconds (the validator of
  \<^verbatim>\<open>config/app.rs\<close> ensures this, the one that the server runs does not), a queue with at least one worker per pool that has gone through any sequence of dispatches, tenant
  registrations and worker steps, and any request, WebSocket upgrades included, whose host has no NUL byte, whose body is at most
  1 MB (the HTTP library ensures both) and whose route names an entry point of 1 byte to 10 MB length. Then no assertion of the
  control plane and no index or division of the queue fails. A request for an upgrade is answered with a 403 if its route has no
  script, a 400 if it is malformed, the acceptance, or a 500. Any other is answered with a 400 for
  an undecodable request, the static response of the route, what the worker answered to a task of
  this host with this entry point and the CPU limit of the host, or a 500.
\<close>

theorem request_dispatch_total:
  fixes s :: "'s app_state" and q0 :: "'s work_queue"
  assumes h_def: "h = request_host host_header" and target_def: "target = resolve (router s) h"
    and "cpu_limits_admitted c" "app_registry s = Some (from_config c)"
    and "with_vfs_config n disk (Some (from_config c)) = Ret q0" "n > 0" "CHR 0x00 \<notin> set h"
    "\<forall>e. route_entrypoint (target_handler target) = Some e \<longrightarrow> e \<noteq> [] \<and> length e \<le> 10 * 1024 * 1024"
    "\<forall>b. body = Some b \<longrightarrow> length b \<le> 1048576"
  shows "\<exists>r q'. dispatch_request env qe reply s rid host_header upgrade_header upgrade m parsed_url hs body
       (fold (queue_step qe) xs q0) = (Ret r, q')
     \<and> (if is_ws_upgrade upgrade_header
        then route_entrypoint (target_handler target) = None \<and> r = text_error 403 ''WebSocket not supported for static handlers''
          \<or> upgrade = None \<and> r = text_error 400 ''WebSocket upgrade failed''
          \<or> parsed_url = None \<and> r = text_error 400 ''Bad Request''
          \<or> route_entrypoint (target_handler target) \<noteq> None \<and> parsed_url \<noteq> None \<and> upgrade = Some r
          \<or> r = text_error 500 ''Internal Server Error''
        else status r = 400 \<and> (parsed_url = None \<or> body = None)
          \<or> route_entrypoint (target_handler target) = None \<and> (\<exists>req. r = handle env target req)
          \<or> (\<exists>task. reply task = Some (Inr r) \<and> task_hostname task = h
               \<and> route_entrypoint (target_handler target) = Some (task_entrypoint task)
               \<and> task_cpu_time_limit_ms task = get_cpu_time_limit_ms s h)
          \<or> r = text_error 500 ''Internal Server Error'')"
proof (cases "is_ws_upgrade upgrade_header")
  case True
  let ?q = "fold (queue_step qe) xs q0"
  have inv: "queue_inv qe UNIV ?q" by (rule queue_run_inv [OF with_vfs_config_inv [OF assms(5)]]) simp
  have n: "workers_per_pool ?q > 0"
    using with_vfs_config_workers [OF assms(5)] assms(6) by (simp add: queue_run_workers)
  show ?thesis
  proof (cases "route_entrypoint (target_handler target) = None \<or> upgrade = None \<or> parsed_url = None")
    case True
    then show ?thesis using \<open>is_ws_upgrade upgrade_header\<close> unfolding target_def h_def
      by (auto simp: dispatch_request_def handle_ws_upgrade_def split: option.split)
  next
    case False
    then obtain entry accepted u where d: "route_entrypoint (target_handler target) = Some entry" "upgrade = Some accepted"
      "parsed_url = Some u" by auto
    define task where "task = \<lparr>task_entrypoint = entry,
        task_request = \<lparr>req_method = m, url = u, req_headers = hs, req_body = None\<rparr>, task_hostname = h,
        task_cpu_time_limit_ms = get_cpu_time_limit_ms s h,
        task_request_id = rid, task_memory_limit_mb = 0, task_ws = True\<rparr>"
    obtain r q' where k: "queue_dispatch qe h task ?q = (Ret r, q')" "r \<noteq> Inl ChannelFull"
      by (rule queue_dispatch_ok [OF inv n assms(7)])
    have "dispatch_request env qe reply s rid host_header upgrade_header upgrade m parsed_url hs body ?q
        = (Ret (case r of Inr _ \<Rightarrow> accepted | Inl _ \<Rightarrow> text_error 500 ''Internal Server Error''), q')"
      using True d(1) k unfolding target_def
      by (auto simp: dispatch_request_def handle_ws_upgrade_def Let_def d(2,3) h_def [symmetric] task_def [symmetric]
          split: sum.split queue_error.split)
    then show ?thesis using True d by (auto split: sum.split)
  qed
next
  case False
  then show ?thesis using http_dispatch_total [OF assms] by (simp add: dispatch_request_def)
qed

theorem request_dispatch_total_witness:
  "\<forall>upgrade_header upgrade. \<exists>r q'. dispatch_request \<lparr>env_is_dir = (\<lambda>_. False), env_read_text = (\<lambda>_. None),
        env_read = (\<lambda>_. None), env_exec_js = (\<lambda>_ _. JsTaskFailed)\<rparr> sample_env
      (\<lambda>_. Some (Inr response_ok)) sample_state ''req_1'' (Some ''api.example.com:8080'') upgrade_header upgrade ''GET''
      (Some \<lparr>href = ''http://api.example.com/'', pathname = ''/'', url_search_params = \<lparr>params = []\<rparr>\<rparr>)
      headers_new (Some [])
      (case with_vfs_config 1 None (Some (from_config sample_config)) of Ret q \<Rightarrow> q) = (Ret r, q')"
proof (intro allI)
  fix upgrade_header upgrade
  have v: "cpu_limits_admitted sample_config" by (rule validate_config_admits_cpu [of no_files None]) code_simp
  have h: "''api.example.com'' = request_host (Some ''api.example.com:8080'')" by code_simp
  have reg: "app_registry sample_state = Some (from_config sample_config)" by (simp add: sample_state_def)
  obtain q where q: "with_vfs_config 1 None (Some (from_config sample_config :: unit app_registry)) = Ret q"
    by (simp add: with_vfs_config_def all_hostnames_def from_config_def registry_new_def sample_config_def
        register_tenant_def queue_tenant_limits_def SCRIPT_SIZE_BYTES_MAX_def TIMEOUT_MS_def)
  have t: "target_handler (resolve (router sample_state) ''api.example.com'') = WinterTCHandler ''/app.js''"
    by (simp add: sample_state_def resolve_def register_def Let_def)
  have "\<exists>r q'. dispatch_request \<lparr>env_is_dir = (\<lambda>_. False), env_read_text = (\<lambda>_. None),
        env_read = (\<lambda>_. None), env_exec_js = (\<lambda>_ _. JsTaskFailed)\<rparr> sample_env
      (\<lambda>_. Some (Inr response_ok)) sample_state ''req_1'' (Some ''api.example.com:8080'') upgrade_header upgrade ''GET''
      (Some \<lparr>href = ''http://api.example.com/'', pathname = ''/'', url_search_params = \<lparr>params = []\<rparr>\<rparr>)
      headers_new (Some []) (fold (queue_step sample_env) [] q) = (Ret r, q')"
    using request_dispatch_total [OF h refl v reg q, where body = "Some []" and xs = "[]"] t
    by (simp add: route_entrypoint_def) blast
  then show "\<exists>r q'. dispatch_request \<lparr>env_is_dir = (\<lambda>_. False), env_read_text = (\<lambda>_. None),
        env_read = (\<lambda>_. None), env_exec_js = (\<lambda>_ _. JsTaskFailed)\<rparr> sample_env
      (\<lambda>_. Some (Inr response_ok)) sample_state ''req_1'' (Some ''api.example.com:8080'') upgrade_header upgrade ''GET''
      (Some \<lparr>href = ''http://api.example.com/'', pathname = ''/'', url_search_params = \<lparr>params = []\<rparr>\<rparr>)
      headers_new (Some [])
      (case with_vfs_config 1 None (Some (from_config sample_config)) of Ret q \<Rightarrow> q) = (Ret r, q')"
    unfolding q by simp
qed



end
